(* ===== verification/CO_Prelude.thy ===== *)
theory CO_Prelude
  imports Main "HOL-Library.Word" "HOL-Library.Monad_Syntax"
begin

text \<open>
  Shared vocabulary of the development: the machine integers of the C sources, byte
  buffers with C's undefined behaviour on out-of-range accesses made explicit, the
  little-endian encodings that \<open>memcpy\<close> of an integer produces on the modelled target,
  and the generic list and word lemmas that the component theories use.
\<close>

unbundle bit_operations_syntax

named_theorems co_simps \<open>equations of the model that unfold during symbolic evaluation\<close>
named_theorems wordnat \<open>transfer of word arithmetic to natural numbers\<close>

type_synonym u8 = "8 word"
type_synonym u16 = "16 word"
type_synonym u32 = "32 word"
type_synonym u64 = "64 word"

section \<open>Byte buffers\<close>

text \<open>
  A C array of known size is a list of that length. A \<open>memcpy\<close> into or out of it is
  defined only inside the array: outside, C's behaviour is undefined, which the model
  records as \<^const>\<open>None\<close>. A theorem that a function returns \<^const>\<open>Some\<close> is a
  memory-safety theorem about the C function.
\<close>

definition buf_write :: "'a list \<Rightarrow> nat \<Rightarrow> 'a list \<Rightarrow> 'a list option" where
  "buf_write b off d =
     (if off + length d \<le> length b then Some (take off b @ d @ drop (off + length d) b)
      else None)"

definition buf_read :: "'a list \<Rightarrow> nat \<Rightarrow> nat \<Rightarrow> 'a list option" where
  "buf_read b off n = (if off + n \<le> length b then Some (take n (drop off b)) else None)"

lemma buf_write_Some:
  "off + length d \<le> length b \<Longrightarrow>
   buf_write b off d = Some (take off b @ d @ drop (off + length d) b)"
  by (simp add: buf_write_def)

lemma buf_write_length: "buf_write b off d = Some b' \<Longrightarrow> length b' = length b"
  by (auto simp: buf_write_def split: if_splits)

lemma buf_write_take: "buf_write b off d = Some b' \<Longrightarrow> take off b' = take off b"
  by (auto simp: buf_write_def split: if_splits)

lemma buf_write_prefix:
  "buf_write b off d = Some b' \<Longrightarrow> take (off + length d) b' = take off b @ d"
  by (auto simp: buf_write_def split: if_splits)

lemma buf_read_Some: "off + n \<le> length b \<Longrightarrow> buf_read b off n = Some (take n (drop off b))"
  by (simp add: buf_read_def)

lemma buf_read_length: "buf_read b off n = Some d \<Longrightarrow> length d = n"
  by (auto simp: buf_read_def split: if_splits)

lemma buf_read_write:
  "buf_write b off d = Some b' \<Longrightarrow> buf_read b' off (length d) = Some d"
  by (auto simp: buf_write_def buf_read_def split: if_splits)

text \<open>One element of an array.\<close>

definition arr_get :: "'a list \<Rightarrow> nat \<Rightarrow> 'a option" where
  "arr_get xs i = (if i < length xs then Some (xs ! i) else None)"

definition arr_set :: "'a list \<Rightarrow> nat \<Rightarrow> 'a \<Rightarrow> 'a list option" where
  "arr_set xs i v = (if i < length xs then Some (xs[i := v]) else None)"

lemma arr_get_Some [simp]: "i < length xs \<Longrightarrow> arr_get xs i = Some (xs ! i)"
  by (simp add: arr_get_def)

lemma arr_set_Some [simp]: "i < length xs \<Longrightarrow> arr_set xs i v = Some (xs[i := v])"
  by (simp add: arr_set_def)

section \<open>Weakest preconditions of computations that may be undefined\<close>

text \<open>
  \<open>wp r Q\<close> states that the computation \<open>r\<close> is defined and its result satisfies \<open>Q\<close>. The rules
  below take a handler apart along its \<open>do\<close> block; they are collected in \<open>wp_rules\<close>.
\<close>

named_theorems wp_rules \<open>weakest-precondition rules\<close>

definition wp :: "'a option \<Rightarrow> ('a \<Rightarrow> bool) \<Rightarrow> bool" where
  "wp r Q = (case r of None \<Rightarrow> False | Some x \<Rightarrow> Q x)"

lemma wp_Some [simp]: "wp (Some x) Q = Q x"
  by (simp add: wp_def)

lemma wp_None [simp]: "\<not> wp None Q"
  by (simp add: wp_def)

lemma wp_bind [simp]: "wp (r \<bind> f) Q = wp r (\<lambda>x. wp (f x) Q)"
  by (cases r) simp_all

lemma wp_map_option [simp]: "wp (map_option f r) Q = wp r (\<lambda>x. Q (f x))"
  by (cases r) simp_all

lemma wp_mono: "wp r P \<Longrightarrow> (\<And>x. P x \<Longrightarrow> Q x) \<Longrightarrow> wp r Q"
  by (cases r) simp_all

lemma wp_if: "wp (if c then r else r') Q = ((c \<longrightarrow> wp r Q) \<and> (\<not> c \<longrightarrow> wp r' Q))"
  by simp

lemma wp_ex: "wp r Q \<longleftrightarrow> (\<exists>x. r = Some x \<and> Q x)"
  by (cases r) simp_all

lemma wp_SomeD: "wp r Q \<Longrightarrow> r = Some x \<Longrightarrow> Q x"
  by simp

lemma wp_buf_write [wp_rules]:
  "off + length d \<le> length b \<Longrightarrow> (\<And>b'. length b' = length b \<Longrightarrow> Q b') \<Longrightarrow> wp (buf_write b off d) Q"
  by (simp add: buf_write_def)

lemma wp_buf_read [wp_rules]:
  "off + n \<le> length b \<Longrightarrow> (\<And>d. length d = n \<Longrightarrow> Q d) \<Longrightarrow> wp (buf_read b off n) Q"
  by (simp add: buf_read_def)

section \<open>Words and natural numbers\<close>

lemma unat_plus_small [wordnat]:
  fixes x y :: "'a::len word"
  shows "unat x + unat y < 2 ^ LENGTH('a) \<Longrightarrow> unat (x + y) = unat x + unat y"
  by (simp add: unat_word_ariths)

lemma unat_minus_ge [wordnat]:
  fixes x y :: "'a::len word"
  shows "unat y \<le> unat x \<Longrightarrow> unat (x - y) = unat x - unat y"
  by (simp add: unat_sub word_le_nat_alt)

lemma unat_mult_small [wordnat]:
  fixes x y :: "'a::len word"
  shows "unat x * unat y < 2 ^ LENGTH('a) \<Longrightarrow> unat (x * y) = unat x * unat y"
  by (simp add: unat_word_ariths)

lemma unat_u8_less: "unat (b :: u8) < 256"
  using unsigned_less [of b] by simp

lemma unat_u16_less: "unat (b :: u16) < 65536"
  using unsigned_less [of b] by simp

lemma unat_u32_less: "unat (b :: u32) < 4294967296"
  using unsigned_less [of b] by simp

lemma unat_ucast_8_32: "unat (ucast (x :: u8) :: u32) = unat x"
  using unat_u8_less [of x] by (simp add: unsigned_ucast_eq take_bit_eq_mod)

lemma unat_ucast_8_16: "unat (ucast (x :: u8) :: u16) = unat x"
  using unat_u8_less [of x] by (simp add: unsigned_ucast_eq take_bit_eq_mod)

lemma unat_ucast_16_32: "unat (ucast (x :: u16) :: u32) = unat x"
  using unat_u16_less [of x] by (simp add: unsigned_ucast_eq take_bit_eq_mod)

lemma unat_ucast_32_8: "unat (w :: u32) < 256 \<Longrightarrow> unat (ucast w :: u8) = unat w"
  by (simp add: unsigned_ucast_eq take_bit_eq_mod)

lemma unat_ucast_32_16: "unat (w :: u32) < 65536 \<Longrightarrow> unat (ucast w :: u16) = unat w"
  by (simp add: unsigned_ucast_eq take_bit_eq_mod)

lemma word_eq_by_bits:
  fixes v w :: "'a::len word"
  shows "(\<And>n. n < LENGTH('a) \<Longrightarrow> bit v n = bit w n) \<Longrightarrow> v = w"
  by (rule bit_word_eqI) simp

lemma xor_eq_0_word: "(v :: 'a::len word) XOR w = 0 \<longleftrightarrow> v = w"
proof
  assume "v XOR w = 0"
  then have "bit (v XOR w) n = False" for n by simp
  then show "v = w" by (intro bit_word_eqI) (simp add: bit_xor_iff)
qed simp

lemma xor_left_cancel: "(u :: 'a::len word) XOR v = u XOR w \<longleftrightarrow> v = w"
proof
  assume "u XOR v = u XOR w"
  then have "bit (u XOR v) n = bit (u XOR w) n" for n by simp
  then show "v = w" by (intro bit_word_eqI) (auto simp: bit_xor_iff)
qed simp

lemma xor_right_cancel: "(v :: 'a::len word) XOR u = w XOR u \<longleftrightarrow> v = w"
  by (simp add: xor_left_cancel xor.commute [of _ u])

lemma bit_push_bit_1_word:
  "bit (push_bit 1 x :: 'a::len word) n \<longleftrightarrow> 0 < n \<and> n < LENGTH('a) \<and> bit x (n - 1)"
  by (simp only: bit_push_bit_iff) auto

section \<open>Little-endian encodings\<close>

text \<open>
  The modelled target is little-endian (\<open>CO_SWAP_16/32/64\<close> are the identity), so copying an
  integer byte by byte yields its bytes from the least significant one.
\<close>

definition le_bytes :: "nat \<Rightarrow> 'a::len word \<Rightarrow> u8 list" where
  "le_bytes n w = map (\<lambda>i. ucast (drop_bit (8 * i) w)) [0..<n]"

fun le_word :: "u8 list \<Rightarrow> 'a::len word" where
  "le_word [] = 0"
| "le_word (b # bs) = ucast b OR push_bit 8 (le_word bs)"

lemma length_le_bytes [simp]: "length (le_bytes n w) = n"
  by (simp add: le_bytes_def)

lemma le_bytes_Suc:
  "le_bytes (Suc n) w = ucast w # le_bytes n (drop_bit 8 w)"
proof -
  have "[0..<Suc n] = 0 # map Suc [0..<n]"
    by (simp add: map_Suc_upt upt_conv_Cons del: upt_Suc)
  then show ?thesis
    by (simp add: le_bytes_def comp_def drop_bit_drop_bit ac_simps del: upt_Suc)
qed

lemma le_word_le_bytes_bit:
  "m < LENGTH('a) \<Longrightarrow>
   bit (le_word (le_bytes n w) :: 'a::len word) m \<longleftrightarrow> m < 8 * n \<and> bit (w :: 'a word) m"
proof (induction n arbitrary: w m)
  case 0
  then show ?case by (simp add: le_bytes_def)
next
  case (Suc n)
  show ?case
  proof (cases "m < 8")
    case True
    with Suc.prems show ?thesis
      by (auto simp: le_bytes_Suc bit_or_iff bit_push_bit_iff bit_ucast_iff)
  next
    case False
    with Suc.prems have "bit (le_word (le_bytes n (drop_bit 8 w)) :: 'a word) (m - 8) \<longleftrightarrow>
        m - 8 < 8 * n \<and> bit (drop_bit 8 w) (m - 8)"
      by (intro Suc.IH) simp
    with False Suc.prems show ?thesis
      by (auto simp: le_bytes_Suc bit_or_iff bit_push_bit_iff bit_ucast_iff bit_drop_bit_eq)
  qed
qed

text \<open>Decoding the bytes of an integer gives it back, when all its bytes were copied.\<close>

lemma le_word_le_bytes:
  fixes w :: "'a::len word"
  assumes "LENGTH('a) \<le> 8 * n"
  shows "le_word (le_bytes n w) = w"
  using assms by (intro word_eq_by_bits) (simp add: le_word_le_bytes_bit)

lemma le_word_le_bytes32: "le_word (le_bytes 4 (x :: u32)) = x"
  and le_word_le_bytes16: "le_word (le_bytes 2 (y :: u16)) = y"
  by (rule le_word_le_bytes; simp)+

end
