(* ===== verification/OD_Interface.thy ===== *)
theory OD_Interface
  imports CO_Prelude
begin

text \<open>
  The object dictionary interface (\<open>301/CO_ODinterface.c\<close>, \<open>301/CO_ODinterface.h\<close>): the
  dictionary's entries and objects, the binary search for an index, the selection of a
  sub-object, the default read and write access to the variables in memory, and the
  value accessors. Pointers into the variables' memory are addresses (\<^const>\<open>None\<close> is
  \<open>NULL\<close>) of a flat byte memory, so aliasing between objects is kept. The access functions
  of an application's extension are values of the same function types as the default ones.
\<close>

section \<open>Memory\<close>

type_synonym addr = nat
type_synonym mem = "addr \<Rightarrow> u8"

definition mem_read :: "mem \<Rightarrow> addr \<Rightarrow> nat \<Rightarrow> u8 list" where
  "mem_read m a n = map m [a..<a + n]"

definition mem_write :: "mem \<Rightarrow> addr \<Rightarrow> u8 list \<Rightarrow> mem" where
  "mem_write m a bs = (\<lambda>x. if a \<le> x \<and> x < a + length bs then bs ! (x - a) else m x)"

section \<open>Return codes\<close>

datatype ODR =
    ODR_PARTIAL | ODR_OK | ODR_OUT_OF_MEM | ODR_UNSUPP_ACCESS | ODR_WRITEONLY | ODR_READONLY
  | ODR_IDX_NOT_EXIST | ODR_NO_MAP | ODR_MAP_LEN | ODR_PAR_INCOMPAT | ODR_DEV_INCOMPAT | ODR_HW
  | ODR_TYPE_MISMATCH | ODR_DATA_LONG | ODR_DATA_SHORT | ODR_SUB_NOT_EXIST | ODR_INVALID_VALUE
  | ODR_VALUE_HIGH | ODR_VALUE_LOW | ODR_MAX_LESS_MIN | ODR_NO_RESOURCE | ODR_GENERAL
  | ODR_DATA_TRANSF | ODR_DATA_LOC_CTRL | ODR_DATA_DEV_STATE | ODR_OD_MISSING | ODR_NO_DATA
  | ODR_COUNT

fun odr_value :: "ODR \<Rightarrow> int" where
  "odr_value ODR_PARTIAL = -1"
| "odr_value ODR_OK = 0"
| "odr_value ODR_OUT_OF_MEM = 1"
| "odr_value ODR_UNSUPP_ACCESS = 2"
| "odr_value ODR_WRITEONLY = 3"
| "odr_value ODR_READONLY = 4"
| "odr_value ODR_IDX_NOT_EXIST = 5"
| "odr_value ODR_NO_MAP = 6"
| "odr_value ODR_MAP_LEN = 7"
| "odr_value ODR_PAR_INCOMPAT = 8"
| "odr_value ODR_DEV_INCOMPAT = 9"
| "odr_value ODR_HW = 10"
| "odr_value ODR_TYPE_MISMATCH = 11"
| "odr_value ODR_DATA_LONG = 12"
| "odr_value ODR_DATA_SHORT = 13"
| "odr_value ODR_SUB_NOT_EXIST = 14"
| "odr_value ODR_INVALID_VALUE = 15"
| "odr_value ODR_VALUE_HIGH = 16"
| "odr_value ODR_VALUE_LOW = 17"
| "odr_value ODR_MAX_LESS_MIN = 18"
| "odr_value ODR_NO_RESOURCE = 19"
| "odr_value ODR_GENERAL = 20"
| "odr_value ODR_DATA_TRANSF = 21"
| "odr_value ODR_DATA_LOC_CTRL = 22"
| "odr_value ODR_DATA_DEV_STATE = 23"
| "odr_value ODR_OD_MISSING = 24"
| "odr_value ODR_NO_DATA = 25"
| "odr_value ODR_COUNT = 26"

definition abortCodes :: "u32 list" where
  "abortCodes = [
     0x00000000, 0x05040005, 0x06010000, 0x06010001, 0x06010002, 0x06020000, 0x06040041,
     0x06040042, 0x06040043, 0x06040047, 0x06060000, 0x06070010, 0x06070012, 0x06070013,
     0x06090011, 0x06090030, 0x06090031, 0x06090032, 0x06090036, 0x060A0023, 0x08000000,
     0x08000020, 0x08000021, 0x08000022, 0x08000023, 0x08000024]"

definition OD_getSDOabCode :: "ODR \<Rightarrow> u32" where
  "OD_getSDOabCode returnCode =
     (if odr_value returnCode < odr_value ODR_OK \<or> odr_value returnCode \<ge> odr_value ODR_COUNT
      then abortCodes ! nat (odr_value ODR_DEV_INCOMPAT)
      else abortCodes ! nat (odr_value returnCode))"

section \<open>Attributes\<close>

abbreviation (input) "ODA_SDO_R \<equiv> 0x01 :: u8"
abbreviation (input) "ODA_SDO_W \<equiv> 0x02 :: u8"
abbreviation (input) "ODA_SDO_RW \<equiv> 0x03 :: u8"
abbreviation (input) "ODA_TRPDO \<equiv> 0x0C :: u8"
abbreviation (input) "ODA_TRSRDO \<equiv> 0x30 :: u8"
abbreviation (input) "ODA_MB \<equiv> 0x40 :: u8"
abbreviation (input) "ODA_STR \<equiv> 0x80 :: u8"

section \<open>Streams and access functions\<close>

record OD_stream =
  dataOrig :: "addr option"
  stream_object :: "addr option"
  dataLength :: u32
  dataOffset :: u32
  attribute :: u8
  stream_index :: u16
  stream_subIndex :: u8

text \<open>
  A read function gets the stream and the size of the caller's buffer and returns its code,
  the updated stream and the bytes it copied (\<open>countRead\<close> is their number); a write function
  gets the caller's buffer and returns the number of bytes taken. Both may change memory.
\<close>

type_synonym OD_read_fn = "OD_stream \<Rightarrow> u32 \<Rightarrow> mem \<Rightarrow> ODR \<times> OD_stream \<times> u8 list \<times> mem"
type_synonym OD_write_fn = "OD_stream \<Rightarrow> u8 list \<Rightarrow> mem \<Rightarrow> ODR \<times> OD_stream \<times> u32 \<times> mem"

record OD_IO =
  stream :: OD_stream
  io_read :: OD_read_fn
  io_write :: OD_write_fn

definition OD_readOriginal :: OD_read_fn where
  "OD_readOriginal s count m =
     (case dataOrig s of
        None \<Rightarrow> (ODR_SUB_NOT_EXIST, s, [], m)
      | Some a \<Rightarrow>
          (let dataLenToCopy = dataLength s in
           if dataOffset s > 0 \<or> dataLenToCopy > count then
             if dataOffset s \<ge> dataLenToCopy then (ODR_DEV_INCOMPAT, s, [], m)
             else
               let rest = dataLenToCopy - dataOffset s; a' = a + unat (dataOffset s) in
               if rest > count then
                 (ODR_PARTIAL, s\<lparr>dataOffset := dataOffset s + count\<rparr>, mem_read m a' (unat count), m)
               else (ODR_OK, s\<lparr>dataOffset := 0\<rparr>, mem_read m a' (unat rest), m)
           else (ODR_OK, s, mem_read m a (unat dataLenToCopy), m)))"

text \<open>The size of the caller's buffer is an \<open>OD_size_t\<close>, that is a 32-bit word.\<close>

definition OD_writeOriginal :: OD_write_fn where
  "OD_writeOriginal s buf m =
     (let count = word_of_nat (length buf) :: u32 in
      case dataOrig s of
        None \<Rightarrow> (ODR_SUB_NOT_EXIST, s, 0, m)
      | Some a \<Rightarrow>
          (let len = dataLength s in
           if dataOffset s > 0 \<or> len > count then
             if dataOffset s \<ge> len then (ODR_DEV_INCOMPAT, s, 0, m)
             else
               let rest = len - dataOffset s; a' = a + unat (dataOffset s) in
               if rest > count then
                 (ODR_PARTIAL, s\<lparr>dataOffset := dataOffset s + count\<rparr>, count,
                  mem_write m a' (take (unat count) buf))
               else if rest < count then (ODR_DATA_LONG, s\<lparr>dataOffset := 0\<rparr>, 0, m)
               else (ODR_OK, s\<lparr>dataOffset := 0\<rparr>, rest, mem_write m a' (take (unat rest) buf))
           else if len < count then (ODR_DATA_LONG, s, 0, m)
           else (ODR_OK, s, len, mem_write m a (take (unat len) buf))))"

definition OD_readDisabled :: OD_read_fn where
  "OD_readDisabled s count m = (ODR_UNSUPP_ACCESS, s, [], m)"

definition OD_writeDisabled :: OD_write_fn where
  "OD_writeDisabled s buf m = (ODR_UNSUPP_ACCESS, s, 0, m)"

section \<open>Entries\<close>

record OD_extension =
  ext_object :: "addr option"
  ext_read :: "OD_read_fn option"
  ext_write :: "OD_write_fn option"
  flagsPDO :: "u8 list"

record OD_obj_var =
  var_dataOrig :: "addr option"
  var_attribute :: u8
  var_dataLength :: u32

record OD_obj_array =
  arr_dataOrig0 :: "addr option"
  arr_dataOrig :: "addr option"
  arr_attribute0 :: u8
  arr_attribute :: u8
  arr_dataElementLength :: u32
  arr_dataElementSizeof :: u32

record OD_obj_record =
  rec_dataOrig :: "addr option"
  rec_subIndex :: u8
  rec_attribute :: u8
  rec_dataLength :: u32

text \<open>The object behind \<open>odObject\<close>, tagged by \<open>odObjectType & ODT_TYPE_MASK\<close>.\<close>

datatype od_object =
    ODT_VAR OD_obj_var
  | ODT_ARR OD_obj_array
  | ODT_REC "OD_obj_record list"
  | ODT_UNKNOWN

record OD_entry =
  entry_index :: u16
  subEntriesCount :: u8
  odObject :: "od_object option"
  extension :: "OD_extension option"

type_synonym OD_t = "OD_entry list"

section \<open>Search\<close>

text \<open>
  The loop of \<open>OD_find\<close>. The indices \<open>min\<close> and \<open>max\<close> are 16-bit in the source; they stay
  below the number of entries, which is a 16-bit value itself, so they are natural numbers
  here. The loop narrows \<open>max - min\<close>, which is its measure.
\<close>

function OD_find_loop :: "OD_t \<Rightarrow> u16 \<Rightarrow> nat \<Rightarrow> nat \<Rightarrow> OD_entry option" where
  "OD_find_loop od i mn mx =
     (if mn < mx then
        let cur = (mn + mx) div 2; entry = od ! cur in
        if i = entry_index entry then Some entry
        else if i < entry_index entry then OD_find_loop od i mn (if cur > 0 then cur - 1 else cur)
        else OD_find_loop od i (cur + 1) mx
      else if mn = mx then
        let entry = od ! mn in if i = entry_index entry then Some entry else None
      else None)"
  by pat_completeness auto
termination
  by (relation "measure (\<lambda>(od, i, mn, mx). mx - mn)") (auto split: if_splits)

declare OD_find_loop.simps [simp del]

definition OD_find :: "OD_t \<Rightarrow> u16 \<Rightarrow> OD_entry option" where
  "OD_find od i = (if length od = 0 then None else OD_find_loop od i 0 (length od - 1))"

section \<open>Sub-objects\<close>

definition var_stream :: "addr option \<Rightarrow> u8 \<Rightarrow> u32 \<Rightarrow> OD_stream \<Rightarrow> OD_stream" where
  "var_stream a att len s = s\<lparr>attribute := att, dataOrig := a, dataLength := len\<rparr>"

definition OD_getSub_stream :: "OD_entry \<Rightarrow> od_object \<Rightarrow> u8 \<Rightarrow> OD_stream \<Rightarrow> ODR \<times> OD_stream" where
  "OD_getSub_stream entry obj sub s =
     (case obj of
        ODT_VAR odo \<Rightarrow>
          if sub > 0 then (ODR_SUB_NOT_EXIST, s)
          else (ODR_OK, var_stream (var_dataOrig odo) (var_attribute odo) (var_dataLength odo) s)
      | ODT_ARR odo \<Rightarrow>
          if sub \<ge> subEntriesCount entry then (ODR_SUB_NOT_EXIST, s)
          else if sub = 0 then (ODR_OK, var_stream (arr_dataOrig0 odo) (arr_attribute0 odo) 1 s)
          else
            (ODR_OK,
             var_stream
               (case arr_dataOrig odo of
                  None \<Rightarrow> None
                | Some p \<Rightarrow> Some (p + unat (arr_dataElementSizeof odo * ucast (sub - 1))))
               (arr_attribute odo) (arr_dataElementLength odo) s)
      | ODT_REC odoArr \<Rightarrow>
          (case find (\<lambda>r. rec_subIndex r = sub) (take (unat (subEntriesCount entry)) odoArr) of
             None \<Rightarrow> (ODR_SUB_NOT_EXIST, s)
           | Some odo \<Rightarrow>
               (ODR_OK, var_stream (rec_dataOrig odo) (rec_attribute odo) (rec_dataLength odo) s))
      | ODT_UNKNOWN \<Rightarrow> (ODR_DEV_INCOMPAT, s))"

definition OD_getSub :: "OD_entry option \<Rightarrow> u8 \<Rightarrow> OD_IO \<Rightarrow> bool \<Rightarrow> ODR \<times> OD_IO" where
  "OD_getSub entry sub io odOrig =
     (case entry of
        None \<Rightarrow> (ODR_IDX_NOT_EXIST, io)
      | Some e \<Rightarrow>
          (case odObject e of
             None \<Rightarrow> (ODR_IDX_NOT_EXIST, io)
           | Some obj \<Rightarrow>
               (let (ret, s) = OD_getSub_stream e obj sub (stream io) in
                if ret = ODR_OK then
                  let (rd, wr, ob) =
                    (case extension e of
                       None \<Rightarrow> (OD_readOriginal, OD_writeOriginal, None)
                     | Some x \<Rightarrow>
                         if odOrig then (OD_readOriginal, OD_writeOriginal, None)
                         else
                           ((case ext_read x of Some f \<Rightarrow> f | None \<Rightarrow> OD_readDisabled),
                            (case ext_write x of Some f \<Rightarrow> f | None \<Rightarrow> OD_writeDisabled),
                            ext_object x))
                  in (ODR_OK,
                      \<lparr>stream = s\<lparr>stream_object := ob, dataOffset := 0,
                                  stream_index := entry_index e, stream_subIndex := sub\<rparr>,
                       io_read = rd, io_write = wr\<rparr>)
                else (ret, io\<lparr>stream := s\<rparr>))))"

section \<open>Helpers of the header\<close>

definition OD_getIndex :: "OD_entry option \<Rightarrow> u16" where
  "OD_getIndex entry = (case entry of Some e \<Rightarrow> entry_index e | None \<Rightarrow> 0)"

definition OD_mappable :: "OD_stream option \<Rightarrow> bool" where
  "OD_mappable s =
     (case s of Some st \<Rightarrow> attribute st AND (ODA_TRPDO OR ODA_TRSRDO) \<noteq> 0 | None \<Rightarrow> False)"

definition OD_rwRestart :: "OD_stream \<Rightarrow> OD_stream" where
  "OD_rwRestart s = s\<lparr>dataOffset := 0\<rparr>"

text \<open>\<open>OD_FLAGS_PDO_SIZE\<close> bytes of TPDO request flags, one bit per sub-index.\<close>

definition OD_FLAGS_PDO_SIZE :: nat where
  "OD_FLAGS_PDO_SIZE = 4"

definition OD_requestTPDO :: "OD_entry \<Rightarrow> u8 \<Rightarrow> OD_entry" where
  "OD_requestTPDO e sub =
     (case extension e of
        Some x \<Rightarrow>
          if unat sub < OD_FLAGS_PDO_SIZE * 8 then
            let k = unat (drop_bit 3 sub); mask = NOT (push_bit (unat (sub AND 0x07)) 1) in
            e\<lparr>extension := Some (x\<lparr>flagsPDO := (flagsPDO x)[k := flagsPDO x ! k AND mask]\<rparr>)\<rparr>
          else e
      | None \<Rightarrow> e)"

definition OD_TPDOtransmitted :: "OD_entry \<Rightarrow> u8 \<Rightarrow> bool" where
  "OD_TPDOtransmitted e sub =
     (case extension e of
        Some x \<Rightarrow>
          unat sub < OD_FLAGS_PDO_SIZE * 8 \<and>
          flagsPDO x ! unat (drop_bit 3 sub) AND push_bit (unat (sub AND 0x07)) 1 \<noteq> 0
      | None \<Rightarrow> False)"

definition OD_extension_init :: "OD_entry \<Rightarrow> OD_extension option \<Rightarrow> ODR \<times> OD_entry" where
  "OD_extension_init e x = (ODR_OK, e\<lparr>extension := x\<rparr>)"

section \<open>Value accessors\<close>

text \<open>The zero-initialised \<open>OD_IO_t io = {NULL}\<close> of the accessors; \<open>OD_getSub\<close> fills it in.\<close>

definition OD_IO_null :: OD_IO where
  "OD_IO_null =
     \<lparr>stream = \<lparr>dataOrig = None, stream_object = None, dataLength = 0, dataOffset = 0,
                attribute = 0, stream_index = 0, stream_subIndex = 0\<rparr>,
      io_read = OD_readDisabled, io_write = OD_writeDisabled\<rparr>"

definition OD_get_value :: "OD_entry option \<Rightarrow> u8 \<Rightarrow> u32 \<Rightarrow> bool \<Rightarrow> mem \<Rightarrow> ODR \<times> u8 list \<times> mem" where
  "OD_get_value entry sub len odOrig m =
     (let (ret, io) = OD_getSub entry sub OD_IO_null odOrig in
      if ret \<noteq> ODR_OK then (ret, [], m)
      else if dataLength (stream io) \<noteq> len then (ODR_TYPE_MISMATCH, [], m)
      else let (ret', _, bs, m') = io_read io (stream io) len m in (ret', bs, m'))"

definition OD_set_value :: "OD_entry option \<Rightarrow> u8 \<Rightarrow> u8 list \<Rightarrow> bool \<Rightarrow> mem \<Rightarrow> ODR \<times> mem" where
  "OD_set_value entry sub val odOrig m =
     (let (ret, io) = OD_getSub entry sub OD_IO_null odOrig in
      if ret \<noteq> ODR_OK then (ret, m)
      else if dataLength (stream io) \<noteq> word_of_nat (length val) then (ODR_TYPE_MISMATCH, m)
      else let (ret', _, _, m') = io_write io (stream io) val m in (ret', m'))"

definition OD_getPtr :: "OD_entry option \<Rightarrow> u8 \<Rightarrow> u32 \<Rightarrow> ODR \<times> addr option" where
  "OD_getPtr entry sub len =
     (let (ret, io) = OD_getSub entry sub OD_IO_null True;
          errCopy =
            (if ret = ODR_OK then
               if dataOrig (stream io) = None \<or> dataLength (stream io) = 0 then ODR_DEV_INCOMPAT
               else if len \<noteq> 0 \<and> len \<noteq> dataLength (stream io) then ODR_TYPE_MISMATCH
               else ODR_OK
             else ret)
      in (errCopy, if errCopy = ODR_OK then dataOrig (stream io) else None))"

text \<open>The typed accessors \<open>OD_get_u8\<close> ... \<open>OD_set_u32\<close> copy the integer's bytes.\<close>

definition OD_get_u8 :: "OD_entry option \<Rightarrow> u8 \<Rightarrow> bool \<Rightarrow> mem \<Rightarrow> ODR \<times> u8 \<times> mem" where
  "OD_get_u8 e sub odOrig m = (let (r, bs, m') = OD_get_value e sub 1 odOrig m in (r, le_word bs, m'))"

definition OD_get_u16 :: "OD_entry option \<Rightarrow> u8 \<Rightarrow> bool \<Rightarrow> mem \<Rightarrow> ODR \<times> u16 \<times> mem" where
  "OD_get_u16 e sub odOrig m = (let (r, bs, m') = OD_get_value e sub 2 odOrig m in (r, le_word bs, m'))"

definition OD_get_u32 :: "OD_entry option \<Rightarrow> u8 \<Rightarrow> bool \<Rightarrow> mem \<Rightarrow> ODR \<times> u32 \<times> mem" where
  "OD_get_u32 e sub odOrig m = (let (r, bs, m') = OD_get_value e sub 4 odOrig m in (r, le_word bs, m'))"

definition OD_set_u8 :: "OD_entry option \<Rightarrow> u8 \<Rightarrow> u8 \<Rightarrow> bool \<Rightarrow> mem \<Rightarrow> ODR \<times> mem" where
  "OD_set_u8 e sub val odOrig m = OD_set_value e sub (le_bytes 1 val) odOrig m"

definition OD_set_u16 :: "OD_entry option \<Rightarrow> u8 \<Rightarrow> u16 \<Rightarrow> bool \<Rightarrow> mem \<Rightarrow> ODR \<times> mem" where
  "OD_set_u16 e sub val odOrig m = OD_set_value e sub (le_bytes 2 val) odOrig m"

definition OD_set_u32 :: "OD_entry option \<Rightarrow> u8 \<Rightarrow> u32 \<Rightarrow> bool \<Rightarrow> mem \<Rightarrow> ODR \<times> mem" where
  "OD_set_u32 e sub val odOrig m = OD_set_value e sub (le_bytes 4 val) odOrig m"

section \<open>Memory lemmas\<close>

lemma length_mem_read [simp]: "length (mem_read m a n) = n"
  by (simp add: mem_read_def)

lemma nth_mem_read: "i < n \<Longrightarrow> mem_read m a n ! i = m (a + i)"
  by (simp add: mem_read_def)

lemma mem_read_write_same: "mem_read (mem_write m a bs) a (length bs) = bs"
  by (rule nth_equalityI) (simp_all add: nth_mem_read mem_write_def)

lemma mem_read_write_disjoint:
  "a + n \<le> b \<or> b + length bs \<le> a \<Longrightarrow> mem_read (mem_write m b bs) a n = mem_read m a n"
  by (rule nth_equalityI) (auto simp: nth_mem_read mem_write_def)

lemma mem_read_append: "mem_read m a (n + k) = mem_read m a n @ mem_read m (a + n) k"
  by (rule nth_equalityI) (auto simp: nth_mem_read nth_append)

lemma take_mem_read: "k \<le> n \<Longrightarrow> take k (mem_read m a n) = mem_read m a k"
  by (rule nth_equalityI) (simp_all add: nth_mem_read)

lemma drop_mem_read: "drop k (mem_read m a n) = mem_read m (a + k) (n - k)"
  by (rule nth_equalityI) (simp_all add: nth_mem_read add.assoc)

lemma mem_write_Nil [simp]: "mem_write m a [] = m"
  by (rule ext) (auto simp: mem_write_def)

lemma mem_write_append:
  "mem_write (mem_write m a bs) (a + length bs) cs = mem_write m a (bs @ cs)"
  by (rule ext) (auto simp: mem_write_def nth_append)

lemma mem_write_outside: "x < a \<or> a + length bs \<le> x \<Longrightarrow> mem_write m a bs x = m x"
  by (auto simp: mem_write_def)

section \<open>The search finds exactly the entry with the index\<close>

abbreviation od_sorted :: "OD_t \<Rightarrow> bool" where
  "od_sorted od \<equiv> sorted_wrt (<) (map entry_index od)"

lemma od_sorted_nth:
  "od_sorted od \<Longrightarrow> j < k \<Longrightarrow> k < length od \<Longrightarrow> entry_index (od ! j) < entry_index (od ! k)"
  by (simp add: sorted_wrt_iff_nth_less)

lemma od_sorted_inj:
  assumes "od_sorted od" "j < length od" "k < length od" "entry_index (od ! j) = entry_index (od ! k)"
  shows "j = k"
proof (rule ccontr)
  assume "j \<noteq> k"
  then consider "j < k" | "k < j" by linarith
  then show False
    by cases (use od_sorted_nth [of od] assms in fastforce)+
qed

lemma OD_find_loop_sound:
  "OD_find_loop od i mn mx = Some e \<Longrightarrow> mx < length od \<Longrightarrow> e \<in> set od \<and> entry_index e = i"
proof (induction od i mn mx rule: OD_find_loop.induct)
  case (1 od i mn mx)
  let ?cur = "(mn + mx) div 2"
  have cur: "?cur < length od" if "mn < mx" using that "1.prems"(2) by linarith
  show ?case
  proof (cases "mn < mx")
    case True
    note lt = this
    show ?thesis
    proof (cases "i = entry_index (od ! ?cur)")
      case True
      then have "OD_find_loop od i mn mx = Some (od ! ?cur)"
        using lt by (subst OD_find_loop.simps) simp
      with True "1.prems" cur [OF lt] show ?thesis by simp
    next
      case False
      note IH = "1.IH" [OF lt refl refl False]
      show ?thesis
      proof (cases "i < entry_index (od ! ?cur)")
        case True
        with lt False "1.prems" have
          "OD_find_loop od i mn (if 0 < ?cur then ?cur - 1 else ?cur) = Some e"
          by (simp add: OD_find_loop.simps [of od i mn mx] Let_def)
        moreover have "(if 0 < ?cur then ?cur - 1 else ?cur) < length od"
          using cur [OF lt] by auto
        ultimately show ?thesis by (rule IH(1) [OF True])
      next
        case False
        with \<open>i \<noteq> _\<close> lt "1.prems" have "OD_find_loop od i (?cur + 1) mx = Some e"
          by (simp add: OD_find_loop.simps [of od i mn mx] Let_def)
        then show ?thesis by (rule IH(2) [OF False _ "1.prems"(2)])
      qed
    qed
  next
    case False
    with "1.prems" show ?thesis
      by (auto simp: OD_find_loop.simps [of od i mn mx] Let_def split: if_splits)
  qed
qed

lemma OD_find_loop_complete:
  "od_sorted od \<Longrightarrow> mx < length od \<Longrightarrow> mn \<le> k \<Longrightarrow> k \<le> mx \<Longrightarrow> entry_index (od ! k) = i \<Longrightarrow>
   OD_find_loop od i mn mx = Some (od ! k)"
proof (induction od i mn mx rule: OD_find_loop.induct)
  case (1 od i mn mx)
  let ?cur = "(mn + mx) div 2"
  show ?case
  proof (cases "mn < mx")
    case True
    note lt = this
    have cur: "mn \<le> ?cur" "?cur < mx" using lt by linarith+
    have curl: "?cur < length od" using cur "1.prems" by linarith
    consider "?cur = k" | "k < ?cur" | "?cur < k" by linarith
    then show ?thesis
    proof cases
      case 1
      with lt "1.prems" show ?thesis by (subst OD_find_loop.simps) simp
    next
      case 2
      then have less: "i < entry_index (od ! ?cur)"
        using od_sorted_nth [of od k ?cur] "1.prems" curl by simp
      then have ne: "i \<noteq> entry_index (od ! ?cur)" by simp
      have "OD_find_loop od i mn (if 0 < ?cur then ?cur - 1 else ?cur) = Some (od ! k)"
        using "1.IH"(1) [OF lt refl refl ne less] "1.prems" curl 2 by auto
      with lt ne less show ?thesis by (simp add: OD_find_loop.simps [of od i mn mx] Let_def)
    next
      case 3
      then have gt: "entry_index (od ! ?cur) < i"
        using od_sorted_nth [of od ?cur k] "1.prems" by simp
      then have ne: "i \<noteq> entry_index (od ! ?cur)" and nl: "\<not> i < entry_index (od ! ?cur)" by auto
      have "OD_find_loop od i (?cur + 1) mx = Some (od ! k)"
        using "1.IH"(2) [OF lt refl refl ne nl] "1.prems" 3 by auto
      with lt ne nl show ?thesis by (simp add: OD_find_loop.simps [of od i mn mx] Let_def)
    qed
  next
    case False
    with "1.prems" have "k = mn" "mn = mx" by auto
    with "1.prems" show ?thesis by (subst OD_find_loop.simps) simp
  qed
qed

lemma OD_find_Some: "OD_find od i = Some e \<Longrightarrow> e \<in> set od \<and> entry_index e = i"
  by (auto simp: OD_find_def split: if_splits dest!: OD_find_loop_sound)

lemma OD_find_nth:
  "od_sorted od \<Longrightarrow> k < length od \<Longrightarrow> entry_index (od ! k) = i \<Longrightarrow> OD_find od i = Some (od ! k)"
  by (auto simp: OD_find_def intro!: OD_find_loop_complete)

text \<open>
  C18: On a dictionary whose entries are ordered by index, the binary search \<open>OD_find\<close> (which
  terminates, being a total function) returns what a linear search returns: the entry with
  the index if there is one, and nothing otherwise.
\<close>

theorem OD_find_correct:
  assumes "od_sorted od"
  shows "OD_find od i = find (\<lambda>e. entry_index e = i) od"
proof (cases "find (\<lambda>e. entry_index e = i) od")
  case None
  then have "\<not> (\<exists>e \<in> set od. entry_index e = i)" by (auto simp: find_None_iff)
  with None show ?thesis by (cases "OD_find od i") (auto dest: OD_find_Some)
next
  case (Some e)
  then obtain k where "k < length od" "entry_index (od ! k) = i" "e = od ! k"
    by (auto simp: find_Some_iff)
  with assms Some show ?thesis by (simp add: OD_find_nth)
qed

theorem OD_find_correct_witness:
  "od_sorted (map (\<lambda>i. \<lparr>entry_index = i, subEntriesCount = 1, odObject = None, extension = None\<rparr>)
     [0x1000, 0x1005, 0x1017]) \<and>
   OD_find (map (\<lambda>i. \<lparr>entry_index = i, subEntriesCount = 1, odObject = None, extension = None\<rparr>)
     [0x1000, 0x1005, 0x1017]) 0x1005 =
   Some \<lparr>entry_index = 0x1005, subEntriesCount = 1, odObject = None, extension = None\<rparr>"
proof
  let ?od = "map (\<lambda>i. \<lparr>entry_index = i, subEntriesCount = 1, odObject = None, extension = None\<rparr>)
     [0x1000, 0x1005, 0x1017] :: OD_t"
  show s: "od_sorted ?od" by simp
  show "OD_find ?od 0x1005 =
      Some \<lparr>entry_index = 0x1005, subEntriesCount = 1, odObject = None, extension = None\<rparr>"
    using OD_find_correct [OF s, of "0x1005"] by simp
qed

end
