(* ===== verification/OD_Access.thy ===== *)
theory OD_Access
  imports OD_Interface
begin

text \<open>
  The contract of the dictionary's access functions. \<open>OD_readable\<close> and \<open>OD_writable\<close> are the
  interfaces that the comments on \<open>OD_IO_t\<close> in \<open>301/CO_ODinterface.h\<close> describe: a read fills
  the caller's buffer unless the rest of the variable is shorter, and says which; a write
  takes the whole buffer and says whether the variable expects more. The default access
  functions are shown to satisfy both, and transfers in pieces are proved once, from the
  contract.
\<close>

section \<open>Transfers in pieces\<close>

text \<open>A caller that reads with the given buffer sizes until the variable is exhausted.\<close>

fun OD_read_pieces :: "OD_read_fn \<Rightarrow> OD_stream \<Rightarrow> u32 list \<Rightarrow> mem \<Rightarrow> ODR \<times> OD_stream \<times> u8 list \<times> mem" where
  "OD_read_pieces rd s [] m = (ODR_PARTIAL, s, [], m)"
| "OD_read_pieces rd s (n # ns) m =
     (let (r, s', bs, m') = rd s n m in
      if r = ODR_PARTIAL then
        let (r'', s'', bs'', m'') = OD_read_pieces rd s' ns m' in (r'', s'', bs @ bs'', m'')
      else (r, s', bs, m'))"

text \<open>A caller that writes the given buffers until the variable is complete.\<close>

fun OD_write_pieces :: "OD_write_fn \<Rightarrow> OD_stream \<Rightarrow> u8 list list \<Rightarrow> mem \<Rightarrow> ODR \<times> OD_stream \<times> mem" where
  "OD_write_pieces wr s [] m = (ODR_PARTIAL, s, m)"
| "OD_write_pieces wr s (b # bs) m =
     (let (r, s', k, m') = wr s b m in
      if r = ODR_PARTIAL then OD_write_pieces wr s' bs m' else (r, s', m'))"

section \<open>The contracts\<close>

locale OD_readable =
  fixes rd :: OD_read_fn
    and usable :: "OD_stream \<Rightarrow> bool"
    and rest :: "OD_stream \<Rightarrow> mem \<Rightarrow> u8 list"
  assumes read_last:
      "usable s \<Longrightarrow> length (rest s m) \<le> unat n \<Longrightarrow>
       \<exists>s'. rd s n m = (ODR_OK, s', rest s m, m) \<and> attribute s' = attribute s \<and> dataLength s' = dataLength s"
    and read_partial:
      "usable s \<Longrightarrow> unat n < length (rest s m) \<Longrightarrow>
       \<exists>s'. rd s n m = (ODR_PARTIAL, s', take (unat n) (rest s m), m) \<and> usable s' \<and>
            rest s' m = drop (unat n) (rest s m) \<and>
            attribute s' = attribute s \<and> dataLength s' = dataLength s"
begin

lemma read_length: "usable s \<Longrightarrow> rd s n m = (r, s', bs, m') \<Longrightarrow> length bs \<le> unat n"
  using read_last [of s m n] read_partial [of s n m]
  by (cases "length (rest s m) \<le> unat n") auto

lemma read_pieces_complete:
  "usable s \<Longrightarrow> ns \<noteq> [] \<Longrightarrow> length (rest s m) \<le> sum_list (map unat ns) \<Longrightarrow>
   \<exists>s'. OD_read_pieces rd s ns m = (ODR_OK, s', rest s m, m)"
proof (induction ns arbitrary: s)
  case Nil
  then show ?case by simp
next
  case (Cons n ns)
  show ?case
  proof (cases "length (rest s m) \<le> unat n")
    case True
    then show ?thesis using read_last [OF Cons.prems(1) True] by auto
  next
    case False
    then obtain s' where s': "rd s n m = (ODR_PARTIAL, s', take (unat n) (rest s m), m)"
      "usable s'" "rest s' m = drop (unat n) (rest s m)"
      using read_partial [OF Cons.prems(1), of n m] by auto
    have "ns \<noteq> []" using False Cons.prems(3) by auto
    moreover have "length (rest s' m) \<le> sum_list (map unat ns)"
      using s'(3) Cons.prems(3) by simp
    ultimately obtain s'' where "OD_read_pieces rd s' ns m = (ODR_OK, s'', rest s' m, m)"
      using Cons.IH [OF s'(2)] by blast
    then show ?thesis by (simp add: s')
  qed
qed

end

locale OD_writable =
  fixes wr :: OD_write_fn
    and wusable :: "OD_stream \<Rightarrow> bool"
    and place :: "OD_stream \<Rightarrow> addr"
    and room :: "OD_stream \<Rightarrow> nat"
  assumes write_last:
      "wusable s \<Longrightarrow> length b = room s \<Longrightarrow> length b < 2 ^ 32 \<Longrightarrow>
       \<exists>s' k. wr s b m = (ODR_OK, s', k, mem_write m (place s) b)"
    and write_partial:
      "wusable s \<Longrightarrow> length b < room s \<Longrightarrow> length b < 2 ^ 32 \<Longrightarrow>
       \<exists>s' k. wr s b m = (ODR_PARTIAL, s', k, mem_write m (place s) b) \<and> wusable s' \<and>
            place s' = place s + length b \<and> room s' = room s - length b"
    and write_long:
      "wusable s \<Longrightarrow> room s < length b \<Longrightarrow> length b < 2 ^ 32 \<Longrightarrow>
       \<exists>s' k. wr s b m = (ODR_DATA_LONG, s', k, m)"
begin

lemma write_pieces_complete:
  "wusable s \<Longrightarrow> \<forall>b \<in> set bs. length b < 2 ^ 32 \<Longrightarrow> b' \<noteq> [] \<Longrightarrow> length b' < 2 ^ 32 \<Longrightarrow>
   length (concat bs) + length b' = room s \<Longrightarrow>
   \<exists>s'. OD_write_pieces wr s (bs @ [b']) m = (ODR_OK, s', mem_write m (place s) (concat bs @ b'))"
proof (induction bs arbitrary: s m)
  case Nil
  then show ?case using write_last [of s b' m] by auto
next
  case (Cons b bs)
  then have "length b < room s" by (cases b') auto
  then obtain s' k where s': "wr s b m = (ODR_PARTIAL, s', k, mem_write m (place s) b)"
    "wusable s'" "place s' = place s + length b" "room s' = room s - length b"
    using write_partial [of s b m] Cons.prems by auto
  have "length (concat bs) + length b' = room s'" using s'(4) Cons.prems by simp
  then obtain s'' where "OD_write_pieces wr s' (bs @ [b']) (mem_write m (place s) b) =
      (ODR_OK, s'', mem_write (mem_write m (place s) b) (place s') (concat bs @ b'))"
    using Cons.IH [of s' "mem_write m (place s) b"] Cons.prems s' by auto
  then show ?case by (simp add: s' mem_write_append)
qed

end

section \<open>The default access functions satisfy them\<close>

definition stream_usable :: "OD_stream \<Rightarrow> bool" where
  "stream_usable s \<longleftrightarrow> dataOrig s \<noteq> None \<and> (dataOffset s = 0 \<or> dataOffset s < dataLength s)"

definition stream_place :: "OD_stream \<Rightarrow> addr" where
  "stream_place s = the (dataOrig s) + unat (dataOffset s)"

definition stream_room :: "OD_stream \<Rightarrow> nat" where
  "stream_room s = unat (dataLength s) - unat (dataOffset s)"

definition stream_rest :: "OD_stream \<Rightarrow> mem \<Rightarrow> u8 list" where
  "stream_rest s m = mem_read m (stream_place s) (stream_room s)"

lemmas stream_defs = stream_usable_def stream_place_def stream_room_def stream_rest_def

lemma length_stream_rest [simp]: "length (stream_rest s m) = stream_room s"
  by (simp add: stream_rest_def)

lemma OD_readOriginal_last:
  assumes "stream_usable s" "stream_room s \<le> unat n"
  shows "\<exists>s'. OD_readOriginal s n m = (ODR_OK, s', stream_rest s m, m) \<and>
              attribute s' = attribute s \<and> dataLength s' = dataLength s"
proof -
  obtain a where a: "dataOrig s = Some a" using assms by (auto simp: stream_usable_def)
  show ?thesis
  proof (cases "dataOffset s = 0")
    case True
    with assms a show ?thesis
      by (auto simp: OD_readOriginal_def Let_def stream_defs word_less_nat_alt)
  next
    case False
    with assms a have less: "unat (dataOffset s) < unat (dataLength s)"
      by (simp add: stream_usable_def word_less_nat_alt)
    then have "unat (dataLength s - dataOffset s) = stream_room s"
      by (simp add: wordnat stream_room_def)
    moreover have "0 < unat (dataOffset s)" using False by (simp add: unat_gt_0)
    ultimately show ?thesis using less assms a
      by (auto simp: OD_readOriginal_def Let_def stream_rest_def stream_place_def word_less_nat_alt
          word_le_nat_alt)
  qed
qed

lemma OD_readOriginal_partial:
  assumes "stream_usable s" "unat n < stream_room s"
  shows "\<exists>s'. OD_readOriginal s n m = (ODR_PARTIAL, s', take (unat n) (stream_rest s m), m) \<and>
              stream_usable s' \<and> stream_rest s' m = drop (unat n) (stream_rest s m) \<and>
              attribute s' = attribute s \<and> dataLength s' = dataLength s"
proof -
  obtain a where a: "dataOrig s = Some a" using assms by (auto simp: stream_usable_def)
  have less: "unat (dataOffset s) < unat (dataLength s)"
    using assms(2) by (simp add: stream_room_def)
  then have room: "unat (dataLength s - dataOffset s) = stream_room s"
    by (simp add: wordnat stream_room_def)
  have off: "unat (dataOffset s + n) = unat (dataOffset s) + unat n"
    using assms(2) unat_u32_less [of "dataLength s"]
    by (intro unat_plus_small) (simp add: stream_room_def)
  let ?s' = "s\<lparr>dataOffset := dataOffset s + n\<rparr>"
  have "OD_readOriginal s n m = (ODR_PARTIAL, ?s', take (unat n) (stream_rest s m), m)"
    using less a assms(2) room
    by (auto simp: OD_readOriginal_def Let_def stream_rest_def stream_place_def word_less_nat_alt
        word_le_nat_alt take_mem_read stream_room_def)
  moreover have "stream_usable ?s'"
    using a off assms(2) by (auto simp: stream_usable_def word_less_nat_alt stream_room_def)
  moreover have "stream_rest ?s' m = drop (unat n) (stream_rest s m)"
    using off by (simp add: stream_rest_def drop_mem_read stream_place_def stream_room_def add.assoc)
  ultimately show ?thesis by auto
qed

lemma OD_writeOriginal_cases:
  assumes "stream_usable s" "length b < 2 ^ 32"
  shows "length b = stream_room s \<Longrightarrow>
           \<exists>s' k. OD_writeOriginal s b m = (ODR_OK, s', k, mem_write m (stream_place s) b)"
    and "length b < stream_room s \<Longrightarrow>
           \<exists>s' k. OD_writeOriginal s b m = (ODR_PARTIAL, s', k, mem_write m (stream_place s) b) \<and>
              stream_usable s' \<and> stream_place s' = stream_place s + length b \<and>
              stream_room s' = stream_room s - length b"
    and "stream_room s < length b \<Longrightarrow> \<exists>s' k. OD_writeOriginal s b m = (ODR_DATA_LONG, s', k, m)"
proof -
  obtain a where a: "dataOrig s = Some a" using assms by (auto simp: stream_usable_def)
  have cnt: "unat (word_of_nat (length b) :: u32) = length b"
    using assms(2) by (simp add: unat_of_nat)
  have off: "unat (dataOffset s) \<le> unat (dataLength s)"
    using assms(1) by (auto simp: stream_usable_def word_less_nat_alt)
  then have room: "unat (dataLength s - dataOffset s) = stream_room s"
    by (simp add: wordnat stream_room_def)
  note defs = OD_writeOriginal_def Let_def a word_less_nat_alt word_le_nat_alt cnt room
  show "\<exists>s' k. OD_writeOriginal s b m = (ODR_OK, s', k, mem_write m (stream_place s) b)"
    if "length b = stream_room s"
    using that off assms(1) a by (auto simp: defs stream_defs)
  show "\<exists>s' k. OD_writeOriginal s b m = (ODR_DATA_LONG, s', k, m)" if "stream_room s < length b"
    using that off assms(1) a by (auto simp: defs stream_defs)
  show "\<exists>s' k. OD_writeOriginal s b m = (ODR_PARTIAL, s', k, mem_write m (stream_place s) b) \<and>
              stream_usable s' \<and> stream_place s' = stream_place s + length b \<and>
              stream_room s' = stream_room s - length b" if lt: "length b < stream_room s"
  proof -
    let ?s' = "s\<lparr>dataOffset := dataOffset s + word_of_nat (length b)\<rparr>"
    have sum: "unat (dataOffset s + word_of_nat (length b)) = unat (dataOffset s) + length b"
      using lt unat_u32_less [of "dataLength s"] cnt
      by (subst unat_plus_small) (simp_all add: stream_room_def)
    have "OD_writeOriginal s b m =
        (ODR_PARTIAL, ?s', word_of_nat (length b), mem_write m (stream_place s) b)"
      using lt off a by (auto simp: defs stream_place_def stream_room_def)
    moreover have "stream_usable ?s'"
      using a lt sum by (auto simp: stream_usable_def word_less_nat_alt stream_room_def)
    moreover have "stream_place ?s' = stream_place s + length b"
      using sum by (simp add: stream_place_def)
    moreover have "stream_room ?s' = stream_room s - length b"
      using sum by (simp add: stream_room_def)
    ultimately show ?thesis by blast
  qed
qed

interpretation orig: OD_readable OD_readOriginal stream_usable stream_rest
  by unfold_locales (simp_all add: OD_readOriginal_last OD_readOriginal_partial)

interpretation origw: OD_writable OD_writeOriginal stream_usable stream_place stream_room
  by unfold_locales (use OD_writeOriginal_cases in blast)+

section \<open>Round trip\<close>

text \<open>
  C19: A variable written in pieces of any sizes through the default write function, and then
  read in pieces of any sizes through the default read function, gives back the data that was
  written; the rest of memory is unchanged.
\<close>

theorem OD_write_read_roundtrip:
  assumes "dataOrig s = Some a" "dataOffset s = 0" "unat (dataLength s) = length (concat bs) + length b"
    and "b \<noteq> []" "ns \<noteq> []" "unat (dataLength s) \<le> sum_list (map unat ns)"
  shows "\<exists>s' m' s''.
    OD_write_pieces OD_writeOriginal s (bs @ [b]) m = (ODR_OK, s', m') \<and>
    OD_read_pieces OD_readOriginal s ns m' = (ODR_OK, s'', concat bs @ b, m') \<and>
    (\<forall>x. x < a \<or> a + unat (dataLength s) \<le> x \<longrightarrow> m' x = m x)"
proof -
  have us: "stream_usable s" using assms by (simp add: stream_usable_def)
  have pl: "stream_place s = a" and rm: "stream_room s = length (concat bs @ b)"
    using assms by (simp_all add: stream_defs)
  have small: "length c < 2 ^ 32" if "c \<in> set bs \<or> c = b" for c
  proof -
    have "length c \<le> length (concat bs) + length b"
      using that by (auto simp: length_concat member_le_sum_list trans_le_add1)
    then show ?thesis using assms(3) unat_u32_less [of "dataLength s"] by simp
  qed
  obtain s' where w: "OD_write_pieces OD_writeOriginal s (bs @ [b]) m =
      (ODR_OK, s', mem_write m a (concat bs @ b))"
    using origw.write_pieces_complete [OF us, of bs b m] small assms(4) rm pl by auto
  let ?m' = "mem_write m a (concat bs @ b)"
  have rest: "stream_rest s ?m' = concat bs @ b"
    unfolding stream_rest_def pl rm by (rule mem_read_write_same)
  obtain s'' where r: "OD_read_pieces OD_readOriginal s ns ?m' = (ODR_OK, s'', concat bs @ b, ?m')"
    using orig.read_pieces_complete [OF us assms(5), of ?m'] rest assms(3,6) by auto
  have "?m' x = m x" if "x < a \<or> a + unat (dataLength s) \<le> x" for x
    using that assms(3) by (intro mem_write_outside) simp
  with w r show ?thesis by blast
qed

text \<open>A variable of three bytes at address 16, written in two pieces and read in three.\<close>

definition example_stream :: OD_stream where
  "example_stream = \<lparr>dataOrig = Some 16, stream_object = None, dataLength = 3, dataOffset = 0,
     attribute = 3, stream_index = 0x2000, stream_subIndex = 0\<rparr>"

theorem OD_write_read_roundtrip_witness:
  "\<exists>s' m' s''.
    OD_write_pieces OD_writeOriginal example_stream [[1, 2], [3]] (\<lambda>_. 0) = (ODR_OK, s', m') \<and>
    OD_read_pieces OD_readOriginal example_stream [1, 1, 1] m' = (ODR_OK, s'', [1, 2, 3], m') \<and>
    m' 15 = 0 \<and> m' 19 = 0"
proof -
  have "\<exists>s' m' s''.
    OD_write_pieces OD_writeOriginal example_stream ([[1, 2]] @ [[3]]) (\<lambda>_. 0) = (ODR_OK, s', m') \<and>
    OD_read_pieces OD_readOriginal example_stream [1, 1, 1] m' = (ODR_OK, s'', concat [[1, 2]] @ [3], m') \<and>
    (\<forall>x. x < 16 \<or> 16 + unat (dataLength example_stream) \<le> x \<longrightarrow> m' x = 0)"
    by (rule OD_write_read_roundtrip) (simp_all add: example_stream_def)
  then obtain s' m' s'' where r:
    "OD_write_pieces OD_writeOriginal example_stream ([[1, 2]] @ [[3]]) (\<lambda>_. 0) = (ODR_OK, s', m')"
    "OD_read_pieces OD_readOriginal example_stream [1, 1, 1] m' = (ODR_OK, s'', concat [[1, 2]] @ [3], m')"
    "\<forall>x. x < 16 \<or> 16 + unat (dataLength example_stream) \<le> x \<longrightarrow> m' x = 0" by blast
  moreover have "m' 15 = 0" "m' 19 = 0" using r(3) by (simp_all add: example_stream_def)
  ultimately show ?thesis by auto
qed

end
