(* ===== verification/CO_Driver.thy ===== *)
theory CO_Driver
  imports OD_Access
begin

text \<open>
  What the protocol objects use of the CAN driver's interface (\<open>301/CO_driver.h\<close>): the common
  return codes, the identifiers that must not be used freely, and the transmit buffers. A frame
  handed to \<open>CO_CANsend\<close> is recorded by the object that sends it; \<open>bufferFull\<close>, which the driver
  sets while a frame waits for the bus, is part of the buffer and may change between any two
  calls.
\<close>

datatype CO_ReturnError =
    CO_ERROR_NO | CO_ERROR_ILLEGAL_ARGUMENT | CO_ERROR_OUT_OF_MEMORY | CO_ERROR_TIMEOUT
  | CO_ERROR_ILLEGAL_BAUDRATE | CO_ERROR_RX_OVERFLOW | CO_ERROR_RX_PDO_OVERFLOW
  | CO_ERROR_RX_MSG_LENGTH | CO_ERROR_RX_PDO_LENGTH | CO_ERROR_TX_OVERFLOW
  | CO_ERROR_TX_PDO_WINDOW | CO_ERROR_TX_UNCONFIGURED | CO_ERROR_OD_PARAMETERS
  | CO_ERROR_DATA_CORRUPT | CO_ERROR_CRC | CO_ERROR_TX_BUSY | CO_ERROR_WRONG_NMT_STATE
  | CO_ERROR_SYSCALL | CO_ERROR_INVALID_STATE | CO_ERROR_NODE_ID_UNCONFIGURED_LSS

definition CO_IS_RESTRICTED_CAN_ID :: "u16 \<Rightarrow> bool" where
  "CO_IS_RESTRICTED_CAN_ID i \<longleftrightarrow>
     i \<le> 0x7F \<or> (i \<ge> 0x101 \<and> i \<le> 0x180) \<or> (i \<ge> 0x581 \<and> i \<le> 0x5FF) \<or>
     (i \<ge> 0x601 \<and> i \<le> 0x67F) \<or> (i \<ge> 0x6E0 \<and> i \<le> 0x6FF) \<or> i \<ge> 0x701"

record CANtx =
  tx_ident :: u16
  tx_DLC :: u8
  tx_data :: "u8 list"
  tx_bufferFull :: bool

type_synonym can_frame = "u16 \<times> u8 list"

text \<open>\<open>CO_CANtxBufferInit\<close> on a buffer of the driver; its eight data bytes are not changed.\<close>

definition CO_CANtxBufferInit :: "u16 \<Rightarrow> u8 \<Rightarrow> CANtx \<Rightarrow> CANtx" where
  "CO_CANtxBufferInit ident noOfBytes b =
     b\<lparr>tx_ident := ident AND 0x7FF, tx_DLC := noOfBytes, tx_bufferFull := False\<rparr>"

definition tx_frame :: "CANtx \<Rightarrow> can_frame" where
  "tx_frame b = (tx_ident b, take (unat (tx_DLC b)) (tx_data b))"

end
