(* ===== verification/Crc16.thy ===== *)
theory Crc16
  imports CO_Prelude
begin

text \<open>
  The CRC-16-CCITT module (\<open>301/crc16-ccitt.c\<close>): the lookup table, the single-byte and the
  block update. The reference is the bit-serial algorithm that the source's comment above
  the table gives. The lemmas show that the table holds exactly the values of that
  algorithm, that the table-driven update is the bit-serial division of the whole message,
  that a block may be processed in pieces, that a message followed by its checksum has
  checksum 0, and that the update is injective, so that a change confined to one byte is
  always detected.
\<close>

section \<open>The code\<close>

definition crc16_ccitt_table :: "u16 list" where
  "crc16_ccitt_table = [
     0x0000, 0x1021, 0x2042, 0x3063, 0x4084, 0x50A5, 0x60C6, 0x70E7,
     0x8108, 0x9129, 0xA14A, 0xB16B, 0xC18C, 0xD1AD, 0xE1CE, 0xF1EF,
     0x1231, 0x0210, 0x3273, 0x2252, 0x52B5, 0x4294, 0x72F7, 0x62D6,
     0x9339, 0x8318, 0xB37B, 0xA35A, 0xD3BD, 0xC39C, 0xF3FF, 0xE3DE,
     0x2462, 0x3443, 0x0420, 0x1401, 0x64E6, 0x74C7, 0x44A4, 0x5485,
     0xA56A, 0xB54B, 0x8528, 0x9509, 0xE5EE, 0xF5CF, 0xC5AC, 0xD58D,
     0x3653, 0x2672, 0x1611, 0x0630, 0x76D7, 0x66F6, 0x5695, 0x46B4,
     0xB75B, 0xA77A, 0x9719, 0x8738, 0xF7DF, 0xE7FE, 0xD79D, 0xC7BC,
     0x48C4, 0x58E5, 0x6886, 0x78A7, 0x0840, 0x1861, 0x2802, 0x3823,
     0xC9CC, 0xD9ED, 0xE98E, 0xF9AF, 0x8948, 0x9969, 0xA90A, 0xB92B,
     0x5AF5, 0x4AD4, 0x7AB7, 0x6A96, 0x1A71, 0x0A50, 0x3A33, 0x2A12,
     0xDBFD, 0xCBDC, 0xFBBF, 0xEB9E, 0x9B79, 0x8B58, 0xBB3B, 0xAB1A,
     0x6CA6, 0x7C87, 0x4CE4, 0x5CC5, 0x2C22, 0x3C03, 0x0C60, 0x1C41,
     0xEDAE, 0xFD8F, 0xCDEC, 0xDDCD, 0xAD2A, 0xBD0B, 0x8D68, 0x9D49,
     0x7E97, 0x6EB6, 0x5ED5, 0x4EF4, 0x3E13, 0x2E32, 0x1E51, 0x0E70,
     0xFF9F, 0xEFBE, 0xDFDD, 0xCFFC, 0xBF1B, 0xAF3A, 0x9F59, 0x8F78,
     0x9188, 0x81A9, 0xB1CA, 0xA1EB, 0xD10C, 0xC12D, 0xF14E, 0xE16F,
     0x1080, 0x00A1, 0x30C2, 0x20E3, 0x5004, 0x4025, 0x7046, 0x6067,
     0x83B9, 0x9398, 0xA3FB, 0xB3DA, 0xC33D, 0xD31C, 0xE37F, 0xF35E,
     0x02B1, 0x1290, 0x22F3, 0x32D2, 0x4235, 0x5214, 0x6277, 0x7256,
     0xB5EA, 0xA5CB, 0x95A8, 0x8589, 0xF56E, 0xE54F, 0xD52C, 0xC50D,
     0x34E2, 0x24C3, 0x14A0, 0x0481, 0x7466, 0x6447, 0x5424, 0x4405,
     0xA7DB, 0xB7FA, 0x8799, 0x97B8, 0xE75F, 0xF77E, 0xC71D, 0xD73C,
     0x26D3, 0x36F2, 0x0691, 0x16B0, 0x6657, 0x7676, 0x4615, 0x5634,
     0xD94C, 0xC96D, 0xF90E, 0xE92F, 0x99C8, 0x89E9, 0xB98A, 0xA9AB,
     0x5844, 0x4865, 0x7806, 0x6827, 0x18C0, 0x08E1, 0x3882, 0x28A3,
     0xCB7D, 0xDB5C, 0xEB3F, 0xFB1E, 0x8BF9, 0x9BD8, 0xABBB, 0xBB9A,
     0x4A75, 0x5A54, 0x6A37, 0x7A16, 0x0AF1, 0x1AD0, 0x2AB3, 0x3A92,
     0xFD2E, 0xED0F, 0xDD6C, 0xCD4D, 0xBDAA, 0xAD8B, 0x9DE8, 0x8DC9,
     0x7C26, 0x6C07, 0x5C64, 0x4C45, 0x3CA2, 0x2C83, 0x1CE0, 0x0CC1,
     0xEF1F, 0xFF3E, 0xCF5D, 0xDF7C, 0xAF9B, 0xBFBA, 0x8FD9, 0x9FF8,
     0x6E17, 0x7E36, 0x4E55, 0x5E74, 0x2E93, 0x3EB2, 0x0ED1, 0x1EF0]"

definition crc16_ccitt_single :: "u16 \<Rightarrow> u8 \<Rightarrow> u16" where
  "crc16_ccitt_single crc chr =
     (let tmp = ucast (drop_bit 8 crc) XOR chr
      in push_bit 8 crc XOR crc16_ccitt_table ! unat tmp)"

text \<open>
  \<open>crc16_ccitt(block, blockLength, crc)\<close> runs over the \<open>blockLength\<close> bytes of \<open>block\<close>; the
  list is exactly those bytes.
\<close>

fun crc16_ccitt :: "u8 list \<Rightarrow> u16 \<Rightarrow> u16" where
  "crc16_ccitt [] crc = crc"
| "crc16_ccitt (b # block) crc =
     (let tmp = ucast (drop_bit 8 crc) XOR b
      in crc16_ccitt block (push_bit 8 crc XOR crc16_ccitt_table ! unat tmp))"

section \<open>The bit-serial reference\<close>

text \<open>
  The inner loop of \<open>crc16_ccitt_table_init\<close>, quoted in the comment above the table: eight
  rounds on the pair of the remainder and the shifted data byte.
\<close>

fun table_init_rounds :: "nat \<Rightarrow> u16 \<Rightarrow> u16 \<Rightarrow> u16" where
  "table_init_rounds 0 crc c = crc"
| "table_init_rounds (Suc j) crc c =
     table_init_rounds j
       (if (crc XOR c) AND 0x8000 \<noteq> 0 then push_bit 1 crc XOR 0x1021 else push_bit 1 crc)
       (push_bit 1 c)"

definition crc16_ccitt_table_init :: "u16 list" where
  "crc16_ccitt_table_init =
     map (\<lambda>i. table_init_rounds 8 0 (push_bit 8 (word_of_nat i))) [0..<256]"

text \<open>Division of a message by \<open>x^16 + x^12 + x^5 + 1\<close>, one bit at a time.\<close>

definition poly_step :: "u16 \<Rightarrow> u16" where
  "poly_step x = (if bit x 15 then push_bit 1 x XOR 0x1021 else push_bit 1 x)"

fun crc_bitwise :: "u8 list \<Rightarrow> u16 \<Rightarrow> u16" where
  "crc_bitwise [] crc = crc"
| "crc_bitwise (b # bs) crc =
     crc_bitwise bs ((poly_step ^^ 8) (crc XOR push_bit 8 (ucast b)))"

section \<open>Lemmas on the reference\<close>

text \<open>
  The table agrees with the initialisation loop: every entry is computed by the simplifier,
  the entries being numbered by a word that counts along the table.
\<close>

fun entries_ok :: "u16 list \<Rightarrow> u16 \<Rightarrow> bool" where
  "entries_ok [] i = True"
| "entries_ok (t # ts) i =
     (table_init_rounds (Suc (Suc (Suc (Suc (Suc (Suc (Suc (Suc 0)))))))) 0 (push_bit 8 i) = t \<and>
      entries_ok ts (i + 1))"

lemma crc16_ccitt_table_entries_ok: "entries_ok crc16_ccitt_table 0"
  by (simp add: crc16_ccitt_table_def)

lemma entries_ok_map:
  "entries_ok ts i \<Longrightarrow>
   ts = map (\<lambda>k. table_init_rounds 8 0 (push_bit 8 (i + word_of_nat k))) [0..<length ts]"
proof (induction ts arbitrary: i)
  case Nil
  then show ?case by simp
next
  case (Cons t ts)
  have "[0..<length (t # ts)] = 0 # map Suc [0..<length ts]"
    by (simp add: map_Suc_upt upt_conv_Cons del: upt_Suc)
  moreover have "ts = map (\<lambda>k. table_init_rounds 8 0 (push_bit 8 (i + 1 + word_of_nat k))) [0..<length ts]"
    using Cons by simp
  moreover have "t = table_init_rounds 8 0 (push_bit 8 i)"
    using Cons.prems by (simp add: eval_nat_numeral del: table_init_rounds.simps)
  ultimately show ?case
    by (simp add: comp_def ac_simps del: table_init_rounds.simps upt_Suc)
qed

lemma crc16_ccitt_table_correct: "crc16_ccitt_table = crc16_ccitt_table_init"
proof -
  have "length crc16_ccitt_table = 256" by (simp add: crc16_ccitt_table_def)
  with entries_ok_map [OF crc16_ccitt_table_entries_ok] show ?thesis
    by (simp add: crc16_ccitt_table_init_def)
qed

lemma and_0x8000_neq_0: "x AND 0x8000 \<noteq> 0 \<longleftrightarrow> bit (x :: u16) 15"
  using and_exp_eq_0_iff_not_bit [of x 15] by simp

lemma poly_step_xor: "poly_step (x XOR y) = poly_step x XOR poly_step y"
  by (auto simp: poly_step_def push_bit_xor bit_xor_iff xor.assoc xor.left_commute xor.commute)

lemma poly_step_pow_xor: "(poly_step ^^ n) (x XOR y) = (poly_step ^^ n) x XOR (poly_step ^^ n) y"
  by (induction n) (simp_all add: poly_step_xor)

lemma table_init_rounds_poly:
  "table_init_rounds j crc c = (poly_step ^^ j) (crc XOR c) XOR push_bit j c"
proof (induction j arbitrary: crc c)
  case 0
  then show ?case by (simp add: xor.assoc)
next
  case (Suc j)
  have "(if (crc XOR c) AND 0x8000 \<noteq> 0 then push_bit 1 crc XOR 0x1021 else push_bit 1 crc)
        XOR push_bit 1 c = poly_step (crc XOR c)"
    by (simp add: and_0x8000_neq_0 poly_step_def push_bit_xor ac_simps)
  then show ?case
    by (simp only: table_init_rounds.simps Suc.IH funpow_Suc_right comp_def)
      (simp add: push_bit_push_bit)
qed

lemma poly_step_pow_low:
  fixes x :: u16
  assumes "\<And>i. 16 - n \<le> i \<Longrightarrow> \<not> bit x i" and "n \<le> 16"
  shows "(poly_step ^^ n) x = push_bit n x"
  using assms
proof (induction n arbitrary: x)
  case 0
  then show ?case by simp
next
  case (Suc n)
  have "\<not> bit x 15" using Suc.prems(1) [of 15] Suc.prems(2) by simp
  then have "poly_step x = push_bit 1 x" by (simp add: poly_step_def)
  moreover have "(poly_step ^^ n) (push_bit 1 x) = push_bit n (push_bit 1 x)"
  proof (rule Suc.IH)
    fix i
    assume "16 - n \<le> i"
    with Suc.prems(2) show "\<not> bit (push_bit 1 x) i"
      using Suc.prems(1) [of "i - 1"] by (simp only: bit_push_bit_iff) simp
  qed (use Suc.prems(2) in simp)
  ultimately show ?case
    by (simp only: funpow_Suc_right comp_def push_bit_push_bit) simp
qed

lemma u16_split: "(c :: u16) = push_bit 8 (drop_bit 8 c) XOR take_bit 8 c"
  by (rule bit_word_eqI) (auto simp: bit_xor_iff bit_push_bit_iff bit_drop_bit_eq bit_take_bit_iff)

lemma table_entry_poly:
  assumes "i < 256"
  shows "crc16_ccitt_table_init ! i = (poly_step ^^ 8) (push_bit 8 (word_of_nat i))"
proof -
  have "push_bit 16 (word_of_nat i :: u16) = 0"
    by (rule bit_word_eqI) (simp add: bit_push_bit_iff)
  then show ?thesis
    using assms by (simp add: crc16_ccitt_table_init_def table_init_rounds_poly push_bit_push_bit)
qed

lemma table_entry:
  "crc16_ccitt_table ! unat b = (poly_step ^^ 8) (push_bit 8 (ucast (b::u8)))"
proof -
  have "crc16_ccitt_table_init ! unat b = (poly_step ^^ 8) (push_bit 8 (word_of_nat (unat b)))"
    by (rule table_entry_poly) (rule unat_u8_less)
  then show ?thesis by (simp add: crc16_ccitt_table_correct)
qed

lemma crc16_ccitt_single_bitwise:
  "crc16_ccitt_single crc b = (poly_step ^^ 8) (crc XOR push_bit 8 (ucast b))"
proof -
  let ?hi = "push_bit 8 (ucast (ucast (drop_bit 8 crc) XOR b :: u8)) :: u16"
  have low: "(poly_step ^^ 8) (take_bit 8 crc) = push_bit 8 (take_bit 8 crc)"
    by (rule poly_step_pow_low) (auto simp: bit_take_bit_iff)
  have push: "push_bit 8 (take_bit 8 crc) = push_bit 8 crc"
    by (rule bit_word_eqI) (auto simp: bit_push_bit_iff bit_take_bit_iff)
  have split: "crc XOR push_bit 8 (ucast b) = ?hi XOR take_bit 8 crc"
    by (rule bit_word_eqI)
      (auto simp: bit_xor_iff bit_push_bit_iff bit_take_bit_iff bit_ucast_iff bit_drop_bit_eq)
  show ?thesis
    unfolding crc16_ccitt_single_def Let_def table_entry split poly_step_pow_xor low push
    by (simp only: xor.commute)
qed

lemma crc16_ccitt_Cons_single:
  "crc16_ccitt (b # bs) crc = crc16_ccitt bs (crc16_ccitt_single crc b)"
  by (simp add: crc16_ccitt_single_def)

lemma crc16_ccitt_fold: "crc16_ccitt bs crc = foldl crc16_ccitt_single crc bs"
  by (induction bs arbitrary: crc) (simp_all add: crc16_ccitt_Cons_single del: crc16_ccitt.simps(2))

lemma crc16_ccitt_append: "crc16_ccitt (xs @ ys) crc = crc16_ccitt ys (crc16_ccitt xs crc)"
  by (simp add: crc16_ccitt_fold)

lemma poly_step_kernel: "poly_step x = 0 \<Longrightarrow> x = 0"
proof (rule ccontr)
  assume zero: "poly_step x = 0" and nz: "x \<noteq> 0"
  have eq: "bit (poly_step x) n \<longleftrightarrow> (0 < n \<and> n < 16 \<and> bit x (n - 1)) \<noteq> (bit x 15 \<and> bit (0x1021 :: u16) n)" for n
    unfolding poly_step_def by (cases "bit x 15") (simp_all only: if_True if_False bit_xor_iff bit_push_bit_1_word, auto)
  have top: "\<not> bit x 15"
    using eq [of 0] zero by simp
  then have "\<not> bit x n" if "n < 15" for n
    using eq [of "Suc n"] zero that by simp
  with top have "\<not> bit x n" if "n < 16" for n
    using that by (cases "n = 15") auto
  then have "x = 0" by (intro word_eq_by_bits) simp
  with nz show False by simp
qed

lemma poly_step_pow_inj: "(poly_step ^^ n) x = (poly_step ^^ n) y \<Longrightarrow> x = y"
proof (induction n)
  case 0
  then show ?case by simp
next
  case (Suc n)
  then have "poly_step ((poly_step ^^ n) x XOR (poly_step ^^ n) y) = 0"
    by (simp add: poly_step_xor)
  then have "(poly_step ^^ n) x XOR (poly_step ^^ n) y = 0"
    by (rule poly_step_kernel)
  then have "(poly_step ^^ n) x = (poly_step ^^ n) y"
    by (simp only: xor_eq_0_word)
  then show ?case by (rule Suc.IH)
qed

lemma poly_step_pow_eq_iff: "(poly_step ^^ n) x = (poly_step ^^ n) y \<longleftrightarrow> x = y"
  by (auto dest: poly_step_pow_inj)

lemma crc16_ccitt_single_inj: "crc16_ccitt_single c b = crc16_ccitt_single d b \<Longrightarrow> c = d"
  unfolding crc16_ccitt_single_bitwise
  by (drule poly_step_pow_inj) (simp only: xor_right_cancel)

lemma crc16_ccitt_inj: "crc16_ccitt bs c = crc16_ccitt bs d \<Longrightarrow> c = d"
  by (induction bs arbitrary: c d)
    (auto simp: crc16_ccitt_Cons_single simp del: crc16_ccitt.simps(2) dest: crc16_ccitt_single_inj)

lemma crc16_ccitt_two_bytes:
  "crc16_ccitt [a, b] c = (poly_step ^^ 16) (c XOR (push_bit 8 (ucast a) XOR ucast b))"
proof -
  have low: "(poly_step ^^ 8) (ucast b) = push_bit 8 (ucast b :: u16)"
    by (rule poly_step_pow_low) (auto simp: bit_ucast_iff dest: bit_imp_le_length)
  have "(poly_step ^^ 16) x = (poly_step ^^ 8) ((poly_step ^^ 8) x)" for x
    using funpow_add [of 8 8 poly_step] by simp
  then show ?thesis
    by (simp add: crc16_ccitt_fold crc16_ccitt_single_bitwise poly_step_pow_xor low xor.assoc)
qed

section \<open>Properties\<close>

text \<open>
  C20: The table-driven checksum of a whole block is the bit-serial polynomial division of the
  block, for every block and every starting value; in particular all 256 table entries are
  right.
\<close>

theorem crc16_ccitt_eq_bitwise: "crc16_ccitt bs crc = crc_bitwise bs crc"
  by (induction bs arbitrary: crc)
    (simp_all add: crc16_ccitt_Cons_single crc16_ccitt_single_bitwise del: crc16_ccitt.simps(2))

text \<open>
  Error detection. Two messages that agree except in two adjacent bytes (so in a burst
  of at most 16 bits inside them) have the same checksum only if they are equal.
\<close>

lemma crc16_ccitt_detects_burst:
  "crc16_ccitt (xs @ [a, b] @ ys) crc = crc16_ccitt (xs @ [a', b'] @ ys) crc \<longleftrightarrow> a = a' \<and> b = b'"
proof
  assume "crc16_ccitt (xs @ [a, b] @ ys) crc = crc16_ccitt (xs @ [a', b'] @ ys) crc"
  then have "crc16_ccitt [a, b] (crc16_ccitt xs crc) = crc16_ccitt [a', b'] (crc16_ccitt xs crc)"
    unfolding crc16_ccitt_append by (rule crc16_ccitt_inj)
  then have "push_bit 8 (ucast a) XOR ucast b = (push_bit 8 (ucast a') XOR ucast b' :: u16)"
    unfolding crc16_ccitt_two_bytes by (simp only: xor_left_cancel poly_step_pow_eq_iff)
  then have eq: "bit (push_bit 8 (ucast a) XOR ucast b :: u16) n =
                 bit (push_bit 8 (ucast a') XOR ucast b' :: u16) n" for n
    by simp
  have "bit b n = bit b' n" if "n < 8" for n
    using eq [of n] that by (simp add: bit_xor_iff bit_push_bit_iff bit_ucast_iff)
  moreover have "bit a n = bit a' n" if "n < 8" for n
    using eq [of "n + 8"] that
    by (auto simp: bit_xor_iff bit_push_bit_iff bit_ucast_iff dest: bit_imp_le_length)
  ultimately show "a = a' \<and> b = b'" by (auto intro!: word_eq_by_bits)
qed simp

text \<open>
  A message followed by its own checksum, most significant byte first, has checksum 0.
\<close>

lemma crc16_ccitt_residue:
  "crc16_ccitt (bs @ [ucast (drop_bit 8 (crc16_ccitt bs crc)), ucast (crc16_ccitt bs crc)]) crc = 0"
proof -
  let ?c = "crc16_ccitt bs crc"
  have "push_bit 8 (ucast (ucast (drop_bit 8 ?c) :: u8)) XOR ucast (ucast ?c :: u8) = ?c"
    by (rule bit_word_eqI) (auto simp: bit_xor_iff bit_push_bit_iff bit_ucast_iff bit_drop_bit_eq)
  moreover have "(poly_step ^^ n) 0 = 0" for n
    by (induction n) (simp_all add: poly_step_def)
  ultimately show ?thesis
    by (simp add: crc16_ccitt_append crc16_ccitt_two_bytes del: crc16_ccitt.simps(2))
qed

end
