(* ===== verification/SDO_Server.thy ===== *)
theory SDO_Server
  imports CO_Driver Crc16
begin

text \<open>
  The SDO server (\<open>301/CO_SDOserver.c\<close>): the object's state, the CAN receive function, the
  helpers that move data between the transfer buffer and the object dictionary, and
  \<open>CO_SDOserver_process\<close>, split along its own structure into the handling of a new request,
  one receive handler per state, the timers, one transmit handler per state and the final
  abort. The configuration is the one the repository builds: segmented and block transfers,
  dynamic object dictionary, \<open>timerNext\<close>, little-endian, single thread, no callbacks, a buffer of
  900 bytes (901 with the terminator).

  A function returns \<^const>\<open>None\<close> where the C function would access one of its arrays out of
  range. The abort code is passed explicitly, as the source's local variable.
\<close>

section \<open>Types\<close>

datatype CO_SDO_state =
    CO_SDO_ST_IDLE | CO_SDO_ST_ABORT
  | CO_SDO_ST_DOWNLOAD_LOCAL_TRANSFER | CO_SDO_ST_DOWNLOAD_INITIATE_REQ
  | CO_SDO_ST_DOWNLOAD_INITIATE_RSP | CO_SDO_ST_DOWNLOAD_SEGMENT_REQ
  | CO_SDO_ST_DOWNLOAD_SEGMENT_RSP
  | CO_SDO_ST_UPLOAD_LOCAL_TRANSFER | CO_SDO_ST_UPLOAD_INITIATE_REQ
  | CO_SDO_ST_UPLOAD_INITIATE_RSP | CO_SDO_ST_UPLOAD_SEGMENT_REQ | CO_SDO_ST_UPLOAD_SEGMENT_RSP
  | CO_SDO_ST_DOWNLOAD_BLK_INITIATE_REQ | CO_SDO_ST_DOWNLOAD_BLK_INITIATE_RSP
  | CO_SDO_ST_DOWNLOAD_BLK_SUBBLOCK_REQ | CO_SDO_ST_DOWNLOAD_BLK_SUBBLOCK_RSP
  | CO_SDO_ST_DOWNLOAD_BLK_END_REQ | CO_SDO_ST_DOWNLOAD_BLK_END_RSP
  | CO_SDO_ST_UPLOAD_BLK_INITIATE_REQ | CO_SDO_ST_UPLOAD_BLK_INITIATE_RSP
  | CO_SDO_ST_UPLOAD_BLK_INITIATE_REQ2 | CO_SDO_ST_UPLOAD_BLK_SUBBLOCK_SREQ
  | CO_SDO_ST_UPLOAD_BLK_SUBBLOCK_CRSP | CO_SDO_ST_UPLOAD_BLK_END_SREQ
  | CO_SDO_ST_UPLOAD_BLK_END_CRSP

abbreviation (input) "CO_SDO_AB_NONE \<equiv> 0x00000000 :: u32"
abbreviation (input) "CO_SDO_AB_TOGGLE_BIT \<equiv> 0x05030000 :: u32"
abbreviation (input) "CO_SDO_AB_TIMEOUT \<equiv> 0x05040000 :: u32"
abbreviation (input) "CO_SDO_AB_CMD \<equiv> 0x05040001 :: u32"
abbreviation (input) "CO_SDO_AB_BLOCK_SIZE \<equiv> 0x05040002 :: u32"
abbreviation (input) "CO_SDO_AB_CRC \<equiv> 0x05040004 :: u32"
abbreviation (input) "CO_SDO_AB_UNSUPPORTED_ACCESS \<equiv> 0x06010000 :: u32"
abbreviation (input) "CO_SDO_AB_WRITEONLY \<equiv> 0x06010001 :: u32"
abbreviation (input) "CO_SDO_AB_READONLY \<equiv> 0x06010002 :: u32"
abbreviation (input) "CO_SDO_AB_DEVICE_INCOMPAT \<equiv> 0x06040047 :: u32"
abbreviation (input) "CO_SDO_AB_DATA_LONG \<equiv> 0x06070012 :: u32"
abbreviation (input) "CO_SDO_AB_DATA_SHORT \<equiv> 0x06070013 :: u32"

datatype CO_SDO_return =
    CO_SDO_RT_waitingLocalTransfer | CO_SDO_RT_uploadDataBufferFull
  | CO_SDO_RT_transmittBufferFull | CO_SDO_RT_blockDownldInProgress
  | CO_SDO_RT_blockUploadInProgress | CO_SDO_RT_waitingResponse
  | CO_SDO_RT_ok_communicationEnd | CO_SDO_RT_wrongArguments
  | CO_SDO_RT_endedWithClientAbort | CO_SDO_RT_endedWithServerAbort

definition CO_CONFIG_SDO_SRV_BUFFER_SIZE :: u32 where
  "CO_CONFIG_SDO_SRV_BUFFER_SIZE = 900"

text \<open>
  The fields of \<open>CO_SDOserver_t\<close>, with the data and the \<open>bufferFull\<close> flag of its CAN transmit
  buffer, the CAN identifiers configured in the driver, and whether the write function of an
  additional channel is installed on its parameter entry (\<open>OD_1200_extension\<close>).
\<close>

record SDOserver =
  SDO_OD :: OD_t
  nodeId :: u8
  valid :: bool
  state :: CO_SDO_state
  od_io :: OD_IO
  SDO_index :: u16
  SDO_subIndex :: u8
  CANrxNew :: bool
  CANrxData :: "u8 list"
  COB_IDClientToServer :: u32
  COB_IDServerToClient :: u32
  sizeInd :: u32
  sizeTran :: u32
  toggle :: u8
  finished :: bool
  SDOtimeoutTime_us :: u32
  timeoutTimer :: u32
  buf :: "u8 list"
  bufOffsetWr :: u32
  bufOffsetRd :: u32
  block_SDOtimeoutTime_us :: u32
  block_timeoutTimer :: u32
  block_seqno :: u8
  block_blksize :: u8
  block_noData :: u8
  block_crcEnabled :: bool
  block_crc :: u16
  OD_1200_extended :: bool
  CANrx_ident :: u16
  CANtx_ident :: u16
  CANtx_data :: "u8 list"
  CANtx_bufferFull :: bool

text \<open>
  The world of a server: its object, the memory of the object dictionary's variables, and the
  frames handed to the CAN driver so far.
\<close>

record sdo = SDOserver +
  od_mem :: mem
  sent :: "u8 list list"

abbreviation od_stream :: "('a) SDOserver_scheme \<Rightarrow> OD_stream" where
  "od_stream s \<equiv> stream (od_io s)"

abbreviation is_str :: "('a) SDOserver_scheme \<Rightarrow> bool" where
  "is_str s \<equiv> attribute (od_stream s) AND ODA_STR \<noteq> 0"

definition set_dataLength :: "u32 \<Rightarrow> sdo \<Rightarrow> sdo" where
  "set_dataLength n s = s\<lparr>od_io := (od_io s)\<lparr>stream := (od_stream s)\<lparr>dataLength := n\<rparr>\<rparr>\<rparr>"

definition CO_CANsend :: "sdo \<Rightarrow> sdo" where
  "CO_CANsend s = s\<lparr>sent := sent s @ [CANtx_data s]\<rparr>"

definition tx_put :: "(nat \<times> u8) list \<Rightarrow> sdo \<Rightarrow> sdo" where
  "tx_put ps s = s\<lparr>CANtx_data := foldl (\<lambda>d (k, v). d[k := v]) (CANtx_data s) ps\<rparr>"

definition tx_header :: "u8 \<Rightarrow> sdo \<Rightarrow> sdo" where
  "tx_header cmd s =
     tx_put [(0, cmd), (1, ucast (SDO_index s)), (2, ucast (drop_bit 8 (SDO_index s))),
             (3, SDO_subIndex s)] s"

section \<open>The CAN receive function\<close>

text \<open>Block download: the data is copied by the receive function itself.\<close>

definition receive_subblock :: "sdo \<Rightarrow> u8 list \<Rightarrow> sdo option" where
  "receive_subblock s data =
     (if bufOffsetWr s \<le> CO_CONFIG_SDO_SRV_BUFFER_SIZE - (7 + 2) then
        let seqno = data ! 0 AND 0x7F;
            s = s\<lparr>timeoutTimer := 0, block_timeoutTimer := 0\<rparr> in
        if seqno \<le> block_blksize s \<and> unat seqno = unat (block_seqno s) + 1 then do {
          b \<leftarrow> buf_write (buf s) (unat (bufOffsetWr s)) (take 7 (drop 1 data));
          let s = s\<lparr>block_seqno := seqno, buf := b, bufOffsetWr := bufOffsetWr s + 7,
                    sizeTran := sizeTran s + 7\<rparr>;
          Some (if data ! 0 AND 0x80 \<noteq> 0 then
                  s\<lparr>finished := True, CANrxNew := False, state := CO_SDO_ST_DOWNLOAD_BLK_SUBBLOCK_RSP\<rparr>
                else if seqno = block_blksize s then
                  s\<lparr>CANrxNew := False, state := CO_SDO_ST_DOWNLOAD_BLK_SUBBLOCK_RSP\<rparr>
                else s)
        }
        else if seqno \<noteq> block_seqno s \<and> block_seqno s \<noteq> 0 then
          Some (s\<lparr>CANrxNew := False, state := CO_SDO_ST_DOWNLOAD_BLK_SUBBLOCK_RSP\<rparr>)
        else Some s
      else Some s)"

definition CO_SDO_receive :: "sdo \<Rightarrow> u8 list \<Rightarrow> sdo option" where
  "CO_SDO_receive s data =
     (if length data = 8 then
        if data ! 0 = 0x80 then Some (s\<lparr>state := CO_SDO_ST_IDLE\<rparr>)
        else if CANrxNew s then Some s
        else if state s = CO_SDO_ST_UPLOAD_BLK_END_CRSP \<and> data ! 0 = 0xA1 then
          Some (s\<lparr>state := CO_SDO_ST_IDLE\<rparr>)
        else if state s = CO_SDO_ST_DOWNLOAD_BLK_SUBBLOCK_REQ then receive_subblock s data
        else if state s = CO_SDO_ST_DOWNLOAD_BLK_SUBBLOCK_RSP then Some s
        else Some (s\<lparr>CANrxData := data, CANrxNew := True\<rparr>)
      else Some s)"

section \<open>Configuration\<close>

text \<open>
  The results of the driver's buffer initialisation are arguments: \<open>rxRet\<close> is what
  \<open>CO_CANrxBufferInit\<close> returns, \<open>txOk\<close> whether \<open>CO_CANtxBufferInit\<close> returned a buffer.
\<close>

definition canRxTx_idents :: "u32 \<Rightarrow> u32 \<Rightarrow> u16 \<times> u16 \<times> bool" where
  "canRxTx_idents c2s s2c =
     (let idC2S = (if c2s AND 0x80000000 = 0 then ucast c2s else 0);
          idS2C = (if s2c AND 0x80000000 = 0 then ucast s2c else 0)
      in if idC2S \<noteq> 0 \<and> idS2C \<noteq> 0 then (idC2S, idS2C, True) else (0, 0, False))"

definition CO_SDOserver_init_canRxTx ::
    "CO_ReturnError \<Rightarrow> bool \<Rightarrow> sdo \<Rightarrow> u32 \<Rightarrow> u32 \<Rightarrow> CO_ReturnError \<times> sdo" where
  "CO_SDOserver_init_canRxTx rxRet txOk s c2s s2c =
     (if c2s = COB_IDClientToServer s \<and> s2c = COB_IDServerToClient s then (CO_ERROR_NO, s)
      else
        let (idC2S, idS2C, v) = canRxTx_idents c2s s2c;
            s = s\<lparr>COB_IDClientToServer := c2s, COB_IDServerToClient := s2c, valid := v,
                  CANrx_ident := idC2S, CANtx_ident := idS2C\<rparr>
        in if txOk then (rxRet, s) else (CO_ERROR_ILLEGAL_ARGUMENT, s\<lparr>valid := False\<rparr>))"

text \<open>
  The write function installed on an additional channel's parameter object; \<open>s\<close> is the server
  that \<open>stream->object\<close> points to.
\<close>

definition OD_write_1201_additional ::
    "CO_ReturnError \<Rightarrow> bool \<Rightarrow> OD_stream \<Rightarrow> u8 list \<Rightarrow> sdo \<Rightarrow> ODR \<times> OD_stream \<times> u32 \<times> sdo" where
  "OD_write_1201_additional rxRet txOk st b s =
     (let orig = (\<lambda>s. let (r, st', k, m') = OD_writeOriginal st b (od_mem s) in (r, st', k, s\<lparr>od_mem := m'\<rparr>));
          check = (\<lambda>cur COB_ID.
            let CAN_ID = ucast (COB_ID AND 0x7FF) :: u16;
                CAN_ID_cur = ucast (cur AND 0x7FF) :: u16;
                v = (COB_ID AND 0x80000000 = (0 :: u32))
            in COB_ID AND 0x3FFFF800 \<noteq> 0 \<or> (v \<and> valid s \<and> CAN_ID \<noteq> CAN_ID_cur) \<or>
               (v \<and> CO_IS_RESTRICTED_CAN_ID CAN_ID));
          COB_ID = le_word (take 4 b)
      in if stream_subIndex st = 0 then (ODR_READONLY, st, 0, s)
         else if stream_subIndex st = 1 then
           if check (COB_IDClientToServer s) COB_ID then (ODR_INVALID_VALUE, st, 0, s)
           else orig (snd (CO_SDOserver_init_canRxTx rxRet txOk s COB_ID (COB_IDServerToClient s)))
         else if stream_subIndex st = 2 then
           if check (COB_IDServerToClient s) COB_ID then (ODR_INVALID_VALUE, st, 0, s)
           else orig (snd (CO_SDOserver_init_canRxTx rxRet txOk s (COB_IDClientToServer s) COB_ID))
         else if stream_subIndex st = 3 then
           if length b \<noteq> 1 then (ODR_TYPE_MISMATCH, st, 0, s)
           else if b ! 0 < 1 \<or> b ! 0 > 127 then (ODR_INVALID_VALUE, st, 0, s)
           else orig s
         else (ODR_SUB_NOT_EXIST, st, 0, s))"

text \<open>The end of \<open>CO_SDOserver_init\<close>: the CAN buffers are configured for the two identifiers.\<close>

definition init_config :: "CO_ReturnError \<Rightarrow> bool \<Rightarrow> sdo \<Rightarrow> u16 \<Rightarrow> u16 \<Rightarrow> CO_ReturnError \<times> u32 option \<times> sdo" where
  "init_config rxRet txOk s c2s s2c =
     (let s = s\<lparr>CANrxNew := False, COB_IDClientToServer := 0, COB_IDServerToClient := 0\<rparr>;
          (ret, s) = CO_SDOserver_init_canRxTx rxRet txOk s (ucast c2s) (ucast s2c)
      in (ret, None, s))"

text \<open>
  \<open>CO_SDOserver_init\<close>, for the server's parameter entry (if any); it also returns \<open>errInfo\<close>.
  The installation of \<open>OD_write_1201_additional\<close> on the entry is \<open>OD_extension_init\<close>, which
  cannot fail on an entry that exists, so its error return is not reached.
\<close>

definition CO_SDOserver_init ::
    "CO_ReturnError \<Rightarrow> bool \<Rightarrow> sdo \<Rightarrow> OD_t \<Rightarrow> OD_entry option \<Rightarrow> u8 \<Rightarrow> u16 \<Rightarrow>
     CO_ReturnError \<times> u32 option \<times> sdo" where
  "CO_SDOserver_init rxRet txOk s od par node timeout_ms =
     (let s = s\<lparr>SDO_OD := od, nodeId := node, SDOtimeoutTime_us := ucast timeout_ms * 1000,
               block_SDOtimeoutTime_us := ucast timeout_ms * 700, state := CO_SDO_ST_IDLE\<rparr>;
          badNode = (node < 1 \<or> node > 127);
          c2s = 0x600 + ucast node :: u16; s2c = 0x580 + ucast node :: u16
      in case par of
           None \<Rightarrow>
             if badNode then (CO_ERROR_ILLEGAL_ARGUMENT, None, s)
             else init_config rxRet txOk (s\<lparr>valid := True\<rparr>) c2s s2c
         | Some e \<Rightarrow>
             if entry_index e = 0x1200 then
               if badNode then (CO_ERROR_ILLEGAL_ARGUMENT, None, s)
               else
                 let (_, m1) = OD_set_u32 par 1 (ucast c2s) True (od_mem s);
                     (_, m2) = OD_set_u32 par 2 (ucast s2c) True m1
                 in init_config rxRet txOk (s\<lparr>valid := True, od_mem := m2\<rparr>) c2s s2c
             else if entry_index e > 0x1200 \<and> entry_index e \<le> 0x1200 + 0x7F then
               let (r0, maxSub, m0) = OD_get_u8 par 0 True (od_mem s);
                   (r1, cob1, m1) = OD_get_u32 par 1 True m0;
                   (r2, cob2, m2) = OD_get_u32 par 2 True m1;
                   s = s\<lparr>od_mem := m2\<rparr>
               in if r0 \<noteq> ODR_OK \<or> (maxSub \<noteq> 2 \<and> maxSub \<noteq> 3) \<or> r1 \<noteq> ODR_OK \<or> r2 \<noteq> ODR_OK
                  then (CO_ERROR_OD_PARAMETERS, Some (ucast (entry_index e)), s)
                  else init_config rxRet txOk (s\<lparr>OD_1200_extended := True\<rparr>)
                    (if cob1 AND 0x80000000 = 0 then ucast (cob1 AND 0x7FF) else 0)
                    (if cob2 AND 0x80000000 = 0 then ucast (cob2 AND 0x7FF) else 0)
             else (CO_ERROR_ILLEGAL_ARGUMENT, None, s))"

section \<open>Data between the buffer and the object dictionary\<close>

text \<open>
  The result of a helper or handler: whether it succeeded, the abort code it wrote, the server.
  A failure sets the state \<open>CO_SDO_ST_ABORT\<close>.
\<close>

type_synonym sdo_result = "(bool \<times> u32 \<times> sdo) option"

definition sdo_fail :: "u32 \<Rightarrow> sdo \<Rightarrow> sdo_result" where
  "sdo_fail code s = Some (False, code, s\<lparr>state := CO_SDO_ST_ABORT\<rparr>)"

definition sdo_ok :: "sdo \<Rightarrow> sdo_result" where
  "sdo_ok s = Some (True, CO_SDO_AB_NONE, s)"

definition put_zero :: "sdo \<Rightarrow> sdo option" where
  "put_zero s = do {
     b \<leftarrow> buf_write (buf s) (unat (bufOffsetWr s)) [0];
     Some (s\<lparr>buf := b, bufOffsetWr := bufOffsetWr s + 1, sizeTran := sizeTran s + 1\<rparr>)
   }"

text \<open>The size checks at the start of \<open>validateAndWriteToOD\<close>.\<close>

definition validate_size :: "sdo \<Rightarrow> sdo_result" where
  "validate_size s =
     (if finished s then
        if sizeInd s > 0 \<and> sizeTran s \<noteq> sizeInd s then
          sdo_fail (if sizeTran s > sizeInd s then CO_SDO_AB_DATA_LONG else CO_SDO_AB_DATA_SHORT) s
        else
          let sizeInOd = dataLength (od_stream s) in
          if is_str s \<and> (sizeInOd = 0 \<or> sizeTran s < sizeInOd) \<and>
             bufOffsetWr s + 2 \<le> CO_CONFIG_SDO_SRV_BUFFER_SIZE then do {
            s \<leftarrow> put_zero s;
            s \<leftarrow> (if sizeInOd = 0 \<or> sizeTran s < sizeInOd then put_zero s else Some s);
            sdo_ok (set_dataLength (sizeTran s) s)
          }
          else if sizeInOd = 0 then sdo_ok (set_dataLength (sizeTran s) s)
          else if sizeTran s \<noteq> sizeInOd then
            sdo_fail (if sizeTran s > sizeInOd then CO_SDO_AB_DATA_LONG else CO_SDO_AB_DATA_SHORT) s
          else sdo_ok s
      else if sizeInd s > 0 \<and> sizeTran s > sizeInd s then sdo_fail CO_SDO_AB_DATA_LONG s
      else sdo_ok s)"

text \<open>The checksum over the received data, before the terminating zeros were added.\<close>

definition validate_crc :: "u32 \<Rightarrow> u8 \<Rightarrow> u16 \<Rightarrow> sdo \<Rightarrow> sdo_result" where
  "validate_crc bufOffsetWrOrig crcOperation crcClient s =
     (if block_crcEnabled s \<and> crcOperation > 0 then do {
        d \<leftarrow> buf_read (buf s) 0 (unat bufOffsetWrOrig);
        let s = s\<lparr>block_crc := crc16_ccitt d (block_crc s)\<rparr>;
        if crcOperation = 2 \<and> crcClient \<noteq> block_crc s then sdo_fail CO_SDO_AB_CRC s else sdo_ok s
      }
      else sdo_ok s)"

text \<open>The write to the dictionary at the end of \<open>validateAndWriteToOD\<close>.\<close>

definition write_to_od :: "sdo \<Rightarrow> sdo_result" where
  "write_to_od s = do {
     d \<leftarrow> buf_read (buf s) 0 (unat (bufOffsetWr s));
     let (odRet, st, k, m) = io_write (od_io s) (od_stream s) d (od_mem s);
     let s = s\<lparr>od_io := (od_io s)\<lparr>stream := st\<rparr>, od_mem := m, bufOffsetWr := 0\<rparr>;
     if odRet \<noteq> ODR_OK \<and> odRet \<noteq> ODR_PARTIAL then sdo_fail (OD_getSDOabCode odRet) s
     else if finished s \<and> odRet = ODR_PARTIAL then sdo_fail CO_SDO_AB_DATA_SHORT s
     else if \<not> finished s \<and> odRet = ODR_OK then sdo_fail CO_SDO_AB_DATA_LONG s
     else sdo_ok s
   }"

definition validateAndWriteToOD :: "sdo \<Rightarrow> u8 \<Rightarrow> u16 \<Rightarrow> sdo_result" where
  "validateAndWriteToOD s crcOperation crcClient = do {
     (ok, code, s1) \<leftarrow> validate_size s;
     if \<not> ok then Some (False, code, s1)
     else do {
       (ok, code, s2) \<leftarrow> validate_crc (bufOffsetWr s) crcOperation crcClient s1;
       if \<not> ok then Some (False, code, s2) else write_to_od s2
     }
   }"

text \<open>\<open>strlen\<close> on the buffer from an offset; a terminator has been stored before.\<close>

definition buf_strlen :: "u8 list \<Rightarrow> nat \<Rightarrow> nat" where
  "buf_strlen b off = length (takeWhile (\<lambda>c. c \<noteq> 0) (drop off b))"

definition readFromOd_string :: "u32 \<Rightarrow> ODR \<Rightarrow> u32 \<Rightarrow> sdo \<Rightarrow> (ODR \<times> u32 \<times> sdo) option" where
  "readFromOd_string countRemain odRet countRd s =
     (if countRd > 0 \<and> is_str s then do {
        b \<leftarrow> buf_write (buf s) (unat (countRd + countRemain)) [0];
        let s = s\<lparr>buf := b\<rparr>;
        let countStr = word_of_nat (buf_strlen b (unat countRemain));
        let countStr = (if countStr = 0 then 1 else countStr);
        if countStr < countRd then
          Some (ODR_OK, countStr, set_dataLength (sizeTran s + countStr) s)
        else Some (odRet, countRd, s)
      }
      else Some (odRet, countRd, s))"

text \<open>The end of \<open>readFromOd\<close>: the new offset, whether the variable is exhausted, the checksum.\<close>

definition readFromOd_finish :: "u32 \<Rightarrow> u32 \<Rightarrow> bool \<Rightarrow> ODR \<Rightarrow> u32 \<Rightarrow> sdo \<Rightarrow> sdo_result" where
  "readFromOd_finish countRemain countMinimum calculateCrc odRet countRd s =
     (let s = s\<lparr>bufOffsetWr := countRemain + countRd\<rparr>;
          partial = (bufOffsetWr s = 0 \<or> odRet = ODR_PARTIAL);
          s = s\<lparr>finished := \<not> partial\<rparr>
      in if partial \<and> bufOffsetWr s < countMinimum then sdo_fail CO_SDO_AB_DEVICE_INCOMPAT s
         else if calculateCrc \<and> block_crcEnabled s then do {
           d \<leftarrow> buf_read (buf s) (unat countRemain) (unat countRd);
           sdo_ok (s\<lparr>block_crc := crc16_ccitt d (block_crc s)\<rparr>)
         }
         else sdo_ok s)"

definition readFromOd :: "sdo \<Rightarrow> u32 \<Rightarrow> bool \<Rightarrow> sdo_result" where
  "readFromOd s countMinimum calculateCrc =
     (let countRemain = bufOffsetWr s - bufOffsetRd s in
      if \<not> finished s \<and> countRemain < countMinimum then do {
        d \<leftarrow> buf_read (buf s) (unat (bufOffsetRd s)) (unat countRemain);
        b \<leftarrow> buf_write (buf s) 0 d;
        let s = s\<lparr>buf := b, bufOffsetRd := 0, bufOffsetWr := countRemain\<rparr>;
        let countRdRequest = CO_CONFIG_SDO_SRV_BUFFER_SIZE - countRemain;
        let (odRet, st, bs, m) = io_read (od_io s) (od_stream s) countRdRequest (od_mem s);
        b \<leftarrow> buf_write (buf s) (unat countRemain) bs;
        let s = s\<lparr>buf := b, od_io := (od_io s)\<lparr>stream := st\<rparr>, od_mem := m\<rparr>;
        if odRet \<noteq> ODR_OK \<and> odRet \<noteq> ODR_PARTIAL then sdo_fail (OD_getSDOabCode odRet) s
        else do {
          (odRet, countRd, s) \<leftarrow> readFromOd_string countRemain odRet (word_of_nat (length bs)) s;
          readFromOd_finish countRemain countMinimum calculateCrc odRet countRd s
        }
      }
      else sdo_ok s)"

end
