(* ===== verification/SDO_Process.thy ===== *)
theory SDO_Process
  imports SDO_Server
begin

text \<open>
  \<open>CO_SDOserver_process\<close> of \<open>301/CO_SDOserver.c\<close>: the branches of its three switches as one
  definition each, and their composition in the source's order.
\<close>

section \<open>A new request\<close>

text \<open>
  The command specifier of a request to an idle server: the state it selects and whether it is
  an upload, or an unknown command.
\<close>

definition request_state :: "u8 \<Rightarrow> (CO_SDO_state \<times> bool) option" where
  "request_state cmd =
     (if cmd AND 0xF0 = 0x20 then Some (CO_SDO_ST_DOWNLOAD_INITIATE_REQ, False)
      else if cmd = 0x40 then Some (CO_SDO_ST_UPLOAD_INITIATE_REQ, True)
      else if cmd AND 0xF9 = 0xC0 then Some (CO_SDO_ST_DOWNLOAD_BLK_INITIATE_REQ, False)
      else if cmd AND 0xFB = 0xA0 then Some (CO_SDO_ST_UPLOAD_BLK_INITIATE_REQ, True)
      else None)"

definition check_access :: "bool \<Rightarrow> sdo \<Rightarrow> sdo_result" where
  "check_access upload s =
     (let att = attribute (od_stream s) in
      if att AND ODA_SDO_RW = 0 then sdo_fail CO_SDO_AB_UNSUPPORTED_ACCESS s
      else if upload \<and> att AND ODA_SDO_R = 0 then sdo_fail CO_SDO_AB_WRITEONLY s
      else if \<not> upload \<and> att AND ODA_SDO_W = 0 then sdo_fail CO_SDO_AB_READONLY s
      else sdo_ok s)"

definition search_od :: "bool \<Rightarrow> sdo \<Rightarrow> sdo_result" where
  "search_od upload s =
     (let d = CANrxData s;
          s = s\<lparr>SDO_index := push_bit 8 (ucast (d ! 2)) OR ucast (d ! 1), SDO_subIndex := d ! 3\<rparr>;
          (odRet, io) = OD_getSub (OD_find (SDO_OD s) (SDO_index s)) (SDO_subIndex s) (od_io s) False;
          s = s\<lparr>od_io := io\<rparr>
      in if odRet \<noteq> ODR_OK then sdo_fail (OD_getSDOabCode odRet) s else check_access upload s)"

text \<open>An upload loads the data at once; its size is known if the variable was read completely.\<close>

definition load_upload :: "sdo \<Rightarrow> sdo_result" where
  "load_upload s = do {
     let s = s\<lparr>bufOffsetRd := 0, bufOffsetWr := 0, sizeTran := 0, finished := False\<rparr>;
     (ok, code, s) \<leftarrow> readFromOd s 7 False;
     if \<not> ok then Some (False, code, s)
     else if finished s then
       let s = s\<lparr>sizeInd := dataLength (od_stream s)\<rparr> in
       if sizeInd s = 0 then sdo_ok (s\<lparr>sizeInd := bufOffsetWr s\<rparr>)
       else if sizeInd s \<noteq> bufOffsetWr s then sdo_fail CO_SDO_AB_DEVICE_INCOMPAT s
       else sdo_ok s
     else sdo_ok (s\<lparr>sizeInd := (if is_str s then 0 else dataLength (od_stream s))\<rparr>)
   }"

definition rx_idle :: "sdo \<Rightarrow> sdo_result" where
  "rx_idle s =
     (case request_state (CANrxData s ! 0) of
        None \<Rightarrow> sdo_fail CO_SDO_AB_CMD s
      | Some (st, upload) \<Rightarrow> do {
          (ok, code, s) \<leftarrow> search_od upload (s\<lparr>state := st\<rparr>);
          if ok \<and> upload then load_upload s else Some (ok, code, s)
        })"

section \<open>Receive handlers\<close>

text \<open>The write of the expedited data, from the zero-padded copy \<open>buf[6]\<close> on the stack.\<close>

definition write_expedited :: "u8 list \<Rightarrow> u32 \<Rightarrow> sdo \<Rightarrow> sdo_result" where
  "write_expedited tmp n s = do {
     d \<leftarrow> buf_read tmp 0 (unat n);
     let (odRet, st, k, m) = io_write (od_io s) (od_stream s) d (od_mem s);
     let s = s\<lparr>od_io := (od_io s)\<lparr>stream := st\<rparr>, od_mem := m\<rparr>;
     if odRet \<noteq> ODR_OK then sdo_fail (OD_getSDOabCode odRet) s
     else sdo_ok (s\<lparr>state := CO_SDO_ST_DOWNLOAD_INITIATE_RSP, finished := True\<rparr>)
   }"

definition rx_download_expedited :: "sdo \<Rightarrow> sdo_result" where
  "rx_download_expedited s =
     (let cmd = CANrxData s ! 0;
          sizeInOd = dataLength (od_stream s);
          size = (if cmd AND 0x01 \<noteq> 0 then 4 - (drop_bit 2 (ucast cmd) AND 0x03)
                  else if sizeInOd > 0 \<and> sizeInOd < 4 then sizeInOd
                  else 4) :: u32;
          tmp = take (unat size) (drop 4 (CANrxData s)) @ replicate (6 - unat size) 0
      in if is_str s \<and> (sizeInOd = 0 \<or> size < sizeInOd) then
           let n = size + (if sizeInOd - size = 1 then 1 else 2) in write_expedited tmp n (set_dataLength n s)
         else if sizeInOd = 0 then write_expedited tmp size (set_dataLength size s)
         else if size \<noteq> sizeInOd then
           sdo_fail (if size > sizeInOd then CO_SDO_AB_DATA_LONG else CO_SDO_AB_DATA_SHORT) s
         else write_expedited tmp size s)"

text \<open>The size that a segmented or block download indicates, checked against the variable.\<close>

definition check_size_indicated :: "bool \<Rightarrow> sdo \<Rightarrow> sdo_result" where
  "check_size_indicated indicated s =
     (if indicated then
        let s = s\<lparr>sizeInd := le_word (take 4 (drop 4 (CANrxData s)))\<rparr>;
            sizeInOd = dataLength (od_stream s)
        in if sizeInOd > 0 then
             if sizeInd s > sizeInOd then sdo_fail CO_SDO_AB_DATA_LONG s
             else if sizeInd s < sizeInOd \<and> \<not> is_str s then sdo_fail CO_SDO_AB_DATA_SHORT s
             else sdo_ok s
           else sdo_ok s
      else sdo_ok (s\<lparr>sizeInd := 0\<rparr>))"

definition rx_DOWNLOAD_INITIATE_REQ :: "sdo \<Rightarrow> sdo_result" where
  "rx_DOWNLOAD_INITIATE_REQ s =
     (if CANrxData s ! 0 AND 0x02 \<noteq> 0 then rx_download_expedited s
      else do {
        (ok, code, s) \<leftarrow> check_size_indicated (CANrxData s ! 0 AND 0x01 \<noteq> 0) s;
        if \<not> ok then Some (False, code, s)
        else sdo_ok (s\<lparr>state := CO_SDO_ST_DOWNLOAD_INITIATE_RSP, finished := False\<rparr>)
      })"

text \<open>The buffer is written to the dictionary when the transfer is finished or the buffer is full.\<close>

definition download_flush :: "sdo \<Rightarrow> sdo_result" where
  "download_flush s =
     (if finished s \<or> CO_CONFIG_SDO_SRV_BUFFER_SIZE - bufOffsetWr s < 7 + 2
      then validateAndWriteToOD s 0 0 else sdo_ok s)"

definition rx_DOWNLOAD_SEGMENT_REQ :: "sdo \<Rightarrow> sdo_result" where
  "rx_DOWNLOAD_SEGMENT_REQ s =
     (let cmd = CANrxData s ! 0 in
      if cmd AND 0xE0 = 0x00 then
        let s = s\<lparr>finished := (cmd AND 0x01 \<noteq> 0)\<rparr> in
        if cmd AND 0x10 \<noteq> toggle s then sdo_fail CO_SDO_AB_TOGGLE_BIT s
        else do {
          let count = (7 - (drop_bit 1 (ucast cmd) AND 0x07) :: u32);
          b \<leftarrow> buf_write (buf s) (unat (bufOffsetWr s)) (take (unat count) (drop 1 (CANrxData s)));
          let s = s\<lparr>buf := b, bufOffsetWr := bufOffsetWr s + count, sizeTran := sizeTran s + count\<rparr>;
          if dataLength (od_stream s) > 0 \<and> sizeTran s > dataLength (od_stream s) then
            sdo_fail CO_SDO_AB_DATA_LONG s
          else do {
            (ok, code, s) \<leftarrow> download_flush s;
            if \<not> ok then Some (False, code, s)
            else sdo_ok (s\<lparr>state := CO_SDO_ST_DOWNLOAD_SEGMENT_RSP\<rparr>)
          }
        }
      else sdo_fail CO_SDO_AB_CMD s)"

definition rx_UPLOAD_SEGMENT_REQ :: "sdo \<Rightarrow> sdo_result" where
  "rx_UPLOAD_SEGMENT_REQ s =
     (let cmd = CANrxData s ! 0 in
      if cmd AND 0xEF = 0x60 then
        if cmd AND 0x10 \<noteq> toggle s then sdo_fail CO_SDO_AB_TOGGLE_BIT s
        else sdo_ok (s\<lparr>state := CO_SDO_ST_UPLOAD_SEGMENT_RSP\<rparr>)
      else sdo_fail CO_SDO_AB_CMD s)"

definition rx_DOWNLOAD_BLK_INITIATE_REQ :: "sdo \<Rightarrow> sdo_result" where
  "rx_DOWNLOAD_BLK_INITIATE_REQ s = do {
     let cmd = CANrxData s ! 0;
     let s = s\<lparr>block_crcEnabled := (cmd AND 0x04 \<noteq> 0)\<rparr>;
     (ok, code, s) \<leftarrow> check_size_indicated (cmd AND 0x02 \<noteq> 0) s;
     if \<not> ok then Some (False, code, s)
     else sdo_ok (s\<lparr>state := CO_SDO_ST_DOWNLOAD_BLK_INITIATE_RSP, finished := False\<rparr>)
   }"

definition rx_DOWNLOAD_BLK_END_REQ :: "sdo \<Rightarrow> sdo_result" where
  "rx_DOWNLOAD_BLK_END_REQ s =
     (let d = CANrxData s; cmd = d ! 0 in
      if cmd AND 0xE3 = 0xC1 then
        let noData = drop_bit 2 cmd AND 0x07 in
        if bufOffsetWr s \<le> ucast noData then sdo_fail CO_SDO_AB_DEVICE_INCOMPAT s
        else do {
          let s = s\<lparr>sizeTran := sizeTran s - ucast noData, bufOffsetWr := bufOffsetWr s - ucast noData\<rparr>;
          let crcClient =
            (if block_crcEnabled s then push_bit 8 (ucast (d ! 2)) OR ucast (d ! 1) else 0);
          (ok, code, s) \<leftarrow> validateAndWriteToOD s 2 crcClient;
          if \<not> ok then Some (False, code, s)
          else sdo_ok (s\<lparr>state := CO_SDO_ST_DOWNLOAD_BLK_END_RSP\<rparr>)
        }
      else sdo_fail CO_SDO_AB_CMD s)"

definition rx_UPLOAD_BLK_INITIATE_REQ :: "sdo \<Rightarrow> sdo_result" where
  "rx_UPLOAD_BLK_INITIATE_REQ s =
     (let d = CANrxData s in
      if sizeInd s > 0 \<and> d ! 5 > 0 \<and> ucast (d ! 5) \<ge> sizeInd s then
        sdo_ok (s\<lparr>state := CO_SDO_ST_UPLOAD_INITIATE_RSP\<rparr>)
      else do {
        s \<leftarrow> (if d ! 0 AND 0x04 \<noteq> 0 then do {
                 c \<leftarrow> buf_read (buf s) 0 (unat (bufOffsetWr s));
                 Some (s\<lparr>block_crcEnabled := True, block_crc := crc16_ccitt c 0\<rparr>)
               }
               else Some (s\<lparr>block_crcEnabled := False\<rparr>));
        let s = s\<lparr>block_blksize := d ! 4\<rparr>;
        if block_blksize s < 1 \<or> block_blksize s > 127 then sdo_fail CO_SDO_AB_BLOCK_SIZE s
        else if \<not> finished s \<and> bufOffsetWr s < ucast (block_blksize s) * 7 then
          sdo_fail CO_SDO_AB_DEVICE_INCOMPAT s
        else sdo_ok (s\<lparr>state := CO_SDO_ST_UPLOAD_BLK_INITIATE_RSP\<rparr>)
      })"

definition rx_UPLOAD_BLK_INITIATE_REQ2 :: "sdo \<Rightarrow> sdo_result" where
  "rx_UPLOAD_BLK_INITIATE_REQ2 s =
     (if CANrxData s ! 0 = 0xA3 then
        sdo_ok (s\<lparr>block_seqno := 0, state := CO_SDO_ST_UPLOAD_BLK_SUBBLOCK_SREQ\<rparr>)
      else sdo_fail CO_SDO_AB_CMD s)"

text \<open>The client confirmed fewer segments than were sent: the read offset goes back.\<close>

definition upload_back :: "u8 \<Rightarrow> sdo \<Rightarrow> sdo" where
  "upload_back ackseq s =
     (if ackseq < block_seqno s then
        let cntFailed = (ucast (block_seqno s) - ucast ackseq) * 7 - ucast (block_noData s) in
        s\<lparr>bufOffsetRd := bufOffsetRd s - cntFailed, sizeTran := sizeTran s - cntFailed\<rparr>
      else s)"

definition rx_UPLOAD_BLK_SUBBLOCK :: "sdo \<Rightarrow> sdo_result" where
  "rx_UPLOAD_BLK_SUBBLOCK s =
     (let d = CANrxData s in
      if d ! 0 = 0xA2 then
        let s = s\<lparr>block_blksize := d ! 2\<rparr> in
        if block_blksize s < 1 \<or> block_blksize s > 127 then sdo_fail CO_SDO_AB_BLOCK_SIZE s
        else if d ! 1 > block_seqno s then sdo_fail CO_SDO_AB_CMD s
        else do {
          let s = upload_back (d ! 1) s;
          (ok, code, s) \<leftarrow> readFromOd s (ucast (block_blksize s) * 7) True;
          if \<not> ok then Some (False, code, s)
          else if bufOffsetWr s = bufOffsetRd s then
            sdo_ok (s\<lparr>state := CO_SDO_ST_UPLOAD_BLK_END_SREQ\<rparr>)
          else sdo_ok (s\<lparr>block_seqno := 0, state := CO_SDO_ST_UPLOAD_BLK_SUBBLOCK_SREQ\<rparr>)
        }
      else sdo_fail CO_SDO_AB_CMD s)"

definition rx_state :: "sdo \<Rightarrow> sdo_result" where
  "rx_state s =
     (case state s of
        CO_SDO_ST_DOWNLOAD_INITIATE_REQ \<Rightarrow> rx_DOWNLOAD_INITIATE_REQ s
      | CO_SDO_ST_DOWNLOAD_SEGMENT_REQ \<Rightarrow> rx_DOWNLOAD_SEGMENT_REQ s
      | CO_SDO_ST_UPLOAD_INITIATE_REQ \<Rightarrow> sdo_ok (s\<lparr>state := CO_SDO_ST_UPLOAD_INITIATE_RSP\<rparr>)
      | CO_SDO_ST_UPLOAD_SEGMENT_REQ \<Rightarrow> rx_UPLOAD_SEGMENT_REQ s
      | CO_SDO_ST_DOWNLOAD_BLK_INITIATE_REQ \<Rightarrow> rx_DOWNLOAD_BLK_INITIATE_REQ s
      | CO_SDO_ST_DOWNLOAD_BLK_SUBBLOCK_REQ \<Rightarrow> sdo_ok s
      | CO_SDO_ST_DOWNLOAD_BLK_END_REQ \<Rightarrow> rx_DOWNLOAD_BLK_END_REQ s
      | CO_SDO_ST_UPLOAD_BLK_INITIATE_REQ \<Rightarrow> rx_UPLOAD_BLK_INITIATE_REQ s
      | CO_SDO_ST_UPLOAD_BLK_INITIATE_REQ2 \<Rightarrow> rx_UPLOAD_BLK_INITIATE_REQ2 s
      | CO_SDO_ST_UPLOAD_BLK_SUBBLOCK_SREQ \<Rightarrow> rx_UPLOAD_BLK_SUBBLOCK s
      | CO_SDO_ST_UPLOAD_BLK_SUBBLOCK_CRSP \<Rightarrow> rx_UPLOAD_BLK_SUBBLOCK s
      | _ \<Rightarrow> sdo_fail CO_SDO_AB_CMD s)"

text \<open>The whole receive part: the abort code (if any) and the server.\<close>

definition sdo_rx :: "sdo \<Rightarrow> (u32 \<times> sdo) option" where
  "sdo_rx s = do {
     (ok, code, s) \<leftarrow> (if state s = CO_SDO_ST_IDLE then rx_idle s else sdo_ok s);
     (code, s) \<leftarrow>
       (if state s \<noteq> CO_SDO_ST_IDLE \<and> state s \<noteq> CO_SDO_ST_ABORT then do {
          (ok', code', s') \<leftarrow> rx_state s;
          Some (if ok' then code else code', s')
        }
        else Some (code, s));
     Some (code, s\<lparr>timeoutTimer := 0, CANrxNew := False\<rparr>)
   }"

section \<open>Timers\<close>

definition timer_next :: "u32 option \<Rightarrow> u32 \<Rightarrow> u32 option" where
  "timer_next tn diff = map_option (\<lambda>t. if t > diff then diff else t) tn"

definition sdo_timers :: "u32 \<Rightarrow> u32 \<Rightarrow> u32 option \<Rightarrow> sdo \<Rightarrow> u32 \<times> u32 option \<times> sdo" where
  "sdo_timers code dt tn s =
     (let s = (if timeoutTimer s < SDOtimeoutTime_us s then s\<lparr>timeoutTimer := timeoutTimer s + dt\<rparr> else s);
          (code, tn, s) =
            (if timeoutTimer s \<ge> SDOtimeoutTime_us s then (CO_SDO_AB_TIMEOUT, tn, s\<lparr>state := CO_SDO_ST_ABORT\<rparr>)
             else (code, timer_next tn (SDOtimeoutTime_us s - timeoutTimer s), s))
      in if state s = CO_SDO_ST_DOWNLOAD_BLK_SUBBLOCK_REQ then
           let s = (if block_timeoutTimer s < block_SDOtimeoutTime_us s
                    then s\<lparr>block_timeoutTimer := block_timeoutTimer s + dt\<rparr> else s)
           in if block_timeoutTimer s \<ge> block_SDOtimeoutTime_us s then
                (code, tn, s\<lparr>state := CO_SDO_ST_DOWNLOAD_BLK_SUBBLOCK_RSP, CANrxNew := False\<rparr>)
              else (code, timer_next tn (block_SDOtimeoutTime_us s - block_timeoutTimer s), s)
         else (code, tn, s))"

section \<open>Transmit handlers\<close>

text \<open>A transmit handler returns the return value, the abort code and the server.\<close>

type_synonym tx_result = "(CO_SDO_return \<times> u32 \<times> sdo) option"

abbreviation "tx_wait code s \<equiv> Some (CO_SDO_RT_waitingResponse, code, s)"
abbreviation "tx_end code s \<equiv> Some (CO_SDO_RT_ok_communicationEnd, code, s)"

definition tx_DOWNLOAD_INITIATE_RSP :: "u32 \<Rightarrow> sdo \<Rightarrow> tx_result" where
  "tx_DOWNLOAD_INITIATE_RSP code s =
     (let s = CO_CANsend ((tx_header 0x60 s)\<lparr>timeoutTimer := 0\<rparr>) in
      if finished s then tx_end code (s\<lparr>state := CO_SDO_ST_IDLE\<rparr>)
      else tx_wait code (s\<lparr>toggle := 0x00, sizeTran := 0, bufOffsetWr := 0, bufOffsetRd := 0,
                          state := CO_SDO_ST_DOWNLOAD_SEGMENT_REQ\<rparr>))"

abbreviation toggled :: "u8 \<Rightarrow> u8" where
  "toggled t \<equiv> (if t = 0x00 then 0x10 else 0x00)"

definition tx_DOWNLOAD_SEGMENT_RSP :: "u32 \<Rightarrow> sdo \<Rightarrow> tx_result" where
  "tx_DOWNLOAD_SEGMENT_RSP code s =
     (let s = CO_CANsend ((tx_put [(0, 0x20 OR toggle s)] s)\<lparr>toggle := toggled (toggle s), timeoutTimer := 0\<rparr>) in
      if finished s then tx_end code (s\<lparr>state := CO_SDO_ST_IDLE\<rparr>)
      else tx_wait code (s\<lparr>state := CO_SDO_ST_DOWNLOAD_SEGMENT_REQ\<rparr>))"

definition tx_copy :: "nat \<Rightarrow> u8 list \<Rightarrow> sdo \<Rightarrow> sdo option" where
  "tx_copy off d s = do { t \<leftarrow> buf_write (CANtx_data s) off d; Some (s\<lparr>CANtx_data := t\<rparr>) }"

definition tx_UPLOAD_INITIATE_RSP :: "u32 \<Rightarrow> sdo \<Rightarrow> tx_result" where
  "tx_UPLOAD_INITIATE_RSP code s =
     (if sizeInd s > 0 \<and> sizeInd s \<le> 4 then do {
        d \<leftarrow> buf_read (buf s) 0 (unat (sizeInd s));
        s \<leftarrow> tx_copy 4 d (tx_put [(0, ucast (0x43 OR push_bit 2 (4 - sizeInd s)))] s);
        let s = s\<lparr>state := CO_SDO_ST_IDLE\<rparr>;
        tx_end code (CO_CANsend (tx_header (CANtx_data s ! 0) s))
      }
      else do {
        s \<leftarrow> (if sizeInd s > 0 then tx_copy 4 (le_bytes 4 (sizeInd s)) (tx_put [(0, 0x41)] s)
               else Some (tx_put [(0, 0x40)] s));
        let s = s\<lparr>toggle := 0x00, timeoutTimer := 0, state := CO_SDO_ST_UPLOAD_SEGMENT_REQ\<rparr>;
        tx_wait code (CO_CANsend (tx_header (CANtx_data s ! 0) s))
      })"

definition tx_UPLOAD_SEGMENT_RSP :: "u32 \<Rightarrow> sdo \<Rightarrow> tx_result" where
  "tx_UPLOAD_SEGMENT_RSP code s = do {
     (ok, code', s) \<leftarrow> readFromOd s 7 False;
     if \<not> ok then tx_wait code' s
     else do {
       let s = (tx_put [(0, toggle s)] s)\<lparr>toggle := toggled (toggle s)\<rparr>;
       let count = bufOffsetWr s - bufOffsetRd s;
       let last = (count < 7 \<or> (finished s \<and> count = 7));
       let s = (if last then (tx_put [(0, CANtx_data s ! 0 OR ucast (push_bit 1 (7 - count) OR 0x01))] s)\<lparr>state := CO_SDO_ST_IDLE\<rparr>
                else s\<lparr>timeoutTimer := 0, state := CO_SDO_ST_UPLOAD_SEGMENT_REQ\<rparr>);
       let ret = (if last then CO_SDO_RT_ok_communicationEnd else CO_SDO_RT_waitingResponse);
       let count = (if last then count else 7);
       d \<leftarrow> buf_read (buf s) (unat (bufOffsetRd s)) (unat count);
       s \<leftarrow> tx_copy 1 d s;
       let s = s\<lparr>bufOffsetRd := bufOffsetRd s + count, sizeTran := sizeTran s + count\<rparr>;
       if sizeInd s > 0 \<and> sizeTran s > sizeInd s then
         Some (ret, CO_SDO_AB_DATA_LONG, s\<lparr>state := CO_SDO_ST_ABORT\<rparr>)
       else if sizeInd s > 0 \<and> ret = CO_SDO_RT_ok_communicationEnd \<and> sizeTran s < sizeInd s then
         tx_wait CO_SDO_AB_DATA_SHORT (s\<lparr>state := CO_SDO_ST_ABORT\<rparr>)
       else Some (ret, code, CO_CANsend s)
     }
   }"

definition blksize_of_space :: "u32 \<Rightarrow> u32" where
  "blksize_of_space space = (let count = space div 7 in if count > 127 then 127 else count)"

definition tx_DOWNLOAD_BLK_INITIATE_RSP :: "u32 \<Rightarrow> sdo \<Rightarrow> tx_result" where
  "tx_DOWNLOAD_BLK_INITIATE_RSP code s =
     (let s = tx_header 0xA4 s;
          s = s\<lparr>block_blksize := ucast (blksize_of_space (CO_CONFIG_SDO_SRV_BUFFER_SIZE - 2))\<rparr>;
          s = tx_put [(4, block_blksize s)] s
      in tx_wait code (CO_CANsend
           (s\<lparr>sizeTran := 0, finished := False, bufOffsetWr := 0, bufOffsetRd := 0, block_seqno := 0,
              block_crc := 0, timeoutTimer := 0, block_timeoutTimer := 0,
              state := CO_SDO_ST_DOWNLOAD_BLK_SUBBLOCK_REQ, CANrxNew := False\<rparr>)))"

definition tx_DOWNLOAD_BLK_SUBBLOCK_RSP :: "u32 \<Rightarrow> sdo \<Rightarrow> tx_result" where
  "tx_DOWNLOAD_BLK_SUBBLOCK_RSP code s =
     (let s = tx_put [(0, 0xA2), (1, block_seqno s)] s;
          respond = (\<lambda>s. tx_wait code (CO_CANsend ((tx_put [(2, block_blksize s)] s)\<lparr>block_timeoutTimer := 0\<rparr>)));
          restart = (\<lambda>count s. respond (s\<lparr>block_blksize := ucast (count :: u32), block_seqno := 0,
            state := CO_SDO_ST_DOWNLOAD_BLK_SUBBLOCK_REQ, CANrxNew := False\<rparr>))
      in if finished s then respond (s\<lparr>state := CO_SDO_ST_DOWNLOAD_BLK_END_REQ\<rparr>)
         else
           let count = (CO_CONFIG_SDO_SRV_BUFFER_SIZE - 2 - bufOffsetWr s) div 7 in
           if count \<ge> 127 then restart 127 s
           else if bufOffsetWr s > 0 then do {
             (ok, code', s) \<leftarrow> validateAndWriteToOD s 1 0;
             if \<not> ok then tx_wait code' s
             else
               let count = (CO_CONFIG_SDO_SRV_BUFFER_SIZE - 2 - bufOffsetWr s) div 7 in
               restart (if count \<ge> 127 then 127 else count) s
           }
           else restart count s)"

definition tx_DOWNLOAD_BLK_END_RSP :: "u32 \<Rightarrow> sdo \<Rightarrow> tx_result" where
  "tx_DOWNLOAD_BLK_END_RSP code s =
     tx_end code ((CO_CANsend (tx_put [(0, 0xA1)] s))\<lparr>state := CO_SDO_ST_IDLE\<rparr>)"

definition tx_UPLOAD_BLK_INITIATE_RSP :: "u32 \<Rightarrow> sdo \<Rightarrow> tx_result" where
  "tx_UPLOAD_BLK_INITIATE_RSP code s = do {
     let s = tx_header 0xC4 s;
     s \<leftarrow> (if sizeInd s > 0 then
              tx_copy 4 (le_bytes 4 (sizeInd s)) (tx_put [(0, CANtx_data s ! 0 OR 0x02)] s)
            else Some s);
     let s = CO_CANsend (s\<lparr>timeoutTimer := 0\<rparr>);
     tx_wait code (s\<lparr>state := CO_SDO_ST_UPLOAD_BLK_INITIATE_REQ2\<rparr>)
   }"

text \<open>
  After a segment of a sub-block was prepared: the sizes are compared, the segment is sent, and
  the sub-block ends or the function asks to be called again without delay.
\<close>

definition upload_blk_send ::
    "u32 \<Rightarrow> u32 option \<Rightarrow> sdo \<Rightarrow> (CO_SDO_return \<times> u32 \<times> u32 option \<times> sdo) option" where
  "upload_blk_send code tn s =
     (if sizeInd s > 0 \<and> sizeTran s > sizeInd s then
        Some (CO_SDO_RT_waitingResponse, CO_SDO_AB_DATA_LONG, tn, s\<lparr>state := CO_SDO_ST_ABORT\<rparr>)
      else if sizeInd s > 0 \<and> bufOffsetWr s = bufOffsetRd s \<and> sizeTran s < sizeInd s then
        Some (CO_SDO_RT_waitingResponse, CO_SDO_AB_DATA_SHORT, tn, s\<lparr>state := CO_SDO_ST_ABORT\<rparr>)
      else
        let done = (bufOffsetWr s = bufOffsetRd s \<or> block_seqno s \<ge> block_blksize s);
            tn = (if done then tn else map_option (\<lambda>_. 0) tn);
            s = (if done then s\<lparr>state := CO_SDO_ST_UPLOAD_BLK_SUBBLOCK_CRSP\<rparr> else s)
        in Some (CO_SDO_RT_waitingResponse, code, tn, CO_CANsend (s\<lparr>timeoutTimer := 0\<rparr>)))"

definition tx_UPLOAD_BLK_SUBBLOCK_SREQ ::
    "u32 \<Rightarrow> u32 option \<Rightarrow> sdo \<Rightarrow> (CO_SDO_return \<times> u32 \<times> u32 option \<times> sdo) option" where
  "tx_UPLOAD_BLK_SUBBLOCK_SREQ code tn s = do {
     let s = s\<lparr>block_seqno := block_seqno s + 1\<rparr>;
     let count = bufOffsetWr s - bufOffsetRd s;
     let last = (count < 7 \<or> (finished s \<and> count = 7));
     let s = tx_put [(0, block_seqno s OR (if last then 0x80 else 0))] s;
     let count = (if last then count else 7);
     d \<leftarrow> buf_read (buf s) (unat (bufOffsetRd s)) (unat count);
     s \<leftarrow> tx_copy 1 d s;
     upload_blk_send code tn
       (s\<lparr>bufOffsetRd := bufOffsetRd s + count, block_noData := ucast (7 - count),
          sizeTran := sizeTran s + count\<rparr>)
   }"

definition tx_UPLOAD_BLK_END_SREQ :: "u32 \<Rightarrow> sdo \<Rightarrow> tx_result" where
  "tx_UPLOAD_BLK_END_SREQ code s =
     (let s = tx_put [(0, 0xC1 OR push_bit 2 (block_noData s)), (1, ucast (block_crc s)),
                      (2, ucast (drop_bit 8 (block_crc s)))] s
      in tx_wait code ((CO_CANsend (s\<lparr>timeoutTimer := 0\<rparr>))\<lparr>state := CO_SDO_ST_UPLOAD_BLK_END_CRSP\<rparr>))"

definition sdo_tx :: "u32 \<Rightarrow> u32 option \<Rightarrow> sdo \<Rightarrow> (CO_SDO_return \<times> u32 \<times> u32 option \<times> sdo) option" where
  "sdo_tx code tn s =
     (let s = s\<lparr>CANtx_data := replicate 8 0\<rparr>;
          keep = map_option (\<lambda>(ret, code, s). (ret, code, tn, s))
      in case state s of
           CO_SDO_ST_DOWNLOAD_INITIATE_RSP \<Rightarrow> keep (tx_DOWNLOAD_INITIATE_RSP code s)
         | CO_SDO_ST_DOWNLOAD_SEGMENT_RSP \<Rightarrow> keep (tx_DOWNLOAD_SEGMENT_RSP code s)
         | CO_SDO_ST_UPLOAD_INITIATE_RSP \<Rightarrow> keep (tx_UPLOAD_INITIATE_RSP code s)
         | CO_SDO_ST_UPLOAD_SEGMENT_RSP \<Rightarrow> keep (tx_UPLOAD_SEGMENT_RSP code s)
         | CO_SDO_ST_DOWNLOAD_BLK_INITIATE_RSP \<Rightarrow> keep (tx_DOWNLOAD_BLK_INITIATE_RSP code s)
         | CO_SDO_ST_DOWNLOAD_BLK_SUBBLOCK_RSP \<Rightarrow> keep (tx_DOWNLOAD_BLK_SUBBLOCK_RSP code s)
         | CO_SDO_ST_DOWNLOAD_BLK_END_RSP \<Rightarrow> keep (tx_DOWNLOAD_BLK_END_RSP code s)
         | CO_SDO_ST_UPLOAD_BLK_INITIATE_RSP \<Rightarrow> keep (tx_UPLOAD_BLK_INITIATE_RSP code s)
         | CO_SDO_ST_UPLOAD_BLK_SUBBLOCK_SREQ \<Rightarrow> tx_UPLOAD_BLK_SUBBLOCK_SREQ code tn s
         | CO_SDO_ST_UPLOAD_BLK_END_SREQ \<Rightarrow> keep (tx_UPLOAD_BLK_END_SREQ code s)
         | _ \<Rightarrow> keep (tx_wait code s))"

text \<open>The end of the function: the abort message, and the return value of a running block transfer.\<close>

definition sdo_finish :: "CO_SDO_return \<Rightarrow> u32 \<Rightarrow> sdo \<Rightarrow> CO_SDO_return \<times> sdo" where
  "sdo_finish ret code s =
     (if ret = CO_SDO_RT_waitingResponse then
        if state s = CO_SDO_ST_ABORT then
          let s = tx_header 0x80 s;
              s = s\<lparr>CANtx_data := take 4 (CANtx_data s) @ le_bytes 4 code\<rparr>
          in (CO_SDO_RT_endedWithServerAbort, (CO_CANsend s)\<lparr>state := CO_SDO_ST_IDLE\<rparr>)
        else if state s = CO_SDO_ST_DOWNLOAD_BLK_SUBBLOCK_REQ then (CO_SDO_RT_blockDownldInProgress, s)
        else if state s = CO_SDO_ST_UPLOAD_BLK_SUBBLOCK_SREQ then (CO_SDO_RT_blockUploadInProgress, s)
        else (ret, s)
      else (ret, s))"

definition CO_SDOserver_process ::
    "sdo \<Rightarrow> bool \<Rightarrow> u32 \<Rightarrow> u32 option \<Rightarrow> (CO_SDO_return \<times> u32 option \<times> sdo) option" where
  "CO_SDOserver_process s NMTisPreOrOperational dt tn =
     (let isNew = CANrxNew s in
      if state s = CO_SDO_ST_IDLE \<and> valid s \<and> \<not> isNew then
        Some (CO_SDO_RT_ok_communicationEnd, tn, s)
      else if \<not> NMTisPreOrOperational \<or> \<not> valid s then
        Some (CO_SDO_RT_ok_communicationEnd, tn, s\<lparr>state := CO_SDO_ST_IDLE, CANrxNew := False\<rparr>)
      else do {
        (code, s) \<leftarrow> (if isNew then sdo_rx s else Some (CO_SDO_AB_NONE, s));
        let (code, tn, s) = sdo_timers code (if isNew then 0 else dt) tn s;
        if CANtx_bufferFull s then Some (CO_SDO_RT_transmittBufferFull, tn, s)
        else do {
          (ret, code, tn, s) \<leftarrow> sdo_tx code tn s;
          let (ret, s) = sdo_finish ret code s;
          Some (ret, tn, s)
        }
      })"

end
