(* ===== verification/SDO_Safety.thy ===== *)
theory SDO_Safety
  imports SDO_Process
begin

text \<open>
  Memory safety of the SDO server: an invariant on the offsets into its 901-byte buffer, its
  preservation by the receive function and by every branch of \<open>CO_SDOserver_process\<close>, and the
  reachable states of a server that receives arbitrary frames at arbitrary times.
\<close>

section \<open>The access functions of an application\<close>

text \<open>
  The documented duty of a read function (\<open>OD_IO_t.read\<close> in \<open>301/CO_ODinterface.h\<close>): it copies
  at most \<open>count\<close> bytes into the caller's buffer.
\<close>

definition read_bounded :: "OD_read_fn \<Rightarrow> bool" where
  "read_bounded rd \<longleftrightarrow> (\<forall>s n m. length (fst (snd (snd (rd s n m)))) \<le> unat n)"

definition od_bounded :: "OD_t \<Rightarrow> bool" where
  "od_bounded od \<longleftrightarrow>
     (\<forall>e \<in> set od. \<forall>x f. extension e = Some x \<longrightarrow> ext_read x = Some f \<longrightarrow> read_bounded f)"

lemma read_boundedD: "read_bounded rd \<Longrightarrow> rd s n m = (r, s', bs, m') \<Longrightarrow> length bs \<le> unat n"
  unfolding read_bounded_def by (metis fst_conv snd_conv)

lemma read_bounded_original: "read_bounded OD_readOriginal"
  by (auto simp: read_bounded_def OD_readOriginal_def Let_def word_le_nat_alt word_less_nat_alt not_less
      split: option.splits)

lemma read_bounded_disabled: "read_bounded OD_readDisabled"
  by (simp add: read_bounded_def OD_readDisabled_def)

lemma OD_getSub_bounded:
  assumes "od_bounded od" "read_bounded (io_read io)"
    and "OD_getSub (OD_find od i) sub io b = (r, io')"
  shows "read_bounded (io_read io')"
  using assms OD_find_Some [of od i]
  by (auto simp: OD_getSub_def od_bounded_def read_bounded_original read_bounded_disabled
      split: option.splits prod.splits if_splits)

section \<open>The invariant\<close>

text \<open>What holds in every state: sizes of the arrays, and the duty of the access functions.\<close>

definition sdo_base :: "sdo \<Rightarrow> bool" where
  "sdo_base s \<longleftrightarrow>
     length (buf s) = 901 \<and> length (CANrxData s) = 8 \<and> length (CANtx_data s) = 8 \<and> od_bounded (SDO_OD s) \<and>
     read_bounded (io_read (od_io s))"

text \<open>The data of an upload lies between the two offsets of the buffer.\<close>

definition upload_ok :: "sdo \<Rightarrow> bool" where
  "upload_ok s \<longleftrightarrow> bufOffsetRd s \<le> bufOffsetWr s \<and> bufOffsetWr s \<le> 900"

definition blksize_ok :: "sdo \<Rightarrow> bool" where
  "blksize_ok s \<longleftrightarrow> block_blksize s \<noteq> 0 \<and> block_blksize s \<le> 127"

definition state_ok :: "sdo \<Rightarrow> bool" where
  "state_ok s =
     (case state s of
        CO_SDO_ST_DOWNLOAD_SEGMENT_REQ \<Rightarrow> bufOffsetWr s \<le> 891
      | CO_SDO_ST_DOWNLOAD_SEGMENT_RSP \<Rightarrow> bufOffsetWr s \<le> 891
      | CO_SDO_ST_DOWNLOAD_BLK_SUBBLOCK_REQ \<Rightarrow>
          block_blksize s = 127 \<and> block_seqno s < 127 \<and>
          unat (bufOffsetWr s) \<le> 9 + 7 * unat (block_seqno s)
      | CO_SDO_ST_DOWNLOAD_BLK_SUBBLOCK_RSP \<Rightarrow> bufOffsetWr s \<le> 898
      | CO_SDO_ST_DOWNLOAD_BLK_END_REQ \<Rightarrow> bufOffsetWr s \<le> 898
      | CO_SDO_ST_UPLOAD_INITIATE_REQ \<Rightarrow> upload_ok s
      | CO_SDO_ST_UPLOAD_INITIATE_RSP \<Rightarrow> upload_ok s
      | CO_SDO_ST_UPLOAD_SEGMENT_REQ \<Rightarrow> upload_ok s
      | CO_SDO_ST_UPLOAD_SEGMENT_RSP \<Rightarrow> upload_ok s
      | CO_SDO_ST_UPLOAD_BLK_INITIATE_REQ \<Rightarrow> upload_ok s
      | CO_SDO_ST_UPLOAD_BLK_INITIATE_RSP \<Rightarrow> upload_ok s \<and> blksize_ok s
      | CO_SDO_ST_UPLOAD_BLK_INITIATE_REQ2 \<Rightarrow> upload_ok s \<and> blksize_ok s
      | CO_SDO_ST_UPLOAD_BLK_SUBBLOCK_SREQ \<Rightarrow>
          upload_ok s \<and> blksize_ok s \<and> block_seqno s < block_blksize s \<and>
          7 * unat (block_seqno s) \<le> unat (bufOffsetRd s) \<and>
          (block_seqno s \<noteq> 0 \<longrightarrow> block_noData s = 0)
      | CO_SDO_ST_UPLOAD_BLK_SUBBLOCK_CRSP \<Rightarrow>
          upload_ok s \<and> block_noData s \<le> 7 \<and>
          7 * unat (block_seqno s) \<le> unat (bufOffsetRd s) + unat (block_noData s)
      | _ \<Rightarrow> True)"

definition sdo_inv :: "sdo \<Rightarrow> bool" where
  "sdo_inv s \<longleftrightarrow> sdo_base s \<and> state_ok s"

text \<open>
  The contract of a helper or handler: it is defined, a failure leaves the server in the abort
  state, a success establishes \<open>Q\<close>.
\<close>

definition handler_ok :: "sdo_result \<Rightarrow> (sdo \<Rightarrow> bool) \<Rightarrow> bool" where
  "handler_ok r Q =
     wp r (\<lambda>(ok, code, s). sdo_base s \<and> (ok \<longrightarrow> Q s) \<and> (\<not> ok \<longrightarrow> state s = CO_SDO_ST_ABORT))"

lemma handler_ok_fail [simp]: "handler_ok (sdo_fail c s) Q = sdo_base (s\<lparr>state := CO_SDO_ST_ABORT\<rparr>)"
  by (simp add: handler_ok_def sdo_fail_def)

lemma handler_ok_ok [simp]: "handler_ok (sdo_ok s) Q = (sdo_base s \<and> Q s)"
  by (simp add: handler_ok_def sdo_ok_def)

lemma handler_ok_mono: "handler_ok r P \<Longrightarrow> (\<And>s. sdo_base s \<Longrightarrow> P s \<Longrightarrow> Q s) \<Longrightarrow> handler_ok r Q"
  unfolding handler_ok_def by (erule wp_mono) (auto split: if_splits)

lemma handler_ok_bind:
  assumes "handler_ok r P" and "\<And>s. sdo_base s \<Longrightarrow> P s \<Longrightarrow> handler_ok (g s) Q"
  shows "handler_ok (r \<bind> (\<lambda>(ok, code, s). if \<not> ok then Some (False, code, s) else g s)) Q"
  using assms(1) unfolding handler_ok_def wp_bind
  by (rule wp_mono) (use assms(2) in \<open>auto simp: handler_ok_def\<close>)

lemma handler_ok_if: "handler_ok (if c then r else r') Q = (if c then handler_ok r Q else handler_ok r' Q)"
  by simp

lemma sdo_base_upd [simp]:
  "sdo_base (s\<lparr>state := x0\<rparr>) = sdo_base s"
  "sdo_base (s\<lparr>bufOffsetWr := x1\<rparr>) = sdo_base s"
  "sdo_base (s\<lparr>bufOffsetRd := x2\<rparr>) = sdo_base s"
  "sdo_base (s\<lparr>sizeInd := x3\<rparr>) = sdo_base s"
  "sdo_base (s\<lparr>sizeTran := x4\<rparr>) = sdo_base s"
  "sdo_base (s\<lparr>finished := x5\<rparr>) = sdo_base s"
  "sdo_base (s\<lparr>toggle := x6\<rparr>) = sdo_base s"
  "sdo_base (s\<lparr>timeoutTimer := x7\<rparr>) = sdo_base s"
  "sdo_base (s\<lparr>block_timeoutTimer := x8\<rparr>) = sdo_base s"
  "sdo_base (s\<lparr>block_seqno := x9\<rparr>) = sdo_base s"
  "sdo_base (s\<lparr>block_blksize := x10\<rparr>) = sdo_base s"
  "sdo_base (s\<lparr>block_noData := x11\<rparr>) = sdo_base s"
  "sdo_base (s\<lparr>block_crcEnabled := x12\<rparr>) = sdo_base s"
  "sdo_base (s\<lparr>block_crc := x13\<rparr>) = sdo_base s"
  "sdo_base (s\<lparr>CANrxNew := x14\<rparr>) = sdo_base s"
  "length d = 8 \<Longrightarrow> sdo_base s \<Longrightarrow> sdo_base (s\<lparr>CANtx_data := d\<rparr>)"
  "sdo_base (s\<lparr>sent := x16\<rparr>) = sdo_base s"
  "sdo_base (s\<lparr>od_mem := x17\<rparr>) = sdo_base s"
  "sdo_base (s\<lparr>SDO_index := x18\<rparr>) = sdo_base s"
  "sdo_base (s\<lparr>SDO_subIndex := x19\<rparr>) = sdo_base s"
  "sdo_base (s\<lparr>valid := x20\<rparr>) = sdo_base s"
  by (simp_all add: sdo_base_def)

lemma sdo_base_tx: "sdo_base s \<Longrightarrow> length (CANtx_data s) = 8"
  by (simp add: sdo_base_def)

lemma sdo_base_set_dataLength [simp]: "sdo_base (set_dataLength n s) = sdo_base s"
  by (simp add: sdo_base_def set_dataLength_def)


section \<open>Helpers\<close>

lemma put_zero_ok:
  assumes "sdo_base s" "bufOffsetWr s \<le> 899"
  shows "wp (put_zero s) (\<lambda>s'. sdo_base s' \<and> state s' = state s \<and> od_io s' = od_io s \<and>
           finished s' = finished s \<and> unat (bufOffsetWr s') = unat (bufOffsetWr s) + 1)"
proof -
  have w: "unat (bufOffsetWr s) \<le> 899" using assms(2) by (simp add: word_le_nat_alt)
  then have "unat (bufOffsetWr s + 1) = unat (bufOffsetWr s) + 1"
    by (subst unat_plus_small) simp_all
  with w assms(1) show ?thesis
    by (auto simp: put_zero_def sdo_base_def intro!: wp_buf_write)
qed

lemma put_zero_okE:
  assumes "sdo_base s" "bufOffsetWr s \<le> 899"
  obtains s' where "put_zero s = Some s'" "sdo_base s'" "state s' = state s" "od_io s' = od_io s"
    "finished s' = finished s" "unat (bufOffsetWr s') = unat (bufOffsetWr s) + 1"
  using put_zero_ok [OF assms] by (auto simp: wp_ex)

lemma validate_size_ok:
  assumes b: "sdo_base s" and w: "bufOffsetWr s \<le> 898"
  shows "handler_ok (validate_size s) (\<lambda>s'. state s' = state s \<and> bufOffsetWr s' \<le> 900)"
proof -
  obtain s1 where s1: "put_zero s = Some s1" "sdo_base s1" "state s1 = state s"
      "unat (bufOffsetWr s1) = unat (bufOffsetWr s) + 1"
    using put_zero_okE [OF b] w by (auto simp: word_le_nat_alt)
  obtain s2 where s2: "put_zero s1 = Some s2" "sdo_base s2" "state s2 = state s1"
      "unat (bufOffsetWr s2) = unat (bufOffsetWr s1) + 1"
    using put_zero_okE [OF s1(2)] s1(4) w by (auto simp: word_le_nat_alt)
  show ?thesis
    using b w s1 s2
    by (auto simp: validate_size_def Let_def word_le_nat_alt sdo_base_def set_dataLength_def)
qed

lemma validate_crc_ok:
  assumes "sdo_base s" "orig \<le> 898" "bufOffsetWr s \<le> 900"
  shows "handler_ok (validate_crc orig op crc s) (\<lambda>s'. state s' = state s \<and> bufOffsetWr s' \<le> 900)"
proof (cases "block_crcEnabled s \<and> op > 0")
  case True
  have "unat orig \<le> length (buf s)"
    using assms by (simp add: word_le_nat_alt sdo_base_def)
  then have "buf_read (buf s) 0 (unat orig) = Some (take (unat orig) (buf s))"
    by (simp add: buf_read_def)
  with True assms show ?thesis
    by (auto simp: validate_crc_def Let_def handler_ok_if sdo_base_def)
qed (use assms in \<open>auto simp: validate_crc_def\<close>)

lemma write_to_od_ok:
  assumes b: "sdo_base s" and w: "bufOffsetWr s \<le> 900"
  shows "handler_ok (write_to_od s) (\<lambda>s'. state s' = state s \<and> bufOffsetWr s' = 0)"
proof -
  have "buf_read (buf s) 0 (unat (bufOffsetWr s)) = Some (take (unat (bufOffsetWr s)) (buf s))"
    using b w by (simp add: buf_read_def sdo_base_def word_le_nat_alt)
  then show ?thesis using b
    by (auto simp: write_to_od_def Let_def handler_ok_if sdo_base_def split: prod.splits)
qed

lemma validateAndWriteToOD_ok:
  assumes b: "sdo_base s" and w: "bufOffsetWr s \<le> 898"
  shows "handler_ok (validateAndWriteToOD s op crc) (\<lambda>s'. state s' = state s \<and> bufOffsetWr s' = 0)"
  unfolding validateAndWriteToOD_def
  using validate_size_ok [OF b w]
proof (rule handler_ok_bind)
  fix s1 assume s1: "sdo_base s1" "state s1 = state s \<and> bufOffsetWr s1 \<le> 900"
  show "handler_ok (validate_crc (bufOffsetWr s) op crc s1 \<bind>
      (\<lambda>(ok, code, s2). if \<not> ok then Some (False, code, s2) else write_to_od s2))
    (\<lambda>s'. state s' = state s \<and> bufOffsetWr s' = 0)"
    using validate_crc_ok [OF s1(1) w conjunct2 [OF s1(2)]]
    by (rule handler_ok_bind) (use s1 in \<open>auto intro: handler_ok_mono [OF write_to_od_ok]\<close>)
qed

text \<open>The read that refills the buffer: at most what is free, with room for a terminator.\<close>

lemma readFromOd_string_ok:
  assumes b: "sdo_base s" and c: "unat countRemain + unat countRd \<le> 900"
  shows "wp (readFromOd_string countRemain odRet countRd s) (\<lambda>(odRet', countRd', s').
           sdo_base s' \<and> state s' = state s \<and> block_blksize s' = block_blksize s \<and>
           bufOffsetRd s' = bufOffsetRd s \<and> countRd' \<le> countRd)"
proof -
  have sum: "unat (countRd + countRemain) = unat countRd + unat countRemain"
    using c by (intro unat_plus_small) simp
  show ?thesis
  proof (cases "countRd > 0 \<and> is_str s")
    case True
    have "unat (countRd + countRemain) + length [0::u8] \<le> length (buf s)"
      using b c sum by (simp add: sdo_base_def)
    with True b show ?thesis
      by (auto simp: readFromOd_string_def Let_def sdo_base_def set_dataLength_def
          intro!: wp_buf_write)
  next
    case False
    with b show ?thesis by (auto simp: readFromOd_string_def)
  qed
qed

lemma readFromOd_finish_ok:
  assumes b: "sdo_base s" and c: "unat countRemain + unat countRd \<le> 900" and r: "bufOffsetRd s = 0"
  shows "handler_ok (readFromOd_finish countRemain countMinimum crc odRet countRd s)
    (\<lambda>s'. state s' = state s \<and> upload_ok s' \<and> block_blksize s' = block_blksize s)"
proof -
  have sum: "unat (countRemain + countRd) = unat countRemain + unat countRd"
    using c by (intro unat_plus_small) simp
  have "\<exists>d. buf_read (buf s) (unat countRemain) (unat countRd) = Some d"
    using c b by (simp add: buf_read_def sdo_base_def)
  then show ?thesis using b c r sum
    by (auto simp: readFromOd_finish_def Let_def sdo_base_def upload_ok_def word_le_nat_alt)
qed

text \<open>The buffer after the remaining data was moved to its start and new data was appended.\<close>

lemma readFromOd_refill:
  assumes b: "sdo_base s" and u: "upload_ok s" and m: "countMinimum \<le> 900"
    and c: "\<not> finished s" "bufOffsetWr s - bufOffsetRd s < countMinimum"
    and rd: "io_read (od_io s) (od_stream s) (900 - (bufOffsetWr s - bufOffsetRd s)) (od_mem s) =
      (r, st, bs, m')"
  defines "R \<equiv> bufOffsetWr s - bufOffsetRd s"
  defines "s2 \<equiv> s\<lparr>bufOffsetRd := 0, bufOffsetWr := R,
      buf := take (unat R) (drop (unat (bufOffsetRd s)) (buf s)) @ bs @ drop (unat R + length bs) (buf s),
      od_io := (od_io s)\<lparr>stream := st\<rparr>, od_mem := m'\<rparr>"
  shows "unat R < 900" and "length bs \<le> 900 - unat R" and "sdo_base s2"
    and "readFromOd s countMinimum crc =
      (if r \<noteq> ODR_OK \<and> r \<noteq> ODR_PARTIAL then sdo_fail (OD_getSDOabCode r) s2
       else readFromOd_string R r (word_of_nat (length bs)) s2 \<bind>
         (\<lambda>(odRet, countRd, s). readFromOd_finish R countMinimum crc odRet countRd s))"
proof -
  have len: "length (buf s) = 901" using b by (simp add: sdo_base_def)
  have R: "unat (bufOffsetRd s) + unat R \<le> 900"
    using u by (simp add: R_def upload_ok_def word_le_nat_alt unat_minus_ge)
  show R900: "unat R < 900" using c(2) m by (simp add: R_def word_le_nat_alt word_less_nat_alt)
  have free: "unat (900 - R) = 900 - unat R"
    using R900 by (subst unat_minus_ge) simp_all
  show lbs: "length bs \<le> 900 - unat R"
    using read_boundedD [of "io_read (od_io s)", OF _ rd] b free by (simp add: sdo_base_def R_def)
  show "sdo_base s2" using b len R R900 lbs by (simp add: s2_def sdo_base_def)
  have w: "buf_write (take (unat R) (drop (unat (bufOffsetRd s)) (buf s)) @ drop (unat R) (buf s)) (unat R) bs =
    Some (take (unat R) (drop (unat (bufOffsetRd s)) (buf s)) @ bs @ drop (unat R + length bs) (buf s))"
    using R R900 lbs len by (simp add: buf_write_def min_absorb2 add.commute)
  show "readFromOd s countMinimum crc =
      (if r \<noteq> ODR_OK \<and> r \<noteq> ODR_PARTIAL then sdo_fail (OD_getSDOabCode r) s2
       else readFromOd_string R r (word_of_nat (length bs)) s2 \<bind>
         (\<lambda>(odRet, countRd, s). readFromOd_finish R countMinimum crc odRet countRd s))"
    using c R R900 len rd w unfolding readFromOd_def R_def [symmetric] s2_def
    by (simp add: Let_def buf_read_def buf_write_def [of _ 0] CO_CONFIG_SDO_SRV_BUFFER_SIZE_def min_absorb2)
qed

lemma readFromOd_enough:
  "finished s \<or> countMinimum \<le> bufOffsetWr s - bufOffsetRd s \<Longrightarrow> readFromOd s countMinimum crc = sdo_ok s"
  by (auto simp: readFromOd_def Let_def)

lemma readFromOd_ok:
  assumes b: "sdo_base s" and u: "upload_ok s" and m: "countMinimum \<le> 900"
  shows "handler_ok (readFromOd s countMinimum crc)
    (\<lambda>s'. state s' = state s \<and> upload_ok s' \<and> block_blksize s' = block_blksize s)"
proof (cases "finished s \<or> countMinimum \<le> bufOffsetWr s - bufOffsetRd s")
  case True
  with b u show ?thesis by (simp add: readFromOd_enough)
next
  case False
  then have c: "\<not> finished s" "bufOffsetWr s - bufOffsetRd s < countMinimum" by auto
  obtain r st bs m' where rd: "io_read (od_io s) (od_stream s) (900 - (bufOffsetWr s - bufOffsetRd s)) (od_mem s)
      = (r, st, bs, m')" by (metis prod_cases4)
  define R where "R = bufOffsetWr s - bufOffsetRd s"
  define s2 where "s2 = s\<lparr>bufOffsetRd := 0, bufOffsetWr := R,
      buf := take (unat R) (drop (unat (bufOffsetRd s)) (buf s)) @ bs @ drop (unat R + length bs) (buf s),
      od_io := (od_io s)\<lparr>stream := st\<rparr>, od_mem := m'\<rparr>"
  note refill = readFromOd_refill [OF b u m c rd, folded R_def, folded s2_def]
  have cnt: "unat (word_of_nat (length bs) :: u32) = length bs"
    using refill(2) by (simp add: unat_of_nat)
  have "wp (readFromOd_string R r (word_of_nat (length bs)) s2) (\<lambda>(odRet', countRd', s').
         sdo_base s' \<and> state s' = state s2 \<and> block_blksize s' = block_blksize s2 \<and>
         bufOffsetRd s' = bufOffsetRd s2 \<and> countRd' \<le> word_of_nat (length bs))"
    by (rule readFromOd_string_ok) (use refill(1-3) cnt in auto)
  then obtain r3 n3 s3 where s3: "readFromOd_string R r (word_of_nat (length bs)) s2 = Some (r3, n3, s3)"
      "sdo_base s3" "state s3 = state s" "block_blksize s3 = block_blksize s" "bufOffsetRd s3 = 0"
      "unat n3 \<le> length bs"
    by (auto simp: wp_ex word_le_nat_alt cnt s2_def)
  have "handler_ok (readFromOd_finish R countMinimum crc r3 n3 s3)
    (\<lambda>s'. state s' = state s3 \<and> upload_ok s' \<and> block_blksize s' = block_blksize s3)"
    by (rule readFromOd_finish_ok) (use s3 refill(1,2) in auto)
  then show ?thesis using refill(3) s3 by (simp add: refill(4) [of crc] sdo_base_def)
qed

section \<open>Receive handlers\<close>

lemma check_access_ok: "sdo_base s \<Longrightarrow> handler_ok (check_access up s) (\<lambda>s'. s' = s)"
  by (simp add: check_access_def Let_def sdo_base_def)

lemma search_od_ok:
  assumes "sdo_base s"
  shows "handler_ok (search_od up s) (\<lambda>s'. state s' = state s)"
proof -
  define i where "i = (push_bit 8 (ucast (CANrxData s ! 2)) OR ucast (CANrxData s ! 1) :: u16)"
  obtain r io where g: "OD_getSub (OD_find (SDO_OD s) i) (CANrxData s ! 3) (od_io s) False = (r, io)"
    by fastforce
  have "read_bounded (io_read io)"
    using OD_getSub_bounded [OF _ _ g] assms by (simp add: sdo_base_def)
  then have "sdo_base (s\<lparr>SDO_index := i, SDO_subIndex := CANrxData s ! 3, od_io := io\<rparr>)" (is "sdo_base ?s")
    using assms by (simp add: sdo_base_def)
  moreover from this have "handler_ok (check_access up ?s) (\<lambda>s'. state s' = state s)"
    by (rule handler_ok_mono [OF check_access_ok]) simp
  ultimately show ?thesis
    using g by (auto simp: search_od_def Let_def i_def sdo_base_def)
qed

lemma load_upload_ok:
  assumes "sdo_base s"
  shows "handler_ok (load_upload s) (\<lambda>s'. state s' = state s \<and> upload_ok s')"
proof -
  let ?s = "s\<lparr>bufOffsetRd := 0, bufOffsetWr := 0, sizeTran := 0, finished := False\<rparr>"
  have "handler_ok (readFromOd ?s 7 False)
    (\<lambda>s'. state s' = state ?s \<and> upload_ok s' \<and> block_blksize s' = block_blksize ?s)"
    by (rule readFromOd_ok) (use assms in \<open>simp_all add: sdo_base_def upload_ok_def\<close>)
  then show ?thesis
    unfolding load_upload_def Let_def
    by (rule handler_ok_bind) (auto simp: Let_def sdo_base_def upload_ok_def)
qed

lemma request_state_cases:
  assumes "request_state cmd = Some (st, up)"
  obtains "st = CO_SDO_ST_DOWNLOAD_INITIATE_REQ" "\<not> up" | "st = CO_SDO_ST_UPLOAD_INITIATE_REQ" up
  | "st = CO_SDO_ST_DOWNLOAD_BLK_INITIATE_REQ" "\<not> up" | "st = CO_SDO_ST_UPLOAD_BLK_INITIATE_REQ" up
  using assms by (auto simp: request_state_def split: if_splits)

lemma rx_idle_ok:
  assumes "sdo_base s"
  shows "handler_ok (rx_idle s) (\<lambda>s'. state_ok s' \<and> state s' \<noteq> CO_SDO_ST_IDLE)"
proof (cases "request_state (CANrxData s ! 0)")
  case None
  with assms show ?thesis by (simp add: rx_idle_def sdo_base_def)
next
  case (Some p)
  obtain st up where p: "p = (st, up)" by fastforce
  have b: "sdo_base (s\<lparr>state := st\<rparr>)" using assms by (simp add: sdo_base_def)
  note cs = request_state_cases [OF Some [unfolded p]]
  obtain ok code s1 where s1: "search_od up (s\<lparr>state := st\<rparr>) = Some (ok, code, s1)" "sdo_base s1"
      "ok \<Longrightarrow> state s1 = st" "\<not> ok \<Longrightarrow> state s1 = CO_SDO_ST_ABORT"
    using search_od_ok [OF b, of up] by (auto simp: handler_ok_def wp_ex)
  have "handler_ok (load_upload s1) (\<lambda>s'. state_ok s' \<and> state s' \<noteq> CO_SDO_ST_IDLE)" if "ok" "up"
    by (rule handler_ok_mono [OF load_upload_ok [OF s1(2)]])
      (rule cs, use that s1(3) in \<open>simp_all add: state_ok_def\<close>)
  moreover have "state_ok s1 \<and> state s1 \<noteq> CO_SDO_ST_IDLE" if "\<not> up" "ok"
    by (rule cs) (use that s1(3) in \<open>simp_all add: state_ok_def\<close>)
  ultimately show ?thesis
    using Some p s1 by (auto simp: rx_idle_def handler_ok_def)
qed

lemma write_expedited_ok:
  "sdo_base s \<Longrightarrow> unat n \<le> length tmp \<Longrightarrow> handler_ok (write_expedited tmp n s) state_ok"
  by (auto simp: write_expedited_def buf_read_def Let_def sdo_base_def state_ok_def split: prod.splits)

lemma rx_download_expedited_ok:
  assumes "sdo_base s"
  shows "handler_ok (rx_download_expedited s) state_ok"
proof -
  define size where "size = (if CANrxData s ! 0 AND 0x01 \<noteq> 0 then 4 - (drop_bit 2 (ucast (CANrxData s ! 0)) AND 0x03)
      else if dataLength (od_stream s) > 0 \<and> dataLength (od_stream s) < 4 then dataLength (od_stream s)
      else 4 :: u32)"
  have "drop_bit 2 (ucast (CANrxData s ! 0)) AND 0x03 \<le> (3 :: u32)"
    by (rule word_and_le1)
  then have "unat size \<le> 4"
    by (auto simp: size_def word_less_nat_alt word_le_nat_alt unat_minus_ge)
  then have sz: "unat size + 2 \<le> 6" "unat (size + 1) = unat size + 1" "unat (size + 2) = unat size + 2"
    by (simp_all add: unat_plus_small)
  define tmp where "tmp = take (unat size) (drop 4 (CANrxData s)) @ replicate (6 - unat size) 0"
  have "length tmp = 6" using assms sz by (simp add: tmp_def sdo_base_def)
  then have w: "handler_ok (write_expedited tmp n s') state_ok" if "sdo_base s'" "unat n \<le> 6" for n s'
    using that by (simp add: write_expedited_ok)
  show ?thesis
    unfolding rx_download_expedited_def Let_def size_def [symmetric] tmp_def [symmetric]
      handler_ok_if handler_ok_fail
    using assms sz by (auto intro!: w)
qed

lemma check_size_indicated_ok:
  "sdo_base s \<Longrightarrow> handler_ok (check_size_indicated b s) (\<lambda>s'. True)"
  by (auto simp: check_size_indicated_def Let_def sdo_base_def)

lemma rx_DOWNLOAD_INITIATE_REQ_ok:
  assumes "sdo_base s"
  shows "handler_ok (rx_DOWNLOAD_INITIATE_REQ s) state_ok"
proof -
  have "handler_ok (do {
        (ok, code, s) \<leftarrow> check_size_indicated b s;
        if \<not> ok then Some (False, code, s)
        else sdo_ok (s\<lparr>state := CO_SDO_ST_DOWNLOAD_INITIATE_RSP, finished := False\<rparr>)
      }) state_ok" for b
    by (rule handler_ok_bind [OF check_size_indicated_ok [OF assms]])
      (simp add: sdo_base_def state_ok_def)
  with rx_download_expedited_ok [OF assms] show ?thesis
    by (simp add: rx_DOWNLOAD_INITIATE_REQ_def)
qed

lemma rx_DOWNLOAD_BLK_INITIATE_REQ_ok:
  assumes "sdo_base s"
  shows "handler_ok (rx_DOWNLOAD_BLK_INITIATE_REQ s) state_ok"
  unfolding rx_DOWNLOAD_BLK_INITIATE_REQ_def Let_def
  by (rule handler_ok_bind [OF check_size_indicated_ok])
    (use assms in \<open>simp_all add: sdo_base_def state_ok_def\<close>)

lemma word_mask_7_le: "unat (w AND 7 :: 'a::len word) \<le> 7" if "3 \<le> LENGTH('a)"
proof -
  have "w AND 7 \<le> 7" by (rule word_and_le1)
  moreover have "unat (7 :: 'a word) \<le> 7"
    using unat_numeral [of "num.Bit1 (num.Bit1 num.One)", where ?'a = 'a] by simp
  ultimately show ?thesis by (meson le_trans word_le_nat_alt)
qed

lemma download_flush_ok:
  assumes "sdo_base s" "bufOffsetWr s \<le> 898"
  shows "handler_ok (download_flush s) (\<lambda>s'. bufOffsetWr s' \<le> 891)"
proof -
  have "bufOffsetWr s \<le> 891" if "\<not> CO_CONFIG_SDO_SRV_BUFFER_SIZE - bufOffsetWr s < 9"
    using that assms(2)
    by (simp add: CO_CONFIG_SDO_SRV_BUFFER_SIZE_def word_less_nat_alt word_le_nat_alt unat_minus_ge)
  then show ?thesis using assms(1)
    by (auto simp: download_flush_def intro: handler_ok_mono [OF validateAndWriteToOD_ok [OF assms]])
qed

lemma rx_DOWNLOAD_SEGMENT_REQ_ok:
  assumes b: "sdo_base s" and w: "bufOffsetWr s \<le> 891"
  shows "handler_ok (rx_DOWNLOAD_SEGMENT_REQ s) state_ok"
proof -
  define count where "count = (7 - (drop_bit 1 (ucast (CANrxData s ! 0)) AND 0x07) :: u32)"
  have c7: "unat count \<le> 7"
    using word_mask_7_le [of "drop_bit 1 (ucast (CANrxData s ! 0)) :: u32"]
    by (simp add: count_def unat_minus_ge)
  have w': "unat (bufOffsetWr s + count) = unat (bufOffsetWr s) + unat count"
    using w c7 by (intro unat_plus_small) (simp add: word_le_nat_alt)
  have w898: "bufOffsetWr s + count \<le> 898"
    using w w' c7 by (simp add: word_le_nat_alt)
  obtain b1 where b1: "buf_write (buf s) (unat (bufOffsetWr s)) (take (unat count) (drop 1 (CANrxData s))) = Some b1"
      "length b1 = 901"
    using b w c7 by (auto simp: buf_write_def sdo_base_def word_le_nat_alt)
  define s1 where "s1 = s\<lparr>finished := (CANrxData s ! 0 AND 0x01 \<noteq> 0), buf := b1,
    bufOffsetWr := bufOffsetWr s + count, sizeTran := sizeTran s + count\<rparr>"
  have s1: "sdo_base s1" "bufOffsetWr s1 \<le> 898"
    using b b1(2) w898 by (simp_all add: s1_def sdo_base_def)
  have "handler_ok (do {
            (ok, code, s) \<leftarrow> download_flush s1;
            if \<not> ok then Some (False, code, s)
            else sdo_ok (s\<lparr>state := CO_SDO_ST_DOWNLOAD_SEGMENT_RSP\<rparr>) }) state_ok"
    by (rule handler_ok_bind [OF download_flush_ok [OF s1]]) (simp add: state_ok_def)
  then show ?thesis
    unfolding rx_DOWNLOAD_SEGMENT_REQ_def Let_def count_def [symmetric]
    using b s1(1) b1(1) by (simp add: handler_ok_if s1_def sdo_base_def)
qed

lemma rx_UPLOAD_SEGMENT_REQ_ok:
  "sdo_base s \<Longrightarrow> upload_ok s \<Longrightarrow> handler_ok (rx_UPLOAD_SEGMENT_REQ s) state_ok"
  by (simp add: rx_UPLOAD_SEGMENT_REQ_def Let_def state_ok_def upload_ok_def)

lemma rx_DOWNLOAD_BLK_END_REQ_ok:
  assumes b: "sdo_base s" and w: "bufOffsetWr s \<le> 898"
  shows "handler_ok (rx_DOWNLOAD_BLK_END_REQ s) state_ok"
proof -
  define noData where "noData = drop_bit 2 (CANrxData s ! 0) AND 0x07"
  define s1 where "s1 = s\<lparr>sizeTran := sizeTran s - ucast noData, bufOffsetWr := bufOffsetWr s - ucast noData\<rparr>"
  have fin: "handler_ok (do {
          (ok, code, s) \<leftarrow> validateAndWriteToOD s1 2 crc;
          if \<not> ok then Some (False, code, s)
          else sdo_ok (s\<lparr>state := CO_SDO_ST_DOWNLOAD_BLK_END_RSP\<rparr>) }) state_ok"
    if "\<not> bufOffsetWr s \<le> ucast noData" for crc
  proof (rule handler_ok_bind [OF validateAndWriteToOD_ok])
    show "sdo_base s1" using b by (simp add: s1_def sdo_base_def)
    show "bufOffsetWr s1 \<le> 898"
      using that w by (simp add: s1_def word_le_nat_alt unat_minus_ge)
  qed (simp add: state_ok_def)
  show ?thesis
    using b fin unfolding rx_DOWNLOAD_BLK_END_REQ_def Let_def noData_def [symmetric] s1_def
    by (simp add: handler_ok_if)
qed

lemma rx_UPLOAD_BLK_INITIATE_REQ_ok:
  assumes b: "sdo_base s" and u: "upload_ok s"
  shows "handler_ok (rx_UPLOAD_BLK_INITIATE_REQ s) state_ok"
proof -
  have rd: "buf_read (buf s) 0 (unat (bufOffsetWr s)) = Some (take (unat (bufOffsetWr s)) (buf s))"
    using b u by (simp add: buf_read_def sdo_base_def upload_ok_def word_le_nat_alt)
  have bs: "blksize_ok (s\<lparr>block_blksize := k\<rparr>)" if "\<not> (k < 1 \<or> k > 127)" for k
    using that by (simp add: blksize_ok_def not_less)
  show ?thesis
    using b u rd bs unfolding rx_UPLOAD_BLK_INITIATE_REQ_def Let_def
    by (auto simp: state_ok_def sdo_base_def upload_ok_def blksize_ok_def)
qed

lemma rx_UPLOAD_BLK_INITIATE_REQ2_ok:
  "sdo_base s \<Longrightarrow> upload_ok s \<Longrightarrow> blksize_ok s \<Longrightarrow> handler_ok (rx_UPLOAD_BLK_INITIATE_REQ2 s) state_ok"
  by (auto simp: rx_UPLOAD_BLK_INITIATE_REQ2_def state_ok_def sdo_base_def upload_ok_def blksize_ok_def
      word_gt_0)

text \<open>
  The client acknowledges fewer segments than were sent: the read offset goes back over segments
  that are still in the buffer.
\<close>

definition upload_sent_ok :: "sdo \<Rightarrow> bool" where
  "upload_sent_ok s \<longleftrightarrow> upload_ok s \<and> (block_seqno s \<noteq> 0 \<longrightarrow> block_noData s \<le> 7 \<and>
     7 * unat (block_seqno s) \<le> unat (bufOffsetRd s) + unat (block_noData s))"

lemma cntFailed_ok:
  fixes s :: sdo and a :: u8
  assumes u: "upload_sent_ok s" and a: "a < block_seqno s"
  defines "cntFailed \<equiv> (ucast (block_seqno s) - ucast a) * 7 - ucast (block_noData s) :: u32"
  shows "unat cntFailed = (unat (block_seqno s) - unat a) * 7 - unat (block_noData s)"
    and "unat cntFailed \<le> unat (bufOffsetRd s)"
proof -
  have n7: "unat (block_noData s) \<le> 7" and lt: "unat a < unat (block_seqno s)"
    using u a by (auto simp add: upload_sent_ok_def word_le_nat_alt word_less_nat_alt)
  have d: "unat (ucast (block_seqno s) - ucast a :: u32) = unat (block_seqno s) - unat a"
    using lt by (subst unat_minus_ge) (simp_all add: unat_ucast_8_32)
  have m: "unat ((ucast (block_seqno s) - ucast a) * 7 :: u32) = (unat (block_seqno s) - unat a) * 7"
    using d unat_u8_less [of "block_seqno s"] unat_mult_small [of "ucast (block_seqno s) - ucast a :: u32" 7]
    by simp
  show c: "unat cntFailed = (unat (block_seqno s) - unat a) * 7 - unat (block_noData s)"
    unfolding cntFailed_def using m n7 lt
    by (subst unat_minus_ge) (simp_all add: unat_ucast_8_32)
  show "unat cntFailed \<le> unat (bufOffsetRd s)"
    using u lt unfolding c upload_sent_ok_def by (auto simp: diff_mult_distrib)
qed

lemma upload_back_ok:
  "upload_sent_ok s \<Longrightarrow> upload_ok (upload_back a s)"
  using cntFailed_ok(2) [of s a]
  by (auto simp: upload_back_def Let_def upload_sent_ok_def upload_ok_def word_le_nat_alt unat_minus_ge)

lemma upload_back_simps [simp]:
  "sdo_base (upload_back a s) = sdo_base s" "block_blksize (upload_back a s) = block_blksize s"
  by (simp_all add: upload_back_def Let_def sdo_base_def)

lemma rx_UPLOAD_BLK_SUBBLOCK_ok:
  assumes b: "sdo_base s" and u: "upload_sent_ok s"
  shows "handler_ok (rx_UPLOAD_BLK_SUBBLOCK s) state_ok"
proof (cases "CANrxData s ! 0 = 0xA2 \<and> \<not> (CANrxData s ! 2 < 1 \<or> CANrxData s ! 2 > 127) \<and>
    \<not> CANrxData s ! 1 > block_seqno s")
  case False
  with b show ?thesis by (auto simp: rx_UPLOAD_BLK_SUBBLOCK_def Let_def sdo_base_def)
next
  case True
  define s1 where "s1 = upload_back (CANrxData s ! 1) (s\<lparr>block_blksize := CANrxData s ! 2\<rparr>)"
  have "upload_sent_ok (s\<lparr>block_blksize := CANrxData s ! 2\<rparr>)"
    using u by (simp add: upload_sent_ok_def upload_ok_def)
  then have s1: "sdo_base s1" "upload_ok s1" "block_blksize s1 = CANrxData s ! 2"
    using b upload_back_ok [where s = "s\<lparr>block_blksize := CANrxData s ! 2\<rparr>" and a = "CANrxData s ! 1"]
    by (simp_all add: s1_def)
  have "unat (ucast (block_blksize s1) * 7 :: u32) \<le> 889"
    using True s1(3) by (subst unat_mult_small) (simp_all add: unat_ucast_8_32 not_less word_le_nat_alt)
  then have "ucast (block_blksize s1) * 7 \<le> (900 :: u32)" by (simp add: word_le_nat_alt)
  note rd = readFromOd_ok [OF s1(1,2) this, of True]
  have "handler_ok (do {
          (ok, code, s) \<leftarrow> readFromOd s1 (ucast (block_blksize s1) * 7) True;
          if \<not> ok then Some (False, code, s)
          else if bufOffsetWr s = bufOffsetRd s then sdo_ok (s\<lparr>state := CO_SDO_ST_UPLOAD_BLK_END_SREQ\<rparr>)
          else sdo_ok (s\<lparr>block_seqno := 0, state := CO_SDO_ST_UPLOAD_BLK_SUBBLOCK_SREQ\<rparr>) }) state_ok"
    by (rule handler_ok_bind [OF rd])
      (use True s1(3) in \<open>auto simp: state_ok_def sdo_base_def upload_ok_def blksize_ok_def not_less word_gt_0\<close>)
  with True show ?thesis
    by (simp add: rx_UPLOAD_BLK_SUBBLOCK_def s1_def Let_def)
qed

lemma rx_state_ok:
  assumes "sdo_inv s"
  shows "handler_ok (rx_state s) state_ok"
proof -
  have b: "sdo_base s" and st: "state_ok s" using assms by (simp_all add: sdo_inv_def)
  have u: "upload_sent_ok s" if "state s = CO_SDO_ST_UPLOAD_BLK_SUBBLOCK_SREQ \<or> state s = CO_SDO_ST_UPLOAD_BLK_SUBBLOCK_CRSP"
    using st that by (cases "block_seqno s = 0") (auto simp: state_ok_def upload_sent_ok_def)
  show ?thesis
    using b st u
    by (cases "state s")
      (auto simp: rx_state_def rx_DOWNLOAD_INITIATE_REQ_ok rx_DOWNLOAD_SEGMENT_REQ_ok
        rx_UPLOAD_SEGMENT_REQ_ok rx_DOWNLOAD_BLK_INITIATE_REQ_ok rx_DOWNLOAD_BLK_END_REQ_ok
        rx_UPLOAD_BLK_INITIATE_REQ_ok rx_UPLOAD_BLK_INITIATE_REQ2_ok rx_UPLOAD_BLK_SUBBLOCK_ok
        state_ok_def upload_ok_def)
qed

lemma state_ok_upd [simp]:
  "state_ok (s\<lparr>timeoutTimer := t\<rparr>) = state_ok s"
  "state_ok (s\<lparr>block_timeoutTimer := t\<rparr>) = state_ok s"
  "state_ok (s\<lparr>CANrxNew := b\<rparr>) = state_ok s"
  "state_ok (s\<lparr>CANrxData := d\<rparr>) = state_ok s"
  "state_ok (s\<lparr>CANtx_data := d\<rparr>) = state_ok s"
  "state_ok (s\<lparr>sent := x\<rparr>) = state_ok s"
  by (simp_all add: state_ok_def upload_ok_def blksize_ok_def cong: CO_SDO_state.case_cong)

lemma state_ok_abort [simp]: "state s = CO_SDO_ST_ABORT \<Longrightarrow> state_ok s"
  by (simp add: state_ok_def)

lemma state_ok_idle [simp]: "state s = CO_SDO_ST_IDLE \<Longrightarrow> state_ok s"
  by (simp add: state_ok_def)

lemma sdo_rx_ok:
  assumes "sdo_inv s"
  shows "wp (sdo_rx s) (\<lambda>(code, s'). sdo_inv s')"
proof -
  have b: "sdo_base s" and st: "state_ok s" using assms by (simp_all add: sdo_inv_def)
  have "handler_ok (if state s = CO_SDO_ST_IDLE then rx_idle s else sdo_ok s) state_ok"
    using handler_ok_mono [OF rx_idle_ok [OF b]] b st by auto
  then obtain ok code s1 where s1:
      "(if state s = CO_SDO_ST_IDLE then rx_idle s else sdo_ok s) = Some (ok, code, s1)" "sdo_inv s1"
    by (auto simp: handler_ok_def wp_ex sdo_inv_def)
  obtain ok' code' s2 where s2: "rx_state s1 = Some (ok', code', s2)" "sdo_inv s2"
    using rx_state_ok [OF s1(2)] by (auto simp: handler_ok_def wp_ex sdo_inv_def)
  show ?thesis
    using s1 s2 by (simp add: sdo_rx_def sdo_inv_def)
qed

section \<open>Timers and transmit handlers\<close>

lemma subblock_end_ok:
  "state_ok s \<Longrightarrow> state s = CO_SDO_ST_DOWNLOAD_BLK_SUBBLOCK_REQ \<Longrightarrow>
   state_ok (s\<lparr>state := CO_SDO_ST_DOWNLOAD_BLK_SUBBLOCK_RSP\<rparr>)"
  by (simp add: state_ok_def word_le_nat_alt word_less_nat_alt)

lemma state_ok_subblock_rsp:
  "state s = CO_SDO_ST_DOWNLOAD_BLK_SUBBLOCK_RSP \<Longrightarrow> state_ok s = (bufOffsetWr s \<le> 898)"
  by (simp add: state_ok_def)

lemma sdo_timers_ok: "sdo_inv s \<Longrightarrow> sdo_timers code dt tn s = (code', tn', s') \<Longrightarrow> sdo_inv s'"
  by (auto simp: sdo_timers_def Let_def sdo_inv_def subblock_end_ok split: if_splits)

text \<open>A transmit handler is defined and keeps the invariant.\<close>

definition tx_ok :: "tx_result \<Rightarrow> bool" where
  "tx_ok r = wp r (\<lambda>(ret, code, s). sdo_inv s)"

lemma length_foldl_upd: "length (foldl (\<lambda>d (k, v). d[k := v]) d ps) = length d"
  by (induction ps arbitrary: d) auto

lemma length_tx_put [simp]: "length (CANtx_data (tx_put ps s)) = length (CANtx_data s)"
  by (simp add: tx_put_def length_foldl_upd)

lemma length_tx_header [simp]: "length (CANtx_data (tx_header c s)) = length (CANtx_data s)"
  by (simp add: tx_header_def)

lemma tx_header_simps [simp]:
  "sdo_base (tx_header c s) = sdo_base s" "sdo_base (tx_put ps s) = sdo_base s"
  "sdo_base (CO_CANsend s) = sdo_base s"
  "state_ok (tx_header c s) = state_ok s" "state_ok (tx_put ps s) = state_ok s"
  "state_ok (CO_CANsend s) = state_ok s"
  by (simp_all add: tx_header_def tx_put_def CO_CANsend_def sdo_base_def length_foldl_upd)

lemmas tx_defs = tx_header_def tx_put_def CO_CANsend_def

lemma tx_simple_ok:
  assumes "sdo_inv s"
  shows "tx_ok (tx_DOWNLOAD_INITIATE_RSP code s)" "tx_ok (tx_DOWNLOAD_BLK_END_RSP code s)"
    "tx_ok (tx_UPLOAD_BLK_END_SREQ code s)" "tx_ok (tx_DOWNLOAD_BLK_INITIATE_RSP code s)"
    "state s = CO_SDO_ST_DOWNLOAD_SEGMENT_RSP \<Longrightarrow> tx_ok (tx_DOWNLOAD_SEGMENT_RSP code s)"
  using assms
  by (auto simp: tx_ok_def tx_DOWNLOAD_INITIATE_RSP_def tx_DOWNLOAD_BLK_END_RSP_def Let_def
      tx_UPLOAD_BLK_END_SREQ_def tx_DOWNLOAD_BLK_INITIATE_RSP_def tx_DOWNLOAD_SEGMENT_RSP_def
      sdo_inv_def state_ok_def tx_defs sdo_base_tx blksize_of_space_def CO_CONFIG_SDO_SRV_BUFFER_SIZE_def)

lemma upload_ok_upd [simp]:
  "upload_ok (s\<lparr>state := x0\<rparr>) = upload_ok s"
  "upload_ok (s\<lparr>sizeInd := x1\<rparr>) = upload_ok s"
  "upload_ok (s\<lparr>sizeTran := x2\<rparr>) = upload_ok s"
  "upload_ok (s\<lparr>finished := x3\<rparr>) = upload_ok s"
  "upload_ok (s\<lparr>toggle := x4\<rparr>) = upload_ok s"
  "upload_ok (s\<lparr>timeoutTimer := x5\<rparr>) = upload_ok s"
  "upload_ok (s\<lparr>block_timeoutTimer := x6\<rparr>) = upload_ok s"
  "upload_ok (s\<lparr>block_seqno := x7\<rparr>) = upload_ok s"
  "upload_ok (s\<lparr>block_blksize := x8\<rparr>) = upload_ok s"
  "upload_ok (s\<lparr>block_noData := x9\<rparr>) = upload_ok s"
  "upload_ok (s\<lparr>block_crcEnabled := x10\<rparr>) = upload_ok s"
  "upload_ok (s\<lparr>block_crc := x11\<rparr>) = upload_ok s"
  "upload_ok (s\<lparr>CANrxNew := x12\<rparr>) = upload_ok s"
  "upload_ok (s\<lparr>CANtx_data := x13\<rparr>) = upload_ok s"
  "upload_ok (s\<lparr>sent := x14\<rparr>) = upload_ok s"
  "upload_ok (tx_put ps s) = upload_ok s" "upload_ok (tx_header c s) = upload_ok s"
  "upload_ok (CO_CANsend s) = upload_ok s"
  by (simp_all add: upload_ok_def tx_defs)

lemma state_ok_set [simp]:
  "state_ok (s\<lparr>state := CO_SDO_ST_UPLOAD_SEGMENT_REQ\<rparr>) = upload_ok s"
  "state_ok (s\<lparr>state := CO_SDO_ST_DOWNLOAD_BLK_END_REQ\<rparr>) = (bufOffsetWr s \<le> 898)"
  "state_ok (s\<lparr>state := CO_SDO_ST_UPLOAD_BLK_END_SREQ\<rparr>)"
  "state_ok (s\<lparr>state := CO_SDO_ST_UPLOAD_BLK_INITIATE_REQ2\<rparr>) = (upload_ok s \<and> blksize_ok s)"
  by (simp_all add: state_ok_def upload_ok_def blksize_ok_def)

lemma tx_copy_ok:
  "sdo_base s \<Longrightarrow> off + length d \<le> 8 \<Longrightarrow>
   \<exists>t. tx_copy off d s = Some (s\<lparr>CANtx_data := t\<rparr>) \<and> length t = 8"
  by (auto simp: tx_copy_def buf_write_def sdo_base_def)

lemma tx_put_simps [simp]:
  "buf (tx_put ps s) = buf s" "sizeInd (tx_put ps s) = sizeInd s" "bufOffsetWr (tx_put ps s) = bufOffsetWr s"
  "bufOffsetRd (tx_put ps s) = bufOffsetRd s" "state (tx_put ps s) = state s"
  "finished (tx_put ps s) = finished s" "block_seqno (tx_put ps s) = block_seqno s"
  "block_blksize (tx_put ps s) = block_blksize s" "sizeTran (tx_put ps s) = sizeTran s"
  "buf (tx_header c s) = buf s" "sizeInd (tx_header c s) = sizeInd s"
  by (simp_all add: tx_put_def tx_header_def)

lemma tx_UPLOAD_INITIATE_RSP_ok:
  assumes "sdo_inv s" "state s = CO_SDO_ST_UPLOAD_INITIATE_RSP"
  shows "tx_ok (tx_UPLOAD_INITIATE_RSP code s)"
proof -
  have b: "sdo_base s" and u: "upload_ok s" using assms by (simp_all add: sdo_inv_def state_ok_def)
  show ?thesis
  proof (cases "sizeInd s > 0 \<and> sizeInd s \<le> 4")
    case True
    let ?d = "take (unat (sizeInd s)) (buf s)" and ?s = "tx_put [(0, ucast (0x43 OR push_bit 2 (4 - sizeInd s)))] s"
    have n: "unat (sizeInd s) \<le> 4" using True by (simp add: word_le_nat_alt)
    then have "buf_read (buf s) 0 (unat (sizeInd s)) = Some ?d"
      using b by (simp add: buf_read_def sdo_base_def)
    moreover obtain t where "tx_copy 4 ?d ?s = Some (?s\<lparr>CANtx_data := t\<rparr>)" "length t = 8"
      using tx_copy_ok [of ?s 4 ?d] n b by (auto simp: min.coboundedI2)
    ultimately show ?thesis using True b
      by (simp add: tx_UPLOAD_INITIATE_RSP_def tx_ok_def sdo_inv_def Let_def)
  next
    case False
    obtain t where "tx_copy 4 (le_bytes 4 (sizeInd s)) (tx_put [(0, 0x41)] s) =
        Some ((tx_put [(0, 0x41)] s)\<lparr>CANtx_data := t\<rparr>)" "length t = 8"
      using tx_copy_ok [of "tx_put [(0, 0x41)] s" 4 "le_bytes 4 (sizeInd s)"] b by auto
    with False b u show ?thesis
      by (auto simp: tx_UPLOAD_INITIATE_RSP_def tx_ok_def sdo_inv_def Let_def)
  qed
qed

lemma tx_UPLOAD_BLK_INITIATE_RSP_ok:
  assumes "sdo_inv s" "state s = CO_SDO_ST_UPLOAD_BLK_INITIATE_RSP"
  shows "tx_ok (tx_UPLOAD_BLK_INITIATE_RSP code s)"
proof -
  have b: "sdo_base s" and u: "upload_ok s" "blksize_ok s"
    using assms by (simp_all add: sdo_inv_def state_ok_def)
  let ?s = "tx_put [(0, CANtx_data (tx_header 0xC4 s) ! 0 OR 0x02)] (tx_header 0xC4 s)"
  obtain t where "tx_copy 4 (le_bytes 4 (sizeInd s)) ?s = Some (?s\<lparr>CANtx_data := t\<rparr>)" "length t = 8"
    using tx_copy_ok [of ?s 4 "le_bytes 4 (sizeInd s)"] b by auto
  with b u show ?thesis
    by (auto simp: tx_UPLOAD_BLK_INITIATE_RSP_def tx_ok_def sdo_inv_def Let_def blksize_ok_def tx_defs sdo_base_tx)
qed

text \<open>The number of bytes of the next segment, and the bytes themselves.\<close>

lemma segment_read:
  assumes b: "sdo_base s" and u: "upload_ok s"
  defines "count \<equiv> bufOffsetWr s - bufOffsetRd s"
  defines "n \<equiv> (if count < 7 \<or> finished s \<and> count = 7 then count else 7)"
  shows "unat n \<le> 7" and "unat (bufOffsetRd s) + unat n \<le> unat (bufOffsetWr s)"
    and "unat (bufOffsetRd s + n) = unat (bufOffsetRd s) + unat n"
    and "buf_read (buf s) (unat (bufOffsetRd s)) (unat n) =
         Some (take (unat n) (drop (unat (bufOffsetRd s)) (buf s)))"
    and "unat n = 7 \<or> bufOffsetRd s + n = bufOffsetWr s"
proof -
  have c: "unat count = unat (bufOffsetWr s) - unat (bufOffsetRd s)"
      "unat (bufOffsetRd s) \<le> unat (bufOffsetWr s)" "unat (bufOffsetWr s) \<le> 900"
    using u by (simp_all add: count_def upload_ok_def word_le_nat_alt unat_minus_ge)
  show 1: "unat n \<le> 7" by (auto simp: n_def word_less_nat_alt)
  show 2: "unat (bufOffsetRd s) + unat n \<le> unat (bufOffsetWr s)"
    using c by (auto simp: n_def word_less_nat_alt)
  show "unat (bufOffsetRd s + n) = unat (bufOffsetRd s) + unat n"
    using 2 c by (intro unat_plus_small) simp
  show "buf_read (buf s) (unat (bufOffsetRd s)) (unat n) =
      Some (take (unat n) (drop (unat (bufOffsetRd s)) (buf s)))"
    using 2 c b by (simp add: buf_read_def sdo_base_def)
  show "unat n = 7 \<or> bufOffsetRd s + n = bufOffsetWr s"
    by (auto simp: n_def count_def)
qed

lemma upload_ok_advance:
  "upload_ok s \<Longrightarrow> unat (bufOffsetRd s + n) \<le> unat (bufOffsetWr s) \<Longrightarrow>
   upload_ok (s\<lparr>bufOffsetRd := bufOffsetRd s + n\<rparr>)"
  by (simp add: upload_ok_def word_le_nat_alt)

lemma state_ok_segment_req: "state s = CO_SDO_ST_UPLOAD_SEGMENT_REQ \<Longrightarrow> state_ok s = upload_ok s"
  by (simp add: state_ok_def)

lemma tx_UPLOAD_SEGMENT_RSP_ok:
  assumes "sdo_inv s" "state s = CO_SDO_ST_UPLOAD_SEGMENT_RSP"
  shows "tx_ok (tx_UPLOAD_SEGMENT_RSP code s)"
proof -
  have "handler_ok (readFromOd s 7 False)
      (\<lambda>s'. state s' = state s \<and> upload_ok s' \<and> block_blksize s' = block_blksize s)"
    by (rule readFromOd_ok) (use assms in \<open>simp_all add: sdo_inv_def state_ok_def\<close>)
  then obtain ok code' s1 where s1: "readFromOd s 7 False = Some (ok, code', s1)" "sdo_base s1"
      "ok \<Longrightarrow> upload_ok s1" "\<not> ok \<Longrightarrow> state s1 = CO_SDO_ST_ABORT"
    by (auto simp: handler_ok_def wp_ex)
  show ?thesis
  proof (cases ok)
    case False
    with s1 show ?thesis by (simp add: tx_UPLOAD_SEGMENT_RSP_def tx_ok_def sdo_inv_def)
  next
    case True
    define count where "count = bufOffsetWr s1 - bufOffsetRd s1"
    define last where "last = (count < 7 \<or> finished s1 \<and> count = 7)"
    define n where "n = (if last then count else 7)"
    note seg = segment_read [OF s1(2) s1(3) [OF True], folded count_def, folded last_def, folded n_def]
    define d where "d = take (unat n) (drop (unat (bufOffsetRd s1)) (buf s1))"
    have "length d \<le> 7" using seg(1) by (simp add: d_def min.coboundedI2)
    then have cp: "\<exists>t. tx_copy (Suc 0) d s' = Some (s'\<lparr>CANtx_data := t\<rparr>) \<and> length t = 8"
      if "sdo_base s'" for s' using tx_copy_ok [OF that, of "Suc 0" d] by simp
    have up: "upload_ok (s1\<lparr>bufOffsetRd := bufOffsetRd s1 + n\<rparr>)"
      using upload_ok_advance [OF s1(3) [OF True]] seg(2,3) by simp
    let ?s = "(tx_put [(0, toggle s1)] s1)\<lparr>toggle := toggled (toggle s1)\<rparr>"
    show ?thesis
    proof (cases last)
      case last: True
      let ?t = "(tx_put [(0, CANtx_data ?s ! 0 OR ucast (push_bit 1 (7 - count) OR 0x01))] ?s)\<lparr>state := CO_SDO_ST_IDLE\<rparr>"
      obtain t where "tx_copy (Suc 0) d ?t = Some (?t\<lparr>CANtx_data := t\<rparr>)" "length t = 8"
        using cp [of ?t] s1(2) by auto
      with True last s1(1,2) seg(4) show ?thesis
        by (simp add: tx_UPLOAD_SEGMENT_RSP_def tx_ok_def sdo_inv_def Let_def n_def d_def
            count_def [symmetric] last_def [symmetric])
    next
      case last: False
      let ?t = "?s\<lparr>timeoutTimer := 0, state := CO_SDO_ST_UPLOAD_SEGMENT_REQ\<rparr>"
      obtain t where "tx_copy (Suc 0) d ?t = Some (?t\<lparr>CANtx_data := t\<rparr>)" "length t = 8"
        using cp [of ?t] s1(2) by auto
      with True last s1(1,2) seg(4) up show ?thesis
        by (simp add: tx_UPLOAD_SEGMENT_RSP_def tx_ok_def sdo_inv_def Let_def n_def d_def
            count_def [symmetric] last_def [symmetric] state_ok_segment_req upload_ok_def)
    qed
  qed
qed

text \<open>The block size is always the maximum: a buffer that is not empty enough is flushed first.\<close>

lemma tx_DOWNLOAD_BLK_SUBBLOCK_RSP_ok:
  assumes "sdo_inv s" "state s = CO_SDO_ST_DOWNLOAD_BLK_SUBBLOCK_RSP"
  shows "tx_ok (tx_DOWNLOAD_BLK_SUBBLOCK_RSP code s)"
proof -
  define s0 where "s0 = tx_put [(0, 0xA2), (1, block_seqno s)] s"
  have b: "sdo_base s0" and w: "bufOffsetWr s0 \<le> 898"
    using assms by (simp_all add: s0_def sdo_inv_def state_ok_def)
  define count where "count = (CO_CONFIG_SDO_SRV_BUFFER_SIZE - 2 - bufOffsetWr s0) div 7"
  have cnt: "unat count = (898 - unat (bufOffsetWr s0)) div 7"
    using w by (simp add: count_def CO_CONFIG_SDO_SRV_BUFFER_SIZE_def unat_div_distrib unat_minus_ge word_le_nat_alt)
  have small: "unat (bufOffsetWr s0) \<le> 9" if "count \<ge> 127"
    using that cnt by (simp add: word_le_nat_alt)
  obtain ok code' s1 where s1: "validateAndWriteToOD s0 1 0 = Some (ok, code', s1)" "sdo_base s1"
      "ok \<Longrightarrow> bufOffsetWr s1 = 0" "\<not> ok \<Longrightarrow> state s1 = CO_SDO_ST_ABORT"
    using validateAndWriteToOD_ok [OF b w, of 1 0] by (auto simp: handler_ok_def wp_ex)
  have empty: "\<not> (\<not> count \<ge> 127 \<and> \<not> bufOffsetWr s0 > 0)"
    using cnt by (auto simp: word_le_nat_alt word_gt_0)
  have simps: "state_ok (tx_put [(2, k)] (s'\<lparr>block_blksize := 127, block_seqno := 0,
      state := CO_SDO_ST_DOWNLOAD_BLK_SUBBLOCK_REQ, CANrxNew := False\<rparr>))"
    if "unat (bufOffsetWr s') \<le> 9" for k s'
    using that by (simp add: state_ok_def)
  show ?thesis
    using b w small s1 empty simps
    unfolding tx_DOWNLOAD_BLK_SUBBLOCK_RSP_def Let_def s0_def [symmetric] count_def [symmetric]
    by (auto simp: tx_ok_def sdo_inv_def CO_CONFIG_SDO_SRV_BUFFER_SIZE_def)
qed

lemma tx_UPLOAD_BLK_SUBBLOCK_SREQ_ok:
  assumes "sdo_inv s" "state s = CO_SDO_ST_UPLOAD_BLK_SUBBLOCK_SREQ"
  shows "wp (tx_UPLOAD_BLK_SUBBLOCK_SREQ code tn s) (\<lambda>(ret, code, tn, s). sdo_inv s)"
proof -
  have b: "sdo_base s" and u: "upload_ok s" "blksize_ok s" "block_seqno s < block_blksize s"
      "7 * unat (block_seqno s) \<le> unat (bufOffsetRd s)"
    using assms by (simp_all add: sdo_inv_def state_ok_def)
  define q where "q = block_seqno s + 1"
  have q: "unat q = unat (block_seqno s) + 1"
    unfolding q_def using u(2,3) by (subst unat_plus_small) (simp_all add: blksize_ok_def word_less_nat_alt word_le_nat_alt)
  define count where "count = bufOffsetWr s - bufOffsetRd s"
  define last where "last = (count < 7 \<or> finished s \<and> count = 7)"
  define n where "n = (if last then count else 7)"
  note seg = segment_read [OF b u(1), folded count_def, folded last_def, folded n_def]
  define d where "d = take (unat n) (drop (unat (bufOffsetRd s)) (buf s))"
  let ?t = "tx_put [(0, q OR (if last then 0x80 else 0))] (s\<lparr>block_seqno := q\<rparr>)"
  have "length d \<le> 7" using seg(1) by (simp add: d_def min.coboundedI2)
  then obtain t where t: "tx_copy (Suc 0) d ?t = Some (?t\<lparr>CANtx_data := t\<rparr>)" "length t = 8"
    using tx_copy_ok [of ?t "Suc 0" d] b by auto
  define s1 where "s1 = ?t\<lparr>CANtx_data := t, bufOffsetRd := bufOffsetRd s + n, block_noData := ucast (7 - n),
    sizeTran := sizeTran s + n\<rparr>"
  have nd: "unat (ucast (7 - n) :: u8) = 7 - unat n"
    using seg(1) by (simp add: unat_ucast_32_8 unat_minus_ge)
  have s1: "sdo_base s1" "upload_ok s1"
    using b t(2) upload_ok_advance [OF u(1), of n] seg(2,3) by (simp_all add: s1_def upload_ok_def)
  have crsp: "state_ok (s1\<lparr>state := CO_SDO_ST_UPLOAD_BLK_SUBBLOCK_CRSP\<rparr>)"
    using s1(2) nd u(4) seg(1,3) q by (simp add: state_ok_def s1_def word_le_nat_alt)
  have sreq: "state_ok s1" if "bufOffsetWr s \<noteq> bufOffsetRd s + n" "\<not> q \<ge> block_blksize s"
    using that s1(2) u seg q nd assms(2) by (auto simp: state_ok_def s1_def blksize_ok_def unat_eq_zero)
  have fin: "wp (upload_blk_send code tn s1) (\<lambda>(ret, code, tn, s). sdo_inv s)"
    using s1(1) crsp sreq by (auto simp: upload_blk_send_def Let_def sdo_inv_def s1_def)
  show ?thesis
    using t(1) seg(4) fin
    by (simp add: tx_UPLOAD_BLK_SUBBLOCK_SREQ_def Let_def q_def [symmetric] count_def [symmetric]
        last_def [symmetric] n_def [symmetric] d_def [symmetric] s1_def split del: if_split cong: if_cong)
qed

section \<open>The whole process function and the receive function\<close>

lemma sdo_tx_ok:
  assumes "sdo_inv s"
  shows "wp (sdo_tx code tn s) (\<lambda>(ret, code, tn, s). sdo_inv s)"
proof -
  define s0 where "s0 = s\<lparr>CANtx_data := replicate 8 0\<rparr>"
  have s0: "sdo_inv s0" using assms by (simp add: s0_def sdo_inv_def)
  have keep: "wp (map_option (\<lambda>(ret, code, s). (ret, code, tn, s)) r) (\<lambda>(ret, code, tn, s). sdo_inv s)"
    if "tx_ok r" for r
    using that by (simp add: tx_ok_def case_prod_beta')
  note handlers = tx_simple_ok tx_UPLOAD_INITIATE_RSP_ok tx_UPLOAD_SEGMENT_RSP_ok
    tx_DOWNLOAD_BLK_SUBBLOCK_RSP_ok tx_UPLOAD_BLK_INITIATE_RSP_ok
  have wait: "tx_ok (tx_wait code s0)" using s0 by (simp add: tx_ok_def)
  show ?thesis
    unfolding sdo_tx_def Let_def s0_def [symmetric]
    by (cases "state s0"; simp only: CO_SDO_state.case)
      (rule keep | rule handlers wait tx_UPLOAD_BLK_SUBBLOCK_SREQ_ok | rule s0 | assumption)+
qed

lemma sdo_finish_ok: "sdo_inv s \<Longrightarrow> sdo_inv (snd (sdo_finish ret code s))"
  by (auto simp: sdo_finish_def Let_def sdo_inv_def sdo_base_tx)

lemma CO_SDOserver_process_ok:
  assumes "sdo_inv s"
  shows "wp (CO_SDOserver_process s nmt dt tn) (\<lambda>(ret, tn, s'). sdo_inv s')"
proof -
  have idle: "sdo_inv (s\<lparr>state := CO_SDO_ST_IDLE, CANrxNew := False\<rparr>)"
    using assms by (simp add: sdo_inv_def)
  have "wp (if CANrxNew s then sdo_rx s else Some (0, s)) (\<lambda>(code, s'). sdo_inv s')"
    using assms sdo_rx_ok [OF assms] by simp
  then obtain c1 s1 where s1: "(if CANrxNew s then sdo_rx s else Some (0, s)) = Some (c1, s1)" "sdo_inv s1"
    by (auto simp: wp_ex)
  obtain c2 tn2 s2 where s2: "sdo_timers c1 (if CANrxNew s then 0 else dt) tn s1 = (c2, tn2, s2)"
    by (metis prod_cases3)
  have i2: "sdo_inv s2" by (rule sdo_timers_ok [OF s1(2) s2])
  obtain ret c3 tn3 s3 where s3: "sdo_tx c2 tn2 s2 = Some (ret, c3, tn3, s3)" "sdo_inv s3"
    using sdo_tx_ok [OF i2, of c2 tn2] by (auto simp: wp_ex)
  have "sdo_inv (snd (sdo_finish ret c3 s3))" by (rule sdo_finish_ok [OF s3(2)])
  then show ?thesis
    using assms idle s1 s2 i2 s3
    by (simp add: CO_SDOserver_process_def Let_def case_prod_beta')
qed

lemma receive_subblock_ok:
  assumes "sdo_inv s" "state s = CO_SDO_ST_DOWNLOAD_BLK_SUBBLOCK_REQ"
  shows "wp (receive_subblock s data) sdo_inv"
proof -
  have b: "sdo_base s" and st: "block_blksize s = 127" "block_seqno s < 127"
      "unat (bufOffsetWr s) \<le> 9 + 7 * unat (block_seqno s)"
    using assms by (simp_all add: sdo_inv_def state_ok_def)
  have w: "unat (bufOffsetWr s) \<le> 891" using st by (simp add: word_less_nat_alt)
  then have w7: "unat (bufOffsetWr s + 7) = unat (bufOffsetWr s) + 7"
    by (subst unat_plus_small) simp_all
  have "wp (buf_write (buf s) (unat (bufOffsetWr s)) (take 7 (drop (Suc 0) data))) (\<lambda>b'. length b' = 901)"
    by (rule wp_buf_write) (use b w in \<open>auto simp: sdo_base_def\<close>)
  then obtain b1 where b1: "buf_write (buf s) (unat (bufOffsetWr s)) (take 7 (drop (Suc 0) data)) = Some b1"
      "length b1 = 901"
    by (auto simp: wp_ex)
  let ?q = "data ! 0 AND 0x7F"
  define s1 where "s1 = s\<lparr>timeoutTimer := 0, block_timeoutTimer := 0, block_seqno := ?q, buf := b1,
    bufOffsetWr := bufOffsetWr s + 7, sizeTran := sizeTran s + 7\<rparr>"
  have b': "sdo_base s1" using b b1(2) by (simp add: s1_def sdo_base_def)
  have rsp: "bufOffsetWr s \<le> 898" "bufOffsetWr s + 7 \<le> 898"
    using w w7 by (simp_all add: word_le_nat_alt)
  have req: "state_ok s1" if "?q \<le> 127" "unat ?q = unat (block_seqno s) + 1" "?q \<noteq> 127"
    using that st w7 assms(2) by (auto simp: state_ok_def s1_def)
  show ?thesis
    using assms b st(1) b1(1) b' rsp req
    unfolding receive_subblock_def Let_def
    by (auto simp: sdo_inv_def s1_def state_ok_subblock_rsp)
qed

lemma CO_SDO_receive_ok:
  assumes "sdo_inv s"
  shows "wp (CO_SDO_receive s data) sdo_inv"
  using assms receive_subblock_ok [OF assms, of data]
  by (auto simp: CO_SDO_receive_def sdo_inv_def sdo_base_def)

section \<open>Reachable states\<close>

text \<open>
  A server object as the allocation leaves it: arrays of their declared sizes, the object
  dictionary handle zeroed.
\<close>

definition sdo_allocated :: "sdo \<Rightarrow> bool" where
  "sdo_allocated s \<longleftrightarrow>
     length (buf s) = 901 \<and> length (CANrxData s) = 8 \<and> length (CANtx_data s) = 8 \<and> od_io s = OD_IO_null"

text \<open>
  What may happen to a server: a frame arrives, the process function runs, the driver's transmit
  buffer fills up or empties, the application changes the memory of its variables.
\<close>

inductive sdo_step :: "sdo \<Rightarrow> sdo \<Rightarrow> bool" where
  step_receive: "CO_SDO_receive s data = Some s' \<Longrightarrow> sdo_step s s'"
| step_process: "CO_SDOserver_process s nmt dt tn = Some (ret, tn', s') \<Longrightarrow> sdo_step s s'"
| step_driver: "sdo_step s (s\<lparr>CANtx_bufferFull := full\<rparr>)"
| step_application: "sdo_step s (s\<lparr>od_mem := m\<rparr>)"

inductive_cases sdo_stepE: "sdo_step s s'"

inductive sdo_reach :: "OD_t \<Rightarrow> sdo \<Rightarrow> bool" for od where
  reach_init: "sdo_allocated s \<Longrightarrow> CO_SDOserver_init rxRet txOk s od par node timeout = (ret, info, s') \<Longrightarrow>
    sdo_reach od s'"
| reach_step: "sdo_reach od s \<Longrightarrow> sdo_step s s' \<Longrightarrow> sdo_reach od s'"

definition idle_result :: "CO_ReturnError \<times> u32 option \<times> sdo \<Rightarrow> bool" where
  "idle_result r \<longleftrightarrow> sdo_base (snd (snd r)) \<and> state (snd (snd r)) = CO_SDO_ST_IDLE"

lemma init_canRxTx_frame:
  "sdo_base (snd (CO_SDOserver_init_canRxTx rxRet txOk s c2s s2c)) = sdo_base s"
  "state (snd (CO_SDOserver_init_canRxTx rxRet txOk s c2s s2c)) = state s"
  by (cases "canRxTx_idents c2s s2c";
      simp add: CO_SDOserver_init_canRxTx_def Let_def sdo_base_def)+

lemma init_config_idle:
  "sdo_base (snd (snd (init_config rxRet txOk s c2s s2c))) = sdo_base s"
  "state (snd (snd (init_config rxRet txOk s c2s s2c))) = state s"
  by (simp_all add: init_config_def Let_def case_prod_beta init_canRxTx_frame) (simp add: sdo_base_def)

lemma CO_SDOserver_init_inv:
  assumes "sdo_allocated s" "od_bounded od"
    and "CO_SDOserver_init rxRet txOk s od par node timeout = (ret, info, s')"
  shows "sdo_inv s'"
proof -
  have base: "sdo_base (s\<lparr>SDO_OD := od, nodeId := n, SDOtimeoutTime_us := t, block_SDOtimeoutTime_us := t'\<rparr>)"
    "sdo_base (s\<lparr>SDO_OD := od, nodeId := n, SDOtimeoutTime_us := t, block_SDOtimeoutTime_us := t',
       state := st, od_mem := m, OD_1200_extended := e\<rparr>)" for n t t' st m e
    using assms(1,2) by (simp_all add: sdo_allocated_def sdo_base_def OD_IO_null_def read_bounded_disabled)
  have "idle_result (CO_SDOserver_init rxRet txOk s od par node timeout)"
    unfolding CO_SDOserver_init_def Let_def idle_result_def
    by (cases par) (simp_all add: case_prod_beta' init_config_idle base)
  with assms(3) show ?thesis by (simp add: idle_result_def sdo_inv_def)
qed

lemma sdo_step_inv: "sdo_step s s' \<Longrightarrow> sdo_inv s \<Longrightarrow> sdo_inv s'"
proof (induction rule: sdo_step.induct)
  case (step_receive s data s')
  then show ?case using CO_SDO_receive_ok [of s data] by simp
next
  case (step_process s nmt dt tn ret tn' s')
  then show ?case using CO_SDOserver_process_ok [of s nmt dt tn] by simp
qed (simp_all add: sdo_inv_def sdo_base_def state_ok_def upload_ok_def blksize_ok_def cong: CO_SDO_state.case_cong)

lemma sdo_reach_inv: "sdo_reach od s \<Longrightarrow> od_bounded od \<Longrightarrow> sdo_inv s"
  by (induction rule: sdo_reach.induct) (auto intro: CO_SDOserver_init_inv sdo_step_inv)

text \<open>
  C1: Memory safety of the SDO server. In every state that the server reaches after its
  initialisation, whatever frames arrive and however receive and process calls interleave, the
  receive function and the process function access their buffers only within their bounds, for
  every frame, network state and elapsed time, provided the application's read functions keep
  their documented duty not to write more than the requested number of bytes.
\<close>

theorem sdo_memory_safe:
  assumes "od_bounded od" "sdo_reach od s"
  shows "(\<exists>s'. CO_SDO_receive s data = Some s') \<and> (\<exists>r. CO_SDOserver_process s nmt dt tn = Some r)"
  using CO_SDO_receive_ok [of s data] CO_SDOserver_process_ok [of s nmt dt tn] sdo_reach_inv [OF assms(2,1)]
  by (auto simp: wp_ex)

text \<open>An allocated server and a dictionary with a variable of four and one of twenty bytes.\<close>

definition example_od :: OD_t where
  "example_od =
     [\<lparr>entry_index = 0x2000, subEntriesCount = 1,
       odObject = Some (ODT_VAR \<lparr>var_dataOrig = Some 100, var_attribute = 3, var_dataLength = 4\<rparr>), extension = None\<rparr>,
      \<lparr>entry_index = 0x2001, subEntriesCount = 1,
       odObject = Some (ODT_VAR \<lparr>var_dataOrig = Some 200, var_attribute = 3, var_dataLength = 20\<rparr>), extension = None\<rparr>]"

definition example_object :: sdo where
  "example_object =
     \<lparr>SDO_OD = [], nodeId = 0, valid = False, state = CO_SDO_ST_IDLE, od_io = OD_IO_null, SDO_index = 0,
      SDO_subIndex = 0, CANrxNew = False, CANrxData = replicate 8 0, COB_IDClientToServer = 0,
      COB_IDServerToClient = 0, sizeInd = 0, sizeTran = 0, toggle = 0, finished = False,
      SDOtimeoutTime_us = 0, timeoutTimer = 0, buf = replicate 901 0, bufOffsetWr = 0, bufOffsetRd = 0,
      block_SDOtimeoutTime_us = 0, block_timeoutTimer = 0, block_seqno = 0, block_blksize = 0,
      block_noData = 0, block_crcEnabled = False, block_crc = 0, OD_1200_extended = False, CANrx_ident = 0,
      CANtx_ident = 0, CANtx_data = replicate 8 0, CANtx_bufferFull = False, od_mem = (\<lambda>a. word_of_nat a),
      sent = []\<rparr>"

definition example_server :: sdo where
  "example_server = snd (snd (CO_SDOserver_init CO_ERROR_NO True example_object example_od None 16 1000))"

lemma example_server_reach: "sdo_reach example_od example_server"
proof -
  have "sdo_allocated example_object" by (simp add: sdo_allocated_def example_object_def)
  then show ?thesis unfolding example_server_def by (rule reach_init) (simp add: prod_eq_iff)
qed

lemma example_od_bounded: "od_bounded example_od"
  by (simp add: od_bounded_def example_od_def)

theorem sdo_memory_safe_witness:
  "(\<exists>s'. CO_SDO_receive example_server [0x23, 0, 0x20, 0, 1, 2, 3, 4] = Some s') \<and>
   (\<exists>r. CO_SDOserver_process example_server True 1000 None = Some r)"
  by (rule sdo_memory_safe [OF example_od_bounded example_server_reach])

text \<open>
  C14: No segment of a block download is lost to a full buffer. In every reachable state in which
  the server receives a sub-block, a segment with the expected sequence number is stored at the
  end of the received data, and the block size announced to the client is always 127.
\<close>

theorem subblock_segment_stored:
  assumes "od_bounded od" "sdo_reach od s" "state s = CO_SDO_ST_DOWNLOAD_BLK_SUBBLOCK_REQ"
    and "\<not> CANrxNew s" "length data = 8" "data ! 0 \<noteq> 0x80"
    and "unat (data ! 0 AND 0x7F) = unat (block_seqno s) + 1"
  shows "block_blksize s = 127 \<and> (\<exists>s'. CO_SDO_receive s data = Some s' \<and>
    block_seqno s' = data ! 0 AND 0x7F \<and> unat (bufOffsetWr s') = unat (bufOffsetWr s) + 7 \<and>
    take (unat (bufOffsetWr s')) (buf s') = take (unat (bufOffsetWr s)) (buf s) @ drop 1 data)"
proof -
  have inv: "sdo_inv s" by (rule sdo_reach_inv [OF assms(2,1)])
  then have b: "length (buf s) = 901" and st: "block_blksize s = 127" "block_seqno s < 127"
      "unat (bufOffsetWr s) \<le> 9 + 7 * unat (block_seqno s)"
    using assms(3) by (simp_all add: sdo_inv_def state_ok_def sdo_base_def)
  have w: "unat (bufOffsetWr s) \<le> 891" using st by (simp add: word_less_nat_alt)
  then have w7: "unat (bufOffsetWr s + 7) = unat (bufOffsetWr s) + 7"
    by (subst unat_plus_small) simp_all
  have guard: "bufOffsetWr s \<le> CO_CONFIG_SDO_SRV_BUFFER_SIZE - (7 + 2)"
    using w by (simp add: CO_CONFIG_SDO_SRV_BUFFER_SIZE_def word_le_nat_alt)
  have q: "data ! 0 AND 0x7F \<le> 127" by (rule word_and_le1)
  have d7: "take 7 (drop (Suc 0) data) = drop (Suc 0) data" using assms(5) by simp
  obtain b1 where b1: "buf_write (buf s) (unat (bufOffsetWr s)) (drop (Suc 0) data) = Some b1"
    using b w assms(5) by (simp add: buf_write_def)
  have "take (unat (bufOffsetWr s) + 7) b1 = take (unat (bufOffsetWr s)) (buf s) @ drop (Suc 0) data"
    using buf_write_prefix [OF b1] assms(5) by simp
  then show ?thesis
    using assms(3-7) st(1) guard q b1 w7 d7
    by (simp add: CO_SDO_receive_def receive_subblock_def Let_def)
qed

text \<open>One exchange: a frame is received, then the process function runs with no time elapsed.\<close>

definition sdo_exchange :: "sdo \<Rightarrow> u8 list \<Rightarrow> (CO_SDO_return \<times> sdo) option" where
  "sdo_exchange s frame = do {
     s \<leftarrow> CO_SDO_receive s frame;
     (ret, tn, s) \<leftarrow> CO_SDOserver_process s True 0 None;
     Some (ret, s)
   }"

lemma sdo_exchange_reach: "sdo_reach od s \<Longrightarrow> sdo_exchange s frame = Some (ret, s') \<Longrightarrow> sdo_reach od s'"
  unfolding sdo_exchange_def
  by (auto simp: bind_eq_Some_conv intro: reach_step step_receive step_process)

text \<open>The example server after a request for a block download of twenty bytes.\<close>

theorem subblock_segment_stored_witness:
  "\<exists>ret s s'. sdo_exchange example_server [0xC2, 1, 0x20, 0, 20, 0, 0, 0] = Some (ret, s) \<and>
     block_blksize s = 127 \<and> CO_SDO_receive s [1, 11, 12, 13, 14, 15, 16, 17] = Some s' \<and>
     take 7 (buf s') = [11, 12, 13, 14, 15, 16, 17]"
proof -
  have "map_option (\<lambda>(ret, s). (state s, CANrxNew s, block_seqno s, bufOffsetWr s))
      (sdo_exchange example_server [0xC2, 1, 0x20, 0, 20, 0, 0, 0]) =
    Some (CO_SDO_ST_DOWNLOAD_BLK_SUBBLOCK_REQ, False, 0, 0)"
    by code_simp
  then obtain ret s where ex: "sdo_exchange example_server [0xC2, 1, 0x20, 0, 20, 0, 0, 0] = Some (ret, s)"
      and s: "state s = CO_SDO_ST_DOWNLOAD_BLK_SUBBLOCK_REQ" "\<not> CANrxNew s" "block_seqno s = 0" "bufOffsetWr s = 0"
    by auto
  have "sdo_reach example_od s" by (rule sdo_exchange_reach [OF example_server_reach ex])
  from subblock_segment_stored [OF example_od_bounded this s(1,2), of "[1, 11, 12, 13, 14, 15, 16, 17]"]
  obtain s' where "block_blksize s = 127" "CO_SDO_receive s [1, 11, 12, 13, 14, 15, 16, 17] = Some s'"
      "take 7 (buf s') = [11, 12, 13, 14, 15, 16, 17]"
    using s(3,4) by auto
  with ex show ?thesis by blast
qed

end
