(* ===== verification/SDO_Transfer.thy ===== *)
theory SDO_Transfer
  imports SDO_Safety
begin

text \<open>
  What a transfer does, end to end: expedited and segmented downloads and uploads of variables
  with the default access functions, from the client's frames to the memory of the variable and
  the frames the server answers with.
\<close>

section \<open>Plain variables\<close>

text \<open>
  The sub-object \<open>sub\<close> of index \<open>i\<close> is a variable of \<open>n\<close> bytes at address \<open>a\<close> with attributes
  \<open>att\<close>, accessed by the default functions.
\<close>

definition od_plain_var :: "OD_t \<Rightarrow> u16 \<Rightarrow> u8 \<Rightarrow> addr \<Rightarrow> u32 \<Rightarrow> u8 \<Rightarrow> bool" where
  "od_plain_var od i sub a n att \<longleftrightarrow>
     (let (r, io) = OD_getSub (OD_find od i) sub OD_IO_null False in
      r = ODR_OK \<and> io_read io = OD_readOriginal \<and> io_write io = OD_writeOriginal \<and>
      dataOrig (stream io) = Some a \<and> dataLength (stream io) = n \<and> attribute (stream io) = att)"

lemma OD_getSub_stream_ok:
  assumes "OD_getSub_stream e obj sub s = (ODR_OK, s')"
  shows "\<exists>a att n. \<forall>t. OD_getSub_stream e obj sub t = (ODR_OK, var_stream a att n t)"
proof (cases obj)
  case (ODT_REC rs)
  then show ?thesis using assms
    by (cases "find (\<lambda>r. rec_subIndex r = sub) (take (unat (subEntriesCount e)) rs)")
      (auto simp: OD_getSub_stream_def)
qed (use assms in \<open>auto simp: OD_getSub_stream_def split: if_splits\<close>)

lemma OD_getSub_independent:
  assumes "OD_getSub e sub io b = (ODR_OK, io')"
  shows "OD_getSub e sub io2 b = (ODR_OK, io')"
proof -
  obtain e' obj where e: "e = Some e'" "odObject e' = Some obj"
    using assms by (auto simp: OD_getSub_def split: option.splits)
  have "fst (OD_getSub_stream e' obj sub (stream io)) = ODR_OK"
    using assms e by (auto simp: OD_getSub_def split: prod.splits if_splits)
  then obtain a att n where st: "OD_getSub_stream e' obj sub t = (ODR_OK, var_stream a att n t)" for t
    using OD_getSub_stream_ok [of e' obj sub "stream io"] by (metis prod.collapse)
  have eq: "(stream io)\<lparr>attribute := att, dataOrig := a, dataLength := n, stream_object := ob, dataOffset := 0,
        stream_index := j, stream_subIndex := sub\<rparr> =
      (stream io2)\<lparr>attribute := att, dataOrig := a, dataLength := n, stream_object := ob, dataOffset := 0,
        stream_index := j, stream_subIndex := sub\<rparr>" for ob j
    by (rule OD_stream.equality) simp_all
  show ?thesis using assms e by (simp add: OD_getSub_def st var_stream_def Let_def eq)
qed

lemma od_plain_varE:
  assumes "od_plain_var od i sub a n att"
  obtains io where "\<And>io2. OD_getSub (OD_find od i) sub io2 False = (ODR_OK, io)"
    "io_read io = OD_readOriginal" "io_write io = OD_writeOriginal" "dataOrig (stream io) = Some a"
    "dataLength (stream io) = n" "attribute (stream io) = att" "dataOffset (stream io) = 0"
proof -
  obtain r io where g: "OD_getSub (OD_find od i) sub OD_IO_null False = (r, io)" by fastforce
  with assms have ok: "r = ODR_OK" and p: "io_read io = OD_readOriginal" "io_write io = OD_writeOriginal"
      "dataOrig (stream io) = Some a" "dataLength (stream io) = n" "attribute (stream io) = att"
    by (auto simp: od_plain_var_def)
  have "dataOffset (stream io) = 0"
    using g ok by (auto simp: OD_getSub_def split: option.splits prod.splits if_splits)
  with that g ok p OD_getSub_independent show thesis by blast
qed

section \<open>Requests to an idle server\<close>

text \<open>A server that waits for a request; its timeout is set.\<close>

definition sdo_ready :: "sdo \<Rightarrow> bool" where
  "sdo_ready s \<longleftrightarrow> valid s \<and> \<not> CANrxNew s \<and> \<not> CANtx_bufferFull s \<and> SDOtimeoutTime_us s > 0"

definition request :: "u8 \<Rightarrow> u16 \<Rightarrow> u8 \<Rightarrow> u8 list \<Rightarrow> u8 list" where
  "request cmd i sub d = [cmd, ucast i, ucast (drop_bit 8 i), sub] @ d"

lemma index_of_request: "push_bit 8 (ucast (ucast (drop_bit 8 i) :: u8)) OR ucast (ucast i :: u8) = (i :: u16)"
proof (rule bit_word_eqI)
  fix n assume "n < LENGTH(16)"
  then show "bit (push_bit 8 (ucast (ucast (drop_bit 8 i) :: u8)) OR ucast (ucast i :: u8) :: u16) n = bit i n"
    by (cases "n < 8") (auto simp: bit_or_iff bit_push_bit_iff bit_ucast_iff bit_drop_bit_eq)
qed

lemma search_od_plain:
  assumes "od_plain_var (SDO_OD s) i sub a n att" "CANrxData s = request cmd i sub d"
    and "att AND (if upload then ODA_SDO_R else ODA_SDO_W) \<noteq> 0"
  shows "\<exists>io. search_od upload s = sdo_ok (s\<lparr>SDO_index := i, SDO_subIndex := sub, od_io := io\<rparr>) \<and>
    io_read io = OD_readOriginal \<and> io_write io = OD_writeOriginal \<and> dataOrig (stream io) = Some a \<and>
    dataLength (stream io) = n \<and> attribute (stream io) = att \<and> dataOffset (stream io) = 0"
proof -
  obtain io where io: "\<And>io2. OD_getSub (OD_find (SDO_OD s) i) sub io2 False = (ODR_OK, io)"
    "io_read io = OD_readOriginal" "io_write io = OD_writeOriginal" "dataOrig (stream io) = Some a"
    "dataLength (stream io) = n" "attribute (stream io) = att" "dataOffset (stream io) = 0"
    using od_plain_varE [OF assms(1)] by blast
  have rw: "att AND ODA_SDO_RW \<noteq> 0"
  proof
    assume "att AND ODA_SDO_RW = 0"
    then have "(att AND ODA_SDO_RW) AND (if upload then ODA_SDO_R else ODA_SDO_W) = 0" by simp
    with assms(3) show False by (simp add: and.assoc split: if_splits)
  qed
  show ?thesis
    using assms(2,3) io rw
    by (auto simp: search_od_def check_access_def Let_def request_def index_of_request)
qed

section \<open>One exchange\<close>

lemma sdo_rx_new:
  assumes "state s = CO_SDO_ST_IDLE" "rx_idle s = sdo_ok s1"
    and "state s1 \<noteq> CO_SDO_ST_IDLE" "state s1 \<noteq> CO_SDO_ST_ABORT" "rx_state s1 = sdo_ok s2"
  shows "sdo_rx s = Some (0, s2\<lparr>timeoutTimer := 0, CANrxNew := False\<rparr>)"
  using assms by (simp add: sdo_rx_def sdo_ok_def)

lemma sdo_rx_continue:
  assumes "state s \<noteq> CO_SDO_ST_IDLE" "state s \<noteq> CO_SDO_ST_ABORT" "rx_state s = sdo_ok s2"
  shows "sdo_rx s = Some (0, s2\<lparr>timeoutTimer := 0, CANrxNew := False\<rparr>)"
  using assms by (simp add: sdo_rx_def sdo_ok_def)

text \<open>
  States in which the receive function only stores the frame, and the frames it stores.
\<close>

definition stores_frame :: "CO_SDO_state \<Rightarrow> bool" where
  "stores_frame st \<longleftrightarrow> st \<notin> {CO_SDO_ST_UPLOAD_BLK_END_CRSP, CO_SDO_ST_DOWNLOAD_BLK_SUBBLOCK_REQ,
     CO_SDO_ST_DOWNLOAD_BLK_SUBBLOCK_RSP}"

lemma sdo_exchange_eq:
  assumes r: "sdo_ready s" and st: "stores_frame (state s)" and f: "length frame = 8" "frame ! 0 \<noteq> 0x80"
    and rx: "sdo_rx (s\<lparr>CANrxData := frame, CANrxNew := True\<rparr>) =
      Some (code, s1\<lparr>timeoutTimer := 0, CANrxNew := False\<rparr>)"
    and s1: "SDOtimeoutTime_us s1 = SDOtimeoutTime_us s" "CANtx_bufferFull s1 = CANtx_bufferFull s"
      "state s1 \<noteq> CO_SDO_ST_DOWNLOAD_BLK_SUBBLOCK_REQ"
    and tx: "sdo_tx code None (s1\<lparr>timeoutTimer := 0, CANrxNew := False\<rparr>) = Some (ret, code', tn, s2)"
  shows "sdo_exchange s frame = Some (sdo_finish ret code' s2)"
proof -
  let ?t = "s1\<lparr>timeoutTimer := 0, CANrxNew := False\<rparr>"
  have "CO_SDO_receive s frame = Some (s\<lparr>CANrxData := frame, CANrxNew := True\<rparr>)"
    using r st f by (simp add: CO_SDO_receive_def sdo_ready_def stores_frame_def)
  moreover have "?t\<lparr>timeoutTimer := 0\<rparr> = ?t" by (rule sdo.equality) simp_all
  then have "sdo_timers code 0 None ?t = (code, None, ?t)"
    using s1 r by (auto simp: sdo_timers_def Let_def timer_next_def sdo_ready_def)
  ultimately show ?thesis
    using r rx s1 tx
    by (auto simp: sdo_exchange_def CO_SDOserver_process_def Let_def sdo_ready_def case_prod_beta')
qed

section \<open>Expedited transfers\<close>

definition expedited_cmd :: "nat \<Rightarrow> u8 \<Rightarrow> u8" where
  "expedited_cmd k cs = cs OR 0x03 OR push_bit 2 (4 - word_of_nat k)"

lemma nat_1_4_cases:
  assumes "1 \<le> (k :: nat)" "k \<le> 4"
  obtains "k = 1" | "k = 2" | "k = 3" | "k = 4"
  using assms by linarith

lemma write_plain:
  assumes "io_write io = OD_writeOriginal" "dataOrig (stream io) = Some a" "dataOffset (stream io) = 0"
    and "unat (dataLength (stream io)) = length d"
  shows "\<exists>st k. io_write io (stream io) d m = (ODR_OK, st, k, mem_write m a d)"
proof -
  have "stream_usable (stream io)" "length d = stream_room (stream io)" "stream_place (stream io) = a"
    using assms by (simp_all add: stream_defs)
  moreover have "length d < 2 ^ 32" using assms(4) unat_u32_less [of "dataLength (stream io)"] by simp
  ultimately show ?thesis using origw.write_last [of "stream io" d m] assms(1) by auto
qed

lemma rx_download_expedited_plain:
  assumes d: "1 \<le> length d" "length d \<le> 4"
    and rx: "CANrxData s = request (expedited_cmd (length d) 0x20) i sub (d @ replicate (4 - length d) 0)"
    and io: "io_write (od_io s) = OD_writeOriginal" "dataOrig (od_stream s) = Some a" "dataOffset (od_stream s) = 0"
      "unat (dataLength (od_stream s)) = length d" "\<not> is_str s"
  shows "\<exists>st. rx_download_expedited s = sdo_ok (s\<lparr>od_io := (od_io s)\<lparr>stream := st\<rparr>,
    od_mem := mem_write (od_mem s) a d, state := CO_SDO_ST_DOWNLOAD_INITIATE_RSP, finished := True\<rparr>)"
proof -
  define size where "size = (if CANrxData s ! 0 AND 0x01 \<noteq> 0 then 4 - (drop_bit 2 (ucast (CANrxData s ! 0)) AND 0x03)
      else if dataLength (od_stream s) > 0 \<and> dataLength (od_stream s) < 4 then dataLength (od_stream s)
      else 4 :: u32)"
  have size: "size = word_of_nat (length d)"
    by (rule nat_1_4_cases [OF d]) (simp_all add: size_def rx request_def expedited_cmd_def)
  then have usize: "unat size = length d" using d by (simp add: unat_of_nat)
  then have len: "dataLength (od_stream s) = size" using io(4) by (simp add: word_unat_eq_iff)
  have "size \<noteq> 0" using usize d by auto
  moreover obtain st k where w: "io_write (od_io s) (od_stream s) d (od_mem s) = (ODR_OK, st, k, mem_write (od_mem s) a d)"
    using write_plain [OF io(1-4)] by blast
  have "write_expedited (d @ replicate (6 - length d) 0) size s = sdo_ok (s\<lparr>od_io := (od_io s)\<lparr>stream := st\<rparr>,
    od_mem := mem_write (od_mem s) a d, state := CO_SDO_ST_DOWNLOAD_INITIATE_RSP, finished := True\<rparr>)"
    by (simp add: write_expedited_def buf_read_def usize w)
  ultimately show ?thesis
    unfolding rx_download_expedited_def Let_def size_def [symmetric]
    using len io(5) by (auto simp: usize rx request_def)
qed

lemma expedited_cmd_facts:
  assumes "1 \<le> k" "k \<le> 4"
  shows "request_state (expedited_cmd k 0x20) = Some (CO_SDO_ST_DOWNLOAD_INITIATE_REQ, False)"
    and "expedited_cmd k 0x20 AND 2 \<noteq> 0" and "expedited_cmd k 0x20 \<noteq> 0x80"
  by (rule nat_1_4_cases [OF assms]; simp add: expedited_cmd_def request_state_def)+

lemma length_request [simp]: "length (request cmd i sub d) = 4 + length d"
  by (simp add: request_def)

lemma request_0 [simp]: "request cmd i sub d ! 0 = cmd"
  by (simp add: request_def)

lemma sdo_finish_end [simp]:
  "sdo_finish CO_SDO_RT_ok_communicationEnd code s = (CO_SDO_RT_ok_communicationEnd, s)"
  by (simp add: sdo_finish_def)

text \<open>
  An expedited download of one to four bytes to a writable variable of that size stores the
  bytes in the variable (and nothing else), answers with the confirmation for the object and
  ends the transfer.
\<close>

theorem sdo_expedited_download:
  assumes "sdo_ready s" "state s = CO_SDO_ST_IDLE"
    and "od_plain_var (SDO_OD s) i sub a n att" "att AND ODA_SDO_W \<noteq> 0" "att AND ODA_STR = 0"
    and "1 \<le> length d" "length d \<le> 4" "unat n = length d"
  shows "\<exists>s'. sdo_exchange s (request (expedited_cmd (length d) 0x20) i sub (d @ replicate (4 - length d) 0)) =
      Some (CO_SDO_RT_ok_communicationEnd, s') \<and>
    od_mem s' = mem_write (od_mem s) a d \<and> sent s' = sent s @ [request 0x60 i sub (replicate 4 0)] \<and>
    state s' = CO_SDO_ST_IDLE \<and> sdo_ready s' \<and> SDO_OD s' = SDO_OD s"
proof -
  let ?f = "request (expedited_cmd (length d) 0x20) i sub (d @ replicate (4 - length d) 0)"
  define s0 where "s0 = s\<lparr>CANrxData := ?f, CANrxNew := True, state := CO_SDO_ST_DOWNLOAD_INITIATE_REQ\<rparr>"
  note cmd = expedited_cmd_facts [OF assms(6,7)]
  obtain io where so: "search_od False s0 = sdo_ok (s0\<lparr>SDO_index := i, SDO_subIndex := sub, od_io := io\<rparr>)"
    and io: "io_write io = OD_writeOriginal" "dataOrig (stream io) = Some a"
      "dataLength (stream io) = n" "attribute (stream io) = att" "dataOffset (stream io) = 0"
    using search_od_plain [of s0 i sub a n att _ _ False] assms(3,4) by (auto simp: s0_def)
  define s1 where "s1 = s0\<lparr>SDO_index := i, SDO_subIndex := sub, od_io := io\<rparr>"
  obtain st where ex: "rx_download_expedited s1 = sdo_ok (s1\<lparr>od_io := (od_io s1)\<lparr>stream := st\<rparr>,
      od_mem := mem_write (od_mem s1) a d, state := CO_SDO_ST_DOWNLOAD_INITIATE_RSP, finished := True\<rparr>)"
    using rx_download_expedited_plain [of d s1 i sub a] assms(5-8) io by (auto simp: s1_def s0_def)
  define s2 where "s2 = s1\<lparr>od_io := (od_io s1)\<lparr>stream := st\<rparr>,
      od_mem := mem_write (od_mem s1) a d, state := CO_SDO_ST_DOWNLOAD_INITIATE_RSP, finished := True\<rparr>"
  have rx: "sdo_rx (s\<lparr>CANrxData := ?f, CANrxNew := True\<rparr>) = Some (0, s2\<lparr>timeoutTimer := 0, CANrxNew := False\<rparr>)"
  proof (rule sdo_rx_new [where ?s1.0 = s1])
    show "rx_idle (s\<lparr>CANrxData := ?f, CANrxNew := True\<rparr>) = sdo_ok s1"
      using so cmd(1) by (simp add: rx_idle_def s0_def s1_def sdo_ok_def)
    show "rx_state s1 = sdo_ok s2"
      using ex cmd(2) by (simp add: rx_state_def rx_DOWNLOAD_INITIATE_REQ_def s1_def s0_def s2_def)
  qed (use assms in \<open>simp_all add: s1_def s0_def\<close>)
  have "sdo_exchange s ?f = Some (sdo_finish CO_SDO_RT_ok_communicationEnd 0
      (CO_CANsend ((tx_header 0x60 (s2\<lparr>timeoutTimer := 0, CANrxNew := False, CANtx_data := replicate 8 0\<rparr>))
        \<lparr>timeoutTimer := 0\<rparr>)\<lparr>state := CO_SDO_ST_IDLE\<rparr>))" (is "_ = Some (sdo_finish _ _ ?e)")
  proof (rule sdo_exchange_eq [OF assms(1) _ _ _ rx])
    show "sdo_tx 0 None (s2\<lparr>timeoutTimer := 0, CANrxNew := False\<rparr>) =
        Some (CO_SDO_RT_ok_communicationEnd, 0, None, ?e)"
      by (simp add: sdo_tx_def s2_def tx_DOWNLOAD_INITIATE_RSP_def Let_def tx_defs)
  qed (use assms cmd(3) in \<open>simp_all add: stores_frame_def s2_def s1_def s0_def\<close>)
  moreover have "replicate 8 (0::u8) = [0, 0, 0, 0, 0, 0, 0, 0]" "replicate 4 (0::u8) = [0, 0, 0, 0]"
    by (simp_all add: numeral_eq_Suc)
  ultimately show ?thesis using assms(1)
    by (simp add: tx_defs s2_def s1_def s0_def sdo_ready_def request_def)
qed

section \<open>The data of an upload\<close>

text \<open>
  The bytes that an upload still has to send: those in the buffer and, if the variable is not
  exhausted, those that were not read from it yet.
\<close>

definition pending :: "sdo \<Rightarrow> u8 list" where
  "pending s = take (unat (bufOffsetWr s) - unat (bufOffsetRd s)) (drop (unat (bufOffsetRd s)) (buf s)) @
     (if finished s then [] else stream_rest (od_stream s) (od_mem s))"

definition plain_upload :: "sdo \<Rightarrow> bool" where
  "plain_upload s \<longleftrightarrow> upload_ok s \<and> io_read (od_io s) = OD_readOriginal \<and> \<not> is_str s \<and>
     (\<not> finished s \<longrightarrow> stream_usable (od_stream s) \<and> 0 < stream_room (od_stream s))"

lemma pending_upd [simp]:
  "pending (s\<lparr>state := x0\<rparr>) = pending s" "plain_upload (s\<lparr>state := x0\<rparr>) = plain_upload s"
  "pending (s\<lparr>sizeInd := x1\<rparr>) = pending s" "plain_upload (s\<lparr>sizeInd := x1\<rparr>) = plain_upload s"
  "pending (s\<lparr>sizeTran := x2\<rparr>) = pending s" "plain_upload (s\<lparr>sizeTran := x2\<rparr>) = plain_upload s"
  "pending (s\<lparr>toggle := x3\<rparr>) = pending s" "plain_upload (s\<lparr>toggle := x3\<rparr>) = plain_upload s"
  "pending (s\<lparr>timeoutTimer := x4\<rparr>) = pending s" "plain_upload (s\<lparr>timeoutTimer := x4\<rparr>) = plain_upload s"
  "pending (s\<lparr>CANrxNew := x5\<rparr>) = pending s" "plain_upload (s\<lparr>CANrxNew := x5\<rparr>) = plain_upload s"
  "pending (s\<lparr>CANtx_data := x6\<rparr>) = pending s" "plain_upload (s\<lparr>CANtx_data := x6\<rparr>) = plain_upload s"
  "pending (s\<lparr>sent := x7\<rparr>) = pending s" "plain_upload (s\<lparr>sent := x7\<rparr>) = plain_upload s"
  "pending (s\<lparr>CANrxData := x8\<rparr>) = pending s" "plain_upload (s\<lparr>CANrxData := x8\<rparr>) = plain_upload s"
  by (simp_all add: pending_def plain_upload_def upload_ok_def)

lemma readFromOd_string_plain: "\<not> is_str s \<Longrightarrow> readFromOd_string R r n s = Some (r, n, s)"
  by (simp add: readFromOd_string_def)

text \<open>One read of the variable: it either exhausts it or fills the whole request.\<close>

lemma read_plain:
  assumes "stream_usable st"
  obtains r st' bs where "OD_readOriginal st n m = (r, st', bs, m)" "bs = take (unat n) (stream_rest st m)"
    "attribute st' = attribute st" "dataLength st' = dataLength st"
    "r = (if stream_room st \<le> unat n then ODR_OK else ODR_PARTIAL)"
    "unat n < stream_room st \<Longrightarrow> stream_usable st' \<and> stream_rest st' m = drop (unat n) (stream_rest st m)"
proof (cases "stream_room st \<le> unat n")
  case True
  then obtain st' where "OD_readOriginal st n m = (ODR_OK, st', stream_rest st m, m)"
      "attribute st' = attribute st" "dataLength st' = dataLength st"
    using orig.read_last [OF assms, of m n] by auto
  with that True show thesis by auto
next
  case False
  then obtain st' where "OD_readOriginal st n m = (ODR_PARTIAL, st', take (unat n) (stream_rest st m), m)"
      "stream_usable st'" "stream_rest st' m = drop (unat n) (stream_rest st m)"
      "attribute st' = attribute st" "dataLength st' = dataLength st"
    using orig.read_partial [OF assms, of n m] by auto
  with that False show thesis by auto
qed

text \<open>
  \<open>readFromOd\<close> keeps the pending data; afterwards the buffer holds the requested minimum or the
  rest of the variable.
\<close>

lemma readFromOd_plain:
  assumes b: "sdo_base s" and p: "plain_upload s" and c: "0 < c" "c \<le> 900"
  obtains s' r w bf st f where "readFromOd s c False = sdo_ok s'"
    "s' = s\<lparr>bufOffsetRd := r, buf := bf, od_io := (od_io s)\<lparr>stream := st\<rparr>, bufOffsetWr := w, finished := f\<rparr>"
    "sdo_base s'" "plain_upload s'" "pending s' = pending s" "f \<or> c \<le> w - r" "dataLength st = dataLength (od_stream s)"
    "bufOffsetRd s = 0 \<Longrightarrow> r = 0"
proof (cases "finished s \<or> c \<le> bufOffsetWr s - bufOffsetRd s")
  case True
  have "s = s\<lparr>bufOffsetRd := bufOffsetRd s, buf := buf s,
      od_io := (od_io s)\<lparr>stream := od_stream s\<rparr>, bufOffsetWr := bufOffsetWr s, finished := finished s\<rparr>"
    by (rule sdo.equality) simp_all
  from that [OF readFromOd_enough [OF True] this b p refl] True show thesis by auto
next
  case False
  then have nf: "\<not> finished s" "bufOffsetWr s - bufOffsetRd s < c" by auto
  define R where "R = bufOffsetWr s - bufOffsetRd s"
  have us: "stream_usable (od_stream s)" "0 < stream_room (od_stream s)" and u: "upload_ok s"
    and io: "io_read (od_io s) = OD_readOriginal" "\<not> is_str s"
    using p nf(1) by (auto simp: plain_upload_def)
  obtain r st bs where rd: "OD_readOriginal (od_stream s) (900 - R) (od_mem s) = (r, st, bs, od_mem s)"
      and bs: "bs = take (unat (900 - R)) (stream_rest (od_stream s) (od_mem s))"
      and at: "attribute st = attribute (od_stream s)" "dataLength st = dataLength (od_stream s)"
      and r: "r = (if stream_room (od_stream s) \<le> unat (900 - R) then ODR_OK else ODR_PARTIAL)"
      and rest: "unat (900 - R) < stream_room (od_stream s) \<Longrightarrow> stream_usable st \<and>
        stream_rest st (od_mem s) = drop (unat (900 - R)) (stream_rest (od_stream s) (od_mem s))"
    using read_plain [OF us(1)] by metis
  define bf where "bf = take (unat R) (drop (unat (bufOffsetRd s)) (buf s)) @ bs @ drop (unat R + length bs) (buf s)"
  note rf = readFromOd_refill [OF b u c(2) nf, unfolded io(1), OF rd [unfolded R_def], folded R_def, folded bf_def]
  have uR: "unat R = unat (bufOffsetWr s) - unat (bufOffsetRd s)"
    using u by (simp add: R_def upload_ok_def word_le_nat_alt unat_minus_ge)
  have free: "unat (900 - R) = 900 - unat R" using rf(1) by (subst unat_minus_ge) simp_all
  define f where "f \<longleftrightarrow> stream_room (od_stream s) \<le> 900 - unat R"
  have lbs: "length bs = min (stream_room (od_stream s)) (900 - unat R)" by (simp add: bs free)
  have w: "unat (R + word_of_nat (length bs)) = unat R + length bs"
    using lbs rf(1) by (subst unat_plus_small) (simp_all add: unat_of_nat)
  have ne: "R + word_of_nat (length bs) \<noteq> 0"
  proof
    assume "R + word_of_nat (length bs) = 0"
    then have "unat R + length bs = 0" using w by simp
    then show False using lbs us(2) rf(1) by (auto simp: min_def split: if_splits)
  qed
  define s' where "s' = s\<lparr>bufOffsetRd := 0, buf := bf,
    od_io := (od_io s)\<lparr>stream := st\<rparr>, bufOffsetWr := R + word_of_nat (length bs), finished := f\<rparr>"
  have full: "\<not> f \<Longrightarrow> unat R + length bs = 900" using lbs rf(1) by (simp add: f_def)
  have res: "readFromOd s c False = sdo_ok s'"
  proof -
    have "readFromOd_finish R c False r (word_of_nat (length bs))
        (s\<lparr>bufOffsetRd := 0, bufOffsetWr := R, buf := bf, od_io := (od_io s)\<lparr>stream := st\<rparr>, od_mem := od_mem s\<rparr>) =
      sdo_ok (s'\<lparr>od_mem := od_mem s\<rparr>)"
      using r ne full w c(2) by (simp add: readFromOd_finish_def Let_def s'_def f_def free word_less_nat_alt word_le_nat_alt)
    moreover have "s'\<lparr>od_mem := od_mem s\<rparr> = s'" by (rule sdo.equality) (simp_all add: s'_def)
    ultimately show ?thesis
      using r at io(2) by (simp add: rf(4) readFromOd_string_plain)
  qed
  have "length bf = 901" using rf(3) by (simp add: sdo_base_def)
  then have "sdo_base s'" using b by (simp add: s'_def sdo_base_def)
  moreover have room: "0 < stream_room st" if "\<not> f"
  proof -
    have "length (stream_rest st (od_mem s)) = stream_room (od_stream s) - (900 - unat R)"
      using rest that free by (simp add: f_def)
    then show ?thesis using that by (simp add: f_def)
  qed
  from room have "plain_upload s'"
    using io at rest w full lbs rf(1)
    by (auto simp: plain_upload_def s'_def upload_ok_def word_le_nat_alt f_def free)
  moreover have "pending s' = pending s"
  proof -
    have "length (take (unat R) (drop (unat (bufOffsetRd s)) (buf s))) = unat R"
      using b u uR by (auto simp: sdo_base_def upload_ok_def word_le_nat_alt)
    moreover have "bs @ (if f then [] else stream_rest st (od_mem s)) = stream_rest (od_stream s) (od_mem s)"
      using rest by (auto simp: bs free f_def)
    ultimately show ?thesis using nf(1) w
      by (auto simp: pending_def s'_def bf_def uR [symmetric] split: if_splits)
  qed
  moreover have "f \<or> c \<le> R + word_of_nat (length bs) - 0"
    using full w c(2) by (cases f) (simp_all add: word_le_nat_alt)
  ultimately show thesis using that [of s'] res at(2) unfolding s'_def by blast
qed

text \<open>What the upload helpers leave alone.\<close>

definition sdo_kept :: "sdo \<Rightarrow> sdo \<Rightarrow> bool" where
  "sdo_kept s s' \<longleftrightarrow> valid s' = valid s \<and> CANtx_bufferFull s' = CANtx_bufferFull s \<and>
     SDOtimeoutTime_us s' = SDOtimeoutTime_us s \<and> SDO_OD s' = SDO_OD s \<and> SDO_index s' = SDO_index s \<and>
     SDO_subIndex s' = SDO_subIndex s \<and> od_mem s' = od_mem s \<and> sent s' = sent s \<and> state s' = state s \<and>
     toggle s' = toggle s \<and> CANrxData s' = CANrxData s"

lemma load_upload_plain:
  assumes b: "sdo_base s" and io: "io_read (od_io s) = OD_readOriginal" "dataOrig (od_stream s) = Some a"
      "dataOffset (od_stream s) = 0" "\<not> is_str s" and n: "0 < dataLength (od_stream s)"
  obtains s' where "load_upload s = sdo_ok s'" "sdo_kept s s'" "sdo_base s'" "plain_upload s'"
    "pending s' = mem_read (od_mem s) a (unat (dataLength (od_stream s)))" "bufOffsetRd s' = 0"
    "sizeInd s' = dataLength (od_stream s)" "sizeTran s' = 0" "finished s' \<or> 7 \<le> bufOffsetWr s' - bufOffsetRd s'"
proof -
  define n' where "n' = dataLength (od_stream s)"
  define s1 where "s1 = s\<lparr>bufOffsetRd := 0, bufOffsetWr := 0, sizeTran := 0, finished := False\<rparr>"
  have p1: "plain_upload s1"
    using io n by (auto simp: plain_upload_def s1_def upload_ok_def stream_defs unat_gt_0)
  have pend: "pending s1 = mem_read (od_mem s) a (unat n')"
    using io by (simp add: pending_def s1_def stream_defs n'_def)
  obtain s2 r w bf st f where rd: "readFromOd s1 7 False = sdo_ok s2"
      and s2: "s2 = s1\<lparr>bufOffsetRd := r, buf := bf, od_io := (od_io s1)\<lparr>stream := st\<rparr>, bufOffsetWr := w, finished := f\<rparr>"
      "sdo_base s2" "plain_upload s2" "pending s2 = pending s1" "f \<or> 7 \<le> w - r"
      "dataLength st = dataLength (od_stream s1)" "bufOffsetRd s1 = 0 \<Longrightarrow> r = 0"
    by (rule readFromOd_plain [of s1 7]) (use b p1 in \<open>auto simp: s1_def\<close>)
  have r0: "r = 0" using s2(7) by (simp add: s1_def)
  have str: "\<not> is_str s2" "n' \<noteq> 0" using s2(3) n by (auto simp: plain_upload_def n'_def)
  have dl: "dataLength (od_stream s2) = n'" using s2(1,6) by (simp add: s1_def n'_def)
  have wn: "w = n'" if f
  proof -
    have "unat w \<le> 900" using s2(1,3) by (simp add: plain_upload_def upload_ok_def word_le_nat_alt)
    moreover have "length (buf s2) = 901" using s2(2) by (simp add: sdo_base_def)
    ultimately have "length (pending s2) = unat w"
      using that r0 s2(1) by (simp add: pending_def)
    then show ?thesis using s2(4) pend by (simp add: word_unat_eq_iff)
  qed
  have "load_upload s = sdo_ok (s2\<lparr>sizeInd := n'\<rparr>)"
    using rd dl str wn s2(1) unfolding load_upload_def s1_def [symmetric] Let_def
    by (auto simp: sdo_ok_def)
  moreover have "sdo_kept s (s2\<lparr>sizeInd := n'\<rparr>)" by (simp add: sdo_kept_def s2(1) s1_def)
  moreover have "pending (s2\<lparr>sizeInd := n'\<rparr>) = mem_read (od_mem s) a (unat n')"
    using s2(4) pend by simp
  ultimately show thesis
    using that [of "s2\<lparr>sizeInd := n'\<rparr>"] s2 r0
    by (simp add: n'_def s1_def)
qed

lemma pending_in_buffer:
  assumes "sdo_base s" "plain_upload s" "bufOffsetRd s = 0"
    and "finished s \<or> 7 \<le> bufOffsetWr s - bufOffsetRd s" "length (pending s) < 7"
  shows "finished s" and "buf_read (buf s) 0 (length (pending s)) = Some (pending s)"
proof -
  have w: "unat (bufOffsetWr s) \<le> 900" and l: "length (buf s) = 901"
    using assms(1,2) by (simp_all add: plain_upload_def upload_ok_def word_le_nat_alt sdo_base_def)
  then have "unat (bufOffsetWr s) \<le> length (pending s)"
    using assms(3) by (simp add: pending_def)
  then show f: "finished s"
    using assms(3-5) by (auto simp: word_le_nat_alt)
  with w l assms(3) show "buf_read (buf s) 0 (length (pending s)) = Some (pending s)"
    by (simp add: pending_def buf_read_def)
qed

section \<open>The start of an upload\<close>

text \<open>The reception of an upload request for a readable plain variable.\<close>

lemma sdo_rx_upload_plain:
  assumes b: "sdo_base s" and st: "state s = CO_SDO_ST_IDLE"
    and v: "od_plain_var (SDO_OD s) i sub a n att" "att AND ODA_SDO_R \<noteq> 0" "att AND ODA_STR = 0" "0 < n"
    and d: "CANrxData s = request 0x40 i sub d"
  obtains s' where "sdo_rx s = Some (0, s'\<lparr>timeoutTimer := 0, CANrxNew := False\<rparr>)"
    "sdo_kept (s\<lparr>state := CO_SDO_ST_UPLOAD_INITIATE_RSP, SDO_index := i, SDO_subIndex := sub\<rparr>) s'"
    "sdo_base s'" "plain_upload s'" "pending s' = mem_read (od_mem s) a (unat n)" "bufOffsetRd s' = 0"
    "sizeInd s' = n" "sizeTran s' = 0" "finished s' \<or> 7 \<le> bufOffsetWr s' - bufOffsetRd s'"
proof -
  define s0 where "s0 = s\<lparr>state := CO_SDO_ST_UPLOAD_INITIATE_REQ\<rparr>"
  obtain io where so: "search_od True s0 = sdo_ok (s0\<lparr>SDO_index := i, SDO_subIndex := sub, od_io := io\<rparr>)"
    and io: "io_read io = OD_readOriginal" "dataOrig (stream io) = Some a"
      "dataLength (stream io) = n" "attribute (stream io) = att" "dataOffset (stream io) = 0"
    using search_od_plain [of s0 i sub a n att _ _ True] v d by (auto simp: s0_def)
  define s1 where "s1 = s0\<lparr>SDO_index := i, SDO_subIndex := sub, od_io := io\<rparr>"
  have b1: "sdo_base s1" using b io by (simp add: s1_def s0_def sdo_base_def read_bounded_original)
  obtain s2 where l: "load_upload s1 = sdo_ok s2" and s2: "sdo_kept s1 s2" "sdo_base s2" "plain_upload s2"
      "pending s2 = mem_read (od_mem s1) a (unat n)" "bufOffsetRd s2 = 0"
      "sizeInd s2 = n" "sizeTran s2 = 0" "finished s2 \<or> 7 \<le> bufOffsetWr s2 - bufOffsetRd s2"
    by (rule load_upload_plain [OF b1, of a]) (use io v in \<open>auto simp: s1_def\<close>)
  have "sdo_rx s = Some (0, (s2\<lparr>state := CO_SDO_ST_UPLOAD_INITIATE_RSP\<rparr>)\<lparr>timeoutTimer := 0, CANrxNew := False\<rparr>)"
  proof (rule sdo_rx_new [OF st])
    show "rx_idle s = sdo_ok s2"
      using so l d by (simp add: rx_idle_def request_state_def s0_def s1_def sdo_ok_def)
    have "state s2 = CO_SDO_ST_UPLOAD_INITIATE_REQ" using s2(1) by (simp add: sdo_kept_def s1_def s0_def)
    then show "state s2 \<noteq> CO_SDO_ST_IDLE" "state s2 \<noteq> CO_SDO_ST_ABORT"
      "rx_state s2 = sdo_ok (s2\<lparr>state := CO_SDO_ST_UPLOAD_INITIATE_RSP\<rparr>)"
      by (simp_all add: rx_state_def)
  qed
  then show thesis
    using that [of "s2\<lparr>state := CO_SDO_ST_UPLOAD_INITIATE_RSP\<rparr>"] s2
    by (simp add: sdo_kept_def s1_def s0_def)
qed

lemma length_1_4E:
  assumes "1 \<le> length d" "length d \<le> 4"
  obtains x where "d = [x]" | x y where "d = [x, y]" | x y z where "d = [x, y, z]"
  | x y z u where "d = [x, y, z, u]"
  using assms by (cases d; cases "tl d"; cases "tl (tl d)"; cases "tl (tl (tl d))") auto

lemma tx_UPLOAD_INITIATE_RSP_expedited:
  assumes d: "1 \<le> length d" "length d \<le> 4" and s: "sizeInd s = word_of_nat (length d)"
    "buf_read (buf s) 0 (length d) = Some d" "CANtx_data s = replicate 8 0"
  shows "\<exists>s'. tx_UPLOAD_INITIATE_RSP code s = tx_end code s' \<and> state s' = CO_SDO_ST_IDLE \<and> od_mem s' = od_mem s \<and>
    sent s' = sent s @ [request (expedited_cmd (length d) 0x40) (SDO_index s) (SDO_subIndex s)
      (d @ replicate (4 - length d) 0)]"
proof -
  have z: "replicate 8 (0::u8) = [0, 0, 0, 0, 0, 0, 0, 0]" "replicate 3 (0::u8) = [0, 0, 0]"
    "replicate 2 (0::u8) = [0, 0]"
    by (simp_all add: numeral_eq_Suc)
  have u: "unat (sizeInd s) = length d" using d s(1) by (simp add: unat_of_nat)
  have c: "sizeInd s > 0 \<and> sizeInd s \<le> 4"
    using d u by (auto simp: word_le_nat_alt word_less_nat_alt)
  have br: "buf_read (buf s) 0 (unat (sizeInd s)) = Some d" using s(2) u by simp
  show ?thesis
    by (rule length_1_4E [OF d])
      (use s(1,3) c br in \<open>simp_all add: tx_UPLOAD_INITIATE_RSP_def z tx_copy_def buf_write_def tx_defs Let_def
        request_def expedited_cmd_def\<close>)
qed

text \<open>
  An expedited upload of a readable variable of one to four bytes answers with the bytes of
  the variable and their number, and ends the transfer; memory is unchanged.
\<close>

theorem sdo_expedited_upload:
  assumes b: "sdo_base s" and r: "sdo_ready s" and st: "state s = CO_SDO_ST_IDLE"
    and v: "od_plain_var (SDO_OD s) i sub a n att" "att AND ODA_SDO_R \<noteq> 0" "att AND ODA_STR = 0"
    and n: "0 < n" "n \<le> 4"
  shows "\<exists>s'. sdo_exchange s (request 0x40 i sub (replicate 4 0)) = Some (CO_SDO_RT_ok_communicationEnd, s') \<and>
    od_mem s' = od_mem s \<and> state s' = CO_SDO_ST_IDLE \<and>
    sent s' = sent s @ [request (expedited_cmd (unat n) 0x40) i sub
      (mem_read (od_mem s) a (unat n) @ replicate (4 - unat n) 0)]"
proof -
  let ?f = "request 0x40 i sub (replicate 4 0)"
  let ?s = "s\<lparr>CANrxData := ?f, CANrxNew := True\<rparr>"
  have b0: "sdo_base ?s" using b by (simp add: sdo_base_def)
  obtain s1 where rx: "sdo_rx ?s = Some (0, s1\<lparr>timeoutTimer := 0, CANrxNew := False\<rparr>)"
    and k: "sdo_kept (?s\<lparr>state := CO_SDO_ST_UPLOAD_INITIATE_RSP, SDO_index := i, SDO_subIndex := sub\<rparr>) s1"
    and s1: "sdo_base s1" "plain_upload s1" "pending s1 = mem_read (od_mem s) a (unat n)" "bufOffsetRd s1 = 0"
      "sizeInd s1 = n" "finished s1 \<or> 7 \<le> bufOffsetWr s1 - bufOffsetRd s1"
    by (rule sdo_rx_upload_plain [OF b0, of i sub a n att "replicate 4 0"]) (use st v n in auto)
  define d where "d = mem_read (od_mem s) a (unat n)"
  have d: "1 \<le> length d" "length d \<le> 4" using n by (simp_all add: d_def word_le_nat_alt word_less_nat_alt)
  have nd: "n = word_of_nat (length d)" by (simp add: d_def)
  define t where "t = s1\<lparr>timeoutTimer := 0, CANrxNew := False, CANtx_data := replicate 8 0\<rparr>"
  have "buf_read (buf s1) 0 (length d) = Some d"
    using pending_in_buffer(2) [OF s1(1,2,4,6)] s1(3) d by (simp add: d_def)
  then obtain s2 where tx: "tx_UPLOAD_INITIATE_RSP 0 t = tx_end 0 s2"
    and s2: "state s2 = CO_SDO_ST_IDLE" "od_mem s2 = od_mem t"
      "sent s2 = sent t @ [request (expedited_cmd (length d) 0x40) (SDO_index t) (SDO_subIndex t) (d @ replicate (4 - length d) 0)]"
    using tx_UPLOAD_INITIATE_RSP_expedited [OF d, of t 0] s1(5) nd by (auto simp: t_def)
  have "sdo_exchange s ?f = Some (sdo_finish CO_SDO_RT_ok_communicationEnd 0 s2)"
  proof (rule sdo_exchange_eq [OF r _ _ _ rx])
    show "sdo_tx 0 None (s1\<lparr>timeoutTimer := 0, CANrxNew := False\<rparr>) = Some (CO_SDO_RT_ok_communicationEnd, 0, None, s2)"
      using k tx by (simp add: sdo_tx_def Let_def t_def sdo_kept_def)
  qed (use st k in \<open>simp_all add: stores_frame_def sdo_kept_def\<close>)
  with s2 k show ?thesis by (simp add: t_def sdo_kept_def d_def)
qed

section \<open>Segmented uploads\<close>

text \<open>The frames of a segmented transfer of \<open>d\<close>, from toggle bit \<open>t\<close> on.\<close>

definition last_segment :: "u8 \<Rightarrow> u8 list \<Rightarrow> u8 list" where
  "last_segment t d = [t OR ucast (push_bit 1 (7 - word_of_nat (length d)) OR 0x01 :: u32)] @ d @ replicate (7 - length d) 0"

function segments :: "u8 \<Rightarrow> u8 list \<Rightarrow> u8 list list" where
  "segments t d =
     (if length d \<le> 7 then [last_segment t d]
      else ([t] @ take 7 d) # segments (toggled t) (drop 7 d))"
  by pat_completeness auto
termination
  by (relation "measure (\<lambda>(t, d). length d)") auto

declare segments.simps [simp del]

text \<open>The next chunk of pending data, as the transmit handler computes it.\<close>

lemma chunk_of_pending:
  assumes b: "sdo_base s" and p: "plain_upload s" and f: "finished s \<or> 7 \<le> bufOffsetWr s - bufOffsetRd s"
  defines "count \<equiv> bufOffsetWr s - bufOffsetRd s"
  defines "lst \<equiv> count < 7 \<or> finished s \<and> count = 7"
  defines "n \<equiv> (if lst then count else 7)"
  shows "lst \<longleftrightarrow> length (pending s) \<le> 7"
    and "unat n = (if lst then length (pending s) else 7)"
    and "buf_read (buf s) (unat (bufOffsetRd s)) (unat n) = Some (take 7 (pending s))"
    and "pending (s\<lparr>bufOffsetRd := bufOffsetRd s + n\<rparr>) = drop 7 (pending s)"
    and "plain_upload (s\<lparr>bufOffsetRd := bufOffsetRd s + n\<rparr>)"
proof -
  have u: "upload_ok s" using p by (simp add: plain_upload_def)
  have l: "length (buf s) = 901" using b by (simp add: sdo_base_def)
  note seg = segment_read [OF b u, folded count_def, folded lst_def, folded n_def]
  have c: "unat count = unat (bufOffsetWr s) - unat (bufOffsetRd s)" "unat (bufOffsetWr s) \<le> 900"
      "unat (bufOffsetRd s) \<le> unat (bufOffsetWr s)"
    using u by (simp_all add: count_def upload_ok_def word_le_nat_alt unat_minus_ge)
  have lp: "length (pending s) = unat count + (if finished s then 0 else stream_room (od_stream s))"
    using c l by (simp add: pending_def)
  have c7: "(count = 7) = (unat count = 7)" "(count < 7) = (unat count < 7)" "(7 \<le> count) = (7 \<le> unat count)"
    by (simp_all add: word_unat_eq_iff word_less_nat_alt word_le_nat_alt)
  have room: "\<not> finished s \<Longrightarrow> 0 < stream_room (od_stream s)" using p by (simp add: plain_upload_def)
  show 1: "lst \<longleftrightarrow> length (pending s) \<le> 7"
    using f room unfolding lst_def c7 lp count_def [symmetric] by auto
  have fl: "lst \<Longrightarrow> finished s" using f unfolding lst_def c7 count_def [symmetric] by auto
  show 2: "unat n = (if lst then length (pending s) else 7)"
    using fl lp by (simp add: n_def)
  have c7': "\<not> lst \<Longrightarrow> 7 \<le> unat count" unfolding lst_def c7 by auto
  define X where "X = drop (unat (bufOffsetRd s)) (buf s)"
  define Y where "Y = (if finished s then [] else stream_rest (od_stream s) (od_mem s))"
  have pd: "pending s = take (unat count) X @ Y" by (simp add: pending_def X_def Y_def c(1))
  have X: "unat count \<le> length X" using c l by (simp add: X_def)
  have n7: "unat n = (if lst then unat count else 7)" by (simp add: n_def)
  have Y: "lst \<Longrightarrow> Y = []" using fl by (simp add: Y_def)
  have "take 7 (pending s) = take (unat n) X"
    using 1 X Y c7' unfolding pd n7 by (cases lst) simp_all
  then show "buf_read (buf s) (unat (bufOffsetRd s)) (unat n) = Some (take 7 (pending s))"
    using seg(4) by (simp add: X_def)
  have "take (unat count - unat n) (drop (unat n) X) @ Y = drop 7 (pending s)"
    using 1 X Y c7' unfolding pd n7 by (cases lst) (simp_all add: drop_take)
  moreover have "pending (s\<lparr>bufOffsetRd := bufOffsetRd s + n\<rparr>) = take (unat count - unat n) (drop (unat n) X) @ Y"
    using seg(3) by (simp add: pending_def X_def Y_def c(1) add.commute)
  ultimately show "pending (s\<lparr>bufOffsetRd := bufOffsetRd s + n\<rparr>) = drop 7 (pending s)" by simp
  show "plain_upload (s\<lparr>bufOffsetRd := bufOffsetRd s + n\<rparr>)"
    using p upload_ok_advance [OF u, of n] seg(2,3) by (simp add: plain_upload_def)
qed

lemma tx_copy_segment:
  assumes "CANtx_data s = x # replicate 7 0" "length d \<le> 7"
  shows "tx_copy 1 d s = Some (s\<lparr>CANtx_data := x # d @ replicate (7 - length d) 0\<rparr>)"
  using assms by (simp add: tx_copy_def buf_write_def)

text \<open>A server in the middle of a segmented upload of \<open>len\<close> bytes, with \<open>d\<close> still to send.\<close>

definition uploading :: "sdo \<Rightarrow> nat \<Rightarrow> u8 \<Rightarrow> u8 list \<Rightarrow> bool" where
  "uploading s len t d \<longleftrightarrow> sdo_base s \<and> sdo_ready s \<and> state s = CO_SDO_ST_UPLOAD_SEGMENT_REQ \<and>
     plain_upload s \<and> pending s = d \<and> d \<noteq> [] \<and> toggle s = t \<and> (t = 0 \<or> t = 0x10) \<and>
     unat (sizeInd s) = len \<and> unat (sizeTran s) + length d = len"

definition upload_request :: "u8 \<Rightarrow> u8 list" where
  "upload_request t = (0x60 OR t) # replicate 7 0"

lemma tx_UPLOAD_SEGMENT_RSP_plain:
  assumes b: "sdo_base s" and p: "plain_upload s" "pending s = d" "d \<noteq> []"
    and z: "unat (sizeInd s) = unat (sizeTran s) + length d" and tx: "CANtx_data s = replicate 8 0"
  obtains s' where "tx_UPLOAD_SEGMENT_RSP code s =
      Some (if length d \<le> 7 then CO_SDO_RT_ok_communicationEnd else CO_SDO_RT_waitingResponse, code, s')"
    "sdo_base s'" "plain_upload s'" "pending s' = drop 7 d" "toggle s' = toggled (toggle s)" "od_mem s' = od_mem s"
    "sent s' = sent s @ [if length d \<le> 7 then last_segment (toggle s) d else [toggle s] @ take 7 d]"
    "state s' = (if length d \<le> 7 then CO_SDO_ST_IDLE else CO_SDO_ST_UPLOAD_SEGMENT_REQ)"
    "sizeInd s' = sizeInd s" "unat (sizeTran s') = unat (sizeTran s) + min 7 (length d)"
    "sdo_ready s' = sdo_ready s"
proof -
  obtain s1 r w bf st f where rd: "readFromOd s 7 False = sdo_ok s1"
      and e: "s1 = s\<lparr>bufOffsetRd := r, buf := bf, od_io := (od_io s)\<lparr>stream := st\<rparr>, bufOffsetWr := w, finished := f\<rparr>"
      and s1: "sdo_base s1" "plain_upload s1" "pending s1 = pending s" "f \<or> 7 \<le> w - r"
    by (rule readFromOd_plain [OF b p(1), of 7]) auto
  define count where "count = bufOffsetWr s1 - bufOffsetRd s1"
  define lst where "lst \<longleftrightarrow> count < 7 \<or> finished s1 \<and> count = 7"
  define n where "n = (if lst then count else 7)"
  have "finished s1 \<or> 7 \<le> bufOffsetWr s1 - bufOffsetRd s1" using s1(4) by (simp add: e)
  note ch = chunk_of_pending [OF s1(1,2) this, folded count_def, folded lst_def, folded n_def, unfolded s1(3) p(2)]
  have un: "unat n = min 7 (length d)" using ch(1,2) by auto
  have sz: "unat (sizeTran s + n) = unat (sizeTran s) + min 7 (length d)"
    using z un unat_u32_less [of "sizeInd s"] by (subst unat_plus_small) simp_all
  define x where "x = (if lst then toggle s OR ucast (push_bit 1 (7 - count) OR 0x01) else toggle s)"
  define t where "t = (tx_put [(0, toggle s1)] s1)\<lparr>toggle := toggled (toggle s1)\<rparr>"
  define s2 where "s2 = (if lst
     then (tx_put [(0, CANtx_data t ! 0 OR ucast (push_bit 1 (7 - count) OR 0x01))] t)\<lparr>state := CO_SDO_ST_IDLE\<rparr>
     else t\<lparr>timeoutTimer := 0, state := CO_SDO_ST_UPLOAD_SEGMENT_REQ\<rparr>)"
  define s3 where "s3 = s2\<lparr>CANtx_data := x # take 7 d @ replicate (7 - min 7 (length d)) 0,
    bufOffsetRd := bufOffsetRd s1 + n, sizeTran := sizeTran s1 + n\<rparr>"
  have z8: "replicate 8 (0::u8) = 0 # replicate 7 0" by (simp add: numeral_eq_Suc)
  have "CANtx_data s2 = x # replicate 7 0"
    using tx by (simp add: s2_def t_def x_def tx_put_def e z8)
  then have cp: "tx_copy (Suc 0) (take 7 d) s2 = Some (s2\<lparr>CANtx_data := x # take 7 d @ replicate (7 - min 7 (length d)) 0\<rparr>)"
    using tx_copy_segment [of s2 x "take 7 d"] by simp
  have "\<not> (sizeInd s1 > 0 \<and> sizeTran s1 + n > sizeInd s1)" and
    "\<not> (sizeInd s1 > 0 \<and> lst \<and> sizeTran s1 + n < sizeInd s1)"
    using z sz ch(1) by (auto simp: word_less_nat_alt e)
  then have "tx_UPLOAD_SEGMENT_RSP code s =
      Some (if lst then CO_SDO_RT_ok_communicationEnd else CO_SDO_RT_waitingResponse, code, CO_CANsend s3)"
    using rd cp ch(3)
    unfolding tx_UPLOAD_SEGMENT_RSP_def sdo_ok_def
    by (cases lst) (auto simp: Let_def count_def [symmetric] lst_def [symmetric] t_def s2_def s3_def n_def)
  moreover have "sdo_base (CO_CANsend s3)"
    using s1(1) by (simp add: s3_def s2_def t_def sdo_base_def CO_CANsend_def tx_put_def)
  moreover have "x # take 7 d @ replicate (7 - min 7 (length d)) 0 =
      (if length d \<le> 7 then last_segment (toggle s) d else [toggle s] @ take 7 d)"
  proof (cases lst)
    case True
    then have "count = word_of_nat (length d)" using ch(1,2) by (simp add: n_def word_unat_eq_iff unat_of_nat)
    with True ch(1) show ?thesis by (simp add: x_def last_segment_def)
  qed (use ch(1) in \<open>simp add: x_def\<close>)
  moreover have "pending (CO_CANsend s3) = pending (s1\<lparr>bufOffsetRd := bufOffsetRd s1 + n\<rparr>)"
    "plain_upload (CO_CANsend s3) = plain_upload (s1\<lparr>bufOffsetRd := bufOffsetRd s1 + n\<rparr>)"
    by (simp_all add: s3_def s2_def t_def pending_def plain_upload_def upload_ok_def CO_CANsend_def tx_put_def)
  ultimately show thesis
    using that [of "CO_CANsend s3"] ch(1,4,5) sz
    by (auto simp: s3_def s2_def t_def e CO_CANsend_def sdo_ready_def tx_put_def)
qed

lemma upload_segment_step:
  assumes u: "uploading s len t d"
  obtains s' ret where "sdo_exchange s (upload_request t) = Some (ret, s')" "od_mem s' = od_mem s"
    "sent s' = sent s @ [if length d \<le> 7 then last_segment t d else [t] @ take 7 d]"
    "length d \<le> 7 \<Longrightarrow> ret = CO_SDO_RT_ok_communicationEnd \<and> state s' = CO_SDO_ST_IDLE"
    "7 < length d \<Longrightarrow> uploading s' len (toggled t) (drop 7 d)"
proof -
  let ?f = "upload_request t"
  define s1 where "s1 = s\<lparr>CANrxData := ?f, CANrxNew := True, state := CO_SDO_ST_UPLOAD_SEGMENT_RSP\<rparr>"
  define s2 where "s2 = s1\<lparr>timeoutTimer := 0, CANrxNew := False, CANtx_data := replicate 8 0\<rparr>"
  have t: "(0x60 OR t) AND 0xEF = 0x60" "(0x60 OR t) AND 0x10 = t" "0x60 OR t \<noteq> 0x80"
    using u by (auto simp: uploading_def)
  have rx: "sdo_rx (s\<lparr>CANrxData := ?f, CANrxNew := True\<rparr>) = Some (0, s1\<lparr>timeoutTimer := 0, CANrxNew := False\<rparr>)"
    by (rule sdo_rx_continue) (use u t in \<open>simp_all add: uploading_def rx_state_def rx_UPLOAD_SEGMENT_REQ_def
      s1_def upload_request_def\<close>)
  have s2: "sdo_base s2" "plain_upload s2" "pending s2 = d" "d \<noteq> []" "sizeInd s2 = sizeInd s" "sizeTran s2 = sizeTran s"
      "toggle s2 = t" "sent s2 = sent s" "od_mem s2 = od_mem s" "sdo_ready s2" "CANtx_data s2 = replicate 8 0"
    using u by (auto simp: uploading_def s2_def s1_def upload_request_def sdo_base_def sdo_ready_def)
  obtain s3 where tx: "tx_UPLOAD_SEGMENT_RSP 0 s2 =
      Some (if length d \<le> 7 then CO_SDO_RT_ok_communicationEnd else CO_SDO_RT_waitingResponse, 0, s3)"
    and s3: "sdo_base s3" "plain_upload s3" "pending s3 = drop 7 d" "toggle s3 = toggled t" "od_mem s3 = od_mem s"
    "sent s3 = sent s @ [if length d \<le> 7 then last_segment t d else [t] @ take 7 d]"
    "state s3 = (if length d \<le> 7 then CO_SDO_ST_IDLE else CO_SDO_ST_UPLOAD_SEGMENT_REQ)"
    "sizeInd s3 = sizeInd s" "unat (sizeTran s3) = unat (sizeTran s) + min 7 (length d)" "sdo_ready s3"
    by (rule tx_UPLOAD_SEGMENT_RSP_plain [of s2 d 0]) (use s2 u in \<open>auto simp: uploading_def\<close>)
  have "sdo_exchange s ?f = Some (sdo_finish
      (if length d \<le> 7 then CO_SDO_RT_ok_communicationEnd else CO_SDO_RT_waitingResponse) 0 s3)"
  proof (rule sdo_exchange_eq [OF _ _ _ _ rx])
    show "sdo_tx 0 None (s1\<lparr>timeoutTimer := 0, CANrxNew := False\<rparr>) =
        Some (if length d \<le> 7 then CO_SDO_RT_ok_communicationEnd else CO_SDO_RT_waitingResponse, 0, None, s3)"
      using tx by (simp add: sdo_tx_def Let_def s2_def s1_def)
  qed (use u t in \<open>simp_all add: uploading_def stores_frame_def s1_def upload_request_def\<close>)
  moreover have "uploading s3 len (toggled t) (drop 7 d)" if "7 < length d"
    using u s3 that by (auto simp: uploading_def)
  ultimately show thesis using that s3 by (cases "length d \<le> 7") (auto simp: sdo_finish_def)
qed

text \<open>A whole session: the client's frames in order, each answered before the next.\<close>

fun sdo_session :: "sdo \<Rightarrow> u8 list list \<Rightarrow> sdo option" where
  "sdo_session s [] = Some s"
| "sdo_session s (f # fs) = sdo_exchange s f \<bind> (\<lambda>(ret, s). sdo_session s fs)"

fun toggles :: "u8 \<Rightarrow> nat \<Rightarrow> u8 list" where
  "toggles t 0 = []"
| "toggles t (Suc k) = t # toggles (toggled t) k"

lemma div7_Suc: "7 < n \<Longrightarrow> (n + 6) div 7 = Suc ((n - 7 + 6) div 7)" for n :: nat
  by (simp add: Suc_eq_plus1 [symmetric] div_add_self2 [symmetric] del: div_add_self2)

lemma upload_segments:
  "uploading s len t d \<Longrightarrow>
   \<exists>s'. sdo_session s (map upload_request (toggles t ((length d + 6) div 7))) = Some s' \<and>
     od_mem s' = od_mem s \<and> sent s' = sent s @ segments t d \<and> state s' = CO_SDO_ST_IDLE"
proof (induction t d arbitrary: s rule: segments.induct)
  case (1 t d)
  have ne: "d \<noteq> []" using "1.prems" by (simp add: uploading_def)
  obtain s1 ret where ex: "sdo_exchange s (upload_request t) = Some (ret, s1)"
    and s1: "od_mem s1 = od_mem s" "sent s1 = sent s @ [if length d \<le> 7 then last_segment t d else [t] @ take 7 d]"
    "length d \<le> 7 \<Longrightarrow> ret = CO_SDO_RT_ok_communicationEnd \<and> state s1 = CO_SDO_ST_IDLE"
    "7 < length d \<Longrightarrow> uploading s1 len (toggled t) (drop 7 d)"
    using upload_segment_step [OF "1.prems"] by metis
  show ?case
  proof (cases "length d \<le> 7")
    case True
    have "1 \<le> length d" using ne by (cases d) auto
    with True have k: "(length d + 6) div 7 = Suc 0" by (intro div_nat_eqI) simp_all
    show ?thesis using True ex s1 by (simp add: k segments.simps [of t d])
  next
    case False
    have k: "(length d + 6) div 7 = Suc ((length (drop 7 d) + 6) div 7)"
      using False div7_Suc [of "length d"] by simp
    obtain s2 where "sdo_session s1 (map upload_request (toggles (toggled t) ((length (drop 7 d) + 6) div 7))) = Some s2"
        "od_mem s2 = od_mem s1" "sent s2 = sent s1 @ segments (toggled t) (drop 7 d)" "state s2 = CO_SDO_ST_IDLE"
      using "1.IH" [OF False s1(4)] False by auto
    then show ?thesis using False ex s1 unfolding k by (simp add: segments.simps [of t d])
  qed
qed

lemma tx_UPLOAD_INITIATE_RSP_segmented:
  assumes "4 < sizeInd s" "CANtx_data s = replicate 8 0"
  defines "f \<equiv> request 0x41 (SDO_index s) (SDO_subIndex s) (le_bytes 4 (sizeInd s))"
  shows "tx_UPLOAD_INITIATE_RSP code s = tx_wait code
    (s\<lparr>toggle := 0, timeoutTimer := 0, state := CO_SDO_ST_UPLOAD_SEGMENT_REQ, CANtx_data := f, sent := sent s @ [f]\<rparr>)"
proof -
  have z: "replicate 8 (0::u8) = [0, 0, 0, 0, 0, 0, 0, 0]" by (simp add: numeral_eq_Suc)
  have c: "\<not> (0 < sizeInd s \<and> sizeInd s \<le> 4)" "0 < sizeInd s"
    using assms(1) by (auto simp: not_le word_less_nat_alt)
  have "length (le_bytes 4 (sizeInd s)) = 4" by simp
  then show ?thesis
    using assms(2) c unfolding tx_UPLOAD_INITIATE_RSP_def f_def
    by (simp add: tx_put_def tx_copy_def z buf_write_def Let_def tx_header_def CO_CANsend_def request_def)
qed

lemma segmented_upload_start:
  assumes b: "sdo_base s" and r: "sdo_ready s" and st: "state s = CO_SDO_ST_IDLE"
    and v: "od_plain_var (SDO_OD s) i sub a n att" "att AND ODA_SDO_R \<noteq> 0" "att AND ODA_STR = 0"
    and n: "4 < n"
  obtains s' where "sdo_exchange s (request 0x40 i sub (replicate 4 0)) = Some (CO_SDO_RT_waitingResponse, s')"
    "uploading s' (unat n) 0 (mem_read (od_mem s) a (unat n))" "od_mem s' = od_mem s"
    "sent s' = sent s @ [request 0x41 i sub (le_bytes 4 n)]"
proof -
  let ?f = "request 0x40 i sub (replicate 4 0)" and ?g = "request 0x41 i sub (le_bytes 4 n)"
  let ?s = "s\<lparr>CANrxData := ?f, CANrxNew := True\<rparr>"
  have b0: "sdo_base ?s" using b by (simp add: sdo_base_def)
  have n0: "0 < n" using n by (auto simp: word_less_nat_alt)
  obtain s1 where rx: "sdo_rx ?s = Some (0, s1\<lparr>timeoutTimer := 0, CANrxNew := False\<rparr>)"
    and k: "sdo_kept (?s\<lparr>state := CO_SDO_ST_UPLOAD_INITIATE_RSP, SDO_index := i, SDO_subIndex := sub\<rparr>) s1"
    and s1: "sdo_base s1" "plain_upload s1" "pending s1 = mem_read (od_mem s) a (unat n)"
      "sizeInd s1 = n" "sizeTran s1 = 0"
    by (rule sdo_rx_upload_plain [OF b0, of i sub a n att "replicate 4 0"]) (use st v n0 in auto)
  define t where "t = s1\<lparr>timeoutTimer := 0, CANrxNew := False, CANtx_data := replicate 8 0\<rparr>"
  define s2 where "s2 = t\<lparr>toggle := 0, timeoutTimer := 0, state := CO_SDO_ST_UPLOAD_SEGMENT_REQ,
    CANtx_data := ?g, sent := sent t @ [?g]\<rparr>"
  have tx: "tx_UPLOAD_INITIATE_RSP 0 t = tx_wait 0 s2"
    using tx_UPLOAD_INITIATE_RSP_segmented [of t 0] n s1(4) k by (simp add: t_def s2_def sdo_kept_def)
  have ex: "sdo_exchange s ?f = Some (sdo_finish CO_SDO_RT_waitingResponse 0 s2)"
  proof (rule sdo_exchange_eq [OF r _ _ _ rx])
    show "sdo_tx 0 None (s1\<lparr>timeoutTimer := 0, CANrxNew := False\<rparr>) = Some (CO_SDO_RT_waitingResponse, 0, None, s2)"
      using k tx by (simp add: sdo_tx_def Let_def t_def sdo_kept_def)
  qed (use st k in \<open>simp_all add: stores_frame_def sdo_kept_def\<close>)
  have "mem_read (od_mem s) a (unat n) \<noteq> []" using n0 by (auto simp: mem_read_def word_less_nat_alt)
  then have "uploading s2 (unat n) 0 (mem_read (od_mem s) a (unat n))"
    using s1 k r by (simp add: uploading_def s2_def t_def sdo_kept_def sdo_ready_def)
  with that [of s2] k ex show thesis by (simp add: sdo_finish_def s2_def t_def sdo_kept_def)
qed

text \<open>
  C6: A segmented upload of a readable variable of any size above four bytes (also beyond the
  size of the buffer) answers the client's requests with the announced size and then with
  segments that carry exactly the bytes of the variable, in order, with alternating toggle bits;
  after the last one the server is idle and memory is unchanged.
\<close>

theorem sdo_segmented_upload:
  assumes b: "sdo_base s" and r: "sdo_ready s" and st: "state s = CO_SDO_ST_IDLE"
    and v: "od_plain_var (SDO_OD s) i sub a n att" "att AND ODA_SDO_R \<noteq> 0" "att AND ODA_STR = 0"
    and n: "4 < n"
  shows "\<exists>s'. sdo_session s (request 0x40 i sub (replicate 4 0) #
        map upload_request (toggles 0 ((unat n + 6) div 7))) = Some s' \<and>
    od_mem s' = od_mem s \<and> state s' = CO_SDO_ST_IDLE \<and>
    sent s' = sent s @ request 0x41 i sub (le_bytes 4 n) # segments 0 (mem_read (od_mem s) a (unat n))"
proof -
  obtain s2 where s2: "sdo_exchange s (request 0x40 i sub (replicate 4 0)) = Some (CO_SDO_RT_waitingResponse, s2)"
    "uploading s2 (unat n) 0 (mem_read (od_mem s) a (unat n))" "od_mem s2 = od_mem s"
    "sent s2 = sent s @ [request 0x41 i sub (le_bytes 4 n)]"
    using segmented_upload_start [OF assms] by metis
  from upload_segments [OF s2(2)] s2 show ?thesis by auto
qed

section \<open>Segmented downloads\<close>

text \<open>
  A server in the middle of a segmented download to the variable of \<open>n\<close> bytes at \<open>a\<close>: \<open>fl\<close> is
  written to memory \<open>m\<close> already, \<open>pd\<close> is in the buffer, \<open>d\<close> is still to come.
\<close>

definition download_io :: "sdo \<Rightarrow> addr \<Rightarrow> u32 \<Rightarrow> nat \<Rightarrow> bool" where
  "download_io s a n k \<longleftrightarrow> io_write (od_io s) = OD_writeOriginal \<and> \<not> is_str s \<and> dataLength (od_stream s) = n \<and>
     stream_usable (od_stream s) \<and> stream_place (od_stream s) = a + k \<and> stream_room (od_stream s) = unat n - k"

definition downloading ::
    "sdo \<Rightarrow> mem \<Rightarrow> addr \<Rightarrow> u32 \<Rightarrow> u8 list \<Rightarrow> u8 list \<Rightarrow> u8 \<Rightarrow> u8 list \<Rightarrow> bool" where
  "downloading s m a n fl pd t d \<longleftrightarrow> sdo_base s \<and> state s = CO_SDO_ST_DOWNLOAD_SEGMENT_REQ \<and>
     toggle s = t \<and> (t = 0 \<or> t = 0x10) \<and> download_io s a n (length fl) \<and> sizeInd s = n \<and>
     unat (sizeTran s) = length fl + length pd \<and> bufOffsetWr s \<le> 891 \<and> unat (bufOffsetWr s) = length pd \<and>
     take (length pd) (buf s) = pd \<and> od_mem s = mem_write m a fl \<and> d \<noteq> [] \<and>
     length fl + length pd + length d = unat n"

text \<open>The frame of the next segment: its command byte and the data it carries.\<close>

definition segment_frame :: "u8 \<Rightarrow> u8 list \<Rightarrow> u8 list" where
  "segment_frame t d = (if length d \<le> 7 then last_segment t d else [t] @ take 7 d)"

lemma last_cmd_facts:
  assumes k: "1 \<le> k" "k \<le> 7" and t: "t = 0 \<or> t = 0x10"
  defines "cmd \<equiv> t OR ucast (push_bit 1 (7 - word_of_nat k) OR 0x01 :: u32) :: u8"
  shows "cmd AND 0xE0 = 0" "cmd AND 0x01 \<noteq> 0" "cmd AND 0x10 = t" "cmd \<noteq> 0x80"
    "7 - (drop_bit 1 (ucast cmd) AND 0x07) = (word_of_nat k :: u32)"
proof -
  have "k \<in> {1, 2, 3, 4, 5, 6, 7}" using k by auto
  then show "cmd AND 0xE0 = 0" "cmd AND 0x01 \<noteq> 0" "cmd AND 0x10 = t" "cmd \<noteq> 0x80"
    "7 - (drop_bit 1 (ucast cmd) AND 0x07) = (word_of_nat k :: u32)"
    using t by (auto simp: cmd_def)
qed

lemma segment_frame_facts:
  assumes d: "d \<noteq> []" and t: "t = 0 \<or> t = 0x10"
  defines "cmd \<equiv> segment_frame t d ! 0"
  shows "length (segment_frame t d) = 8" "cmd AND 0xE0 = 0" "cmd AND 0x01 \<noteq> 0 \<longleftrightarrow> length d \<le> 7"
    "cmd AND 0x10 = t" "cmd \<noteq> 0x80"
    "unat (7 - (drop_bit 1 (ucast cmd) AND 0x07) :: u32) = min 7 (length d)"
    "take (min 7 (length d)) (drop 1 (segment_frame t d)) = take 7 d"
proof -
  have "1 \<le> length d" using d by (cases d) auto
  note c = last_cmd_facts [OF this _ t]
  show "length (segment_frame t d) = 8" "take (min 7 (length d)) (drop 1 (segment_frame t d)) = take 7 d"
    by (simp_all add: segment_frame_def last_segment_def)
  show "cmd AND 0xE0 = 0" "cmd AND 0x01 \<noteq> 0 \<longleftrightarrow> length d \<le> 7" "cmd AND 0x10 = t" "cmd \<noteq> 0x80"
    "unat (7 - (drop_bit 1 (ucast cmd) AND 0x07) :: u32) = min 7 (length d)"
    using c t by (auto simp: cmd_def segment_frame_def last_segment_def unat_of_nat)
qed

lemma OD_writeOriginal_frame:
  "OD_writeOriginal st b m = (r, st', k, m') \<Longrightarrow> attribute st' = attribute st \<and> dataLength st' = dataLength st"
  by (auto simp: OD_writeOriginal_def Let_def split: option.splits if_splits)

text \<open>The write of the buffered data, at the end of the transfer or when the buffer is full.\<close>

lemma write_download:
  assumes b: "sdo_base s" and io: "download_io s a n k" and w: "unat (bufOffsetWr s) = length pd" "bufOffsetWr s \<le> 898"
    and pd: "take (length pd) (buf s) = pd" and len: "k + length pd \<le> unat n" and n: "0 < n"
    and fin: "finished s \<longleftrightarrow> k + length pd = unat n"
    and sz: "sizeInd s = n" "unat (sizeTran s) = k + length pd"
  obtains st where "validateAndWriteToOD s 0 0 =
      sdo_ok (s\<lparr>od_io := (od_io s)\<lparr>stream := st\<rparr>, od_mem := mem_write (od_mem s) (a + k) pd, bufOffsetWr := 0\<rparr>)"
    "\<not> finished s \<Longrightarrow> download_io (s\<lparr>od_io := (od_io s)\<lparr>stream := st\<rparr>\<rparr>) a n (k + length pd)"
proof -
  have vs: "validate_size s = sdo_ok s"
    using io sz fin n len by (auto simp: validate_size_def download_io_def Let_def word_less_nat_alt word_unat_eq_iff)
  have br: "buf_read (buf s) 0 (unat (bufOffsetWr s)) = Some pd"
    using b w pd by (simp add: buf_read_def sdo_base_def word_le_nat_alt)
  have l32: "length pd < 2 ^ 32" using w by (simp add: word_le_nat_alt)
  have us: "stream_usable (od_stream s)" "stream_place (od_stream s) = a + k" "stream_room (od_stream s) = unat n - k"
    and wr: "io_write (od_io s) = OD_writeOriginal" using io by (simp_all add: download_io_def)
  have "\<exists>st j. OD_writeOriginal (od_stream s) pd (od_mem s) =
      (if finished s then ODR_OK else ODR_PARTIAL, st, j, mem_write (od_mem s) (a + k) pd) \<and>
    (\<not> finished s \<longrightarrow> stream_usable st \<and> stream_place st = a + k + length pd \<and> stream_room st = unat n - (k + length pd))"
    using origw.write_last [OF us(1) _ l32, of "od_mem s"] origw.write_partial [OF us(1) _ l32, of "od_mem s"]
      us(2,3) len fin by (cases "finished s") auto
  then obtain st j where w1: "OD_writeOriginal (od_stream s) pd (od_mem s) =
      (if finished s then ODR_OK else ODR_PARTIAL, st, j, mem_write (od_mem s) (a + k) pd)"
    and st: "\<not> finished s \<Longrightarrow> stream_usable st \<and> stream_place st = a + k + length pd \<and> stream_room st = unat n - (k + length pd)"
    by blast
  have "validateAndWriteToOD s 0 0 =
      sdo_ok (s\<lparr>od_io := (od_io s)\<lparr>stream := st\<rparr>, od_mem := mem_write (od_mem s) (a + k) pd, bufOffsetWr := 0\<rparr>)"
    using vs br w1 wr by (simp add: validateAndWriteToOD_def validate_crc_def write_to_od_def sdo_ok_def Let_def)
  moreover have "download_io (s\<lparr>od_io := (od_io s)\<lparr>stream := st\<rparr>\<rparr>) a n (k + length pd)" if "\<not> finished s"
    using st [OF that] OD_writeOriginal_frame [OF w1] io by (simp add: download_io_def add.assoc)
  ultimately show thesis using that by blast
qed

lemma take_buf_write:
  "buf_write b k c = Some b' \<Longrightarrow> take k b = p \<Longrightarrow> k = length p \<Longrightarrow> take (length (p @ c)) b' = p @ c"
  using buf_write_prefix [of b k c b'] by simp

text \<open>The reception of one segment: the data is appended, and written when the buffer is full or at the end.\<close>

lemma rx_segment_plain:
  assumes dl: "downloading s m a n fl pd t d" and rx: "CANrxData s = segment_frame t d"
  obtains s' fl' pd' where "rx_DOWNLOAD_SEGMENT_REQ s = sdo_ok (s'\<lparr>state := CO_SDO_ST_DOWNLOAD_SEGMENT_RSP\<rparr>)"
    "sdo_kept (s\<lparr>od_mem := od_mem s'\<rparr>) s'" "sdo_base s'" "finished s' \<longleftrightarrow> length d \<le> 7" "fl' @ pd' = fl @ pd @ take 7 d"
    "length d \<le> 7 \<Longrightarrow> pd' = []" "od_mem s' = mem_write m a fl'"
    "7 < length d \<Longrightarrow> download_io s' a n (length fl') \<and> sizeInd s' = n \<and> unat (sizeTran s') = length (fl' @ pd') \<and>
       bufOffsetWr s' \<le> 891 \<and> unat (bufOffsetWr s') = length pd' \<and> take (length pd') (buf s') = pd'"
proof -
  have b: "sdo_base s" and t: "t = 0 \<or> t = 0x10" and io: "download_io s a n (length fl)"
    and sz: "sizeInd s = n" "unat (sizeTran s) = length fl + length pd" "unat (bufOffsetWr s) = length pd"
    and w: "bufOffsetWr s \<le> 891" and pd: "take (length pd) (buf s) = pd" and mem: "od_mem s = mem_write m a fl"
    and d: "d \<noteq> []" "length fl + length pd + length d = unat n" "toggle s = t"
    using dl by (auto simp: downloading_def)
  note f = segment_frame_facts [OF d(1) t]
  define cmd where "cmd = segment_frame t d ! 0"
  define count where "count = (7 - (drop_bit 1 (ucast cmd) AND 0x07) :: u32)"
  have c: "unat count = min 7 (length d)" using f(6) by (simp add: count_def cmd_def)
  have lpd: "length pd \<le> 891" using w sz(3) by (simp add: word_le_nat_alt)
  have "wp (buf_write (buf s) (unat (bufOffsetWr s)) (take 7 d)) (\<lambda>b'. length b' = 901)"
    by (rule wp_buf_write) (use b lpd sz(3) in \<open>auto simp: sdo_base_def\<close>)
  then obtain b1 where b1: "buf_write (buf s) (unat (bufOffsetWr s)) (take 7 d) = Some b1" "length b1 = 901"
    by (auto simp: wp_ex)
  define s1 where "s1 = s\<lparr>finished := (cmd AND 0x01 \<noteq> 0), buf := b1, bufOffsetWr := bufOffsetWr s + count,
    sizeTran := sizeTran s + count\<rparr>"
  have w1: "unat (bufOffsetWr s1) = length (pd @ take 7 d)"
    using c sz(3) lpd by (simp add: s1_def unat_plus_small min.commute)
  have p1: "take (length (pd @ take 7 d)) (buf s1) = pd @ take 7 d"
    using take_buf_write [OF b1(1), of pd] pd sz(3) by (simp add: s1_def)
  have t1: "unat (sizeTran s1) = length fl + length (pd @ take 7 d)"
    using c sz(2) d(2) unat_u32_less [of n] by (simp add: s1_def unat_plus_small min.commute)
  have s1: "sdo_base s1" "download_io s1 a n (length fl)" "sizeInd s1 = n" "finished s1 \<longleftrightarrow> length d \<le> 7"
      "bufOffsetWr s1 \<le> 898" "sdo_kept s s1" "od_mem s1 = mem_write m a fl"
    using b b1(2) io sz f(3) w1 lpd mem
    by (auto simp: s1_def sdo_base_def download_io_def cmd_def word_le_nat_alt sdo_kept_def)
  have n0: "0 < n" using d by (auto simp: word_less_nat_alt intro: gr0I)
  have rxeq: "rx_DOWNLOAD_SEGMENT_REQ s =
      (download_flush s1 \<bind> (\<lambda>(ok, code, s). if \<not> ok then Some (False, code, s)
         else sdo_ok (s\<lparr>state := CO_SDO_ST_DOWNLOAD_SEGMENT_RSP\<rparr>)))"
  proof -
    have "\<not> (dataLength (od_stream s1) > 0 \<and> sizeTran s1 > dataLength (od_stream s1))"
      using s1(2) t1 d(2) by (auto simp: download_io_def word_less_nat_alt)
    moreover have "take (unat count) (drop (Suc 0) (CANrxData s)) = take 7 d"
      using f(7) c rx by simp
    moreover have cmd: "CANrxData s ! 0 = cmd" "cmd AND 0xE0 = 0" "cmd AND 0x10 = toggle s"
      using rx f(2,4) d(3) by (simp_all add: cmd_def)
    ultimately show ?thesis
      using b1(1) unfolding rx_DOWNLOAD_SEGMENT_REQ_def Let_def cmd(1) count_def [symmetric]
      by (auto simp: s1_def)
  qed
  define pd1 where "pd1 = pd @ take 7 d"
  have lpd1: "length pd1 = length pd + min 7 (length d)" by (simp add: pd1_def min.commute)
  show thesis
  proof (cases "finished s1 \<or> CO_CONFIG_SDO_SRV_BUFFER_SIZE - bufOffsetWr s1 < 7 + 2")
    case True
    have len: "length fl + length pd1 \<le> unat n" "finished s1 \<longleftrightarrow> length fl + length pd1 = unat n"
      using d(2) s1(4) lpd1 by auto
    obtain st where wr: "validateAndWriteToOD s1 0 0 =
        sdo_ok (s1\<lparr>od_io := (od_io s1)\<lparr>stream := st\<rparr>, od_mem := mem_write (od_mem s1) (a + length fl) pd1, bufOffsetWr := 0\<rparr>)"
      and io1: "\<not> finished s1 \<Longrightarrow> download_io (s1\<lparr>od_io := (od_io s1)\<lparr>stream := st\<rparr>\<rparr>) a n (length fl + length pd1)"
      using write_download [OF s1(1,2) w1 [folded pd1_def] s1(5) p1 [folded pd1_def] len(1) n0 len(2) s1(3) t1 [folded pd1_def]]
      by blast
    define s2 where "s2 = s1\<lparr>od_io := (od_io s1)\<lparr>stream := st\<rparr>,
      od_mem := mem_write (od_mem s1) (a + length fl) pd1, bufOffsetWr := 0\<rparr>"
    show thesis
    proof (rule that [of s2 "fl @ pd1" "[]"])
      show "rx_DOWNLOAD_SEGMENT_REQ s = sdo_ok (s2\<lparr>state := CO_SDO_ST_DOWNLOAD_SEGMENT_RSP\<rparr>)"
        using True wr by (simp add: rxeq download_flush_def s2_def sdo_ok_def)
      show "od_mem s2 = mem_write m a (fl @ pd1)" by (simp add: s2_def s1(7) mem_write_append)
    qed (use s1 io1 len t1 in \<open>auto simp: s2_def sdo_kept_def sdo_base_def pd1_def download_io_def\<close>)
  next
    case False
    have "bufOffsetWr s1 \<le> 891"
      using False s1(5) by (auto simp: CO_CONFIG_SDO_SRV_BUFFER_SIZE_def word_less_nat_alt word_le_nat_alt unat_minus_ge)
    with False s1 w1 p1 t1 show thesis
      by (intro that [of s1 fl pd1])
        (auto simp: rxeq download_flush_def sdo_ok_def pd1_def sdo_kept_def)
  qed
qed

definition download_confirm :: "u8 \<Rightarrow> u8 list" where
  "download_confirm t = (0x20 OR t) # replicate 7 0"

lemma download_segment_step:
  assumes dl: "downloading s m a n fl pd t d" and r: "sdo_ready s"
  obtains s' ret fl' pd' where "sdo_exchange s (segment_frame t d) = Some (ret, s')"
    "sent s' = sent s @ [download_confirm t]" "fl' @ pd' = fl @ pd @ take 7 d" "sdo_ready s'" "SDO_OD s' = SDO_OD s"
    "length d \<le> 7 \<Longrightarrow> state s' = CO_SDO_ST_IDLE \<and> od_mem s' = mem_write m a (fl @ pd @ d)"
    "7 < length d \<Longrightarrow> downloading s' m a n fl' pd' (toggled t) (drop 7 d)"
proof -
  let ?f = "segment_frame t d"
  have d: "d \<noteq> []" "t = 0 \<or> t = 0x10" "state s = CO_SDO_ST_DOWNLOAD_SEGMENT_REQ" "toggle s = t"
      "length fl + length pd + length d = unat n"
    using dl by (auto simp: downloading_def)
  note f = segment_frame_facts [OF d(1,2)]
  define s0 where "s0 = s\<lparr>CANrxData := ?f, CANrxNew := True\<rparr>"
  have "downloading s0 m a n fl pd t d"
    using dl f(1) by (simp add: downloading_def s0_def sdo_base_def download_io_def)
  then obtain s1 fl' pd' where rx: "rx_DOWNLOAD_SEGMENT_REQ s0 = sdo_ok (s1\<lparr>state := CO_SDO_ST_DOWNLOAD_SEGMENT_RSP\<rparr>)"
    and k: "sdo_kept (s0\<lparr>od_mem := od_mem s1\<rparr>) s1" and s1: "sdo_base s1" "finished s1 \<longleftrightarrow> length d \<le> 7"
      "fl' @ pd' = fl @ pd @ take 7 d" "length d \<le> 7 \<Longrightarrow> pd' = []" "od_mem s1 = mem_write m a fl'"
      "7 < length d \<Longrightarrow> download_io s1 a n (length fl') \<and> sizeInd s1 = n \<and> unat (sizeTran s1) = length (fl' @ pd') \<and>
       bufOffsetWr s1 \<le> 891 \<and> unat (bufOffsetWr s1) = length pd' \<and> take (length pd') (buf s1) = pd'"
    by (rule rx_segment_plain) (auto simp: s0_def)
  define s2 where "s2 = s1\<lparr>state := (if length d \<le> 7 then CO_SDO_ST_IDLE else CO_SDO_ST_DOWNLOAD_SEGMENT_REQ),
    timeoutTimer := 0, CANrxNew := False, CANtx_data := download_confirm t, toggle := toggled t,
    sent := sent s @ [download_confirm t]\<rparr>"
  define ret where "ret = (if length d \<le> 7 then CO_SDO_RT_ok_communicationEnd else CO_SDO_RT_waitingResponse)"
  have rx0: "sdo_rx s0 = Some (0, (s1\<lparr>state := CO_SDO_ST_DOWNLOAD_SEGMENT_RSP\<rparr>)\<lparr>timeoutTimer := 0, CANrxNew := False\<rparr>)"
    by (rule sdo_rx_continue) (use d(3) rx in \<open>simp_all add: rx_state_def s0_def\<close>)
  have "sdo_exchange s ?f = Some (sdo_finish ret 0 s2)"
  proof (rule sdo_exchange_eq [OF r _ _ _ rx0 [unfolded s0_def]])
    have z: "(replicate 8 0)[0 := 0x20 OR t] = download_confirm t"
      by (simp add: download_confirm_def numeral_eq_Suc)
    show "sdo_tx 0 None ((s1\<lparr>state := CO_SDO_ST_DOWNLOAD_SEGMENT_RSP\<rparr>)\<lparr>timeoutTimer := 0, CANrxNew := False\<rparr>) =
        Some (ret, 0, None, s2)"
      using k s1(2) d(4) z
      by (auto simp: sdo_tx_def Let_def tx_DOWNLOAD_SEGMENT_RSP_def tx_put_def CO_CANsend_def s2_def ret_def
          s0_def sdo_kept_def intro!: sdo.equality)
  qed (use d(3) f k in \<open>simp_all add: stores_frame_def s0_def sdo_kept_def\<close>)
  moreover have "sdo_ready s2" "SDO_OD s2 = SDO_OD s" using r k by (simp_all add: sdo_ready_def s2_def s0_def sdo_kept_def)
  moreover have "downloading s2 m a n fl' pd' (toggled t) (drop 7 d)" if "7 < length d"
  proof -
    have "length fl' + length pd' + length (drop 7 d) = unat n"
      using d(5) that arg_cong [OF s1(3), of length] by simp
    then show ?thesis
      using s1(1,5) s1(6) [OF that] that k by (simp add: downloading_def s2_def sdo_base_def download_confirm_def download_io_def)
  qed
  moreover have "od_mem s2 = mem_write m a (fl @ pd @ d)" if "length d \<le> 7"
    using s1(3,4,5) that by (simp add: s2_def)
  ultimately show thesis
    using that [of _ s2 fl' pd'] s1(3) by (auto simp: sdo_finish_def ret_def s2_def split: if_splits)
qed

lemma download_segments:
  "downloading s m a n fl pd t d \<Longrightarrow> sdo_ready s \<Longrightarrow>
   \<exists>s'. sdo_session s (segments t d) = Some s' \<and> od_mem s' = mem_write m a (fl @ pd @ d) \<and>
     sent s' = sent s @ map download_confirm (toggles t ((length d + 6) div 7)) \<and>
     state s' = CO_SDO_ST_IDLE \<and> sdo_ready s' \<and> SDO_OD s' = SDO_OD s"
proof (induction t d arbitrary: s fl pd rule: segments.induct)
  case (1 t d)
  have ne: "d \<noteq> []" using "1.prems" by (simp add: downloading_def)
  obtain s1 ret fl1 pd1 where ex: "sdo_exchange s (segment_frame t d) = Some (ret, s1)"
    and s1: "sent s1 = sent s @ [download_confirm t]" "fl1 @ pd1 = fl @ pd @ take 7 d" "sdo_ready s1" "SDO_OD s1 = SDO_OD s"
    "length d \<le> 7 \<Longrightarrow> state s1 = CO_SDO_ST_IDLE \<and> od_mem s1 = mem_write m a (fl @ pd @ d)"
    "7 < length d \<Longrightarrow> downloading s1 m a n fl1 pd1 (toggled t) (drop 7 d)"
    using download_segment_step [OF "1.prems"] by metis
  show ?case
  proof (cases "length d \<le> 7")
    case True
    have "1 \<le> length d" using ne by (cases d) auto
    with True have k: "(length d + 6) div 7 = Suc 0" by (intro div_nat_eqI) simp_all
    show ?thesis using True ex s1 by (simp add: k segments.simps [of t d] segment_frame_def)
  next
    case False
    have k: "(length d + 6) div 7 = Suc ((length (drop 7 d) + 6) div 7)"
      using False div7_Suc [of "length d"] by simp
    have all: "fl1 @ pd1 @ drop 7 d = fl @ pd @ d" using s1(2) by (metis append.assoc append_take_drop_id)
    have "downloading s1 m a n fl1 pd1 (toggled t) (drop 7 d)" using s1(6) False by simp
    then obtain s2 where "sdo_session s1 (segments (toggled t) (drop 7 d)) = Some s2" "od_mem s2 = mem_write m a (fl @ pd @ d)"
        "sent s2 = sent s1 @ map download_confirm (toggles (toggled t) ((length (drop 7 d) + 6) div 7))"
        "state s2 = CO_SDO_ST_IDLE" "sdo_ready s2" "SDO_OD s2 = SDO_OD s1"
      using "1.IH" [OF False _ s1(3)] all by metis
    then show ?thesis using False ex s1 unfolding k by (simp add: segments.simps [of t d] segment_frame_def)
  qed
qed

lemma segmented_download_start:
  assumes b: "sdo_base s" and r: "sdo_ready s" and st: "state s = CO_SDO_ST_IDLE"
    and v: "od_plain_var (SDO_OD s) i sub a n att" "att AND ODA_SDO_W \<noteq> 0" "att AND ODA_STR = 0"
    and d: "length d = unat n" "d \<noteq> []"
  obtains s' where "sdo_exchange s (request 0x21 i sub (le_bytes 4 n)) = Some (CO_SDO_RT_waitingResponse, s')"
    "downloading s' (od_mem s) a n [] [] 0 d" "sdo_ready s'" "SDO_OD s' = SDO_OD s"
    "sent s' = sent s @ [request 0x60 i sub (replicate 4 0)]"
proof -
  let ?f = "request 0x21 i sub (le_bytes 4 n)" and ?g = "request 0x60 i sub (replicate 4 0)"
  define s0 where "s0 = s\<lparr>CANrxData := ?f, CANrxNew := True, state := CO_SDO_ST_DOWNLOAD_INITIATE_REQ\<rparr>"
  obtain io where so: "search_od False s0 = sdo_ok (s0\<lparr>SDO_index := i, SDO_subIndex := sub, od_io := io\<rparr>)"
    and io: "io_read io = OD_readOriginal" "io_write io = OD_writeOriginal" "dataOrig (stream io) = Some a"
      "dataLength (stream io) = n" "attribute (stream io) = att" "dataOffset (stream io) = 0"
    using search_od_plain [of s0 i sub a n att _ _ False] v by (auto simp: s0_def)
  define s1 where "s1 = s0\<lparr>SDO_index := i, SDO_subIndex := sub, od_io := io\<rparr>"
  define s2 where "s2 = s1\<lparr>sizeInd := n, state := CO_SDO_ST_DOWNLOAD_INITIATE_RSP, finished := False\<rparr>"
  have "le_word (le_bytes 4 n) = n" by (rule le_word_le_bytes) simp
  then have "rx_state s1 = sdo_ok s2"
    using io by (simp add: rx_state_def rx_DOWNLOAD_INITIATE_REQ_def check_size_indicated_def Let_def s1_def s0_def
        s2_def request_def sdo_ok_def)
  then have rx: "sdo_rx (s\<lparr>CANrxData := ?f, CANrxNew := True\<rparr>) = Some (0, s2\<lparr>timeoutTimer := 0, CANrxNew := False\<rparr>)"
    by (intro sdo_rx_new [where ?s1.0 = s1])
      (use so st in \<open>simp_all add: rx_idle_def request_state_def s0_def s1_def sdo_ok_def\<close>)
  define s3 where "s3 = s2\<lparr>timeoutTimer := 0, CANrxNew := False, CANtx_data := ?g, sent := sent s @ [?g], toggle := 0,
    sizeTran := 0, bufOffsetWr := 0, bufOffsetRd := 0, state := CO_SDO_ST_DOWNLOAD_SEGMENT_REQ\<rparr>"
  have ex: "sdo_exchange s ?f = Some (sdo_finish CO_SDO_RT_waitingResponse 0 s3)"
  proof (rule sdo_exchange_eq [OF r _ _ _ rx])
    have z: "replicate 8 (0::u8) = [0, 0, 0, 0, 0, 0, 0, 0]" "replicate 4 (0::u8) = [0, 0, 0, 0]"
      by (simp_all add: numeral_eq_Suc)
    show "sdo_tx 0 None (s2\<lparr>timeoutTimer := 0, CANrxNew := False\<rparr>) = Some (CO_SDO_RT_waitingResponse, 0, None, s3)"
      by (simp add: sdo_tx_def Let_def tx_DOWNLOAD_INITIATE_RSP_def tx_defs z request_def s3_def s2_def s1_def s0_def)
  qed (use st in \<open>simp_all add: stores_frame_def s2_def s1_def s0_def\<close>)
  have "downloading s3 (od_mem s) a n [] [] 0 d"
    using b d v io by (simp add: downloading_def s3_def s2_def s1_def s0_def sdo_base_def download_io_def
        stream_defs read_bounded_original)
  moreover have "sdo_ready s3" using r by (simp add: sdo_ready_def s3_def s2_def s1_def s0_def)
  ultimately show thesis
    using that [of s3] ex by (simp add: sdo_finish_def s3_def s2_def s1_def s0_def)
qed


section \<open>What the client gets\<close>

text \<open>A receiver of segments: the bytes each frame carries, joined.\<close>

definition segment_payload :: "u8 list \<Rightarrow> u8 list" where
  "segment_payload f =
     (if f ! 0 AND 0x01 \<noteq> 0 then take (unat (7 - (drop_bit 1 (ucast (f ! 0)) AND 0x07) :: u32)) (drop 1 f) else drop 1 f)"

lemma segment_payload_frame:
  assumes "d \<noteq> []" "t = 0 \<or> t = 0x10"
  shows "segment_payload (segment_frame t d) = take 7 d"
proof -
  note f = segment_frame_facts [OF assms]
  show ?thesis
  proof (cases "length d \<le> 7")
    case True
    then show ?thesis using f(3,6,7) unfolding segment_payload_def by simp
  next
    case False
    then show ?thesis using f(1,3,7) unfolding segment_payload_def by (simp add: min_def)
  qed
qed

lemma segments_payload: "d \<noteq> [] \<Longrightarrow> t = 0 \<or> t = 0x10 \<Longrightarrow> concat (map segment_payload (segments t d)) = d"
proof (induction t d rule: segments.induct)
  case (1 t d)
  show ?case
  proof (cases "length d \<le> 7")
    case True
    then show ?thesis using segment_payload_frame [OF "1.prems"] by (simp add: segments.simps [of t d] segment_frame_def)
  next
    case False
    then have "concat (map segment_payload (segments (toggled t) (drop 7 d))) = drop 7 d"
      using "1.IH" "1.prems" by auto
    then show ?thesis
      using False segment_payload_frame [OF "1.prems"] by (simp add: segments.simps [of t d] segment_frame_def)
  qed
qed

section \<open>Concrete instances\<close>

lemma mem_read_write_eq: "length bs = n \<Longrightarrow> mem_read (mem_write m a bs) a n = bs"
  by (auto simp: mem_read_write_same)

lemma example_server_fields:
  "state example_server = CO_SDO_ST_IDLE" "sdo_ready example_server" "SDO_OD example_server = example_od"
  "od_mem example_server = (\<lambda>a. word_of_nat a)" "sent example_server = []"
  by (simp_all add: example_server_def CO_SDOserver_init_def init_config_def CO_SDOserver_init_canRxTx_def
      canRxTx_idents_def Let_def example_object_def sdo_ready_def)

lemma example_server_base: "sdo_base example_server"
  using sdo_reach_inv [OF example_server_reach example_od_bounded] by (simp add: sdo_inv_def)

lemma example_vars:
  "od_plain_var (SDO_OD example_server) 0x2000 0 100 4 3" "od_plain_var (SDO_OD example_server) 0x2001 0 200 20 3"
proof -
  have s: "od_sorted example_od" by (simp add: example_od_def)
  have "OD_find example_od 0x2000 = Some (example_od ! 0)" "OD_find example_od 0x2001 = Some (example_od ! 1)"
    by (rule OD_find_nth [OF s]; simp add: example_od_def)+
  then show "od_plain_var (SDO_OD example_server) 0x2000 0 100 4 3"
    "od_plain_var (SDO_OD example_server) 0x2001 0 200 20 3"
    by (simp_all add: example_server_fields od_plain_var_def OD_getSub_def OD_getSub_stream_def var_stream_def
        OD_IO_null_def Let_def example_od_def)
qed

theorem sdo_expedited_download_witness:
  "\<exists>s'. sdo_exchange example_server [0x23, 0x00, 0x20, 0, 1, 2, 3, 4] = Some (CO_SDO_RT_ok_communicationEnd, s') \<and>
    mem_read (od_mem s') 100 4 = [1, 2, 3, 4] \<and> od_mem s' 104 = 104 \<and> sent s' = [[0x60, 0x00, 0x20, 0, 0, 0, 0, 0]]"
proof -
  have f: "request (expedited_cmd (length [1, 2, 3, 4 :: u8]) 0x20) 0x2000 0
      ([1, 2, 3, 4] @ replicate (4 - length [1, 2, 3, 4 :: u8]) 0) = [0x23, 0x00, 0x20, 0, 1, 2, 3, 4]"
    by (simp add: request_def expedited_cmd_def)
  have z: "replicate 4 (0::u8) = [0, 0, 0, 0]" by (simp add: numeral_eq_Suc)
  obtain s' where "sdo_exchange example_server [0x23, 0x00, 0x20, 0, 1, 2, 3, 4] = Some (CO_SDO_RT_ok_communicationEnd, s')"
      "od_mem s' = mem_write (od_mem example_server) 100 [1, 2, 3, 4]"
      "sent s' = sent example_server @ [request 0x60 0x2000 0 (replicate 4 0)]"
    using sdo_expedited_download [OF example_server_fields(2,1) example_vars(1), of "[1, 2, 3, 4]", unfolded f] by auto
  moreover have "mem_read (mem_write m 100 [1, 2, 3, 4]) 100 4 = [1, 2, 3, 4]" for m
    by (rule mem_read_write_eq) simp
  ultimately show ?thesis
    by (auto simp: example_server_fields z request_def mem_write_outside)
qed

theorem sdo_expedited_upload_witness:
  "\<exists>s'. sdo_exchange example_server [0x40, 0x00, 0x20, 0, 0, 0, 0, 0] = Some (CO_SDO_RT_ok_communicationEnd, s') \<and>
    sent s' = [[0x43, 0x00, 0x20, 0, 100, 101, 102, 103]]"
proof -
  have z: "replicate 4 (0::u8) = [0, 0, 0, 0]" by (simp add: numeral_eq_Suc)
  have f: "request 0x40 0x2000 0 (replicate 4 0) = [0x40, 0x00, 0x20, 0, 0, 0, 0, 0]"
    by (simp add: request_def z)
  have m: "mem_read word_of_nat 100 4 = [100, 101, 102, 103]" by code_simp
  obtain s' where "sdo_exchange example_server [0x40, 0x00, 0x20, 0, 0, 0, 0, 0] = Some (CO_SDO_RT_ok_communicationEnd, s')"
      "sent s' = sent example_server @ [request (expedited_cmd (unat (4 :: u32)) 0x40) 0x2000 0
        (mem_read (od_mem example_server) 100 (unat (4 :: u32)) @ replicate (4 - unat (4 :: u32)) 0)]"
    using sdo_expedited_upload [OF example_server_base example_server_fields(2,1) example_vars(1), unfolded f] by auto
  then show ?thesis
    by (auto simp: example_server_fields m request_def expedited_cmd_def)
qed

theorem sdo_segmented_upload_witness:
  "\<exists>s'. sdo_session example_server ([0x40, 0x01, 0x20, 0, 0, 0, 0, 0] # map upload_request [0, 0x10, 0]) = Some s' \<and>
    sent s' = [[0x41, 0x01, 0x20, 0, 20, 0, 0, 0], [0x00, 200, 201, 202, 203, 204, 205, 206],
      [0x10, 207, 208, 209, 210, 211, 212, 213], [0x03, 214, 215, 216, 217, 218, 219, 0]]"
proof -
  have z: "replicate 4 (0::u8) = [0, 0, 0, 0]" by (simp add: numeral_eq_Suc)
  have f: "request 0x40 0x2001 0 (replicate 4 0) = [0x40, 0x01, 0x20, 0, 0, 0, 0, 0]"
    by (simp add: request_def z)
  have t: "toggles 0 ((unat (20 :: u32) + 6) div 7) = [0, 0x10, 0]" by code_simp
  have m: "mem_read word_of_nat 200 20 =
      [200, 201, 202, 203, 204, 205, 206, 207, 208, 209, 210, 211, 212, 213, 214, 215, 216, 217, 218, 219]"
    by code_simp
  have g: "request 0x41 0x2001 0 (le_bytes 4 (20 :: u32)) = [0x41, 0x01, 0x20, 0, 20, 0, 0, 0]"
    by code_simp
  obtain s' where "sdo_session example_server (request 0x40 0x2001 0 (replicate 4 0) #
        map upload_request (toggles 0 ((unat (20 :: u32) + 6) div 7))) = Some s'"
      "sent s' = sent example_server @ request 0x41 0x2001 0 (le_bytes 4 (20 :: u32)) #
        segments 0 (mem_read (od_mem example_server) 200 (unat (20 :: u32)))"
    using sdo_segmented_upload [OF example_server_base example_server_fields(2,1) example_vars(2)] by auto
  then show ?thesis unfolding f g t
    by (auto simp: example_server_fields m segments.simps last_segment_def)
qed


end
