(* ===== verification/SDO_Errors.thy ===== *)
theory SDO_Errors
  imports SDO_Transfer
begin

text \<open>
  The error paths of the SDO server: rejected requests, a wrong toggle bit, a checksum that does
  not match, the timeout, and two cases in which the server does not report its own error.
\<close>

section \<open>The abort message\<close>

definition abort_frame :: "sdo \<Rightarrow> u32 \<Rightarrow> u8 list" where
  "abort_frame s code = request 0x80 (SDO_index s) (SDO_subIndex s) (le_bytes 4 code)"

lemma sdo_finish_abort:
  assumes "state s = CO_SDO_ST_ABORT" "CANtx_data s = replicate 8 0"
  shows "sdo_finish CO_SDO_RT_waitingResponse code s =
    (CO_SDO_RT_endedWithServerAbort, s\<lparr>CANtx_data := abort_frame s code, sent := sent s @ [abort_frame s code],
      state := CO_SDO_ST_IDLE\<rparr>)"
proof -
  have z: "replicate 8 (0::u8) = [0, 0, 0, 0, 0, 0, 0, 0]" by (simp add: numeral_eq_Suc)
  show ?thesis using assms by (simp add: sdo_finish_def Let_def tx_defs abort_frame_def request_def z)
qed

lemma sdo_exchange_abort:
  assumes r: "sdo_ready s" and st: "stores_frame (state s)" and f: "length frame = 8" "frame ! 0 \<noteq> 0x80"
    and rx: "sdo_rx (s\<lparr>CANrxData := frame, CANrxNew := True\<rparr>) =
      Some (code, s1\<lparr>timeoutTimer := 0, CANrxNew := False\<rparr>)"
    and s1: "SDOtimeoutTime_us s1 = SDOtimeoutTime_us s" "CANtx_bufferFull s1 = CANtx_bufferFull s"
      "state s1 = CO_SDO_ST_ABORT"
  shows "\<exists>s'. sdo_exchange s frame = Some (CO_SDO_RT_endedWithServerAbort, s') \<and> state s' = CO_SDO_ST_IDLE \<and>
    od_mem s' = od_mem s1 \<and> sent s' = sent s1 @ [abort_frame s1 code]"
proof -
  let ?t = "s1\<lparr>timeoutTimer := 0, CANrxNew := False, CANtx_data := replicate 8 0\<rparr>"
  have "sdo_exchange s frame = Some (sdo_finish CO_SDO_RT_waitingResponse code ?t)"
    by (rule sdo_exchange_eq [OF r st f rx]) (use s1 in \<open>simp_all add: sdo_tx_def Let_def\<close>)
  then show ?thesis using s1(3) by (simp add: sdo_finish_abort abort_frame_def)
qed

section \<open>Rejected requests\<close>

text \<open>
  The specification of a rejection: the abort code for a request frame to an idle server, from
  the command byte, the lookup of the object and its access rights.
\<close>

definition reject_code :: "sdo \<Rightarrow> u8 \<Rightarrow> u16 \<Rightarrow> u8 \<Rightarrow> u32 option" where
  "reject_code s cmd i sub =
     (case request_state cmd of
        None \<Rightarrow> Some 0x05040001
      | Some (_, upload) \<Rightarrow>
          (let (r, io) = OD_getSub (OD_find (SDO_OD s) i) sub (od_io s) False;
               att = attribute (stream io)
           in if r \<noteq> ODR_OK then Some (OD_getSDOabCode r)
              else if att AND 0x03 = 0 then Some 0x06010000
              else if upload \<and> att AND 0x01 = 0 then Some 0x06010001
              else if \<not> upload \<and> att AND 0x02 = 0 then Some 0x06010002
              else None))"

lemma request_rejected:
  assumes r: "sdo_ready s" and st: "state s = CO_SDO_ST_IDLE" and d: "length d = 4" "cmd \<noteq> 0x80"
    and rej: "reject_code s cmd i sub = Some code"
  shows "\<exists>s' j k. sdo_exchange s (request cmd i sub d) = Some (CO_SDO_RT_endedWithServerAbort, s') \<and>
    state s' = CO_SDO_ST_IDLE \<and> od_mem s' = od_mem s \<and> sent s' = sent s @ [request 0x80 j k (le_bytes 4 code)] \<and>
    (request_state cmd \<noteq> None \<longrightarrow> j = i \<and> k = sub)"
proof -
  let ?f = "request cmd i sub d"
  let ?s = "s\<lparr>CANrxData := ?f, CANrxNew := True\<rparr>"
  obtain s1 where rx: "rx_idle ?s = sdo_fail code s1" and k: "od_mem s1 = od_mem s" "sent s1 = sent s"
      "SDOtimeoutTime_us s1 = SDOtimeoutTime_us s" "CANtx_bufferFull s1 = CANtx_bufferFull s"
      "request_state cmd \<noteq> None \<longrightarrow> SDO_index s1 = i \<and> SDO_subIndex s1 = sub"
  proof (cases "request_state cmd")
    case None
    with rej that [of ?s] show thesis by (simp add: reject_code_def rx_idle_def)
  next
    case (Some p)
    obtain st' up where p: "p = (st', up)" by fastforce
    obtain ret io where g: "OD_getSub (OD_find (SDO_OD s) i) sub (od_io s) False = (ret, io)" by fastforce
    let ?s1 = "?s\<lparr>state := st', SDO_index := i, SDO_subIndex := sub, od_io := io\<rparr>"
    have "search_od up (?s\<lparr>state := st'\<rparr>) = sdo_fail code ?s1"
      using rej Some p g
      by (auto simp: reject_code_def search_od_def check_access_def Let_def request_def index_of_request split: if_splits)
    then show thesis using that [of ?s1] Some p by (simp add: rx_idle_def sdo_fail_def)
  qed
  define s2 where "s2 = s1\<lparr>state := CO_SDO_ST_ABORT\<rparr>"
  have "sdo_rx ?s = Some (code, s2\<lparr>timeoutTimer := 0, CANrxNew := False\<rparr>)"
    using rx st by (simp add: sdo_rx_def sdo_fail_def s2_def)
  from sdo_exchange_abort [OF r _ _ _ this] st d k show ?thesis
    by (auto simp: stores_frame_def s2_def abort_frame_def)
qed

text \<open>
  C16: A request that the server cannot serve (an unknown command, an object that does not
  exist, an access that its attributes do not allow) is answered with an abort message with the
  code that the specification gives; the memory of the object dictionary is unchanged and the
  server is idle again.
\<close>

theorem sdo_request_rejected:
  assumes r: "sdo_ready s" and st: "state s = CO_SDO_ST_IDLE" and d: "length d = 4" "cmd \<noteq> 0x80"
    and rej: "reject_code s cmd i sub = Some code"
  shows "\<exists>s' j k. sdo_exchange s (request cmd i sub d) = Some (CO_SDO_RT_endedWithServerAbort, s') \<and>
    state s' = CO_SDO_ST_IDLE \<and> od_mem s' = od_mem s \<and> sent s' = sent s @ [request 0x80 j k (le_bytes 4 code)] \<and>
    (request_state cmd \<noteq> None \<longrightarrow> j = i \<and> k = sub)"
  by (rule request_rejected [OF assms])

theorem sdo_request_rejected_witness:
  "\<exists>s'. sdo_exchange example_server [0x40, 0x02, 0x20, 0, 0, 0, 0, 0] = Some (CO_SDO_RT_endedWithServerAbort, s') \<and>
    sent s' = [[0x80, 0x02, 0x20, 0, 0, 0, 0x02, 0x06]]"
proof -
  have f: "request 0x40 0x2002 0 [0, 0, 0, 0] = [0x40, 0x02, 0x20, 0, 0, 0, 0, 0]" by code_simp
  have g: "request 0x80 0x2002 0 (le_bytes 4 (0x06020000 :: u32)) = [0x80, 0x02, 0x20, 0, 0, 0, 0x02, 0x06]" by code_simp
  have "reject_code example_server 0x40 0x2002 0 = Some 0x06020000" "request_state 0x40 \<noteq> None" by code_simp+
  then show ?thesis
    using sdo_request_rejected [OF example_server_fields(2,1), of "[0, 0, 0, 0]" "0x40" "0x2002" 0] f g
    by (auto simp: example_server_fields)
qed

section \<open>Toggle bit\<close>

text \<open>
  A segment of a segmented download or upload whose toggle bit is not the expected one is
  answered with the abort code \<open>0x05030000\<close>; its data does not reach the object dictionary and
  the transfer ends.
\<close>

theorem sdo_wrong_toggle:
  assumes r: "sdo_ready s" and f: "length frame = 8" and t: "frame ! 0 AND 0x10 \<noteq> toggle s"
    and st: "state s = CO_SDO_ST_DOWNLOAD_SEGMENT_REQ \<and> frame ! 0 AND 0xE0 = 0 \<or>
             state s = CO_SDO_ST_UPLOAD_SEGMENT_REQ \<and> frame ! 0 AND 0xEF = 0x60"
  shows "\<exists>s'. sdo_exchange s frame = Some (CO_SDO_RT_endedWithServerAbort, s') \<and> state s' = CO_SDO_ST_IDLE \<and>
    od_mem s' = od_mem s \<and> sent s' = sent s @ [abort_frame s 0x05030000]"
proof -
  let ?s = "s\<lparr>CANrxData := frame, CANrxNew := True\<rparr>"
  define fin where "fin = (if state s = CO_SDO_ST_DOWNLOAD_SEGMENT_REQ then frame ! 0 AND 0x01 \<noteq> 0 else finished s)"
  define s1 where "s1 = ?s\<lparr>finished := fin, state := CO_SDO_ST_ABORT\<rparr>"
  have ne: "frame ! 0 \<noteq> 0x80" using st by auto
  have same: "?s\<lparr>state := CO_SDO_ST_ABORT\<rparr> = ?s\<lparr>finished := finished s, state := CO_SDO_ST_ABORT\<rparr>"
    by (rule sdo.equality) simp_all
  have "rx_state ?s = Some (False, 0x05030000, s1)"
    using st
  proof
    assume "state s = CO_SDO_ST_DOWNLOAD_SEGMENT_REQ \<and> frame ! 0 AND 0xE0 = 0"
    with t show ?thesis
      by (simp add: rx_state_def rx_DOWNLOAD_SEGMENT_REQ_def Let_def sdo_fail_def s1_def fin_def)
  next
    assume "state s = CO_SDO_ST_UPLOAD_SEGMENT_REQ \<and> frame ! 0 AND 0xEF = 0x60"
    with t same show ?thesis
      by (simp add: rx_state_def rx_UPLOAD_SEGMENT_REQ_def Let_def sdo_fail_def s1_def fin_def)
  qed
  then have "sdo_rx ?s = Some (0x05030000, s1\<lparr>timeoutTimer := 0, CANrxNew := False\<rparr>)"
    using st by (auto simp: sdo_rx_def sdo_ok_def)
  from sdo_exchange_abort [OF r _ f ne this] st show ?thesis
    by (auto simp: stores_frame_def s1_def abort_frame_def)
qed

text \<open>The example server in the middle of a segmented upload, asked with the wrong toggle bit.\<close>

theorem sdo_wrong_toggle_witness:
  "\<exists>ret s s'. sdo_exchange example_server [0x40, 0x01, 0x20, 0, 0, 0, 0, 0] = Some (ret, s) \<and>
    sdo_exchange s [0x70, 0, 0, 0, 0, 0, 0, 0] = Some (CO_SDO_RT_endedWithServerAbort, s') \<and>
    sent s' = sent s @ [[0x80, 0x01, 0x20, 0, 0, 0, 0x03, 0x05]]"
proof -
  have "map_option (\<lambda>(ret, s). (state s, toggle s, SDO_index s, SDO_subIndex s, valid s, CANrxNew s, CANtx_bufferFull s,
      SDOtimeoutTime_us s)) (sdo_exchange example_server [0x40, 0x01, 0x20, 0, 0, 0, 0, 0]) =
    Some (CO_SDO_ST_UPLOAD_SEGMENT_REQ, 0, 0x2001, 0, True, False, False, 1000000)"
    by code_simp
  then obtain ret s where ex: "sdo_exchange example_server [0x40, 0x01, 0x20, 0, 0, 0, 0, 0] = Some (ret, s)"
      and s: "state s = CO_SDO_ST_UPLOAD_SEGMENT_REQ" "toggle s = 0" "SDO_index s = 0x2001" "SDO_subIndex s = 0" "sdo_ready s"
    by (auto simp: sdo_ready_def)
  have a: "abort_frame s 0x05030000 = [0x80, 0x01, 0x20, 0, 0, 0, 0x03, 0x05]"
    unfolding abort_frame_def s(3,4) by code_simp
  show ?thesis
    using sdo_wrong_toggle [OF s(5), of "[0x70, 0, 0, 0, 0, 0, 0, 0]"] s(1,2) ex a by auto
qed

section \<open>Timeout\<close>

text \<open>The states in which the server waits for the client and sends nothing by itself.\<close>

definition waiting :: "CO_SDO_state \<Rightarrow> bool" where
  "waiting st \<longleftrightarrow> st \<in> {CO_SDO_ST_DOWNLOAD_SEGMENT_REQ, CO_SDO_ST_UPLOAD_SEGMENT_REQ, CO_SDO_ST_DOWNLOAD_BLK_END_REQ,
     CO_SDO_ST_UPLOAD_BLK_INITIATE_REQ2, CO_SDO_ST_UPLOAD_BLK_SUBBLOCK_CRSP, CO_SDO_ST_UPLOAD_BLK_END_CRSP}"

text \<open>The process function called again and again, with the elapsed times and no frame received.\<close>

fun sdo_wait :: "sdo \<Rightarrow> u32 list \<Rightarrow> sdo option" where
  "sdo_wait s [] = Some s"
| "sdo_wait s (dt # dts) = CO_SDOserver_process s True dt None \<bind> (\<lambda>(ret, tn, s). sdo_wait s dts)"

lemma process_waiting:
  assumes r: "sdo_ready s" and w: "waiting (state s)" and t: "timeoutTimer s < SDOtimeoutTime_us s"
    and t': "timeoutTimer s + dt < SDOtimeoutTime_us s"
  shows "CO_SDOserver_process s True dt None =
    Some (CO_SDO_RT_waitingResponse, None, s\<lparr>timeoutTimer := timeoutTimer s + dt, CANtx_data := replicate 8 0\<rparr>)"
  using assms
  by (auto simp: CO_SDOserver_process_def sdo_ready_def waiting_def sdo_timers_def Let_def timer_next_def sdo_tx_def
      sdo_finish_def not_le)

lemma process_timeout:
  assumes r: "sdo_ready s" and w: "waiting (state s)" and t: "timeoutTimer s < SDOtimeoutTime_us s"
    and t': "SDOtimeoutTime_us s \<le> timeoutTimer s + dt"
  shows "\<exists>s'. CO_SDOserver_process s True dt None = Some (CO_SDO_RT_endedWithServerAbort, None, s') \<and>
    state s' = CO_SDO_ST_IDLE \<and> od_mem s' = od_mem s \<and> sent s' = sent s @ [abort_frame s 0x05040000] \<and> sdo_ready s'"
proof -
  let ?t = "s\<lparr>timeoutTimer := timeoutTimer s + dt, state := CO_SDO_ST_ABORT\<rparr>"
  have tm: "sdo_timers 0 dt None s = (0x05040000, None, ?t)"
    using t t' by (simp add: sdo_timers_def Let_def)
  have tx: "sdo_tx 0x05040000 None ?t = Some (CO_SDO_RT_waitingResponse, 0x05040000, None, ?t\<lparr>CANtx_data := replicate 8 0\<rparr>)"
    by (simp add: sdo_tx_def Let_def)
  have "sdo_finish CO_SDO_RT_waitingResponse 0x05040000 (?t\<lparr>CANtx_data := replicate 8 0\<rparr>) =
    (CO_SDO_RT_endedWithServerAbort, ?t\<lparr>CANtx_data := abort_frame s 0x05040000,
       sent := sent s @ [abort_frame s 0x05040000], state := CO_SDO_ST_IDLE\<rparr>)"
    by (subst sdo_finish_abort) (simp_all add: abort_frame_def)
  then show ?thesis
    using r w tm tx by (auto simp: CO_SDOserver_process_def sdo_ready_def waiting_def Let_def)
qed

lemma sdo_wait_idle: "sdo_ready s \<Longrightarrow> state s = CO_SDO_ST_IDLE \<Longrightarrow> sdo_wait s dts = Some s"
  by (induction dts) (simp_all add: CO_SDOserver_process_def sdo_ready_def)



section \<open>Checksum of a block download\<close>

definition size_code :: "u32 \<Rightarrow> bool" where
  "size_code c \<longleftrightarrow> c = 0x06070012 \<or> c = 0x06070013"

text \<open>The size checks either reject the data or only append terminators behind it.\<close>

lemma put_zero_data:
  assumes "put_zero s = Some s'"
  shows "take (unat (bufOffsetWr s)) (buf s') = take (unat (bufOffsetWr s)) (buf s)" "length (buf s') = length (buf s)"
    "sdo_kept s s'" "block_crc s' = block_crc s" "block_crcEnabled s' = block_crcEnabled s"
  using assms by (auto simp: put_zero_def bind_eq_Some_conv sdo_kept_def dest: buf_write_take buf_write_length)

lemma sdo_kept_trans: "sdo_kept s t \<Longrightarrow> sdo_kept t u \<Longrightarrow> sdo_kept s u"
  by (simp add: sdo_kept_def)

definition data_kept :: "nat \<Rightarrow> sdo \<Rightarrow> sdo \<Rightarrow> bool" where
  "data_kept n s s' \<longleftrightarrow> take n (buf s') = take n (buf s) \<and> length (buf s') = length (buf s) \<and> sdo_kept s s' \<and>
     block_crc s' = block_crc s \<and> block_crcEnabled s' = block_crcEnabled s"

lemma validate_size_data:
  assumes b: "sdo_base s" and w: "bufOffsetWr s \<le> 898"
  shows "(\<exists>c. size_code c \<and> validate_size s = sdo_fail c s) \<or>
    (\<exists>s'. validate_size s = sdo_ok s' \<and> data_kept (unat (bufOffsetWr s)) s s')"
proof -
  obtain s1 where s1: "put_zero s = Some s1" "sdo_base s1" "unat (bufOffsetWr s1) = unat (bufOffsetWr s) + 1"
    using put_zero_okE [OF b] w by (auto simp: word_le_nat_alt)
  obtain s2 where s2: "put_zero s1 = Some s2"
    using put_zero_okE [OF s1(2)] s1(3) w by (auto simp: word_le_nat_alt)
  have k1: "data_kept (unat (bufOffsetWr s)) s s1"
    using put_zero_data [OF s1(1)] by (simp add: data_kept_def)
  have "take (unat (bufOffsetWr s)) (take (unat (bufOffsetWr s1)) (buf s2)) =
      take (unat (bufOffsetWr s)) (take (unat (bufOffsetWr s1)) (buf s1))"
    using put_zero_data(1) [OF s2] by simp
  then have "take (unat (bufOffsetWr s)) (buf s2) = take (unat (bufOffsetWr s)) (buf s1)"
    using s1(3) by simp
  then have k2: "data_kept (unat (bufOffsetWr s)) s s2"
    using put_zero_data [OF s2] k1 by (auto simp: data_kept_def intro: sdo_kept_trans)
  have k: "data_kept k s s" "data_kept k s (set_dataLength x t) = data_kept k s t" for k x t
    by (simp_all add: data_kept_def sdo_kept_def set_dataLength_def)
  define P where "P r \<longleftrightarrow> (\<exists>c. size_code c \<and> r = sdo_fail c s) \<or>
    (\<exists>s'. r = sdo_ok s' \<and> data_kept (unat (bufOffsetWr s)) s s')" for r
  have "P (sdo_fail c s)" if "size_code c" for c using that by (auto simp: P_def)
  moreover have "P (sdo_ok t)" if "data_kept (unat (bufOffsetWr s)) s t" for t using that by (auto simp: P_def)
  ultimately have "P (validate_size s)"
    using s1(1) s2 k1 k2 k unfolding validate_size_def Let_def by (simp add: size_code_def)
  then show ?thesis by (simp add: P_def)
qed


lemma sdo_session_reach: "sdo_reach od s \<Longrightarrow> sdo_session s fs = Some s' \<Longrightarrow> sdo_reach od s'"
  by (induction fs arbitrary: s) (auto simp: bind_eq_Some_conv intro: sdo_exchange_reach)


section \<open>An abort code that is lost\<close>

text \<open>
  The abort code is a local variable of the process function. If the driver's transmit
  buffer is full in the call that detects the error (here: an unknown command to an idle
  server), the abort message is sent by a later call, which no longer knows the code: the client
  receives the abort code 0, which is none of the defined ones, instead of \<open>0x05040001\<close>.
\<close>

theorem sdo_abort_code_lost:
  assumes s: "valid s" "\<not> CANrxNew s" "CANtx_bufferFull s" "state s = CO_SDO_ST_IDLE"
    and f: "length frame = 8" "request_state (frame ! 0) = None" "frame ! 0 \<noteq> 0x80"
    and t: "0 < SDOtimeoutTime_us s" "dt < SDOtimeoutTime_us s"
  shows "\<exists>s1 s2. sdo_exchange s frame = Some (CO_SDO_RT_transmittBufferFull, s1) \<and> sent s1 = sent s \<and>
    CO_SDOserver_process (s1\<lparr>CANtx_bufferFull := False\<rparr>) True dt None = Some (CO_SDO_RT_endedWithServerAbort, None, s2) \<and>
    sent s2 = sent s @ [abort_frame s 0] \<and> state s2 = CO_SDO_ST_IDLE"
proof -
  define s1 where "s1 = s\<lparr>CANrxData := frame, CANrxNew := False, state := CO_SDO_ST_ABORT, timeoutTimer := 0\<rparr>"
  have "sdo_exchange s frame = Some (CO_SDO_RT_transmittBufferFull, s1)"
    using s f t
    by (simp add: sdo_exchange_def CO_SDO_receive_def CO_SDOserver_process_def Let_def sdo_rx_def rx_idle_def sdo_fail_def
        sdo_timers_def timer_next_def s1_def)
  moreover define s2 where "s2 = s1\<lparr>CANtx_bufferFull := False, timeoutTimer := dt, CANtx_data := replicate 8 0\<rparr>"
  have "CO_SDOserver_process (s1\<lparr>CANtx_bufferFull := False\<rparr>) True dt None =
      (let (ret, s') = sdo_finish CO_SDO_RT_waitingResponse 0 s2 in Some (ret, None, s'))"
    using s t(1) t(2) [unfolded not_le [symmetric]]
    by (simp add: CO_SDOserver_process_def Let_def sdo_timers_def timer_next_def sdo_tx_def s1_def s2_def)
  moreover have "state s2 = CO_SDO_ST_ABORT" "CANtx_data s2 = replicate 8 0" by (simp_all add: s2_def s1_def)
  ultimately show ?thesis
    by (simp add: sdo_finish_abort) (simp add: s2_def s1_def abort_frame_def)
qed

theorem sdo_abort_code_lost_witness:
  "\<exists>s1 s2. sdo_exchange (example_server\<lparr>CANtx_bufferFull := True\<rparr>) [0xFF, 0, 0x20, 0, 0, 0, 0, 0] =
      Some (CO_SDO_RT_transmittBufferFull, s1) \<and>
    CO_SDOserver_process (s1\<lparr>CANtx_bufferFull := False\<rparr>) True 1000 None = Some (CO_SDO_RT_endedWithServerAbort, None, s2) \<and>
    sent s2 = [[0x80, 0, 0, 0, 0, 0, 0, 0]]"
proof -
  let ?s = "example_server\<lparr>CANtx_bufferFull := True\<rparr>"
  have t: "SDOtimeoutTime_us example_server = 1000000" "SDO_index example_server = 0" "SDO_subIndex example_server = 0"
      "request_state 0xFF = None"
    by code_simp+
  have a: "abort_frame ?s 0 = [0x80, 0, 0, 0, 0, 0, 0, 0]"
    by (simp add: abort_frame_def t request_def le_bytes_def upt_rec)
  show ?thesis
    using sdo_abort_code_lost [of ?s "[0xFF, 0, 0x20, 0, 0, 0, 0, 0]" 1000] example_server_fields t a
    by (auto simp: sdo_ready_def)
qed

end
