(* ===== verification/Ring.thy ===== *)
theory Ring
  imports CO_Prelude
begin

text \<open>
  Circular buffers: an array of \<open>n\<close> cells with pointers that wrap around, and the list of the
  cells from a pointer on. The byte buffer of \<open>301/CO_fifo.c\<close> and the message buffer of
  \<open>301/CO_Emergency.c\<close> are both of this kind.
\<close>

definition ring_next :: "nat \<Rightarrow> nat \<Rightarrow> nat" where
  "ring_next n p = (if p + 1 = n then 0 else p + 1)"

definition ring_add :: "nat \<Rightarrow> nat \<Rightarrow> nat \<Rightarrow> nat" where
  "ring_add n p k = (p + k) mod n"

text \<open>The number of cells from \<open>p\<close> up to, and without, \<open>q\<close>.\<close>

definition ring_dist :: "nat \<Rightarrow> nat \<Rightarrow> nat \<Rightarrow> nat" where
  "ring_dist n p q = (if p \<le> q then q - p else q + n - p)"

definition ring_cells :: "nat \<Rightarrow> 'a list \<Rightarrow> nat \<Rightarrow> nat \<Rightarrow> 'a list" where
  "ring_cells n xs p k = map (\<lambda>i. xs ! ((p + i) mod n)) [0..<k]"

section \<open>Pointers\<close>

lemma ring_next_less: "p < n \<Longrightarrow> ring_next n p < n"
  by (auto simp: ring_next_def)

lemma ring_add_Suc: "p < n \<Longrightarrow> ring_add n (ring_next n p) k = ring_add n p (Suc k)"
  by (auto simp: ring_add_def ring_next_def) (metis add_Suc_right mod_add_self1 plus_1_eq_Suc add.commute add_Suc)

lemma ring_add_0 [simp]: "p < n \<Longrightarrow> ring_add n p 0 = p"
  by (simp add: ring_add_def)

lemma ring_add_less: "0 < n \<Longrightarrow> ring_add n p k < n"
  by (simp add: ring_add_def)

lemma ring_add_add: "ring_add n (ring_add n p j) k = ring_add n p (j + k)"
  by (simp add: ring_add_def mod_add_left_eq add.assoc)

lemma ring_dist_0 [simp]: "ring_dist n p p = 0"
  by (simp add: ring_dist_def)

lemma ring_dist_eq_0: "p < n \<Longrightarrow> q < n \<Longrightarrow> ring_dist n p q = 0 \<longleftrightarrow> p = q"
  by (auto simp: ring_dist_def)

lemma ring_dist_next: "p < n \<Longrightarrow> q < n \<Longrightarrow> p \<noteq> q \<Longrightarrow> ring_dist n p q = Suc (ring_dist n (ring_next n p) q)"
  by (auto simp: ring_dist_def ring_next_def)

lemma ring_dist_bound: "p < n \<Longrightarrow> q < n \<Longrightarrow> ring_dist n p q < n"
  by (auto simp: ring_dist_def)

lemma ring_dist_end: "p < n \<Longrightarrow> q < n \<Longrightarrow> (p + ring_dist n p q) mod n = q"
  by (auto simp: ring_dist_def)

lemma ring_dist_add: "p < n \<Longrightarrow> k < n \<Longrightarrow> ring_dist n p (ring_add n p k) = k"
  by (cases "p + k < n") (auto simp: ring_dist_def ring_add_def le_mod_geq)

lemma ring_dist_drop:
  assumes "p < n" "q < n" "k \<le> ring_dist n p q"
  shows "ring_dist n (ring_add n p k) q = ring_dist n p q - k"
  using assms by (cases "p + k < n") (auto simp: ring_dist_def ring_add_def le_mod_geq split: if_splits)

text \<open>The pointer can advance while it does not run into the other one.\<close>

lemma ring_dist_grow:
  "p < n \<Longrightarrow> q < n \<Longrightarrow> ring_next n q \<noteq> p \<Longrightarrow> ring_dist n p (ring_next n q) = Suc (ring_dist n p q)"
  by (auto simp: ring_dist_def ring_next_def split: if_splits)

lemma ring_full: "p < n \<Longrightarrow> q < n \<Longrightarrow> 2 \<le> n \<Longrightarrow> ring_next n q = p \<longleftrightarrow> ring_dist n p q = n - 1"
  by (auto simp: ring_dist_def ring_next_def split: if_splits)

lemma ring_cell_neq: "p < n \<Longrightarrow> q < n \<Longrightarrow> i < ring_dist n p q \<Longrightarrow> (p + i) mod n \<noteq> q"
proof (cases "p + i < n")
  case False
  moreover assume "p < n" "q < n" "i < ring_dist n p q"
  moreover from this have "p + i < n + n" by (auto simp: ring_dist_def split: if_splits)
  ultimately have "(p + i) mod n = p + i - n" by (simp add: le_mod_geq)
  with \<open>i < ring_dist n p q\<close> \<open>q < n\<close> False show ?thesis by (auto simp: ring_dist_def split: if_splits)
qed (auto simp: ring_dist_def split: if_splits)

section \<open>Cells\<close>

lemma length_ring_cells [simp]: "length (ring_cells n xs p k) = k"
  by (simp add: ring_cells_def)

lemma ring_cells_0 [simp]: "ring_cells n xs p 0 = []"
  by (simp add: ring_cells_def)

lemma ring_cells_Suc:
  assumes "p < n"
  shows "ring_cells n xs p (Suc k) = xs ! p # ring_cells n xs (ring_next n p) k"
proof -
  have "(ring_next n p + i) mod n = (p + Suc i) mod n" for i
  proof (cases "p + 1 = n")
    case True
    then have "p + Suc i = n + i" by simp
    then have "(p + Suc i) mod n = i mod n" by (simp only: mod_add_self1)
    then show ?thesis using True by (simp add: ring_next_def del: add_Suc_right)
  qed (simp add: ring_next_def)
  moreover have "[0..<Suc k] = 0 # map Suc [0..<k]" by (simp add: map_Suc_upt upt_conv_Cons del: upt_Suc)
  ultimately show ?thesis using assms by (simp add: ring_cells_def comp_def del: upt_Suc)
qed

lemma ring_cells_snoc: "ring_cells n xs p (Suc k) = ring_cells n xs p k @ [xs ! ((p + k) mod n)]"
  by (simp add: ring_cells_def)

lemma take_ring_cells: "k \<le> m \<Longrightarrow> take k (ring_cells n xs p m) = ring_cells n xs p k"
  by (simp add: ring_cells_def take_map min_def)

lemma drop_ring_cells: "drop k (ring_cells n xs p m) = ring_cells n xs (ring_add n p k) (m - k)"
proof (rule nth_equalityI)
  fix i assume "i < length (drop k (ring_cells n xs p m))"
  then have "k + i < m" "i < m - k" by simp_all
  then show "drop k (ring_cells n xs p m) ! i = ring_cells n xs (ring_add n p k) (m - k) ! i"
    by (simp add: ring_cells_def ring_add_def mod_add_left_eq add.assoc)
qed simp

text \<open>A value written at the end pointer is behind the cells before it.\<close>

lemma ring_cells_write_end:
  assumes "p < n" "q < n" "length xs = n"
  shows "ring_cells n (xs[q := v]) p (Suc (ring_dist n p q)) = ring_cells n xs p (ring_dist n p q) @ [v]"
proof -
  have "ring_cells n (xs[q := v]) p (ring_dist n p q) = ring_cells n xs p (ring_dist n p q)"
    using not_sym [OF ring_cell_neq [OF assms(1,2)]] by (simp add: ring_cells_def)
  then show ?thesis using assms ring_dist_end [OF assms(1,2)] by (simp add: ring_cells_snoc)
qed

end
