(* ===== verification/Fifo.thy ===== *)
theory Fifo
  imports Crc16 Ring
begin

text \<open>
  The circular buffer (\<open>301/CO_fifo.c\<close>, \<open>301/CO_fifo.h\<close>): single bytes, blocks with a running
  checksum, the alternate read pointer with which data is read without being consumed, and the
  search for the end of a command line. Sizes and pointers (\<open>size_t\<close>) are natural numbers: they
  stay below the size of the buffer, which fits an \<open>int\<close> as the casts of the source require.

  The contents of the buffer are a list. \<open>byte_queue\<close> is the contract of a bounded queue of
  bytes; blocks and arbitrary interleavings of writes and reads are treated there, and the
  circular buffer is an instance.
\<close>

section \<open>The object and its operations\<close>

record fifo =
  fbuf :: "u8 list"
  bufSize :: nat
  writePtr :: nat
  readPtr :: nat
  altReadPtr :: nat
  started :: bool
  aux :: u32

definition DELIM_COMMAND :: u8 where "DELIM_COMMAND = 10"
definition DELIM_COMMENT :: u8 where "DELIM_COMMENT = 35"

definition CO_fifo_init :: "fifo \<Rightarrow> u8 list \<Rightarrow> nat \<Rightarrow> fifo" where
  "CO_fifo_init f b n =
     (if n < 2 then f else f\<lparr>readPtr := 0, writePtr := 0, fbuf := b, bufSize := n\<rparr>)"

definition CO_fifo_reset :: "fifo \<Rightarrow> fifo" where
  "CO_fifo_reset f = f\<lparr>readPtr := 0, writePtr := 0, started := False\<rparr>"

definition CO_fifo_purge :: "fifo \<Rightarrow> bool \<times> fifo" where
  "CO_fifo_purge f =
     (if readPtr f \<noteq> writePtr f then (True, f\<lparr>readPtr := 0, writePtr := 0\<rparr>) else (False, f))"

definition CO_fifo_getSpace :: "fifo \<Rightarrow> nat" where
  "CO_fifo_getSpace f =
     (let sizeLeft = int (readPtr f) - int (writePtr f) - 1 in
      nat (if sizeLeft < 0 then sizeLeft + int (bufSize f) else sizeLeft))"

definition CO_fifo_getOccupied :: "fifo \<Rightarrow> nat" where
  "CO_fifo_getOccupied f =
     (let sizeOccupied = int (writePtr f) - int (readPtr f) in
      nat (if sizeOccupied < 0 then sizeOccupied + int (bufSize f) else sizeOccupied))"

definition CO_fifo_altGetOccupied :: "fifo \<Rightarrow> nat" where
  "CO_fifo_altGetOccupied f =
     (let sizeOccupied = int (writePtr f) - int (altReadPtr f) in
      nat (if sizeOccupied < 0 then sizeOccupied + int (bufSize f) else sizeOccupied))"

text \<open>The increment of a pointer into the buffer.\<close>

definition ptr_next :: "fifo \<Rightarrow> nat \<Rightarrow> nat" where
  "ptr_next f p = (if p + 1 = bufSize f then 0 else p + 1)"

definition fifo_full :: "fifo \<Rightarrow> bool" where
  "fifo_full f \<longleftrightarrow> writePtr f + 1 = readPtr f \<or> (writePtr f + 1 = bufSize f \<and> readPtr f = 0)"

definition CO_fifo_putc :: "fifo \<Rightarrow> u8 \<Rightarrow> bool \<times> fifo" where
  "CO_fifo_putc f c =
     (if \<not> fifo_full f
      then (True, f\<lparr>fbuf := (fbuf f)[writePtr f := c], writePtr := ptr_next f (writePtr f)\<rparr>)
      else (False, f))"

definition CO_fifo_putc_ov :: "fifo \<Rightarrow> u8 \<Rightarrow> fifo" where
  "CO_fifo_putc_ov f c =
     (let f = f\<lparr>fbuf := (fbuf f)[writePtr f := c], writePtr := ptr_next f (writePtr f)\<rparr> in
      if readPtr f = writePtr f then f\<lparr>readPtr := ptr_next f (readPtr f)\<rparr> else f)"

definition CO_fifo_getc :: "fifo \<Rightarrow> u8 option \<times> fifo" where
  "CO_fifo_getc f =
     (if readPtr f \<noteq> writePtr f
      then (Some (fbuf f ! readPtr f), f\<lparr>readPtr := ptr_next f (readPtr f)\<rparr>)
      else (None, f))"

text \<open>
  \<open>CO_fifo_write\<close>: the number of bytes copied, the object, and the checksum if one is passed.
\<close>

fun CO_fifo_write :: "fifo \<Rightarrow> u8 list \<Rightarrow> u16 option \<Rightarrow> nat \<times> fifo \<times> u16 option" where
  "CO_fifo_write f [] crc = (0, f, crc)"
| "CO_fifo_write f (b # bs) crc =
     (if fifo_full f then (0, f, crc)
      else
        let f = f\<lparr>fbuf := (fbuf f)[writePtr f := b], writePtr := ptr_next f (writePtr f)\<rparr>;
            (k, f, crc) = CO_fifo_write f bs (map_option (\<lambda>c. crc16_ccitt_single c b) crc)
        in (k + 1, f, crc))"

text \<open>
  \<open>CO_fifo_read\<close>: the bytes copied, whether the command delimiter ended the read (only if the
  caller passes \<open>eof\<close>), and the object.
\<close>

fun CO_fifo_read :: "fifo \<Rightarrow> nat \<Rightarrow> bool \<Rightarrow> u8 list \<times> bool \<times> fifo" where
  "CO_fifo_read f 0 eof = ([], False, f)"
| "CO_fifo_read f (Suc i) eof =
     (if readPtr f = writePtr f then ([], False, f)
      else
        let c = fbuf f ! readPtr f; f = f\<lparr>readPtr := ptr_next f (readPtr f)\<rparr> in
        if eof \<and> c = DELIM_COMMAND then ([c], True, f)
        else let (cs, e, f) = CO_fifo_read f i eof in (c # cs, e, f))"

fun altBegin_loop :: "fifo \<Rightarrow> nat \<Rightarrow> nat \<times> fifo" where
  "altBegin_loop f 0 = (0, f)"
| "altBegin_loop f (Suc i) =
     (if altReadPtr f = writePtr f then (0, f)
      else let (k, f) = altBegin_loop (f\<lparr>altReadPtr := ptr_next f (altReadPtr f)\<rparr>) i in (k + 1, f))"

definition CO_fifo_altBegin :: "fifo \<Rightarrow> nat \<Rightarrow> nat \<times> fifo" where
  "CO_fifo_altBegin f offset = altBegin_loop (f\<lparr>altReadPtr := readPtr f\<rparr>) offset"

text \<open>The loop of \<open>CO_fifo_altFinish\<close> with a checksum; it may not end if the pointers are bad.\<close>

partial_function (option) altFinish_loop :: "fifo \<Rightarrow> u16 \<Rightarrow> (fifo \<times> u16) option" where
  "altFinish_loop f crc =
     (if readPtr f \<noteq> altReadPtr f
      then altFinish_loop (f\<lparr>readPtr := ptr_next f (readPtr f)\<rparr>) (crc16_ccitt_single crc (fbuf f ! readPtr f))
      else Some (f, crc))"

definition CO_fifo_altFinish :: "fifo \<Rightarrow> u16 option \<Rightarrow> (fifo \<times> u16 option) option" where
  "CO_fifo_altFinish f crc =
     (case crc of
        None \<Rightarrow> Some (f\<lparr>readPtr := altReadPtr f\<rparr>, None)
      | Some c \<Rightarrow> map_option (\<lambda>(f, c). (f, Some c)) (altFinish_loop f c))"

fun CO_fifo_altRead :: "fifo \<Rightarrow> nat \<Rightarrow> u8 list \<times> fifo" where
  "CO_fifo_altRead f 0 = ([], f)"
| "CO_fifo_altRead f (Suc i) =
     (if altReadPtr f = writePtr f then ([], f)
      else
        let c = fbuf f ! altReadPtr f;
            (cs, f) = CO_fifo_altRead (f\<lparr>altReadPtr := ptr_next f (altReadPtr f)\<rparr>) i
        in (c # cs, f))"

text \<open>\<open>memchr\<close> of the command delimiter in \<open>count\<close> bytes from \<open>start\<close>: its position in the buffer.\<close>

definition find_delim :: "u8 list \<Rightarrow> nat \<Rightarrow> nat \<Rightarrow> nat option" where
  "find_delim b start count = find (\<lambda>i. b ! i = DELIM_COMMAND) [start..<start + count]"

definition CO_fifo_CommSearch :: "fifo \<Rightarrow> bool \<Rightarrow> bool \<times> fifo" where
  "CO_fifo_CommSearch f clear =
     (if readPtr f = writePtr f then (False, f)
      else
        let count = (if readPtr f < writePtr f then writePtr f - readPtr f else bufSize f - readPtr f);
            commandEnd = find_delim (fbuf f) (readPtr f) count;
            (newCommand, commandEnd) =
              (if commandEnd \<noteq> None then (True, commandEnd)
               else if readPtr f > writePtr f then
                 let commandEnd = find_delim (fbuf f) 0 (writePtr f) in
                 (commandEnd \<noteq> None \<or> readPtr f = writePtr f + 1, commandEnd)
               else (readPtr f = 0 \<and> writePtr f = bufSize f - 1, None))
        in (newCommand,
            if clear then
              (case commandEnd of
                 Some p \<Rightarrow> f\<lparr>readPtr := (if p + 1 = bufSize f then 0 else p + 1)\<rparr>
               | None \<Rightarrow> f\<lparr>readPtr := writePtr f\<rparr>)
            else f))"

text \<open>\<open>isgraph\<close> of the C locale.\<close>

definition isgraph :: "u8 \<Rightarrow> bool" where
  "isgraph c \<longleftrightarrow> 33 \<le> c \<and> c \<le> 126"

partial_function (option) CO_fifo_trimSpaces :: "fifo \<Rightarrow> bool \<Rightarrow> (bool \<times> bool \<times> fifo) option" where
  "CO_fifo_trimSpaces f insideComment =
     (if readPtr f \<noteq> writePtr f then
        let c = fbuf f ! readPtr f; insideComment = (insideComment \<or> c = DELIM_COMMENT) in
        if c \<noteq> DELIM_COMMENT \<and> isgraph c \<and> \<not> insideComment then Some (False, insideComment, f)
        else
          let f = f\<lparr>readPtr := ptr_next f (readPtr f)\<rparr> in
          if c = DELIM_COMMAND then Some (True, False, f) else CO_fifo_trimSpaces f insideComment
      else Some (False, insideComment, f))"

section \<open>Bounded queues of bytes\<close>

text \<open>Blocks of bytes put into and taken from a queue one by one, until it refuses.\<close>

fun put_all :: "('q \<Rightarrow> u8 \<Rightarrow> bool \<times> 'q) \<Rightarrow> 'q \<Rightarrow> u8 list \<Rightarrow> nat \<times> 'q" where
  "put_all put q [] = (0, q)"
| "put_all put q (b # bs) =
     (let (ok, q') = put q b in
      if ok then let (k, q'') = put_all put q' bs in (k + 1, q'') else (0, q'))"

fun get_up_to :: "('q \<Rightarrow> u8 option \<times> 'q) \<Rightarrow> 'q \<Rightarrow> nat \<Rightarrow> u8 list \<times> 'q" where
  "get_up_to get q 0 = ([], q)"
| "get_up_to get q (Suc n) =
     (case get q of
        (None, q') \<Rightarrow> ([], q')
      | (Some b, q') \<Rightarrow> let (bs, q'') = get_up_to get q' n in (b # bs, q''))"

datatype queue_op = Put "u8 list" | Get nat

text \<open>A sequence of operations: the bytes accepted, the bytes delivered, the final queue.\<close>

fun queue_run :: "('q \<Rightarrow> u8 \<Rightarrow> bool \<times> 'q) \<Rightarrow> ('q \<Rightarrow> u8 option \<times> 'q) \<Rightarrow> 'q \<Rightarrow> queue_op list \<Rightarrow> u8 list \<times> u8 list \<times> 'q" where
  "queue_run put get q [] = ([], [], q)"
| "queue_run put get q (Put bs # ops) =
     (let (k, q') = put_all put q bs; (acc, del, q'') = queue_run put get q' ops in (take k bs @ acc, del, q''))"
| "queue_run put get q (Get n # ops) =
     (let (bs, q') = get_up_to get q n; (acc, del, q'') = queue_run put get q' ops in (acc, bs @ del, q''))"

locale byte_queue =
  fixes qinv :: "'q \<Rightarrow> bool"
    and content :: "'q \<Rightarrow> u8 list"
    and capacity :: "'q \<Rightarrow> nat"
    and put :: "'q \<Rightarrow> u8 \<Rightarrow> bool \<times> 'q"
    and get :: "'q \<Rightarrow> u8 option \<times> 'q"
  assumes bounded: "qinv q \<Longrightarrow> length (content q) \<le> capacity q"
    and put_room: "qinv q \<Longrightarrow> length (content q) < capacity q \<Longrightarrow>
      \<exists>q'. put q b = (True, q') \<and> qinv q' \<and> content q' = content q @ [b] \<and> capacity q' = capacity q"
    and put_full: "qinv q \<Longrightarrow> length (content q) = capacity q \<Longrightarrow> put q b = (False, q)"
    and get_empty: "qinv q \<Longrightarrow> content q = [] \<Longrightarrow> get q = (None, q)"
    and get_Cons: "qinv q \<Longrightarrow> content q = b # bs \<Longrightarrow>
      \<exists>q'. get q = (Some b, q') \<and> qinv q' \<and> content q' = bs \<and> capacity q' = capacity q"
begin

lemma put_all_content:
  "qinv q \<Longrightarrow> \<exists>q'. put_all put q bs = (min (length bs) (capacity q - length (content q)), q') \<and> qinv q' \<and>
     content q' = content q @ take (capacity q - length (content q)) bs \<and> capacity q' = capacity q"
proof (induction bs arbitrary: q)
  case Nil
  then show ?case by simp
next
  case (Cons b bs)
  show ?case
  proof (cases "length (content q) < capacity q")
    case True
    then obtain q1 where q1: "put q b = (True, q1)" "qinv q1" "content q1 = content q @ [b]" "capacity q1 = capacity q"
      using put_room [OF Cons.prems True] by blast
    have k: "capacity q - length (content q) = Suc (capacity q1 - length (content q1))"
      using True q1 by simp
    from Cons.IH [OF q1(2)] show ?thesis unfolding k using q1 by auto
  next
    case False
    then have "length (content q) = capacity q" using bounded [OF Cons.prems] by simp
    with put_full [OF Cons.prems this] Cons.prems show ?thesis by simp
  qed
qed

lemma get_up_to_content:
  "qinv q \<Longrightarrow> \<exists>q'. get_up_to get q n = (take n (content q), q') \<and> qinv q' \<and>
     content q' = drop n (content q) \<and> capacity q' = capacity q"
proof (induction n arbitrary: q)
  case 0
  then show ?case by simp
next
  case (Suc n)
  show ?case
  proof (cases "content q")
    case Nil
    then show ?thesis using get_empty [OF Suc.prems] Suc.prems by simp
  next
    case (Cons b bs)
    then obtain q1 where q1: "get q = (Some b, q1)" "qinv q1" "content q1 = bs" "capacity q1 = capacity q"
      using get_Cons [OF Suc.prems] by blast
    from Suc.IH [OF q1(2)] show ?thesis using q1 Cons by auto
  qed
qed

lemma queue_run_order:
  "qinv q \<Longrightarrow> \<exists>acc del q'. queue_run put get q ops = (acc, del, q') \<and> qinv q' \<and>
     del @ content q' = content q @ acc \<and> length (content q') \<le> capacity q"
proof (induction ops arbitrary: q)
  case Nil
  then show ?case using bounded by simp
next
  case (Cons opr ops)
  show ?case
  proof (cases opr)
    case (Put bs)
    define r where "r = capacity q - length (content q)"
    obtain q1 where q1: "put_all put q bs = (min (length bs) r, q1)" "qinv q1"
        "content q1 = content q @ take r bs" "capacity q1 = capacity q"
      using put_all_content [OF Cons.prems, of bs] by (auto simp: r_def)
    have t: "take (min (length bs) r) bs = take r bs" by (simp add: min_def)
    from Cons.IH [OF q1(2)] show ?thesis using q1 t by (auto simp: Put)
  next
    case (Get n)
    obtain q1 where q1: "get_up_to get q n = (take n (content q), q1)" "qinv q1"
        "content q1 = drop n (content q)" "capacity q1 = capacity q"
      using get_up_to_content [OF Cons.prems] by blast
    from Cons.IH [OF q1(2)] obtain acc del q2 where r: "queue_run put get q1 ops = (acc, del, q2)" "qinv q2"
        "del @ content q2 = drop n (content q) @ acc" "length (content q2) \<le> capacity q"
      unfolding q1(3,4) by blast
    have "(take n (content q) @ del) @ content q2 = content q @ acc"
      using r(3) by (metis append.assoc append_take_drop_id)
    then show ?thesis using q1(1) r by (simp add: Get)
  qed
qed

end

section \<open>The contents of the circular buffer\<close>

definition fifo_inv :: "fifo \<Rightarrow> bool" where
  "fifo_inv f \<longleftrightarrow> 2 \<le> bufSize f \<and> length (fbuf f) = bufSize f \<and> readPtr f < bufSize f \<and> writePtr f < bufSize f"

abbreviation ptr_dist :: "fifo \<Rightarrow> nat \<Rightarrow> nat \<Rightarrow> nat" where
  "ptr_dist f \<equiv> ring_dist (bufSize f)"

abbreviation ptr_add :: "fifo \<Rightarrow> nat \<Rightarrow> nat \<Rightarrow> nat" where
  "ptr_add f \<equiv> ring_add (bufSize f)"

abbreviation cells :: "fifo \<Rightarrow> nat \<Rightarrow> nat \<Rightarrow> u8 list" where
  "cells f \<equiv> ring_cells (bufSize f) (fbuf f)"

definition contents :: "fifo \<Rightarrow> u8 list" where
  "contents f = cells f (readPtr f) (ptr_dist f (readPtr f) (writePtr f))"

definition fifo_capacity :: "fifo \<Rightarrow> nat" where
  "fifo_capacity f = bufSize f - 1"

lemma ptr_next_ring: "ptr_next f p = ring_next (bufSize f) p"
  by (simp add: ptr_next_def ring_next_def)

lemma ptr_next_upd [simp]:
  "ptr_next (f\<lparr>writePtr := x\<rparr>) p = ptr_next f p" "ptr_next (f\<lparr>readPtr := x\<rparr>) p = ptr_next f p"
  "ptr_next (f\<lparr>fbuf := b\<rparr>) p = ptr_next f p"
  by (simp_all add: ptr_next_def)

lemma length_contents: "length (contents f) = ptr_dist f (readPtr f) (writePtr f)"
  by (simp add: contents_def)

lemma contents_bounded: "fifo_inv f \<Longrightarrow> length (contents f) \<le> fifo_capacity f"
  by (auto simp: length_contents fifo_inv_def fifo_capacity_def ring_dist_def)

lemma fifo_full_iff: "fifo_inv f \<Longrightarrow> fifo_full f \<longleftrightarrow> length (contents f) = fifo_capacity f"
  by (auto simp: length_contents fifo_inv_def fifo_capacity_def ring_dist_def fifo_full_def)

text \<open>A byte written at the write pointer is the last of the contents.\<close>

lemma contents_put:
  fixes c :: u8
  assumes i: "fifo_inv f" and n: "\<not> fifo_full f"
  defines "f' \<equiv> f\<lparr>fbuf := (fbuf f)[writePtr f := c], writePtr := ptr_next f (writePtr f)\<rparr>"
  shows "fifo_inv f'" "contents f' = contents f @ [c]"
proof -
  show "fifo_inv f'" using i by (simp add: fifo_inv_def f'_def ptr_next_ring ring_next_less)
  have r: "readPtr f < bufSize f" "writePtr f < bufSize f" "length (fbuf f) = bufSize f"
    using i by (auto simp: fifo_inv_def)
  have "ring_next (bufSize f) (writePtr f) \<noteq> readPtr f"
    using n r by (auto simp: fifo_full_def ring_next_def)
  then show "contents f' = contents f @ [c]"
    using ring_dist_grow [OF r(1,2)] ring_cells_write_end [OF r] by (simp add: contents_def f'_def ptr_next_ring)
qed

lemma contents_get:
  assumes i: "fifo_inv f" and n: "readPtr f \<noteq> writePtr f"
  shows "contents f = fbuf f ! readPtr f # contents (f\<lparr>readPtr := ptr_next f (readPtr f)\<rparr>)"
    and "fifo_inv (f\<lparr>readPtr := ptr_next f (readPtr f)\<rparr>)"
  using i n ring_dist_next [of "readPtr f" "bufSize f" "writePtr f"] ring_next_less [of "readPtr f" "bufSize f"]
  by (simp_all add: contents_def ring_cells_Suc fifo_inv_def ptr_next_ring)

lemma contents_empty: "fifo_inv f \<Longrightarrow> contents f = [] \<longleftrightarrow> readPtr f = writePtr f"
  using ring_dist_eq_0 [of "readPtr f" "bufSize f" "writePtr f"]
  by (auto simp: length_contents fifo_inv_def simp flip: length_0_conv)

text \<open>The circular buffer is a bounded queue with one byte less than its size.\<close>

interpretation fq: byte_queue fifo_inv contents fifo_capacity CO_fifo_putc CO_fifo_getc
proof unfold_locales
  fix f :: fifo and b bs
  assume i: "fifo_inv f"
  show "length (contents f) \<le> fifo_capacity f" by (rule contents_bounded [OF i])
  show "\<exists>q'. CO_fifo_putc f b = (True, q') \<and> fifo_inv q' \<and> contents q' = contents f @ [b] \<and>
      fifo_capacity q' = fifo_capacity f" if "length (contents f) < fifo_capacity f"
    using that contents_put [OF i, of b] fifo_full_iff [OF i] by (auto simp: CO_fifo_putc_def fifo_capacity_def)
  show "CO_fifo_putc f b = (False, f)" if "length (contents f) = fifo_capacity f"
    using that fifo_full_iff [OF i] by (simp add: CO_fifo_putc_def)
  show "CO_fifo_getc f = (None, f)" if "contents f = []"
    using that contents_empty [OF i] by (simp add: CO_fifo_getc_def)
  show "\<exists>q'. CO_fifo_getc f = (Some b, q') \<and> fifo_inv q' \<and> contents q' = bs \<and>
      fifo_capacity q' = fifo_capacity f" if "contents f = b # bs"
  proof -
    have n: "readPtr f \<noteq> writePtr f" using that contents_empty [OF i] by auto
    then show ?thesis using that contents_get [OF i n] by (simp add: CO_fifo_getc_def fifo_capacity_def)
  qed
qed

section \<open>Blocks\<close>

lemma CO_fifo_write_put_all:
  "CO_fifo_write f bs crc =
     (let (k, f') = put_all CO_fifo_putc f bs in (k, f', map_option (crc16_ccitt (take k bs)) crc))"
proof (induction bs arbitrary: f crc)
  case Nil
  show ?case by (cases crc) simp_all
next
  case (Cons b bs)
  show ?case
  proof (cases "fifo_full f")
    case True
    then show ?thesis by (cases crc) (simp_all add: CO_fifo_putc_def)
  next
    case False
    define f1 where "f1 = f\<lparr>fbuf := (fbuf f)[writePtr f := b], writePtr := ptr_next f (writePtr f)\<rparr>"
    obtain k f2 where p: "put_all CO_fifo_putc f1 bs = (k, f2)" by fastforce
    have "CO_fifo_putc f b = (True, f1)" using False by (simp add: CO_fifo_putc_def f1_def)
    with False Cons.IH [of f1 "map_option (\<lambda>c. crc16_ccitt_single c b) crc"] show ?thesis
      unfolding p by (simp add: f1_def [symmetric] p option.map_comp comp_def crc16_ccitt_fold)
  qed
qed

lemma CO_fifo_read_get_up_to:
  "CO_fifo_read f n False = (let (bs, f') = get_up_to CO_fifo_getc f n in (bs, False, f'))"
  by (induction n arbitrary: f) (auto simp: CO_fifo_getc_def Let_def split: prod.splits)

text \<open>
  Writing a block into the circular buffer appends as many of its bytes as there is free
  space, reports that number, and updates the checksum with exactly those bytes.
\<close>

theorem CO_fifo_write_correct:
  assumes "fifo_inv f"
  shows "\<exists>f'. CO_fifo_write f bs crc =
      (min (length bs) (CO_fifo_getSpace f), f', map_option (crc16_ccitt (take (CO_fifo_getSpace f) bs)) crc) \<and>
    fifo_inv f' \<and> contents f' = contents f @ take (CO_fifo_getSpace f) bs"
proof -
  have sp: "CO_fifo_getSpace f = fifo_capacity f - length (contents f)"
    using assms by (auto simp: CO_fifo_getSpace_def Let_def fifo_inv_def fifo_capacity_def length_contents ring_dist_def)
  obtain f' where "put_all CO_fifo_putc f bs = (min (length bs) (CO_fifo_getSpace f), f')" "fifo_inv f'"
      "contents f' = contents f @ take (CO_fifo_getSpace f) bs"
    using fq.put_all_content [OF assms, of bs] sp by auto
  moreover have "take (min (length bs) n) bs = take n bs" for n by (simp add: min_def)
  ultimately show ?thesis by (simp add: CO_fifo_write_put_all)
qed

text \<open>The circular buffer driven by blocks, with the operations of the source.\<close>

fun fifo_run :: "fifo \<Rightarrow> queue_op list \<Rightarrow> u8 list \<times> u8 list \<times> fifo" where
  "fifo_run f [] = ([], [], f)"
| "fifo_run f (Put bs # ops) =
     (let (k, f', _) = CO_fifo_write f bs None; (acc, del, f'') = fifo_run f' ops in (take k bs @ acc, del, f''))"
| "fifo_run f (Get n # ops) =
     (let (bs, _, f') = CO_fifo_read f n False; (acc, del, f'') = fifo_run f' ops in (acc, bs @ del, f''))"

lemma fifo_run_queue_run: "fifo_run f ops = queue_run CO_fifo_putc CO_fifo_getc f ops"
proof (induction ops arbitrary: f)
  case (Cons opr ops)
  then show ?case
    by (cases opr) (simp_all add: CO_fifo_write_put_all CO_fifo_read_get_up_to Let_def case_prod_beta)
qed simp

text \<open>
  C21: First in, first out. For every sequence of block writes and reads on a circular buffer,
  the bytes delivered so far followed by the bytes still inside are the initial contents followed
  by the bytes accepted: none is lost, duplicated or reordered, and the buffer never holds more
  than its size minus one.
\<close>

theorem fifo_order:
  assumes "fifo_inv f"
  shows "\<exists>acc del f'. fifo_run f ops = (acc, del, f') \<and> fifo_inv f' \<and> del @ contents f' = contents f @ acc \<and>
    length (contents f') < bufSize f"
proof -
  obtain acc del f' where r: "queue_run CO_fifo_putc CO_fifo_getc f ops = (acc, del, f')" "fifo_inv f'"
      "del @ contents f' = contents f @ acc" "length (contents f') \<le> fifo_capacity f"
    using fq.queue_run_order [OF assms, of ops] by blast
  then have "length (contents f') < bufSize f" using assms by (auto simp: fifo_capacity_def fifo_inv_def)
  with r show ?thesis by (simp add: fifo_run_queue_run)
qed


section \<open>The alternate read pointer\<close>

lemma altBegin_loop_eq:
  assumes "altReadPtr f < bufSize f" "writePtr f < bufSize f"
  shows "altBegin_loop f n = (let k = min n (ptr_dist f (altReadPtr f) (writePtr f)) in
    (k, f\<lparr>altReadPtr := ptr_add f (altReadPtr f) k\<rparr>))"
  using assms
proof (induction n arbitrary: f)
  case (Suc n)
  show ?case
  proof (cases "altReadPtr f = writePtr f")
    case False
    with Suc.prems Suc.IH [of "f\<lparr>altReadPtr := ptr_next f (altReadPtr f)\<rparr>"] show ?thesis
      by (simp add: ring_next_less ptr_next_ring ring_dist_next Let_def ring_add_Suc)
  qed (use Suc.prems in \<open>simp add: ring_dist_def\<close>)
qed simp

lemma CO_fifo_altRead_eq:
  assumes "altReadPtr f < bufSize f" "writePtr f < bufSize f"
  shows "CO_fifo_altRead f n = (let k = min n (ptr_dist f (altReadPtr f) (writePtr f)) in
    (cells f (altReadPtr f) k, f\<lparr>altReadPtr := ptr_add f (altReadPtr f) k\<rparr>))"
  using assms
proof (induction n arbitrary: f)
  case (Suc n)
  show ?case
  proof (cases "altReadPtr f = writePtr f")
    case False
    with Suc.prems Suc.IH [of "f\<lparr>altReadPtr := ptr_next f (altReadPtr f)\<rparr>"] show ?thesis
      by (simp add: ring_next_less ptr_next_ring ring_dist_next Let_def ring_add_Suc ring_cells_Suc)
  qed (use Suc.prems in \<open>simp add: ring_dist_def\<close>)
qed simp

lemma altFinish_loop_eq:
  assumes "readPtr f < bufSize f" "altReadPtr f < bufSize f"
  shows "altFinish_loop f crc = Some (f\<lparr>readPtr := altReadPtr f\<rparr>,
    crc16_ccitt (cells f (readPtr f) (ptr_dist f (readPtr f) (altReadPtr f))) crc)"
  using assms
proof (induction "ptr_dist f (readPtr f) (altReadPtr f)" arbitrary: f crc)
  case 0
  then have "readPtr f = altReadPtr f" using ring_dist_eq_0 [of "readPtr f" "bufSize f" "altReadPtr f"] by simp
  then show ?case by (subst altFinish_loop.simps) (simp add: ring_dist_def)
next
  case (Suc d)
  have n: "readPtr f \<noteq> altReadPtr f" using Suc.hyps(2) by (auto simp: ring_dist_def)
  let ?f = "f\<lparr>readPtr := ptr_next f (readPtr f)\<rparr>"
  have d: "ptr_dist f (readPtr f) (altReadPtr f) = Suc (ptr_dist f (ptr_next f (readPtr f)) (altReadPtr f))"
    using ring_dist_next n Suc.prems by (simp add: ptr_next_ring)
  from Suc.hyps(1) [of ?f "crc16_ccitt_single crc (fbuf f ! readPtr f)"] Suc.hyps(2) Suc.prems n d show ?case
    by (subst altFinish_loop.simps) (simp add: ring_next_less ptr_next_ring ring_cells_Suc crc16_ccitt_fold)
qed

text \<open>
  Reading ahead. The alternate read delivers, from any offset, the bytes of the buffer in
  order without consuming them; finishing it always ends, consumes exactly the bytes skipped and
  read, and updates the checksum with exactly those.
\<close>

theorem fifo_alt_read:
  fixes off count :: nat
  assumes i: "fifo_inv f"
  defines "n \<equiv> min (off + count) (length (contents f))"
  shows "\<exists>f1 f2 f3. CO_fifo_altBegin f off = (min off (length (contents f)), f1) \<and>
    CO_fifo_altRead f1 count = (take count (drop off (contents f)), f2) \<and> contents f2 = contents f \<and>
    CO_fifo_altFinish f2 crc = Some (f3, map_option (crc16_ccitt (take n (contents f))) crc) \<and>
    fifo_inv f3 \<and> contents f3 = drop n (contents f)"
proof -
  have b: "readPtr f < bufSize f" "writePtr f < bufSize f" using i by (auto simp: fifo_inv_def)
  define L where "L = length (contents f)"
  define j where "j = min off L"
  have L: "L = ptr_dist f (readPtr f) (writePtr f)" by (simp add: L_def length_contents)
  have LB: "L < bufSize f" using ring_dist_bound [OF b] by (simp add: L)
  define f1 where "f1 = f\<lparr>altReadPtr := ptr_add f (readPtr f) j\<rparr>"
  define f2 where "f2 = f\<lparr>altReadPtr := ptr_add f (readPtr f) n\<rparr>"
  have 1: "CO_fifo_altBegin f off = (j, f1)"
    using b by (simp add: CO_fifo_altBegin_def altBegin_loop_eq Let_def j_def L f1_def)
  have p1: "altReadPtr f1 < bufSize f1" "writePtr f1 < bufSize f1" using b by (simp_all add: f1_def ring_add_def)
  have d1: "ptr_dist f1 (altReadPtr f1) (writePtr f1) = L - j"
    using ring_dist_drop [OF b, of j] by (simp add: f1_def L j_def)
  have nj: "n = j + min count (L - j)" by (auto simp: n_def j_def L_def)
  have 2: "CO_fifo_altRead f1 count = (take count (drop off (contents f)), f2)"
  proof -
    have "drop off (contents f) = drop j (contents f)" by (simp add: j_def L_def min_def)
    then have "take count (drop off (contents f)) = cells f1 (altReadPtr f1) (min count (L - j))"
      by (cases "count \<le> L - j") (simp_all add: contents_def drop_ring_cells take_ring_cells f1_def L [symmetric] min_def)
    moreover have "f1\<lparr>altReadPtr := ptr_add f1 (altReadPtr f1) (min count (L - j))\<rparr> = f2"
      by (simp add: f1_def f2_def nj ring_add_def mod_add_left_eq add.assoc)
    ultimately show ?thesis using CO_fifo_altRead_eq [OF p1, of count] d1 by (simp add: Let_def)
  qed
  have nL: "n \<le> L" by (simp add: n_def L_def)
  have 3: "contents f2 = contents f" by (simp add: f2_def contents_def)
  have a2: "altReadPtr f2 = ptr_add f (readPtr f) n" "readPtr f2 = readPtr f" "bufSize f2 = bufSize f"
    by (simp_all add: f2_def)
  have t: "cells f2 (readPtr f2) (ptr_dist f2 (readPtr f2) (altReadPtr f2)) = take n (contents f)"
    using ring_dist_add [OF b(1), of n] nL LB by (simp add: f2_def contents_def take_ring_cells L)
  have 4: "CO_fifo_altFinish f2 crc =
      Some (f2\<lparr>readPtr := altReadPtr f2\<rparr>, map_option (crc16_ccitt (take n (contents f))) crc)"
    using altFinish_loop_eq [of f2] b ring_add_less [of "bufSize f" "readPtr f" n] unfolding a2 t [unfolded a2]
    by (cases crc) (simp_all add: CO_fifo_altFinish_def a2)
  have 5: "contents (f2\<lparr>readPtr := altReadPtr f2\<rparr>) = drop n (contents f)"
    using ring_dist_drop [OF b, of n] nL by (simp add: f2_def contents_def drop_ring_cells L)
  have 6: "fifo_inv (f2\<lparr>readPtr := altReadPtr f2\<rparr>)"
    using i ring_add_less [of "bufSize f" "readPtr f" n] by (simp add: fifo_inv_def f2_def)
  show ?thesis using 1 2 3 4 5 6 unfolding j_def L_def by blast
qed

section \<open>Command lines\<close>

text \<open>
  The data of the buffer is one run of cells up to the write pointer, or two when it wraps; the
  search for the end of a command looks into the first and then into the second.
\<close>

lemma map_nth_cells: "p + k \<le> bufSize f \<Longrightarrow> map (nth (fbuf f)) [p..<p + k] = cells f p k"
  by (rule nth_equalityI) (simp_all add: ring_cells_def)

lemma contents_two_runs:
  assumes "fifo_inv f" "writePtr f < readPtr f"
  shows "contents f = cells f (readPtr f) (bufSize f - readPtr f) @ cells f 0 (writePtr f)"
proof -
  let ?k = "bufSize f - readPtr f"
  have d: "ptr_dist f (readPtr f) (writePtr f) = ?k + writePtr f"
    using assms by (auto simp: ring_dist_def fifo_inv_def)
  have "ptr_add f (readPtr f) ?k = 0" using assms by (auto simp: ring_add_def fifo_inv_def)
  then have "drop ?k (contents f) = cells f 0 (writePtr f)" by (simp add: contents_def d drop_ring_cells)
  moreover have "take ?k (contents f) = cells f (readPtr f) ?k" by (simp add: contents_def d take_ring_cells)
  ultimately show ?thesis by (metis append_take_drop_id)
qed

text \<open>The rest after the first delimiter.\<close>

definition after_delim :: "u8 list \<Rightarrow> u8 list" where
  "after_delim xs = tl (dropWhile (\<lambda>c. c \<noteq> DELIM_COMMAND) xs)"

lemma after_delim_append: "DELIM_COMMAND \<notin> set xs \<Longrightarrow> after_delim (xs @ ys) = after_delim ys"
  by (subst after_delim_def, subst dropWhile_append2) (auto simp: after_delim_def)

lemma after_delim_none: "DELIM_COMMAND \<notin> set xs \<Longrightarrow> after_delim xs = []"
  using after_delim_append [of xs "[]"] by (simp add: after_delim_def)

lemma find_delim_None:
  assumes "p + k \<le> bufSize f"
  shows "find_delim (fbuf f) p k = None \<longleftrightarrow> DELIM_COMMAND \<notin> set (cells f p k)"
  unfolding map_nth_cells [OF assms, symmetric] by (force simp: find_delim_def find_None_iff)

lemma find_delim_Some:
  assumes "p + k \<le> bufSize f" "find_delim (fbuf f) p k = Some q"
  shows "p \<le> q" "q < p + k" "DELIM_COMMAND \<in> set (cells f p k)"
    "after_delim (cells f p k @ ys) = drop (Suc (q - p)) (cells f p k) @ ys"
proof -
  obtain i where i: "i < k" "fbuf f ! (p + i) = DELIM_COMMAND" "q = p + i"
      "\<forall>j<i. fbuf f ! (p + j) \<noteq> DELIM_COMMAND"
    using assms(2) by (auto simp: find_delim_def find_Some_iff)
  show "p \<le> q" "q < p + k" using i by simp_all
  have n: "cells f p k ! j = fbuf f ! (p + j)" if "j < k" for j using that assms(1) by (simp add: ring_cells_def)
  show m: "DELIM_COMMAND \<in> set (cells f p k)" using i n [of i] nth_mem [of i "cells f p k"] by simp
  have "DELIM_COMMAND \<notin> set (take i (cells f p k))"
    using i n by (auto simp: in_set_conv_nth)
  then have "after_delim ((take i (cells f p k) @ DELIM_COMMAND # drop (Suc i) (cells f p k)) @ ys) =
      drop (Suc i) (cells f p k) @ ys"
    by (simp add: after_delim_append) (simp add: after_delim_def)
  moreover have "cells f p k = take i (cells f p k) @ DELIM_COMMAND # drop (Suc i) (cells f p k)"
    using id_take_nth_drop [of i "cells f p k"] i n by simp
  ultimately show "after_delim (cells f p k @ ys) = drop (Suc (q - p)) (cells f p k) @ ys"
    using i(3) by simp
qed

lemma contents_drop:
  assumes "fifo_inv f" "k \<le> length (contents f)"
  shows "fifo_inv (f\<lparr>readPtr := ptr_add f (readPtr f) k\<rparr>)"
    and "contents (f\<lparr>readPtr := ptr_add f (readPtr f) k\<rparr>) = drop k (contents f)"
  using assms ring_dist_drop [of "readPtr f" "bufSize f" "writePtr f" k]
  by (simp_all add: contents_def drop_ring_cells fifo_inv_def ring_add_less)

lemma contents_cleared:
  assumes "fifo_inv f"
  shows "fifo_inv (f\<lparr>readPtr := writePtr f\<rparr>)" "contents (f\<lparr>readPtr := writePtr f\<rparr>) = []"
  using assms by (simp_all add: fifo_inv_def contents_def ring_dist_def)

text \<open>The outcome of the search on the list of the contents.\<close>

definition comm_search_ok :: "fifo \<Rightarrow> bool \<Rightarrow> bool \<times> fifo \<Rightarrow> bool" where
  "comm_search_ok f clear r \<longleftrightarrow>
     fst r = (contents f \<noteq> [] \<and> (DELIM_COMMAND \<in> set (contents f) \<or> fifo_full f)) \<and> fifo_inv (snd r) \<and>
     contents (snd r) = (if clear then after_delim (contents f) else contents f)"

lemma CommSearch_one_run:
  assumes i: "fifo_inv f" and b: "readPtr f < bufSize f" "writePtr f < bufSize f" and one: "readPtr f < writePtr f"
  shows "comm_search_ok f clear (CO_fifo_CommSearch f clear)"
proof -
  let ?k = "writePtr f - readPtr f"
  have c: "contents f = cells f (readPtr f) ?k" using one by (simp add: contents_def ring_dist_def)
  have r: "readPtr f + ?k \<le> bufSize f" using one b by simp
  have e: "contents f \<noteq> []" using one contents_empty [OF i] by simp
  have nf: "fifo_full f \<longleftrightarrow> readPtr f = 0 \<and> writePtr f = bufSize f - 1"
    using one b by (auto simp: fifo_full_def)
  show ?thesis
  proof (cases "find_delim (fbuf f) (readPtr f) ?k")
    case None
    then have "DELIM_COMMAND \<notin> set (contents f)" using find_delim_None [OF r] c by simp
    then show ?thesis using one None e nf i contents_cleared [OF i] after_delim_none [of "contents f"]
      by (simp add: CO_fifo_CommSearch_def comm_search_ok_def)
  next
    case (Some q)
    note q = find_delim_Some [OF r Some]
    have "(if q + 1 = bufSize f then 0 else q + 1) = ptr_add f (readPtr f) (Suc (q - readPtr f))"
      using q(1,2) b one by (simp add: ring_add_def)
    then show ?thesis using one Some e q q(4) [of "[]"] contents_drop [OF i, of "Suc (q - readPtr f)"] i
      by (simp add: CO_fifo_CommSearch_def comm_search_ok_def c)
  qed
qed

lemma CommSearch_two_runs:
  assumes i: "fifo_inv f" and b: "readPtr f < bufSize f" "writePtr f < bufSize f" and two: "writePtr f < readPtr f"
  shows "comm_search_ok f clear (CO_fifo_CommSearch f clear)"
proof -
  let ?k = "bufSize f - readPtr f"
  note c = contents_two_runs [OF i two]
  have r: "readPtr f + ?k \<le> bufSize f" "0 + writePtr f \<le> bufSize f" using b by simp_all
  have e: "contents f \<noteq> []" using two contents_empty [OF i] by simp
  have nf: "fifo_full f \<longleftrightarrow> readPtr f = writePtr f + 1" using two b by (auto simp: fifo_full_def)
  show ?thesis
  proof (cases "find_delim (fbuf f) (readPtr f) ?k")
    case None
    then have n: "DELIM_COMMAND \<notin> set (cells f (readPtr f) ?k)" using find_delim_None [OF r(1)] by simp
    show ?thesis
    proof (cases "find_delim (fbuf f) 0 (writePtr f)")
      case None2: None
      then have "DELIM_COMMAND \<notin> set (contents f)" using n find_delim_None [OF r(2)] c by simp
      then show ?thesis using two None None2 e nf i contents_cleared [OF i] after_delim_none [of "contents f"]
        by (simp add: CO_fifo_CommSearch_def comm_search_ok_def)
    next
      case (Some q)
      note q = find_delim_Some [OF r(2) Some]
      have p: "(if q + 1 = bufSize f then 0 else q + 1) = Suc q" using q(2) b by simp
      have "contents (f\<lparr>readPtr := Suc q\<rparr>) = drop (Suc q) (cells f 0 (writePtr f))"
        using q(2) b by (simp add: contents_def ring_dist_def drop_ring_cells ring_add_def)
      moreover have "fifo_inv (f\<lparr>readPtr := Suc q\<rparr>)" using q(2) b i by (simp add: fifo_inv_def)
      moreover have "after_delim (contents f) = drop (Suc q) (cells f 0 (writePtr f))"
        using q(4) [of "[]"] after_delim_append [OF n] c by simp
      ultimately show ?thesis using two None Some e q(3) i p c by (simp add: CO_fifo_CommSearch_def comm_search_ok_def)
    qed
  next
    case (Some q)
    note q = find_delim_Some [OF r(1) Some]
    have p: "(if q + 1 = bufSize f then 0 else q + 1) = ptr_add f (readPtr f) (Suc (q - readPtr f))"
      using q(1,2) b by (auto simp: ring_add_def)
    have l: "Suc (q - readPtr f) \<le> ?k" using q(1,2) by simp
    then have "after_delim (contents f) = drop (Suc (q - readPtr f)) (contents f)"
      using q(4) [of "cells f 0 (writePtr f)"] c by simp
    then show ?thesis
      using two Some e q(3) contents_drop [OF i, of "Suc (q - readPtr f)"] i c l unfolding p [symmetric]
      by (simp add: CO_fifo_CommSearch_def comm_search_ok_def)
  qed
qed

text \<open>
  The search for a command reports that one is there exactly if the buffer holds a command
  delimiter or is full, and clearing removes everything up to and including the first delimiter,
  or everything if there is none.
\<close>

theorem CO_fifo_CommSearch_correct:
  assumes i: "fifo_inv f"
  shows "\<exists>f'. CO_fifo_CommSearch f clear =
      (contents f \<noteq> [] \<and> (DELIM_COMMAND \<in> set (contents f) \<or> length (contents f) = bufSize f - 1), f') \<and>
    fifo_inv f' \<and> contents f' = (if clear then after_delim (contents f) else contents f)"
proof -
  have b: "readPtr f < bufSize f" "writePtr f < bufSize f" using i by (auto simp: fifo_inv_def)
  have full: "length (contents f) = bufSize f - 1 \<longleftrightarrow> fifo_full f"
    using fifo_full_iff [OF i] by (simp add: fifo_capacity_def)
  consider (empty) "readPtr f = writePtr f" | (one) "readPtr f < writePtr f" | (two) "writePtr f < readPtr f"
    by linarith
  then have "comm_search_ok f clear (CO_fifo_CommSearch f clear)"
  proof cases
    case empty
    then show ?thesis using contents_empty [OF i] i
      by (simp add: CO_fifo_CommSearch_def comm_search_ok_def after_delim_def)
  qed (use CommSearch_one_run [OF i b] CommSearch_two_runs [OF i b] in simp_all)
  then show ?thesis
    unfolding comm_search_ok_def full by (cases "CO_fifo_CommSearch f clear") auto
qed

text \<open>Leading spaces and comments, on the list of the contents.\<close>

fun trim_list :: "u8 list \<Rightarrow> bool \<Rightarrow> bool \<times> bool \<times> u8 list" where
  "trim_list [] comment = (False, comment, [])"
| "trim_list (c # cs) comment =
     (if c = DELIM_COMMAND then (True, False, cs)
      else if comment \<or> c = DELIM_COMMENT then trim_list cs True
      else if isgraph c then (False, False, c # cs) else trim_list cs False)"

text \<open>
  Trimming always ends. It removes spaces, control characters and comments from the front
  of the buffer, up to and including the first command delimiter, whose presence it reports, or
  up to the first printable character outside of a comment.
\<close>

theorem CO_fifo_trimSpaces_correct:
  assumes "fifo_inv f"
  shows "case trim_list (contents f) comment of (d, comment', xs) \<Rightarrow>
    \<exists>f'. CO_fifo_trimSpaces f comment = Some (d, comment', f') \<and> fifo_inv f' \<and> contents f' = xs"
  using assms
proof (induction "contents f" arbitrary: f comment)
  case Nil
  then show ?case using contents_empty [of f] by (subst CO_fifo_trimSpaces.simps) simp
next
  case (Cons c cs)
  then have n: "readPtr f \<noteq> writePtr f" using contents_empty [of f] by auto
  let ?f = "f\<lparr>readPtr := ptr_next f (readPtr f)\<rparr>"
  note g = contents_get [OF Cons.prems n]
  have c: "fbuf f ! readPtr f = c" "cs = contents ?f" using g(1) Cons.hyps(2) by simp_all
  have ng: "\<not> isgraph DELIM_COMMAND" "DELIM_COMMAND \<noteq> DELIM_COMMENT"
    by (simp_all add: isgraph_def DELIM_COMMAND_def DELIM_COMMENT_def)
  have s: "CO_fifo_trimSpaces f comment =
     (if c = DELIM_COMMAND then Some (True, False, ?f)
      else if comment \<or> c = DELIM_COMMENT then CO_fifo_trimSpaces ?f True
      else if isgraph c then Some (False, False, f) else CO_fifo_trimSpaces ?f False)"
    using n c(1) ng by (subst CO_fifo_trimSpaces.simps) (auto simp: Let_def)
  have t: "contents f = c # contents ?f" using Cons.hyps(2) c(2) by simp
  show ?case using Cons.hyps(1) [OF c(2) g(2)] g(2) Cons.prems t
    by (simp add: s)
qed

section \<open>Overwriting writes\<close>

text \<open>
  An overwriting write into a full buffer is a read followed by a write; both leave the
  capacity as it is.
\<close>

lemma CO_fifo_putc_ov_eq:
  assumes i: "fifo_inv f"
  shows "CO_fifo_putc_ov f c =
    snd (CO_fifo_putc (if fifo_full f then snd (CO_fifo_getc f) else f) c)"
proof -
  have b: "readPtr f < bufSize f" "writePtr f < bufSize f" "2 \<le> bufSize f" using i by (auto simp: fifo_inv_def)
  have w: "readPtr f = ptr_next f (writePtr f) \<longleftrightarrow> fifo_full f"
    using b by (auto simp: ptr_next_def fifo_full_def)
  show ?thesis
  proof (cases "fifo_full f")
    case True
    then have n: "readPtr f \<noteq> writePtr f" "\<not> fifo_full (f\<lparr>readPtr := ptr_next f (readPtr f)\<rparr>)"
      using b by (auto simp: fifo_full_def ptr_next_def)
    show ?thesis using True n w
      by (simp add: CO_fifo_putc_ov_def CO_fifo_putc_def CO_fifo_getc_def Let_def)
  qed (simp add: CO_fifo_putc_ov_def CO_fifo_putc_def w)
qed

lemma contents_put_ov:
  assumes i: "fifo_inv f"
  shows "fifo_inv (CO_fifo_putc_ov f c) \<and> fifo_capacity (CO_fifo_putc_ov f c) = fifo_capacity f \<and>
    contents (CO_fifo_putc_ov f c) = drop (Suc (length (contents f)) - fifo_capacity f) (contents f @ [c])"
proof -
  let ?g = "if fifo_full f then snd (CO_fifo_getc f) else f"
  let ?d = "Suc (length (contents f)) - fifo_capacity f"
  have cap: "0 < fifo_capacity f" using i by (auto simp: fifo_inv_def fifo_capacity_def)
  have g: "fifo_inv ?g \<and> contents ?g = drop ?d (contents f) \<and> fifo_capacity ?g = fifo_capacity f"
  proof (cases "fifo_full f")
    case True
    then have l: "length (contents f) = fifo_capacity f" using fifo_full_iff [OF i] by simp
    then obtain b bs where "contents f = b # bs" using cap by (cases "contents f") auto
    with fq.get_Cons [OF i this] l True show ?thesis by auto
  next
    case False
    then show ?thesis using fifo_full_iff [OF i] contents_bounded [OF i] i by simp
  qed
  then have l: "length (contents ?g) < fifo_capacity ?g" using cap by auto
  have "?d \<le> length (contents f)" using contents_bounded [OF i] cap by auto
  with fq.put_room [OF conjunct1 [OF g] l, of c] g show ?thesis
    unfolding CO_fifo_putc_ov_eq [OF i] by auto
qed

text \<open>
  A buffer filled with overwriting writes holds the last bytes written, as many as it has
  room for.
\<close>

theorem CO_fifo_putc_ov_keeps_last:
  assumes "fifo_inv f"
  shows "fifo_inv (foldl CO_fifo_putc_ov f bs) \<and>
    contents (foldl CO_fifo_putc_ov f bs) = drop (length (contents f) + length bs - (bufSize f - 1)) (contents f @ bs)"
  using assms
proof (induction bs arbitrary: f)
  case Nil
  then show ?case using contents_bounded [of f] by (simp add: fifo_capacity_def)
next
  case (Cons b bs)
  note p = contents_put_ov [OF Cons.prems, of b]
  have B: "bufSize (CO_fifo_putc_ov f b) = bufSize f" by (simp add: CO_fifo_putc_ov_def Let_def)
  define n where "n = bufSize f - 1"
  define d where "d = Suc (length (contents f)) - n"
  have l: "length (contents f) \<le> n" using contents_bounded [OF Cons.prems] by (simp add: fifo_capacity_def n_def)
  have c: "contents (CO_fifo_putc_ov f b) = drop d (contents f @ [b])" using p by (simp add: d_def n_def fifo_capacity_def)
  have "length (contents f) + length (b # bs) - n = length (drop d (contents f @ [b])) + length bs - n + d"
    using l by (auto simp: d_def)
  moreover have "drop d (contents f @ [b]) @ bs = drop d (contents f @ b # bs)"
    using l by (cases "n = 0") (simp_all add: d_def)
  moreover have "fifo_inv (CO_fifo_putc_ov f b)" using p by blast
  ultimately show ?case using Cons.IH [of "CO_fifo_putc_ov f b"]
    unfolding c B n_def [symmetric] by (simp only: drop_drop foldl_Cons)
qed

section \<open>Examples\<close>

text \<open>A buffer of five bytes whose data wraps around: the line \<open>ab\<close> and one more character.\<close>

definition example_fifo :: fifo where
  "example_fifo = \<lparr>fbuf = [10, 120, 0, 97, 98], bufSize = 5, writePtr = 2, readPtr = 3, altReadPtr = 0,
     started = False, aux = 0\<rparr>"

lemma example_fifo_inv: "fifo_inv example_fifo" "contents example_fifo = [97, 98, 10, 120]"
  by code_simp+

theorem CO_fifo_write_correct_witness:
  "\<exists>f'. CO_fifo_write (snd (CO_fifo_getc example_fifo)) [1, 2] (Some 0) = (1, f', Some (crc16_ccitt [1] 0)) \<and>
     contents f' = [98, 10, 120, 1]"
proof -
  have "fifo_inv (snd (CO_fifo_getc example_fifo))" "CO_fifo_getSpace (snd (CO_fifo_getc example_fifo)) = 1"
    "contents (snd (CO_fifo_getc example_fifo)) = [98, 10, 120]" by code_simp+
  with CO_fifo_write_correct [of "snd (CO_fifo_getc example_fifo)" "[1, 2]" "Some 0"] show ?thesis
    by (auto simp del: CO_fifo_write.simps crc16_ccitt.simps)
qed

theorem fifo_order_witness:
  "\<exists>acc del f'. fifo_run example_fifo [Get 2, Put [1, 2, 3], Get 9] = (acc, del, f') \<and>
     del @ contents f' = [97, 98, 10, 120] @ acc \<and> length (contents f') < 5"
  using fifo_order [OF example_fifo_inv(1), of "[Get 2, Put [1, 2, 3], Get 9]"] example_fifo_inv(2)
  by (auto simp: example_fifo_def)

theorem fifo_alt_read_witness:
  "\<exists>f1 f2 f3. CO_fifo_altBegin example_fifo 1 = (1, f1) \<and> CO_fifo_altRead f1 2 = ([98, 10], f2) \<and>
     CO_fifo_altFinish f2 (Some 7) = Some (f3, Some (crc16_ccitt [97, 98, 10] 7)) \<and> contents f3 = [120]"
  using fifo_alt_read [OF example_fifo_inv(1), of 1 2 "Some 7"] example_fifo_inv(2)
  by (auto simp del: crc16_ccitt.simps CO_fifo_altRead.simps)

theorem CO_fifo_CommSearch_correct_witness:
  "\<exists>f'. CO_fifo_CommSearch example_fifo True = (True, f') \<and> contents f' = [120]"
proof -
  have "after_delim [97, 98, 10, 120] = [120]" by code_simp
  with CO_fifo_CommSearch_correct [OF example_fifo_inv(1), of True] example_fifo_inv(2) show ?thesis
    by (auto simp: DELIM_COMMAND_def)
qed

theorem CO_fifo_trimSpaces_correct_witness:
  "\<exists>f'. CO_fifo_trimSpaces example_fifo True = Some (True, False, f') \<and> contents f' = [120]"
proof -
  have "trim_list [97, 98, 10, 120] True = (True, False, [120])" by code_simp
  with CO_fifo_trimSpaces_correct [OF example_fifo_inv(1), of True] example_fifo_inv(2) show ?thesis by auto
qed

theorem CO_fifo_putc_ov_keeps_last_witness:
  "contents (foldl CO_fifo_putc_ov example_fifo [1, 2]) = [10, 120, 1, 2]"
  using CO_fifo_putc_ov_keeps_last [OF example_fifo_inv(1), of "[1, 2]"] example_fifo_inv(2)
  by (simp add: example_fifo_def)

end
