(* ===== verification/SDO_Client.thy ===== *)
theory SDO_Client
  imports SDO_Process Fifo
begin

text \<open>
  The SDO client (\<open>301/CO_SDOclient.c\<close>): its object, the CAN receive function, the configuration,
  and the two functions \<open>CO_SDOclientDownload\<close> and \<open>CO_SDOclientUpload\<close> that an application calls
  cyclically while a transfer runs, each split along its own structure into the transfer within
  the own node, one receive handler per state, the timers, one transmit handler per state and the
  final abort. The configuration is the one the repository builds: segmented and block transfers,
  transfers within the own node, dynamic object dictionary, \<open>timerNext\<close>, little-endian, no
  callbacks, a buffer of 1000 bytes.

  As for the server, a function returns \<^const>\<open>None\<close> where the C function would access an array out of
  range or not return. \<open>size_t\<close> is a 64-bit word; the sizes that only count bytes of the circular
  buffer are natural numbers.
\<close>

section \<open>Types\<close>

abbreviation (input) "CO_SDO_AB_OUT_OF_MEM \<equiv> 0x05040005 :: u32"
abbreviation (input) "CO_SDO_AB_PRAM_INCOMPAT \<equiv> 0x06040043 :: u32"
abbreviation (input) "CO_SDO_AB_TYPE_MISMATCH \<equiv> 0x06070010 :: u32"
abbreviation (input) "CO_SDO_AB_GENERAL \<equiv> 0x08000000 :: u32"

definition CO_CONFIG_SDO_CLI_BUFFER_SIZE :: nat where
  "CO_CONFIG_SDO_CLI_BUFFER_SIZE = 1000"

definition CO_CONFIG_SDO_CLI_PST :: u8 where
  "CO_CONFIG_SDO_CLI_PST = 21"

text \<open>
  The fields of \<open>CO_SDOclient_t\<close>; the two function pointers of \<open>OD_IO\<close> may be \<open>NULL\<close>, the array \<open>buf\<close> is
  the storage of the circular buffer. With the data and the \<open>bufferFull\<close> flag of the transmit buffer,
  the identifiers configured in the driver, whether \<open>OD_write_1280\<close> is installed, the memory of the
  own object dictionary and the frames handed to the driver.
\<close>

record client =
  C_OD :: "OD_t option"
  C_nodeId :: u8
  C_stream :: OD_stream
  C_read :: "OD_read_fn option"
  C_write :: "OD_write_fn option"
  C_COB_IDClientToServer :: u32
  C_COB_IDServerToClient :: u32
  C_OD_1280_extended :: bool
  C_nodeIDOfTheSDOServer :: u8
  C_valid :: bool
  C_index :: u16
  C_subIndex :: u8
  C_finished :: bool
  C_sizeInd :: u64
  C_sizeTran :: u64
  C_state :: CO_SDO_state
  C_SDOtimeoutTime_us :: u32
  C_timeoutTimer :: u32
  C_bufFifo :: fifo
  C_CANrxNew :: bool
  C_CANrxData :: "u8 list"
  C_toggle :: u8
  C_block_SDOtimeoutTime_us :: u32
  C_block_timeoutTimer :: u32
  C_block_seqno :: u8
  C_block_blksize :: u8
  C_block_noData :: u8
  C_block_crcEnabled :: bool
  C_block_dataUploadLast :: "u8 list"
  C_block_crc :: u16
  C_CANrx_ident :: u16
  C_CANtx_ident :: u16
  C_CANtx_data :: "u8 list"
  C_CANtx_bufferFull :: bool
  C_mem :: mem
  C_sent :: "u8 list list"

definition C_send :: "client \<Rightarrow> client" where
  "C_send c = c\<lparr>C_sent := C_sent c @ [C_CANtx_data c]\<rparr>"

definition C_tx_put :: "(nat \<times> u8) list \<Rightarrow> client \<Rightarrow> client" where
  "C_tx_put ps c = c\<lparr>C_CANtx_data := foldl (\<lambda>d (k, v). d[k := v]) (C_CANtx_data c) ps\<rparr>"

text \<open>A copy into the eight data bytes of the transmit buffer.\<close>

definition C_tx_copy :: "nat \<Rightarrow> u8 list \<Rightarrow> client \<Rightarrow> client option" where
  "C_tx_copy off d c = do { t \<leftarrow> buf_write (C_CANtx_data c) off d; Some (c\<lparr>C_CANtx_data := t\<rparr>) }"

definition C_tx_header :: "u8 \<Rightarrow> client \<Rightarrow> client" where
  "C_tx_header cmd c =
     C_tx_put [(0, cmd), (1, ucast (C_index c)), (2, ucast (drop_bit 8 (C_index c))), (3, C_subIndex c)] c"

text \<open>The size of the data, as far as it fits the four bytes of the protocol.\<close>

definition C_tx_size :: "client \<Rightarrow> client option" where
  "C_tx_size c = C_tx_copy 4 (le_bytes 4 (ucast (C_sizeInd c) :: u32)) c"

text \<open>The index and sub-index in a response are those of the transfer.\<close>

definition C_same_object :: "client \<Rightarrow> bool" where
  "C_same_object c \<longleftrightarrow>
     push_bit 8 (ucast (C_CANrxData c ! 2)) OR ucast (C_CANrxData c ! 1) = C_index c \<and>
     C_CANrxData c ! 3 = C_subIndex c"

section \<open>The CAN receive function\<close>

text \<open>Block upload: the data is copied by the receive function itself.\<close>

definition C_receive_subblock :: "client \<Rightarrow> u8 list \<Rightarrow> client" where
  "C_receive_subblock c data =
     (let seqno = data ! 0 AND 0x7F;
          c = c\<lparr>C_timeoutTimer := 0, C_block_timeoutTimer := 0\<rparr>;
          leave = (\<lambda>c. c\<lparr>C_CANrxNew := False, C_state := CO_SDO_ST_UPLOAD_BLK_SUBBLOCK_CRSP\<rparr>)
      in if seqno \<le> C_block_blksize c \<and> unat seqno = unat (C_block_seqno c) + 1 then
           let c = c\<lparr>C_block_seqno := seqno\<rparr> in
           if data ! 0 AND 0x80 \<noteq> 0 then
             leave (c\<lparr>C_block_dataUploadLast := take 7 (drop 1 data), C_finished := True\<rparr>)
           else
             let (_, f, crc) = CO_fifo_write (C_bufFifo c) (take 7 (drop 1 data)) (Some (C_block_crc c));
                 c = c\<lparr>C_bufFifo := f, C_block_crc := the crc, C_sizeTran := C_sizeTran c + 7\<rparr>
             in if seqno = C_block_blksize c then leave c else c
         else if seqno \<noteq> C_block_seqno c \<and> C_block_seqno c \<noteq> 0 then leave c
         else c)"

definition CO_SDOclient_receive :: "client \<Rightarrow> u8 list \<Rightarrow> client" where
  "CO_SDOclient_receive c data =
     (if C_state c \<noteq> CO_SDO_ST_IDLE \<and> length data = 8 \<and> (\<not> C_CANrxNew c \<or> data ! 0 = 0x80) then
        if data ! 0 = 0x80 \<or> (C_state c \<noteq> CO_SDO_ST_UPLOAD_BLK_SUBBLOCK_SREQ \<and>
           C_state c \<noteq> CO_SDO_ST_UPLOAD_BLK_SUBBLOCK_CRSP) then
          c\<lparr>C_CANrxData := data, C_CANrxNew := True\<rparr>
        else if C_state c = CO_SDO_ST_UPLOAD_BLK_SUBBLOCK_SREQ then C_receive_subblock c data
        else c
      else c)"

section \<open>Configuration\<close>

text \<open>
  \<open>rxRet\<close> is what the driver's \<open>CO_CANrxBufferInit\<close> returns, \<open>txOk\<close> whether \<open>CO_CANtxBufferInit\<close> returned a
  buffer.
\<close>

definition C_can_idents :: "u32 \<Rightarrow> u32 \<Rightarrow> u16 \<times> u16 \<times> bool" where
  "C_can_idents c2s s2c =
     (let CanIdC2S = (if c2s AND 0x80000000 = 0 then ucast (c2s AND 0x7FF) else 0);
          CanIdS2C = (if s2c AND 0x80000000 = 0 then ucast (s2c AND 0x7FF) else 0)
      in if CanIdC2S \<noteq> 0 \<and> CanIdS2C \<noteq> 0 then (CanIdC2S, CanIdS2C, True) else (0, 0, False))"

definition CO_SDOclient_setup ::
    "CO_ReturnError \<Rightarrow> bool \<Rightarrow> client \<Rightarrow> u32 \<Rightarrow> u32 \<Rightarrow> u8 \<Rightarrow> CO_SDO_return \<times> client" where
  "CO_SDOclient_setup rxRet txOk c c2s s2c node =
     (let c = c\<lparr>C_state := CO_SDO_ST_IDLE, C_CANrxNew := False, C_nodeIDOfTheSDOServer := node\<rparr> in
      if c2s = C_COB_IDClientToServer c \<and> s2c = C_COB_IDServerToClient c then
        (CO_SDO_RT_ok_communicationEnd, c)
      else
        let (idC2S, idS2C, v) = C_can_idents c2s s2c;
            c = c\<lparr>C_COB_IDClientToServer := c2s, C_COB_IDServerToClient := s2c, C_valid := v\<rparr>;
            c = (if rxRet = CO_ERROR_NO then c\<lparr>C_CANrx_ident := idS2C\<rparr> else c);
            c = (if txOk then c\<lparr>C_CANtx_ident := idC2S, C_CANtx_bufferFull := False\<rparr> else c)
        in if rxRet \<noteq> CO_ERROR_NO \<or> \<not> txOk then (CO_SDO_RT_wrongArguments, c\<lparr>C_valid := False\<rparr>)
           else (CO_SDO_RT_ok_communicationEnd, c))"

text \<open>The write function on the client's parameter object; \<open>c\<close> is what \<open>stream->object\<close> points to.\<close>

definition OD_write_1280 ::
    "CO_ReturnError \<Rightarrow> bool \<Rightarrow> OD_stream \<Rightarrow> u8 list \<Rightarrow> client \<Rightarrow> ODR \<times> OD_stream \<times> u32 \<times> client" where
  "OD_write_1280 rxRet txOk st b c =
     (let orig = (\<lambda>c. let (r, st', k, m') = OD_writeOriginal st b (C_mem c) in (r, st', k, c\<lparr>C_mem := m'\<rparr>));
          check = (\<lambda>cur COB_ID.
            let CAN_ID = ucast (COB_ID AND 0x7FF) :: u16;
                CAN_ID_cur = ucast (cur AND 0x7FF) :: u16;
                v = (COB_ID AND 0x80000000 = (0 :: u32))
            in COB_ID AND 0x3FFFF800 \<noteq> 0 \<or> (v \<and> C_valid c \<and> CAN_ID \<noteq> CAN_ID_cur) \<or>
               (v \<and> CO_IS_RESTRICTED_CAN_ID CAN_ID));
          COB_ID = le_word (take 4 b)
      in if stream_subIndex st = 0 then (ODR_READONLY, st, 0, c)
         else if stream_subIndex st = 1 then
           if check (C_COB_IDClientToServer c) COB_ID then (ODR_INVALID_VALUE, st, 0, c)
           else orig (snd (CO_SDOclient_setup rxRet txOk c COB_ID (C_COB_IDServerToClient c)
                             (C_nodeIDOfTheSDOServer c)))
         else if stream_subIndex st = 2 then
           if check (C_COB_IDServerToClient c) COB_ID then (ODR_INVALID_VALUE, st, 0, c)
           else orig (snd (CO_SDOclient_setup rxRet txOk c (C_COB_IDClientToServer c) COB_ID
                             (C_nodeIDOfTheSDOServer c)))
         else if stream_subIndex st = 3 then
           if b ! 0 > 127 then (ODR_INVALID_VALUE, st, 0, c)
           else orig (c\<lparr>C_nodeIDOfTheSDOServer := b ! 0\<rparr>)
         else (ODR_SUB_NOT_EXIST, st, 0, c))"

text \<open>
  \<open>CO_SDOclient_init\<close>, for the client's parameter entry (if any); it also returns \<open>errInfo\<close>. The
  installation of \<open>OD_write_1280\<close> is \<open>OD_extension_init\<close>, which cannot fail on an entry that exists.
\<close>

definition CO_SDOclient_init ::
    "CO_ReturnError \<Rightarrow> bool \<Rightarrow> client \<Rightarrow> OD_t option \<Rightarrow> OD_entry option \<Rightarrow> u8 \<Rightarrow>
     CO_ReturnError \<times> u32 option \<times> client" where
  "CO_SDOclient_init rxRet txOk c od par node =
     (if Option.is_none par \<or> OD_getIndex par < 0x1280 \<or> OD_getIndex par > 0x1280 + 0x7F then
        (CO_ERROR_ILLEGAL_ARGUMENT, None, c)
      else
        let c = c\<lparr>C_OD := od, C_nodeId := node,
                  C_bufFifo := CO_fifo_init (C_bufFifo c) (fbuf (C_bufFifo c)) (CO_CONFIG_SDO_CLI_BUFFER_SIZE + 1)\<rparr>;
            (r0, maxSub, m0) = OD_get_u8 par 0 True (C_mem c);
            (r1, cob1, m1) = OD_get_u32 par 1 True m0;
            (r2, cob2, m2) = OD_get_u32 par 2 True m1;
            (r3, server, m3) = OD_get_u8 par 3 True m2;
            c = c\<lparr>C_mem := m3\<rparr>
        in if r0 \<noteq> ODR_OK \<or> maxSub \<noteq> 3 \<or> r1 \<noteq> ODR_OK \<or> r2 \<noteq> ODR_OK \<or> r3 \<noteq> ODR_OK then
             (CO_ERROR_OD_PARAMETERS, Some (ucast (OD_getIndex par)), c)
           else
             let c = c\<lparr>C_OD_1280_extended := True, C_COB_IDClientToServer := 0, C_COB_IDServerToClient := 0\<rparr>;
                 (ret, c) = CO_SDOclient_setup rxRet txOk c cob1 cob2 server
             in (if ret \<noteq> CO_SDO_RT_ok_communicationEnd then CO_ERROR_ILLEGAL_ARGUMENT else CO_ERROR_NO, None, c))"

section \<open>Starting a transfer\<close>

text \<open>The server is this node itself.\<close>

definition C_is_local :: "client \<Rightarrow> bool" where
  "C_is_local c \<longleftrightarrow> C_OD c \<noteq> None \<and> C_nodeId c \<noteq> 0 \<and> C_nodeIDOfTheSDOServer c = C_nodeId c"

definition CO_SDOclientDownloadInitiate ::
    "client \<Rightarrow> u16 \<Rightarrow> u8 \<Rightarrow> u64 \<Rightarrow> u16 \<Rightarrow> bool \<Rightarrow> CO_SDO_return \<times> client" where
  "CO_SDOclientDownloadInitiate c idx sub sizeIndicated timeout_ms blockEnable =
     (if \<not> C_valid c then (CO_SDO_RT_wrongArguments, c)
      else
        let c = c\<lparr>C_index := idx, C_subIndex := sub, C_sizeInd := sizeIndicated, C_sizeTran := 0,
                  C_finished := False, C_SDOtimeoutTime_us := ucast timeout_ms * 1000, C_timeoutTimer := 0,
                  C_bufFifo := CO_fifo_reset (C_bufFifo c)\<rparr>;
            c = (if C_is_local c then c\<lparr>C_write := None, C_state := CO_SDO_ST_DOWNLOAD_LOCAL_TRANSFER\<rparr>
                 else if blockEnable \<and> (sizeIndicated = 0 \<or> sizeIndicated > ucast CO_CONFIG_SDO_CLI_PST) then
                   c\<lparr>C_state := CO_SDO_ST_DOWNLOAD_BLK_INITIATE_REQ\<rparr>
                 else c\<lparr>C_state := CO_SDO_ST_DOWNLOAD_INITIATE_REQ\<rparr>)
        in (CO_SDO_RT_ok_communicationEnd, c\<lparr>C_CANrxNew := False\<rparr>))"

definition CO_SDOclientDownloadInitSize :: "client \<Rightarrow> u64 \<Rightarrow> client" where
  "CO_SDOclientDownloadInitSize c sizeIndicated =
     (let c = c\<lparr>C_sizeInd := sizeIndicated\<rparr> in
      if C_state c = CO_SDO_ST_DOWNLOAD_BLK_INITIATE_REQ \<and> sizeIndicated > 0 \<and>
         sizeIndicated \<le> ucast CO_CONFIG_SDO_CLI_PST
      then c\<lparr>C_state := CO_SDO_ST_DOWNLOAD_INITIATE_REQ\<rparr> else c)"

definition CO_SDOclientDownloadBufWrite :: "client \<Rightarrow> u8 list \<Rightarrow> nat \<times> client" where
  "CO_SDOclientDownloadBufWrite c b =
     (let (k, f, _) = CO_fifo_write (C_bufFifo c) b None in (k, c\<lparr>C_bufFifo := f\<rparr>))"

definition CO_SDOclientUploadInitiate ::
    "client \<Rightarrow> u16 \<Rightarrow> u8 \<Rightarrow> u16 \<Rightarrow> bool \<Rightarrow> CO_SDO_return \<times> client" where
  "CO_SDOclientUploadInitiate c idx sub timeout_ms blockEnable =
     (if \<not> C_valid c then (CO_SDO_RT_wrongArguments, c)
      else
        let c = c\<lparr>C_index := idx, C_subIndex := sub, C_sizeInd := 0, C_sizeTran := 0,
                  C_finished := False, C_bufFifo := CO_fifo_reset (C_bufFifo c),
                  C_SDOtimeoutTime_us := ucast timeout_ms * 1000, C_timeoutTimer := 0,
                  C_block_SDOtimeoutTime_us := ucast timeout_ms * 700\<rparr>;
            c = (if C_is_local c then c\<lparr>C_read := None, C_state := CO_SDO_ST_UPLOAD_LOCAL_TRANSFER\<rparr>
                 else if blockEnable then c\<lparr>C_state := CO_SDO_ST_UPLOAD_BLK_INITIATE_REQ\<rparr>
                 else c\<lparr>C_state := CO_SDO_ST_UPLOAD_INITIATE_REQ\<rparr>)
        in (CO_SDO_RT_ok_communicationEnd, c\<lparr>C_CANrxNew := False\<rparr>))"

definition CO_SDOclientUploadBufRead :: "client \<Rightarrow> nat \<Rightarrow> u8 list \<times> client" where
  "CO_SDOclientUploadBufRead c count =
     (let (bs, _, f) = CO_fifo_read (C_bufFifo c) count False in (bs, c\<lparr>C_bufFifo := f\<rparr>))"

definition CO_SDOclientClose :: "client \<Rightarrow> client" where
  "CO_SDOclientClose c = c\<lparr>C_state := CO_SDO_ST_IDLE\<rparr>"

section \<open>Transfer within the own node\<close>

text \<open>
  The result of a part of \<open>CO_SDOclientDownload\<close> and \<open>CO_SDOclientUpload\<close>: the return value, the abort
  code and the client.
\<close>

type_synonym cli_result = "CO_SDO_return \<times> u32 \<times> client"

text \<open>
  The search of the object in the first pass. \<open>OD_getSub\<close> sets both function pointers if it
  succeeds and neither if it fails; the values it gets here are not used.
\<close>

definition C_getSub :: "client \<Rightarrow> ODR \<times> client" where
  "C_getSub c =
     (let od = (case C_OD c of None \<Rightarrow> [] | Some od \<Rightarrow> od);
          (r, io) = OD_getSub (OD_find od (C_index c)) (C_subIndex c)
                      \<lparr>stream = C_stream c, io_read = OD_readDisabled, io_write = OD_writeDisabled\<rparr> False;
          c = c\<lparr>C_stream := stream io\<rparr>
      in (r, if r = ODR_OK then c\<lparr>C_read := Some (io_read io), C_write := Some (io_write io)\<rparr> else c))"

definition local_download_open :: "client \<Rightarrow> cli_result" where
  "local_download_open c =
     (let (odRet, c) = C_getSub c; att = attribute (C_stream c) in
      if odRet \<noteq> ODR_OK then (CO_SDO_RT_endedWithClientAbort, OD_getSDOabCode odRet, c)
      else if att AND ODA_SDO_RW = 0 then (CO_SDO_RT_endedWithClientAbort, CO_SDO_AB_UNSUPPORTED_ACCESS, c)
      else if att AND ODA_SDO_W = 0 then (CO_SDO_RT_endedWithClientAbort, CO_SDO_AB_READONLY, c)
      else if Option.is_none (C_write c) then (CO_SDO_RT_endedWithClientAbort, CO_SDO_AB_DEVICE_INCOMPAT, c)
      else (CO_SDO_RT_waitingResponse, CO_SDO_AB_NONE, c))"

text \<open>
  The end of the data: the size is checked against the variable, a shorter string is terminated by
  one or two zeros. \<open>b\<close> are the bytes in the local buffer of 1002 bytes.
\<close>

definition put_local_zero :: "u8 list \<Rightarrow> client \<Rightarrow> (u8 list \<times> client) option" where
  "put_local_zero b c =
     (if length b < CO_CONFIG_SDO_CLI_BUFFER_SIZE + 2 then Some (b @ [0], c\<lparr>C_sizeTran := C_sizeTran c + 1\<rparr>)
      else None)"

definition C_set_dataLength :: "u32 \<Rightarrow> client \<Rightarrow> client" where
  "C_set_dataLength n c = c\<lparr>C_stream := (C_stream c)\<lparr>dataLength := n\<rparr>\<rparr>"

definition local_download_last :: "u8 list \<Rightarrow> CO_SDO_return \<Rightarrow> u32 \<Rightarrow> client \<Rightarrow> (u8 list \<times> cli_result) option" where
  "local_download_last b ret code c =
     (let sizeInOd = dataLength (C_stream c) in
      if attribute (C_stream c) AND ODA_STR \<noteq> 0 \<and> (sizeInOd = 0 \<or> C_sizeTran c < ucast sizeInOd) then do {
        (b, c) \<leftarrow> put_local_zero b c;
        (b, c) \<leftarrow> (if sizeInOd = 0 \<or> ucast sizeInOd > C_sizeTran c then put_local_zero b c else Some (b, c));
        Some (b, ret, code, C_set_dataLength (ucast (C_sizeTran c)) c)
      }
      else if sizeInOd = 0 then Some (b, ret, code, C_set_dataLength (ucast (C_sizeTran c)) c)
      else if C_sizeTran c \<noteq> ucast sizeInOd then
        Some (b, CO_SDO_RT_endedWithClientAbort,
              if C_sizeTran c > ucast sizeInOd then CO_SDO_AB_DATA_LONG else CO_SDO_AB_DATA_SHORT, c)
      else Some (b, ret, code, c))"

definition local_download_check ::
    "bool \<Rightarrow> u8 list \<Rightarrow> CO_SDO_return \<Rightarrow> u32 \<Rightarrow> client \<Rightarrow> (u8 list \<times> cli_result) option" where
  "local_download_check bufferPartial b ret code c =
     (let count = length b; c = c\<lparr>C_sizeTran := C_sizeTran c + word_of_nat count\<rparr> in
      if count = 0 \<or> count > CO_CONFIG_SDO_CLI_BUFFER_SIZE then
        Some (b, CO_SDO_RT_endedWithClientAbort, CO_SDO_AB_DEVICE_INCOMPAT, c)
      else if C_sizeInd c > 0 \<and> C_sizeTran c > C_sizeInd c then
        Some (b, CO_SDO_RT_endedWithClientAbort, CO_SDO_AB_DATA_LONG,
              c\<lparr>C_sizeTran := C_sizeTran c - word_of_nat count\<rparr>)
      else if \<not> bufferPartial \<and> C_sizeInd c > 0 \<and> C_sizeTran c < C_sizeInd c then
        Some (b, CO_SDO_RT_endedWithClientAbort, CO_SDO_AB_DATA_SHORT, c)
      else if \<not> bufferPartial then local_download_last b ret code c
      else Some (b, ret, code, c))"

definition local_download_write :: "bool \<Rightarrow> OD_write_fn \<Rightarrow> u8 list \<Rightarrow> CO_SDO_return \<Rightarrow> client \<Rightarrow> cli_result" where
  "local_download_write bufferPartial wr b ret c =
     (let (odRet, st, k, m) = wr (C_stream c) b (C_mem c);
          c = c\<lparr>C_stream := st, C_mem := m\<rparr>
      in if odRet \<noteq> ODR_OK \<and> odRet \<noteq> ODR_PARTIAL then
           (CO_SDO_RT_endedWithServerAbort, OD_getSDOabCode odRet, c)
         else if bufferPartial \<and> odRet = ODR_OK then (CO_SDO_RT_endedWithClientAbort, CO_SDO_AB_DATA_LONG, c)
         else if \<not> bufferPartial then
           if odRet = ODR_PARTIAL then (CO_SDO_RT_endedWithClientAbort, CO_SDO_AB_DATA_SHORT, c)
           else (CO_SDO_RT_ok_communicationEnd, CO_SDO_AB_NONE, c)
         else (CO_SDO_RT_waitingLocalTransfer, CO_SDO_AB_NONE, c))"

definition local_download_pass ::
    "bool \<Rightarrow> OD_write_fn \<Rightarrow> CO_SDO_return \<Rightarrow> u32 \<Rightarrow> client \<Rightarrow> cli_result option" where
  "local_download_pass bufferPartial wr ret code c =
     (let count = CO_fifo_getOccupied (C_bufFifo c);
          (b, _, f) = CO_fifo_read (C_bufFifo c) count False;
          c = c\<lparr>C_bufFifo := f\<rparr>
      in if length b = count \<and> count \<le> CO_CONFIG_SDO_CLI_BUFFER_SIZE + 2 then do {
           (b, ret, code, c) \<leftarrow> local_download_check bufferPartial b ret code c;
           Some (if code = CO_SDO_AB_NONE then local_download_write bufferPartial wr b ret c
                 else (ret, code, c))
         }
         else None)"

definition local_download :: "bool \<Rightarrow> client \<Rightarrow> cli_result option" where
  "local_download bufferPartial c = do {
     let (ret, code, c) =
       (if Option.is_none (C_write c) then local_download_open c
        else (CO_SDO_RT_waitingResponse, CO_SDO_AB_NONE, c));
     (ret, code, c) \<leftarrow>
       (case C_write c of
          None \<Rightarrow> Some (ret, code, c)
        | Some wr \<Rightarrow> local_download_pass bufferPartial wr ret code c);
     Some (ret, code, if ret \<noteq> CO_SDO_RT_waitingLocalTransfer then c\<lparr>C_state := CO_SDO_ST_IDLE\<rparr> else c)
   }"

definition local_upload_open :: "client \<Rightarrow> cli_result" where
  "local_upload_open c =
     (let (odRet, c) = C_getSub c; att = attribute (C_stream c) in
      if odRet \<noteq> ODR_OK then (CO_SDO_RT_endedWithClientAbort, OD_getSDOabCode odRet, c)
      else if att AND ODA_SDO_RW = 0 then (CO_SDO_RT_endedWithClientAbort, CO_SDO_AB_UNSUPPORTED_ACCESS, c)
      else if att AND ODA_SDO_R = 0 then (CO_SDO_RT_endedWithClientAbort, CO_SDO_AB_WRITEONLY, c)
      else if Option.is_none (C_read c) then (CO_SDO_RT_endedWithClientAbort, CO_SDO_AB_DEVICE_INCOMPAT, c)
      else (CO_SDO_RT_waitingResponse, CO_SDO_AB_NONE, c))"

text \<open>A string ends at its terminator; at least one byte is transferred.\<close>

definition local_upload_string :: "ODR \<Rightarrow> u8 list \<Rightarrow> client \<Rightarrow> ODR \<times> u8 list \<times> client" where
  "local_upload_string odRet b c =
     (if length b > 0 \<and> length b \<le> CO_CONFIG_SDO_CLI_BUFFER_SIZE \<and> attribute (C_stream c) AND ODA_STR \<noteq> 0 then
        let countStr = length (takeWhile (\<lambda>x. x \<noteq> 0) b);
            countStr = (if countStr = 0 then 1 else countStr)
        in if countStr < length b then
             (ODR_OK, take countStr b, C_set_dataLength (ucast (C_sizeTran c) + word_of_nat countStr) c)
           else (odRet, b, c)
      else (odRet, b, c))"

definition local_upload_finish :: "ODR \<Rightarrow> u8 list \<Rightarrow> u32 \<Rightarrow> client \<Rightarrow> cli_result" where
  "local_upload_finish odRet b code c =
     (let (_, f, _) = CO_fifo_write (C_bufFifo c) b None;
          c = c\<lparr>C_bufFifo := f, C_sizeTran := C_sizeTran c + word_of_nat (length b),
                C_sizeInd := ucast (dataLength (C_stream c))\<rparr>
      in if C_sizeInd c > 0 \<and> C_sizeTran c > C_sizeInd c then
           (CO_SDO_RT_endedWithClientAbort, CO_SDO_AB_DATA_LONG, c)
         else if odRet = ODR_OK then
           if C_sizeInd c > 0 \<and> C_sizeTran c < C_sizeInd c then
             (CO_SDO_RT_endedWithClientAbort, CO_SDO_AB_DATA_SHORT, c)
           else (CO_SDO_RT_ok_communicationEnd, code, c)
         else (CO_SDO_RT_waitingLocalTransfer, code, c))"

text \<open>One read from the dictionary into the local buffer of 1001 bytes.\<close>

definition local_upload_pass :: "OD_read_fn \<Rightarrow> u32 \<Rightarrow> client \<Rightarrow> cli_result option" where
  "local_upload_pass rd code c =
     (let countFifo = CO_fifo_getSpace (C_bufFifo c);
          countData = dataLength (C_stream c);
          countBuf = (if countData > 0 \<and> unat countData \<le> countFifo then countData else word_of_nat countFifo);
          (odRet, st, b, m) = rd (C_stream c) countBuf (C_mem c);
          c = c\<lparr>C_stream := st, C_mem := m\<rparr>
      in if length b > CO_CONFIG_SDO_CLI_BUFFER_SIZE + 1 then None
         else if odRet \<noteq> ODR_OK \<and> odRet \<noteq> ODR_PARTIAL then
           Some (CO_SDO_RT_endedWithServerAbort, OD_getSDOabCode odRet, c)
         else let (odRet, b, c) = local_upload_string odRet b c in Some (local_upload_finish odRet b code c))"

definition local_upload :: "client \<Rightarrow> cli_result option" where
  "local_upload c = do {
     let (ret, code, c) =
       (if Option.is_none (C_read c) then local_upload_open c
        else (CO_SDO_RT_waitingResponse, CO_SDO_AB_NONE, c));
     (ret, code, c) \<leftarrow>
       (if CO_fifo_getSpace (C_bufFifo c) = 0 then Some (CO_SDO_RT_uploadDataBufferFull, code, c)
        else
          case C_read c of
            None \<Rightarrow> Some (ret, code, c)
          | Some rd \<Rightarrow> local_upload_pass rd code c);
     Some (ret, code,
           if ret \<noteq> CO_SDO_RT_uploadDataBufferFull \<and> ret \<noteq> CO_SDO_RT_waitingLocalTransfer
           then c\<lparr>C_state := CO_SDO_ST_IDLE\<rparr> else c)
   }"

end
