(* ===== verification/SDO_Client_Process.thy ===== *)
theory SDO_Client_Process
  imports SDO_Client
begin

text \<open>
  \<open>CO_SDOclientDownload\<close> and \<open>CO_SDOclientUpload\<close> of \<open>301/CO_SDOclient.c\<close>: the branches of their
  switches as one definition each, and their composition in the source's order.
\<close>

section \<open>Download: receive handlers\<close>

abbreviation C_wait :: "u32 \<Rightarrow> client \<Rightarrow> cli_result" where
  "C_wait code c \<equiv> (CO_SDO_RT_waitingResponse, code, c)"

definition C_fail :: "u32 \<Rightarrow> client \<Rightarrow> cli_result" where
  "C_fail code c = C_wait code (c\<lparr>C_state := CO_SDO_ST_ABORT\<rparr>)"

definition C_next :: "CO_SDO_state \<Rightarrow> client \<Rightarrow> cli_result" where
  "C_next st c = C_wait CO_SDO_AB_NONE (c\<lparr>C_state := st\<rparr>)"

definition C_end :: "client \<Rightarrow> cli_result" where
  "C_end c = (CO_SDO_RT_ok_communicationEnd, CO_SDO_AB_NONE, c\<lparr>C_state := CO_SDO_ST_IDLE\<rparr>)"

definition crx_DOWNLOAD_INITIATE_RSP :: "client \<Rightarrow> cli_result" where
  "crx_DOWNLOAD_INITIATE_RSP c =
     (if C_CANrxData c ! 0 = 0x60 then
        if \<not> C_same_object c then C_fail CO_SDO_AB_PRAM_INCOMPAT c
        else if C_finished c then C_end c
        else C_next CO_SDO_ST_DOWNLOAD_SEGMENT_REQ (c\<lparr>C_toggle := 0x00\<rparr>)
      else C_fail CO_SDO_AB_CMD c)"

definition crx_DOWNLOAD_SEGMENT_RSP :: "client \<Rightarrow> cli_result" where
  "crx_DOWNLOAD_SEGMENT_RSP c =
     (if C_CANrxData c ! 0 AND 0xEF = 0x20 then
        let tog = C_CANrxData c ! 0 AND 0x10 in
        if tog \<noteq> C_toggle c then C_fail CO_SDO_AB_TOGGLE_BIT c
        else
          let c = c\<lparr>C_toggle := toggled tog\<rparr> in
          if C_finished c then C_end c else C_next CO_SDO_ST_DOWNLOAD_SEGMENT_REQ c
      else C_fail CO_SDO_AB_CMD c)"

definition crx_DOWNLOAD_BLK_INITIATE_RSP :: "client \<Rightarrow> cli_result" where
  "crx_DOWNLOAD_BLK_INITIATE_RSP c =
     (if C_CANrxData c ! 0 AND 0xFB = 0xA0 then
        if \<not> C_same_object c then C_fail CO_SDO_AB_PRAM_INCOMPAT c
        else
          let b = C_CANrxData c ! 4;
              c = c\<lparr>C_block_crc := 0, C_block_blksize := (if b < 1 \<or> b > 127 then 127 else b),
                    C_block_seqno := 0, C_bufFifo := snd (CO_fifo_altBegin (C_bufFifo c) 0)\<rparr>
          in C_next CO_SDO_ST_DOWNLOAD_BLK_SUBBLOCK_REQ c
      else C_fail CO_SDO_AB_CMD c)"

text \<open>The server confirmed fewer segments than were sent: the data after them is read again.\<close>

definition download_back :: "client \<Rightarrow> client" where
  "download_back c =
     (let ackseq = C_CANrxData c ! 1 in
      if ackseq < C_block_seqno c then
        let cntFailed = (ucast (C_block_seqno c) - ucast ackseq) * 7 - ucast (C_block_noData c) in
        c\<lparr>C_sizeTran := C_sizeTran c - cntFailed,
          C_bufFifo := snd (CO_fifo_altBegin (C_bufFifo c) (unat ackseq * 7)), C_finished := False\<rparr>
      else c)"

definition crx_DOWNLOAD_BLK_SUBBLOCK :: "client \<Rightarrow> cli_result option" where
  "crx_DOWNLOAD_BLK_SUBBLOCK c =
     (if C_CANrxData c ! 0 = 0xA2 then
        if C_CANrxData c ! 1 > C_block_seqno c then Some (C_fail CO_SDO_AB_CMD c)
        else do {
          let c = download_back c;
          (f, crc) \<leftarrow> CO_fifo_altFinish (C_bufFifo c) (Some (C_block_crc c));
          let c = c\<lparr>C_bufFifo := f, C_block_crc := the crc\<rparr>;
          Some (if C_finished c then C_next CO_SDO_ST_DOWNLOAD_BLK_END_REQ c
                else C_next CO_SDO_ST_DOWNLOAD_BLK_SUBBLOCK_REQ
                       (c\<lparr>C_block_blksize := C_CANrxData c ! 2, C_block_seqno := 0,
                          C_bufFifo := snd (CO_fifo_altBegin (C_bufFifo c) 0)\<rparr>))
        }
      else Some (C_fail CO_SDO_AB_CMD c))"

definition crx_DOWNLOAD_BLK_END_RSP :: "client \<Rightarrow> cli_result" where
  "crx_DOWNLOAD_BLK_END_RSP c =
     (if C_CANrxData c ! 0 = 0xA1 then C_end c else C_fail CO_SDO_AB_CMD c)"

definition crx_download_state :: "client \<Rightarrow> cli_result option" where
  "crx_download_state c =
     (case C_state c of
        CO_SDO_ST_DOWNLOAD_INITIATE_RSP \<Rightarrow> Some (crx_DOWNLOAD_INITIATE_RSP c)
      | CO_SDO_ST_DOWNLOAD_SEGMENT_RSP \<Rightarrow> Some (crx_DOWNLOAD_SEGMENT_RSP c)
      | CO_SDO_ST_DOWNLOAD_BLK_INITIATE_RSP \<Rightarrow> Some (crx_DOWNLOAD_BLK_INITIATE_RSP c)
      | CO_SDO_ST_DOWNLOAD_BLK_SUBBLOCK_REQ \<Rightarrow> crx_DOWNLOAD_BLK_SUBBLOCK c
      | CO_SDO_ST_DOWNLOAD_BLK_SUBBLOCK_RSP \<Rightarrow> crx_DOWNLOAD_BLK_SUBBLOCK c
      | CO_SDO_ST_DOWNLOAD_BLK_END_RSP \<Rightarrow> Some (crx_DOWNLOAD_BLK_END_RSP c)
      | _ \<Rightarrow> Some (C_fail CO_SDO_AB_CMD c))"

text \<open>
  A received frame, in both functions: an abort of the server ends the transfer, a request to abort
  comes next, otherwise the state decides. \<open>abortIn\<close> is the code at \<open>SDOabortCode\<close>, if it is not \<open>NULL\<close>.
\<close>

definition C_abort_request :: "u32 option \<Rightarrow> client \<Rightarrow> cli_result" where
  "C_abort_request abortIn c =
     C_fail (case abortIn of Some a \<Rightarrow> a | None \<Rightarrow> CO_SDO_AB_DEVICE_INCOMPAT) c"

definition C_rx ::
    "(client \<Rightarrow> cli_result option) \<Rightarrow> bool \<Rightarrow> u32 option \<Rightarrow> client \<Rightarrow> cli_result option" where
  "C_rx handler send_abort abortIn c = do {
     (ret, code, c) \<leftarrow>
       (if C_CANrxData c ! 0 = 0x80 then
          Some (CO_SDO_RT_endedWithServerAbort, le_word (take 4 (drop 4 (C_CANrxData c))),
                c\<lparr>C_state := CO_SDO_ST_IDLE\<rparr>)
        else if send_abort then Some (C_abort_request abortIn c)
        else handler c);
     Some (ret, code, c\<lparr>C_timeoutTimer := 0, C_CANrxNew := False\<rparr>)
   }"

section \<open>Download: transmit handlers\<close>

text \<open>A transmit handler also gets and returns \<open>timerNext\<close>.\<close>

type_synonym cli_tx_result = "(CO_SDO_return \<times> u32 \<times> u32 option \<times> client) option"

abbreviation C_tx_wait :: "u32 \<Rightarrow> u32 option \<Rightarrow> client \<Rightarrow> cli_tx_result" where
  "C_tx_wait code tn c \<equiv> Some (CO_SDO_RT_waitingResponse, code, tn, c)"

text \<open>The end of most handlers: the timer is reset, the message is sent, the state changes.\<close>

definition C_transmit :: "u32 \<Rightarrow> u32 option \<Rightarrow> CO_SDO_state \<Rightarrow> client \<Rightarrow> cli_tx_result" where
  "C_transmit code tn st c = C_tx_wait code tn ((C_send (c\<lparr>C_timeoutTimer := 0\<rparr>))\<lparr>C_state := st\<rparr>)"

definition ctx_DOWNLOAD_INITIATE_REQ :: "u32 \<Rightarrow> u32 option \<Rightarrow> client \<Rightarrow> cli_tx_result" where
  "ctx_DOWNLOAD_INITIATE_REQ code tn c =
     (let c = C_tx_header 0x20 c; count = CO_fifo_getOccupied (C_bufFifo c) in
      if (C_sizeInd c = 0 \<and> count \<le> 4) \<or> (C_sizeInd c > 0 \<and> C_sizeInd c \<le> 4) then
        let c = C_tx_put [(0, C_CANtx_data c ! 0 OR 0x02)] c in
        if count = 0 \<or> (C_sizeInd c > 0 \<and> C_sizeInd c \<noteq> word_of_nat count) then
          Some (CO_SDO_RT_endedWithClientAbort, CO_SDO_AB_TYPE_MISMATCH, tn, c\<lparr>C_state := CO_SDO_ST_IDLE\<rparr>)
        else do {
          let c = (if C_sizeInd c > 0
                   then C_tx_put [(0, C_CANtx_data c ! 0 OR (0x01 OR push_bit 2 (4 - word_of_nat count)))] c
                   else c);
          let (d, _, f) = CO_fifo_read (C_bufFifo c) count False;
          c \<leftarrow> C_tx_copy 4 d (c\<lparr>C_bufFifo := f\<rparr>);
          C_transmit code tn CO_SDO_ST_DOWNLOAD_INITIATE_RSP
            (c\<lparr>C_sizeTran := word_of_nat count, C_finished := True\<rparr>)
        }
      else do {
        c \<leftarrow> (if C_sizeInd c > 0 then C_tx_size (C_tx_put [(0, C_CANtx_data c ! 0 OR 0x01)] c) else Some c);
        C_transmit code tn CO_SDO_ST_DOWNLOAD_INITIATE_RSP c
      })"

definition ctx_DOWNLOAD_SEGMENT_REQ :: "bool \<Rightarrow> u32 \<Rightarrow> u32 option \<Rightarrow> client \<Rightarrow> cli_tx_result" where
  "ctx_DOWNLOAD_SEGMENT_REQ bufferPartial code tn c = do {
     let (d, _, f) = CO_fifo_read (C_bufFifo c) 7 False;
     c \<leftarrow> C_tx_copy 1 d (c\<lparr>C_bufFifo := f\<rparr>);
     let count = length d;
     let c = c\<lparr>C_sizeTran := C_sizeTran c + word_of_nat count\<rparr>;
     if C_sizeInd c > 0 \<and> C_sizeTran c > C_sizeInd c then
       C_tx_wait CO_SDO_AB_DATA_LONG tn
         (c\<lparr>C_sizeTran := C_sizeTran c - word_of_nat count, C_state := CO_SDO_ST_ABORT\<rparr>)
     else
       let c = C_tx_put [(0, C_toggle c OR push_bit 1 (7 - word_of_nat count))] c in
       if CO_fifo_getOccupied (C_bufFifo c) = 0 \<and> \<not> bufferPartial then
         if C_sizeInd c > 0 \<and> C_sizeTran c < C_sizeInd c then
           C_tx_wait CO_SDO_AB_DATA_SHORT tn (c\<lparr>C_state := CO_SDO_ST_ABORT\<rparr>)
         else
           C_transmit code tn CO_SDO_ST_DOWNLOAD_SEGMENT_RSP
             ((C_tx_put [(0, C_CANtx_data c ! 0 OR 0x01)] c)\<lparr>C_finished := True\<rparr>)
       else C_transmit code tn CO_SDO_ST_DOWNLOAD_SEGMENT_RSP c
   }"

definition ctx_DOWNLOAD_BLK_INITIATE_REQ :: "u32 \<Rightarrow> u32 option \<Rightarrow> client \<Rightarrow> cli_tx_result" where
  "ctx_DOWNLOAD_BLK_INITIATE_REQ code tn c = do {
     let c = C_tx_header 0xC4 c;
     c \<leftarrow> (if C_sizeInd c > 0 then C_tx_size (C_tx_put [(0, C_CANtx_data c ! 0 OR 0x02)] c) else Some c);
     C_transmit code tn CO_SDO_ST_DOWNLOAD_BLK_INITIATE_RSP c
   }"

definition ctx_DOWNLOAD_BLK_SUBBLOCK_REQ :: "bool \<Rightarrow> u32 \<Rightarrow> u32 option \<Rightarrow> client \<Rightarrow> cli_tx_result" where
  "ctx_DOWNLOAD_BLK_SUBBLOCK_REQ bufferPartial code tn c =
     (if CO_fifo_altGetOccupied (C_bufFifo c) < 7 \<and> bufferPartial then C_tx_wait code tn c
      else do {
        let c = c\<lparr>C_block_seqno := C_block_seqno c + 1\<rparr>;
        let c = C_tx_put [(0, C_block_seqno c)] c;
        let (d, f) = CO_fifo_altRead (C_bufFifo c) 7;
        c \<leftarrow> C_tx_copy 1 d (c\<lparr>C_bufFifo := f\<rparr>);
        let count = length d;
        let c = c\<lparr>C_block_noData := 7 - word_of_nat count, C_sizeTran := C_sizeTran c + word_of_nat count\<rparr>;
        if C_sizeInd c > 0 \<and> C_sizeTran c > C_sizeInd c then
          C_tx_wait CO_SDO_AB_DATA_LONG tn
            (c\<lparr>C_sizeTran := C_sizeTran c - word_of_nat count, C_state := CO_SDO_ST_ABORT\<rparr>)
        else if CO_fifo_altGetOccupied (C_bufFifo c) = 0 \<and> \<not> bufferPartial then
          if C_sizeInd c > 0 \<and> C_sizeTran c < C_sizeInd c then
            C_tx_wait CO_SDO_AB_DATA_SHORT tn (c\<lparr>C_state := CO_SDO_ST_ABORT\<rparr>)
          else
            C_transmit code tn CO_SDO_ST_DOWNLOAD_BLK_SUBBLOCK_RSP
              ((C_tx_put [(0, C_CANtx_data c ! 0 OR 0x80)] c)\<lparr>C_finished := True\<rparr>)
        else if C_block_seqno c \<ge> C_block_blksize c then
          C_transmit code tn CO_SDO_ST_DOWNLOAD_BLK_SUBBLOCK_RSP c
        else C_transmit code (map_option (\<lambda>_. 0) tn) (C_state c) c
      })"

definition ctx_DOWNLOAD_BLK_END_REQ :: "u32 \<Rightarrow> u32 option \<Rightarrow> client \<Rightarrow> cli_tx_result" where
  "ctx_DOWNLOAD_BLK_END_REQ code tn c =
     C_transmit code tn CO_SDO_ST_DOWNLOAD_BLK_END_RSP
       (C_tx_put [(0, 0xC1 OR push_bit 2 (C_block_noData c)), (1, ucast (C_block_crc c)),
                  (2, ucast (drop_bit 8 (C_block_crc c)))] c)"

definition ctx_download :: "bool \<Rightarrow> u32 \<Rightarrow> u32 option \<Rightarrow> client \<Rightarrow> cli_tx_result" where
  "ctx_download bufferPartial code tn c =
     (let c = c\<lparr>C_CANtx_data := replicate 8 0\<rparr> in
      case C_state c of
        CO_SDO_ST_DOWNLOAD_INITIATE_REQ \<Rightarrow> ctx_DOWNLOAD_INITIATE_REQ code tn c
      | CO_SDO_ST_DOWNLOAD_SEGMENT_REQ \<Rightarrow> ctx_DOWNLOAD_SEGMENT_REQ bufferPartial code tn c
      | CO_SDO_ST_DOWNLOAD_BLK_INITIATE_REQ \<Rightarrow> ctx_DOWNLOAD_BLK_INITIATE_REQ code tn c
      | CO_SDO_ST_DOWNLOAD_BLK_SUBBLOCK_REQ \<Rightarrow> ctx_DOWNLOAD_BLK_SUBBLOCK_REQ bufferPartial code tn c
      | CO_SDO_ST_DOWNLOAD_BLK_END_REQ \<Rightarrow> ctx_DOWNLOAD_BLK_END_REQ code tn c
      | _ \<Rightarrow> C_tx_wait code tn c)"

section \<open>Download\<close>

text \<open>The timeout, with the abort code for the state in which it expires.\<close>

definition C_timeout ::
    "(client \<Rightarrow> u32) \<Rightarrow> u32 \<Rightarrow> u32 \<Rightarrow> u32 option \<Rightarrow> client \<Rightarrow> u32 \<times> u32 option \<times> client" where
  "C_timeout reason code dt tn c =
     (let c = (if C_timeoutTimer c < C_SDOtimeoutTime_us c then c\<lparr>C_timeoutTimer := C_timeoutTimer c + dt\<rparr> else c)
      in if C_timeoutTimer c \<ge> C_SDOtimeoutTime_us c then (reason c, tn, c\<lparr>C_state := CO_SDO_ST_ABORT\<rparr>)
         else (code, timer_next tn (C_SDOtimeoutTime_us c - C_timeoutTimer c), c))"

text \<open>The abort message at the end of both functions.\<close>

definition C_finish :: "CO_SDO_state \<Rightarrow> CO_SDO_return \<Rightarrow> CO_SDO_return \<Rightarrow> u32 \<Rightarrow> client \<Rightarrow> CO_SDO_return \<times> client" where
  "C_finish blkState blkRet ret code c =
     (if ret = CO_SDO_RT_waitingResponse then
        if C_state c = CO_SDO_ST_ABORT then
          let c = C_tx_header 0x80 c;
              c = c\<lparr>C_CANtx_data := take 4 (C_CANtx_data c) @ le_bytes 4 code\<rparr>
          in (CO_SDO_RT_endedWithClientAbort, (C_send c)\<lparr>C_state := CO_SDO_ST_IDLE\<rparr>)
        else if C_state c = blkState then (blkRet, c)
        else (ret, c)
      else (ret, c))"

text \<open>
  What follows the handling of received data in both functions, while the transfer waits: the
  timers, the transmission unless the transmit buffer is full, the abort. \<open>timers\<close>, \<open>tx\<close> and the block
  state are those of the download or of the upload.
\<close>

definition C_continue ::
    "(u32 \<Rightarrow> u32 \<Rightarrow> u32 option \<Rightarrow> client \<Rightarrow> u32 \<times> u32 option \<times> client) \<Rightarrow>
     (u32 \<Rightarrow> u32 option \<Rightarrow> client \<Rightarrow> cli_tx_result) \<Rightarrow> CO_SDO_state \<Rightarrow> CO_SDO_return \<Rightarrow>
     u32 \<Rightarrow> u32 \<Rightarrow> u32 option \<Rightarrow> client \<Rightarrow> cli_tx_result" where
  "C_continue timers tx blkState blkRet code dt tn c =
     (let (code, tn, c) = timers code dt tn c in
      if C_CANtx_bufferFull c then Some (CO_SDO_RT_transmittBufferFull, code, tn, c)
      else do {
        (ret, code, tn, c) \<leftarrow> tx code tn c;
        let (ret, c) = C_finish blkState blkRet ret code c;
        Some (ret, code, tn, c)
      })"

definition download_timers :: "u32 \<Rightarrow> u32 \<Rightarrow> u32 option \<Rightarrow> client \<Rightarrow> u32 \<times> u32 option \<times> client" where
  "download_timers = C_timeout (\<lambda>_. CO_SDO_AB_TIMEOUT)"

text \<open>
  The function returns its return value, the abort code written to \<open>SDOabortCode\<close>, \<open>timerNext\<close> and the
  client, whose \<open>sizeTran\<close> is the value written to \<open>sizeTransferred\<close>.
\<close>

definition CO_SDOclientDownload ::
    "client \<Rightarrow> u32 \<Rightarrow> bool \<Rightarrow> bool \<Rightarrow> u32 option \<Rightarrow> u32 option \<Rightarrow> cli_tx_result" where
  "CO_SDOclientDownload c dt send_abort bufferPartial abortIn tn =
     (if \<not> C_valid c then Some (CO_SDO_RT_wrongArguments, CO_SDO_AB_DEVICE_INCOMPAT, tn, c)
      else if C_state c = CO_SDO_ST_IDLE then Some (CO_SDO_RT_ok_communicationEnd, CO_SDO_AB_NONE, tn, c)
      else do {
        (ret, code, c', tn) \<leftarrow>
          (if C_state c = CO_SDO_ST_DOWNLOAD_LOCAL_TRANSFER \<and> \<not> send_abort then do {
             (ret, code, c) \<leftarrow> local_download bufferPartial c;
             Some (ret, code, c, if ret = CO_SDO_RT_waitingLocalTransfer then map_option (\<lambda>_. 0) tn else tn)
           }
           else if C_CANrxNew c then do {
             (ret, code, c) \<leftarrow> C_rx crx_download_state send_abort abortIn c;
             Some (ret, code, c, tn)
           }
           else if send_abort then let (ret, code, c) = C_abort_request abortIn c in Some (ret, code, c, tn)
           else Some (CO_SDO_RT_waitingResponse, CO_SDO_AB_NONE, c, tn));
        let isRx = (\<not> (C_state c = CO_SDO_ST_DOWNLOAD_LOCAL_TRANSFER \<and> \<not> send_abort) \<and> C_CANrxNew c);
        if ret = CO_SDO_RT_waitingResponse then
          C_continue download_timers (ctx_download bufferPartial) CO_SDO_ST_DOWNLOAD_BLK_SUBBLOCK_REQ
            CO_SDO_RT_blockDownldInProgress code (if isRx then 0 else dt) tn c'
        else Some (ret, code, tn, c')
      })"

section \<open>Upload: receive handlers\<close>

text \<open>A response to a regular upload request: the data itself, or the start of a segmented transfer.\<close>

definition crx_upload_regular :: "client \<Rightarrow> cli_result" where
  "crx_upload_regular c =
     (if \<not> C_same_object c then C_fail CO_SDO_AB_PRAM_INCOMPAT c
      else
        let cmd = C_CANrxData c ! 0 in
        if cmd AND 0x02 \<noteq> 0 then
          let count = (if cmd AND 0x01 \<noteq> 0 then 4 - unat (drop_bit 2 cmd AND 0x03) else 4);
              (_, f, _) = CO_fifo_write (C_bufFifo c) (take count (drop 4 (C_CANrxData c))) None
          in C_end (c\<lparr>C_bufFifo := f, C_sizeTran := word_of_nat count\<rparr>)
        else
          let c = (if cmd AND 0x01 \<noteq> 0
                   then c\<lparr>C_sizeInd := ucast (le_word (take 4 (drop 4 (C_CANrxData c))) :: u32)\<rparr> else c)
          in C_next CO_SDO_ST_UPLOAD_SEGMENT_REQ (c\<lparr>C_toggle := 0x00\<rparr>))"

definition crx_UPLOAD_INITIATE_RSP :: "client \<Rightarrow> cli_result" where
  "crx_UPLOAD_INITIATE_RSP c =
     (if C_CANrxData c ! 0 AND 0xF0 = 0x40 then crx_upload_regular c else C_fail CO_SDO_AB_CMD c)"

definition crx_UPLOAD_SEGMENT_RSP :: "client \<Rightarrow> cli_result" where
  "crx_UPLOAD_SEGMENT_RSP c =
     (let cmd = C_CANrxData c ! 0 in
      if cmd AND 0xE0 = 0x00 then
        let tog = cmd AND 0x10 in
        if tog \<noteq> C_toggle c then C_fail CO_SDO_AB_TOGGLE_BIT c
        else
          let c = c\<lparr>C_toggle := toggled tog\<rparr>;
              count = 7 - unat (drop_bit 1 cmd AND 0x07);
              (countWr, f, _) = CO_fifo_write (C_bufFifo c) (take count (drop 1 (C_CANrxData c))) None;
              c = c\<lparr>C_bufFifo := f, C_sizeTran := C_sizeTran c + word_of_nat countWr\<rparr>
          in if countWr \<noteq> count then C_fail CO_SDO_AB_OUT_OF_MEM c
             else if C_sizeInd c > 0 \<and> C_sizeTran c > C_sizeInd c then C_fail CO_SDO_AB_DATA_LONG c
             else if cmd AND 0x01 \<noteq> 0 then
               if C_sizeInd c > 0 \<and> C_sizeTran c < C_sizeInd c then C_fail CO_SDO_AB_DATA_SHORT c
               else C_end c
             else C_next CO_SDO_ST_UPLOAD_SEGMENT_REQ c
      else C_fail CO_SDO_AB_CMD c)"

definition crx_UPLOAD_BLK_INITIATE_RSP :: "client \<Rightarrow> cli_result" where
  "crx_UPLOAD_BLK_INITIATE_RSP c =
     (let cmd = C_CANrxData c ! 0 in
      if cmd AND 0xF9 = 0xC0 then
        let c = c\<lparr>C_block_crcEnabled := (cmd AND 0x04 \<noteq> 0)\<rparr>;
            c = (if cmd AND 0x02 \<noteq> 0
                 then c\<lparr>C_sizeInd := ucast (le_word (take 4 (drop 4 (C_CANrxData c))) :: u32)\<rparr> else c)
        in if \<not> C_same_object c then C_fail CO_SDO_AB_PRAM_INCOMPAT c
           else C_next CO_SDO_ST_UPLOAD_BLK_INITIATE_REQ2 c
      else if cmd AND 0xF0 = 0x40 then crx_upload_regular c
      else C_fail CO_SDO_AB_CMD c)"

definition crx_UPLOAD_BLK_END_SREQ :: "client \<Rightarrow> cli_result" where
  "crx_UPLOAD_BLK_END_SREQ c =
     (let d = C_CANrxData c in
      if d ! 0 AND 0xE3 = 0xC1 then
        let noData = drop_bit 2 (d ! 0) AND 0x07;
            count = 7 - unat noData;
            (_, f, crc) = CO_fifo_write (C_bufFifo c) (take count (C_block_dataUploadLast c)) (Some (C_block_crc c));
            c = c\<lparr>C_bufFifo := f, C_block_crc := the crc, C_sizeTran := C_sizeTran c + word_of_nat count\<rparr>
        in if C_sizeInd c > 0 \<and> C_sizeTran c \<noteq> C_sizeInd c then
             C_fail (if C_sizeTran c > C_sizeInd c then CO_SDO_AB_DATA_LONG else CO_SDO_AB_DATA_SHORT) c
           else if C_block_crcEnabled c \<and> push_bit 8 (ucast (d ! 2)) OR ucast (d ! 1) \<noteq> C_block_crc c then
             C_fail CO_SDO_AB_CRC c
           else C_next CO_SDO_ST_UPLOAD_BLK_END_CRSP c
      else C_fail CO_SDO_AB_CMD c)"

definition crx_upload_state :: "client \<Rightarrow> cli_result option" where
  "crx_upload_state c =
     Some (case C_state c of
        CO_SDO_ST_UPLOAD_INITIATE_RSP \<Rightarrow> crx_UPLOAD_INITIATE_RSP c
      | CO_SDO_ST_UPLOAD_SEGMENT_RSP \<Rightarrow> crx_UPLOAD_SEGMENT_RSP c
      | CO_SDO_ST_UPLOAD_BLK_INITIATE_RSP \<Rightarrow> crx_UPLOAD_BLK_INITIATE_RSP c
      | CO_SDO_ST_UPLOAD_BLK_SUBBLOCK_SREQ \<Rightarrow> C_wait CO_SDO_AB_NONE c
      | CO_SDO_ST_UPLOAD_BLK_END_SREQ \<Rightarrow> crx_UPLOAD_BLK_END_SREQ c
      | _ \<Rightarrow> C_fail CO_SDO_AB_CMD c)"

section \<open>Upload: timers and transmit handlers\<close>

definition upload_timeout_reason :: "client \<Rightarrow> u32" where
  "upload_timeout_reason c =
     (if C_state c = CO_SDO_ST_UPLOAD_SEGMENT_REQ \<or> C_state c = CO_SDO_ST_UPLOAD_BLK_SUBBLOCK_CRSP
      then CO_SDO_AB_GENERAL else CO_SDO_AB_TIMEOUT)"

definition upload_timers :: "u32 \<Rightarrow> u32 \<Rightarrow> u32 option \<Rightarrow> client \<Rightarrow> u32 \<times> u32 option \<times> client" where
  "upload_timers code dt tn c =
     (let (code, tn, c) = C_timeout upload_timeout_reason code dt tn c in
      if C_state c = CO_SDO_ST_UPLOAD_BLK_SUBBLOCK_SREQ then
        let c = (if C_block_timeoutTimer c < C_block_SDOtimeoutTime_us c
                 then c\<lparr>C_block_timeoutTimer := C_block_timeoutTimer c + dt\<rparr> else c)
        in if C_block_timeoutTimer c \<ge> C_block_SDOtimeoutTime_us c then
             (code, tn, c\<lparr>C_state := CO_SDO_ST_UPLOAD_BLK_SUBBLOCK_CRSP, C_CANrxNew := False\<rparr>)
           else (code, timer_next tn (C_block_SDOtimeoutTime_us c - C_block_timeoutTimer c), c)
      else (code, tn, c))"

definition ctx_UPLOAD_INITIATE_REQ :: "u32 \<Rightarrow> u32 option \<Rightarrow> client \<Rightarrow> cli_tx_result" where
  "ctx_UPLOAD_INITIATE_REQ code tn c = C_transmit code tn CO_SDO_ST_UPLOAD_INITIATE_RSP (C_tx_header 0x40 c)"

definition ctx_UPLOAD_SEGMENT_REQ :: "u32 \<Rightarrow> u32 option \<Rightarrow> client \<Rightarrow> cli_tx_result" where
  "ctx_UPLOAD_SEGMENT_REQ code tn c =
     (if CO_fifo_getSpace (C_bufFifo c) < 7 then Some (CO_SDO_RT_uploadDataBufferFull, code, tn, c)
      else C_transmit code tn CO_SDO_ST_UPLOAD_SEGMENT_RSP (C_tx_put [(0, 0x60 OR C_toggle c)] c))"

definition ctx_UPLOAD_BLK_INITIATE_REQ :: "u32 \<Rightarrow> u32 option \<Rightarrow> client \<Rightarrow> cli_tx_result" where
  "ctx_UPLOAD_BLK_INITIATE_REQ code tn c =
     (let c = C_tx_header 0xA4 c; count = CO_fifo_getSpace (C_bufFifo c) div 7 in
      if count = 0 then C_tx_wait CO_SDO_AB_OUT_OF_MEM tn (c\<lparr>C_state := CO_SDO_ST_ABORT\<rparr>)
      else
        let count = (if count > 127 then 127 else count);
            c = c\<lparr>C_block_blksize := word_of_nat count\<rparr>
        in C_transmit code tn CO_SDO_ST_UPLOAD_BLK_INITIATE_RSP
             (C_tx_put [(4, C_block_blksize c), (5, CO_CONFIG_SDO_CLI_PST)] c))"

definition ctx_UPLOAD_BLK_INITIATE_REQ2 :: "u32 \<Rightarrow> u32 option \<Rightarrow> client \<Rightarrow> cli_tx_result" where
  "ctx_UPLOAD_BLK_INITIATE_REQ2 code tn c =
     C_tx_wait code tn
       (C_send ((C_tx_put [(0, 0xA3)] c)
          \<lparr>C_timeoutTimer := 0, C_block_timeoutTimer := 0, C_block_seqno := 0, C_block_crc := 0,
           C_state := CO_SDO_ST_UPLOAD_BLK_SUBBLOCK_SREQ, C_CANrxNew := False\<rparr>))"

text \<open>The confirmation of a sub-block; \<open>timeoutTimer\<close> is not reset by it.\<close>

definition upload_confirm :: "u32 \<Rightarrow> u32 option \<Rightarrow> client \<Rightarrow> cli_tx_result" where
  "upload_confirm code tn c =
     C_tx_wait code tn (C_send ((C_tx_put [(2, C_block_blksize c)] c)\<lparr>C_block_timeoutTimer := 0\<rparr>))"

definition ctx_UPLOAD_BLK_SUBBLOCK_CRSP :: "u32 \<Rightarrow> u32 option \<Rightarrow> client \<Rightarrow> cli_tx_result" where
  "ctx_UPLOAD_BLK_SUBBLOCK_CRSP code tn c =
     (let c = C_tx_put [(0, 0xA2), (1, C_block_seqno c)] c in
      if C_finished c then upload_confirm code tn (c\<lparr>C_state := CO_SDO_ST_UPLOAD_BLK_END_SREQ\<rparr>)
      else if C_sizeInd c > 0 \<and> C_sizeTran c > C_sizeInd c then
        C_tx_wait CO_SDO_AB_DATA_LONG tn (c\<lparr>C_state := CO_SDO_ST_ABORT\<rparr>)
      else
        let count = CO_fifo_getSpace (C_bufFifo c) div 7 in
        if count < 127 \<and> CO_fifo_getOccupied (C_bufFifo c) > 0 then
          Some (CO_SDO_RT_uploadDataBufferFull, code, map_option (\<lambda>_. 0) tn, c)
        else
          upload_confirm code tn
            (c\<lparr>C_block_blksize := word_of_nat (if count \<ge> 127 then 127 else count), C_block_seqno := 0,
               C_state := CO_SDO_ST_UPLOAD_BLK_SUBBLOCK_SREQ, C_CANrxNew := False\<rparr>))"

definition ctx_UPLOAD_BLK_END_CRSP :: "u32 \<Rightarrow> u32 option \<Rightarrow> client \<Rightarrow> cli_tx_result" where
  "ctx_UPLOAD_BLK_END_CRSP code tn c =
     Some (CO_SDO_RT_ok_communicationEnd, code, tn,
           (C_send (C_tx_put [(0, 0xA1)] c))\<lparr>C_state := CO_SDO_ST_IDLE\<rparr>)"

definition ctx_upload :: "u32 \<Rightarrow> u32 option \<Rightarrow> client \<Rightarrow> cli_tx_result" where
  "ctx_upload code tn c =
     (let c = c\<lparr>C_CANtx_data := replicate 8 0\<rparr> in
      case C_state c of
        CO_SDO_ST_UPLOAD_INITIATE_REQ \<Rightarrow> ctx_UPLOAD_INITIATE_REQ code tn c
      | CO_SDO_ST_UPLOAD_SEGMENT_REQ \<Rightarrow> ctx_UPLOAD_SEGMENT_REQ code tn c
      | CO_SDO_ST_UPLOAD_BLK_INITIATE_REQ \<Rightarrow> ctx_UPLOAD_BLK_INITIATE_REQ code tn c
      | CO_SDO_ST_UPLOAD_BLK_INITIATE_REQ2 \<Rightarrow> ctx_UPLOAD_BLK_INITIATE_REQ2 code tn c
      | CO_SDO_ST_UPLOAD_BLK_SUBBLOCK_CRSP \<Rightarrow> ctx_UPLOAD_BLK_SUBBLOCK_CRSP code tn c
      | CO_SDO_ST_UPLOAD_BLK_END_CRSP \<Rightarrow> ctx_UPLOAD_BLK_END_CRSP code tn c
      | _ \<Rightarrow> C_tx_wait code tn c)"

section \<open>Upload\<close>

text \<open>As for the download; \<open>sizeInd\<close> of the client is the value written to \<open>sizeIndicated\<close>.\<close>

definition CO_SDOclientUpload :: "client \<Rightarrow> u32 \<Rightarrow> bool \<Rightarrow> u32 option \<Rightarrow> u32 option \<Rightarrow> cli_tx_result" where
  "CO_SDOclientUpload c dt send_abort abortIn tn =
     (if \<not> C_valid c then Some (CO_SDO_RT_wrongArguments, CO_SDO_AB_DEVICE_INCOMPAT, tn, c)
      else if C_state c = CO_SDO_ST_IDLE then Some (CO_SDO_RT_ok_communicationEnd, CO_SDO_AB_NONE, tn, c)
      else do {
        (ret, code, c', tn) \<leftarrow>
          (if C_state c = CO_SDO_ST_UPLOAD_LOCAL_TRANSFER \<and> \<not> send_abort then do {
             (ret, code, c) \<leftarrow> local_upload c;
             Some (ret, code, c,
                   if ret = CO_SDO_RT_uploadDataBufferFull \<or> ret = CO_SDO_RT_waitingLocalTransfer
                   then map_option (\<lambda>_. 0) tn else tn)
           }
           else if C_CANrxNew c then do {
             (ret, code, c) \<leftarrow> C_rx crx_upload_state send_abort abortIn c;
             Some (ret, code, c, tn)
           }
           else if send_abort then let (ret, code, c) = C_abort_request abortIn c in Some (ret, code, c, tn)
           else Some (CO_SDO_RT_waitingResponse, CO_SDO_AB_NONE, c, tn));
        let isRx = (\<not> (C_state c = CO_SDO_ST_UPLOAD_LOCAL_TRANSFER \<and> \<not> send_abort) \<and> C_CANrxNew c);
        if ret = CO_SDO_RT_waitingResponse then
          C_continue upload_timers ctx_upload CO_SDO_ST_UPLOAD_BLK_SUBBLOCK_SREQ
            CO_SDO_RT_blockUploadInProgress code (if isRx then 0 else dt) tn c'
        else Some (ret, code, tn, c')
      })"

end
