(* ===== verification/Systems.thy ===== *)
theory Systems
  imports CO_Prelude
begin

text \<open>
  Objects driven by events. Each protocol object of the stack is a state with a step function that
  takes an event (a call by the application, a received frame, a change made by the driver) and
  returns the next state, or \<^const>\<open>None\<close> where the C code would access memory out of range.
  \<open>safe_system\<close> is the contract that such an object has an invariant which every event preserves;
  \<open>observed_system\<close> adds an observation of the state that only grows in a given sense; \<open>simulation\<close> is
  the contract of an object that implements an abstract one, for the events it is meant for. What holds
  for sequences of events is proved here once and used for the objects by interpretation.
\<close>

fun run :: "('e \<Rightarrow> 's \<Rightarrow> 's option) \<Rightarrow> 'e list \<Rightarrow> 's \<Rightarrow> 's option" where
  "run step [] s = Some s"
| "run step (e # es) s = do { s \<leftarrow> step e s; run step es s }"

lemma run_append: "run step (es @ es') s = do { s \<leftarrow> run step es s; run step es' s }"
  by (induction es arbitrary: s) (simp_all add: bind_assoc split: bind_splits)

locale safe_system =
  fixes inv :: "'s \<Rightarrow> bool"
    and step :: "'e \<Rightarrow> 's \<Rightarrow> 's option"
  assumes step_ok: "inv s \<Longrightarrow> wp (step e s) inv"
begin

lemma run_ok: "inv s \<Longrightarrow> wp (run step es s) inv"
proof (induction es arbitrary: s)
  case (Cons e es)
  then show ?case using wp_mono [OF step_ok [OF Cons.prems]] by simp
qed simp

lemma run_defined: "inv s \<Longrightarrow> \<exists>s'. run step es s = Some s' \<and> inv s'"
  using run_ok [of s es] by (simp add: wp_ex)

lemma run_inv: "inv s \<Longrightarrow> run step es s = Some s' \<Longrightarrow> inv s'"
  using run_ok [of s es] by simp

end

locale observed_system = safe_system inv step
  for inv :: "'s \<Rightarrow> bool" and step :: "'e \<Rightarrow> 's \<Rightarrow> 's option" +
  fixes R :: "'s \<Rightarrow> 's \<Rightarrow> bool"
  assumes R_refl: "R s s"
    and R_trans: "R s t \<Longrightarrow> R t u \<Longrightarrow> R s u"
    and step_R: "inv s \<Longrightarrow> step e s = Some s' \<Longrightarrow> R s s'"
begin

lemma run_R: "inv s \<Longrightarrow> run step es s = Some s' \<Longrightarrow> R s s'"
proof (induction es arbitrary: s)
  case Nil
  then show ?case using R_refl by simp
next
  case (Cons e es)
  then obtain t where t: "step e s = Some t" "run step es t = Some s'" by (auto split: bind_splits)
  have "inv t" using step_ok [OF Cons.prems(1), of e] t(1) by simp
  then show ?case using R_trans step_R [OF Cons.prems(1) t(1)] Cons.IH t(2) by blast
qed

end

locale simulation =
  fixes R :: "'a \<Rightarrow> 's \<Rightarrow> bool"
    and ok :: "'e \<Rightarrow> bool"
    and astep :: "'e \<Rightarrow> 'a \<Rightarrow> 'a"
    and step :: "'e \<Rightarrow> 's \<Rightarrow> 's option"
  assumes step_sim: "R a s \<Longrightarrow> ok e \<Longrightarrow> wp (step e s) (R (astep e a))"
begin

lemma run_sim: "R a s \<Longrightarrow> list_all ok es \<Longrightarrow> wp (run step es s) (R (fold astep es a))"
proof (induction es arbitrary: a s)
  case (Cons e es)
  then have "wp (step e s) (R (astep e a))" using step_sim by simp
  then show ?case using wp_mono [of "step e s"] Cons by simp
qed simp

lemma run_simulated: "R a s \<Longrightarrow> list_all ok es \<Longrightarrow> \<exists>s'. run step es s = Some s' \<and> R (fold astep es a) s'"
  using run_sim [of a s es] by (simp add: wp_ex)

end

end
