(* ===== verification/SDO_Client_Safety.thy ===== *)
theory SDO_Client_Safety
  imports SDO_Client_Process SDO_Safety Systems
begin

text \<open>
  Memory safety of the SDO client: what the operations of the circular buffer do to the client's
  buffer, an invariant on the object, its preservation by every operation, and the client as a
  system driven by arbitrary calls, frames and driver events.
\<close>

section \<open>The client's circular buffer\<close>

definition cbuf :: "fifo \<Rightarrow> bool" where
  "cbuf f \<longleftrightarrow> fifo_inv f \<and> bufSize f = 1001"

lemma cbuf_capacity: "cbuf f \<Longrightarrow> fifo_capacity f = 1000"
  by (simp add: cbuf_def fifo_capacity_def)

lemma cbuf_contents_le: "cbuf f \<Longrightarrow> length (contents f) \<le> 1000"
  using contents_bounded [of f] by (simp add: cbuf_capacity) (simp add: cbuf_def)

lemma cbuf_space: "cbuf f \<Longrightarrow> CO_fifo_getSpace f = 1000 - length (contents f)"
  by (auto simp: cbuf_def CO_fifo_getSpace_def Let_def fifo_inv_def length_contents ring_dist_def)

lemma cbuf_occupied: "cbuf f \<Longrightarrow> CO_fifo_getOccupied f = length (contents f)"
  by (auto simp: cbuf_def CO_fifo_getOccupied_def Let_def fifo_inv_def length_contents ring_dist_def)

lemma CO_fifo_write_frame:
  "CO_fifo_write f bs crc = (k, f', crc') \<Longrightarrow> bufSize f' = bufSize f \<and> altReadPtr f' = altReadPtr f \<and> readPtr f' = readPtr f"
proof (induction bs arbitrary: f crc k)
  case (Cons b bs)
  then show ?case by (auto simp: Let_def split: if_splits prod.splits)
qed simp

lemma CO_fifo_read_frame:
  "CO_fifo_read f n e = (bs, x, f') \<Longrightarrow> bufSize f' = bufSize f \<and> altReadPtr f' = altReadPtr f"
proof (induction n arbitrary: f bs x)
  case (Suc n)
  then show ?case by (auto simp: Let_def split: if_splits prod.splits)
qed simp

lemma cbuf_write:
  assumes "cbuf f"
  obtains f' where
    "CO_fifo_write f bs crc = (min (length bs) (1000 - length (contents f)), f',
       map_option (crc16_ccitt (take (1000 - length (contents f)) bs)) crc)"
    "cbuf f'" "contents f' = contents f @ take (1000 - length (contents f)) bs" "altReadPtr f' = altReadPtr f"
proof -
  obtain f' where w: "CO_fifo_write f bs crc = (min (length bs) (CO_fifo_getSpace f), f',
      map_option (crc16_ccitt (take (CO_fifo_getSpace f) bs)) crc)" "fifo_inv f'"
      "contents f' = contents f @ take (CO_fifo_getSpace f) bs"
    using CO_fifo_write_correct [of f bs crc] assms by (auto simp: cbuf_def)
  with CO_fifo_write_frame [OF w(1)] assms show thesis
    by (intro that [of f']) (simp_all add: cbuf_space, simp_all add: cbuf_def)
qed

lemma cbuf_read:
  assumes "cbuf f"
  obtains f' where "CO_fifo_read f n False = (take n (contents f), False, f')"
    "cbuf f'" "contents f' = drop n (contents f)" "altReadPtr f' = altReadPtr f"
proof -
  obtain f' where g: "get_up_to CO_fifo_getc f n = (take n (contents f), f')" "fifo_inv f'"
      "contents f' = drop n (contents f)"
    using fq.get_up_to_content [of f n] assms by (auto simp: cbuf_def)
  then have r: "CO_fifo_read f n False = (take n (contents f), False, f')"
    by (simp add: CO_fifo_read_get_up_to)
  with g CO_fifo_read_frame [OF r] assms show thesis by (intro that [of f']) (simp_all add: cbuf_def)
qed

lemma cbuf_reset: "cbuf f \<Longrightarrow> cbuf (CO_fifo_reset f) \<and> contents (CO_fifo_reset f) = []"
  by (simp add: cbuf_def fifo_inv_def CO_fifo_reset_def contents_def)

lemma cbuf_alt_upd [simp]: "cbuf (f\<lparr>altReadPtr := p\<rparr>) = cbuf f" "contents (f\<lparr>altReadPtr := p\<rparr>) = contents f"
  by (simp_all add: cbuf_def fifo_inv_def contents_def)

text \<open>
  The distance of the alternate pointer from the read pointer: how much of the contents has been
  read ahead.
\<close>

definition ahead :: "fifo \<Rightarrow> nat" where
  "ahead f = ptr_dist f (readPtr f) (altReadPtr f)"

definition cbuf_alt :: "fifo \<Rightarrow> bool" where
  "cbuf_alt f \<longleftrightarrow> cbuf f \<and> altReadPtr f < 1001"

lemma cbuf_altBegin:
  assumes "cbuf f"
  shows "cbuf_alt (snd (CO_fifo_altBegin f n))" "contents (snd (CO_fifo_altBegin f n)) = contents f"
    "ahead (snd (CO_fifo_altBegin f n)) = min n (length (contents f))"
proof -
  have b: "readPtr f < bufSize f" "writePtr f < bufSize f" "bufSize f = 1001" using assms by (auto simp: cbuf_def fifo_inv_def)
  have e: "snd (CO_fifo_altBegin f n) = f\<lparr>altReadPtr := ptr_add f (readPtr f) (min n (length (contents f)))\<rparr>"
    using b by (simp add: CO_fifo_altBegin_def altBegin_loop_eq Let_def length_contents)
  show "cbuf_alt (snd (CO_fifo_altBegin f n))" "contents (snd (CO_fifo_altBegin f n)) = contents f"
    using assms b ring_add_less [of 1001] unfolding e by (simp_all add: cbuf_alt_def)
  have "min n (length (contents f)) < bufSize f" using cbuf_contents_le [OF assms] b by (simp add: min_def)
  then show "ahead (snd (CO_fifo_altBegin f n)) = min n (length (contents f))"
    using ring_dist_add [OF b(1)] unfolding e by (simp add: ahead_def)
qed

lemma cbuf_altRead:
  assumes "cbuf_alt f"
  obtains d f' where "CO_fifo_altRead f n = (d, f')" "length d \<le> n" "cbuf_alt f'" "contents f' = contents f"
    "ahead f \<le> length (contents f) \<Longrightarrow> d = take n (drop (ahead f) (contents f)) \<and>
       ahead f' = min (ahead f + n) (length (contents f))"
proof -
  have b: "readPtr f < bufSize f" "writePtr f < bufSize f" "altReadPtr f < bufSize f" "bufSize f = 1001"
    using assms by (auto simp: cbuf_alt_def cbuf_def fifo_inv_def)
  define k where "k = min n (ptr_dist f (altReadPtr f) (writePtr f))"
  define f' where "f' = f\<lparr>altReadPtr := ptr_add f (altReadPtr f) k\<rparr>"
  have r: "CO_fifo_altRead f n = (cells f (altReadPtr f) k, f')"
    using CO_fifo_altRead_eq [OF b(3,2), of n] by (simp add: k_def f'_def Let_def)
  have c: "cbuf_alt f'" "contents f' = contents f"
    using assms b ring_add_less [of 1001] by (simp_all add: f'_def cbuf_alt_def)
  have "cells f (altReadPtr f) k = take n (drop (ahead f) (contents f)) \<and> ahead f' = min (ahead f + n) (length (contents f))"
    if le: "ahead f \<le> length (contents f)"
  proof -
    have a: "altReadPtr f = ptr_add f (readPtr f) (ahead f)"
      using ring_dist_end [OF b(1,3)] by (simp add: ring_add_def ahead_def)
    have w: "ptr_dist f (altReadPtr f) (writePtr f) = length (contents f) - ahead f"
      using ring_dist_drop [OF b(1,2), of "ahead f"] le unfolding a by (simp add: length_contents)
    have "length (contents f) < bufSize f" using ring_dist_bound [OF b(1,2)] by (simp add: length_contents)
    then have "ahead f + k < bufSize f" using le by (simp add: k_def w)
    moreover have "altReadPtr f' = ptr_add f (readPtr f) (ahead f + k)"
      by (simp add: f'_def a [symmetric] ring_add_add [symmetric])
    moreover have "readPtr f' = readPtr f" "bufSize f' = bufSize f" by (simp_all add: f'_def)
    ultimately have h: "ahead f' = ahead f + k"
      using ring_dist_add [OF b(1), of "ahead f + k"] by (simp add: ahead_def)
    have "cells f (altReadPtr f) (length (contents f) - ahead f) = drop (ahead f) (contents f)"
      by (simp add: contents_def drop_ring_cells a [symmetric] ring_add_less length_contents)
    moreover have "k \<le> length (contents f) - ahead f" by (simp add: k_def w)
    ultimately have "cells f (altReadPtr f) k = take k (drop (ahead f) (contents f))"
      using take_ring_cells [of k "length (contents f) - ahead f" "bufSize f" "fbuf f" "altReadPtr f"] by simp
    then show ?thesis using h le by (auto simp: k_def w min_def)
  qed
  with r c show thesis by (intro that [of "cells f (altReadPtr f) k" f']) (auto simp: k_def)
qed

lemma cbuf_altFinish:
  assumes "cbuf_alt f"
  obtains f' where "CO_fifo_altFinish f (Some crc) =
      Some (f', Some (crc16_ccitt (cells f (readPtr f) (ahead f)) crc))" "cbuf_alt f'"
    "ahead f \<le> length (contents f) \<Longrightarrow> contents f' = drop (ahead f) (contents f) \<and>
       cells f (readPtr f) (ahead f) = take (ahead f) (contents f)"
proof -
  have b: "readPtr f < bufSize f" "writePtr f < bufSize f" "altReadPtr f < bufSize f" "bufSize f = 1001"
    using assms by (auto simp: cbuf_alt_def cbuf_def fifo_inv_def)
  have e: "CO_fifo_altFinish f (Some crc) =
      Some (f\<lparr>readPtr := altReadPtr f\<rparr>, Some (crc16_ccitt (cells f (readPtr f) (ahead f)) crc))"
    using altFinish_loop_eq [OF b(1,3)] by (simp add: CO_fifo_altFinish_def ahead_def)
  have "contents (f\<lparr>readPtr := altReadPtr f\<rparr>) = drop (ahead f) (contents f) \<and>
       cells f (readPtr f) (ahead f) = take (ahead f) (contents f)" if le: "ahead f \<le> length (contents f)"
  proof -
    have a: "altReadPtr f = ptr_add f (readPtr f) (ahead f)"
      using ring_dist_end [OF b(1,3)] by (simp add: ring_add_def ahead_def)
    have "ptr_dist f (altReadPtr f) (writePtr f) = length (contents f) - ahead f"
      using ring_dist_drop [OF b(1,2), of "ahead f"] le unfolding a by (simp add: length_contents)
    then show ?thesis using le a by (simp add: contents_def drop_ring_cells take_ring_cells length_contents)
  qed
  moreover have "cbuf_alt (f\<lparr>readPtr := altReadPtr f\<rparr>)"
    using assms b by (simp add: cbuf_alt_def cbuf_def fifo_inv_def)
  ultimately show thesis using that e by blast
qed

section \<open>The invariant\<close>

text \<open>What holds in every state: the sizes of the arrays, and the duty of the access functions.\<close>

definition client_base :: "client \<Rightarrow> bool" where
  "client_base c \<longleftrightarrow> length (C_CANrxData c) = 8 \<and> length (C_CANtx_data c) = 8 \<and>
     length (C_block_dataUploadLast c) = 7 \<and> cbuf (C_bufFifo c) \<and>
     (case C_OD c of None \<Rightarrow> True | Some od \<Rightarrow> od_bounded od) \<and>
     (case C_read c of None \<Rightarrow> True | Some rd \<Rightarrow> read_bounded rd)"

text \<open>
  The states with a condition of their own: a block download reads ahead in the buffer; a block
  upload announced no more segments than the buffer has room for.
\<close>

abbreviation C_room :: "client \<Rightarrow> nat" where
  "C_room c \<equiv> 1000 - length (contents (C_bufFifo c))"

definition C_ahead_ok :: "client \<Rightarrow> bool" where
  "C_ahead_ok c \<longleftrightarrow> C_state c \<in> {CO_SDO_ST_DOWNLOAD_BLK_SUBBLOCK_REQ, CO_SDO_ST_DOWNLOAD_BLK_SUBBLOCK_RSP} \<longrightarrow>
     cbuf_alt (C_bufFifo c)"

definition room_ok :: "CO_SDO_state \<Rightarrow> bool \<Rightarrow> nat \<Rightarrow> nat \<Rightarrow> nat \<Rightarrow> bool" where
  "room_ok st fin blksize seqno room =
     (case st of
        CO_SDO_ST_UPLOAD_BLK_INITIATE_REQ \<Rightarrow> \<not> fin
      | CO_SDO_ST_UPLOAD_BLK_INITIATE_RSP \<Rightarrow> \<not> fin \<and> 7 * blksize \<le> room
      | CO_SDO_ST_UPLOAD_BLK_INITIATE_REQ2 \<Rightarrow> \<not> fin \<and> 7 * blksize \<le> room
      | CO_SDO_ST_UPLOAD_BLK_SUBBLOCK_SREQ \<Rightarrow> \<not> fin \<and> 7 * blksize \<le> room + 7 * seqno
      | CO_SDO_ST_UPLOAD_BLK_SUBBLOCK_CRSP \<Rightarrow> fin \<longrightarrow> 7 \<le> room
      | CO_SDO_ST_UPLOAD_BLK_END_SREQ \<Rightarrow> 7 \<le> room
      | _ \<Rightarrow> True)"

definition C_room_ok :: "client \<Rightarrow> bool" where
  "C_room_ok c \<longleftrightarrow> room_ok (C_state c) (C_finished c) (unat (C_block_blksize c)) (unat (C_block_seqno c)) (C_room c)"

text \<open>
  \<open>w\<close> tells whether the application has kept the contract so far that it writes to the buffer
  in downloads only; the room for the announced segments depends on it, memory safety does not.
\<close>

definition client_inv :: "bool \<Rightarrow> client \<Rightarrow> bool" where
  "client_inv w c \<longleftrightarrow> client_base c \<and> C_ahead_ok c \<and> (w \<longrightarrow> C_room_ok c)"

definition quiet :: "CO_SDO_state \<Rightarrow> bool" where
  "quiet st \<longleftrightarrow> st \<notin> {CO_SDO_ST_DOWNLOAD_BLK_SUBBLOCK_REQ, CO_SDO_ST_DOWNLOAD_BLK_SUBBLOCK_RSP,
     CO_SDO_ST_UPLOAD_BLK_INITIATE_REQ, CO_SDO_ST_UPLOAD_BLK_INITIATE_RSP, CO_SDO_ST_UPLOAD_BLK_INITIATE_REQ2,
     CO_SDO_ST_UPLOAD_BLK_SUBBLOCK_SREQ, CO_SDO_ST_UPLOAD_BLK_SUBBLOCK_CRSP, CO_SDO_ST_UPLOAD_BLK_END_SREQ}"

lemma inv_base: "client_inv w c \<Longrightarrow> client_base c"
  by (simp add: client_inv_def)

lemma inv_quiet: "client_base c \<Longrightarrow> quiet (C_state c) \<Longrightarrow> client_inv w c"
  by (auto simp: client_inv_def C_ahead_ok_def C_room_ok_def room_ok_def quiet_def split: CO_SDO_state.split)

lemma client_base_upd [simp]:
  "client_base (c\<lparr>C_state := st\<rparr>) = client_base c"
  "client_base (c\<lparr>C_finished := b\<rparr>) = client_base c"
  "client_base (c\<lparr>C_sizeInd := n\<rparr>) = client_base c"
  "client_base (c\<lparr>C_sizeTran := n\<rparr>) = client_base c"
  "client_base (c\<lparr>C_timeoutTimer := t\<rparr>) = client_base c"
  "client_base (c\<lparr>C_SDOtimeoutTime_us := t\<rparr>) = client_base c"
  "client_base (c\<lparr>C_block_timeoutTimer := t\<rparr>) = client_base c"
  "client_base (c\<lparr>C_block_SDOtimeoutTime_us := t\<rparr>) = client_base c"
  "client_base (c\<lparr>C_CANrxNew := b\<rparr>) = client_base c"
  "client_base (c\<lparr>C_toggle := u\<rparr>) = client_base c"
  "client_base (c\<lparr>C_block_seqno := u\<rparr>) = client_base c"
  "client_base (c\<lparr>C_block_blksize := u\<rparr>) = client_base c"
  "client_base (c\<lparr>C_block_noData := u\<rparr>) = client_base c"
  "client_base (c\<lparr>C_block_crcEnabled := b\<rparr>) = client_base c"
  "client_base (c\<lparr>C_block_crc := crc\<rparr>) = client_base c"
  "client_base (c\<lparr>C_stream := s\<rparr>) = client_base c"
  "client_base (c\<lparr>C_write := wr\<rparr>) = client_base c"
  "client_base (c\<lparr>C_mem := m\<rparr>) = client_base c"
  "client_base (c\<lparr>C_sent := fs\<rparr>) = client_base c"
  "client_base (c\<lparr>C_CANtx_bufferFull := b\<rparr>) = client_base c"
  "client_base (c\<lparr>C_index := i\<rparr>) = client_base c"
  "client_base (c\<lparr>C_subIndex := sub\<rparr>) = client_base c"
  "client_base (c\<lparr>C_nodeIDOfTheSDOServer := sub\<rparr>) = client_base c"
  "client_base (c\<lparr>C_valid := b\<rparr>) = client_base c"
  "client_base (c\<lparr>C_COB_IDClientToServer := i1\<rparr>) = client_base c"
  "client_base (c\<lparr>C_COB_IDServerToClient := i1\<rparr>) = client_base c"
  "client_base (c\<lparr>C_OD_1280_extended := b\<rparr>) = client_base c"
  "client_base (c\<lparr>C_nodeId := sub\<rparr>) = client_base c"
  "client_base (c\<lparr>C_CANrx_ident := i\<rparr>) = client_base c"
  "client_base (c\<lparr>C_CANtx_ident := i\<rparr>) = client_base c"
  by (simp_all add: client_base_def)

lemma client_base_fifo: "client_base c \<Longrightarrow> cbuf f \<Longrightarrow> client_base (c\<lparr>C_bufFifo := f\<rparr>)"
  by (simp add: client_base_def)

lemma client_base_cbuf: "client_base c \<Longrightarrow> cbuf (C_bufFifo c)"
  by (simp add: client_base_def)

lemma client_base_tx: "client_base c \<Longrightarrow> length d = 8 \<Longrightarrow> client_base (c\<lparr>C_CANtx_data := d\<rparr>)"
  by (simp add: client_base_def)

text \<open>Fields that the conditions do not depend on.\<close>

lemma client_inv_upd [simp]:
  "client_inv w (c\<lparr>C_timeoutTimer := t\<rparr>) = client_inv w c"
  "client_inv w (c\<lparr>C_block_timeoutTimer := t\<rparr>) = client_inv w c"
  "client_inv w (c\<lparr>C_CANrxNew := b\<rparr>) = client_inv w c"
  "client_inv w (c\<lparr>C_sizeInd := n\<rparr>) = client_inv w c"
  "client_inv w (c\<lparr>C_sizeTran := n\<rparr>) = client_inv w c"
  "client_inv w (c\<lparr>C_sent := fs\<rparr>) = client_inv w c"
  "client_inv w (c\<lparr>C_mem := m\<rparr>) = client_inv w c"
  "client_inv w (c\<lparr>C_CANtx_bufferFull := b\<rparr>) = client_inv w c"
  "client_inv w (c\<lparr>C_block_crc := crc\<rparr>) = client_inv w c"
  "client_inv w (c\<lparr>C_block_crcEnabled := b\<rparr>) = client_inv w c"
  "client_inv w (c\<lparr>C_nodeIDOfTheSDOServer := sub\<rparr>) = client_inv w c"
  by (simp_all add: client_inv_def C_ahead_ok_def C_room_ok_def)

lemma client_inv_tx: "client_inv w c \<Longrightarrow> length d = 8 \<Longrightarrow> client_inv w (c\<lparr>C_CANtx_data := d\<rparr>)"
  by (simp add: client_inv_def C_ahead_ok_def C_room_ok_def client_base_tx)

lemma C_send_simps [simp]: "client_base (C_send c) = client_base c" "client_inv w (C_send c) = client_inv w c"
  "C_state (C_send c) = C_state c"
  by (simp_all add: C_send_def)

lemma C_tx_put_simps [simp]:
  "length (C_CANtx_data (C_tx_put ps c)) = length (C_CANtx_data c)"
  "client_base (C_tx_put ps c) = client_base c" "client_inv w (C_tx_put ps c) = client_inv w c"
  "C_state (C_tx_put ps c) = C_state c" "C_bufFifo (C_tx_put ps c) = C_bufFifo c" "C_finished (C_tx_put ps c) = C_finished c"
  "C_block_blksize (C_tx_put ps c) = C_block_blksize c" "C_block_seqno (C_tx_put ps c) = C_block_seqno c"
  "C_sizeInd (C_tx_put ps c) = C_sizeInd c" "C_sizeTran (C_tx_put ps c) = C_sizeTran c"
  by (simp_all add: C_tx_put_def length_foldl_upd client_base_def client_inv_def C_ahead_ok_def C_room_ok_def)

lemma C_tx_header_simps [simp]:
  "length (C_CANtx_data (C_tx_header cmd c)) = length (C_CANtx_data c)"
  "client_base (C_tx_header cmd c) = client_base c" "client_inv w (C_tx_header cmd c) = client_inv w c"
  "C_state (C_tx_header cmd c) = C_state c" "C_bufFifo (C_tx_header cmd c) = C_bufFifo c"
  "C_finished (C_tx_header cmd c) = C_finished c" "C_sizeInd (C_tx_header cmd c) = C_sizeInd c"
  by (simp_all add: C_tx_header_def)

lemma C_tx_copy_ok:
  assumes "client_base c" "off + length d \<le> 8"
  obtains t where "C_tx_copy off d c = Some (c\<lparr>C_CANtx_data := t\<rparr>)" "length t = 8"
  using assms by (auto simp: C_tx_copy_def client_base_def buf_write_def)

section \<open>Every operation preserves it\<close>

definition res_ok :: "bool \<Rightarrow> cli_result \<Rightarrow> bool" where
  "res_ok w r = (case r of (ret, code, c) \<Rightarrow> client_inv w c)"

definition tx_res_ok :: "bool \<Rightarrow> cli_tx_result \<Rightarrow> bool" where
  "tx_res_ok w r = wp r (\<lambda>(ret, code, tn, c). client_inv w c)"

lemma res_ok_fail [simp]: "client_base c \<Longrightarrow> res_ok w (C_fail code c)"
  by (simp add: res_ok_def C_fail_def inv_quiet quiet_def)

lemma res_ok_end [simp]: "client_base c \<Longrightarrow> res_ok w (C_end c)"
  by (simp add: res_ok_def C_end_def inv_quiet quiet_def)

lemma res_ok_next [simp]: "client_base c \<Longrightarrow> quiet st \<Longrightarrow> res_ok w (C_next st c)"
  by (simp add: res_ok_def C_next_def inv_quiet)

lemma tx_res_wait [simp]: "tx_res_ok w (C_tx_wait code tn c) = client_inv w c"
  by (simp add: tx_res_ok_def)

lemma tx_res_quiet [simp]: "client_base c \<Longrightarrow> quiet (C_state c) \<Longrightarrow> tx_res_ok w (Some (ret, code, tn, c))"
  by (simp add: tx_res_ok_def inv_quiet)

lemma tx_res_transmit: "client_base c \<Longrightarrow> quiet st \<Longrightarrow> tx_res_ok w (C_transmit code tn st c)"
  by (simp add: C_transmit_def inv_quiet)

lemma quiet_simps [simp]:
  "quiet CO_SDO_ST_IDLE" "quiet CO_SDO_ST_ABORT" "quiet CO_SDO_ST_DOWNLOAD_LOCAL_TRANSFER"
  "quiet CO_SDO_ST_DOWNLOAD_INITIATE_REQ" "quiet CO_SDO_ST_DOWNLOAD_INITIATE_RSP"
  "quiet CO_SDO_ST_DOWNLOAD_SEGMENT_REQ" "quiet CO_SDO_ST_DOWNLOAD_SEGMENT_RSP"
  "quiet CO_SDO_ST_UPLOAD_LOCAL_TRANSFER" "quiet CO_SDO_ST_UPLOAD_INITIATE_REQ"
  "quiet CO_SDO_ST_UPLOAD_INITIATE_RSP" "quiet CO_SDO_ST_UPLOAD_SEGMENT_REQ" "quiet CO_SDO_ST_UPLOAD_SEGMENT_RSP"
  "quiet CO_SDO_ST_DOWNLOAD_BLK_INITIATE_REQ" "quiet CO_SDO_ST_DOWNLOAD_BLK_INITIATE_RSP"
  "quiet CO_SDO_ST_DOWNLOAD_BLK_END_REQ" "quiet CO_SDO_ST_DOWNLOAD_BLK_END_RSP" "quiet CO_SDO_ST_UPLOAD_BLK_END_CRSP"
  by (simp_all add: quiet_def)

subsection \<open>Receive handlers\<close>

lemma crx_DOWNLOAD_BLK_INITIATE_RSP_ok:
  assumes "client_base c"
  shows "res_ok w (crx_DOWNLOAD_BLK_INITIATE_RSP c)"
  using assms cbuf_altBegin(1) [OF client_base_cbuf [OF assms], of 0]
  by (simp add: crx_DOWNLOAD_BLK_INITIATE_RSP_def Let_def)
    (simp add: C_next_def res_ok_def client_inv_def C_ahead_ok_def C_room_ok_def room_ok_def client_base_def cbuf_alt_def)

lemma download_back_ok:
  assumes "client_base c" "cbuf_alt (C_bufFifo c)"
  shows "client_base (download_back c)" "cbuf_alt (C_bufFifo (download_back c))"
proof -
  note f = cbuf_altBegin(1) [OF client_base_cbuf [OF assms(1)], of "unat (C_CANrxData c ! 1) * 7"]
  show "client_base (download_back c)" "cbuf_alt (C_bufFifo (download_back c))"
    using assms f by (auto simp: download_back_def Let_def client_base_def cbuf_alt_def)
qed

lemma crx_DOWNLOAD_BLK_SUBBLOCK_ok:
  assumes b: "client_base c" and a: "cbuf_alt (C_bufFifo c)"
  shows "wp (crx_DOWNLOAD_BLK_SUBBLOCK c) (res_ok w)"
proof (cases "C_CANrxData c ! 0 = 0xA2 \<and> \<not> C_CANrxData c ! 1 > C_block_seqno c")
  case True
  define c1 where "c1 = download_back c"
  note c1 = download_back_ok [OF b a, folded c1_def]
  obtain f crc where f: "CO_fifo_altFinish (C_bufFifo c1) (Some (C_block_crc c1)) = Some (f, Some crc)" "cbuf_alt f"
    using cbuf_altFinish [OF c1(2), of "C_block_crc c1"] by metis
  define c2 where "c2 = c1\<lparr>C_bufFifo := f, C_block_crc := crc\<rparr>"
  have c2: "client_base c2" "cbuf (C_bufFifo c2)" using c1(1) f(2) by (simp_all add: c2_def client_base_def cbuf_alt_def)
  note ab = cbuf_altBegin(1) [OF c2(2), of 0]
  have "client_base (c2\<lparr>C_block_blksize := n, C_block_seqno := 0, C_bufFifo := snd (CO_fifo_altBegin (C_bufFifo c2) 0)\<rparr>)" for n
    using c2 ab by (simp add: client_base_def cbuf_alt_def)
  then have "res_ok w (C_next CO_SDO_ST_DOWNLOAD_BLK_SUBBLOCK_REQ
      (c2\<lparr>C_block_blksize := n, C_block_seqno := 0, C_bufFifo := snd (CO_fifo_altBegin (C_bufFifo c2) 0)\<rparr>))" for n
    using ab by (simp add: C_next_def res_ok_def client_inv_def C_ahead_ok_def C_room_ok_def room_ok_def)
  then show ?thesis using True c2 f(1)
    by (simp add: crx_DOWNLOAD_BLK_SUBBLOCK_def c1_def [symmetric] c2_def [symmetric] Let_def)
qed (use b in \<open>auto simp: crx_DOWNLOAD_BLK_SUBBLOCK_def\<close>)

lemma crx_download_state_ok:
  assumes "client_inv w c"
  shows "wp (crx_download_state c) (res_ok w)"
proof -
  have b: "client_base c" using assms by (rule inv_base)
  have "cbuf_alt (C_bufFifo c)" if "C_state c \<in> {CO_SDO_ST_DOWNLOAD_BLK_SUBBLOCK_REQ, CO_SDO_ST_DOWNLOAD_BLK_SUBBLOCK_RSP}"
    using assms that by (auto simp: client_inv_def C_ahead_ok_def)
  then show ?thesis
    using b crx_DOWNLOAD_BLK_SUBBLOCK_ok [OF b]
    by (auto simp: crx_download_state_def crx_DOWNLOAD_BLK_INITIATE_RSP_ok crx_DOWNLOAD_INITIATE_RSP_def
        crx_DOWNLOAD_SEGMENT_RSP_def crx_DOWNLOAD_BLK_END_RSP_def Let_def split: CO_SDO_state.split)
qed

lemma client_base_write:
  assumes "client_base c" "CO_fifo_write (C_bufFifo c) bs crc = (k, f, crc')"
  shows "client_base (c\<lparr>C_bufFifo := f\<rparr>)"
  using cbuf_write [OF client_base_cbuf [OF assms(1)], of bs crc] assms client_base_fifo by fastforce

lemma crx_upload_regular_ok: "client_base c \<Longrightarrow> res_ok w (crx_upload_regular c)"
  by (auto simp: crx_upload_regular_def Let_def dest: client_base_write split: prod.split)

lemma crx_UPLOAD_SEGMENT_RSP_ok:
  assumes b: "client_base c"
  shows "res_ok w (crx_UPLOAD_SEGMENT_RSP c)"
proof -
  define count where "count = 7 - unat (drop_bit 1 (C_CANrxData c ! 0) AND 0x07)"
  obtain k f x where wr: "CO_fifo_write (C_bufFifo c) (take count (drop 1 (C_CANrxData c))) None = (k, f, x)"
    by (metis prod_cases3)
  have "client_base (c\<lparr>C_toggle := t, C_bufFifo := f, C_sizeTran := n\<rparr>)" for n t
    using client_base_write [of "c\<lparr>C_toggle := t\<rparr>"] b wr by simp
  then show ?thesis
    using b wr unfolding crx_UPLOAD_SEGMENT_RSP_def Let_def count_def by simp
qed

lemma crx_UPLOAD_BLK_INITIATE_RSP_ok:
  assumes "client_inv w c" "C_state c = CO_SDO_ST_UPLOAD_BLK_INITIATE_RSP"
  shows "res_ok w (crx_UPLOAD_BLK_INITIATE_RSP c)"
proof -
  have b: "client_base c" using assms(1) by (rule inv_base)
  have "res_ok w (C_next CO_SDO_ST_UPLOAD_BLK_INITIATE_REQ2 (c\<lparr>C_block_crcEnabled := x, C_sizeInd := y\<rparr>))"
    "res_ok w (C_next CO_SDO_ST_UPLOAD_BLK_INITIATE_REQ2 (c\<lparr>C_block_crcEnabled := x\<rparr>))" for x y
    using assms by (simp_all add: C_next_def res_ok_def client_inv_def C_ahead_ok_def C_room_ok_def room_ok_def)
  then show ?thesis
    using b by (simp add: crx_UPLOAD_BLK_INITIATE_RSP_def Let_def crx_upload_regular_ok)
qed

lemma crx_UPLOAD_BLK_END_SREQ_ok: "client_base c \<Longrightarrow> res_ok w (crx_UPLOAD_BLK_END_SREQ c)"
  by (auto simp: crx_UPLOAD_BLK_END_SREQ_def Let_def dest: client_base_write split: prod.split)

lemma crx_upload_state_ok:
  assumes "client_inv w c"
  shows "wp (crx_upload_state c) (res_ok w)"
proof -
  have b: "client_base c" using assms by (rule inv_base)
  have "res_ok w (C_wait 0 c)" using assms by (simp add: res_ok_def)
  then show ?thesis
    using b crx_UPLOAD_BLK_INITIATE_RSP_ok [OF assms]
    by (auto simp: crx_upload_state_def crx_UPLOAD_INITIATE_RSP_def crx_upload_regular_ok crx_UPLOAD_SEGMENT_RSP_ok
        crx_UPLOAD_BLK_END_SREQ_ok split: CO_SDO_state.split)
qed

lemma C_rx_ok:
  assumes "client_inv w c" "wp (h c) (res_ok w)"
  shows "wp (C_rx h ab abIn c) (res_ok w)"
  using assms inv_base [OF assms(1)] 
  by (auto simp: C_rx_def C_abort_request_def wp_if inv_quiet res_ok_def C_fail_def elim!: wp_mono)

subsection \<open>Transmit handlers\<close>

lemma ctx_DOWNLOAD_INITIATE_REQ_ok:
  assumes b: "client_base c"
  shows "tx_res_ok w (ctx_DOWNLOAD_INITIATE_REQ code tn c)"
proof -
  define c1 where "c1 = C_tx_header 0x20 c"
  have c1: "client_base c1" "C_bufFifo c1 = C_bufFifo c" "C_sizeInd c1 = C_sizeInd c" using b by (simp_all add: c1_def)
  define count where "count = length (contents (C_bufFifo c))"
  have oc: "CO_fifo_getOccupied (C_bufFifo c) = count"
    using cbuf_occupied [OF client_base_cbuf [OF b]] by (simp add: count_def)
  obtain f where rd: "CO_fifo_read (C_bufFifo c) count False = (contents (C_bufFifo c), False, f)" "cbuf f"
    using cbuf_read [OF client_base_cbuf [OF b], of count] by (metis count_def take_all order_refl)
  have cnt: "count \<le> 4" if "C_sizeInd c = 0 \<and> count \<le> 4 \<or> 0 < C_sizeInd c \<and> C_sizeInd c \<le> 4"
    "\<not> (count = 0 \<or> 0 < C_sizeInd c \<and> C_sizeInd c \<noteq> word_of_nat count)"
  proof (cases "C_sizeInd c = 0")
    case False
    then have z: "0 < C_sizeInd c" by (simp add: word_neq_0_conv)
    then have "C_sizeInd c = word_of_nat count" using that(2) by simp
    moreover have "count \<le> 1000" using cbuf_contents_le [OF client_base_cbuf [OF b]] by (simp add: count_def)
    ultimately have "unat (C_sizeInd c) = count" by (simp add: unat_of_nat)
    moreover have "unat (C_sizeInd c) \<le> 4" using that(1) z by (auto simp: word_le_nat_alt)
    ultimately show ?thesis by simp
  qed (use that in simp)
  have expedited: "tx_res_ok w (C_tx_copy 4 (contents (C_bufFifo c)) (c'\<lparr>C_bufFifo := f\<rparr>) \<bind>
      (\<lambda>c. C_transmit code tn CO_SDO_ST_DOWNLOAD_INITIATE_RSP (c\<lparr>C_sizeTran := n, C_finished := True\<rparr>)))"
    if "count \<le> 4" "client_base c'" for c' n
  proof -
    have b': "client_base (c'\<lparr>C_bufFifo := f\<rparr>)" using that(2) rd(2) by (simp add: client_base_fifo)
    show ?thesis using that(1)
      by (rule_tac C_tx_copy_ok [OF b', of 4 "contents (C_bufFifo c)"])
        (simp_all add: count_def tx_res_transmit client_base_tx b')
  qed
  have segmented: "tx_res_ok w ((if C_sizeInd c > 0 then C_tx_size (C_tx_put ps c1) else Some c1) \<bind>
      C_transmit code tn CO_SDO_ST_DOWNLOAD_INITIATE_RSP)" for ps
  proof -
    have b': "client_base (C_tx_put ps c1)" using c1 by simp
    show ?thesis unfolding C_tx_size_def using c1(1)
      by (rule_tac C_tx_copy_ok [OF b', of 4 "le_bytes 4 (ucast (C_sizeInd (C_tx_put ps c1)) :: u32)"])
        (simp_all add: tx_res_transmit client_base_tx b')
  qed
  define is_exp where "is_exp \<longleftrightarrow> C_sizeInd c = 0 \<and> count \<le> 4 \<or> 0 < C_sizeInd c \<and> C_sizeInd c \<le> 4"
  define bad where "bad \<longleftrightarrow> count = 0 \<or> 0 < C_sizeInd c \<and> C_sizeInd c \<noteq> word_of_nat count"
  have "is_exp \<Longrightarrow> \<not> bad \<Longrightarrow> count \<le> 4" using cnt by (simp add: is_exp_def bad_def)
  then show ?thesis
    unfolding ctx_DOWNLOAD_INITIATE_REQ_def Let_def c1_def [symmetric] C_tx_put_simps c1(2,3) oc rd(1)
      is_exp_def [symmetric] bad_def [symmetric]
    using expedited segmented c1(1) by (simp add: c1(2) rd(1))
qed

lemma ctx_DOWNLOAD_SEGMENT_REQ_ok:
  assumes b: "client_base c"
  shows "tx_res_ok w (ctx_DOWNLOAD_SEGMENT_REQ bp code tn c)"
proof -
  obtain f where rd: "CO_fifo_read (C_bufFifo c) 7 False = (take 7 (contents (C_bufFifo c)), False, f)" "cbuf f"
    using cbuf_read [OF client_base_cbuf [OF b], of 7] by metis
  have b': "client_base (c\<lparr>C_bufFifo := f\<rparr>)" using b rd(2) by (rule client_base_fifo)
  obtain t where t: "C_tx_copy 1 (take 7 (contents (C_bufFifo c))) (c\<lparr>C_bufFifo := f\<rparr>) =
      Some (c\<lparr>C_bufFifo := f, C_CANtx_data := t\<rparr>)" "length t = 8"
    using C_tx_copy_ok [OF b', of 1 "take 7 (contents (C_bufFifo c))"] by auto
  have "client_base (c\<lparr>C_bufFifo := f, C_CANtx_data := t, C_sizeTran := n\<rparr>)" for n
    using client_base_tx [OF b' t(2)] by simp
  then show ?thesis
    by (simp add: ctx_DOWNLOAD_SEGMENT_REQ_def rd(1) t(1) [simplified] Let_def tx_res_transmit inv_quiet)
qed

lemma ctx_DOWNLOAD_BLK_INITIATE_REQ_ok:
  assumes b: "client_base c"
  shows "tx_res_ok w (ctx_DOWNLOAD_BLK_INITIATE_REQ code tn c)"
proof -
  define c1 where "c1 = C_tx_header 0xC4 c"
  have b': "client_base (C_tx_put ps c1)" "client_base c1" for ps using b by (simp_all add: c1_def)
  show ?thesis
    unfolding ctx_DOWNLOAD_BLK_INITIATE_REQ_def Let_def c1_def [symmetric] C_tx_size_def
    by (rule C_tx_copy_ok [OF b'(1) [of "[(0, C_CANtx_data c1 ! 0 OR 2)]"], of 4 "le_bytes 4 (ucast (C_sizeInd (C_tx_put [(0, C_CANtx_data c1 ! 0 OR 2)] c1)) :: u32)"])
      (use b' in \<open>simp_all add: tx_res_transmit client_base_tx\<close>)
qed

lemma ctx_DOWNLOAD_BLK_SUBBLOCK_REQ_ok:
  assumes i: "client_inv w c" and st: "C_state c = CO_SDO_ST_DOWNLOAD_BLK_SUBBLOCK_REQ"
  shows "tx_res_ok w (ctx_DOWNLOAD_BLK_SUBBLOCK_REQ bp code tn c)"
proof -
  have a: "cbuf_alt (C_bufFifo c)" and b: "client_base c"
    using i st by (simp_all add: client_inv_def C_ahead_ok_def)
  define c1 where "c1 = C_tx_put [(0, C_block_seqno c + 1)] (c\<lparr>C_block_seqno := C_block_seqno c + 1\<rparr>)"
  have c1: "client_base c1" "C_bufFifo c1 = C_bufFifo c" "C_state c1 = CO_SDO_ST_DOWNLOAD_BLK_SUBBLOCK_REQ"
    using b st by (simp_all add: c1_def)
  obtain d f where rd: "CO_fifo_altRead (C_bufFifo c) 7 = (d, f)" "length d \<le> 7" "cbuf_alt f"
    using cbuf_altRead [OF a, of 7] by metis
  have b': "client_base (c1\<lparr>C_bufFifo := f\<rparr>)" using c1(1) rd(3) by (simp add: client_base_fifo cbuf_alt_def)
  obtain t where t: "C_tx_copy 1 d (c1\<lparr>C_bufFifo := f\<rparr>) = Some (c1\<lparr>C_bufFifo := f, C_CANtx_data := t\<rparr>)" "length t = 8"
    using C_tx_copy_ok [OF b', of 1 d] rd(2) by auto
  define c2 where "c2 = (\<lambda>n. c1\<lparr>C_bufFifo := f, C_CANtx_data := t, C_block_noData := 7 - word_of_nat (length d), C_sizeTran := n\<rparr>)"
  have c2: "client_base (c2 n)" "C_state (c2 n) = CO_SDO_ST_DOWNLOAD_BLK_SUBBLOCK_REQ" "C_bufFifo (c2 n) = f" for n
    using client_base_tx [OF b' t(2)] c1 by (simp_all add: c2_def)
  have keep: "tx_res_ok w (C_transmit code tn' st' c')"
    if "client_base c'" "C_bufFifo c' = f" "st' \<in> {CO_SDO_ST_DOWNLOAD_BLK_SUBBLOCK_REQ, CO_SDO_ST_DOWNLOAD_BLK_SUBBLOCK_RSP}"
    for tn' st' c'
    using that rd(3) by (auto simp: C_transmit_def client_inv_def C_ahead_ok_def C_room_ok_def room_ok_def C_send_def)
  define n where "n = C_sizeTran c1 + word_of_nat (length d)"
  have u: "c1\<lparr>C_bufFifo := f, C_CANtx_data := t, C_block_noData := 7 - word_of_nat (length d), C_sizeTran := x\<rparr> = c2 x" for x
    by (simp add: c2_def)
  have sub: "(c2 n)\<lparr>C_sizeTran := m\<rparr> = c2 m" for m by (simp add: c2_def)
  have "client_inv w (c2 m\<lparr>C_state := CO_SDO_ST_ABORT\<rparr>)" for m using c2(1) by (simp add: inv_quiet)
  then show ?thesis
    using i keep c2 c1
    unfolding ctx_DOWNLOAD_BLK_SUBBLOCK_REQ_def Let_def
    by (simp add: c1_def [symmetric] rd(1) t(1) [simplified] u n_def [symmetric] sub)
qed

lemma ctx_download_ok:
  assumes i: "client_inv w c"
  shows "tx_res_ok w (ctx_download bp code tn c)"
proof -
  define c1 where "c1 = c\<lparr>C_CANtx_data := replicate 8 0\<rparr>"
  have c1: "client_inv w c1" "client_base c1" using client_inv_tx [OF i, of "replicate 8 0"] inv_base by (auto simp: c1_def)
  show ?thesis
    unfolding ctx_download_def Let_def c1_def [symmetric]
    using c1 ctx_DOWNLOAD_BLK_SUBBLOCK_REQ_ok [OF c1(1)]
    by (auto simp: ctx_DOWNLOAD_INITIATE_REQ_ok ctx_DOWNLOAD_SEGMENT_REQ_ok ctx_DOWNLOAD_BLK_INITIATE_REQ_ok
        ctx_DOWNLOAD_BLK_END_REQ_def tx_res_transmit split: CO_SDO_state.split)
qed

lemma ctx_UPLOAD_BLK_INITIATE_REQ_ok:
  assumes i: "client_inv w c" and st: "C_state c = CO_SDO_ST_UPLOAD_BLK_INITIATE_REQ"
  shows "tx_res_ok w (ctx_UPLOAD_BLK_INITIATE_REQ code tn c)"
proof -
  have b: "client_base c" using i by (rule inv_base)
  define k where "k = CO_fifo_getSpace (C_bufFifo c) div 7"
  define k' where "k' = (if k > 127 then 127 else k)"
  have "unat (word_of_nat k' :: u8) = k'" by (simp add: k'_def unat_of_nat)
  moreover have "7 * k' \<le> C_room c"
  proof -
    have "k' \<le> k" by (simp add: k'_def)
    moreover have "7 * k \<le> C_room c" using cbuf_space [OF client_base_cbuf [OF b]] by (simp add: k_def)
    ultimately show ?thesis by linarith
  qed
  ultimately have "client_inv w ((C_send (C_tx_put ps (C_tx_header cmd c\<lparr>C_block_blksize := word_of_nat k'\<rparr>)
      \<lparr>C_timeoutTimer := t\<rparr>))\<lparr>C_state := CO_SDO_ST_UPLOAD_BLK_INITIATE_RSP\<rparr>)" for ps cmd t
    using i b st by (simp add: C_send_def client_inv_def C_ahead_ok_def C_room_ok_def room_ok_def)
  then show ?thesis
    using b
    unfolding ctx_UPLOAD_BLK_INITIATE_REQ_def Let_def C_tx_header_simps k_def [symmetric] k'_def [symmetric] C_transmit_def
    by (simp add: inv_quiet)
qed

lemma ctx_UPLOAD_BLK_INITIATE_REQ2_ok:
  assumes "client_inv w c" "C_state c = CO_SDO_ST_UPLOAD_BLK_INITIATE_REQ2"
  shows "tx_res_ok w (ctx_UPLOAD_BLK_INITIATE_REQ2 code tn c)"
  using assms by (simp add: ctx_UPLOAD_BLK_INITIATE_REQ2_def)
    (simp add: client_inv_def C_ahead_ok_def C_room_ok_def room_ok_def)

lemma upload_confirm_ok [simp]: "tx_res_ok w (upload_confirm code tn c) = client_inv w c"
  by (simp add: upload_confirm_def)

lemma ctx_UPLOAD_BLK_SUBBLOCK_CRSP_ok:
  assumes i: "client_inv w c" and st: "C_state c = CO_SDO_ST_UPLOAD_BLK_SUBBLOCK_CRSP"
  shows "tx_res_ok w (ctx_UPLOAD_BLK_SUBBLOCK_CRSP code tn c)"
proof -
  have b: "client_base c" using i by (rule inv_base)
  define c1 where "c1 = C_tx_put [(0, 0xA2), (1, C_block_seqno c)] c"
  have c1: "client_inv w c1" "client_base c1" "C_state c1 = CO_SDO_ST_UPLOAD_BLK_SUBBLOCK_CRSP" "C_bufFifo c1 = C_bufFifo c"
      "C_finished c1 = C_finished c"
    using i b st by (simp_all add: c1_def)
  define k where "k = CO_fifo_getSpace (C_bufFifo c) div 7"
  define k' where "k' = (if k \<ge> 127 then 127 else k)"
  have "unat (word_of_nat k' :: u8) = k'" by (simp add: k'_def unat_of_nat)
  moreover have "7 * k' \<le> C_room c"
  proof -
    have "k' \<le> k" by (simp add: k'_def)
    moreover have "7 * k \<le> C_room c" using cbuf_space [OF client_base_cbuf [OF b]] by (simp add: k_def)
    ultimately show ?thesis by linarith
  qed
  ultimately have sreq: "\<not> C_finished c \<Longrightarrow> client_inv w (c1\<lparr>C_block_blksize := word_of_nat k', C_block_seqno := 0,
      C_state := CO_SDO_ST_UPLOAD_BLK_SUBBLOCK_SREQ, C_CANrxNew := False\<rparr>)"
    using c1 by (simp add: client_inv_def C_ahead_ok_def C_room_ok_def room_ok_def)
  have fin: "C_finished c \<Longrightarrow> client_inv w (c1\<lparr>C_state := CO_SDO_ST_UPLOAD_BLK_END_SREQ\<rparr>)"
    using c1 by (simp add: client_inv_def C_ahead_ok_def C_room_ok_def room_ok_def)
  show ?thesis
    unfolding ctx_UPLOAD_BLK_SUBBLOCK_CRSP_def Let_def c1_def [symmetric] c1(4) k_def [symmetric] k'_def [symmetric]
    using fin sreq c1 by (simp add: inv_quiet tx_res_ok_def [of w "Some _"])
qed

lemma ctx_upload_ok:
  assumes i: "client_inv w c"
  shows "tx_res_ok w (ctx_upload code tn c)"
proof -
  define c1 where "c1 = c\<lparr>C_CANtx_data := replicate 8 0\<rparr>"
  have c1: "client_inv w c1" "client_base c1" using client_inv_tx [OF i, of "replicate 8 0"] inv_base by (auto simp: c1_def)
  show ?thesis
    unfolding ctx_upload_def Let_def c1_def [symmetric]
    using c1 ctx_UPLOAD_BLK_INITIATE_REQ_ok [OF c1(1)] ctx_UPLOAD_BLK_INITIATE_REQ2_ok [OF c1(1)]
      ctx_UPLOAD_BLK_SUBBLOCK_CRSP_ok [OF c1(1)]
    by (auto simp: ctx_UPLOAD_INITIATE_REQ_def ctx_UPLOAD_SEGMENT_REQ_def tx_res_transmit
        ctx_UPLOAD_BLK_END_CRSP_def split: CO_SDO_state.split)
qed

subsection \<open>Timers and the end of the functions\<close>

lemma C_timeout_ok: "client_inv w c \<Longrightarrow> C_timeout reason code dt tn c = (code', tn', c') \<Longrightarrow> client_inv w c'"
  by (auto simp: C_timeout_def Let_def inv_quiet inv_base split: if_splits)

lemma download_timers_ok: "client_inv w c \<Longrightarrow> download_timers code dt tn c = (code', tn', c') \<Longrightarrow> client_inv w c'"
  unfolding download_timers_def by (rule C_timeout_ok)

lemma upload_timers_ok:
  assumes "client_inv w c" "upload_timers code dt tn c = (code', tn', c')"
  shows "client_inv w c'"
proof -
  obtain code1 tn1 c1 where t: "C_timeout upload_timeout_reason code dt tn c = (code1, tn1, c1)"
    by (metis prod_cases3)
  have i: "client_inv w c1" by (rule C_timeout_ok [OF assms(1) t])
  have "client_inv w (c1\<lparr>C_state := CO_SDO_ST_UPLOAD_BLK_SUBBLOCK_CRSP\<rparr>)"
    "client_inv w (c1\<lparr>C_block_timeoutTimer := x, C_state := CO_SDO_ST_UPLOAD_BLK_SUBBLOCK_CRSP\<rparr>)"
    if "C_state c1 = CO_SDO_ST_UPLOAD_BLK_SUBBLOCK_SREQ" for x
    using i that by (auto simp: client_inv_def C_ahead_ok_def C_room_ok_def room_ok_def)
  with i assms(2) show ?thesis
    by (auto simp: upload_timers_def t Let_def split: if_splits)
qed

lemma C_finish_ok:
  assumes "client_inv w c" "C_finish st r ret code c = (ret', c')"
  shows "client_inv w c'"
proof -
  have b: "client_base c" using assms(1) by (rule inv_base)
  then have "length (take 4 (C_CANtx_data c) @ le_bytes 4 code) = 8" by (simp add: client_base_def)
  then have "client_base (C_tx_header 0x80 c\<lparr>C_CANtx_data := take 4 (C_CANtx_data (C_tx_header 0x80 c)) @ le_bytes 4 code\<rparr>)"
    using b by (intro client_base_tx) (simp, simp add: client_base_def)
  then show ?thesis using assms by (auto simp: C_finish_def Let_def inv_quiet split: if_splits)
qed

lemma C_continue_ok:
  assumes i: "client_inv w c"
    and timers: "\<And>code' tn' c'. timers code dt tn c = (code', tn', c') \<Longrightarrow> client_inv w c'"
    and tx: "\<And>code tn c. client_inv w c \<Longrightarrow> tx_res_ok w (tx code tn c)"
  shows "tx_res_ok w (C_continue timers tx st r code dt tn c)"
proof -
  obtain code1 tn1 c1 where t: "timers code dt tn c = (code1, tn1, c1)" by (metis prod_cases3)
  have i1: "client_inv w c1" by (rule timers [OF t])
  from tx [OF this, of code1 tn1] obtain ret code2 tn2 c2 where "tx code1 tn1 c1 = Some (ret, code2, tn2, c2)" "client_inv w c2"
    by (auto simp: tx_res_ok_def wp_ex)
  moreover obtain ret' c3 where f: "C_finish st r ret code2 c2 = (ret', c3)" by fastforce
  ultimately show ?thesis
    using i1 C_finish_ok [of w c2 st r ret code2 ret' c3] by (simp add: C_continue_def t tx_res_ok_def)
qed

subsection \<open>Transfers within the own node\<close>

lemma C_getSub_ok:
  assumes b: "client_base c" and g: "C_getSub c = (r, c')"
  shows "client_base c'" "C_state c' = C_state c" "C_bufFifo c' = C_bufFifo c"
proof -
  define od where "od = (case C_OD c of None \<Rightarrow> [] | Some od \<Rightarrow> od)"
  obtain r1 io where s: "OD_getSub (OD_find od (C_index c)) (C_subIndex c)
      \<lparr>stream = C_stream c, io_read = OD_readDisabled, io_write = OD_writeDisabled\<rparr> False = (r1, io)"
    by fastforce
  have "od_bounded od" using b by (auto simp: od_def client_base_def od_bounded_def split: option.splits)
  then have "read_bounded (io_read io)"
    using OD_getSub_bounded [OF _ _ s] by (simp add: read_bounded_disabled)
  then show "client_base c'" "C_state c' = C_state c" "C_bufFifo c' = C_bufFifo c"
    using g b by (auto simp: C_getSub_def od_def [symmetric] s client_base_def Let_def split: if_splits)
qed

lemma local_open_ok:
  assumes "client_base c"
  shows "local_download_open c = (ret, code, c') \<Longrightarrow> client_base c' \<and> C_state c' = C_state c \<and> C_bufFifo c' = C_bufFifo c"
    and "local_upload_open c = (ret, code, c') \<Longrightarrow> client_base c' \<and> C_state c' = C_state c \<and> C_bufFifo c' = C_bufFifo c"
proof -
  obtain r c1 where g: "C_getSub c = (r, c1)" by fastforce
  note c1 = C_getSub_ok [OF assms g]
  show "local_download_open c = (ret, code, c') \<Longrightarrow> client_base c' \<and> C_state c' = C_state c \<and> C_bufFifo c' = C_bufFifo c"
    using c1 by (auto simp: local_download_open_def g Let_def split: if_splits)
  show "local_upload_open c = (ret, code, c') \<Longrightarrow> client_base c' \<and> C_state c' = C_state c \<and> C_bufFifo c' = C_bufFifo c"
    using c1 by (auto simp: local_upload_open_def g Let_def split: if_splits)
qed

text \<open>The local buffer has room for the two zeros.\<close>

lemma put_local_zero_Some: "length b < 1002 \<Longrightarrow> put_local_zero b c = Some (b @ [0], c\<lparr>C_sizeTran := C_sizeTran c + 1\<rparr>)"
  by (simp add: put_local_zero_def CO_CONFIG_SDO_CLI_BUFFER_SIZE_def)

definition pass_ok :: "CO_SDO_state \<Rightarrow> client \<Rightarrow> bool" where
  "pass_ok st c \<longleftrightarrow> client_base c \<and> C_state c = st"

lemma pass_ok_upd [simp]:
  "pass_ok st (c\<lparr>C_sizeTran := n\<rparr>) = pass_ok st c" "pass_ok st (c\<lparr>C_sizeInd := n\<rparr>) = pass_ok st c"
  "pass_ok st (c\<lparr>C_stream := s\<rparr>) = pass_ok st c" "pass_ok st (c\<lparr>C_mem := m\<rparr>) = pass_ok st c"
  "pass_ok st (C_set_dataLength l c) = pass_ok st c"
  by (simp_all add: pass_ok_def C_set_dataLength_def)

lemma local_download_last_ok:
  assumes "pass_ok st c" "length b \<le> 1000"
  shows "wp (local_download_last b ret code c) (\<lambda>(b, ret, code, c). pass_ok st c)"
  using assms by (simp add: local_download_last_def Let_def put_local_zero_Some)

lemma local_download_check_ok:
  assumes "pass_ok st c"
  shows "wp (local_download_check bp b ret code c) (\<lambda>(b, ret, code, c). pass_ok st c)"
proof -
  have "wp (local_download_last b ret code (c\<lparr>C_sizeTran := n\<rparr>)) (\<lambda>(b, ret, code, c). pass_ok st c)"
    if "length b \<le> 1000" for n
    using assms that by (intro local_download_last_ok) simp_all
  then show ?thesis
    using assms by (simp add: local_download_check_def Let_def CO_CONFIG_SDO_CLI_BUFFER_SIZE_def)
qed

lemma local_download_pass_ok:
  assumes p: "pass_ok st c"
  shows "wp (local_download_pass bp wr ret code c) (\<lambda>(ret, code, c). pass_ok st c)"
proof -
  have b: "cbuf (C_bufFifo c)" using p by (simp add: pass_ok_def client_base_def)
  define k where "k = length (contents (C_bufFifo c))"
  obtain f where rd: "CO_fifo_read (C_bufFifo c) k False = (contents (C_bufFifo c), False, f)" "cbuf f"
    using cbuf_read [OF b, of k] by (metis k_def take_all order_refl)
  have "pass_ok st (c\<lparr>C_bufFifo := f\<rparr>)" using p rd(2) by (simp add: pass_ok_def client_base_fifo)
  from local_download_check_ok [OF this, of bp "contents (C_bufFifo c)" ret code]
  obtain b' ret' code' c' where c: "local_download_check bp (contents (C_bufFifo c)) ret code (c\<lparr>C_bufFifo := f\<rparr>) =
      Some (b', ret', code', c')" "pass_ok st c'" by (auto simp: wp_ex)
  have "pass_ok st (snd (snd (local_download_write bp wr b' ret' c')))"
    using c(2) by (simp add: local_download_write_def Let_def split: prod.split)
  moreover have "k \<le> CO_CONFIG_SDO_CLI_BUFFER_SIZE + 2"
    using cbuf_contents_le [OF b] by (simp add: k_def CO_CONFIG_SDO_CLI_BUFFER_SIZE_def)
  ultimately show ?thesis
    using cbuf_occupied [OF b] rd(1) c
    by (simp add: local_download_pass_def Let_def k_def [symmetric] case_prod_beta')
qed

lemma local_download_ok:
  assumes "client_base c" "C_state c = CO_SDO_ST_DOWNLOAD_LOCAL_TRANSFER"
  shows "wp (local_download bp c) (res_ok w)"
proof -
  let ?st = CO_SDO_ST_DOWNLOAD_LOCAL_TRANSFER
  obtain ret code c1 where o: "(if Option.is_none (C_write c) then local_download_open c
      else (CO_SDO_RT_waitingResponse, CO_SDO_AB_NONE, c)) = (ret, code, c1)" by (metis prod_cases3)
  have p: "pass_ok ?st c1" using o assms local_open_ok(1) [OF assms(1), of ret code c1] by (auto simp: pass_ok_def split: if_splits)
  have "wp (case C_write c1 of None \<Rightarrow> Some (ret, code, c1) | Some wr \<Rightarrow> local_download_pass bp wr ret code c1)
      (\<lambda>(ret, code, c). pass_ok ?st c)"
    using p local_download_pass_ok by (auto split: option.split)
  then show ?thesis
    unfolding local_download_def o by (auto simp: res_ok_def pass_ok_def inv_quiet elim!: wp_mono)
qed

lemma local_upload_string_ok:
  assumes "local_upload_string odRet b c = (r, b', c')" "pass_ok st c"
  shows "pass_ok st c'"
  using assms by (auto simp: local_upload_string_def Let_def split: if_splits)

lemma local_upload_finish_ok: "pass_ok st c \<Longrightarrow> pass_ok st (snd (snd (local_upload_finish r b code c)))"
proof -
  assume p: "pass_ok st c"
  obtain k f x where wr: "CO_fifo_write (C_bufFifo c) b None = (k, f, x)" by (metis prod_cases3)
  have "pass_ok st (c\<lparr>C_bufFifo := f\<rparr>)" using p client_base_write [OF _ wr] by (simp add: pass_ok_def)
  then show ?thesis by (simp add: local_upload_finish_def wr Let_def)
qed

lemma local_upload_pass_ok:
  assumes p: "pass_ok st c" and rd: "read_bounded rd"
  shows "wp (local_upload_pass rd code c) (\<lambda>(ret, code, c). pass_ok st c)"
proof -
  have b: "cbuf (C_bufFifo c)" using p by (simp add: pass_ok_def client_base_def)
  define k where "k = CO_fifo_getSpace (C_bufFifo c)"
  define n where "n = (if dataLength (C_stream c) > 0 \<and> unat (dataLength (C_stream c)) \<le> k
    then dataLength (C_stream c) else word_of_nat k :: u32)"
  obtain r st' d m where r: "rd (C_stream c) n (C_mem c) = (r, st', d, m)" by (metis prod_cases4)
  have k: "k \<le> 1000" using cbuf_space [OF b] by (simp add: k_def)
  then have "unat n \<le> 1000" by (auto simp: n_def unat_of_nat)
  then have d: "length d \<le> 1000" using read_boundedD [OF rd r] by simp
  obtain r' d' c' where s: "local_upload_string r d (c\<lparr>C_stream := st', C_mem := m\<rparr>) = (r', d', c')" by (metis prod_cases3)
  have "pass_ok st (snd (snd (local_upload_finish r' d' code c')))"
    using local_upload_finish_ok local_upload_string_ok [OF s] p by simp
  then show ?thesis
    using d p unfolding local_upload_pass_def Let_def k_def [symmetric] n_def [symmetric]
    by (simp add: r s CO_CONFIG_SDO_CLI_BUFFER_SIZE_def case_prod_beta')
qed

lemma local_upload_ok:
  assumes "client_base c" "C_state c = CO_SDO_ST_UPLOAD_LOCAL_TRANSFER"
  shows "wp (local_upload c) (res_ok w)"
proof -
  let ?st = CO_SDO_ST_UPLOAD_LOCAL_TRANSFER
  obtain ret code c1 where o: "(if Option.is_none (C_read c) then local_upload_open c
      else (CO_SDO_RT_waitingResponse, CO_SDO_AB_NONE, c)) = (ret, code, c1)" by (metis prod_cases3)
  have p: "pass_ok ?st c1" using o assms local_open_ok(2) [OF assms(1), of ret code c1] by (auto simp: pass_ok_def split: if_splits)
  have "read_bounded rd" if "C_read c1 = Some rd" for rd using p that by (simp add: pass_ok_def client_base_def)
  then have "wp (if CO_fifo_getSpace (C_bufFifo c1) = 0 then Some (CO_SDO_RT_uploadDataBufferFull, code, c1)
      else case C_read c1 of None \<Rightarrow> Some (ret, code, c1) | Some rd \<Rightarrow> local_upload_pass rd code c1)
      (\<lambda>(ret, code, c). pass_ok ?st c)"
    using p local_upload_pass_ok by (auto split: option.split)
  then show ?thesis
    unfolding local_upload_def o by (auto simp: res_ok_def pass_ok_def inv_quiet elim!: wp_mono)
qed

end
