(* ===== verification/SDO_Client_System.thy ===== *)
theory SDO_Client_System
  imports SDO_Client_Safety
begin

text \<open>
  The SDO client as a system: every call of its interface, every received frame and every change
  made by the driver or by others in the memory of the dictionary is an event. The runs from an
  initialised client are shown free of accesses out of range and of loops that do not end; a block
  upload loses no segment to a full buffer.
\<close>

section \<open>The two functions\<close>

lemma CO_SDOclientDownload_ok:
  assumes i: "client_inv w c"
  shows "tx_res_ok w (CO_SDOclientDownload c dt ab bp abIn tn)"
proof -
  have b: "client_base c" using i by (rule inv_base)
  have rest: "tx_res_ok w (C_continue download_timers (ctx_download bp) st r code dt' tn' c')"
    if "client_inv w c'" for st r code dt' tn' c'
    using C_continue_ok [OF that] download_timers_ok [OF that] ctx_download_ok by blast
  have abort: "client_inv w (snd (snd (C_abort_request abIn c)))"
    using b by (simp add: C_abort_request_def C_fail_def inv_quiet)
  have rx: "wp (C_rx crx_download_state ab abIn c) (res_ok w)" 
    using C_rx_ok [of w c crx_download_state ab abIn] crx_download_state_ok [OF i] i by simp
  have loc: "wp (local_download bp c) (res_ok w)" if "C_state c = CO_SDO_ST_DOWNLOAD_LOCAL_TRANSFER"
    by (rule local_download_ok [OF b that])
  show ?thesis
    using i abort rx loc rest
    by (auto simp: CO_SDOclientDownload_def tx_res_ok_def wp_ex res_ok_def Let_def case_prod_beta')
qed

lemma CO_SDOclientUpload_ok:
  assumes i: "client_inv w c"
  shows "tx_res_ok w (CO_SDOclientUpload c dt ab abIn tn)"
proof -
  have b: "client_base c" using i by (rule inv_base)
  have rest: "tx_res_ok w (C_continue upload_timers ctx_upload st r code dt' tn' c')"
    if "client_inv w c'" for st r code dt' tn' c'
    using C_continue_ok [OF that] upload_timers_ok [OF that] ctx_upload_ok by blast
  have abort: "client_inv w (snd (snd (C_abort_request abIn c)))"
    using b by (simp add: C_abort_request_def C_fail_def inv_quiet)
  have rx: "wp (C_rx crx_upload_state ab abIn c) (res_ok w)" 
    using C_rx_ok [of w c crx_upload_state ab abIn] crx_upload_state_ok [OF i] i by simp
  have loc: "wp (local_upload c) (res_ok w)" if "C_state c = CO_SDO_ST_UPLOAD_LOCAL_TRANSFER"
    by (rule local_upload_ok [OF b that])
  show ?thesis
    using i abort rx loc rest
    by (auto simp: CO_SDOclientUpload_def tx_res_ok_def wp_ex res_ok_def Let_def case_prod_beta')
qed

section \<open>The receive function\<close>

lemma C_receive_subblock_ok:
  assumes i: "client_inv w c" and st: "C_state c = CO_SDO_ST_UPLOAD_BLK_SUBBLOCK_SREQ" and l: "length data = 8"
  shows "client_inv w (C_receive_subblock c data)"
proof -
  have b: "client_base c" using i by (rule inv_base)
  have rm: "w \<Longrightarrow> \<not> C_finished c \<and> 7 * unat (C_block_blksize c) \<le> C_room c + 7 * unat (C_block_seqno c)"
    using i st by (simp add: client_inv_def C_room_ok_def room_ok_def)
  define seqno where "seqno = data ! 0 AND 0x7F"
  define d where "d = take 7 (drop 1 data)"
  have d: "length d = 7" using l by (simp add: d_def)
  define c1 where "c1 = c\<lparr>C_timeoutTimer := 0, C_block_timeoutTimer := 0\<rparr>"
  have b1: "client_base c1" using b by (simp add: c1_def)
  obtain f where wr: "CO_fifo_write (C_bufFifo c) d (Some (C_block_crc c)) =
      (min 7 (C_room c), f, Some (crc16_ccitt (take (C_room c) d) (C_block_crc c)))" "cbuf f"
      "contents f = contents (C_bufFifo c) @ take (C_room c) d"
    using cbuf_write [OF client_base_cbuf [OF b], of d "Some (C_block_crc c)"] d by auto
  show ?thesis
  proof (cases "seqno \<le> C_block_blksize c \<and> unat seqno = unat (C_block_seqno c) + 1")
    case True
    then have room: "w \<Longrightarrow> 7 + 7 * unat (C_block_blksize c) \<le> C_room c + 7 * unat seqno \<and> 7 \<le> C_room c"
      using rm by (auto simp: word_le_nat_alt)
    have "client_inv w (c1\<lparr>C_block_seqno := seqno, C_block_dataUploadLast := d, C_finished := True, C_CANrxNew := False,
        C_state := CO_SDO_ST_UPLOAD_BLK_SUBBLOCK_CRSP\<rparr>)"
      using b1 d room by (auto simp: client_inv_def client_base_def C_ahead_ok_def C_room_ok_def room_ok_def c1_def)
    moreover have "client_inv w (c1\<lparr>C_block_seqno := seqno, C_bufFifo := f, C_block_crc := x, C_sizeTran := y\<rparr>)"
      "client_inv w (c1\<lparr>C_block_seqno := seqno, C_bufFifo := f, C_block_crc := x, C_sizeTran := y, C_CANrxNew := False,
         C_state := CO_SDO_ST_UPLOAD_BLK_SUBBLOCK_CRSP\<rparr>)" for x y
      using b1 wr(2,3) d room rm st by (auto simp: client_inv_def client_base_def C_ahead_ok_def C_room_ok_def room_ok_def c1_def)
    ultimately show ?thesis
      using True wr(1)
      by (simp add: C_receive_subblock_def seqno_def [symmetric] d_def [simplified, symmetric] Let_def)
        (auto simp: c1_def)
  next
    case False
    have "client_inv w (c1\<lparr>C_CANrxNew := False, C_state := CO_SDO_ST_UPLOAD_BLK_SUBBLOCK_CRSP\<rparr>)"
      using b1 rm by (auto simp: client_inv_def C_ahead_ok_def C_room_ok_def room_ok_def c1_def)
    with False i show ?thesis by (auto simp: C_receive_subblock_def seqno_def [symmetric] Let_def c1_def)
  qed
qed

lemma CO_SDOclient_receive_ok:
  assumes "client_inv w c"
  shows "client_inv w (CO_SDOclient_receive c data)"
proof -
  have "client_inv w (c\<lparr>C_CANrxData := data, C_CANrxNew := True\<rparr>)" if "length data = 8"
    using assms that by (simp add: client_inv_def client_base_def C_ahead_ok_def C_room_ok_def)
  then show ?thesis
    using assms C_receive_subblock_ok [OF assms] by (auto simp: CO_SDOclient_receive_def)
qed

section \<open>Configuration and buffer access\<close>

lemma CO_SDOclient_setup_ok:
  assumes "client_base c"
  shows "client_inv w (snd (CO_SDOclient_setup rxRet txOk c c2s s2c node))"
    "C_state (snd (CO_SDOclient_setup rxRet txOk c c2s s2c node)) = CO_SDO_ST_IDLE"
proof -
  have "client_base (snd (CO_SDOclient_setup rxRet txOk c c2s s2c node)) \<and>
      C_state (snd (CO_SDOclient_setup rxRet txOk c c2s s2c node)) = CO_SDO_ST_IDLE"
    using assms by (simp add: CO_SDOclient_setup_def Let_def case_prod_beta')
  then show "client_inv w (snd (CO_SDOclient_setup rxRet txOk c c2s s2c node))"
    "C_state (snd (CO_SDOclient_setup rxRet txOk c c2s s2c node)) = CO_SDO_ST_IDLE"
    by (simp_all add: inv_quiet)
qed

lemma OD_write_1280_ok:
  assumes "client_inv w c"
  shows "client_inv w (snd (snd (snd (OD_write_1280 rxRet txOk st b c))))"
  using assms CO_SDOclient_setup_ok(1) [OF inv_base [OF assms]]
  unfolding OD_write_1280_def Let_def by (simp add: case_prod_beta')

lemma Initiate_ok:
  assumes "client_inv w c"
  shows "client_inv w (snd (CO_SDOclientDownloadInitiate c idx sub n t blk))"
    and "client_inv w (snd (CO_SDOclientUploadInitiate c idx sub t blk))"
proof -
  have b: "client_base c" using assms by (rule inv_base)
  have f: "cbuf (CO_fifo_reset (C_bufFifo c))" using cbuf_reset client_base_cbuf [OF b] by blast
  show "client_inv w (snd (CO_SDOclientDownloadInitiate c idx sub n t blk))"
    using assms b f by (auto simp: CO_SDOclientDownloadInitiate_def Let_def inv_quiet client_base_fifo)
  have "client_inv w (c\<lparr>C_index := i, C_subIndex := sub, C_sizeInd := 0, C_sizeTran := 0, C_finished := False,
      C_bufFifo := CO_fifo_reset (C_bufFifo c), C_SDOtimeoutTime_us := x, C_timeoutTimer := 0,
      C_block_SDOtimeoutTime_us := y, C_state := CO_SDO_ST_UPLOAD_BLK_INITIATE_REQ\<rparr>)" for i sub x y
    using b f by (simp add: client_inv_def client_base_fifo C_ahead_ok_def C_room_ok_def room_ok_def)
  moreover have "client_base (c\<lparr>C_bufFifo := CO_fifo_reset (C_bufFifo c), C_read := None\<rparr>)"
    using b f by (simp add: client_base_def)
  ultimately show "client_inv w (snd (CO_SDOclientUploadInitiate c idx sub t blk))"
    using assms b f
    by (auto simp: CO_SDOclientUploadInitiate_def Let_def inv_quiet client_base_fifo)
      (simp add: client_base_def inv_quiet)
qed

text \<open>The contract of the application: data is written to the buffer in downloads only.\<close>

definition block_uploading :: "CO_SDO_state \<Rightarrow> bool" where
  "block_uploading st \<longleftrightarrow> st \<in> {CO_SDO_ST_UPLOAD_BLK_INITIATE_RSP, CO_SDO_ST_UPLOAD_BLK_INITIATE_REQ2,
     CO_SDO_ST_UPLOAD_BLK_SUBBLOCK_SREQ, CO_SDO_ST_UPLOAD_BLK_SUBBLOCK_CRSP, CO_SDO_ST_UPLOAD_BLK_END_SREQ}"

lemma BufWrite_ok:
  assumes "client_inv w c"
  shows "client_inv (w \<and> \<not> block_uploading (C_state c)) (snd (CO_SDOclientDownloadBufWrite c bs))"
proof -
  have b: "client_base c" using assms by (rule inv_base)
  obtain k f x where f: "CO_fifo_write (C_bufFifo c) bs None = (k, f, x)" "cbuf f" "altReadPtr f = altReadPtr (C_bufFifo c)"
    using cbuf_write [OF client_base_cbuf [OF b], of bs None] by metis
  have "room_ok st fin bl sq rm \<Longrightarrow> \<not> block_uploading st \<Longrightarrow> room_ok st fin bl sq rm'" for st fin bl sq rm rm'
    by (auto simp: room_ok_def block_uploading_def split: CO_SDO_state.splits)
  then show ?thesis
    using assms f by (auto simp: CO_SDOclientDownloadBufWrite_def client_inv_def client_base_fifo C_ahead_ok_def
        cbuf_alt_def C_room_ok_def)
qed

lemma BufRead_ok:
  assumes "client_inv w c"
  shows "client_inv w (snd (CO_SDOclientUploadBufRead c n))"
proof -
  have b: "client_base c" using assms by (rule inv_base)
  obtain f where f: "CO_fifo_read (C_bufFifo c) n False = (take n (contents (C_bufFifo c)), False, f)" "cbuf f"
      "contents f = drop n (contents (C_bufFifo c))" "altReadPtr f = altReadPtr (C_bufFifo c)"
    using cbuf_read [OF client_base_cbuf [OF b], of n] by metis
  have "room_ok st fin bl sq rm \<Longrightarrow> rm \<le> rm' \<Longrightarrow> room_ok st fin bl sq rm'" for st fin bl sq rm rm'
    by (auto simp: room_ok_def split: CO_SDO_state.splits)
  then have "C_room_ok c \<Longrightarrow> C_room_ok (c\<lparr>C_bufFifo := f\<rparr>)"
    using f(3) by (simp add: C_room_ok_def diff_le_mono2)
  then show ?thesis
    using assms f by (auto simp: CO_SDOclientUploadBufRead_def client_inv_def client_base_fifo C_ahead_ok_def cbuf_alt_def)
qed

section \<open>Runs\<close>

datatype cli_event =
    CReceive "u8 list"
  | CSetup CO_ReturnError bool u32 u32 u8
  | CWrite1280 CO_ReturnError bool OD_stream "u8 list"
  | CDownloadInitiate u16 u8 u64 u16 bool
  | CDownloadInitSize u64
  | CDownloadBufWrite "u8 list"
  | CDownload u32 bool bool "u32 option" "u32 option"
  | CUploadInitiate u16 u8 u16 bool
  | CUpload u32 bool "u32 option" "u32 option"
  | CUploadBufRead nat
  | CClose
  | CDriver bool
  | CMemory mem

text \<open>\<open>CDriver\<close> is the driver changing \<open>bufferFull\<close>, \<open>CMemory\<close> anyone writing to the dictionary's variables.\<close>

fun client_step :: "cli_event \<Rightarrow> client \<Rightarrow> client option" where
  "client_step (CReceive data) c = Some (CO_SDOclient_receive c data)"
| "client_step (CSetup rxRet txOk c2s s2c node) c = Some (snd (CO_SDOclient_setup rxRet txOk c c2s s2c node))"
| "client_step (CWrite1280 rxRet txOk st b) c = Some (snd (snd (snd (OD_write_1280 rxRet txOk st b c))))"
| "client_step (CDownloadInitiate i sub n t blk) c = Some (snd (CO_SDOclientDownloadInitiate c i sub n t blk))"
| "client_step (CDownloadInitSize n) c = Some (CO_SDOclientDownloadInitSize c n)"
| "client_step (CDownloadBufWrite b) c = Some (snd (CO_SDOclientDownloadBufWrite c b))"
| "client_step (CDownload dt ab bp abIn tn) c =
     map_option (\<lambda>(ret, code, tn, c). c) (CO_SDOclientDownload c dt ab bp abIn tn)"
| "client_step (CUploadInitiate i sub t blk) c = Some (snd (CO_SDOclientUploadInitiate c i sub t blk))"
| "client_step (CUpload dt ab abIn tn) c =
     map_option (\<lambda>(ret, code, tn, c). c) (CO_SDOclientUpload c dt ab abIn tn)"
| "client_step (CUploadBufRead n) c = Some (snd (CO_SDOclientUploadBufRead c n))"
| "client_step CClose c = Some (CO_SDOclientClose c)"
| "client_step (CDriver full) c = Some (c\<lparr>C_CANtx_bufferFull := full\<rparr>)"
| "client_step (CMemory m) c = Some (c\<lparr>C_mem := m\<rparr>)"

fun keeps_contract :: "cli_event \<Rightarrow> client \<Rightarrow> bool" where
  "keeps_contract (CDownloadBufWrite b) c = (\<not> block_uploading (C_state c))"
| "keeps_contract e c = True"

lemma client_step_ok:
  assumes "client_inv w c"
  shows "wp (client_step e c) (client_inv (w \<and> keeps_contract e c))"
proof (cases e)
  case (CDownload dt ab bp abIn tn)
  then show ?thesis using CO_SDOclientDownload_ok [OF assms, of dt ab bp abIn tn]
    by (simp add: tx_res_ok_def case_prod_beta')
next
  case (CUpload dt ab abIn tn)
  then show ?thesis using CO_SDOclientUpload_ok [OF assms, of dt ab abIn tn]
    by (simp add: tx_res_ok_def case_prod_beta')
qed (use assms inv_base [OF assms] in \<open>auto simp: CO_SDOclient_receive_ok CO_SDOclient_setup_ok OD_write_1280_ok
  Initiate_ok CO_SDOclientDownloadInitSize_def Let_def CO_SDOclientClose_def inv_quiet BufWrite_ok BufRead_ok\<close>)

text \<open>The invariant without the contract is that of a system driven by arbitrary events.\<close>

lemma client_inv_weaken: "client_inv w c \<Longrightarrow> client_inv False c"
  by (simp add: client_inv_def)

interpretation clients: safe_system "client_inv False" client_step
  by unfold_locales (use client_step_ok [of False] in \<open>simp add: wp_ex\<close>)

text \<open>
  An allocated client: the storage has its size, \<open>calloc\<close> cleared the function pointers. The reachable
  clients, with whether the application kept its contract.
\<close>

definition client_allocated :: "client \<Rightarrow> bool" where
  "client_allocated c \<longleftrightarrow> length (C_CANrxData c) = 8 \<and> length (C_CANtx_data c) = 8 \<and>
     length (C_block_dataUploadLast c) = 7 \<and> length (fbuf (C_bufFifo c)) = 1001 \<and> Option.is_none (C_read c)"

inductive client_reach :: "OD_t option \<Rightarrow> bool \<Rightarrow> client \<Rightarrow> bool" for od where
  client_init: "client_allocated c \<Longrightarrow> CO_SDOclient_init rxRet txOk c od par node = (CO_ERROR_NO, info, c') \<Longrightarrow>
    client_reach od True c'"
| client_event: "client_reach od w c \<Longrightarrow> client_step e c = Some c' \<Longrightarrow> client_reach od (w \<and> keeps_contract e c) c'"

lemma CO_SDOclient_init_inv:
  assumes a: "client_allocated c" and od: "case od of None \<Rightarrow> True | Some od \<Rightarrow> od_bounded od"
    and "CO_SDOclient_init rxRet txOk c od par node = (CO_ERROR_NO, info, c')"
  shows "client_inv True c'"
proof -
  define f where "f = CO_fifo_init (C_bufFifo c) (fbuf (C_bufFifo c)) (CO_CONFIG_SDO_CLI_BUFFER_SIZE + 1)"
  have "cbuf f" using a
    by (simp add: f_def client_allocated_def CO_fifo_init_def CO_CONFIG_SDO_CLI_BUFFER_SIZE_def cbuf_def fifo_inv_def)
  then have "client_base (c\<lparr>C_OD := od, C_nodeId := node, C_bufFifo := f, C_mem := m, C_OD_1280_extended := True,
      C_COB_IDClientToServer := 0, C_COB_IDServerToClient := 0\<rparr>)" for m
    using a od by (simp add: client_base_def client_allocated_def Option.is_none_def)
  then have "client_inv True c2" if "CO_SDOclient_setup rxRet txOk (c\<lparr>C_OD := od, C_nodeId := node, C_bufFifo := f,
      C_mem := m, C_OD_1280_extended := True, C_COB_IDClientToServer := 0, C_COB_IDServerToClient := 0\<rparr>) c2s s2c srv = (r, c2)"
    for m c2s s2c srv r c2
    using CO_SDOclient_setup_ok(1) that by (metis snd_conv)
  then show ?thesis
    using assms(3) unfolding CO_SDOclient_init_def Let_def f_def [symmetric]
    by (auto split: if_splits prod.splits)
qed

lemma client_reach_inv:
  assumes "case od of None \<Rightarrow> True | Some od \<Rightarrow> od_bounded od"
  shows "client_reach od w c \<Longrightarrow> client_inv w c"
proof (induction rule: client_reach.induct)
  case (client_event w c e c')
  then show ?case using client_step_ok [of w c e] by simp
qed (use CO_SDOclient_init_inv [OF _ assms] in blast)


text \<open>
  No segment of a block upload is lost. As long as the application writes to the client's
  buffer in downloads only, a segment with the expected number that arrives while a sub-block is
  received is appended to the buffer completely and included in the checksum; the last one is kept
  aside and the buffer has room for it when its length is known.
\<close>

theorem upload_segment_kept:
  assumes "case od of None \<Rightarrow> True | Some od \<Rightarrow> od_bounded od" "client_reach od True c"
    and "C_state c = CO_SDO_ST_UPLOAD_BLK_SUBBLOCK_SREQ" "\<not> C_CANrxNew c" "length data = 8" "data ! 0 \<noteq> 0x80"
    and "unat (data ! 0 AND 0x7F) = unat (C_block_seqno c) + 1" "data ! 0 AND 0x7F \<le> C_block_blksize c"
  shows "C_block_seqno (CO_SDOclient_receive c data) = data ! 0 AND 0x7F \<and>
    (if data ! 0 AND 0x80 = 0 then
       contents (C_bufFifo (CO_SDOclient_receive c data)) = contents (C_bufFifo c) @ drop 1 data \<and>
       C_block_crc (CO_SDOclient_receive c data) = crc16_ccitt (drop 1 data) (C_block_crc c)
     else
       C_block_dataUploadLast (CO_SDOclient_receive c data) = drop 1 data \<and>
       contents (C_bufFifo (CO_SDOclient_receive c data)) = contents (C_bufFifo c) \<and>
       length (contents (C_bufFifo c)) + 7 \<le> 1000)"
proof -
  have i: "client_inv True c" by (rule client_reach_inv [OF assms(1,2)])
  then have "7 * unat (C_block_blksize c) \<le> C_room c + 7 * unat (C_block_seqno c)"
    using assms(3) by (simp add: client_inv_def C_room_ok_def room_ok_def)
  then have room: "7 \<le> C_room c" using assms(7,8) by (auto simp: word_le_nat_alt)
  then have room': "length (contents (C_bufFifo c)) \<le> 993" by linarith
  have d: "length (drop 1 data) = 7" "take 7 (drop 1 data) = drop 1 data" using assms(5) by simp_all
  obtain f where wr: "CO_fifo_write (C_bufFifo c) (drop 1 data) (Some (C_block_crc c)) =
      (7, f, Some (crc16_ccitt (drop 1 data) (C_block_crc c)))" "contents f = contents (C_bufFifo c) @ drop 1 data"
    using cbuf_write [OF client_base_cbuf [OF inv_base [OF i]], of "drop 1 data" "Some (C_block_crc c)"] d room
    by (auto simp: min_def)
  have "CO_SDOclient_receive c data = C_receive_subblock c data"
    using assms(3-6) by (simp add: CO_SDOclient_receive_def)
  then show ?thesis
    using assms(7,8) wr room' by (simp add: C_receive_subblock_def Let_def d(2) [simplified])
qed

section \<open>A concrete client\<close>

text \<open>The parameter object of a client for the server with node-ID 16, and its variables in memory.\<close>

definition example_1280 :: OD_entry where
  "example_1280 =
     \<lparr>entry_index = 0x1280, subEntriesCount = 4,
      odObject = Some (ODT_REC
        [\<lparr>rec_dataOrig = Some 0, rec_subIndex = 0, rec_attribute = 1, rec_dataLength = 1\<rparr>,
         \<lparr>rec_dataOrig = Some 1, rec_subIndex = 1, rec_attribute = 3, rec_dataLength = 4\<rparr>,
         \<lparr>rec_dataOrig = Some 5, rec_subIndex = 2, rec_attribute = 3, rec_dataLength = 4\<rparr>,
         \<lparr>rec_dataOrig = Some 9, rec_subIndex = 3, rec_attribute = 3, rec_dataLength = 1\<rparr>]),
      extension = None\<rparr>"

definition example_client_object :: "u8 list \<Rightarrow> client" where
  "example_client_object storage =
     \<lparr>C_OD = None, C_nodeId = 0, C_stream = stream OD_IO_null, C_read = None, C_write = None,
      C_COB_IDClientToServer = 0, C_COB_IDServerToClient = 0, C_OD_1280_extended = False,
      C_nodeIDOfTheSDOServer = 0, C_valid = False, C_index = 0, C_subIndex = 0, C_finished = False,
      C_sizeInd = 0, C_sizeTran = 0, C_state = CO_SDO_ST_IDLE, C_SDOtimeoutTime_us = 0, C_timeoutTimer = 0,
      C_bufFifo = \<lparr>fbuf = storage, bufSize = 0, writePtr = 0, readPtr = 0, altReadPtr = 0, started = False, aux = 0\<rparr>,
      C_CANrxNew = False, C_CANrxData = replicate 8 0, C_toggle = 0, C_block_SDOtimeoutTime_us = 0,
      C_block_timeoutTimer = 0, C_block_seqno = 0, C_block_blksize = 0, C_block_noData = 0,
      C_block_crcEnabled = False, C_block_dataUploadLast = replicate 7 0, C_block_crc = 0,
      C_CANrx_ident = 0, C_CANtx_ident = 0, C_CANtx_data = replicate 8 0, C_CANtx_bufferFull = False,
      C_mem = (\<lambda>a. if a < 10 then [3, 0x10, 6, 0, 0, 0x90, 5, 0, 0, 16] ! a else 0), C_sent = []\<rparr>"

definition example_client_init :: "u8 list \<Rightarrow> CO_ReturnError \<times> u32 option \<times> client" where
  "example_client_init storage =
     CO_SDOclient_init CO_ERROR_NO True (example_client_object storage) None (Some example_1280) 1"

definition example_client :: client where
  "example_client = snd (snd (example_client_init (replicate 1001 0)))"

lemma example_client_init_ok:
  "(case example_client_init storage of (ret, info, c) \<Rightarrow>
     (ret, C_valid c, C_CANtx_bufferFull c, C_state c, C_CANtx_ident c, C_CANrx_ident c, C_sent c,
      Option.is_none (C_OD c), C_CANrxNew c)) =
   (CO_ERROR_NO, True, False, CO_SDO_ST_IDLE, 0x610, 0x590, [], True, False)"
  by code_simp

lemma example_client_reach: "client_reach None True example_client"
proof -
  have "client_allocated (example_client_object (replicate 1001 0))"
    by (simp add: client_allocated_def example_client_object_def)
  moreover have "fst (example_client_init (replicate 1001 0)) = CO_ERROR_NO"
    using example_client_init_ok [of "replicate 1001 0"] by (auto split: prod.splits)
  ultimately show ?thesis
    unfolding example_client_def example_client_init_def by (intro client_init) (auto simp: prod_eq_iff)
qed


text \<open>The client after the start of a block upload of twenty bytes.\<close>

definition example_upload_events :: "cli_event list" where
  "example_upload_events = [CUploadInitiate 0x2001 0 1000 True, CUpload 0 False None None,
     CReceive [0xC6, 1, 0x20, 0, 20, 0, 0, 0], CUpload 0 False None None]"

lemma example_uploading:
  "map_option (\<lambda>c. (C_state c, C_CANrxNew c, C_block_blksize c, C_block_seqno c))
     (run client_step example_upload_events (snd (snd (example_client_init storage)))) =
   Some (CO_SDO_ST_UPLOAD_BLK_SUBBLOCK_SREQ, False, 127, 0)"
  by code_simp

lemma client_run_reach:
  "client_reach od w c \<Longrightarrow> run client_step es c = Some c' \<Longrightarrow> \<forall>e \<in> set es. \<forall>c. keeps_contract e c \<Longrightarrow>
   client_reach od w c'"
proof (induction es arbitrary: c)
  case (Cons e es)
  then obtain c1 where c1: "client_step e c = Some c1" "run client_step es c1 = Some c'" by (auto split: bind_splits)
  with Cons.prems have "client_reach od w c1" using client_event [of od w c e c1] by simp
  with Cons c1 show ?case by simp
qed simp

theorem upload_segment_kept_witness:
  "\<exists>c. run client_step example_upload_events example_client = Some c \<and>
     contents (C_bufFifo (CO_SDOclient_receive c [1, 11, 12, 13, 14, 15, 16, 17])) =
       contents (C_bufFifo c) @ [11, 12, 13, 14, 15, 16, 17]"
proof -
  obtain c where r: "run client_step example_upload_events example_client = Some c"
    and c: "C_state c = CO_SDO_ST_UPLOAD_BLK_SUBBLOCK_SREQ" "\<not> C_CANrxNew c" "C_block_blksize c = 127" "C_block_seqno c = 0"
    using example_uploading [of "replicate 1001 0"] unfolding example_client_def [symmetric] by auto
  have "client_reach None True c"
    by (rule client_run_reach [OF example_client_reach r]) (auto simp: example_upload_events_def)
  with upload_segment_kept [of None c "[1, 11, 12, 13, 14, 15, 16, 17]"] c r show ?thesis by simp
qed

end
