(* ===== verification/SDO_Session.thy ===== *)
theory SDO_Session
  imports SDO_Transfer SDO_Client_System
begin

text \<open>
  The SDO client and the SDO server together: the loop in which an application calls the client's
  function until the transfer ends (the examples in \<open>301/CO_SDOclient.h\<close>), with the frames of each
  side delivered to the other in between. A download stores the application's data in the server's
  variable, an upload delivers the variable's value to the application's buffer, and both ends
  report success and are idle.
\<close>

section \<open>The loop\<close>

text \<open>
  The frames the client handed to its driver, one after the other to the server; what the server
  answers goes back to the client. Both sides use each other's identifiers.
\<close>

fun deliver :: "client \<Rightarrow> sdo \<Rightarrow> u8 list list \<Rightarrow> (client \<times> sdo) option" where
  "deliver c s [] = Some (c, s)"
| "deliver c s (f # fs) = do {
     (ret, s') \<leftarrow> sdo_exchange s f;
     deliver (foldl CO_SDOclient_receive c (drop (length (sent s)) (sent s'))) s' fs
   }"

text \<open>A return value that is not positive ends the loop.\<close>

definition transfer_ends :: "CO_SDO_return \<Rightarrow> bool" where
  "transfer_ends ret \<longleftrightarrow> ret \<in> {CO_SDO_RT_ok_communicationEnd, CO_SDO_RT_wrongArguments,
     CO_SDO_RT_endedWithClientAbort, CO_SDO_RT_endedWithServerAbort}"

text \<open>At most \<open>k\<close> calls.\<close>

fun client_session ::
    "(client \<Rightarrow> cli_tx_result) \<Rightarrow> nat \<Rightarrow> client \<Rightarrow> sdo \<Rightarrow> (CO_SDO_return \<times> u32 \<times> client \<times> sdo) option" where
  "client_session call 0 c s = None"
| "client_session call (Suc k) c s = do {
     (ret, code, tn, c') \<leftarrow> call c;
     if transfer_ends ret then Some (ret, code, c', s)
     else do {
       (c'', s') \<leftarrow> deliver c' s (drop (length (C_sent c)) (C_sent c'));
       client_session call k c'' s'
     }
   }"

lemma session_round:
  assumes "call c = Some (CO_SDO_RT_waitingResponse, code, tn, c')" "C_sent c' = C_sent c @ [f]"
    and "sdo_exchange s f = Some (ret, s')" "sent s' = sent s @ [g]"
  shows "client_session call (Suc k) c s = client_session call k (CO_SDOclient_receive c' g) s'"
  using assms by (simp add: transfer_ends_def)

lemma session_end:
  assumes "call c = Some (CO_SDO_RT_ok_communicationEnd, code, tn, c')"
  shows "client_session call (Suc k) c s = Some (CO_SDO_RT_ok_communicationEnd, code, c', s)"
  using assms by (simp add: transfer_ends_def)

abbreviation download_call :: "u32 \<Rightarrow> client \<Rightarrow> cli_tx_result" where
  "download_call dt c \<equiv> CO_SDOclientDownload c dt False False None None"

abbreviation upload_call :: "u32 \<Rightarrow> client \<Rightarrow> cli_tx_result" where
  "upload_call dt c \<equiv> CO_SDOclientUpload c dt False None None"

section \<open>One call\<close>

text \<open>A client with a transfer that waits; its transmit buffer is free and its timeout is set.\<close>

definition cli_ready :: "client \<Rightarrow> bool" where
  "cli_ready c \<longleftrightarrow> client_base c \<and> C_valid c \<and> \<not> C_CANtx_bufferFull c \<and> 0 < C_SDOtimeoutTime_us c"

lemma cli_ready_upd [simp]:
  "cli_ready (c\<lparr>C_state := st\<rparr>) = cli_ready c" "cli_ready (c\<lparr>C_timeoutTimer := t\<rparr>) = cli_ready c"
  "cli_ready (c\<lparr>C_CANrxNew := b\<rparr>) = cli_ready c" "cli_ready (c\<lparr>C_toggle := u\<rparr>) = cli_ready c"
  "cli_ready (c\<lparr>C_sent := fs\<rparr>) = cli_ready c" "cli_ready (c\<lparr>C_sizeTran := n\<rparr>) = cli_ready c"
  "cli_ready (c\<lparr>C_sizeInd := n\<rparr>) = cli_ready c" "cli_ready (c\<lparr>C_finished := b\<rparr>) = cli_ready c"
  by (simp_all add: cli_ready_def)

lemma cli_ready_tx: "cli_ready c \<Longrightarrow> length d = 8 \<Longrightarrow> cli_ready (c\<lparr>C_CANtx_data := d\<rparr>)"
  by (simp add: cli_ready_def client_base_tx)

lemma cli_ready_rx: "cli_ready c \<Longrightarrow> length d = 8 \<Longrightarrow> cli_ready (c\<lparr>C_CANrxData := d\<rparr>)"
  by (simp add: cli_ready_def client_base_def)

lemma cli_ready_fifo: "cli_ready c \<Longrightarrow> cbuf f \<Longrightarrow> cli_ready (c\<lparr>C_bufFifo := f\<rparr>)"
  by (simp add: cli_ready_def client_base_fifo)

lemma cli_ready_cbuf: "cli_ready c \<Longrightarrow> cbuf (C_bufFifo c)"
  by (simp add: cli_ready_def client_base_def)

text \<open>A call that handles a response and sends the next request.\<close>

lemma timeout_not_yet:
  assumes "C_timeoutTimer c = 0" "dt < C_SDOtimeoutTime_us c"
  shows "C_timeout reason code dt None c = (code, None, c\<lparr>C_timeoutTimer := dt\<rparr>)"
proof -
  have "0 < C_SDOtimeoutTime_us c" using assms(2) by (auto simp: word_less_nat_alt)
  moreover have "(C_SDOtimeoutTime_us c \<le> dt) = False" using assms(2) by simp
  ultimately show ?thesis using assms(1) by (simp add: C_timeout_def Let_def timer_next_def)
qed

lemma download_continue:
  assumes "cli_ready c" "C_timeoutTimer c = 0" "dt < C_SDOtimeoutTime_us c"
    and "ctx_download False 0 None (c\<lparr>C_timeoutTimer := dt\<rparr>) = C_tx_wait 0 None c2"
    and "C_state c2 \<noteq> CO_SDO_ST_ABORT" "C_state c2 \<noteq> CO_SDO_ST_DOWNLOAD_BLK_SUBBLOCK_REQ"
  shows "C_continue download_timers (ctx_download False) CO_SDO_ST_DOWNLOAD_BLK_SUBBLOCK_REQ
    CO_SDO_RT_blockDownldInProgress 0 dt None c = C_tx_wait 0 None c2"
  using assms by (simp add: C_continue_def download_timers_def timeout_not_yet cli_ready_def C_finish_def)

lemma upload_continue:
  assumes "cli_ready c" "C_timeoutTimer c = 0" "dt < C_SDOtimeoutTime_us c"
    and "C_state c \<noteq> CO_SDO_ST_UPLOAD_BLK_SUBBLOCK_SREQ"
    and "ctx_upload 0 None (c\<lparr>C_timeoutTimer := dt\<rparr>) = C_tx_wait 0 None c2"
    and "C_state c2 \<noteq> CO_SDO_ST_ABORT" "C_state c2 \<noteq> CO_SDO_ST_UPLOAD_BLK_SUBBLOCK_SREQ"
  shows "C_continue upload_timers ctx_upload CO_SDO_ST_UPLOAD_BLK_SUBBLOCK_SREQ
    CO_SDO_RT_blockUploadInProgress 0 dt None c = C_tx_wait 0 None c2"
  using assms by (simp add: C_continue_def upload_timers_def timeout_not_yet cli_ready_def C_finish_def)

text \<open>The response to a request is in the receive buffer.\<close>

definition answered :: "client \<Rightarrow> u8 list \<Rightarrow> bool" where
  "answered c f \<longleftrightarrow> C_CANrxNew c \<and> C_CANrxData c = f"

lemma download_call_rx:
  assumes c: "cli_ready c" "answered c f" "f ! 0 \<noteq> 0x80"
    and st: "C_state c \<noteq> CO_SDO_ST_IDLE" "C_state c \<noteq> CO_SDO_ST_DOWNLOAD_LOCAL_TRANSFER"
    and rx: "crx_download_state c = Some (C_wait 0 c1)" "cli_ready c1"
    and tx: "ctx_download False 0 None (c1\<lparr>C_timeoutTimer := 0, C_CANrxNew := False\<rparr>) = C_tx_wait 0 None c2"
      "C_state c2 \<noteq> CO_SDO_ST_ABORT" "C_state c2 \<noteq> CO_SDO_ST_DOWNLOAD_BLK_SUBBLOCK_REQ"
  shows "download_call dt c = Some (CO_SDO_RT_waitingResponse, 0, None, c2)"
proof -
  let ?t = "c1\<lparr>C_timeoutTimer := 0, C_CANrxNew := False\<rparr>"
  have t0: "?t\<lparr>C_timeoutTimer := 0\<rparr> = ?t" by (rule client.equality) simp_all
  have "C_continue download_timers (ctx_download False) CO_SDO_ST_DOWNLOAD_BLK_SUBBLOCK_REQ
      CO_SDO_RT_blockDownldInProgress 0 0 None ?t = C_tx_wait 0 None c2"
  proof (rule download_continue)
    show "ctx_download False 0 None (?t\<lparr>C_timeoutTimer := 0\<rparr>) = C_tx_wait 0 None c2" unfolding t0 by (rule tx(1))
  qed (use rx tx in \<open>simp_all add: cli_ready_def\<close>)
  then show ?thesis
    using c st rx by (simp add: CO_SDOclientDownload_def C_rx_def answered_def cli_ready_def)
qed

lemma upload_call_rx:
  assumes c: "cli_ready c" "answered c f" "f ! 0 \<noteq> 0x80"
    and st: "C_state c \<noteq> CO_SDO_ST_IDLE" "C_state c \<noteq> CO_SDO_ST_UPLOAD_LOCAL_TRANSFER"
    and rx: "crx_upload_state c = Some (C_wait 0 c1)" "cli_ready c1" "C_state c1 \<noteq> CO_SDO_ST_UPLOAD_BLK_SUBBLOCK_SREQ"
    and tx: "ctx_upload 0 None (c1\<lparr>C_timeoutTimer := 0, C_CANrxNew := False\<rparr>) = C_tx_wait 0 None c2"
      "C_state c2 \<noteq> CO_SDO_ST_ABORT" "C_state c2 \<noteq> CO_SDO_ST_UPLOAD_BLK_SUBBLOCK_SREQ"
  shows "upload_call dt c = Some (CO_SDO_RT_waitingResponse, 0, None, c2)"
proof -
  let ?t = "c1\<lparr>C_timeoutTimer := 0, C_CANrxNew := False\<rparr>"
  have t0: "?t\<lparr>C_timeoutTimer := 0\<rparr> = ?t" by (rule client.equality) simp_all
  have "C_continue upload_timers ctx_upload CO_SDO_ST_UPLOAD_BLK_SUBBLOCK_SREQ
      CO_SDO_RT_blockUploadInProgress 0 0 None ?t = C_tx_wait 0 None c2"
  proof (rule upload_continue)
    show "ctx_upload 0 None (?t\<lparr>C_timeoutTimer := 0\<rparr>) = C_tx_wait 0 None c2" unfolding t0 by (rule tx(1))
  qed (use rx tx in \<open>simp_all add: cli_ready_def\<close>)
  then show ?thesis
    using c st rx by (simp add: CO_SDOclientUpload_def C_rx_def answered_def cli_ready_def)
qed

text \<open>A call that handles the last response.\<close>

lemma call_end:
  assumes c: "cli_ready c" "answered c f" "f ! 0 \<noteq> 0x80" and st: "C_state c \<noteq> CO_SDO_ST_IDLE"
  shows "C_state c \<noteq> CO_SDO_ST_DOWNLOAD_LOCAL_TRANSFER \<Longrightarrow> crx_download_state c = Some (C_end c1) \<Longrightarrow>
      download_call dt c = Some (CO_SDO_RT_ok_communicationEnd, 0, None,
        c1\<lparr>C_state := CO_SDO_ST_IDLE, C_timeoutTimer := 0, C_CANrxNew := False\<rparr>)"
    and "C_state c \<noteq> CO_SDO_ST_UPLOAD_LOCAL_TRANSFER \<Longrightarrow> crx_upload_state c = Some (C_end c1) \<Longrightarrow>
      upload_call dt c = Some (CO_SDO_RT_ok_communicationEnd, 0, None,
        c1\<lparr>C_state := CO_SDO_ST_IDLE, C_timeoutTimer := 0, C_CANrxNew := False\<rparr>)"
  using c st
  by (simp_all add: CO_SDOclientDownload_def CO_SDOclientUpload_def C_rx_def answered_def cli_ready_def C_end_def)

text \<open>A call without a response yet, after the transfer was started.\<close>

lemma call_first:
  assumes "cli_ready c" "\<not> C_CANrxNew c" "C_timeoutTimer c = 0" "dt < C_SDOtimeoutTime_us c"
  shows "C_state c = CO_SDO_ST_DOWNLOAD_INITIATE_REQ \<Longrightarrow>
      ctx_download False 0 None (c\<lparr>C_timeoutTimer := dt\<rparr>) = C_tx_wait 0 None c2 \<Longrightarrow>
      C_state c2 = CO_SDO_ST_DOWNLOAD_INITIATE_RSP \<Longrightarrow>
      download_call dt c = Some (CO_SDO_RT_waitingResponse, 0, None, c2)"
    and "C_state c = CO_SDO_ST_UPLOAD_INITIATE_REQ \<Longrightarrow>
      ctx_upload 0 None (c\<lparr>C_timeoutTimer := dt\<rparr>) = C_tx_wait 0 None c2 \<Longrightarrow>
      C_state c2 = CO_SDO_ST_UPLOAD_INITIATE_RSP \<Longrightarrow>
      upload_call dt c = Some (CO_SDO_RT_waitingResponse, 0, None, c2)"
proof -
  have v: "C_valid c" using assms(1) by (simp add: cli_ready_def)
  show "download_call dt c = Some (CO_SDO_RT_waitingResponse, 0, None, c2)"
    if "C_state c = CO_SDO_ST_DOWNLOAD_INITIATE_REQ"
      "ctx_download False 0 None (c\<lparr>C_timeoutTimer := dt\<rparr>) = C_tx_wait 0 None c2"
      "C_state c2 = CO_SDO_ST_DOWNLOAD_INITIATE_RSP"
    using that v assms download_continue [OF assms(1,3,4) that(2)] by (simp add: CO_SDOclientDownload_def)
  show "upload_call dt c = Some (CO_SDO_RT_waitingResponse, 0, None, c2)"
    if "C_state c = CO_SDO_ST_UPLOAD_INITIATE_REQ"
      "ctx_upload 0 None (c\<lparr>C_timeoutTimer := dt\<rparr>) = C_tx_wait 0 None c2"
      "C_state c2 = CO_SDO_ST_UPLOAD_INITIATE_RSP"
    using that v assms upload_continue [OF assms(1,3,4) _ that(2)] by (simp add: CO_SDOclientUpload_def)
qed

text \<open>The answer of the server arrives.\<close>

lemma receive_answer:
  assumes "cli_ready c" "\<not> C_CANrxNew c" "length f = 8" "C_state c \<noteq> CO_SDO_ST_IDLE"
    and "C_state c \<noteq> CO_SDO_ST_UPLOAD_BLK_SUBBLOCK_SREQ" "C_state c \<noteq> CO_SDO_ST_UPLOAD_BLK_SUBBLOCK_CRSP"
  shows "CO_SDOclient_receive c f = c\<lparr>C_CANrxData := f, C_CANrxNew := True\<rparr>"
  using assms by (simp add: CO_SDOclient_receive_def)

section \<open>Segmented download\<close>

text \<open>
  A client in the middle of a segmented download of \<open>len\<close> bytes that has \<open>d\<close> still to send; \<open>t\<close> is
  its toggle bit.
\<close>

definition c_downloading :: "client \<Rightarrow> nat \<Rightarrow> u8 \<Rightarrow> u8 list \<Rightarrow> bool" where
  "c_downloading c len t d \<longleftrightarrow> cli_ready c \<and> C_toggle c = t \<and> (t = 0 \<or> t = 0x10) \<and> contents (C_bufFifo c) = d \<and>
     len \<le> 1000 \<and> unat (C_sizeInd c) = len \<and> unat (C_sizeTran c) + length d = len"

lemma c_downloading_upd [simp]:
  "c_downloading (c\<lparr>C_state := st\<rparr>) len t d = c_downloading c len t d"
  "c_downloading (c\<lparr>C_timeoutTimer := x\<rparr>) len t d = c_downloading c len t d"
  "c_downloading (c\<lparr>C_CANrxNew := b\<rparr>) len t d = c_downloading c len t d"
  "c_downloading (c\<lparr>C_sent := fs\<rparr>) len t d = c_downloading c len t d"
  "c_downloading (c\<lparr>C_finished := b\<rparr>) len t d = c_downloading c len t d"
  by (simp_all add: c_downloading_def)

lemma segment_byte:
  assumes "1 \<le> k" "k \<le> 7"
  shows "t OR push_bit 1 (7 - word_of_nat k :: u8) OR 0x01 = t OR ucast (push_bit 1 (7 - word_of_nat k) OR 0x01 :: u32)"
proof -
  have "k \<in> {1, 2, 3, 4, 5, 6, 7}" using assms by auto
  then show ?thesis by auto
qed

lemma ctx_segment:
  assumes c: "c_downloading c len t d" "d \<noteq> []" and st: "C_state c = CO_SDO_ST_DOWNLOAD_SEGMENT_REQ"
  obtains c2 where "ctx_download False 0 None c = C_tx_wait 0 None c2" "c_downloading c2 len t (drop 7 d)"
    "C_state c2 = CO_SDO_ST_DOWNLOAD_SEGMENT_RSP" "C_finished c2 \<longleftrightarrow> length d \<le> 7 \<or> C_finished c"
    "C_sent c2 = C_sent c @ [segment_frame t d]" "C_CANrxNew c2 = C_CANrxNew c"
proof -
  define X where "X = take 7 d"
  define k where "k = length X"
  have r: "cli_ready c" and cd: "contents (C_bufFifo c) = d" and len: "len \<le> 1000" "unat (C_sizeInd c) = len"
      "unat (C_sizeTran c) + length d = len" and t: "C_toggle c = t" "t = 0 \<or> t = 0x10"
    using c(1) by (simp_all add: c_downloading_def)
  obtain f where rd: "CO_fifo_read (C_bufFifo c) 7 False = (X, False, f)" "cbuf f" "contents f = drop 7 d"
    using cbuf_read [OF cli_ready_cbuf [OF r], of 7] cd unfolding X_def by metis
  have k: "1 \<le> k" "k \<le> 7" "k \<le> length d" "7 < length d \<Longrightarrow> k = 7" "length d \<le> 7 \<Longrightarrow> k = length d"
    using c(2) by (cases d; simp add: k_def X_def)+
  have kw: "unat (word_of_nat k :: u64) = k" using k(2) by (simp add: unat_of_nat)
  define n where "n = C_sizeTran c + word_of_nat k"
  have n: "unat n = unat (C_sizeTran c) + k"
    unfolding n_def using kw len k(3) by (subst unat_plus_small) simp_all
  have notlong: "(0 < C_sizeInd c \<and> C_sizeInd c < n) = False" using n len k by (simp add: word_less_nat_alt)
  have short: "(0 < C_sizeInd c \<and> n < C_sizeInd c) = (7 < length d)"
    using n len k by (cases "length d \<le> 7") (simp_all add: word_less_nat_alt)
  define tx where "tx = X @ replicate (7 - k) (0 :: u8)"
  have copy: "C_tx_copy 1 X (c\<lparr>C_CANtx_data := replicate 8 0, C_bufFifo := f\<rparr>) =
      Some (c\<lparr>C_CANtx_data := 0 # tx, C_bufFifo := f\<rparr>)"
    using k by (simp add: C_tx_copy_def buf_write_def tx_def k_def)
  have occ: "(CO_fifo_getOccupied f = 0) = (length d \<le> 7)" using cbuf_occupied [OF rd(2)] rd(3) by simp
  define c1 where "c1 = (\<lambda>b. c\<lparr>C_CANtx_data := b # tx, C_bufFifo := f, C_sizeTran := n\<rparr>)"
  have put: "C_tx_put [(0, b)] (c1 b') = c1 b" for b b' by (simp add: C_tx_put_def c1_def)
  have c1_0: "c\<lparr>C_CANtx_data := 0 # tx, C_bufFifo := f, C_sizeTran := n\<rparr> = c1 0" by (simp add: c1_def)
  have c1: "C_CANtx_data (c1 b) ! 0 = b" "C_toggle (c1 b) = t" "C_bufFifo (c1 b) = f" "C_sizeInd (c1 b) = C_sizeInd c"
      "C_sizeTran (c1 b) = n" for b by (simp_all add: c1_def t)
  define lst where "lst = t OR push_bit 1 (7 - word_of_nat k) OR (0x01 :: u8)"
  define b where "b = (if length d \<le> 7 then lst else t)"
  define c2 where "c2 = (C_send ((c1 b)\<lparr>C_finished := (length d \<le> 7 \<or> C_finished c), C_timeoutTimer := 0\<rparr>))
    \<lparr>C_state := CO_SDO_ST_DOWNLOAD_SEGMENT_RSP\<rparr>"
  have seg: "ctx_DOWNLOAD_SEGMENT_REQ False 0 None (c\<lparr>C_CANtx_data := replicate 8 0\<rparr>) =
    (if length d \<le> 7
     then C_transmit 0 None CO_SDO_ST_DOWNLOAD_SEGMENT_RSP ((c1 ((t OR push_bit 1 (7 - word_of_nat k)) OR 0x01))\<lparr>C_finished := True\<rparr>)
     else C_transmit 0 None CO_SDO_ST_DOWNLOAD_SEGMENT_RSP (c1 (t OR push_bit 1 (7 - word_of_nat k))))"
    by (simp only: ctx_DOWNLOAD_SEGMENT_REQ_def Let_def) (simp add: notlong short occ rd(1) copy [simplified] k_def [symmetric] n_def [symmetric] Let_def
        c1_0 put c1)
  have "ctx_DOWNLOAD_SEGMENT_REQ False 0 None (c\<lparr>C_CANtx_data := replicate 8 0\<rparr>) = C_tx_wait 0 None c2"
  proof (cases "length d \<le> 7")
    case True
    then show ?thesis by (simp only: seg C_transmit_def c2_def b_def lst_def or.assoc if_True simp_thms)
  next
    case False
    have "(c1 t)\<lparr>C_finished := C_finished c, C_timeoutTimer := 0\<rparr> = (c1 t)\<lparr>C_timeoutTimer := 0\<rparr>"
      by (rule client.equality) (simp_all add: c1_def)
    then show ?thesis using False k(4) by (simp add: seg C_transmit_def c2_def b_def)
  qed
  then have tx_eq: "ctx_download False 0 None c = C_tx_wait 0 None c2" using st by (simp add: ctx_download_def)
  have len8: "length (b # tx) = 8" using k by (simp add: tx_def k_def)
  have "cli_ready (c\<lparr>C_CANtx_data := b # tx, C_bufFifo := f\<rparr>)"
    by (rule cli_ready_fifo [OF cli_ready_tx [OF r len8] rd(2)])
  moreover have "unat n + length (drop 7 d) = len" using n len k by (cases "length d \<le> 7") simp_all
  ultimately have "c_downloading c2 len t (drop 7 d)"
    using len t rd(3) by (simp add: c_downloading_def c2_def C_send_def c1_def)
  moreover have "b # tx = segment_frame t d"
    using segment_byte [OF k(1,2), of t] k(4,5) unfolding b_def tx_def segment_frame_def last_segment_def lst_def
    by (cases "length d \<le> 7") (simp_all add: X_def)
  then have "C_sent c2 = C_sent c @ [segment_frame t d]" by (simp add: c2_def C_send_def c1_def)
  ultimately show thesis using that [OF tx_eq] by (simp add: c2_def C_send_def c1_def)
qed

lemma toggled_toggle: "t = 0 \<or> t = 0x10 \<Longrightarrow> toggled t = 0 \<or> toggled t = 0x10"
  by auto

lemma download_confirm_facts:
  assumes "t = 0 \<or> t = 0x10"
  shows "download_confirm t ! 0 \<noteq> 0x80" "download_confirm t ! 0 AND 0xEF = 0x20" "download_confirm t ! 0 AND 0x10 = t"
    "length (download_confirm t) = 8"
  using assms by (auto simp: download_confirm_def)

lemma c_downloading_answer:
  assumes "c_downloading c len t d" "\<not> C_CANrxNew c" "C_state c = CO_SDO_ST_DOWNLOAD_SEGMENT_RSP" "length f = 8"
  shows "c_downloading (CO_SDOclient_receive c f) len t d" "answered (CO_SDOclient_receive c f) f"
    "C_state (CO_SDOclient_receive c f) = CO_SDO_ST_DOWNLOAD_SEGMENT_RSP"
    "C_finished (CO_SDOclient_receive c f) = C_finished c"
proof -
  have r: "cli_ready c" using assms(1) by (simp add: c_downloading_def)
  have e: "CO_SDOclient_receive c f = c\<lparr>C_CANrxData := f, C_CANrxNew := True\<rparr>"
    by (rule receive_answer) (use assms r in simp_all)
  show "c_downloading (CO_SDOclient_receive c f) len t d" "answered (CO_SDOclient_receive c f) f"
    "C_state (CO_SDOclient_receive c f) = CO_SDO_ST_DOWNLOAD_SEGMENT_RSP"
    "C_finished (CO_SDOclient_receive c f) = C_finished c"
    using assms cli_ready_rx [OF r assms(4)] unfolding e by (simp_all add: c_downloading_def answered_def)
qed

text \<open>The call after the confirmation of a segment: the next segment is sent.\<close>

lemma download_call_next:
  assumes c: "c_downloading c len t d" "C_state c = CO_SDO_ST_DOWNLOAD_SEGMENT_RSP" "answered c (download_confirm t)"
    and d: "d \<noteq> []" "\<not> C_finished c"
  obtains c2 where "download_call dt c = Some (CO_SDO_RT_waitingResponse, 0, None, c2)"
    "c_downloading c2 len (toggled t) (drop 7 d)" "C_state c2 = CO_SDO_ST_DOWNLOAD_SEGMENT_RSP"
    "C_finished c2 \<longleftrightarrow> length d \<le> 7" "C_sent c2 = C_sent c @ [segment_frame (toggled t) d]" "\<not> C_CANrxNew c2"
proof -
  have t: "t = 0 \<or> t = 0x10" and tg: "C_toggle c = t" and r: "cli_ready c" using c(1) by (simp_all add: c_downloading_def)
  note f = download_confirm_facts [OF t]
  define c1 where "c1 = c\<lparr>C_toggle := toggled t, C_state := CO_SDO_ST_DOWNLOAD_SEGMENT_REQ\<rparr>"
  have rx: "crx_download_state c = Some (C_wait 0 c1)"
    using c(2,3) d(2) f tg
    by (simp add: crx_download_state_def crx_DOWNLOAD_SEGMENT_RSP_def answered_def Let_def C_next_def c1_def)
  define c0 where "c0 = c1\<lparr>C_timeoutTimer := 0, C_CANrxNew := False\<rparr>"
  have "c_downloading c0 len (toggled t) d"
    using c(1) by (simp add: c0_def c1_def c_downloading_def)
  moreover have "C_state c0 = CO_SDO_ST_DOWNLOAD_SEGMENT_REQ" by (simp add: c0_def c1_def)
  ultimately obtain c2 where c2: "ctx_download False 0 None c0 = C_tx_wait 0 None c2" "c_downloading c2 len (toggled t) (drop 7 d)"
    "C_state c2 = CO_SDO_ST_DOWNLOAD_SEGMENT_RSP" "C_finished c2 \<longleftrightarrow> length d \<le> 7 \<or> C_finished c0"
    "C_sent c2 = C_sent c0 @ [segment_frame (toggled t) d]" "C_CANrxNew c2 = C_CANrxNew c0"
    using ctx_segment [OF _ d(1)] by metis
  have "download_call dt c = Some (CO_SDO_RT_waitingResponse, 0, None, c2)"
  proof (rule download_call_rx [OF r c(3) f(1) _ _ rx])
    show "ctx_download False 0 None (c1\<lparr>C_timeoutTimer := 0, C_CANrxNew := False\<rparr>) = C_tx_wait 0 None c2"
      using c2(1) by (simp add: c0_def)
  qed (use c(2) c2 r in \<open>simp_all add: c1_def\<close>)
  with that [of c2] c2 d(2) show thesis by (simp add: c0_def c1_def)
qed

text \<open>The segment just sent goes to the server, its confirmation comes back.\<close>

lemma download_round:
  assumes c2: "download_call dt c = Some (CO_SDO_RT_waitingResponse, 0, None, c2)"
      "c_downloading c2 len t (drop 7 d)" "C_state c2 = CO_SDO_ST_DOWNLOAD_SEGMENT_RSP"
      "C_finished c2 \<longleftrightarrow> length d \<le> 7" "C_sent c2 = C_sent c @ [segment_frame t d]" "\<not> C_CANrxNew c2"
    and sv: "downloading s m a n fl pd t d" "sdo_ready s"
  obtains c3 s2 fl2 pd2 where
    "\<And>k. client_session (download_call dt) (Suc k) c s = client_session (download_call dt) k c3 s2"
    "c_downloading c3 len t (drop 7 d)" "C_state c3 = CO_SDO_ST_DOWNLOAD_SEGMENT_RSP" "answered c3 (download_confirm t)"
    "C_finished c3 \<longleftrightarrow> drop 7 d = []" "fl2 @ pd2 @ drop 7 d = fl @ pd @ d"
    "if drop 7 d = [] then state s2 = CO_SDO_ST_IDLE \<and> od_mem s2 = mem_write m a (fl2 @ pd2)
     else downloading s2 m a n fl2 pd2 (toggled t) (drop 7 d) \<and> sdo_ready s2"
proof -
  obtain s2 ret fl2 pd2 where s2: "sdo_exchange s (segment_frame t d) = Some (ret, s2)"
    "sent s2 = sent s @ [download_confirm t]" "fl2 @ pd2 = fl @ pd @ take 7 d" "sdo_ready s2"
    "length d \<le> 7 \<Longrightarrow> state s2 = CO_SDO_ST_IDLE \<and> od_mem s2 = mem_write m a (fl @ pd @ d)"
    "7 < length d \<Longrightarrow> downloading s2 m a n fl2 pd2 (toggled t) (drop 7 d)"
    using download_segment_step [OF sv] by metis
  define c3 where "c3 = CO_SDOclient_receive c2 (download_confirm t)"
  have l8: "length (download_confirm t) = 8" by (simp add: download_confirm_def)
  note c3 = c_downloading_answer [OF c2(2,6,3) l8, folded c3_def]
  have e: "client_session (download_call dt) (Suc k) c s = client_session (download_call dt) k c3 s2" for k
    unfolding c3_def by (rule session_round [where call = "download_call dt", OF c2(1,5) s2(1,2)])
  have f: "fl2 @ pd2 @ drop 7 d = fl @ pd @ d" using s2(3) by (metis append.assoc append_take_drop_id)
  show thesis
    by (rule that [OF e c3(1,3,2) _ f]) (use c3(4) c2(4) s2 in \<open>cases "length d \<le> 7"; simp\<close>)+
qed

lemma segments_count: "d \<noteq> [] \<Longrightarrow> (length d + 6) div 7 = Suc ((length (drop 7 d) + 6) div 7)"
proof (cases "length d \<le> 7")
  case True
  assume "d \<noteq> []"
  then have "1 \<le> length d" by (cases d) auto
  with True have "(length d + 6) div 7 = Suc 0" by (intro div_nat_eqI) simp_all
  with True show ?thesis by simp
qed (use div7_Suc [of "length d"] in simp)

lemma download_rounds:
  "c_downloading c len t d \<Longrightarrow> C_state c = CO_SDO_ST_DOWNLOAD_SEGMENT_RSP \<Longrightarrow> answered c (download_confirm t) \<Longrightarrow>
   (C_finished c \<longleftrightarrow> d = []) \<Longrightarrow>
   (if d = [] then state s = CO_SDO_ST_IDLE \<and> od_mem s = mem_write m a (fl @ pd)
    else downloading s m a n fl pd (toggled t) d \<and> sdo_ready s) \<Longrightarrow>
   \<exists>c' s'. client_session (download_call dt) (Suc ((length d + 6) div 7)) c s = Some (CO_SDO_RT_ok_communicationEnd, 0, c', s') \<and>
     C_state c' = CO_SDO_ST_IDLE \<and> unat (C_sizeTran c') = len \<and> state s' = CO_SDO_ST_IDLE \<and>
     od_mem s' = mem_write m a (fl @ pd @ d)"
proof (induction "length d" arbitrary: c s t d fl pd rule: less_induct)
  case less
  note c = less.prems(1-4)
  have t: "t = 0 \<or> t = 0x10" and tg: "C_toggle c = t" and r: "cli_ready c" using c(1) by (simp_all add: c_downloading_def)
  note f = download_confirm_facts [OF t]
  show ?case
  proof (cases "d = []")
    case True
    have "crx_download_state c = Some (C_end (c\<lparr>C_toggle := toggled t\<rparr>))"
      using c f tg True by (simp add: crx_download_state_def crx_DOWNLOAD_SEGMENT_RSP_def answered_def Let_def)
    from call_end(1) [OF r c(3) f(1) _ _ this] c(2)
    have "download_call dt c = Some (CO_SDO_RT_ok_communicationEnd, 0, None,
        c\<lparr>C_toggle := toggled t, C_state := CO_SDO_ST_IDLE, C_timeoutTimer := 0, C_CANrxNew := False\<rparr>)" by simp
    note e = session_end [where call = "download_call dt", OF this]
    show ?thesis using True c(1) less.prems(5) by (simp add: e c_downloading_def del: client_session.simps)
  next
    case False
    then have sv: "downloading s m a n fl pd (toggled t) d" "sdo_ready s" using less.prems(5) by simp_all
    obtain c2 where c2: "download_call dt c = Some (CO_SDO_RT_waitingResponse, 0, None, c2)"
      "c_downloading c2 len (toggled t) (drop 7 d)" "C_state c2 = CO_SDO_ST_DOWNLOAD_SEGMENT_RSP"
      "C_finished c2 \<longleftrightarrow> length d \<le> 7" "C_sent c2 = C_sent c @ [segment_frame (toggled t) d]" "\<not> C_CANrxNew c2"
      using download_call_next [OF c(1-3) False] c(4) False by metis
    obtain c3 s2 fl2 pd2 where r: "\<And>k. client_session (download_call dt) (Suc k) c s = client_session (download_call dt) k c3 s2"
      and c3: "c_downloading c3 len (toggled t) (drop 7 d)" "C_state c3 = CO_SDO_ST_DOWNLOAD_SEGMENT_RSP"
        "answered c3 (download_confirm (toggled t))" "C_finished c3 \<longleftrightarrow> drop 7 d = []" "fl2 @ pd2 @ drop 7 d = fl @ pd @ d"
        "if drop 7 d = [] then state s2 = CO_SDO_ST_IDLE \<and> od_mem s2 = mem_write m a (fl2 @ pd2)
         else downloading s2 m a n fl2 pd2 (toggled (toggled t)) (drop 7 d) \<and> sdo_ready s2"
      using download_round [OF c2 sv] by metis
    have "length (drop 7 d) < length d" using False by simp
    from less.hyps [OF this c3(1-4,6)] show ?thesis
      unfolding r c3(5) segments_count [OF False] .
  qed
qed

section \<open>Downloads\<close>

lemma C_tx_header_blank:
  "C_CANtx_data c = replicate 8 0 \<Longrightarrow>
   C_tx_header cmd c = c\<lparr>C_CANtx_data := request cmd (C_index c) (C_subIndex c) (replicate 4 0)\<rparr>"
  by (simp add: C_tx_header_def C_tx_put_def request_def numeral_eq_Suc)

lemma C_tx_put_request:
  "C_CANtx_data c = request cmd i sub d \<Longrightarrow> C_tx_put [(0, x)] c = c\<lparr>C_CANtx_data := request x i sub d\<rparr>"
  by (simp add: C_tx_put_def request_def)

text \<open>An application's download: the client is told the size and gets the data.\<close>

definition c_starting :: "client \<Rightarrow> u16 \<Rightarrow> u8 \<Rightarrow> bool" where
  "c_starting c i sub \<longleftrightarrow> cli_ready c \<and> C_index c = i \<and> C_subIndex c = sub \<and> \<not> C_CANrxNew c \<and>
     \<not> C_finished c \<and> C_sizeTran c = 0"

definition download_started :: "client \<Rightarrow> u16 \<Rightarrow> u8 \<Rightarrow> u8 list \<Rightarrow> bool" where
  "download_started c i sub d \<longleftrightarrow> c_starting c i sub \<and> C_state c = CO_SDO_ST_DOWNLOAD_INITIATE_REQ \<and>
     contents (C_bufFifo c) = d \<and> C_sizeInd c = word_of_nat (length d) \<and> d \<noteq> [] \<and> length d \<le> 1000"

text \<open>An idle, configured client with a remote server; its transmit buffer is free.\<close>

definition cli_idle :: "client \<Rightarrow> bool" where
  "cli_idle c \<longleftrightarrow> client_base c \<and> C_valid c \<and> \<not> C_CANtx_bufferFull c \<and> \<not> C_is_local c"

lemma timeout_us: "unat (ucast (t :: u16) * 1000 :: u32) = unat t * 1000"
  using unat_u16_less [of t] by (subst unat_mult_small) (simp_all add: unat_ucast_16_32)

lemma download_starts:
  fixes i :: u16 and sub :: u8
  assumes c: "cli_idle c" and d: "d \<noteq> []" "length d \<le> 1000" and t: "timeout \<noteq> 0"
  defines "c1 \<equiv> snd (CO_SDOclientDownloadInitiate c i sub (word_of_nat (length d)) timeout False)"
  shows "download_started (snd (CO_SDOclientDownloadBufWrite c1 d)) i sub d"
    and "C_SDOtimeoutTime_us (snd (CO_SDOclientDownloadBufWrite c1 d)) = ucast timeout * 1000"
    and "C_timeoutTimer (snd (CO_SDOclientDownloadBufWrite c1 d)) = 0"
proof -
  have b: "client_base c" using c by (simp add: cli_idle_def)
  have rs: "cbuf (CO_fifo_reset (C_bufFifo c))" "contents (CO_fifo_reset (C_bufFifo c)) = []"
    using cbuf_reset [OF client_base_cbuf [OF b]] by auto
  obtain f where f: "CO_fifo_write (CO_fifo_reset (C_bufFifo c)) d None = (length d, f, None)" "cbuf f" "contents f = d"
    using cbuf_write [OF rs(1), of d None] rs(2) d by (auto simp: min_def)
  define x where "x = (ucast timeout * 1000 :: u32)"
  have c1: "c1 = c\<lparr>C_index := i, C_subIndex := sub, C_sizeInd := word_of_nat (length d), C_sizeTran := 0,
      C_finished := False, C_SDOtimeoutTime_us := x, C_timeoutTimer := 0,
      C_bufFifo := CO_fifo_reset (C_bufFifo c), C_state := CO_SDO_ST_DOWNLOAD_INITIATE_REQ, C_CANrxNew := False\<rparr>"
    using c by (auto simp: c1_def x_def CO_SDOclientDownloadInitiate_def cli_idle_def C_is_local_def Let_def)
  have w: "snd (CO_SDOclientDownloadBufWrite c1 d) = c1\<lparr>C_bufFifo := f\<rparr>"
    using f(1) by (simp add: CO_SDOclientDownloadBufWrite_def c1)
  have "0 < x"
  proof -
    have "unat timeout \<noteq> 0" using t by (simp add: unat_eq_0)
    then show ?thesis using timeout_us [of timeout] by (simp add: word_less_nat_alt x_def)
  qed
  then show "download_started (snd (CO_SDOclientDownloadBufWrite c1 d)) i sub d"
    "C_SDOtimeoutTime_us (snd (CO_SDOclientDownloadBufWrite c1 d)) = ucast timeout * 1000"
    "C_timeoutTimer (snd (CO_SDOclientDownloadBufWrite c1 d)) = 0"
    using b c f d unfolding w x_def [symmetric]
    by (simp_all add: download_started_def c_starting_def c1 cli_ready_def client_base_fifo cli_idle_def)
qed

text \<open>The first message: the data itself, or its size.\<close>

lemma ctx_initiate_segmented:
  assumes c: "download_started c i sub d" and d: "4 < length d"
  defines "f \<equiv> request 0x21 i sub (le_bytes 4 (word_of_nat (length d) :: u32))"
  shows "ctx_download False 0 None c = C_tx_wait 0 None
    (c\<lparr>C_CANtx_data := f, C_timeoutTimer := 0, C_sent := C_sent c @ [f], C_state := CO_SDO_ST_DOWNLOAD_INITIATE_RSP\<rparr>)"
proof -
  have ds: "C_state c = CO_SDO_ST_DOWNLOAD_INITIATE_REQ" "C_index c = i" "C_subIndex c = sub"
      "contents (C_bufFifo c) = d" "C_sizeInd c = word_of_nat (length d)" "length d \<le> 1000" "cbuf (C_bufFifo c)"
    using c by (simp_all add: download_started_def c_starting_def cli_ready_cbuf)
  have u: "unat (word_of_nat (length d) :: u64) = length d" using ds(6) by (simp add: unat_of_nat)
  have ind: "(0 < (word_of_nat (length d) :: u64)) = True" "((word_of_nat (length d) :: u64) \<le> 4) = False"
    "((word_of_nat (length d) :: u64) = 0) = False"
    using d u by (auto simp: word_less_nat_alt word_le_nat_alt)
  have occ: "CO_fifo_getOccupied (C_bufFifo c) = length d" using cbuf_occupied [OF ds(7)] ds(4) by simp
  define h where "h = (\<lambda>x. c\<lparr>C_CANtx_data := request x i sub (replicate 4 0)\<rparr>)"
  have hd: "C_tx_header 0x20 (c\<lparr>C_CANtx_data := replicate 8 0\<rparr>) = h 0x20"
    using C_tx_header_blank [of "c\<lparr>C_CANtx_data := replicate 8 0\<rparr>" "0x20"] ds(2,3) by (simp add: h_def)
  have put: "C_tx_put [(0, x)] (h y) = h x" for x y by (simp add: h_def C_tx_put_def request_def)
  have h: "C_CANtx_data (h x) ! 0 = x" "C_bufFifo (h x) = C_bufFifo c" "C_sizeInd (h x) = word_of_nat (length d)" for x
    using ds by (simp_all add: h_def request_def)
  have "ucast (word_of_nat (length d) :: u64) = (word_of_nat (length d) :: u32)"
    using ds(6) by (simp add: word_unat_eq_iff unsigned_ucast_eq unat_of_nat take_bit_eq_mod)
  then have "C_tx_size (h 0x21) = Some (c\<lparr>C_CANtx_data := f\<rparr>)"
    using ds(5) by (simp add: C_tx_size_def C_tx_copy_def h_def buf_write_def request_def f_def)
  then have "ctx_DOWNLOAD_INITIATE_REQ 0 None (c\<lparr>C_CANtx_data := replicate 8 0\<rparr>) =
    C_transmit 0 None CO_SDO_ST_DOWNLOAD_INITIATE_RSP (c\<lparr>C_CANtx_data := f\<rparr>)"
    by (simp only: ctx_DOWNLOAD_INITIATE_REQ_def Let_def hd) (simp add: h occ ind put)
  then show ?thesis using ds(1) by (simp add: ctx_download_def C_transmit_def C_send_def)
qed

lemma ctx_initiate_expedited:
  assumes c: "download_started c i sub d" and d: "length d \<le> 4"
  defines "f \<equiv> request (expedited_cmd (length d) 0x20) i sub (d @ replicate (4 - length d) 0)"
  obtains c2 where "ctx_download False 0 None c = C_tx_wait 0 None c2" "cli_ready c2" "C_finished c2"
    "C_state c2 = CO_SDO_ST_DOWNLOAD_INITIATE_RSP" "C_sent c2 = C_sent c @ [f]" "\<not> C_CANrxNew c2"
    "C_index c2 = i" "C_subIndex c2 = sub" "unat (C_sizeTran c2) = length d"
proof -
  have ds: "C_state c = CO_SDO_ST_DOWNLOAD_INITIATE_REQ" "C_index c = i" "C_subIndex c = sub"
      "contents (C_bufFifo c) = d" "C_sizeInd c = word_of_nat (length d)" "length d \<le> 1000" "cbuf (C_bufFifo c)"
      "1 \<le> length d" "cli_ready c" "\<not> C_CANrxNew c"
    using c by (simp_all add: download_started_def c_starting_def cli_ready_cbuf Suc_le_eq)
  define k where "k = length d"
  have k: "1 \<le> k" "k \<le> 4" using d ds(8) by (simp_all add: k_def)
  have u: "unat (word_of_nat k :: u64) = k" using k by (simp add: unat_of_nat)
  have ind: "(0 < (word_of_nat k :: u64)) = True" "((word_of_nat k :: u64) \<le> 4) = True" "(k = 0) = False"
    using k u by (auto simp: word_less_nat_alt word_le_nat_alt)
  have occ: "CO_fifo_getOccupied (C_bufFifo c) = k" using cbuf_occupied [OF ds(7)] ds(4) by (simp add: k_def)
  obtain f0 where rd: "CO_fifo_read (C_bufFifo c) k False = (d, False, f0)" "cbuf f0"
    using cbuf_read [OF ds(7), of k] ds(4) by (metis k_def take_all order_refl)
  define h where "h = (\<lambda>x. c\<lparr>C_CANtx_data := request x i sub (replicate 4 0)\<rparr>)"
  have hd: "C_tx_header 0x20 (c\<lparr>C_CANtx_data := replicate 8 0\<rparr>) = h 0x20"
    using C_tx_header_blank [of "c\<lparr>C_CANtx_data := replicate 8 0\<rparr>" "0x20"] ds(2,3) by (simp add: h_def)
  have put: "C_tx_put [(0, x)] (h y) = h x" for x y by (simp add: h_def C_tx_put_def request_def)
  have h: "C_CANtx_data (h x) ! 0 = x" "C_bufFifo (h x) = C_bufFifo c" "C_sizeInd (h x) = word_of_nat k" for x
    using ds by (simp_all add: h_def request_def k_def)
  have cmd: "0x22 OR (1 OR push_bit 2 (4 - word_of_nat k)) = expedited_cmd k 0x20"
    by (rule nat_1_4_cases [OF k]) (simp_all add: expedited_cmd_def)
  define c1 where "c1 = c\<lparr>C_CANtx_data := f, C_bufFifo := f0\<rparr>"
  have cp: "C_tx_copy 4 d ((h (expedited_cmd k 0x20))\<lparr>C_bufFifo := f0\<rparr>) = Some c1"
  proof -
    have "drop (4 + k) (request x i sub e) = drop k e" "take 4 (request x i sub e) @ e' = request x i sub e'" for x e e'
      by (simp_all add: request_def numeral_eq_Suc)
    then show ?thesis
      using k by (simp add: C_tx_copy_def h_def buf_write_def f_def k_def [symmetric] c1_def)
  qed
  have eq: "ctx_DOWNLOAD_INITIATE_REQ 0 None (c\<lparr>C_CANtx_data := replicate 8 0\<rparr>) =
    C_transmit 0 None CO_SDO_ST_DOWNLOAD_INITIATE_RSP (c1\<lparr>C_sizeTran := word_of_nat k, C_finished := True\<rparr>)"
    by (simp only: ctx_DOWNLOAD_INITIATE_REQ_def Let_def hd) (simp add: h occ ind put cmd [simplified] rd(1) cp)
  have "length f = 8" using d by (simp add: f_def)
  then have r1: "cli_ready c1" using cli_ready_fifo [OF cli_ready_tx [OF ds(9)] rd(2)] by (simp add: c1_def)
  define c2 where "c2 = (C_send ((c1\<lparr>C_sizeTran := word_of_nat k, C_finished := True\<rparr>)\<lparr>C_timeoutTimer := 0\<rparr>))
    \<lparr>C_state := CO_SDO_ST_DOWNLOAD_INITIATE_RSP\<rparr>"
  have "ctx_download False 0 None c = C_tx_wait 0 None c2"
    using ds(1) eq by (simp add: ctx_download_def C_transmit_def c2_def)
  then show thesis
    by (rule that) (use r1 ds u in \<open>simp_all add: c2_def C_send_def c1_def k_def\<close>)
qed

lemma download_started_timer [simp]:
  "download_started (c\<lparr>C_timeoutTimer := t\<rparr>) i sub d = download_started c i sub d"
  by (simp add: download_started_def c_starting_def)

lemma started_call:
  assumes c: "download_started c i sub d" and dt: "C_timeoutTimer c = 0" "dt < C_SDOtimeoutTime_us c"
    and tx: "ctx_download False 0 None (c\<lparr>C_timeoutTimer := dt\<rparr>) = C_tx_wait 0 None c2"
      "C_state c2 = CO_SDO_ST_DOWNLOAD_INITIATE_RSP"
  shows "download_call dt c = Some (CO_SDO_RT_waitingResponse, 0, None, c2)"
  by (rule call_first(1) [OF _ _ dt _ tx]) (use c in \<open>simp_all add: download_started_def c_starting_def\<close>)

text \<open>The confirmation of the first message.\<close>

abbreviation initiate_confirm :: "u16 \<Rightarrow> u8 \<Rightarrow> u8 list" where
  "initiate_confirm i sub \<equiv> request 0x60 i sub (replicate 4 0)"

lemma receive_confirm:
  assumes "cli_ready c" "\<not> C_CANrxNew c" "C_state c = CO_SDO_ST_DOWNLOAD_INITIATE_RSP"
    and "C_index c = i" "C_subIndex c = sub"
  defines "c' \<equiv> CO_SDOclient_receive c (initiate_confirm i sub)"
  shows "c' = c\<lparr>C_CANrxData := initiate_confirm i sub, C_CANrxNew := True\<rparr>" "cli_ready c'"
    "answered c' (initiate_confirm i sub)"
    "crx_download_state c' = Some (if C_finished c then C_end c'
       else C_next CO_SDO_ST_DOWNLOAD_SEGMENT_REQ (c'\<lparr>C_toggle := 0\<rparr>))"
proof -
  show e: "c' = c\<lparr>C_CANrxData := initiate_confirm i sub, C_CANrxNew := True\<rparr>"
    unfolding c'_def by (rule receive_answer) (use assms in simp_all)
  show "cli_ready c'" "answered c' (initiate_confirm i sub)"
    using cli_ready_rx [OF assms(1), of "initiate_confirm i sub"] by (simp_all add: e answered_def)
  have "C_same_object c'" using assms(4,5) by (simp add: e C_same_object_def request_def index_of_request)
  then show "crx_download_state c' = Some (if C_finished c then C_end c'
       else C_next CO_SDO_ST_DOWNLOAD_SEGMENT_REQ (c'\<lparr>C_toggle := 0\<rparr>))"
    using assms(3) by (simp add: crx_download_state_def crx_DOWNLOAD_INITIATE_RSP_def e)
qed

lemma download_expedited_session:
  assumes c: "download_started c i sub d" "length d \<le> 4" "C_timeoutTimer c = 0" "dt < C_SDOtimeoutTime_us c"
    and s: "sdo_ready s" "state s = CO_SDO_ST_IDLE"
    and v: "od_plain_var (SDO_OD s) i sub a n att" "att AND ODA_SDO_W \<noteq> 0" "att AND ODA_STR = 0" "length d = unat n"
  shows "\<exists>c' s'. client_session (download_call dt) 2 c s = Some (CO_SDO_RT_ok_communicationEnd, 0, c', s') \<and>
    od_mem s' = mem_write (od_mem s) a d \<and> state s' = CO_SDO_ST_IDLE \<and> C_state c' = CO_SDO_ST_IDLE \<and>
    unat (C_sizeTran c') = length d"
proof -
  let ?f = "request (expedited_cmd (length d) 0x20) i sub (d @ replicate (4 - length d) 0)"
  have d: "1 \<le> length d" using c(1) by (simp add: download_started_def Suc_le_eq)
  obtain c2 where tx: "ctx_download False 0 None (c\<lparr>C_timeoutTimer := dt\<rparr>) = C_tx_wait 0 None c2"
    and c2: "cli_ready c2" "C_finished c2" "C_state c2 = CO_SDO_ST_DOWNLOAD_INITIATE_RSP"
    "C_sent c2 = C_sent c @ [?f]" "\<not> C_CANrxNew c2" "C_index c2 = i" "C_subIndex c2 = sub" "unat (C_sizeTran c2) = length d"
    by (rule ctx_initiate_expedited [of "c\<lparr>C_timeoutTimer := dt\<rparr>" i sub d]) (use c in simp_all)
  note call1 = started_call [OF c(1,3,4) tx c2(3)]
  obtain s2 where s2: "sdo_exchange s ?f = Some (CO_SDO_RT_ok_communicationEnd, s2)" "od_mem s2 = mem_write (od_mem s) a d"
      "sent s2 = sent s @ [initiate_confirm i sub]" "state s2 = CO_SDO_ST_IDLE"
    using sdo_expedited_download [OF s v(1-3) d c(2)] v(4) by auto
  define c3 where "c3 = CO_SDOclient_receive c2 (initiate_confirm i sub)"
  note c3 = receive_confirm [OF c2(1,5,3,6,7), folded c3_def]
  have st3: "C_state c3 = CO_SDO_ST_DOWNLOAD_INITIATE_RSP" "C_sizeTran c3 = C_sizeTran c2" using c2(3) by (simp_all add: c3(1))
  have call2: "download_call dt c3 = Some (CO_SDO_RT_ok_communicationEnd, 0, None,
      c3\<lparr>C_state := CO_SDO_ST_IDLE, C_timeoutTimer := 0, C_CANrxNew := False\<rparr>)"
    by (rule call_end(1) [OF c3(2,3)]) (use c3(4) c2(2) st3 in \<open>simp_all add: request_def\<close>)
  have two: "2 = Suc (Suc 0)" by simp
  have "client_session (download_call dt) 2 c s = Some (CO_SDO_RT_ok_communicationEnd, 0,
      c3\<lparr>C_state := CO_SDO_ST_IDLE, C_timeoutTimer := 0, C_CANrxNew := False\<rparr>, s2)"
    unfolding two session_round [where call = "download_call dt", OF call1 c2(4) s2(1,3)] c3_def [symmetric]
    by (rule session_end [where call = "download_call dt", OF call2])
  then show ?thesis using s2 c2(8) st3 by simp
qed

lemma download_segmented_session:
  assumes c: "download_started c i sub d" "4 < length d" "C_timeoutTimer c = 0" "dt < C_SDOtimeoutTime_us c"
    and s: "sdo_base s" "sdo_ready s" "state s = CO_SDO_ST_IDLE"
    and v: "od_plain_var (SDO_OD s) i sub a n att" "att AND ODA_SDO_W \<noteq> 0" "att AND ODA_STR = 0" "length d = unat n"
  shows "\<exists>c' s'. client_session (download_call dt) ((length d + 6) div 7 + 2) c s =
      Some (CO_SDO_RT_ok_communicationEnd, 0, c', s') \<and>
    od_mem s' = mem_write (od_mem s) a d \<and> state s' = CO_SDO_ST_IDLE \<and> C_state c' = CO_SDO_ST_IDLE \<and>
    unat (C_sizeTran c') = length d"
proof -
  have n: "word_of_nat (length d) = n" using v(4) by simp
  let ?f = "request 0x21 i sub (le_bytes 4 n)"
  have ds: "cli_ready c" "\<not> C_finished c" "\<not> C_CANrxNew c" "C_index c = i" "C_subIndex c = sub" "C_sizeTran c = 0"
      "contents (C_bufFifo c) = d" "C_sizeInd c = word_of_nat (length d)" "length d \<le> 1000" "d \<noteq> []"
    using c(1) by (simp_all add: download_started_def c_starting_def)
  define c2 where "c2 = c\<lparr>C_CANtx_data := ?f, C_timeoutTimer := 0, C_sent := C_sent c @ [?f],
    C_state := CO_SDO_ST_DOWNLOAD_INITIATE_RSP\<rparr>"
  have tx: "ctx_download False 0 None (c\<lparr>C_timeoutTimer := dt\<rparr>) = C_tx_wait 0 None c2"
    using ctx_initiate_segmented [of "c\<lparr>C_timeoutTimer := dt\<rparr>" i sub d] c(1,2) by (simp add: c2_def n)
  have c2: "cli_ready c2" "C_state c2 = CO_SDO_ST_DOWNLOAD_INITIATE_RSP" "\<not> C_CANrxNew c2" "C_index c2 = i"
      "C_subIndex c2 = sub" "C_sent c2 = C_sent c @ [?f]" "\<not> C_finished c2"
    using cli_ready_tx [OF ds(1), of ?f] ds by (simp_all add: c2_def)
  note call1 = started_call [OF c(1,3,4) tx c2(2)]
  obtain s2 where s2: "sdo_exchange s ?f = Some (CO_SDO_RT_waitingResponse, s2)"
    "downloading s2 (od_mem s) a n [] [] 0 d" "sdo_ready s2" "sent s2 = sent s @ [initiate_confirm i sub]"
    using segmented_download_start [OF s v(1-3) _ ds(10)] v(4) by metis
  define c3 where "c3 = CO_SDOclient_receive c2 (initiate_confirm i sub)"
  note c3 = receive_confirm [OF c2(1,3,2,4,5), folded c3_def]
  have c3': "C_state c3 = CO_SDO_ST_DOWNLOAD_INITIATE_RSP" "contents (C_bufFifo c3) = d" "C_sizeTran c3 = 0"
      "C_sizeInd c3 = word_of_nat (length d)" "\<not> C_finished c3"
    using ds by (simp_all add: c3(1) c2_def)
  define c4 where "c4 = c3\<lparr>C_toggle := 0, C_state := CO_SDO_ST_DOWNLOAD_SEGMENT_REQ\<rparr>"
  have rx: "crx_download_state c3 = Some (C_wait 0 c4)" using c3(4) c2(7) by (simp add: C_next_def c4_def)
  define c0 where "c0 = c4\<lparr>C_timeoutTimer := 0, C_CANrxNew := False\<rparr>"
  have c0: "c_downloading c0 (length d) 0 d" "C_state c0 = CO_SDO_ST_DOWNLOAD_SEGMENT_REQ" "\<not> C_finished c0" "\<not> C_CANrxNew c0"
      "C_sent c0 = C_sent c3"
    using c3(2) c3' ds(9) by (simp_all add: c0_def c4_def c_downloading_def unat_of_nat)
  obtain c5 where c5: "ctx_download False 0 None c0 = C_tx_wait 0 None c5" "c_downloading c5 (length d) 0 (drop 7 d)"
    "C_state c5 = CO_SDO_ST_DOWNLOAD_SEGMENT_RSP" "C_finished c5 \<longleftrightarrow> length d \<le> 7 \<or> C_finished c0"
    "C_sent c5 = C_sent c0 @ [segment_frame 0 d]" "C_CANrxNew c5 = C_CANrxNew c0"
    using ctx_segment [OF c0(1) ds(10) c0(2)] by metis
  have call2: "download_call dt c3 = Some (CO_SDO_RT_waitingResponse, 0, None, c5)"
  proof (rule download_call_rx [OF c3(2,3) _ _ _ rx])
    show "ctx_download False 0 None (c4\<lparr>C_timeoutTimer := 0, C_CANrxNew := False\<rparr>) = C_tx_wait 0 None c5"
      using c5(1) by (simp add: c0_def)
  qed (use c3' c3(2) c5(3) in \<open>simp_all add: c4_def request_def\<close>)
  obtain c6 s6 fl pd where r: "\<And>k. client_session (download_call dt) (Suc k) c3 s2 = client_session (download_call dt) k c6 s6"
    and c6: "c_downloading c6 (length d) 0 (drop 7 d)" "C_state c6 = CO_SDO_ST_DOWNLOAD_SEGMENT_RSP"
      "answered c6 (download_confirm 0)" "C_finished c6 \<longleftrightarrow> drop 7 d = []" "fl @ pd @ drop 7 d = [] @ [] @ d"
      "if drop 7 d = [] then state s6 = CO_SDO_ST_IDLE \<and> od_mem s6 = mem_write (od_mem s) a (fl @ pd)
       else downloading s6 (od_mem s) a n fl pd (toggled 0) (drop 7 d) \<and> sdo_ready s6"
    by (rule download_round [OF call2 c5(2,3) _ _ _ s2(2,3)]) (use c5 c0 in auto)
  have e: "(length d + 6) div 7 + 2 = Suc (Suc (Suc ((length (drop 7 d) + 6) div 7)))"
    using segments_count [OF ds(10)] by simp
  show ?thesis
    unfolding e session_round [where call = "download_call dt", OF call1 c2(6) s2(1,4)] c3_def [symmetric] r
    using download_rounds [OF c6(1-4,6), of dt] unfolding c6(5) by auto
qed

text \<open>
  C3: A download from end to end. An application that starts a download of one to a thousand bytes
  to a writable variable of that size of an idle server, puts the data into the client's buffer and
  calls the client until the transfer ends gets the success code after the number of calls that the
  segments take; the server's variable then holds exactly the data and nothing else in its memory
  changed, the client reports the size, and both are idle. Up to four bytes are transferred
  expedited, more in segments.
\<close>

theorem client_download:
  fixes i :: u16 and sub :: u8
  assumes c: "cli_idle c" and t: "timeout \<noteq> 0" "dt < ucast timeout * 1000"
    and s: "sdo_base s" "sdo_ready s" "state s = CO_SDO_ST_IDLE"
    and v: "od_plain_var (SDO_OD s) i sub a n att" "att AND ODA_SDO_W \<noteq> 0" "att AND ODA_STR = 0"
    and d: "length d = unat n" "d \<noteq> []" "length d \<le> 1000"
  defines "c1 \<equiv> snd (CO_SDOclientDownloadInitiate c i sub (word_of_nat (length d)) timeout False)"
  defines "calls \<equiv> (if length d \<le> 4 then 2 else (length d + 6) div 7 + 2)"
  shows "\<exists>c' s'. client_session (download_call dt) calls (snd (CO_SDOclientDownloadBufWrite c1 d)) s =
      Some (CO_SDO_RT_ok_communicationEnd, CO_SDO_AB_NONE, c', s') \<and>
    od_mem s' = mem_write (od_mem s) a d \<and> state s' = CO_SDO_ST_IDLE \<and> C_state c' = CO_SDO_ST_IDLE \<and>
    unat (C_sizeTran c') = length d"
proof -
  define c2 where "c2 = snd (CO_SDOclientDownloadBufWrite c1 d)"
  note st = download_starts [OF c d(2,3) t(1), of i sub, folded c1_def c2_def]
  show ?thesis
  proof (cases "length d \<le> 4")
    case True
    have "\<exists>c' s'. client_session (download_call dt) 2 c2 s = Some (CO_SDO_RT_ok_communicationEnd, 0, c', s') \<and>
        od_mem s' = mem_write (od_mem s) a d \<and> state s' = CO_SDO_ST_IDLE \<and> C_state c' = CO_SDO_ST_IDLE \<and>
        unat (C_sizeTran c') = length d"
      using download_expedited_session [OF st(1) True st(3) _ s(2,3) v d(1)] st(2) t(2) by simp
    then show ?thesis using True unfolding calls_def c2_def by simp
  next
    case False
    have "\<exists>c' s'. client_session (download_call dt) ((length d + 6) div 7 + 2) c2 s =
        Some (CO_SDO_RT_ok_communicationEnd, 0, c', s') \<and>
        od_mem s' = mem_write (od_mem s) a d \<and> state s' = CO_SDO_ST_IDLE \<and> C_state c' = CO_SDO_ST_IDLE \<and>
        unat (C_sizeTran c') = length d"
      using download_segmented_session [OF st(1) _ st(3) _ s v d(1)] False st(2) t(2) by simp
    then show ?thesis using False unfolding calls_def c2_def by simp
  qed
qed

section \<open>A concrete client and a concrete server\<close>

lemma example_client_init_fields:
  "C_valid (snd (snd (example_client_init storage)))" "\<not> C_CANtx_bufferFull (snd (snd (example_client_init storage)))"
  "C_OD (snd (snd (example_client_init storage))) = None"
  using example_client_init_ok [of storage]
  by (cases "example_client_init storage"; simp add: Option.is_none_def split: option.splits)+

lemma example_client_idle: "cli_idle example_client"
  using inv_base [OF client_reach_inv [OF _ example_client_reach]]
  unfolding example_client_def by (simp add: example_client_init_fields cli_idle_def C_is_local_def)

theorem client_download_witness:
  "\<exists>c' s'. client_session (download_call 500) 5
      (snd (CO_SDOclientDownloadBufWrite (snd (CO_SDOclientDownloadInitiate example_client 0x2001 0 20 1000 False))
        (replicate 20 7))) example_server = Some (CO_SDO_RT_ok_communicationEnd, CO_SDO_AB_NONE, c', s') \<and>
    mem_read (od_mem s') 200 20 = replicate 20 7 \<and> C_state c' = CO_SDO_ST_IDLE"
proof -
  have n: "word_of_nat (length (replicate 20 (7 :: u8))) = (20 :: u64)"
    "(if length (replicate 20 (7 :: u8)) \<le> 4 then 2 else (length (replicate 20 (7 :: u8)) + 6) div 7 + 2) = 5" by simp_all
  have "mem_read (mem_write m a (replicate 20 7)) a 20 = replicate 20 7" for m a
    by (rule mem_read_write_eq) simp
  with client_download [OF example_client_idle _ _ example_server_base example_server_fields(2,1) example_vars(2),
      of 1000 500 "replicate 20 7"]
  show ?thesis unfolding n by auto
qed

end
