(* ===== verification/SDO_Upload.thy ===== *)
theory SDO_Upload
  imports SDO_Session
begin

text \<open>
  The upload direction of the loop between the SDO client and the SDO server: the value of a
  server's variable arrives in the client's buffer.
\<close>

section \<open>Segmented upload\<close>

text \<open>A client in the middle of a segmented upload of \<open>len\<close> bytes that has got \<open>g\<close> so far.\<close>

definition c_uploading :: "client \<Rightarrow> nat \<Rightarrow> u8 \<Rightarrow> u8 list \<Rightarrow> bool" where
  "c_uploading c len t g \<longleftrightarrow> cli_ready c \<and> C_toggle c = t \<and> (t = 0 \<or> t = 0x10) \<and> contents (C_bufFifo c) = g \<and>
     len \<le> 994 \<and> unat (C_sizeInd c) = len \<and> unat (C_sizeTran c) = length g \<and> length g \<le> len"

lemma c_uploading_upd [simp]:
  "c_uploading (c\<lparr>C_state := st\<rparr>) len t g = c_uploading c len t g"
  "c_uploading (c\<lparr>C_timeoutTimer := x\<rparr>) len t g = c_uploading c len t g"
  "c_uploading (c\<lparr>C_CANrxNew := b\<rparr>) len t g = c_uploading c len t g"
  "c_uploading (c\<lparr>C_sent := fs\<rparr>) len t g = c_uploading c len t g"
  by (simp_all add: c_uploading_def)

lemma ctx_upload_segment:
  assumes c: "c_uploading c len t g" "length g < len" and st: "C_state c = CO_SDO_ST_UPLOAD_SEGMENT_REQ"
  obtains c2 where "ctx_upload 0 None c = C_tx_wait 0 None c2" "c_uploading c2 len t g"
    "C_state c2 = CO_SDO_ST_UPLOAD_SEGMENT_RSP" "C_sent c2 = C_sent c @ [upload_request t]" "C_CANrxNew c2 = C_CANrxNew c"
proof -
  have r: "cli_ready c" and t: "C_toggle c = t" and g: "contents (C_bufFifo c) = g" "len \<le> 994"
    using c(1) by (simp_all add: c_uploading_def)
  have sp: "(CO_fifo_getSpace (C_bufFifo c) < 7) = False" using cbuf_space [OF cli_ready_cbuf [OF r]] g c(2) by simp
  have up: "(replicate 8 0)[0 := 0x60 OR t] = upload_request t" by (simp add: upload_request_def numeral_eq_Suc)
  define c2 where "c2 = (C_send ((c\<lparr>C_CANtx_data := upload_request t\<rparr>)\<lparr>C_timeoutTimer := 0\<rparr>))
    \<lparr>C_state := CO_SDO_ST_UPLOAD_SEGMENT_RSP\<rparr>"
  have "ctx_upload 0 None c = C_tx_wait 0 None c2"
    using st sp t up by (simp add: ctx_upload_def ctx_UPLOAD_SEGMENT_REQ_def C_transmit_def C_tx_put_def c2_def)
  moreover have "cli_ready (c\<lparr>C_CANtx_data := upload_request t\<rparr>)"
    by (rule cli_ready_tx [OF r]) (simp add: upload_request_def)
  then have "c_uploading c2 len t g" using c(1) by (simp add: c_uploading_def c2_def C_send_def)
  ultimately show thesis using that by (simp add: c2_def C_send_def)
qed

text \<open>The number of data bytes that a segment carries, as the client computes it.\<close>

lemma segment_count:
  assumes "unat (7 - (drop_bit 1 (ucast cmd) AND 0x07) :: u32) = k"
  shows "7 - unat (drop_bit 1 (cmd :: u8) AND 0x07) = k"
proof -
  have e: "unat (drop_bit 1 (ucast cmd) AND 0x07 :: u32) = unat (drop_bit 1 cmd AND 0x07)"
  proof -
    have "drop_bit 1 (ucast cmd) AND 0x07 = (ucast (drop_bit 1 cmd AND 0x07) :: u32)"
      by (rule bit_word_eqI) (auto simp: bit_and_iff bit_drop_bit_eq bit_ucast_iff dest: bit_imp_le_length)
    then show ?thesis by (simp add: unat_ucast_8_32)
  qed
  have "unat (drop_bit 1 (ucast cmd) AND 0x07 :: u32) \<le> 7" by (rule word_mask_7_le) simp
  then have "unat (7 - (drop_bit 1 (ucast cmd) AND 0x07) :: u32) = 7 - unat (drop_bit 1 (ucast cmd) AND 0x07 :: u32)"
    by (subst unat_minus_ge) simp_all
  with e assms show ?thesis by simp
qed

text \<open>A segment arrives: its data goes to the buffer.\<close>

lemma crx_segment_eq:
  assumes "C_CANrxData c ! 0 = cmd" "cmd AND 0xE0 = 0" "cmd AND 0x10 = C_toggle c" "7 - unat (drop_bit 1 cmd AND 0x07) = k"
    and "take k (drop 1 (C_CANrxData c)) = Y" "CO_fifo_write (C_bufFifo c) Y None = (k, fi, None)"
    and "C_sizeTran c + word_of_nat k = n" "(C_sizeInd c < n) = False" "toggled (C_toggle c) = tn"
  shows "crx_UPLOAD_SEGMENT_RSP c =
    (if cmd AND 0x01 \<noteq> 0
     then if 0 < C_sizeInd c \<and> n < C_sizeInd c
          then C_fail CO_SDO_AB_DATA_SHORT (c\<lparr>C_toggle := tn, C_bufFifo := fi, C_sizeTran := n\<rparr>)
          else C_end (c\<lparr>C_toggle := tn, C_bufFifo := fi, C_sizeTran := n\<rparr>)
     else C_next CO_SDO_ST_UPLOAD_SEGMENT_REQ (c\<lparr>C_toggle := tn, C_bufFifo := fi, C_sizeTran := n\<rparr>))"
  using assms(8)
  by (simp only: crx_UPLOAD_SEGMENT_RSP_def Let_def assms(1-4) assms(9)) (auto simp: assms(5) [simplified] assms(6,7))

lemma crx_upload_segment:
  assumes c: "c_uploading c len t g" "C_state c = CO_SDO_ST_UPLOAD_SEGMENT_RSP" "answered c (segment_frame t d)"
    and d: "d \<noteq> []" "length g + length d = len"
  obtains c1 where "crx_upload_state c = Some (if length d \<le> 7 then C_end c1 else C_next CO_SDO_ST_UPLOAD_SEGMENT_REQ c1)"
    "c_uploading c1 len (toggled t) (g @ take 7 d)" "C_sent c1 = C_sent c"
proof -
  have r: "cli_ready c" and tg: "C_toggle c = t" and t: "t = 0 \<or> t = 0x10" and g: "contents (C_bufFifo c) = g" "len \<le> 994"
      "unat (C_sizeInd c) = len" "unat (C_sizeTran c) = length g"
    using c(1) by (simp_all add: c_uploading_def)
  note f = segment_frame_facts [OF d(1) t]
  define frame where "frame = segment_frame t d"
  define cmd where "cmd = frame ! 0"
  have fr: "C_CANrxData c = frame" using c(3) by (simp add: answered_def frame_def)
  have cmd: "cmd AND 0xE0 = 0" "cmd AND 0x01 \<noteq> 0 \<longleftrightarrow> length d \<le> 7" "cmd AND 0x10 = t"
    using f by (simp_all add: cmd_def frame_def)
  define k where "k = min 7 (length d)"
  have k: "7 - unat (drop_bit 1 cmd AND 0x07) = k"
    using segment_count [OF f(6)] by (simp add: cmd_def frame_def k_def)
  define Y where "Y = take 7 d"
  have X: "take k (drop 1 frame) = Y"
    using f(7) unfolding frame_def k_def f(6) Y_def by simp
  have Yk: "length Y = k" by (simp add: Y_def k_def)
  have room: "length Y \<le> 1000 - length (contents (C_bufFifo c))" using g d by (simp add: Y_def)
  obtain fi where wr: "CO_fifo_write (C_bufFifo c) Y None = (k, fi, None)" "cbuf fi" "contents fi = g @ Y"
    using cbuf_write [OF cli_ready_cbuf [OF r], of Y None] room g(1) Yk by (auto simp: min_def)
  define n where "n = C_sizeTran c + word_of_nat k"
  have kw: "unat (word_of_nat k :: u64) = k" by (simp add: k_def unat_of_nat)
  have kl: "k \<le> length d" by (simp add: k_def)
  have n: "unat n = length g + k"
    unfolding n_def using kw g d kl by (subst unat_plus_small) simp_all
  have nl: "(C_sizeInd c < n) = False" using n g d kl by (simp add: word_less_nat_alt)
  have ns: "length d \<le> 7 \<Longrightarrow> (n < C_sizeInd c) = False" using n g d by (simp add: word_less_nat_alt k_def)
  define tn where "tn = toggled t"
  define c1 where "c1 = c\<lparr>C_toggle := tn, C_bufFifo := fi, C_sizeTran := n\<rparr>"
  note eq = crx_segment_eq [of c cmd k Y fi n tn]
  have "crx_UPLOAD_SEGMENT_RSP c = (if length d \<le> 7 then C_end c1 else C_next CO_SDO_ST_UPLOAD_SEGMENT_REQ c1)"
    using eq [OF _ cmd(1) _ k _ wr(1) n_def [symmetric] nl] fr cmd X tg ns by (simp add: cmd_def tn_def c1_def)
  then have "crx_upload_state c = Some (if length d \<le> 7 then C_end c1 else C_next CO_SDO_ST_UPLOAD_SEGMENT_REQ c1)"
    using c(2) by (simp add: crx_upload_state_def)
  moreover have "cli_ready (c\<lparr>C_bufFifo := fi\<rparr>)" by (rule cli_ready_fifo [OF r wr(2)])
  then have "c_uploading c1 len (toggled t) (g @ take 7 d)"
    using g d t n wr(3) kl Yk by (auto simp: c_uploading_def c1_def tn_def Y_def cli_ready_def client_base_def)
  ultimately show thesis using that by (simp add: c1_def)
qed

text \<open>An answer arrives while the client waits for a segment.\<close>

lemma c_uploading_answer:
  assumes "c_uploading c len t g" "\<not> C_CANrxNew c" "C_state c = CO_SDO_ST_UPLOAD_SEGMENT_RSP" "length f = 8"
  defines "c' \<equiv> CO_SDOclient_receive c f"
  shows "c_uploading c' len t g" "answered c' f" "C_state c' = CO_SDO_ST_UPLOAD_SEGMENT_RSP"
proof -
  have r: "cli_ready c" using assms(1) by (simp add: c_uploading_def)
  have e: "c' = c\<lparr>C_CANrxData := f, C_CANrxNew := True\<rparr>"
    unfolding c'_def by (rule receive_answer) (use assms r in simp_all)
  show "c_uploading c' len t g" "answered c' f" "C_state c' = CO_SDO_ST_UPLOAD_SEGMENT_RSP"
    using assms(1-4) cli_ready_rx [OF r assms(4)] unfolding e by (simp_all add: c_uploading_def answered_def)
qed

text \<open>A request goes to the server, its segment comes back.\<close>

lemma upload_round:
  assumes c2: "upload_call dt c = Some (CO_SDO_RT_waitingResponse, 0, None, c2)"
      "c_uploading c2 len t g" "C_state c2 = CO_SDO_ST_UPLOAD_SEGMENT_RSP"
      "C_sent c2 = C_sent c @ [upload_request t]" "\<not> C_CANrxNew c2"
    and sv: "uploading s n t d"
  obtains c3 s2 where
    "\<And>k. client_session (upload_call dt) (Suc k) c s = client_session (upload_call dt) k c3 s2"
    "c_uploading c3 len t g" "C_state c3 = CO_SDO_ST_UPLOAD_SEGMENT_RSP" "answered c3 (segment_frame t d)"
    "od_mem s2 = od_mem s"
    "if length d \<le> 7 then state s2 = CO_SDO_ST_IDLE else uploading s2 n (toggled t) (drop 7 d)"
proof -
  have t: "t = 0 \<or> t = 0x10" and d: "d \<noteq> []" using sv by (simp_all add: uploading_def)
  obtain s2 ret where s2: "sdo_exchange s (upload_request t) = Some (ret, s2)" "od_mem s2 = od_mem s"
    "sent s2 = sent s @ [segment_frame t d]" "length d \<le> 7 \<Longrightarrow> state s2 = CO_SDO_ST_IDLE"
    "7 < length d \<Longrightarrow> uploading s2 n (toggled t) (drop 7 d)"
    unfolding segment_frame_def using upload_segment_step [OF sv] by metis
  define c3 where "c3 = CO_SDOclient_receive c2 (segment_frame t d)"
  note c3 = c_uploading_answer [OF c2(2,5,3) segment_frame_facts(1) [OF d t], folded c3_def]
  have e: "client_session (upload_call dt) (Suc k) c s = client_session (upload_call dt) k c3 s2" for k
    unfolding c3_def by (rule session_round [where call = "upload_call dt", OF c2(1,4) s2(1,3)])
  show thesis
    by (rule that [OF e c3(1,3,2) s2(2)]) (use s2(4,5) in \<open>cases "length d \<le> 7"; simp\<close>)
qed

text \<open>The call after a segment that is not the last: the next one is requested.\<close>

lemma upload_call_next:
  assumes c: "c_uploading c len t g" "C_state c = CO_SDO_ST_UPLOAD_SEGMENT_RSP" "answered c (segment_frame t d)"
    and d: "7 < length d" "length g + length d = len"
  obtains c2 where "upload_call dt c = Some (CO_SDO_RT_waitingResponse, 0, None, c2)"
    "c_uploading c2 len (toggled t) (g @ take 7 d)" "C_state c2 = CO_SDO_ST_UPLOAD_SEGMENT_RSP"
    "C_sent c2 = C_sent c @ [upload_request (toggled t)]" "\<not> C_CANrxNew c2"
proof -
  have t: "t = 0 \<or> t = 0x10" and r: "cli_ready c" and d0: "d \<noteq> []" using c(1) d(1) by (auto simp: c_uploading_def)
  note f = segment_frame_facts [OF d0 t]
  obtain c1 where rx: "crx_upload_state c = Some (C_next CO_SDO_ST_UPLOAD_SEGMENT_REQ c1)"
    and c1: "c_uploading c1 len (toggled t) (g @ take 7 d)" "C_sent c1 = C_sent c"
    by (rule crx_upload_segment [OF c d0 d(2)]) (use d(1) in simp)
  have g: "length (g @ take 7 d) < len" using d by simp
  define c0 where "c0 = c1\<lparr>C_state := CO_SDO_ST_UPLOAD_SEGMENT_REQ, C_timeoutTimer := 0, C_CANrxNew := False\<rparr>"
  have c0: "c_uploading c0 len (toggled t) (g @ take 7 d)" "C_state c0 = CO_SDO_ST_UPLOAD_SEGMENT_REQ"
    "C_sent c0 = C_sent c" "\<not> C_CANrxNew c0" using c1 by (simp_all add: c0_def)
  obtain c2 where c2: "ctx_upload 0 None c0 = C_tx_wait 0 None c2" "c_uploading c2 len (toggled t) (g @ take 7 d)"
    "C_state c2 = CO_SDO_ST_UPLOAD_SEGMENT_RSP" "C_sent c2 = C_sent c0 @ [upload_request (toggled t)]"
    "C_CANrxNew c2 = C_CANrxNew c0"
    by (rule ctx_upload_segment [OF c0(1) g c0(2)])
  have "upload_call dt c = Some (CO_SDO_RT_waitingResponse, 0, None, c2)"
  proof (rule upload_call_rx [OF r c(3) f(5) _ _ rx [unfolded C_next_def]])
    show "ctx_upload 0 None ((c1\<lparr>C_state := CO_SDO_ST_UPLOAD_SEGMENT_REQ\<rparr>)
        \<lparr>C_timeoutTimer := 0, C_CANrxNew := False\<rparr>) = C_tx_wait 0 None c2"
      using c2(1) by (simp add: c0_def)
  qed (use c(2) c1 c2(3) in \<open>simp_all add: c_uploading_def\<close>)
  with that c2 c0 show thesis by simp
qed

lemma upload_rounds:
  "c_uploading c len t g \<Longrightarrow> C_state c = CO_SDO_ST_UPLOAD_SEGMENT_RSP \<Longrightarrow> answered c (segment_frame t d) \<Longrightarrow>
   d \<noteq> [] \<Longrightarrow> length g + length d = len \<Longrightarrow>
   (if length d \<le> 7 then state s = CO_SDO_ST_IDLE else uploading s n (toggled t) (drop 7 d)) \<Longrightarrow>
   \<exists>c' s'. client_session (upload_call dt) ((length d + 6) div 7) c s = Some (CO_SDO_RT_ok_communicationEnd, 0, c', s') \<and>
     C_state c' = CO_SDO_ST_IDLE \<and> cbuf (C_bufFifo c') \<and> contents (C_bufFifo c') = g @ d \<and> unat (C_sizeTran c') = len \<and>
     state s' = CO_SDO_ST_IDLE \<and> od_mem s' = od_mem s"
proof (induction "length d" arbitrary: c s t g d rule: less_induct)
  case less
  note c = less.prems(1-3) and d = less.prems(4,5)
  have t: "t = 0 \<or> t = 0x10" and r: "cli_ready c" using c(1) by (simp_all add: c_uploading_def)
  note f = segment_frame_facts [OF d(1) t]
  show ?case
  proof (cases "length d \<le> 7")
    case True
    obtain c1 where rx: "crx_upload_state c = Some (C_end c1)" and c1: "c_uploading c1 len (toggled t) (g @ take 7 d)"
      by (rule crx_upload_segment [OF c d]) (use True in simp)
    have one: "(length d + 6) div 7 = Suc 0" using segments_count [OF d(1)] True by simp
    have "upload_call dt c = Some (CO_SDO_RT_ok_communicationEnd, 0, None,
        c1\<lparr>C_state := CO_SDO_ST_IDLE, C_timeoutTimer := 0, C_CANrxNew := False\<rparr>)"
      by (rule call_end(2) [OF r c(3) f(5) _ _ rx]) (use c(2) in simp_all)
    note e = session_end [where call = "upload_call dt", OF this]
    have "cli_ready c1" "contents (C_bufFifo c1) = g @ d" "unat (C_sizeTran c1) = len"
      using c1 True d(2) by (simp_all add: c_uploading_def)
    then show ?thesis using True less.prems(6) cli_ready_cbuf
      unfolding one e by (simp del: client_session.simps)
  next
    case False
    then have l: "7 < length d" and sv: "uploading s n (toggled t) (drop 7 d)" using less.prems(6) by simp_all
    obtain c2 where c2: "upload_call dt c = Some (CO_SDO_RT_waitingResponse, 0, None, c2)"
      "c_uploading c2 len (toggled t) (g @ take 7 d)" "C_state c2 = CO_SDO_ST_UPLOAD_SEGMENT_RSP"
      "C_sent c2 = C_sent c @ [upload_request (toggled t)]" "\<not> C_CANrxNew c2"
      by (rule upload_call_next [OF c l d(2)])
    obtain c3 s2 where q: "\<And>k. client_session (upload_call dt) (Suc k) c s = client_session (upload_call dt) k c3 s2"
      and c3: "c_uploading c3 len (toggled t) (g @ take 7 d)" "C_state c3 = CO_SDO_ST_UPLOAD_SEGMENT_RSP"
        "answered c3 (segment_frame (toggled t) (drop 7 d))" "od_mem s2 = od_mem s"
        "if length (drop 7 d) \<le> 7 then state s2 = CO_SDO_ST_IDLE else uploading s2 n (toggled (toggled t)) (drop 7 (drop 7 d))"
      using upload_round [OF c2 sv] by metis
    have m: "length (drop 7 d) < length d" "drop 7 d \<noteq> []" "length (g @ take 7 d) + length (drop 7 d) = len"
      using l d(2) by simp_all
    have j: "(g @ take 7 d) @ drop 7 d = g @ d" by simp
    show ?thesis using less.hyps [OF m(1) c3(1-3) m(2,3) c3(5)]
      unfolding segments_count [OF d(1)] q c3(4) j .
  qed
qed

section \<open>Uploads\<close>

text \<open>An application's upload: the client asks the server for the object.\<close>

definition upload_started :: "client \<Rightarrow> u16 \<Rightarrow> u8 \<Rightarrow> bool" where
  "upload_started c i sub \<longleftrightarrow> c_starting c i sub \<and> C_state c = CO_SDO_ST_UPLOAD_INITIATE_REQ \<and>
     contents (C_bufFifo c) = [] \<and> C_sizeInd c = 0"

lemma upload_started_timer [simp]: "upload_started (c\<lparr>C_timeoutTimer := t\<rparr>) i sub = upload_started c i sub"
  by (simp add: upload_started_def c_starting_def)

lemma upload_starts:
  fixes i :: u16 and sub :: u8
  assumes c: "cli_idle c" and t: "timeout \<noteq> 0"
  defines "c1 \<equiv> snd (CO_SDOclientUploadInitiate c i sub timeout False)"
  shows "upload_started c1 i sub" "C_SDOtimeoutTime_us c1 = ucast timeout * 1000" "C_timeoutTimer c1 = 0"
proof -
  have b: "client_base c" using c by (simp add: cli_idle_def)
  have rs: "cbuf (CO_fifo_reset (C_bufFifo c))" "contents (CO_fifo_reset (C_bufFifo c)) = []"
    using cbuf_reset [OF client_base_cbuf [OF b]] by auto
  define x where "x = (ucast timeout * 1000 :: u32)"
  have c1: "c1 = c\<lparr>C_index := i, C_subIndex := sub, C_sizeInd := 0, C_sizeTran := 0, C_finished := False,
      C_bufFifo := CO_fifo_reset (C_bufFifo c), C_SDOtimeoutTime_us := x, C_timeoutTimer := 0,
      C_block_SDOtimeoutTime_us := ucast timeout * 700, C_state := CO_SDO_ST_UPLOAD_INITIATE_REQ, C_CANrxNew := False\<rparr>"
    using c by (auto simp: c1_def x_def CO_SDOclientUploadInitiate_def cli_idle_def C_is_local_def Let_def)
  have "0 < x"
  proof -
    have "unat timeout \<noteq> 0" using t by (simp add: unat_eq_0)
    then show ?thesis using timeout_us [of timeout] by (simp add: word_less_nat_alt x_def)
  qed
  then show "upload_started c1 i sub" "C_SDOtimeoutTime_us c1 = ucast timeout * 1000" "C_timeoutTimer c1 = 0"
    using b c rs unfolding x_def [symmetric]
    by (simp_all add: upload_started_def c_starting_def c1 cli_ready_def client_base_fifo cli_idle_def)
qed

text \<open>The first message, and the client that has sent it.\<close>

definition upload_asked :: "client \<Rightarrow> client \<Rightarrow> u16 \<Rightarrow> u8 \<Rightarrow> bool" where
  "upload_asked c c2 i sub \<longleftrightarrow> c_starting c2 i sub \<and> C_state c2 = CO_SDO_ST_UPLOAD_INITIATE_RSP \<and>
     contents (C_bufFifo c2) = [] \<and> C_sizeInd c2 = 0 \<and> C_timeoutTimer c2 = 0 \<and>
     C_SDOtimeoutTime_us c2 = C_SDOtimeoutTime_us c \<and> C_sent c2 = C_sent c @ [request 0x40 i sub (replicate 4 0)]"

lemma upload_first_call:
  assumes c: "upload_started c i sub" "C_timeoutTimer c = 0" "dt < C_SDOtimeoutTime_us c"
  obtains c2 where "upload_call dt c = Some (CO_SDO_RT_waitingResponse, 0, None, c2)" "upload_asked c c2 i sub"
proof -
  let ?f = "request 0x40 i sub (replicate 4 0)"
  have st: "c_starting c i sub" "C_state c = CO_SDO_ST_UPLOAD_INITIATE_REQ" using c(1) by (simp_all add: upload_started_def)
  have u: "cli_ready c" "\<not> C_CANrxNew c" "C_index c = i" "C_subIndex c = sub" using st(1) by (simp_all add: c_starting_def)
  define c2 where "c2 = c\<lparr>C_CANtx_data := ?f, C_timeoutTimer := 0, C_sent := C_sent c @ [?f],
    C_state := CO_SDO_ST_UPLOAD_INITIATE_RSP\<rparr>"
  define c0 where "c0 = c\<lparr>C_timeoutTimer := dt, C_CANtx_data := replicate 8 0\<rparr>"
  have hd: "C_tx_header 0x40 c0 = c0\<lparr>C_CANtx_data := ?f\<rparr>"
    using C_tx_header_blank [of c0 "0x40"] u(3,4) by (simp add: c0_def)
  have tx: "ctx_upload 0 None (c\<lparr>C_timeoutTimer := dt\<rparr>) = C_tx_wait 0 None c2"
    using hd st(2) by (simp add: ctx_upload_def ctx_UPLOAD_INITIATE_REQ_def C_transmit_def C_send_def c0_def c2_def)
  have "C_state c2 = CO_SDO_ST_UPLOAD_INITIATE_RSP" by (simp add: c2_def)
  note call = call_first(2) [OF u(1,2) c(2,3) st(2) tx this]
  have "cli_ready c2" using cli_ready_tx [OF u(1), of ?f] by (simp add: c2_def)
  with c(1) have "upload_asked c c2 i sub" by (simp add: upload_asked_def upload_started_def c_starting_def c2_def)
  with call show thesis by (rule that)
qed

lemma receive_upload_answer:
  fixes cmd :: u8
  assumes "upload_asked c c2 i sub" "length d = 4"
  defines "c3 \<equiv> CO_SDOclient_receive c2 (request cmd i sub d)"
  shows "c3 = c2\<lparr>C_CANrxData := request cmd i sub d, C_CANrxNew := True\<rparr>" "cli_ready c3"
    "answered c3 (request cmd i sub d)" "C_same_object c3"
proof -
  have u: "cli_ready c2" "\<not> C_CANrxNew c2" "C_state c2 = CO_SDO_ST_UPLOAD_INITIATE_RSP" "C_index c2 = i" "C_subIndex c2 = sub"
    using assms(1) by (simp_all add: upload_asked_def c_starting_def)
  show e: "c3 = c2\<lparr>C_CANrxData := request cmd i sub d, C_CANrxNew := True\<rparr>"
    unfolding c3_def by (rule receive_answer) (use u assms(2) in simp_all)
  show "cli_ready c3" "answered c3 (request cmd i sub d)" "C_same_object c3"
    using cli_ready_rx [OF u(1), of "request cmd i sub d"] u(4,5) assms(2)
    by (simp_all add: e answered_def C_same_object_def request_def index_of_request)
qed

lemma upload_expedited_session:
  assumes c: "upload_started c i sub" "C_timeoutTimer c = 0" "dt < C_SDOtimeoutTime_us c"
    and s: "sdo_base s" "sdo_ready s" "state s = CO_SDO_ST_IDLE"
    and v: "od_plain_var (SDO_OD s) i sub a n att" "att AND ODA_SDO_R \<noteq> 0" "att AND ODA_STR = 0" "0 < n" "n \<le> 4"
  shows "\<exists>c' s'. client_session (upload_call dt) 2 c s = Some (CO_SDO_RT_ok_communicationEnd, 0, c', s') \<and>
    C_state c' = CO_SDO_ST_IDLE \<and> cbuf (C_bufFifo c') \<and> contents (C_bufFifo c') = mem_read (od_mem s) a (unat n) \<and>
    unat (C_sizeTran c') = unat n \<and> state s' = CO_SDO_ST_IDLE \<and> od_mem s' = od_mem s"
proof -
  obtain c2 where call1: "upload_call dt c = Some (CO_SDO_RT_waitingResponse, 0, None, c2)" and c2: "upload_asked c c2 i sub"
    by (rule upload_first_call [OF c])
  define d where "d = mem_read (od_mem s) a (unat n)"
  define k where "k = unat n"
  have dk: "length d = k" by (simp add: d_def k_def)
  have k: "1 \<le> k" "k \<le> 4" using v(4,5) by (simp_all add: k_def word_le_nat_alt word_less_nat_alt)
  define cmd where "cmd = expedited_cmd k 0x40"
  let ?g = "request cmd i sub (d @ replicate (4 - k) 0)"
  obtain s2 where s2: "sdo_exchange s (request 0x40 i sub (replicate 4 0)) = Some (CO_SDO_RT_ok_communicationEnd, s2)"
      "od_mem s2 = od_mem s" "state s2 = CO_SDO_ST_IDLE" "sent s2 = sent s @ [?g]"
    using sdo_expedited_upload [OF s v] by (auto simp: cmd_def d_def k_def)
  define c3 where "c3 = CO_SDOclient_receive c2 ?g"
  have l4: "length (d @ replicate (4 - k) 0) = 4" using dk k by simp
  note c3 = receive_upload_answer [OF c2 l4, of cmd, folded c3_def]
  have cmd: "cmd AND 0xF0 = 0x40" "cmd AND 0x02 \<noteq> 0" "cmd AND 0x01 \<noteq> 0" "4 - unat (drop_bit 2 cmd AND 0x03) = k" "cmd \<noteq> 0x80"
    unfolding cmd_def by (rule nat_1_4_cases [OF k]; simp add: expedited_cmd_def)+
  have st3: "C_state c3 = CO_SDO_ST_UPLOAD_INITIATE_RSP" "C_bufFifo c3 = C_bufFifo c2" "C_CANrxData c3 = ?g"
    "contents (C_bufFifo c2) = []" using c2 by (simp_all add: c3(1) upload_asked_def)
  have r2: "cli_ready c2" using c2 by (simp add: upload_asked_def c_starting_def)
  have tk: "take k (drop 4 ?g) = d" "?g ! 0 = cmd" using dk by (simp_all add: request_def numeral_eq_Suc)
  obtain f where f: "CO_fifo_write (C_bufFifo c2) d None = (k, f, None)" "cbuf f" "contents f = d"
    using cbuf_write [OF cli_ready_cbuf [OF r2], of d None] st3(4) dk k by (auto simp: min_def)
  define c4 where "c4 = c3\<lparr>C_bufFifo := f, C_sizeTran := word_of_nat k\<rparr>"
  have rx: "crx_upload_state c3 = Some (C_end c4)"
    using c3(4) st3(1) cmd(1-4) tk f(1)
    by (simp add: crx_upload_state_def crx_UPLOAD_INITIATE_RSP_def crx_upload_regular_def st3(2,3) c4_def)
  have call2: "upload_call dt c3 = Some (CO_SDO_RT_ok_communicationEnd, 0, None,
      c4\<lparr>C_state := CO_SDO_ST_IDLE, C_timeoutTimer := 0, C_CANrxNew := False\<rparr>)"
    by (rule call_end(2) [OF c3(2,3) _ _ _ rx]) (use tk(2) cmd(5) st3(1) in simp_all)
  have two: "2 = Suc (Suc 0)" by simp
  have sent: "C_sent c2 = C_sent c @ [request 0x40 i sub (replicate 4 0)]" using c2 by (simp add: upload_asked_def)
  have "client_session (upload_call dt) 2 c s = Some (CO_SDO_RT_ok_communicationEnd, 0,
      c4\<lparr>C_state := CO_SDO_ST_IDLE, C_timeoutTimer := 0, C_CANrxNew := False\<rparr>, s2)"
    unfolding two session_round [where call = "upload_call dt", OF call1 sent s2(1,4)] c3_def [symmetric]
    by (rule session_end [where call = "upload_call dt", OF call2])
  moreover have "unat (word_of_nat k :: u64) = k" using k by (simp add: unat_of_nat)
  ultimately show ?thesis using s2(2,3) f(2,3) 
    unfolding d_def [symmetric] unfolding k_def [symmetric] by (simp add: c4_def)
qed

lemma upload_segmented_session:
  assumes c: "upload_started c i sub" "C_timeoutTimer c = 0" "dt < C_SDOtimeoutTime_us c"
    and s: "sdo_base s" "sdo_ready s" "state s = CO_SDO_ST_IDLE"
    and v: "od_plain_var (SDO_OD s) i sub a n att" "att AND ODA_SDO_R \<noteq> 0" "att AND ODA_STR = 0" "4 < n" "unat n \<le> 994"
  shows "\<exists>c' s'. client_session (upload_call dt) ((unat n + 6) div 7 + 2) c s =
      Some (CO_SDO_RT_ok_communicationEnd, 0, c', s') \<and>
    C_state c' = CO_SDO_ST_IDLE \<and> cbuf (C_bufFifo c') \<and> contents (C_bufFifo c') = mem_read (od_mem s) a (unat n) \<and>
    unat (C_sizeTran c') = unat n \<and> state s' = CO_SDO_ST_IDLE \<and> od_mem s' = od_mem s"
proof -
  obtain c2 where call1: "upload_call dt c = Some (CO_SDO_RT_waitingResponse, 0, None, c2)" and c2: "upload_asked c c2 i sub"
    by (rule upload_first_call [OF c])
  define d where "d = mem_read (od_mem s) a (unat n)"
  have dl: "length d = unat n" by (simp add: d_def)
  then have d: "length d = unat n" "d \<noteq> []" using v(4) by (auto simp: word_less_nat_alt)
  obtain s2 where s2: "sdo_exchange s (request 0x40 i sub (replicate 4 0)) = Some (CO_SDO_RT_waitingResponse, s2)"
    "uploading s2 (unat n) 0 d" "od_mem s2 = od_mem s" "sent s2 = sent s @ [request 0x41 i sub (le_bytes 4 n)]"
    using segmented_upload_start [OF s v(1-4)] unfolding d_def by metis
  let ?g = "request 0x41 i sub (le_bytes 4 n)"
  define c3 where "c3 = CO_SDOclient_receive c2 ?g"
  have l4: "length (le_bytes 4 n) = 4" by simp
  note c3 = receive_upload_answer [OF c2 l4, of "0x41", folded c3_def]
  have st3: "C_state c3 = CO_SDO_ST_UPLOAD_INITIATE_RSP" "C_bufFifo c3 = C_bufFifo c2" "C_CANrxData c3 = ?g"
    "contents (C_bufFifo c2) = []" "C_sizeTran c3 = 0" "C_sent c3 = C_sent c2"
    using c2 by (simp_all add: c3(1) upload_asked_def c_starting_def)
  have g: "?g ! 0 = 0x41" "take 4 (drop 4 ?g) = le_bytes 4 n" by (simp_all add: request_def numeral_eq_Suc)
  define c4 where "c4 = c3\<lparr>C_sizeInd := ucast n, C_toggle := 0\<rparr>"
  have rx: "crx_upload_state c3 = Some (C_next CO_SDO_ST_UPLOAD_SEGMENT_REQ c4)"
    using c3(4) st3(1) g
    by (simp add: crx_upload_state_def crx_UPLOAD_INITIATE_RSP_def crx_upload_regular_def st3(2,3) c4_def le_word_le_bytes32)
  define c0 where "c0 = c4\<lparr>C_state := CO_SDO_ST_UPLOAD_SEGMENT_REQ, C_timeoutTimer := 0, C_CANrxNew := False\<rparr>"
  have un: "unat (ucast n :: u64) = unat n"
    using v(5) by (simp add: unsigned_ucast_eq take_bit_nat_eq_self_iff)
  have c0: "c_uploading c0 (unat n) 0 []" "C_state c0 = CO_SDO_ST_UPLOAD_SEGMENT_REQ" "C_sent c0 = C_sent c3" "\<not> C_CANrxNew c0"
    using c3(2) st3 v(5) by (simp_all add: c0_def c4_def c_uploading_def un)
  have pos: "length ([] :: u8 list) < unat n" using d by (cases d) simp_all
  obtain c5 where c5: "ctx_upload 0 None c0 = C_tx_wait 0 None c5" "c_uploading c5 (unat n) 0 []"
    "C_state c5 = CO_SDO_ST_UPLOAD_SEGMENT_RSP" "C_sent c5 = C_sent c0 @ [upload_request 0]" "C_CANrxNew c5 = C_CANrxNew c0"
    by (rule ctx_upload_segment [OF c0(1) pos c0(2)])
  have call2: "upload_call dt c3 = Some (CO_SDO_RT_waitingResponse, 0, None, c5)"
  proof (rule upload_call_rx [OF c3(2,3) _ _ _ rx [unfolded C_next_def]])
    show "ctx_upload 0 None ((c4\<lparr>C_state := CO_SDO_ST_UPLOAD_SEGMENT_REQ\<rparr>)
        \<lparr>C_timeoutTimer := 0, C_CANrxNew := False\<rparr>) = C_tx_wait 0 None c5"
      using c5(1) by (simp add: c0_def)
  qed (use st3 g c3(2) c5(3) in \<open>simp_all add: c4_def\<close>)
  obtain c6 s6 where r: "\<And>k. client_session (upload_call dt) (Suc k) c3 s2 = client_session (upload_call dt) k c6 s6"
    and c6: "c_uploading c6 (unat n) 0 []" "C_state c6 = CO_SDO_ST_UPLOAD_SEGMENT_RSP" "answered c6 (segment_frame 0 d)"
      "od_mem s6 = od_mem s2" "if length d \<le> 7 then state s6 = CO_SDO_ST_IDLE else uploading s6 (unat n) (toggled 0) (drop 7 d)"
    by (rule upload_round [OF call2 c5(2,3) _ _ s2(2)]) (use c5 c0 in auto)
  have sent: "C_sent c2 = C_sent c @ [request 0x40 i sub (replicate 4 0)]" using c2 by (simp add: upload_asked_def)
  have e: "(unat n + 6) div 7 + 2 = Suc (Suc ((length d + 6) div 7))" using d by simp
  have dn: "length ([] :: u8 list) + length d = unat n" using d by simp
  show ?thesis
    unfolding e session_round [where call = "upload_call dt", OF call1 sent s2(1,4)] c3_def [symmetric] r d_def [symmetric]
    using upload_rounds [OF c6(1-3) d(2) dn c6(5), of dt] c6(4) s2(3) by simp
qed

text \<open>
  C4: An upload from end to end. An application that starts an upload of a readable variable of one
  to 994 bytes of an idle server and calls the client until the transfer ends gets the success code
  after the number of calls that the segments take; what it then reads from the client's buffer is
  exactly the value in the server's memory, which did not change; the client reports the size, and
  both are idle.
\<close>

theorem client_upload:
  fixes i :: u16 and sub :: u8
  assumes c: "cli_idle c" and t: "timeout \<noteq> 0" "dt < ucast timeout * 1000"
    and s: "sdo_base s" "sdo_ready s" "state s = CO_SDO_ST_IDLE"
    and v: "od_plain_var (SDO_OD s) i sub a n att" "att AND ODA_SDO_R \<noteq> 0" "att AND ODA_STR = 0"
    and n: "0 < n" "unat n \<le> 994"
  defines "c1 \<equiv> snd (CO_SDOclientUploadInitiate c i sub timeout False)"
  defines "calls \<equiv> (if n \<le> 4 then 2 else (unat n + 6) div 7 + 2)"
  shows "\<exists>c' s'. client_session (upload_call dt) calls c1 s = Some (CO_SDO_RT_ok_communicationEnd, CO_SDO_AB_NONE, c', s') \<and>
    fst (CO_SDOclientUploadBufRead c' (unat n)) = mem_read (od_mem s) a (unat n) \<and> unat (C_sizeTran c') = unat n \<and>
    od_mem s' = od_mem s \<and> state s' = CO_SDO_ST_IDLE \<and> C_state c' = CO_SDO_ST_IDLE"
proof -
  note st = upload_starts [OF c t(1), of i sub, folded c1_def]
  have dt: "dt < C_SDOtimeoutTime_us c1" using st(2) t(2) by simp
  have "\<exists>c' s'. client_session (upload_call dt) calls c1 s = Some (CO_SDO_RT_ok_communicationEnd, 0, c', s') \<and>
    C_state c' = CO_SDO_ST_IDLE \<and> cbuf (C_bufFifo c') \<and> contents (C_bufFifo c') = mem_read (od_mem s) a (unat n) \<and>
    unat (C_sizeTran c') = unat n \<and> state s' = CO_SDO_ST_IDLE \<and> od_mem s' = od_mem s"
  proof (cases "n \<le> 4")
    case True
    then show ?thesis using upload_expedited_session [OF st(1,3) dt s v n(1) True] by (simp add: calls_def)
  next
    case False
    then have "4 < n" by simp
    from upload_segmented_session [OF st(1,3) dt s v this n(2)] show ?thesis using False by (simp add: calls_def)
  qed
  then obtain c' s' where r: "client_session (upload_call dt) calls c1 s = Some (CO_SDO_RT_ok_communicationEnd, 0, c', s')"
    "C_state c' = CO_SDO_ST_IDLE" "cbuf (C_bufFifo c')" "contents (C_bufFifo c') = mem_read (od_mem s) a (unat n)"
    "unat (C_sizeTran c') = unat n" "state s' = CO_SDO_ST_IDLE" "od_mem s' = od_mem s" by auto
  obtain f where "CO_fifo_read (C_bufFifo c') (unat n) False = (mem_read (od_mem s) a (unat n), False, f)"
    using cbuf_read [OF r(3), of "unat n"] r(4) by (metis length_mem_read take_all order_refl)
  then have "fst (CO_SDOclientUploadBufRead c' (unat n)) = mem_read (od_mem s) a (unat n)"
    by (simp add: CO_SDOclientUploadBufRead_def)
  with r show ?thesis by auto
qed

section \<open>A concrete upload\<close>

theorem client_upload_witness:
  "\<exists>c' s'. client_session (upload_call 500) 5 (snd (CO_SDOclientUploadInitiate example_client 0x2001 0 1000 False))
      example_server = Some (CO_SDO_RT_ok_communicationEnd, CO_SDO_AB_NONE, c', s') \<and>
    fst (CO_SDOclientUploadBufRead c' 20) =
      [200, 201, 202, 203, 204, 205, 206, 207, 208, 209, 210, 211, 212, 213, 214, 215, 216, 217, 218, 219]"
proof -
  have m: "mem_read word_of_nat 200 20 =
      [200, 201, 202, 203, 204, 205, 206, 207, 208, 209, 210, 211, 212, 213, 214, 215, 216, 217, 218, 219]"
    by code_simp
  have n: "(if (20 :: u32) \<le> 4 then 2 else (unat (20 :: u32) + 6) div 7 + 2) = 5" "unat (20 :: u32) = 20" by simp_all
  from client_upload [OF example_client_idle _ _ example_server_base example_server_fields(2,1) example_vars(2), of 1000 500]
  show ?thesis unfolding n by (auto simp: example_server_fields m)
qed

end

