(* ===== verification/SDO_Client_Errors.thy ===== *)
theory SDO_Client_Errors
  imports SDO_Upload SDO_Errors
begin

text \<open>
  How transfers of the SDO client end when they do not succeed: the server rejects the request, or it
  does not answer.
\<close>

section \<open>Rejected requests\<close>

text \<open>A call that finds an abort message of the server.\<close>

lemma call_server_abort:
  assumes "cli_ready c" "answered c (request 0x80 j k (le_bytes 4 code))" "C_state c \<noteq> CO_SDO_ST_IDLE"
  shows "C_state c \<noteq> CO_SDO_ST_UPLOAD_LOCAL_TRANSFER \<Longrightarrow> upload_call dt c =
      Some (CO_SDO_RT_endedWithServerAbort, code, None, c\<lparr>C_state := CO_SDO_ST_IDLE, C_timeoutTimer := 0, C_CANrxNew := False\<rparr>)"
    and "C_state c \<noteq> CO_SDO_ST_DOWNLOAD_LOCAL_TRANSFER \<Longrightarrow> download_call dt c =
      Some (CO_SDO_RT_endedWithServerAbort, code, None, c\<lparr>C_state := CO_SDO_ST_IDLE, C_timeoutTimer := 0, C_CANrxNew := False\<rparr>)"
proof -
  have f: "C_CANrxData c ! 0 = 0x80" "take 4 (drop 4 (C_CANrxData c)) = le_bytes 4 code"
    using assms(2) by (simp_all add: answered_def request_def)
  show "upload_call dt c =
      Some (CO_SDO_RT_endedWithServerAbort, code, None, c\<lparr>C_state := CO_SDO_ST_IDLE, C_timeoutTimer := 0, C_CANrxNew := False\<rparr>)"
    if "C_state c \<noteq> CO_SDO_ST_UPLOAD_LOCAL_TRANSFER"
    using that assms f by (simp add: CO_SDOclientUpload_def C_rx_def answered_def cli_ready_def le_word_le_bytes32)
  show "download_call dt c =
      Some (CO_SDO_RT_endedWithServerAbort, code, None, c\<lparr>C_state := CO_SDO_ST_IDLE, C_timeoutTimer := 0, C_CANrxNew := False\<rparr>)"
    if "C_state c \<noteq> CO_SDO_ST_DOWNLOAD_LOCAL_TRANSFER"
    using that assms f by (simp add: CO_SDOclientDownload_def C_rx_def answered_def cli_ready_def le_word_le_bytes32)
qed

lemma session_server_abort:
  assumes "call c = Some (CO_SDO_RT_endedWithServerAbort, code, tn, c')"
  shows "client_session call (Suc k) c s = Some (CO_SDO_RT_endedWithServerAbort, code, c', s)"
  using assms by (simp add: transfer_ends_def)



section \<open>A silent server\<close>

text \<open>The states in which the client waits for a message of the server that comes through its receive buffer.\<close>

definition awaits :: "bool \<Rightarrow> CO_SDO_state \<Rightarrow> bool" where
  "awaits up st \<longleftrightarrow>
     (if up then st \<in> {CO_SDO_ST_UPLOAD_INITIATE_RSP, CO_SDO_ST_UPLOAD_SEGMENT_RSP, CO_SDO_ST_UPLOAD_BLK_INITIATE_RSP,
        CO_SDO_ST_UPLOAD_BLK_END_SREQ}
      else st \<in> {CO_SDO_ST_DOWNLOAD_INITIATE_RSP, CO_SDO_ST_DOWNLOAD_SEGMENT_RSP, CO_SDO_ST_DOWNLOAD_BLK_INITIATE_RSP,
        CO_SDO_ST_DOWNLOAD_BLK_SUBBLOCK_RSP, CO_SDO_ST_DOWNLOAD_BLK_END_RSP})"

definition transfer_call :: "bool \<Rightarrow> bool \<Rightarrow> u32 \<Rightarrow> client \<Rightarrow> cli_tx_result" where
  "transfer_call up partial dt c =
     (if up then CO_SDOclientUpload c dt False None None else CO_SDOclientDownload c dt False partial None None)"

text \<open>Calls while no message arrives; all of them report that the client waits.\<close>

fun silent_calls :: "bool \<Rightarrow> bool \<Rightarrow> u32 list \<Rightarrow> client \<Rightarrow> client option" where
  "silent_calls up partial [] c = Some c"
| "silent_calls up partial (dt # dts) c = do {
     (ret, code, tn, c) \<leftarrow> transfer_call up partial dt c;
     if ret = CO_SDO_RT_waitingResponse then silent_calls up partial dts c else None
   }"

definition waiting_client :: "bool \<Rightarrow> client \<Rightarrow> bool" where
  "waiting_client up c \<longleftrightarrow> C_valid c \<and> \<not> C_CANrxNew c \<and> \<not> C_CANtx_bufferFull c \<and> awaits up (C_state c) \<and>
     C_timeoutTimer c < C_SDOtimeoutTime_us c"

lemma silent_call:
  assumes "waiting_client up c" "C_timeoutTimer c + dt < C_SDOtimeoutTime_us c"
  shows "transfer_call up partial dt c = Some (CO_SDO_RT_waitingResponse, 0, None,
    c\<lparr>C_timeoutTimer := C_timeoutTimer c + dt, C_CANtx_data := replicate 8 0\<rparr>)"
proof -
  have "(C_SDOtimeoutTime_us c \<le> C_timeoutTimer c + dt) = False" using assms(2) by simp
  then show ?thesis using assms(1)
    by (auto simp: waiting_client_def awaits_def transfer_call_def CO_SDOclientUpload_def CO_SDOclientDownload_def
        C_continue_def upload_timers_def download_timers_def C_timeout_def Let_def timer_next_def C_finish_def
        ctx_upload_def ctx_download_def split: if_splits)
qed

lemma last_call:
  assumes "waiting_client up c" "C_SDOtimeoutTime_us c \<le> C_timeoutTimer c + dt"
  shows "\<exists>c'. transfer_call up partial dt c = Some (CO_SDO_RT_endedWithClientAbort, CO_SDO_AB_TIMEOUT, None, c') \<and>
    C_state c' = CO_SDO_ST_IDLE \<and>
    C_sent c' = C_sent c @ [request 0x80 (C_index c) (C_subIndex c) (le_bytes 4 CO_SDO_AB_TIMEOUT)]"
proof -
  define c0 where "c0 = c\<lparr>C_timeoutTimer := C_timeoutTimer c + dt, C_state := CO_SDO_ST_ABORT, C_CANtx_data := replicate 8 0\<rparr>"
  have hd: "C_tx_header 0x80 c0 = c0\<lparr>C_CANtx_data := request 0x80 (C_index c) (C_subIndex c) (replicate 4 0)\<rparr>"
    using C_tx_header_blank [of c0 "0x80"] by (simp add: c0_def)
  have fr: "take 4 (request 0x80 (C_index c) (C_subIndex c) (replicate 4 0)) @ le_bytes 4 CO_SDO_AB_TIMEOUT =
      request 0x80 (C_index c) (C_subIndex c) (le_bytes 4 CO_SDO_AB_TIMEOUT)" by (simp add: request_def)
  have fin: "C_finish bs br CO_SDO_RT_waitingResponse CO_SDO_AB_TIMEOUT c0 = (CO_SDO_RT_endedWithClientAbort,
      (C_send (c0\<lparr>C_CANtx_data := request 0x80 (C_index c) (C_subIndex c) (le_bytes 4 CO_SDO_AB_TIMEOUT)\<rparr>))\<lparr>C_state := CO_SDO_ST_IDLE\<rparr>)" for bs br
    using fr by (simp add: C_finish_def hd Let_def) (simp add: c0_def)
  show ?thesis using assms fin [unfolded c0_def]
    by (auto simp: waiting_client_def awaits_def transfer_call_def CO_SDOclientUpload_def CO_SDOclientDownload_def
        C_continue_def upload_timers_def download_timers_def C_timeout_def Let_def upload_timeout_reason_def
        ctx_upload_def ctx_download_def C_send_def split: if_splits)
qed

lemma silent_waiting:
  assumes "waiting_client up c" "unat (C_timeoutTimer c) + sum_list (map unat dts) < unat (C_SDOtimeoutTime_us c)"
  shows "\<exists>c1. silent_calls up partial dts c = Some c1 \<and> waiting_client up c1 \<and> C_sent c1 = C_sent c \<and>
    unat (C_timeoutTimer c1) = unat (C_timeoutTimer c) + sum_list (map unat dts) \<and>
    C_SDOtimeoutTime_us c1 = C_SDOtimeoutTime_us c \<and> C_index c1 = C_index c \<and> C_subIndex c1 = C_subIndex c"
  using assms
proof (induction dts arbitrary: c)
  case (Cons dt dts)
  let ?c = "c\<lparr>C_timeoutTimer := C_timeoutTimer c + dt, C_CANtx_data := replicate 8 0\<rparr>"
  have u: "unat (C_timeoutTimer c + dt) = unat (C_timeoutTimer c) + unat dt"
    using Cons.prems(2) unat_u32_less [of "C_SDOtimeoutTime_us c"] by (intro unat_plus_small) simp
  have l: "C_timeoutTimer c + dt < C_SDOtimeoutTime_us c" using u Cons.prems(2) by (simp add: word_less_nat_alt)
  have "waiting_client up ?c" using Cons.prems(1) l by (simp add: waiting_client_def)
  from Cons.IH [OF this] show ?case
    using silent_call [OF Cons.prems(1) l, of partial] Cons.prems(2) u by (simp add: add.assoc)
qed simp



end
