(* ===== verification/Emergency.thy ===== *)
theory Emergency
  imports CO_Driver Ring Systems "HOL-Library.Sublist"
begin

text \<open>
  Error conditions and emergency messages (\<open>301/CO_Emergency.c\<close>, \<open>301/CO_Emergency.h\<close>), in the
  configuration the repository builds: producer with configurable identifier and inhibit time,
  error history, access to the status bits, and consumer. An error condition is a bit of
  \<open>errorStatusBits\<close>; each change of a bit queues a message, \<open>CO_EM_process\<close> completes it with the
  error register, sends it and keeps it as history.
\<close>

section \<open>The object\<close>

record EM_fifo =
  em_msg :: u32
  em_info :: u32

text \<open>
  \<open>CO_EM_t\<close>. The pointer into the object dictionary is an address, the transmit buffer is the
  driver's, and \<open>CANerrorStatus\<close> is the field of the CAN module that the driver writes. Of the
  extensions installed on the object dictionary's entries, the model keeps whether they are.
\<close>

record CO_EM =
  errorStatusBits :: "u8 list"
  errorRegister :: "addr option"
  CANerrorStatusOld :: u16
  CANerrorStatus :: u16
  em_fifo :: "EM_fifo list"
  fifoSize :: u8
  fifoWrPtr :: u8
  fifoPpPtr :: u8
  fifoOverflow :: u8
  fifoCount :: u8
  producerEnabled :: bool
  em_nodeId :: u8
  em_CANtxBuff :: CANtx
  producerCanId :: u16
  inhibitEmTime_us :: u32
  inhibitEmTimer :: u32
  OD_1014_extended :: bool
  OD_1015_extended :: bool
  OD_1003_extended :: bool
  OD_statusBits_extended :: bool
  pFunctSignalRx :: bool

text \<open>
  The world of the object: the memory of the object dictionary's variables, the frames sent, and
  the calls of the consumer's callback (identifier, error code, error register, error bit,
  information code).
\<close>

record em = CO_EM +
  em_mem :: mem
  em_sent :: "can_frame list"
  em_signalled :: "(u16 \<times> u16 \<times> u8 \<times> u8 \<times> u32) list"

abbreviation (input) "CO_CAN_ID_EMERGENCY \<equiv> 0x80 :: u16"
abbreviation (input) "CO_EM_CAN_TX_BUS_OFF \<equiv> 0x12 :: u8"
abbreviation (input) "CO_EM_HEARTBEAT_CONSUMER \<equiv> 0x1B :: u8"
abbreviation (input) "CO_EM_HB_CONSUMER_REMOTE_RESET \<equiv> 0x1C :: u8"
abbreviation (input) "CO_EM_EMERGENCY_BUFFER_FULL \<equiv> 0x20 :: u8"
abbreviation (input) "CO_EM_WRONG_ERROR_REPORT \<equiv> 0x28 :: u8"
abbreviation (input) "CO_EMC_NO_ERROR \<equiv> 0x0000 :: u16"
abbreviation (input) "CO_EMC_GENERIC \<equiv> 0x1000 :: u16"
abbreviation (input) "CO_EMC_SOFTWARE_INTERNAL \<equiv> 0x6100 :: u16"

text \<open>\<open>CO_CONFIG_EM_ERR_STATUS_BITS_COUNT / 8\<close>\<close>

definition STATUS_BYTES :: nat where
  "STATUS_BYTES = 10"

section \<open>Error conditions\<close>

definition status_index :: "u8 \<Rightarrow> nat" where
  "status_index errorBit = unat (drop_bit 3 errorBit)"

definition status_mask :: "u8 \<Rightarrow> u8" where
  "status_mask errorBit = push_bit (unat (errorBit AND 0x7)) 1"

definition CO_isError :: "('a) CO_EM_scheme \<Rightarrow> u8 \<Rightarrow> bool" where
  "CO_isError em errorBit \<longleftrightarrow>
     status_index errorBit \<ge> STATUS_BYTES \<or>
     errorStatusBits em ! status_index errorBit AND status_mask errorBit \<noteq> 0"

definition CO_getErrorRegister :: "em \<Rightarrow> u8" where
  "CO_getErrorRegister em = (case errorRegister em of None \<Rightarrow> 0 | Some a \<Rightarrow> em_mem em a)"

text \<open>The message is appended to the circular buffer, or the overflow is noted.\<close>

definition em_fifo_put :: "em \<Rightarrow> u32 \<Rightarrow> u32 \<Rightarrow> em option" where
  "em_fifo_put em errMsg infoCode =
     (let nxt = fifoWrPtr em + 1; nxt = (if nxt \<ge> fifoSize em then 0 else nxt) in
      if nxt = fifoPpPtr em then Some (em\<lparr>fifoOverflow := 1\<rparr>)
      else do {
        f \<leftarrow> arr_set (em_fifo em) (unat (fifoWrPtr em)) \<lparr>em_msg = errMsg, em_info = infoCode\<rparr>;
        Some (em\<lparr>em_fifo := f, fifoWrPtr := nxt,
                 fifoCount := (if fifoCount em < fifoSize em - 1 then fifoCount em + 1 else fifoCount em)\<rparr>)
      })"

definition CO_error :: "em \<Rightarrow> bool \<Rightarrow> u8 \<Rightarrow> u16 \<Rightarrow> u32 \<Rightarrow> em option" where
  "CO_error em setError errorBit errorCode infoCode =
     (let (bit', code, info) =
        (if status_index errorBit \<ge> STATUS_BYTES
         then (CO_EM_WRONG_ERROR_REPORT, CO_EMC_SOFTWARE_INTERNAL, ucast errorBit)
         else (errorBit, errorCode, infoCode))
      in do {
        b \<leftarrow> arr_get (errorStatusBits em) (status_index bit');
        if setError = (b AND status_mask bit' \<noteq> 0) then Some em
        else do {
          let code = (if setError then code else CO_EMC_NO_ERROR);
          let errMsg = push_bit 24 (ucast errorBit) OR ucast code;
          bits \<leftarrow> arr_set (errorStatusBits em) (status_index bit')
            (if setError then b OR status_mask bit' else b AND NOT (status_mask bit'));
          let em = em\<lparr>errorStatusBits := bits\<rparr>;
          if fifoSize em \<ge> 2 then em_fifo_put em errMsg info else Some em
        }
      })"

definition CO_errorReport :: "em \<Rightarrow> u8 \<Rightarrow> u16 \<Rightarrow> u32 \<Rightarrow> em option" where
  "CO_errorReport em errorBit errorCode infoCode = CO_error em True errorBit errorCode infoCode"

definition CO_errorReset :: "em \<Rightarrow> u8 \<Rightarrow> u32 \<Rightarrow> em option" where
  "CO_errorReset em errorBit infoCode = CO_error em False errorBit CO_EMC_NO_ERROR infoCode"

section \<open>Cyclic processing\<close>

text \<open>
  The error states of the CAN driver: bits of \<open>CANerrorStatus\<close>, with the error condition and the
  error code that report them.
\<close>

definition can_error_table :: "(u16 \<times> u8 \<times> u16) list" where
  "can_error_table =
     [(0x0101, 0x01, 0x0000), (0x0002, 0x07, 0x8120), (0x0004, 0x12, 0x8140), (0x0008, 0x14, 0x8110),
      (0x0080, 0x15, 0x8100), (0x0200, 0x06, 0x8120), (0x0800, 0x13, 0x8110)]"

fun report_can_errors :: "u16 \<Rightarrow> u16 \<Rightarrow> (u16 \<times> u8 \<times> u16) list \<Rightarrow> em \<Rightarrow> em option" where
  "report_can_errors changed st [] em = Some em"
| "report_can_errors changed st ((msk, errorBit, code) # rest) em = do {
     em \<leftarrow> (if changed AND msk \<noteq> 0 then CO_error em (st AND msk \<noteq> 0) errorBit code 0 else Some em);
     report_can_errors changed st rest em
   }"

definition em_driver_errors :: "em \<Rightarrow> em option" where
  "em_driver_errors em =
     (let st = CANerrorStatus em; old = CANerrorStatusOld em in
      if st \<noteq> old then report_can_errors (st XOR old) st can_error_table (em\<lparr>CANerrorStatusOld := st\<rparr>)
      else Some em)"

text \<open>The conditions \<open>CO_CONFIG_ERR_CONDITION_...\<close> of the default configuration.\<close>

definition calc_errorRegister :: "u8 list \<Rightarrow> u8" where
  "calc_errorRegister bits =
     (if bits ! 5 \<noteq> 0 then 0x01 else 0) OR
     (if bits ! 2 \<noteq> 0 \<or> bits ! 3 \<noteq> 0 then 0x10 else 0) OR
     (if bits ! 8 \<noteq> 0 \<or> bits ! 9 \<noteq> 0 then 0x80 else 0)"

definition set_errorRegister :: "em \<Rightarrow> u8 \<Rightarrow> em option" where
  "set_errorRegister em r =
     (case errorRegister em of None \<Rightarrow> None | Some a \<Rightarrow> Some (em\<lparr>em_mem := (em_mem em)(a := r)\<rparr>))"

text \<open>The oldest queued message is completed and sent.\<close>

definition em_send :: "em \<Rightarrow> u8 \<Rightarrow> em option" where
  "em_send em reg = do {
     let pp = fifoPpPtr em;
     e \<leftarrow> arr_get (em_fifo em) (unat pp);
     let msg = em_msg e OR push_bit 16 (ucast reg);
     f \<leftarrow> arr_set (em_fifo em) (unat pp) (e\<lparr>em_msg := msg\<rparr>);
     let tx = (em_CANtxBuff em)\<lparr>tx_data := le_bytes 4 msg @ le_bytes 4 (em_info e)\<rparr>;
     let em = em\<lparr>em_fifo := f, em_CANtxBuff := tx, em_sent := em_sent em @ [tx_frame tx]\<rparr>;
     let em = (if pFunctSignalRx em
               then em\<lparr>em_signalled := em_signalled em @ [(0, ucast msg, reg, ucast (drop_bit 24 msg), em_info e)]\<rparr>
               else em);
     Some (em\<lparr>fifoPpPtr := (if pp + 1 < fifoSize em then pp + 1 else 0)\<rparr>)
   }"

definition em_overflow :: "em \<Rightarrow> em option" where
  "em_overflow em =
     (if fifoOverflow em = 1
      then CO_errorReport (em\<lparr>fifoOverflow := 2\<rparr>) CO_EM_EMERGENCY_BUFFER_FULL CO_EMC_GENERIC 0
      else if fifoOverflow em = 2 \<and> fifoPpPtr em = fifoWrPtr em
      then CO_errorReset (em\<lparr>fifoOverflow := 0\<rparr>) CO_EM_EMERGENCY_BUFFER_FULL 0
      else Some em)"

definition em_post_process :: "em \<Rightarrow> u8 \<Rightarrow> u32 \<Rightarrow> u32 option \<Rightarrow> (em \<times> u32 option) option" where
  "em_post_process em reg td timerNext =
     (if fifoSize em \<ge> 2 then
        let em = (if inhibitEmTimer em < inhibitEmTime_us em
                  then em\<lparr>inhibitEmTimer := inhibitEmTimer em + td\<rparr> else em) in
        if \<not> tx_bufferFull (em_CANtxBuff em) \<and> fifoPpPtr em \<noteq> fifoWrPtr em \<and>
           inhibitEmTimer em \<ge> inhibitEmTime_us em
        then do {
          em \<leftarrow> em_send (em\<lparr>inhibitEmTimer := 0\<rparr>) reg;
          em \<leftarrow> em_overflow em;
          Some (em, timerNext)
        }
        else if inhibitEmTimer em < inhibitEmTime_us em
        then Some (em, map_option (min (inhibitEmTime_us em - inhibitEmTimer em)) timerNext)
        else Some (em, timerNext)
      else Some (em, timerNext))"

definition CO_EM_process :: "em \<Rightarrow> bool \<Rightarrow> u32 \<Rightarrow> u32 option \<Rightarrow> (em \<times> u32 option) option" where
  "CO_EM_process em NMTisPreOrOperational td timerNext = do {
     em \<leftarrow> em_driver_errors em;
     let reg = calc_errorRegister (errorStatusBits em);
     em \<leftarrow> set_errorRegister em reg;
     if NMTisPreOrOperational then em_post_process em reg td timerNext else Some (em, timerNext)
   }"

section \<open>Object dictionary access\<close>

definition em_canId :: "em \<Rightarrow> u16" where
  "em_canId em =
     (if producerCanId em = CO_CAN_ID_EMERGENCY then CO_CAN_ID_EMERGENCY + ucast (em_nodeId em)
      else producerCanId em)"

text \<open>
  The access functions installed by \<open>CO_EM_init\<close>. A read function returns the bytes copied into
  the caller's buffer, whose size is \<open>count\<close>.
\<close>

definition OD_read_1014 :: "em \<Rightarrow> OD_stream \<Rightarrow> u32 \<Rightarrow> ODR \<times> u8 list" where
  "OD_read_1014 em st count =
     (if stream_subIndex st \<noteq> 0 \<or> count < 4 then (ODR_DEV_INCOMPAT, [])
      else (ODR_OK, le_bytes 4 ((if producerEnabled em then 0 else 0x80000000) OR ucast (em_canId em) :: u32)))"

definition OD_write_1014 :: "em \<Rightarrow> OD_stream \<Rightarrow> u8 list \<Rightarrow> ODR \<times> OD_stream \<times> u32 \<times> em" where
  "OD_write_1014 em st b =
     (if stream_subIndex st \<noteq> 0 \<or> length b \<noteq> 4 then (ODR_DEV_INCOMPAT, st, 0, em)
      else
        let cob = le_word b :: u32; newCanId = ucast (cob AND 0x7FF) :: u16;
            newEnabled = (cob AND 0x80000000 = 0 \<and> newCanId \<noteq> 0) in
        if cob AND 0x7FFFF800 \<noteq> 0 \<or> CO_IS_RESTRICTED_CAN_ID newCanId \<or>
           (producerEnabled em \<and> newEnabled \<and> newCanId \<noteq> em_canId em)
        then (ODR_INVALID_VALUE, st, 0, em)
        else
          let em = em\<lparr>producerEnabled := newEnabled,
                      producerCanId := (if newCanId = CO_CAN_ID_EMERGENCY + ucast (em_nodeId em)
                                        then CO_CAN_ID_EMERGENCY else newCanId)\<rparr>;
              em = (if newEnabled
                    then em\<lparr>em_CANtxBuff := CO_CANtxBufferInit newCanId 8 (em_CANtxBuff em)\<rparr> else em);
              (r, st', k, m) = OD_writeOriginal st b (em_mem em)
          in (r, st', k, em\<lparr>em_mem := m\<rparr>))"

definition OD_write_1015 :: "em \<Rightarrow> OD_stream \<Rightarrow> u8 list \<Rightarrow> ODR \<times> OD_stream \<times> u32 \<times> em" where
  "OD_write_1015 em st b =
     (if stream_subIndex st \<noteq> 0 \<or> length b \<noteq> 2 then (ODR_DEV_INCOMPAT, st, 0, em)
      else
        let em = em\<lparr>inhibitEmTime_us := ucast (le_word b :: u16) * 100, inhibitEmTimer := 0\<rparr>;
            (r, st', k, m) = OD_writeOriginal st b (em_mem em)
        in (r, st', k, em\<lparr>em_mem := m\<rparr>))"

definition OD_read_1003 :: "em \<Rightarrow> OD_stream \<Rightarrow> u32 \<Rightarrow> (ODR \<times> u8 list) option" where
  "OD_read_1003 em st count =
     (let sub = stream_subIndex st in
      if (count < 4 \<and> sub > 0) \<or> count < 1 \<or> fifoSize em < 2 then Some (ODR_DEV_INCOMPAT, [])
      else if sub = 0 then Some (ODR_OK, [fifoCount em])
      else if sub \<le> fifoCount em then
        let index = int (unat (fifoWrPtr em)) - int (unat sub);
            index' = (if index < 0 then index + int (unat (fifoSize em)) else index) in
        if \<not> index < 0 \<and> index \<ge> int (unat (fifoSize em)) then Some (ODR_DEV_INCOMPAT, [])
        else if index' < 0 then None
        else do { e \<leftarrow> arr_get (em_fifo em) (nat index'); Some (ODR_OK, le_bytes 4 (em_msg e)) }
      else Some (ODR_NO_DATA, []))"

definition OD_write_1003 :: "em \<Rightarrow> OD_stream \<Rightarrow> u8 list \<Rightarrow> ODR \<times> u32 \<times> em" where
  "OD_write_1003 em st b =
     (if stream_subIndex st \<noteq> 0 \<or> length b \<noteq> 1 then (ODR_DEV_INCOMPAT, 0, em)
      else if b ! 0 \<noteq> 0 then (ODR_INVALID_VALUE, 0, em)
      else (ODR_OK, 1, em\<lparr>fifoCount := 0\<rparr>))"

definition statusBits_count :: "OD_stream \<Rightarrow> u32 \<Rightarrow> u32 \<times> OD_stream" where
  "statusBits_count st count =
     (let n = min (word_of_nat STATUS_BYTES) count in
      if dataLength st \<noteq> 0 \<and> n > dataLength st then (dataLength st, st) else (n, st\<lparr>dataLength := n\<rparr>))"

definition OD_read_statusBits :: "em \<Rightarrow> OD_stream \<Rightarrow> u32 \<Rightarrow> (ODR \<times> OD_stream \<times> u8 list) option" where
  "OD_read_statusBits em st count =
     (if stream_subIndex st \<noteq> 0 then Some (ODR_DEV_INCOMPAT, st, [])
      else let (n, st) = statusBits_count st count in
        do { bs \<leftarrow> buf_read (errorStatusBits em) 0 (unat n); Some (ODR_OK, st, bs) })"

definition OD_write_statusBits :: "em \<Rightarrow> OD_stream \<Rightarrow> u8 list \<Rightarrow> (ODR \<times> OD_stream \<times> u32 \<times> em) option" where
  "OD_write_statusBits em st b =
     (if stream_subIndex st \<noteq> 0 then Some (ODR_DEV_INCOMPAT, st, 0, em)
      else let (n, st) = statusBits_count st (word_of_nat (length b)) in
        do { bits \<leftarrow> buf_write (errorStatusBits em) 0 (take (unat n) b);
             Some (ODR_OK, st, n, em\<lparr>errorStatusBits := bits\<rparr>) })"

section \<open>Reception\<close>

definition CO_EM_receive :: "em \<Rightarrow> u16 \<Rightarrow> u8 list \<Rightarrow> em" where
  "CO_EM_receive em ident data =
     (if pFunctSignalRx em \<and> ident \<noteq> 0x80 then
        em\<lparr>em_signalled := em_signalled em @
          [(ident, le_word (take 2 data), data ! 2, data ! 3, le_word (take 4 (drop 4 data)))]\<rparr>
      else em)"

definition CO_EM_initCallbackRx :: "em \<Rightarrow> bool \<Rightarrow> em" where
  "CO_EM_initCallbackRx em f = em\<lparr>pFunctSignalRx := f\<rparr>"

section \<open>Initialisation\<close>

definition em_zero :: "CANtx \<Rightarrow> u16 \<Rightarrow> mem \<Rightarrow> em" where
  "em_zero tx st m =
     \<lparr>errorStatusBits = replicate STATUS_BYTES 0, errorRegister = None, CANerrorStatusOld = 0,
      CANerrorStatus = st, em_fifo = [], fifoSize = 0, fifoWrPtr = 0, fifoPpPtr = 0, fifoOverflow = 0,
      fifoCount = 0, producerEnabled = False, em_nodeId = 0, em_CANtxBuff = tx, producerCanId = 0,
      inhibitEmTime_us = 0, inhibitEmTimer = 0, OD_1014_extended = False, OD_1015_extended = False,
      OD_1003_extended = False, OD_statusBits_extended = False, pFunctSignalRx = False,
      em_mem = m, em_sent = [], em_signalled = []\<rparr>"

text \<open>
  \<open>CO_EM_init\<close>: the entries of the object dictionary, the buffer (if any), the result of the
  driver's \<open>CO_CANrxBufferInit\<close>, whether \<open>CO_CANtxBufferInit\<close> returned a buffer (\<open>tx\<close> is the
  driver's, \<open>st\<close> its error status) and the memory are arguments. It also returns \<open>errInfo\<close> where
  it is written. \<open>OD_extension_init\<close> fails only without entry. The second half starts after the
  error register is set.
\<close>

definition em_init_producer ::
    "CO_ReturnError \<Rightarrow> bool \<Rightarrow> em \<Rightarrow> OD_entry option \<Rightarrow> OD_entry option \<Rightarrow> OD_entry option \<Rightarrow> u8 \<Rightarrow>
     CO_ReturnError \<times> u32 option \<times> em" where
  "em_init_producer rxRet txOk em e1014 e1015 eStatus node =
     (let (odRet, cob, m) = OD_get_u32 e1014 0 True (em_mem em);
          em = em\<lparr>em_mem := m\<rparr>;
          errInfo = (if odRet \<noteq> ODR_OK \<or> cob AND 0x7FFFF800 \<noteq> 0 then Some (ucast (OD_getIndex e1014)) else None)
      in if odRet \<noteq> ODR_OK then (CO_ERROR_OD_PARAMETERS, errInfo, em)
      else
        let canId = ucast (cob AND 0x7FF) :: u16;
            em = em\<lparr>producerEnabled := (cob AND 0x80000000 = 0 \<and> canId \<noteq> 0), OD_1014_extended := True,
                    producerCanId := canId\<rparr>;
            canId = (if canId = CO_CAN_ID_EMERGENCY then canId + ucast node else canId);
            em = em\<lparr>em_nodeId := node\<rparr>
        in if \<not> txOk then (CO_ERROR_ILLEGAL_ARGUMENT, errInfo, em)
        else
          let em = em\<lparr>em_CANtxBuff := CO_CANtxBufferInit canId 8 (em_CANtxBuff em),
                      inhibitEmTime_us := 0, inhibitEmTimer := 0\<rparr>;
              (odRet, inh, m) = OD_get_u16 e1015 0 True (em_mem em);
              em = em\<lparr>em_mem := m\<rparr>;
              em = (if odRet = ODR_OK
                    then em\<lparr>inhibitEmTime_us := ucast inh * 100, OD_1015_extended := True\<rparr> else em)
          in (rxRet, errInfo,
              em\<lparr>OD_1003_extended := True, OD_statusBits_extended := (eStatus \<noteq> None), pFunctSignalRx := False\<rparr>))"

definition CO_EM_init ::
    "CO_ReturnError \<Rightarrow> bool \<Rightarrow> CANtx \<Rightarrow> u16 \<Rightarrow> mem \<Rightarrow> em \<Rightarrow> OD_entry option \<Rightarrow> EM_fifo list option \<Rightarrow> u8 \<Rightarrow>
     OD_entry option \<Rightarrow> OD_entry option \<Rightarrow> OD_entry option \<Rightarrow> OD_entry option \<Rightarrow> u8 \<Rightarrow>
     CO_ReturnError \<times> u32 option \<times> em" where
  "CO_EM_init rxRet txOk tx st m em e1001 fifo fsize e1014 e1015 e1003 eStatus node =
     (if e1001 = None \<or> (fifo = None \<and> fsize \<ge> 2) \<or> e1014 = None \<or> node < 1 \<or> node > 127 \<or> e1003 = None
      then (CO_ERROR_ILLEGAL_ARGUMENT, None, em)
      else
        let em = em_zero tx st m in
        case snd (OD_getPtr e1001 0 1) of
          None \<Rightarrow> (CO_ERROR_OD_PARAMETERS, Some (ucast (OD_getIndex e1001)), em)
        | Some a \<Rightarrow>
            em_init_producer rxRet txOk
              (em\<lparr>errorRegister := Some a, em_mem := (em_mem em)(a := 0),
                  em_fifo := (case fifo of Some f \<Rightarrow> f | None \<Rightarrow> []), fifoSize := fsize\<rparr>)
              e1014 e1015 eStatus node)"

section \<open>Invariant\<close>

text \<open>The pointers of the message buffer are inside it, and the history is not longer than it.\<close>

definition em_fifo_ok :: "em \<Rightarrow> bool" where
  "em_fifo_ok em \<longleftrightarrow> length (em_fifo em) = unat (fifoSize em) \<and> fifoWrPtr em < fifoSize em \<and>
     fifoPpPtr em < fifoSize em \<and> fifoCount em < fifoSize em"

definition em_inv :: "em \<Rightarrow> bool" where
  "em_inv em \<longleftrightarrow> length (errorStatusBits em) = STATUS_BYTES \<and> errorRegister em \<noteq> None \<and>
     tx_DLC (em_CANtxBuff em) = 8 \<and> (fifoSize em \<ge> 2 \<longrightarrow> em_fifo_ok em)"

lemma u8_next:
  fixes p n :: u8
  assumes "p < n"
  shows "unat (if p + 1 \<ge> n then 0 else p + 1) = ring_next (unat n) (unat p)"
    and "(if p + 1 < n then p + 1 else 0) = (if p + 1 \<ge> n then 0 else p + 1)"
proof -
  have "unat (p + 1) = unat p + 1"
    using assms unat_u8_less [of n] by (subst unat_plus_small) (simp_all add: word_less_nat_alt)
  then show "unat (if p + 1 \<ge> n then 0 else p + 1) = ring_next (unat n) (unat p)"
    using assms by (auto simp: ring_next_def word_le_nat_alt word_less_nat_alt)
qed (auto simp: not_less)

definition u8_succ :: "u8 \<Rightarrow> u8 \<Rightarrow> u8" where
  "u8_succ n p = (if p + 1 \<ge> n then 0 else p + 1)"

lemma unat_u8_succ: "p < n \<Longrightarrow> unat (u8_succ n p) = ring_next (unat n) (unat p)"
  by (simp only: u8_succ_def u8_next)

lemma u8_succ_less: "p < n \<Longrightarrow> u8_succ n p < n"
  using unat_u8_succ [of p n] ring_next_less [of "unat p" "unat n"] by (simp add: word_less_nat_alt)

section \<open>The queue of messages and the history\<close>

abbreviation fsize :: "em \<Rightarrow> nat" where
  "fsize em \<equiv> unat (fifoSize em)"

text \<open>The messages not yet sent, oldest first.\<close>

definition pending :: "em \<Rightarrow> EM_fifo list" where
  "pending em = ring_cells (fsize em) (em_fifo em) (unat (fifoPpPtr em))
     (ring_dist (fsize em) (unat (fifoPpPtr em)) (unat (fifoWrPtr em)))"

text \<open>The messages that the object dictionary shows as history, newest first.\<close>

definition history :: "em \<Rightarrow> u32 list" where
  "history em = map (\<lambda>k. em_msg (em_fifo em ! ((unat (fifoWrPtr em) + fsize em - k) mod fsize em)))
     [1..<unat (fifoCount em) + 1]"

definition put_msg :: "em \<Rightarrow> EM_fifo \<Rightarrow> em" where
  "put_msg em e = em\<lparr>em_fifo := (em_fifo em)[unat (fifoWrPtr em) := e],
     fifoWrPtr := u8_succ (fifoSize em) (fifoWrPtr em),
     fifoCount := (if fifoCount em < fifoSize em - 1 then fifoCount em + 1 else fifoCount em)\<rparr>"

lemma fifo_okD:
  assumes "em_fifo_ok em"
  shows "length (em_fifo em) = fsize em" "unat (fifoWrPtr em) < fsize em" "unat (fifoPpPtr em) < fsize em"
    "unat (fifoCount em) < fsize em"
  using assms by (simp_all add: em_fifo_ok_def word_less_nat_alt)

lemma length_pending: "em_fifo_ok em \<Longrightarrow> fifoSize em \<ge> 2 \<Longrightarrow> length (pending em) < fsize em"
  using ring_dist_bound fifo_okD by (simp add: pending_def)

lemma em_fifo_put_eq:
  assumes ok: "em_fifo_ok em" and n: "fifoSize em \<ge> 2"
  shows "em_fifo_put em m i = Some (if length (pending em) = fsize em - 1 then em\<lparr>fifoOverflow := 1\<rparr>
    else put_msg em \<lparr>em_msg = m, em_info = i\<rparr>)"
proof -
  note d = fifo_okD [OF ok]
  have "u8_succ (fifoSize em) (fifoWrPtr em) = fifoPpPtr em \<longleftrightarrow> length (pending em) = fsize em - 1"
    using ring_full [OF d(3,2)] n unat_u8_succ [of "fifoWrPtr em" "fifoSize em"] ok
    by (simp add: pending_def em_fifo_ok_def word_le_nat_alt word_unat_eq_iff)
  then show ?thesis using d
    by (simp add: em_fifo_put_def u8_succ_def [symmetric] put_msg_def Let_def)
qed

lemma put_msg_ok:
  assumes ok: "em_fifo_ok em" and n: "fifoSize em \<ge> 2"
  shows "em_fifo_ok (put_msg em e)"
proof -
  have "fifoCount em + 1 < fifoSize em" if "fifoCount em < fifoSize em - 1"
  proof -
    have "unat (fifoSize em - 1) = fsize em - 1" using n by (subst unat_minus_ge) (auto simp: word_le_nat_alt)
    moreover have "unat (fifoCount em + 1) = unat (fifoCount em) + 1"
      using that calculation unat_u8_less [of "fifoSize em"] by (subst unat_plus_small) (auto simp: word_less_nat_alt)
    ultimately show ?thesis using that by (simp add: word_less_nat_alt)
  qed
  then show ?thesis using ok by (auto simp: em_fifo_ok_def put_msg_def u8_succ_less)
qed

lemma pending_put_msg:
  assumes ok: "em_fifo_ok em" and n: "length (pending em) \<noteq> fsize em - 1" "fifoSize em \<ge> 2"
  shows "pending (put_msg em e) = pending em @ [e]"
proof -
  note d = fifo_okD [OF ok]
  have "ring_next (fsize em) (unat (fifoWrPtr em)) \<noteq> unat (fifoPpPtr em)"
    using ring_full [OF d(3,2)] n by (simp add: pending_def word_le_nat_alt)
  then show ?thesis
    using ring_dist_grow [OF d(3,2)] ring_cells_write_end [OF d(3,2,1)] unat_u8_succ ok
    by (simp add: pending_def put_msg_def em_fifo_ok_def)
qed

lemma ring_back:
  assumes "w < n" "i < n"
  shows "(ring_next n w + n - Suc i) mod n = (w + n - i) mod n"
    and "0 < i \<Longrightarrow> (w + n - i) mod n \<noteq> w" "(w + n) mod n = w"
proof -
  show "(ring_next n w + n - Suc i) mod n = (w + n - i) mod n"
  proof (cases "w + 1 = n")
    case True
    then have "w + n - i = n - Suc i + n" using assms by simp
    then have "(w + n - i) mod n = (n - Suc i) mod n" by (simp only: mod_add_self2)
    then show ?thesis using True by (simp add: ring_next_def)
  qed (simp add: ring_next_def)
  show "(w + n - i) mod n \<noteq> w" if "0 < i"
  proof (cases "i \<le> w")
    case True
    then have "w + n - i = w - i + n" by simp
    then show ?thesis using that assms True by (simp only: mod_add_self2) simp
  qed (use that assms in simp)
  show "(w + n) mod n = w" using assms by simp
qed

text \<open>A new message becomes the newest of the history; the oldest one may be dropped.\<close>

lemma history_put_msg:
  assumes ok: "em_fifo_ok em" and n: "fifoSize em \<ge> 2"
  shows "history (put_msg em e) = take (fsize em - 1) (em_msg e # history em)"
proof (rule nth_equalityI)
  note d = fifo_okD [OF ok]
  have n1: "unat (fifoSize em - 1) = fsize em - 1" using n by (subst unat_minus_ge) (auto simp: word_le_nat_alt)
  have c: "unat (fifoCount (put_msg em e)) = min (Suc (unat (fifoCount em))) (fsize em - 1)"
  proof (cases "fifoCount em < fifoSize em - 1")
    case True
    then have "unat (fifoCount em + 1) = unat (fifoCount em) + 1"
      using n1 unat_u8_less [of "fifoSize em"] by (subst unat_plus_small) (auto simp: word_less_nat_alt)
    then show ?thesis using True n1 by (simp add: put_msg_def word_less_nat_alt)
  qed (use n1 d(4) in \<open>simp add: put_msg_def word_less_nat_alt\<close>)
  then show l: "length (history (put_msg em e)) = length (take (fsize em - 1) (em_msg e # history em))"
    by (simp add: history_def min.commute del: upt_Suc)
  fix i assume "i < length (history (put_msg em e))"
  then have i: "i < Suc (unat (fifoCount em))" "i < fsize em - 1" using c by (simp_all add: history_def del: upt_Suc)
  have w: "unat (fifoWrPtr (put_msg em e)) = ring_next (fsize em) (unat (fifoWrPtr em))"
    using unat_u8_succ ok by (simp add: put_msg_def em_fifo_ok_def)
  have h: "history (put_msg em e) ! i =
      em_msg ((em_fifo em)[unat (fifoWrPtr em) := e] ! ((unat (fifoWrPtr em) + fsize em - i) mod fsize em))"
    using i c ring_back(1) [OF d(2), of i] unfolding history_def w by (simp add: put_msg_def del: upt_Suc)
  show "history (put_msg em e) ! i = take (fsize em - 1) (em_msg e # history em) ! i"
  proof (cases i)
    case 0
    then show ?thesis using h d i by simp
  next
    case (Suc j)
    then show ?thesis
      using h i ring_back(2) [OF d(2), of i] not_sym [OF ring_back(2) [OF d(2), of i]] by (simp add: history_def del: upt_Suc)
  qed
qed

section \<open>Error conditions as bits\<close>

lemma status_index_div: "status_index b = unat b div 8"
  by (simp add: status_index_def drop_bit_eq_div unat_div)

lemma and_exp_bit: "(x :: u8) AND 2 ^ k \<noteq> 0 \<longleftrightarrow> bit x k"
  by (simp add: and_exp_eq_0_iff_not_bit)

lemma status_mask_mod: "status_mask b = 2 ^ (unat b mod 8)"
proof -
  have "b AND 0x7 = b mod 8" using take_bit_eq_mask [of 3 b] by (simp add: mask_eq_exp_minus_1 take_bit_eq_mod)
  then show ?thesis by (simp add: status_mask_def unat_mod push_bit_eq_mult)
qed

lemma CO_isError_bit:
  "CO_isError em b \<longleftrightarrow> 80 \<le> unat b \<or> bit (errorStatusBits em ! (unat b div 8)) (unat b mod 8)"
proof -
  have "10 \<le> unat b div 8 \<longleftrightarrow> 80 \<le> unat b" by auto
  then show ?thesis unfolding CO_isError_def status_index_div status_mask_mod and_exp_bit STATUS_BYTES_def by simp
qed

text \<open>The condition that a call concerns: unknown ones are reported as a wrong report.\<close>

definition err_bit :: "u8 \<Rightarrow> u8" where
  "err_bit b = (if 80 \<le> unat b then CO_EM_WRONG_ERROR_REPORT else b)"

definition set_status :: "u8 list \<Rightarrow> u8 \<Rightarrow> bool \<Rightarrow> u8 list" where
  "set_status bits b v = bits[unat b div 8 :=
     (if v then bits ! (unat b div 8) OR 2 ^ (unat b mod 8) else bits ! (unat b div 8) AND NOT (2 ^ (unat b mod 8)))]"

definition queue_msg :: "em \<Rightarrow> EM_fifo \<Rightarrow> em" where
  "queue_msg em e = (if fifoSize em \<ge> 2 then
     if length (pending em) = fsize em - 1 then em\<lparr>fifoOverflow := 1\<rparr> else put_msg em e else em)"

definition error_msg :: "bool \<Rightarrow> u8 \<Rightarrow> u16 \<Rightarrow> u32 \<Rightarrow> EM_fifo" where
  "error_msg v b code info =
     \<lparr>em_msg = push_bit 24 (ucast b) OR
        ucast (if v then if 80 \<le> unat b then CO_EMC_SOFTWARE_INTERNAL else code else CO_EMC_NO_ERROR),
      em_info = (if 80 \<le> unat b then ucast b else info)\<rparr>"

definition error_result :: "em \<Rightarrow> bool \<Rightarrow> u8 \<Rightarrow> u16 \<Rightarrow> u32 \<Rightarrow> em" where
  "error_result em v b code info = (if v = CO_isError em (err_bit b) then em
    else queue_msg (em\<lparr>errorStatusBits := set_status (errorStatusBits em) (err_bit b) v\<rparr>) (error_msg v b code info))"

lemma error_result_cases:
  assumes "v = CO_isError em (err_bit b) \<Longrightarrow> P em"
    and "P (queue_msg (em\<lparr>errorStatusBits := set_status (errorStatusBits em) (err_bit b) v\<rparr>) (error_msg v b code info))"
  shows "P (error_result em v b code info)"
  using assms by (simp only: error_result_def split: if_split) blast

lemma err_bit_less: "unat (err_bit b) < 80"
  by (simp add: err_bit_def)

lemma length_set_status [simp]: "length (set_status bits b v) = length bits"
  by (simp add: set_status_def)

lemma pending_status [simp]:
  "pending (em\<lparr>errorStatusBits := x\<rparr>) = pending em" "history (em\<lparr>errorStatusBits := x\<rparr>) = history em"
  by (simp_all add: pending_def history_def)

lemma CO_error_eq:
  assumes "em_inv em"
  shows "CO_error em v b code info = Some (error_result em v b code info)"
proof -
  let ?b = "err_bit b" and ?bits = "errorStatusBits em"
  have len: "unat ?b div 8 < length ?bits"
    using assms err_bit_less [of b] by (simp add: em_inv_def STATUS_BYTES_def)
  have cut: "STATUS_BYTES \<le> status_index b \<longleftrightarrow> 80 \<le> unat b"
    by (auto simp: status_index_div STATUS_BYTES_def)
  let ?em = "em\<lparr>errorStatusBits := set_status ?bits ?b v\<rparr>"
  have put: "(if fifoSize ?em \<ge> 2 then em_fifo_put ?em m i else Some ?em) =
      Some (queue_msg ?em \<lparr>em_msg = m, em_info = i\<rparr>)" for m i
    using em_fifo_put_eq [of ?em m i] assms by (simp add: queue_msg_def em_inv_def em_fifo_ok_def)
  have st: "(?bits ! (unat ?b div 8) AND 2 ^ (unat ?b mod 8) \<noteq> 0) = CO_isError em ?b"
    unfolding CO_isError_bit and_exp_bit using err_bit_less [of b] by simp
  have "CO_error em v b code info =
      (if v = CO_isError em ?b then Some em
       else if fifoSize ?em \<ge> 2 then em_fifo_put ?em (em_msg (error_msg v b code info)) (em_info (error_msg v b code info))
       else Some ?em)"
    using len unfolding CO_error_def cut st [symmetric]
    by (cases "80 \<le> unat b")
      (simp_all add: Let_def status_index_div status_mask_mod set_status_def err_bit_def error_msg_def)
  then show ?thesis unfolding put by (simp add: error_msg_def error_result_def)
qed

lemma CO_errorReport_eq: "em_inv em \<Longrightarrow> CO_errorReport em b c i = Some (error_result em True b c i)"
  by (simp add: CO_errorReport_def CO_error_eq)

lemma CO_errorReset_eq: "em_inv em \<Longrightarrow> CO_errorReset em b i = Some (error_result em False b CO_EMC_NO_ERROR i)"
  by (simp add: CO_errorReset_def CO_error_eq)

lemma bit_set_status:
  assumes "length bits = STATUS_BYTES" "unat b < 80" "unat b' < 80"
  shows "bit (set_status bits b v ! (unat b' div 8)) (unat b' mod 8) \<longleftrightarrow>
    (if b' = b then v else bit (bits ! (unat b' div 8)) (unat b' mod 8))"
proof (cases "unat b' div 8 = unat b div 8")
  case True
  have "b' = b \<longleftrightarrow> unat b' mod 8 = unat b mod 8"
    using True by (metis div_mult_mod_eq word_unat_eq_iff)
  moreover have "unat b div 8 < length bits" "unat b' mod 8 < 8" using assms by (simp_all add: STATUS_BYTES_def)
  ultimately show ?thesis using True
    by (auto simp: set_status_def bit_or_iff bit_and_iff bit_not_iff bit_exp_iff)
qed (auto simp: set_status_def)

lemma queue_msg_fields [simp]:
  "errorStatusBits (queue_msg em e) = errorStatusBits em" "errorRegister (queue_msg em e) = errorRegister em"
  "em_sent (queue_msg em e) = em_sent em" "em_mem (queue_msg em e) = em_mem em"
  "em_CANtxBuff (queue_msg em e) = em_CANtxBuff em" "fifoSize (queue_msg em e) = fifoSize em"
  "fifoPpPtr (queue_msg em e) = fifoPpPtr em" "inhibitEmTime_us (queue_msg em e) = inhibitEmTime_us em"
  "inhibitEmTimer (queue_msg em e) = inhibitEmTimer em" "pFunctSignalRx (queue_msg em e) = pFunctSignalRx em"
  "CANerrorStatus (queue_msg em e) = CANerrorStatus em" "CANerrorStatusOld (queue_msg em e) = CANerrorStatusOld em"
  by (simp_all add: queue_msg_def put_msg_def)

lemma queue_msg_inv:
  assumes "em_inv em"
  shows "em_inv (queue_msg em e)"
proof -
  have "em_fifo_ok (em\<lparr>fifoOverflow := x\<rparr>) = em_fifo_ok em" for x by (simp add: em_fifo_ok_def)
  then have "fifoSize em \<ge> 2 \<longrightarrow> em_fifo_ok (queue_msg em e)"
    using assms put_msg_ok [of em e] by (simp add: em_inv_def queue_msg_def)
  then show ?thesis using assms by (simp add: em_inv_def)
qed

lemma em_inv_status: "em_inv em \<Longrightarrow> length x = STATUS_BYTES \<Longrightarrow> em_inv (em\<lparr>errorStatusBits := x\<rparr>)"
  by (simp add: em_inv_def em_fifo_ok_def)

lemma pending_queue_msg:
  assumes "em_inv em"
  shows "pending (queue_msg em e) = pending em \<or> pending (queue_msg em e) = pending em @ [e]"
proof (cases "fifoSize em \<ge> 2 \<and> length (pending em) \<noteq> fsize em - 1")
  case True
  then show ?thesis using pending_put_msg [of em e] assms by (simp add: queue_msg_def em_inv_def)
next
  case False
  have "pending (em\<lparr>fifoOverflow := x\<rparr>) = pending em" for x by (simp add: pending_def)
  then show ?thesis using False by (auto simp: queue_msg_def)
qed

lemma error_result_inv: "em_inv em \<Longrightarrow> em_inv (error_result em v b code info)"
  by (rule error_result_cases) (simp_all add: queue_msg_inv em_inv_status em_inv_def [THEN iffD1])

lemma CO_error_inv: "em_inv em \<Longrightarrow> wp (CO_error em v b code info) em_inv"
  by (simp add: CO_error_eq error_result_inv)

lemma error_result_isError:
  assumes "em_inv em" "unat b' < 80"
  shows "CO_isError (error_result em v b code info) b' = (if b' = err_bit b then v else CO_isError em b')"
  using assms bit_set_status [of "errorStatusBits em" "err_bit b" b' v] err_bit_less [of b]
  by (intro error_result_cases [where P = "\<lambda>e. CO_isError e b' = (if b' = err_bit b then v else CO_isError em b')"])
    (simp_all add: CO_isError_bit em_inv_def)

text \<open>
  C24: An error condition is set by a report and cleared by a reset, and every other condition
  stays as it is; conditions that the status bits have no room for are reported as the condition
  "wrong error report".
\<close>

theorem CO_error_condition:
  assumes "em_inv em" "unat b' < 80"
  shows "\<exists>em'. CO_error em v b code info = Some em' \<and> em_inv em' \<and>
    CO_isError em' b' = (if b' = (if 80 \<le> unat b then CO_EM_WRONG_ERROR_REPORT else b) then v else CO_isError em b')"
  using error_result_isError [OF assms] CO_error_eq [OF assms(1)] error_result_inv [OF assms(1)]
  by (simp add: err_bit_def)

section \<open>Sending\<close>

text \<open>The oldest pending message, completed with the error register, as a frame.\<close>

definition complete_msg :: "u8 \<Rightarrow> EM_fifo \<Rightarrow> EM_fifo" where
  "complete_msg reg e = e\<lparr>em_msg := em_msg e OR push_bit 16 (ucast reg)\<rparr>"

definition msg_data :: "EM_fifo \<Rightarrow> u8 list" where
  "msg_data e = le_bytes 4 (em_msg e) @ le_bytes 4 (em_info e)"

definition sent_em :: "em \<Rightarrow> u8 \<Rightarrow> em" where
  "sent_em em reg =
     (let p = unat (fifoPpPtr em); e = complete_msg reg (em_fifo em ! p);
          em1 = em\<lparr>em_fifo := (em_fifo em)[p := e], em_CANtxBuff := (em_CANtxBuff em)\<lparr>tx_data := msg_data e\<rparr>,
                   em_sent := em_sent em @ [(tx_ident (em_CANtxBuff em), msg_data e)]\<rparr>;
          em2 = (if pFunctSignalRx em
                 then em1\<lparr>em_signalled := em_signalled em1 @
                        [(0, ucast (em_msg e), reg, ucast (drop_bit 24 (em_msg e)), em_info e)]\<rparr>
                 else em1)
      in em2\<lparr>fifoPpPtr := u8_succ (fifoSize em) (fifoPpPtr em)\<rparr>)"

lemma em_send_eq:
  assumes "em_inv em" "em_fifo_ok em"
  shows "em_send em reg = Some (sent_em em reg)"
proof -
  have pp: "(if fifoPpPtr em + 1 < fifoSize em then fifoPpPtr em + 1 else 0) = u8_succ (fifoSize em) (fifoPpPtr em)"
    using u8_next(2) assms by (simp add: u8_succ_def em_fifo_ok_def)
  have fr: "tx_frame ((em_CANtxBuff em)\<lparr>tx_data := msg_data e\<rparr>) = (tx_ident (em_CANtxBuff em), msg_data e)" for e
    using assms by (simp add: tx_frame_def em_inv_def msg_data_def)
  show ?thesis
    using fifo_okD(1,3) [OF assms(2)] unfolding em_send_def sent_em_def fr [symmetric] pp [symmetric]
    by (simp add: Let_def complete_msg_def msg_data_def)
qed

lemma sent_em_fields [simp]:
  "errorStatusBits (sent_em em reg) = errorStatusBits em" "errorRegister (sent_em em reg) = errorRegister em"
  "em_mem (sent_em em reg) = em_mem em" "fifoSize (sent_em em reg) = fifoSize em"
  "fifoWrPtr (sent_em em reg) = fifoWrPtr em" "fifoCount (sent_em em reg) = fifoCount em"
  "fifoOverflow (sent_em em reg) = fifoOverflow em" "inhibitEmTime_us (sent_em em reg) = inhibitEmTime_us em"
  "inhibitEmTimer (sent_em em reg) = inhibitEmTimer em"
  "fifoPpPtr (sent_em em reg) = u8_succ (fifoSize em) (fifoPpPtr em)"
  "em_fifo (sent_em em reg) = (em_fifo em)[unat (fifoPpPtr em) := complete_msg reg (em_fifo em ! unat (fifoPpPtr em))]"
  "tx_DLC (em_CANtxBuff (sent_em em reg)) = tx_DLC (em_CANtxBuff em)"
  "tx_bufferFull (em_CANtxBuff (sent_em em reg)) = tx_bufferFull (em_CANtxBuff em)"
  by (simp_all add: sent_em_def Let_def)

lemma sent_em_inv: "em_inv em \<Longrightarrow> em_fifo_ok em \<Longrightarrow> em_inv (sent_em em reg)"
  by (simp add: em_inv_def em_fifo_ok_def u8_succ_less)

text \<open>Completing the first message of the ring does not touch the others.\<close>

lemma ring_tail_update:
  assumes "p < n" "w < n" "p \<noteq> w" "2 \<le> n"
  shows "ring_cells n (xs[p := v]) (ring_next n p) (ring_dist n (ring_next n p) w) =
    ring_cells n xs (ring_next n p) (ring_dist n (ring_next n p) w)"
proof -
  have "ring_dist n (ring_next n p) p = n - 1"
    using ring_full [OF ring_next_less [OF assms(1)] assms(1,4)] by simp
  moreover have "ring_dist n (ring_next n p) w < n - 1"
    using ring_dist_next [OF assms(1,2,3)] ring_dist_bound [OF assms(1,2)] by simp
  ultimately have "p \<noteq> (ring_next n p + i) mod n" if "i < ring_dist n (ring_next n p) w" for i
    using not_sym [OF ring_cell_neq [OF ring_next_less [OF assms(1)] assms(1), of i]] that by simp
  then show ?thesis by (simp add: ring_cells_def)
qed

lemma pending_sent:
  assumes ok: "em_fifo_ok em" and n: "fifoSize em \<ge> 2" "fifoPpPtr em \<noteq> fifoWrPtr em"
  shows "pending em = em_fifo em ! unat (fifoPpPtr em) # pending (sent_em em reg)"
proof -
  note d = fifo_okD [OF ok]
  have pw: "unat (fifoPpPtr em) \<noteq> unat (fifoWrPtr em)" using n(2) by (simp add: word_unat_eq_iff)
  have n2: "2 \<le> fsize em" using n by (simp add: word_le_nat_alt)
  have "unat (u8_succ (fifoSize em) (fifoPpPtr em)) = ring_next (fsize em) (unat (fifoPpPtr em))"
    using unat_u8_succ ok by (simp add: em_fifo_ok_def)
  then show ?thesis using ring_dist_next [OF d(3,2) pw]
    by (simp add: pending_def ring_cells_Suc [OF d(3)] ring_tail_update [OF d(3,2) pw n2])
qed

lemma em_sent_sent_em:
  assumes "em_fifo_ok em" "fifoSize em \<ge> 2" "fifoPpPtr em \<noteq> fifoWrPtr em"
  shows "em_sent (sent_em em reg) =
    em_sent em @ [(tx_ident (em_CANtxBuff em), msg_data (complete_msg reg (hd (pending em))))]"
  using pending_sent [OF assms, of reg] by (simp add: sent_em_def Let_def)

section \<open>Processing\<close>

lemma report_can_errors_inv: "em_inv em \<Longrightarrow> wp (report_can_errors ch st tab em) em_inv"
proof (induction tab arbitrary: em)
  case (Cons t tab)
  obtain msk b c where t: "t = (msk, b, c)" by (cases t)
  show ?case using Cons error_result_inv by (simp add: t CO_error_eq)
qed simp

lemma em_driver_errors_inv: "em_inv em \<Longrightarrow> wp (em_driver_errors em) em_inv"
  unfolding em_driver_errors_def Let_def
  by (cases "CANerrorStatus em = CANerrorStatusOld em")
    (simp_all add: report_can_errors_inv em_inv_def em_fifo_ok_def)

text \<open>
  What an emergency message says, apart from the error register that is added when it is sent;
  the log of an object is what it sent followed by what it still has to send.
\<close>

definition msg_key :: "EM_fifo \<Rightarrow> u32 \<times> u32" where
  "msg_key e = (em_msg e AND 0xFF00FFFF, em_info e)"

definition frame_key :: "can_frame \<Rightarrow> u32 \<times> u32" where
  "frame_key fr = (le_word (take 4 (snd fr)) AND 0xFF00FFFF, le_word (take 4 (drop 4 (snd fr))))"

definition em_log :: "em \<Rightarrow> (u32 \<times> u32) list" where
  "em_log em = map frame_key (em_sent em) @ (if fifoSize em \<ge> 2 then map msg_key (pending em) else [])"

lemma frame_key_complete: "frame_key (i, msg_data (complete_msg reg e)) = msg_key e"
proof -
  have m: "\<forall>n<32. bit (0xFF00FFFF :: u32) n \<longleftrightarrow> n < 16 \<or> 24 \<le> n" by code_simp
  have "(em_msg e OR push_bit 16 (ucast reg)) AND 0xFF00FFFF = em_msg e AND 0xFF00FFFF"
    by (rule word_eq_by_bits) (use m in \<open>auto simp: bit_and_iff bit_or_iff bit_push_bit_iff bit_ucast_iff dest: bit_imp_le_length\<close>)
  then show ?thesis
    by (simp add: frame_key_def msg_key_def msg_data_def complete_msg_def le_word_le_bytes)
qed

lemma em_log_sent:
  assumes "em_fifo_ok em" "fifoSize em \<ge> 2" "fifoPpPtr em \<noteq> fifoWrPtr em"
  shows "em_log (sent_em em reg) = em_log em"
  using em_sent_sent_em [OF assms, of reg] pending_sent [OF assms, of reg] assms(2)
  by (simp add: em_log_def frame_key_complete)

definition em_grows :: "em \<Rightarrow> em \<Rightarrow> bool" where
  "em_grows em em' \<longleftrightarrow> prefix (em_log em) (em_log em')"

lemma em_grows_refl [simp]: "em_grows em em"
  by (simp add: em_grows_def)

lemma em_grows_trans: "em_grows a b \<Longrightarrow> em_grows b c \<Longrightarrow> em_grows a c"
  unfolding em_grows_def by (rule prefix_order.trans)

lemma em_grows_same:
  "em_log em' = em_log em \<Longrightarrow> em_grows em em'"
  by (simp add: em_grows_def)

lemma em_log_upd [simp]:
  "em_log (em\<lparr>errorStatusBits := x\<rparr>) = em_log em" "em_log (em\<lparr>fifoOverflow := y\<rparr>) = em_log em"
  "em_log (em\<lparr>inhibitEmTimer := t\<rparr>) = em_log em" "em_log (em\<lparr>inhibitEmTime_us := t\<rparr>) = em_log em"
  "em_log (em\<lparr>em_mem := m\<rparr>) = em_log em" "em_log (em\<lparr>CANerrorStatusOld := c\<rparr>) = em_log em"
  "em_log (em\<lparr>CANerrorStatus := c\<rparr>) = em_log em" "em_log (em\<lparr>em_CANtxBuff := b\<rparr>) = em_log em"
  "em_log (em\<lparr>producerEnabled := pe\<rparr>) = em_log em" "em_log (em\<lparr>producerCanId := ci\<rparr>) = em_log em"
  "em_log (em\<lparr>fifoCount := k\<rparr>) = em_log em" "em_log (em\<lparr>em_signalled := sg\<rparr>) = em_log em"
  by (simp_all add: em_log_def pending_def)

lemma queue_msg_grows: "em_inv em \<Longrightarrow> em_grows em (queue_msg em e)"
  using pending_queue_msg [of em e] by (auto simp: em_grows_def em_log_def)

lemma error_result_grows: "em_inv em \<Longrightarrow> em_grows em (error_result em v b code info)"
  using queue_msg_grows [OF em_inv_status [of em "set_status (errorStatusBits em) (err_bit b) v"]]
  by (intro error_result_cases [where P = "em_grows em"])
    (simp_all add: em_grows_def em_inv_def)

text \<open>The steps of the processing keep the invariant and let the log only grow.\<close>

definition em_good :: "em \<Rightarrow> em \<Rightarrow> bool" where
  "em_good em em' \<longleftrightarrow> em_inv em' \<and> em_grows em em'"

lemma em_good_trans: "em_good a b \<Longrightarrow> em_good b c \<Longrightarrow> em_good a c"
  using em_grows_trans by (auto simp: em_good_def)

lemma em_good_log: "em_inv em' \<Longrightarrow> em_log em' = em_log em \<Longrightarrow> em_good em em'"
  by (simp add: em_good_def em_grows_def)

lemma em_inv_upd [simp]:
  "em_inv (em\<lparr>fifoOverflow := y\<rparr>) = em_inv em" "em_inv (em\<lparr>inhibitEmTimer := t\<rparr>) = em_inv em"
  "em_inv (em\<lparr>inhibitEmTime_us := t\<rparr>) = em_inv em" "em_inv (em\<lparr>em_mem := m\<rparr>) = em_inv em"
  "em_inv (em\<lparr>CANerrorStatusOld := c\<rparr>) = em_inv em" "em_inv (em\<lparr>CANerrorStatus := c\<rparr>) = em_inv em"
  "em_inv (em\<lparr>producerEnabled := pe\<rparr>) = em_inv em" "em_inv (em\<lparr>producerCanId := ci\<rparr>) = em_inv em"
  "em_inv (em\<lparr>em_signalled := sg\<rparr>) = em_inv em"
  by (simp_all add: em_inv_def em_fifo_ok_def)

lemma CO_error_good: "em_inv em \<Longrightarrow> wp (CO_error em v b code info) (em_good em)"
  by (simp add: CO_error_eq em_good_def error_result_inv error_result_grows)

lemma report_can_errors_good: "em_inv em \<Longrightarrow> wp (report_can_errors ch st tab em) (em_good em)"
proof (induction tab arbitrary: em)
  case (Cons t tab)
  obtain msk b c where t: "t = (msk, b, c)" by (cases t)
  have g: "em_good em (error_result em v b c 0)" for v
    using CO_error_good [OF Cons.prems] CO_error_eq [OF Cons.prems] by simp
  then have "wp (report_can_errors ch st tab (error_result em v b c 0)) (em_good em)" for v
    using Cons.IH [of "error_result em v b c 0"] em_good_trans [OF g [of v]] by (auto simp: em_good_def intro: wp_mono)
  then show ?case using Cons.IH [OF Cons.prems] by (simp add: t CO_error_eq [OF Cons.prems])
qed (simp add: em_good_def)

lemma em_driver_errors_good: "em_inv em \<Longrightarrow> wp (em_driver_errors em) (em_good em)"
proof -
  assume i: "em_inv em"
  then show ?thesis
    using report_can_errors_good [of "em\<lparr>CANerrorStatusOld := CANerrorStatus em\<rparr>" _ _ can_error_table]
    unfolding em_driver_errors_def Let_def em_good_def em_grows_def by simp
qed

lemma em_overflow_good: "em_inv em \<Longrightarrow> wp (em_overflow em) (em_good em)"
  using CO_error_good [of "em\<lparr>fifoOverflow := 2\<rparr>"] CO_error_good [of "em\<lparr>fifoOverflow := 0\<rparr>"]
  unfolding em_overflow_def CO_errorReport_def CO_errorReset_def em_good_def em_grows_def by simp

lemma em_post_process_good:
  assumes i: "em_inv em"
  shows "wp (em_post_process em reg td tn) (\<lambda>(em', _). em_good em em')"
proof (cases "fifoSize em \<ge> 2")
  case True
  define em1 where "em1 = (if inhibitEmTimer em < inhibitEmTime_us em
    then em\<lparr>inhibitEmTimer := inhibitEmTimer em + td\<rparr> else em)"
  have i1: "em_inv em1" "em_log em1 = em_log em" using i by (simp_all add: em1_def)
  have ok: "em_fifo_ok em1" using i1 True by (simp add: em1_def em_inv_def)
  let ?em2 = "em1\<lparr>inhibitEmTimer := 0\<rparr>"
  have ok2: "em_fifo_ok ?em2" "em_inv ?em2" "fifoSize ?em2 \<ge> 2" using ok i1 True by (simp_all add: em_fifo_ok_def em1_def)
  have send: "em_good em (sent_em ?em2 reg)" if "fifoPpPtr em1 \<noteq> fifoWrPtr em1"
    using that ok2 i1 em_log_sent [OF ok2(1,3), of reg] sent_em_inv by (simp add: em_good_log)
  have "wp (em_overflow (sent_em ?em2 reg)) (em_good em)" if "fifoPpPtr em1 \<noteq> fifoWrPtr em1"
    using em_overflow_good [of "sent_em ?em2 reg"] send [OF that] em_good_trans [OF send [OF that]]
    by (auto simp: em_good_def intro: wp_mono)
  moreover have "em_good em em1" using i1 by (simp add: em_good_log)
  ultimately show ?thesis
    using True em_send_eq [OF ok2(2,1)] unfolding em_post_process_def em1_def [symmetric] Let_def by simp
qed (use i in \<open>simp add: em_post_process_def em_good_def\<close>)

lemma CO_EM_process_good:
  assumes i: "em_inv em"
  shows "wp (CO_EM_process em pre td tn) (\<lambda>(em', _). em_good em em')"
proof -
  obtain em1 where e1: "em_driver_errors em = Some em1" "em_good em em1"
    using em_driver_errors_good [OF i] by (auto simp: wp_ex)
  obtain a where a: "errorRegister em1 = Some a" using e1(2) by (auto simp: em_good_def em_inv_def)
  let ?em2 = "em1\<lparr>em_mem := (em_mem em1)(a := calc_errorRegister (errorStatusBits em1))\<rparr>"
  have g2: "em_good em ?em2" using e1(2) by (simp add: em_good_def em_grows_def)
  then have "em_inv ?em2" by (simp only: em_good_def)
  have "wp (em_post_process ?em2 reg td tn) (\<lambda>(em', _). em_good em em')" for reg
    by (rule wp_mono [OF em_post_process_good [OF \<open>em_inv ?em2\<close>]]) (auto intro: em_good_trans [OF g2])
  then show ?thesis using e1(1) a g2 by (simp add: CO_EM_process_def set_errorRegister_def Let_def)
qed

section \<open>The object as a system of events\<close>

text \<open>
  The calls of the stack and the application, the accesses through the object dictionary, the
  frames received, and the changes that the driver makes on its own.
\<close>

datatype em_event =
    Em_error bool u8 u16 u32
  | Em_process bool u32 "u32 option"
  | Em_write_1014 OD_stream "u8 list"
  | Em_write_1015 OD_stream "u8 list"
  | Em_read_1003 OD_stream u32
  | Em_write_1003 OD_stream "u8 list"
  | Em_read_statusBits OD_stream u32
  | Em_write_statusBits OD_stream "u8 list"
  | Em_receive u16 "u8 list"
  | Em_initCallbackRx bool
  | Em_driver u16 bool

fun em_step :: "em_event \<Rightarrow> em \<Rightarrow> em option" where
  "em_step (Em_error v b code info) em = CO_error em v b code info"
| "em_step (Em_process pre td tn) em = map_option fst (CO_EM_process em pre td tn)"
| "em_step (Em_write_1014 st b) em = Some (snd (snd (snd (OD_write_1014 em st b))))"
| "em_step (Em_write_1015 st b) em = Some (snd (snd (snd (OD_write_1015 em st b))))"
| "em_step (Em_read_1003 st n) em = map_option (\<lambda>_. em) (OD_read_1003 em st n)"
| "em_step (Em_write_1003 st b) em = Some (snd (snd (OD_write_1003 em st b)))"
| "em_step (Em_read_statusBits st n) em = map_option (\<lambda>_. em) (OD_read_statusBits em st n)"
| "em_step (Em_write_statusBits st b) em = map_option (\<lambda>(_, _, _, em). em) (OD_write_statusBits em st b)"
| "em_step (Em_receive i d) em = Some (CO_EM_receive em i d)"
| "em_step (Em_initCallbackRx f) em = Some (CO_EM_initCallbackRx em f)"
| "em_step (Em_driver st full) em =
     Some (em\<lparr>CANerrorStatus := st, em_CANtxBuff := (em_CANtxBuff em)\<lparr>tx_bufferFull := full\<rparr>\<rparr>)"

lemma OD_write_1014_good:
  assumes "em_inv em"
  shows "em_good em (snd (snd (snd (OD_write_1014 em st b))))"
proof (rule em_good_log)
  show "em_inv (snd (snd (snd (OD_write_1014 em st b))))"
    using assms by (simp add: OD_write_1014_def Let_def em_inv_def em_fifo_ok_def CO_CANtxBufferInit_def case_prod_beta)
  show "em_log (snd (snd (snd (OD_write_1014 em st b)))) = em_log em"
    by (simp add: OD_write_1014_def Let_def case_prod_beta)
qed

lemma OD_write_1015_good:
  "em_inv em \<Longrightarrow> em_good em (snd (snd (snd (OD_write_1015 em st b))))"
  by (rule em_good_log) (simp_all add: OD_write_1015_def Let_def case_prod_beta)

lemma OD_write_1003_good: "em_inv em \<Longrightarrow> em_good em (snd (snd (OD_write_1003 em st b)))"
  by (rule em_good_log) (auto simp: OD_write_1003_def em_inv_def em_fifo_ok_def word_less_nat_alt)

text \<open>The arithmetic of \<open>OD_read_1003\<close>: the cell of the \<open>k\<close>-th newest message.\<close>

lemma history_index:
  fixes w k n :: nat
  assumes "w < n" "0 < k" "k < n"
  shows "\<not> (\<not> int w - int k < 0 \<and> int w - int k \<ge> int n)"
    and "\<not> (if int w - int k < 0 then int w - int k + int n else int w - int k) < 0"
    and "nat (if int w - int k < 0 then int w - int k + int n else int w - int k) = (w + n - k) mod n"
proof -
  show "nat (if int w - int k < 0 then int w - int k + int n else int w - int k) = (w + n - k) mod n"
  proof (cases "k \<le> w")
    case True
    then have "w + n - k = w - k + n" by simp
    then have "(w + n - k) mod n = w - k" using assms by (simp only: mod_add_self2) simp
    then show ?thesis using True by (simp add: nat_diff_distrib)
  qed (use assms in auto)
qed (use assms in auto)

lemma OD_read_1003_history:
  assumes ok: "em_fifo_ok em" and n: "fifoSize em \<ge> 2" "count \<ge> 4"
    and k: "stream_subIndex st \<noteq> 0" "stream_subIndex st \<le> fifoCount em"
  shows "OD_read_1003 em st count = Some (ODR_OK, le_bytes 4 (history em ! (unat (stream_subIndex st) - 1)))"
proof -
  define w where "w = unat (fifoWrPtr em)"
  define k where "k = unat (stream_subIndex st)"
  have b: "w < fsize em" "0 < k" "k < fsize em" "k \<le> unat (fifoCount em)"
    using fifo_okD [OF ok] assms(4,5) by (auto simp: w_def k_def word_le_nat_alt unat_gt_0)
  have "\<not> count < 4" "\<not> count < 1" "\<not> fifoSize em < 2" using n by (auto simp: not_less word_le_nat_alt)
  then have "OD_read_1003 em st count =
      do { e \<leftarrow> arr_get (em_fifo em) ((w + fsize em - k) mod fsize em); Some (ODR_OK, le_bytes 4 (em_msg e)) }"
    using assms(4,5) history_index [OF b(1,2,3)]
    unfolding OD_read_1003_def Let_def w_def [symmetric] k_def [symmetric]
    by (simp only: if_False if_True simp_thms)
  moreover have "[Suc 0..<Suc (unat (fifoCount em))] ! (k - Suc 0) = k" using b by (subst nth_upt) auto
  ultimately show ?thesis using fifo_okD(1) [OF ok] b by (simp add: history_def w_def k_def del: upt_Suc)
qed

lemma OD_read_1003_ok:
  assumes "em_inv em"
  shows "wp (OD_read_1003 em st n) (\<lambda>_. True)"
proof (cases "(n < 4 \<and> stream_subIndex st > 0) \<or> n < 1 \<or> fifoSize em < 2 \<or> stream_subIndex st = 0 \<or>
    \<not> stream_subIndex st \<le> fifoCount em")
  case False
  then have "em_fifo_ok em" using assms by (simp add: em_inv_def not_less)
  then show ?thesis using False OD_read_1003_history [of em n st] by (auto simp: word_gt_0)
qed (auto simp: OD_read_1003_def Let_def)

lemma statusBits_count_le: "fst (statusBits_count st n) \<le> 10" "fst (statusBits_count st n) \<le> n"
  by (auto simp: statusBits_count_def Let_def STATUS_BYTES_def min_def not_le)

lemma OD_read_statusBits_ok: "em_inv em \<Longrightarrow> wp (OD_read_statusBits em st n) (\<lambda>_. True)"
  using statusBits_count_le(1) [of st n]
  by (auto simp: OD_read_statusBits_def em_inv_def STATUS_BYTES_def buf_read_def word_le_nat_alt split: prod.splits)

lemma OD_write_statusBits_good:
  assumes "em_inv em"
  shows "wp (OD_write_statusBits em st b) (\<lambda>(_, _, _, em'). em_good em em')"
proof -
  obtain n st' where c: "statusBits_count st (word_of_nat (length b)) = (n, st')" by (cases "statusBits_count st (word_of_nat (length b))")
  have "unat n \<le> 10" using statusBits_count_le(1) [of st "word_of_nat (length b)"] c by (simp add: word_le_nat_alt)
  moreover have "em_good em (em\<lparr>errorStatusBits := x\<rparr>)" if "length x = length (errorStatusBits em)" for x
    using that assms by (intro em_good_log) (simp_all add: em_inv_status em_inv_def em_fifo_ok_def)
  moreover have "em_good em em" using assms by (simp add: em_good_def)
  ultimately show ?thesis
    using assms unfolding OD_write_statusBits_def c
    by (auto simp: em_inv_def STATUS_BYTES_def buf_write_def)
qed

lemma em_step_good: "em_inv em \<Longrightarrow> wp (em_step e em) (em_good em)"
proof (cases e)
  case (Em_process pre td tn)
  moreover assume "em_inv em"
  ultimately show ?thesis using CO_EM_process_good [of em pre td tn] by (simp add: case_prod_unfold)
next
  case (Em_driver st full)
  moreover assume "em_inv em"
  ultimately show ?thesis by (simp, intro em_good_log) (simp_all add: em_inv_def em_fifo_ok_def)
next
  case (Em_write_statusBits st b)
  moreover assume "em_inv em"
  ultimately show ?thesis using OD_write_statusBits_good [of em st b] by (simp add: case_prod_unfold)
next
  case (Em_receive i d)
  moreover assume "em_inv em"
  ultimately show ?thesis by (simp, intro em_good_log) (simp_all add: CO_EM_receive_def)
next
  case (Em_initCallbackRx f)
  moreover assume "em_inv em"
  ultimately show ?thesis
    by (simp, intro em_good_log) (simp_all add: CO_EM_initCallbackRx_def em_inv_def em_fifo_ok_def em_log_def pending_def)
next
  case (Em_read_1003 st n)
  moreover assume "em_inv em"
  ultimately show ?thesis using OD_read_1003_ok [of em st n] by (simp add: em_good_def wp_ex)
next
  case (Em_read_statusBits st n)
  moreover assume "em_inv em"
  ultimately show ?thesis using OD_read_statusBits_ok [of em st n] by (simp add: em_good_def wp_ex)
qed (simp_all add: CO_error_good OD_write_1014_good OD_write_1015_good OD_write_1003_good)

interpretation emsys: observed_system em_inv em_step em_grows
proof unfold_locales
  show "em_inv em \<Longrightarrow> wp (em_step e em) em_inv" for em e
    using em_step_good [of em e] by (rule wp_mono) (simp_all add: em_good_def)
  show "em_inv em \<Longrightarrow> em_step e em = Some em' \<Longrightarrow> em_grows em em'" for em e em'
    using em_step_good [of em e] by (simp add: em_good_def)
qed (auto intro: em_grows_trans)

section \<open>Properties\<close>

lemma CO_EM_init_inv:
  assumes "CO_EM_init CO_ERROR_NO txOk tx st m em0 e1001 (Some fifo) fsz e1014 e1015 e1003 eStatus node = (CO_ERROR_NO, info, em)"
    and "length fifo = unat fsz"
  shows "em_inv em" "em_log em = []"
  using assms unfolding CO_EM_init_def em_init_producer_def
  by (auto simp: Let_def em_zero_def em_inv_def em_fifo_ok_def CO_CANtxBufferInit_def em_log_def pending_def
      STATUS_BYTES_def word_le_nat_alt word_less_nat_alt split: if_splits option.splits prod.splits)

text \<open>
  C22: Memory safety of the emergency object. After a successful initialisation with a message
  buffer of the given size, every sequence of reports, processing, accesses through the object
  dictionary, received frames and driver changes runs without an access out of range.
\<close>

theorem em_memory_safe:
  assumes "CO_EM_init CO_ERROR_NO txOk tx st m em0 e1001 (Some fifo) fsz e1014 e1015 e1003 eStatus node = (CO_ERROR_NO, info, em)"
    and "length fifo = unat fsz"
  shows "\<exists>em'. run em_step es em = Some em'"
  using emsys.run_defined [OF CO_EM_init_inv(1) [OF assms]] by blast

text \<open>
  C23: Emergency messages are neither lost, duplicated nor reordered once they are accepted. In
  every run, the messages sent so far followed by those still queued only grow at the end.
\<close>

theorem em_messages_in_order:
  assumes "em_inv em" "run em_step es em = Some em'"
  shows "\<exists>new. map frame_key (em_sent em') @ map msg_key (if fifoSize em' \<ge> 2 then pending em' else []) =
    map frame_key (em_sent em) @ map msg_key (if fifoSize em \<ge> 2 then pending em else []) @ new"
proof -
  have "prefix (em_log em) (em_log em')" using emsys.run_R [OF assms] by (simp add: em_grows_def)
  then show ?thesis by (auto simp: em_log_def prefix_def split: if_splits)
qed

text \<open>
  A report of a condition that is not yet present, while the buffer is not full, becomes the
  newest entry of the error history that the object dictionary shows (object 0x1003), with the
  error code in the low and the condition in the high bits; the older entries move up by one.
\<close>

theorem error_history_newest_first:
  assumes i: "em_inv em" and n: "fifoSize em \<ge> 2" "length (pending em) < fsize em - 1"
    and b: "unat b < 80" "\<not> CO_isError em b"
  shows "\<exists>em'. CO_errorReport em b code info = Some em' \<and>
    history em' = take (fsize em - 1) ((push_bit 24 (ucast b) OR ucast code) # history em) \<and>
    OD_read_1003 em' (st\<lparr>stream_subIndex := 1\<rparr>) 4 = Some (ODR_OK, le_bytes 4 (push_bit 24 (ucast b) OR ucast code :: u32))"
proof -
  let ?em = "em\<lparr>errorStatusBits := set_status (errorStatusBits em) b True\<rparr>"
  let ?em' = "put_msg ?em (error_msg True b code info)"
  have ok: "em_fifo_ok ?em" using i n by (simp add: em_inv_def em_fifo_ok_def)
  have r: "CO_errorReport em b code info = Some ?em'"
    using i n b CO_error_eq [OF i] by (simp add: CO_errorReport_def error_result_def err_bit_def queue_msg_def)
  have h: "history ?em' = take (fsize em - 1) ((push_bit 24 (ucast b) OR ucast code) # history em)"
    using history_put_msg [OF ok] n b by (simp add: error_msg_def)
  have n2: "2 \<le> fsize em" using n by (simp add: word_le_nat_alt)
  have "length (history ?em') = unat (fifoCount ?em')" by (simp add: history_def del: upt_Suc)
  then have c: "1 \<le> fifoCount ?em'" unfolding h using n2 by (simp add: word_le_nat_alt)
  have "OD_read_1003 ?em' (st\<lparr>stream_subIndex := 1\<rparr>) 4 = Some (ODR_OK, le_bytes 4 (history ?em' ! 0))"
    using OD_read_1003_history [of ?em' 4 "st\<lparr>stream_subIndex := 1\<rparr>"] put_msg_ok [OF ok] n c
    by (simp add: put_msg_def)
  moreover have "history ?em' ! 0 = push_bit 24 (ucast b) OR ucast code" unfolding h using n2 by simp
  ultimately show ?thesis using r h by simp
qed

end
