(* ===== verification/Emergency_Props.thy ===== *)
theory Emergency_Props
  imports Emergency
begin

text \<open>
  Further properties of the emergency object: the error register, the inhibit time, and the
  producer's enable bit, with the concrete examples for the properties of \<open>Emergency\<close>.
\<close>

section \<open>The error register\<close>

lemma bits_of_byte: "(x :: u8) \<noteq> 0 \<longleftrightarrow> (\<exists>k<8. bit x k)"
proof
  assume "x \<noteq> 0"
  then obtain k where "bit x k" using bit_eq_iff [of x 0] by auto
  then show "\<exists>k<8. bit x k" using bit_imp_le_length [of x k] by auto
qed auto

text \<open>A byte of the status bits is not zero if and only if one of its eight conditions is present.\<close>

lemma status_byte:
  assumes "j < 10"
  shows "errorStatusBits em ! j \<noteq> 0 \<longleftrightarrow> (\<exists>b. unat b div 8 = j \<and> CO_isError em b)"
proof
  assume "errorStatusBits em ! j \<noteq> 0"
  then obtain k where k: "k < 8" "bit (errorStatusBits em ! j) k" using bits_of_byte by blast
  define n where "n = 8 * j + k"
  have "n < 256" using assms k(1) by (simp add: n_def)
  then have "unat (word_of_nat n :: u8) = n" by (simp add: unsigned_of_nat take_bit_eq_mod)
  moreover have "n div 8 = j" "n mod 8 = k" using k(1) by (simp_all add: n_def)
  ultimately show "\<exists>b. unat b div 8 = j \<and> CO_isError em b"
    using k by (intro exI [of _ "word_of_nat n"]) (simp add: CO_isError_bit)
next
  assume "\<exists>b. unat b div 8 = j \<and> CO_isError em b"
  then show "errorStatusBits em ! j \<noteq> 0"
    using assms by (auto simp: CO_isError_bit)
qed

text \<open>The overflow condition does not belong to the register.\<close>

definition same_critical :: "em \<Rightarrow> em \<Rightarrow> bool" where
  "same_critical em em' \<longleftrightarrow> (\<forall>j. j \<noteq> 4 \<longrightarrow> errorStatusBits em' ! j = errorStatusBits em ! j) \<and>
     errorRegister em' = errorRegister em \<and> em_mem em' = em_mem em"

lemma calc_errorRegister_cong:
  "same_critical em em' \<Longrightarrow> calc_errorRegister (errorStatusBits em') = calc_errorRegister (errorStatusBits em)"
  by (simp add: same_critical_def calc_errorRegister_def)

lemma error_result_buffer_full:
  "same_critical em (error_result em v CO_EM_EMERGENCY_BUFFER_FULL code info)"
  by (rule error_result_cases [where P = "same_critical em"])
    (simp_all add: same_critical_def set_status_def err_bit_def)

lemma em_overflow_critical:
  assumes "em_inv em" "em_overflow em = Some em'"
  shows "same_critical em em'"
proof -
  have s: "same_critical em em" "same_critical (em\<lparr>fifoOverflow := x\<rparr>) e = same_critical em e" for x e
    by (simp_all add: same_critical_def)
  show ?thesis
    using assms error_result_buffer_full [of "em\<lparr>fifoOverflow := _\<rparr>", unfolded s] s(1)
    by (auto simp: em_overflow_def CO_errorReport_def CO_errorReset_def CO_error_eq split: if_splits)
qed

lemma em_post_process_critical:
  assumes i: "em_inv em" and p: "em_post_process em reg td tn = Some (em', tn')"
  shows "same_critical em em'"
proof -
  define em1 where "em1 = (if inhibitEmTimer em < inhibitEmTime_us em
    then em\<lparr>inhibitEmTimer := inhibitEmTimer em + td\<rparr> else em)"
  let ?em2 = "em1\<lparr>inhibitEmTimer := 0\<rparr>"
  have s1: "same_critical em em1" "same_critical em em" by (simp_all add: em1_def same_critical_def)
  have i2: "em_inv ?em2" using i by (simp add: em1_def)
  have "same_critical em em'" if "fifoSize em \<ge> 2" "em_send ?em2 reg = Some e" "em_overflow e = Some em'" for e
  proof -
    have ok: "em_fifo_ok ?em2" using i2 that(1) by (simp add: em_inv_def em1_def split: if_splits)
    then have e: "e = sent_em ?em2 reg" using em_send_eq [OF i2 ok] that(2) by simp
    have "same_critical e em'" using em_overflow_critical [OF _ that(3)] sent_em_inv [OF i2 ok] e by simp
    moreover have "same_critical em e" unfolding e using s1 by (simp add: same_critical_def)
    ultimately show ?thesis by (simp add: same_critical_def)
  qed
  then show ?thesis
    using p s1 unfolding em_post_process_def em1_def [symmetric] Let_def
    by (auto split: if_splits bind_splits)
qed

lemma CO_EM_process_register:
  assumes i: "em_inv em" and p: "CO_EM_process em pre td tn = Some (em', tn')"
  shows "\<exists>a. errorRegister em' = Some a \<and> em_mem em' a = calc_errorRegister (errorStatusBits em')"
proof -
  obtain em1 where e1: "em_driver_errors em = Some em1" "em_inv em1"
    using em_driver_errors_good [OF i] by (auto simp: wp_ex em_good_def)
  obtain a where a: "errorRegister em1 = Some a" using e1(2) by (auto simp: em_inv_def)
  let ?em2 = "em1\<lparr>em_mem := (em_mem em1)(a := calc_errorRegister (errorStatusBits em1))\<rparr>"
  have "same_critical ?em2 em'"
    using p e1 a em_post_process_critical [of ?em2 _ td tn em' tn']
    by (auto simp: CO_EM_process_def set_errorRegister_def Let_def same_critical_def split: if_splits)
  then show ?thesis using a calc_errorRegister_cong [of ?em2 em'] by (simp add: same_critical_def)
qed

text \<open>
  C25: After processing, the error register in the object dictionary (object 0x1001) says exactly
  which kinds of critical conditions are present: bit 0 a generic error (conditions 0x28 to 0x2F),
  bit 4 a communication error (0x10 to 0x1F), bit 7 a manufacturer specific error (0x40 to 0x4F);
  the other bits are zero.
\<close>

theorem error_register_correct:
  assumes "em_inv em" "CO_EM_process em pre td tn = Some (em', tn')"
  shows "(bit (CO_getErrorRegister em') 0 \<longleftrightarrow> (\<exists>b. 0x28 \<le> b \<and> b \<le> 0x2F \<and> CO_isError em' b)) \<and>
    (bit (CO_getErrorRegister em') 4 \<longleftrightarrow> (\<exists>b. 0x10 \<le> b \<and> b \<le> 0x1F \<and> CO_isError em' b)) \<and>
    (bit (CO_getErrorRegister em') 7 \<longleftrightarrow> (\<exists>b. 0x40 \<le> b \<and> b \<le> 0x4F \<and> CO_isError em' b)) \<and>
    CO_getErrorRegister em' AND 0x6E = 0"
proof -
  let ?bits = "errorStatusBits em'"
  have reg: "CO_getErrorRegister em' = calc_errorRegister ?bits"
    using CO_EM_process_register [OF assms] by (auto simp: CO_getErrorRegister_def)
  have c: "bit (calc_errorRegister ?bits) 0 \<longleftrightarrow> ?bits ! 5 \<noteq> 0"
    "bit (calc_errorRegister ?bits) 4 \<longleftrightarrow> ?bits ! 2 \<noteq> 0 \<or> ?bits ! 3 \<noteq> 0"
    "bit (calc_errorRegister ?bits) 7 \<longleftrightarrow> ?bits ! 8 \<noteq> 0 \<or> ?bits ! 9 \<noteq> 0"
    "calc_errorRegister ?bits AND 0x6E = 0"
    by (auto simp: calc_errorRegister_def)
  have r: "0x28 \<le> b \<and> b \<le> 0x2F \<longleftrightarrow> unat b div 8 = 5"
    "0x10 \<le> b \<and> b \<le> 0x1F \<longleftrightarrow> unat b div 8 = 2 \<or> unat b div 8 = 3"
    "0x40 \<le> b \<and> b \<le> 0x4F \<longleftrightarrow> unat b div 8 = 8 \<or> unat b div 8 = 9" for b :: u8
    by (auto simp: word_le_nat_alt)
  have "?bits ! 5 \<noteq> 0 \<longleftrightarrow> (\<exists>b. 0x28 \<le> b \<and> b \<le> 0x2F \<and> CO_isError em' b)"
    unfolding conj_assoc [symmetric] r using status_byte [of 5 em'] by simp
  moreover have "?bits ! 2 \<noteq> 0 \<or> ?bits ! 3 \<noteq> 0 \<longleftrightarrow> (\<exists>b. 0x10 \<le> b \<and> b \<le> 0x1F \<and> CO_isError em' b)"
    unfolding conj_assoc [symmetric] r using status_byte [of 2 em'] status_byte [of 3 em'] by auto
  moreover have "?bits ! 8 \<noteq> 0 \<or> ?bits ! 9 \<noteq> 0 \<longleftrightarrow> (\<exists>b. 0x40 \<le> b \<and> b \<le> 0x4F \<and> CO_isError em' b)"
    unfolding conj_assoc [symmetric] r using status_byte [of 8 em'] status_byte [of 9 em'] by auto
  ultimately show ?thesis unfolding reg c by (simp only: simp_thms)
qed

section \<open>The inhibit time\<close>

lemma error_result_timer [simp]:
  "em_sent (error_result em v b code info) = em_sent em"
  "inhibitEmTime_us (error_result em v b code info) = inhibitEmTime_us em"
  "inhibitEmTimer (error_result em v b code info) = inhibitEmTimer em"
  by (simp_all add: error_result_def)

lemma report_can_errors_timer:
  assumes "em_inv em" "report_can_errors ch st tab em = Some em'"
  shows "em_sent em' = em_sent em \<and> inhibitEmTime_us em' = inhibitEmTime_us em \<and> inhibitEmTimer em' = inhibitEmTimer em"
  using assms
proof (induction tab arbitrary: em)
  case (Cons t tab)
  obtain msk b c where t: "t = (msk, b, c)" by (cases t)
  show ?case
    using Cons.prems Cons.IH [of em] Cons.IH [of "error_result em (st AND msk \<noteq> 0) b c 0"] error_result_inv [OF Cons.prems(1)]
    by (auto simp: t CO_error_eq split: if_splits)
qed simp

text \<open>The time that an event adds to the inhibit timer at most.\<close>

fun event_time :: "em_event \<Rightarrow> nat" where
  "event_time (Em_process pre td tn) = unat td"
| "event_time _ = 0"

fun sets_inhibit :: "em_event \<Rightarrow> bool" where
  "sets_inhibit (Em_write_1015 st b) = True"
| "sets_inhibit _ = False"

lemma em_post_process_quiet:
  assumes "unat (inhibitEmTimer em) + unat td < unat (inhibitEmTime_us em)"
    and "em_post_process em reg td tn = Some (em', tn')"
  shows "em_sent em' = em_sent em \<and> inhibitEmTime_us em' = inhibitEmTime_us em \<and>
    unat (inhibitEmTimer em') \<le> unat (inhibitEmTimer em) + unat td"
proof -
  have "unat (inhibitEmTimer em + td) = unat (inhibitEmTimer em) + unat td"
    using assms(1) unat_u32_less [of "inhibitEmTime_us em"] by (intro unat_plus_small) simp
  moreover from this have "\<not> inhibitEmTime_us em \<le> inhibitEmTimer em + td" "inhibitEmTimer em < inhibitEmTime_us em"
    using assms(1) by (simp_all add: word_le_nat_alt word_less_nat_alt)
  ultimately show ?thesis using assms(2)
    by (auto simp: em_post_process_def Let_def split: if_splits)
qed

lemma CO_EM_process_quiet:
  assumes i: "em_inv em" and t: "unat (inhibitEmTimer em) + unat td < unat (inhibitEmTime_us em)"
    and p: "CO_EM_process em pre td tn = Some (em', tn')"
  shows "em_sent em' = em_sent em \<and> inhibitEmTime_us em' = inhibitEmTime_us em \<and>
    unat (inhibitEmTimer em') \<le> unat (inhibitEmTimer em) + unat td"
proof -
  obtain em1 where e1: "em_driver_errors em = Some em1" "em_inv em1"
    using em_driver_errors_good [OF i] by (auto simp: wp_ex em_good_def)
  have f: "em_sent em1 = em_sent em" "inhibitEmTime_us em1 = inhibitEmTime_us em" "inhibitEmTimer em1 = inhibitEmTimer em"
    using e1(1) i report_can_errors_timer [of "em\<lparr>CANerrorStatusOld := CANerrorStatus em\<rparr>" _ _ _ em1]
    by (auto simp: em_driver_errors_def Let_def split: if_splits)
  show ?thesis
    using p e1(1) f t em_post_process_quiet [of "em1\<lparr>em_mem := _\<rparr>" td _ tn em' tn']
    by (auto simp: CO_EM_process_def set_errorRegister_def Let_def split: if_splits option.splits)
qed

lemma em_step_quiet:
  assumes i: "em_inv em" and s: "em_step e em = Some em'" and n: "\<not> sets_inhibit e"
    and t: "unat (inhibitEmTimer em) + event_time e < unat (inhibitEmTime_us em)"
  shows "em_sent em' = em_sent em \<and> inhibitEmTime_us em' = inhibitEmTime_us em \<and>
    unat (inhibitEmTimer em') \<le> unat (inhibitEmTimer em) + event_time e"
proof (cases e)
  case (Em_process pre td tn)
  then show ?thesis using CO_EM_process_quiet [OF i] s t by (auto simp: event_time.simps)
qed (use i s n in \<open>auto simp: CO_error_eq OD_write_1014_def OD_write_1003_def OD_write_statusBits_def CO_EM_receive_def
      CO_EM_initCallbackRx_def Let_def case_prod_beta split: if_splits bind_splits\<close>)


section \<open>Messages are sent\<close>

lemma em_overflow_sent:
  "em_inv em \<Longrightarrow> em_overflow em = Some em' \<Longrightarrow> em_sent em' = em_sent em"
  by (auto simp: em_overflow_def CO_errorReport_def CO_errorReset_def CO_error_eq split: if_splits)

lemma em_post_process_sends:
  assumes i: "em_inv em" and n: "fifoSize em \<ge> 2" "pending em = e # rest" "\<not> tx_bufferFull (em_CANtxBuff em)"
    and t: "unat (inhibitEmTime_us em) \<le> unat (inhibitEmTimer em) + unat td"
      "unat (inhibitEmTimer em) + unat td < 2 ^ 32"
  shows "\<exists>em' tn'. em_post_process em reg td tn = Some (em', tn') \<and>
    em_sent em' = em_sent em @ [(tx_ident (em_CANtxBuff em), msg_data (complete_msg reg e))]"
proof -
  define em1 where "em1 = (if inhibitEmTimer em < inhibitEmTime_us em
    then em\<lparr>inhibitEmTimer := inhibitEmTimer em + td\<rparr> else em)"
  let ?em2 = "em1\<lparr>inhibitEmTimer := 0\<rparr>"
  have f: "pending ?em2 = pending em" "em_sent ?em2 = em_sent em" "em_CANtxBuff ?em2 = em_CANtxBuff em"
    "em_CANtxBuff em1 = em_CANtxBuff em" "fifoSize ?em2 = fifoSize em" "inhibitEmTime_us em1 = inhibitEmTime_us em"
    by (simp_all add: em1_def pending_def)
  have ok: "em_inv ?em2" "em_fifo_ok ?em2" using i n(1) by (simp_all add: em1_def em_inv_def em_fifo_ok_def)
  have due: "\<not> inhibitEmTimer em1 < inhibitEmTime_us em1"
    using t unat_plus_small [of "inhibitEmTimer em" td] by (auto simp: em1_def word_less_nat_alt)
  have pw: "fifoPpPtr ?em2 \<noteq> fifoWrPtr ?em2"
    using n(2) unfolding f(1) [symmetric] by (auto simp: pending_def)
  have s: "em_send ?em2 reg = Some (sent_em ?em2 reg)" using em_send_eq [OF ok] .
  obtain em' where o: "em_overflow (sent_em ?em2 reg) = Some em'"
    using em_overflow_good [OF sent_em_inv [OF ok]] by (auto simp: wp_ex)
  have "em_sent em' = em_sent em @ [(tx_ident (em_CANtxBuff em), msg_data (complete_msg reg e))]"
    using em_overflow_sent [OF sent_em_inv [OF ok] o] em_sent_sent_em [OF ok(2) _ pw, of reg] n(1,2) f by simp
  moreover have "em_post_process em reg td tn = Some (em', tn)"
    using n(1,3) due pw s o f unfolding em_post_process_def em1_def [symmetric] Let_def
    by (simp add: em1_def [symmetric] not_less)
  ultimately show ?thesis by blast
qed

text \<open>
  A pending emergency message is sent as soon as it can be. If the inhibit time has passed,
  the transmit buffer is free and the node is pre-operational or operational, the next call of the
  processing sends the oldest message: error code, error register, condition and information in
  this order. The enable bit of the producer's identifier (object 0x1014) plays no role.
\<close>

theorem em_process_sends:
  assumes i: "em_inv em" and st: "CANerrorStatus em = CANerrorStatusOld em"
    and n: "fifoSize em \<ge> 2" "pending em = e # rest" "\<not> tx_bufferFull (em_CANtxBuff em)"
    and t: "unat (inhibitEmTime_us em) \<le> unat (inhibitEmTimer em) + unat td"
      "unat (inhibitEmTimer em) + unat td < 2 ^ 32"
  shows "\<exists>em' tn'. CO_EM_process em True td tn = Some (em', tn') \<and>
    em_sent em' = em_sent em @ [(tx_ident (em_CANtxBuff em), msg_data (complete_msg (CO_getErrorRegister em') e))]"
proof -
  let ?reg = "calc_errorRegister (errorStatusBits em)"
  obtain a where a: "errorRegister em = Some a" using i by (auto simp: em_inv_def)
  let ?em1 = "em\<lparr>em_mem := (em_mem em)(a := ?reg)\<rparr>"
  have "pending ?em1 = e # rest" using n(2) by (simp add: pending_def)
  then obtain em' tn' where p: "em_post_process ?em1 ?reg td tn = Some (em', tn')"
      "em_sent em' = em_sent em @ [(tx_ident (em_CANtxBuff em), msg_data (complete_msg ?reg e))]"
    using em_post_process_sends [of ?em1 e rest td ?reg tn] i n t by auto
  have pr: "CO_EM_process em True td tn = Some (em', tn')"
    using p(1) a st by (simp add: CO_EM_process_def em_driver_errors_def set_errorRegister_def Let_def)
  have "same_critical ?em1 em'" using em_post_process_critical [OF _ p(1)] i by simp
  then have "CO_getErrorRegister em' = ?reg"
    using a by (simp add: same_critical_def CO_getErrorRegister_def)
  then show ?thesis using pr p(2) by auto
qed

section \<open>Examples\<close>

text \<open>
  The object after an initialisation with the identifier 0x80000000 in object 0x1014 ("emergency
  does not exist", identifier zero), with room for three messages and an inhibit time of 1 ms.
\<close>

definition example_var :: "u16 \<Rightarrow> addr \<Rightarrow> u32 \<Rightarrow> OD_entry option" where
  "example_var i a n = Some \<lparr>entry_index = i, subEntriesCount = 1,
     odObject = Some (ODT_VAR \<lparr>var_dataOrig = Some a, var_attribute = 3, var_dataLength = n\<rparr>), extension = None\<rparr>"

definition example_mem :: mem where
  "example_mem = mem_write (\<lambda>_. 0) 4 ([0, 0, 0, 0x80] @ [10, 0])"

definition example_tx :: CANtx where
  "example_tx = \<lparr>tx_ident = 0, tx_DLC = 0, tx_data = replicate 8 0, tx_bufferFull = False\<rparr>"

definition example_init :: "CO_ReturnError \<times> u32 option \<times> em" where
  "example_init = CO_EM_init CO_ERROR_NO True example_tx 0 example_mem (em_zero example_tx 0 example_mem)
     (example_var 0x1001 0 1) (Some (replicate 4 \<lparr>em_msg = 0, em_info = 0\<rparr>)) 4 (example_var 0x1014 4 4)
     (example_var 0x1015 8 2) (example_var 0x1003 12 1) None 5"

definition example_em :: em where
  "example_em = snd (snd example_init)"

lemma example_em_init: "example_init = (CO_ERROR_NO, None, example_em)"
  unfolding example_em_def
proof -
  have "fst example_init = CO_ERROR_NO" "fst (snd example_init) = None" by code_simp+
  then show "example_init = (CO_ERROR_NO, None, snd (snd example_init))" by (simp add: prod_eq_iff)
qed

lemma example_em_inv: "em_inv example_em"
  using CO_EM_init_inv(1) [OF example_em_init [unfolded example_init_def]] by simp

lemma example_em_facts:
  "CO_isError example_em 0x12 = False" "CANerrorStatus example_em = 0" "CANerrorStatusOld example_em = 0"
  "fifoSize example_em = 4" "pending example_em = []" "unat (inhibitEmTime_us example_em) = 1000"
  "inhibitEmTimer example_em = 0" "\<not> producerEnabled example_em" "em_sent example_em = []"
  "tx_ident (em_CANtxBuff example_em) = 0" "\<not> tx_bufferFull (em_CANtxBuff example_em)" "history example_em = []"
  by code_simp+

theorem em_memory_safe_witness:
  "\<exists>em'. run em_step [Em_error True 0x12 0x8140 1, Em_process True 2000 (Some 50), Em_error False 0x12 0 1] example_em = Some em'"
  by (rule em_memory_safe [OF example_em_init [unfolded example_init_def]]) simp

theorem CO_error_condition_witness:
  "\<exists>em'. CO_error example_em True 0x12 0x8140 1 = Some em' \<and> CO_isError em' 0x12 \<and> \<not> CO_isError example_em 0x12"
  using CO_error_condition [OF example_em_inv, where b' = "0x12" and b = "0x12" and v = True and code = "0x8140" and info = 1]
    example_em_facts(1) by auto

definition example_em1 :: em where
  "example_em1 = the (CO_errorReport example_em 0x12 0x8140 1)"

lemma example_em1_eq: "CO_errorReport example_em 0x12 0x8140 1 = Some example_em1"
  using CO_error_eq [OF example_em_inv] by (simp add: example_em1_def CO_errorReport_def)

lemma example_em1_inv: "em_inv example_em1"
  using error_result_inv [OF example_em_inv] CO_error_eq [OF example_em_inv]
  by (simp add: example_em1_def CO_errorReport_def)

lemma example_em1_facts:
  "CANerrorStatus example_em1 = 0" "CANerrorStatusOld example_em1 = 0" "fifoSize example_em1 = 4"
  "pending example_em1 = [\<lparr>em_msg = 0x12008140, em_info = 1\<rparr>]" "inhibitEmTimer example_em1 = 0"
  "unat (inhibitEmTime_us example_em1) = 1000" "tx_ident (em_CANtxBuff example_em1) = 0"
  "\<not> tx_bufferFull (em_CANtxBuff example_em1)" "em_sent example_em1 = []"
  by code_simp+

theorem error_history_newest_first_witness:
  "\<exists>em'. CO_errorReport example_em 0x12 0x8140 1 = Some em' \<and> history em' = [0x12008140] \<and>
     OD_read_1003 em' (stream OD_IO_null\<lparr>stream_subIndex := 1\<rparr>) 4 = Some (ODR_OK, [0x40, 0x81, 0x00, 0x12])"
proof -
  have "le_bytes 4 (0x12008140 :: u32) = [0x40, 0x81, 0x00, 0x12]" by code_simp
  then show ?thesis
    using error_history_newest_first [OF example_em_inv, where b = "0x12" and code = "0x8140" and info = 1
        and st = "stream OD_IO_null"] example_em_facts by simp
qed

theorem em_messages_in_order_witness:
  "\<exists>em' new. run em_step [Em_error True 0x12 0x8140 1, Em_process True 2000 None] example_em = Some em' \<and>
     map frame_key (em_sent em') @ map msg_key (pending em') = new \<and> new = [(0x12008140, 1)]"
proof -
  let ?es = "[Em_error True 0x12 0x8140 1, Em_process True 2000 None]"
  obtain em' where r: "run em_step ?es example_em = Some em'" using emsys.run_defined [OF example_em_inv] by blast
  have "map_option (\<lambda>em'. (fifoSize em' \<ge> 2, map frame_key (em_sent em') @ map msg_key (pending em')))
      (run em_step ?es example_em) = Some (True, [(0x12008140, 1)])" by code_simp
  then show ?thesis using em_messages_in_order [OF example_em_inv r] r by (simp del: run.simps)
qed

theorem error_register_correct_witness:
  "\<exists>em' tn'. CO_EM_process example_em1 True 2000 None = Some (em', tn') \<and>
     bit (CO_getErrorRegister em') 4 = (\<exists>b. 0x10 \<le> b \<and> b \<le> 0x1F \<and> CO_isError em' b) \<and> bit (CO_getErrorRegister em') 4"
proof -
  obtain em' tn' where p: "CO_EM_process example_em1 True 2000 None = Some (em', tn')"
    using CO_EM_process_good [OF example_em1_inv, of True 2000 None] by (auto simp: wp_ex)
  have "map_option (\<lambda>(em', _). bit (CO_getErrorRegister em') 4) (CO_EM_process example_em1 True 2000 None) = Some True"
    by code_simp
  then show ?thesis using p error_register_correct [OF example_em1_inv p] by auto
qed


text \<open>In the example, the producer is disabled and its identifier is that of the NMT service.\<close>

theorem em_process_sends_witness:
  "\<exists>em' tn'. \<not> producerEnabled example_em1 \<and> CO_EM_process example_em1 True 2000 None = Some (em', tn') \<and>
     em_sent em' = [(0, [0x40, 0x81, 0x10, 0x12, 1, 0, 0, 0])]"
proof -
  obtain em' tn' where p: "CO_EM_process example_em1 True 2000 None = Some (em', tn')"
      "em_sent em' = [(0, msg_data (complete_msg (CO_getErrorRegister em') \<lparr>em_msg = 0x12008140, em_info = 1\<rparr>))]"
    using em_process_sends [OF example_em1_inv, where td = 2000 and tn = None] example_em1_facts by auto
  have "\<not> producerEnabled example_em1"
    "map_option (\<lambda>(em', _). CO_getErrorRegister em') (CO_EM_process example_em1 True 2000 None) = Some 0x10"
    "msg_data (complete_msg 0x10 \<lparr>em_msg = 0x12008140, em_info = 1\<rparr>) = [0x40, 0x81, 0x10, 0x12, 1, 0, 0, 0]"
    by code_simp+
  then show ?thesis using p by auto
qed

end
