(* ===== verification/NMT.thy ===== *)
theory NMT
  imports Emergency_Props
begin

text \<open>
  NMT slave and heartbeat producer (\<open>301/CO_NMT_Heartbeat.c\<close>, \<open>301/CO_NMT_Heartbeat.h\<close>): the
  state of the node, driven by commands of the NMT master, by the application and by the error
  conditions of the emergency object, and the boot-up and heartbeat messages.
\<close>

section \<open>The object\<close>

datatype CO_NMT_internalState =
  CO_NMT_UNKNOWN | CO_NMT_INITIALIZING | CO_NMT_PRE_OPERATIONAL | CO_NMT_OPERATIONAL | CO_NMT_STOPPED

text \<open>The value that a heartbeat carries, the enumerator cast to \<open>uint8_t\<close>.\<close>

fun nmt_state_value :: "CO_NMT_internalState \<Rightarrow> u8" where
  "nmt_state_value CO_NMT_UNKNOWN = 255"
| "nmt_state_value CO_NMT_INITIALIZING = 0"
| "nmt_state_value CO_NMT_PRE_OPERATIONAL = 127"
| "nmt_state_value CO_NMT_OPERATIONAL = 5"
| "nmt_state_value CO_NMT_STOPPED = 4"

text \<open>
  A command is the byte received, which need not be one of the enumerators of
  \<open>CO_NMT_command_t\<close>.
\<close>

abbreviation (input) "CO_NMT_NO_COMMAND \<equiv> 0 :: u8"
abbreviation (input) "CO_NMT_ENTER_OPERATIONAL \<equiv> 1 :: u8"
abbreviation (input) "CO_NMT_ENTER_STOPPED \<equiv> 2 :: u8"
abbreviation (input) "CO_NMT_ENTER_PRE_OPERATIONAL \<equiv> 128 :: u8"
abbreviation (input) "CO_NMT_RESET_NODE \<equiv> 129 :: u8"
abbreviation (input) "CO_NMT_RESET_COMMUNICATION \<equiv> 130 :: u8"

datatype CO_NMT_reset_cmd = CO_RESET_NOT | CO_RESET_COMM | CO_RESET_APP | CO_RESET_QUIT

abbreviation (input) "CO_NMT_STARTUP_TO_OPERATIONAL \<equiv> 0x0100 :: u16"
abbreviation (input) "CO_NMT_ERR_ON_BUSOFF_HB \<equiv> 0x1000 :: u16"
abbreviation (input) "CO_NMT_ERR_ON_ERR_REG \<equiv> 0x2000 :: u16"
abbreviation (input) "CO_NMT_ERR_TO_STOPPED \<equiv> 0x4000 :: u16"
abbreviation (input) "CO_NMT_ERR_FREE_TO_OPERATIONAL \<equiv> 0x8000 :: u16"

text \<open>
  \<open>CO_NMT_t\<close>; the emergency object it points to is an argument of the operations that read it.
\<close>

record CO_NMT =
  operatingState :: CO_NMT_internalState
  operatingStatePrev :: CO_NMT_internalState
  internalCommand :: u8
  nmt_nodeId :: u8
  NMTcontrol :: u16
  HBproducerTime_us :: u32
  HBproducerTimer :: u32
  OD_1017_extended :: bool
  NMT_TXbuff :: CANtx
  HB_TXbuff :: CANtx
  pFunctNMT :: bool

text \<open>
  Its world: the object dictionary's memory, the master commands and the heartbeats sent, and the
  states announced through the callback.
\<close>

record nmt = CO_NMT +
  nmt_mem :: mem
  nmt_sent :: "can_frame list"
  hb_sent :: "can_frame list"
  nmt_notified :: "CO_NMT_internalState list"

section \<open>Reception and commands\<close>

definition CO_NMT_receive :: "nmt \<Rightarrow> nat \<Rightarrow> u8 list \<Rightarrow> nmt" where
  "CO_NMT_receive NMT DLC data =
     (let command = data ! 0; node = data ! 1 in
      if DLC = 2 \<and> (node = 0 \<or> node = nmt_nodeId NMT) then NMT\<lparr>internalCommand := command\<rparr> else NMT)"

definition OD_write_1017 :: "nmt \<Rightarrow> OD_stream \<Rightarrow> u8 list \<Rightarrow> ODR \<times> OD_stream \<times> u32 \<times> nmt" where
  "OD_write_1017 NMT st b =
     (if stream_subIndex st \<noteq> 0 \<or> length b \<noteq> 2 then (ODR_DEV_INCOMPAT, st, 0, NMT)
      else
        let NMT = NMT\<lparr>HBproducerTime_us := ucast (le_word b :: u16) * 1000, HBproducerTimer := 0\<rparr>;
            (r, st', k, m) = OD_writeOriginal st b (nmt_mem NMT)
        in (r, st', k, NMT\<lparr>nmt_mem := m\<rparr>))"

definition CO_NMT_getInternalState :: "nmt \<Rightarrow> CO_NMT_internalState" where
  "CO_NMT_getInternalState NMT = operatingState NMT"

definition CO_NMT_sendInternalCommand :: "nmt \<Rightarrow> u8 \<Rightarrow> nmt" where
  "CO_NMT_sendInternalCommand NMT command = NMT\<lparr>internalCommand := command\<rparr>"

text \<open>The return value of the master's \<open>CO_NMT_sendCommand\<close> is that of the driver, \<open>ret\<close>.\<close>

definition CO_NMT_sendCommand :: "CO_ReturnError \<Rightarrow> nmt \<Rightarrow> u8 \<Rightarrow> u8 \<Rightarrow> CO_ReturnError \<times> nmt" where
  "CO_NMT_sendCommand ret NMT command node =
     (let NMT = (if node = 0 \<or> node = nmt_nodeId NMT then NMT\<lparr>internalCommand := command\<rparr> else NMT);
          tx = (NMT_TXbuff NMT)\<lparr>tx_data := (tx_data (NMT_TXbuff NMT))[0 := command, 1 := node]\<rparr>
      in (ret, NMT\<lparr>NMT_TXbuff := tx, nmt_sent := nmt_sent NMT @ [tx_frame tx]\<rparr>))"

definition CO_NMT_initCallbackChanged :: "nmt \<Rightarrow> bool \<Rightarrow> nmt" where
  "CO_NMT_initCallbackChanged NMT f =
     (let NMT = NMT\<lparr>pFunctNMT := f\<rparr> in
      if f then NMT\<lparr>nmt_notified := nmt_notified NMT @ [operatingState NMT]\<rparr> else NMT)"

section \<open>Initialisation\<close>

definition CO_NMT_init ::
    "CO_ReturnError \<Rightarrow> bool \<Rightarrow> bool \<Rightarrow> nmt \<Rightarrow> OD_entry option \<Rightarrow> bool \<Rightarrow> u8 \<Rightarrow> u16 \<Rightarrow> u16 \<Rightarrow> u16 \<Rightarrow> u16 \<Rightarrow>
     CO_ReturnError \<times> u32 option \<times> nmt" where
  "CO_NMT_init rxRet nmtTxOk hbTxOk NMT e1017 emOk node control firstHBTime_ms CANidTxNMT CANidTxHB =
     (if e1017 = None \<or> \<not> emOk then (CO_ERROR_ILLEGAL_ARGUMENT, None, NMT)
      else
        let NMT = NMT\<lparr>operatingState := CO_NMT_INITIALIZING, operatingStatePrev := CO_NMT_INITIALIZING,
                      internalCommand := CO_NMT_NO_COMMAND, nmt_nodeId := node, NMTcontrol := control,
                      HBproducerTime_us := 0, HBproducerTimer := ucast firstHBTime_ms * 1000,
                      OD_1017_extended := False, pFunctNMT := False\<rparr>;
            (odRet, ms, m) = OD_get_u16 e1017 0 True (nmt_mem NMT);
            NMT = NMT\<lparr>nmt_mem := m\<rparr>
        in if odRet \<noteq> ODR_OK then (CO_ERROR_OD_PARAMETERS, Some (ucast (OD_getIndex e1017)), NMT)
        else
          let NMT = NMT\<lparr>HBproducerTime_us := ucast ms * 1000, OD_1017_extended := True\<rparr>;
              NMT = (if HBproducerTimer NMT > HBproducerTime_us NMT
                     then NMT\<lparr>HBproducerTimer := HBproducerTime_us NMT\<rparr> else NMT)
          in if rxRet \<noteq> CO_ERROR_NO then (rxRet, None, NMT)
          else if \<not> nmtTxOk then (CO_ERROR_ILLEGAL_ARGUMENT, None, NMT)
          else
            let NMT = NMT\<lparr>NMT_TXbuff := CO_CANtxBufferInit CANidTxNMT 2 (NMT_TXbuff NMT)\<rparr>
            in if \<not> hbTxOk then (CO_ERROR_ILLEGAL_ARGUMENT, None, NMT)
            else (rxRet, None, NMT\<lparr>HB_TXbuff := CO_CANtxBufferInit CANidTxHB 1 (HB_TXbuff NMT)\<rparr>))"

section \<open>Processing\<close>

text \<open>The boot-up message or a heartbeat is sent; the result is also the node's state afterwards.\<close>

definition nmt_heartbeat :: "nmt \<Rightarrow> CO_NMT_internalState \<Rightarrow> nmt \<times> CO_NMT_internalState" where
  "nmt_heartbeat NMT st =
     (if st = CO_NMT_INITIALIZING \<or>
         (HBproducerTime_us NMT \<noteq> 0 \<and> (HBproducerTimer NMT = 0 \<or> st \<noteq> operatingStatePrev NMT)) then
        let tx = (HB_TXbuff NMT)\<lparr>tx_data := (tx_data (HB_TXbuff NMT))[0 := nmt_state_value st]\<rparr>;
            NMT = NMT\<lparr>HB_TXbuff := tx, hb_sent := hb_sent NMT @ [tx_frame tx]\<rparr>
        in if st = CO_NMT_INITIALIZING
           then (NMT, if NMTcontrol NMT AND CO_NMT_STARTUP_TO_OPERATIONAL \<noteq> 0 then CO_NMT_OPERATIONAL
                      else CO_NMT_PRE_OPERATIONAL)
           else (NMT\<lparr>HBproducerTimer := HBproducerTime_us NMT\<rparr>, st)
      else (NMT, st))"

definition nmt_command :: "u8 \<Rightarrow> CO_NMT_internalState \<Rightarrow> CO_NMT_internalState \<times> CO_NMT_reset_cmd" where
  "nmt_command command st =
     (if command = CO_NMT_ENTER_OPERATIONAL then (CO_NMT_OPERATIONAL, CO_RESET_NOT)
      else if command = CO_NMT_ENTER_STOPPED then (CO_NMT_STOPPED, CO_RESET_NOT)
      else if command = CO_NMT_ENTER_PRE_OPERATIONAL then (CO_NMT_PRE_OPERATIONAL, CO_RESET_NOT)
      else if command = CO_NMT_RESET_NODE then (st, CO_RESET_APP)
      else if command = CO_NMT_RESET_COMMUNICATION then (st, CO_RESET_COMM)
      else (st, CO_RESET_NOT))"

definition busOff_HB :: "u16 \<Rightarrow> em \<Rightarrow> bool" where
  "busOff_HB control em \<longleftrightarrow> control AND CO_NMT_ERR_ON_BUSOFF_HB \<noteq> 0 \<and>
     (CO_isError em CO_EM_CAN_TX_BUS_OFF \<or> CO_isError em CO_EM_HEARTBEAT_CONSUMER \<or>
      CO_isError em CO_EM_HB_CONSUMER_REMOTE_RESET)"

definition errRegMasked :: "u16 \<Rightarrow> em \<Rightarrow> bool" where
  "errRegMasked control em \<longleftrightarrow> control AND CO_NMT_ERR_ON_ERR_REG \<noteq> 0 \<and>
     CO_getErrorRegister em AND ucast control \<noteq> 0"

definition nmt_errors :: "u16 \<Rightarrow> em \<Rightarrow> CO_NMT_internalState \<Rightarrow> CO_NMT_internalState" where
  "nmt_errors control em st =
     (if st = CO_NMT_OPERATIONAL \<and> (busOff_HB control em \<or> errRegMasked control em)
      then if control AND CO_NMT_ERR_TO_STOPPED \<noteq> 0 then CO_NMT_STOPPED else CO_NMT_PRE_OPERATIONAL
      else if control AND CO_NMT_ERR_FREE_TO_OPERATIONAL \<noteq> 0 \<and> st = CO_NMT_PRE_OPERATIONAL \<and>
              \<not> busOff_HB control em \<and> \<not> errRegMasked control em
      then CO_NMT_OPERATIONAL
      else st)"

definition nmt_timerNext :: "nmt \<Rightarrow> CO_NMT_internalState \<Rightarrow> u32 option \<Rightarrow> u32 option" where
  "nmt_timerNext NMT st timerNext =
     (if HBproducerTime_us NMT \<noteq> 0 then
        map_option (\<lambda>t. if operatingStatePrev NMT \<noteq> st then 0 else min t (HBproducerTimer NMT)) timerNext
      else timerNext)"

definition CO_NMT_process ::
    "nmt \<Rightarrow> em \<Rightarrow> u32 \<Rightarrow> u32 option \<Rightarrow> CO_NMT_reset_cmd \<times> CO_NMT_internalState \<times> u32 option \<times> nmt" where
  "CO_NMT_process NMT em td timerNext =
     (let NNTinit = (operatingState NMT = CO_NMT_INITIALIZING);
          NMT = NMT\<lparr>HBproducerTimer := (if HBproducerTimer NMT > td then HBproducerTimer NMT - td else 0)\<rparr>;
          (NMT, st) = nmt_heartbeat NMT (operatingState NMT);
          NMT = NMT\<lparr>operatingStatePrev := st\<rparr>;
          (st, resetCommand) = nmt_command (internalCommand NMT) st;
          NMT = NMT\<lparr>internalCommand := CO_NMT_NO_COMMAND\<rparr>;
          st = nmt_errors (NMTcontrol NMT) em st;
          NMT = (if (operatingStatePrev NMT \<noteq> st \<or> NNTinit) \<and> pFunctNMT NMT
                 then NMT\<lparr>nmt_notified := nmt_notified NMT @ [st]\<rparr> else NMT)
      in (resetCommand, st, nmt_timerNext NMT st timerNext, NMT\<lparr>operatingState := st\<rparr>))"

section \<open>The object as a system of events\<close>

datatype nmt_event =
    Nmt_receive nat "u8 list"
  | Nmt_process em u32 "u32 option"
  | Nmt_command u8
  | Nmt_send CO_ReturnError u8 u8
  | Nmt_write_1017 OD_stream "u8 list"
  | Nmt_callback bool

fun nmt_step :: "nmt_event \<Rightarrow> nmt \<Rightarrow> nmt option" where
  "nmt_step (Nmt_receive n data) NMT = Some (CO_NMT_receive NMT n data)"
| "nmt_step (Nmt_process em td tn) NMT = Some (snd (snd (snd (CO_NMT_process NMT em td tn))))"
| "nmt_step (Nmt_command c) NMT = Some (CO_NMT_sendInternalCommand NMT c)"
| "nmt_step (Nmt_send ret c node) NMT = Some (snd (CO_NMT_sendCommand ret NMT c node))"
| "nmt_step (Nmt_write_1017 st b) NMT = Some (snd (snd (snd (OD_write_1017 NMT st b))))"
| "nmt_step (Nmt_callback f) NMT = Some (CO_NMT_initCallbackChanged NMT f)"

text \<open>
  The invariant: the state is one that CiA 301 has, the heartbeat buffer holds one byte, and the
  messages sent are none while initialising, and afterwards the boot-up message followed by
  heartbeats of the three other states.
\<close>

definition hb_data_ok :: "u8 list \<Rightarrow> bool" where
  "hb_data_ok d \<longleftrightarrow> d = [127] \<or> d = [5] \<or> d = [4]"

definition hb_log_ok :: "CO_NMT_internalState \<Rightarrow> u8 list list \<Rightarrow> bool" where
  "hb_log_ok st log \<longleftrightarrow> (if st = CO_NMT_INITIALIZING then log = []
     else log \<noteq> [] \<and> hd log = [0] \<and> list_all hb_data_ok (tl log))"

definition nmt_inv :: "nmt \<Rightarrow> bool" where
  "nmt_inv NMT \<longleftrightarrow> operatingState NMT \<noteq> CO_NMT_UNKNOWN \<and> length (tx_data (HB_TXbuff NMT)) = 8 \<and>
     tx_DLC (HB_TXbuff NMT) = 1 \<and> hb_log_ok (operatingState NMT) (map snd (hb_sent NMT))"

text \<open>The states that the three stages of the processing lead to.\<close>

lemma nmt_command_state: "fst (nmt_command c st) \<in> {st, CO_NMT_OPERATIONAL, CO_NMT_STOPPED, CO_NMT_PRE_OPERATIONAL}"
  by (simp add: nmt_command_def)

lemma nmt_errors_state:
  "nmt_errors control em st \<in> {st, CO_NMT_OPERATIONAL, CO_NMT_STOPPED, CO_NMT_PRE_OPERATIONAL}"
  by (simp add: nmt_errors_def)

lemma nmt_late_state:
  assumes "st \<noteq> CO_NMT_INITIALIZING" "st \<noteq> CO_NMT_UNKNOWN"
  shows "nmt_errors control em (fst (nmt_command c st)) \<noteq> CO_NMT_INITIALIZING"
    "nmt_errors control em (fst (nmt_command c st)) \<noteq> CO_NMT_UNKNOWN"
  using assms nmt_command_state [of c st] nmt_errors_state [of control em "fst (nmt_command c st)"] by auto

text \<open>What a call of the processing leaves, field by field.\<close>

definition hb_due :: "nmt \<Rightarrow> u32 \<Rightarrow> bool" where
  "hb_due NMT td \<longleftrightarrow> operatingState NMT = CO_NMT_INITIALIZING \<or>
     (HBproducerTime_us NMT \<noteq> 0 \<and> (HBproducerTimer NMT \<le> td \<or> operatingState NMT \<noteq> operatingStatePrev NMT))"

definition boot_state :: "nmt \<Rightarrow> CO_NMT_internalState" where
  "boot_state NMT = (if operatingState NMT = CO_NMT_INITIALIZING
     then if NMTcontrol NMT AND CO_NMT_STARTUP_TO_OPERATIONAL \<noteq> 0 then CO_NMT_OPERATIONAL else CO_NMT_PRE_OPERATIONAL
     else operatingState NMT)"

abbreviation nmt_after :: "nmt \<Rightarrow> em \<Rightarrow> u32 \<Rightarrow> u32 option \<Rightarrow> nmt" where
  "nmt_after NMT em td tn \<equiv> snd (snd (snd (CO_NMT_process NMT em td tn)))"

text \<open>The heartbeat stage, after the timer was advanced.\<close>

definition hb_frame :: "nmt \<Rightarrow> can_frame" where
  "hb_frame NMT = (tx_ident (HB_TXbuff NMT), take (unat (tx_DLC (HB_TXbuff NMT)))
     ((tx_data (HB_TXbuff NMT))[0 := nmt_state_value (operatingState NMT)]))"

definition hb_timer :: "nmt \<Rightarrow> u32 \<Rightarrow> u32" where
  "hb_timer NMT td = (if hb_due NMT td \<and> operatingState NMT \<noteq> CO_NMT_INITIALIZING then HBproducerTime_us NMT
     else if HBproducerTimer NMT > td then HBproducerTimer NMT - td else 0)"

definition hb_stage :: "nmt \<Rightarrow> u32 \<Rightarrow> nmt" where
  "hb_stage NMT td = NMT\<lparr>HBproducerTimer := hb_timer NMT td,
     HB_TXbuff := (if hb_due NMT td
       then (HB_TXbuff NMT)\<lparr>tx_data := (tx_data (HB_TXbuff NMT))[0 := nmt_state_value (operatingState NMT)]\<rparr>
       else HB_TXbuff NMT),
     hb_sent := hb_sent NMT @ (if hb_due NMT td then [hb_frame NMT] else [])\<rparr>"

lemma hb_due_timer:
  "hb_due NMT td \<longleftrightarrow> operatingState NMT = CO_NMT_INITIALIZING \<or>
     (HBproducerTime_us NMT \<noteq> 0 \<and> ((if HBproducerTimer NMT > td then HBproducerTimer NMT - td else 0) = 0 \<or>
        operatingState NMT \<noteq> operatingStatePrev NMT))"
  by (auto simp: hb_due_def)

lemma nmt_heartbeat_eq:
  "nmt_heartbeat (NMT\<lparr>HBproducerTimer := (if HBproducerTimer NMT > td then HBproducerTimer NMT - td else 0)\<rparr>)
     (operatingState NMT) = (hb_stage NMT td, boot_state NMT)"
proof (cases "hb_due NMT td")
  case True
  note d = True [unfolded hb_due_timer]
  show ?thesis
  proof (cases "operatingState NMT = CO_NMT_INITIALIZING")
    case True
    then show ?thesis using d \<open>hb_due NMT td\<close>
      by (simp add: nmt_heartbeat_def hb_stage_def hb_timer_def boot_state_def tx_frame_def hb_frame_def)
  next
    case False
    then show ?thesis using d \<open>hb_due NMT td\<close>
      by (simp add: nmt_heartbeat_def hb_stage_def hb_timer_def boot_state_def tx_frame_def hb_frame_def)
  qed
next
  case False
  then have "operatingState NMT \<noteq> CO_NMT_INITIALIZING" by (simp add: hb_due_def)
  moreover note False [unfolded hb_due_timer]
  ultimately show ?thesis using False
    by (auto simp: nmt_heartbeat_def hb_stage_def hb_timer_def boot_state_def split: if_splits)
qed

lemma CO_NMT_process_fields:
  fixes NMT em td tn
  defines "NMT' \<equiv> nmt_after NMT em td tn"
  shows "operatingState NMT' = nmt_errors (NMTcontrol NMT) em (fst (nmt_command (internalCommand NMT) (boot_state NMT)))"
    and "operatingStatePrev NMT' = boot_state NMT" and "internalCommand NMT' = CO_NMT_NO_COMMAND"
    and "HBproducerTime_us NMT' = HBproducerTime_us NMT" and "NMTcontrol NMT' = NMTcontrol NMT"
    and "nmt_nodeId NMT' = nmt_nodeId NMT" and "HBproducerTimer NMT' = hb_timer NMT td"
    and "length (tx_data (HB_TXbuff NMT')) = length (tx_data (HB_TXbuff NMT))"
    and "tx_DLC (HB_TXbuff NMT') = tx_DLC (HB_TXbuff NMT)" and "tx_ident (HB_TXbuff NMT') = tx_ident (HB_TXbuff NMT)"
    and "hb_sent NMT' = hb_sent NMT @ (if hb_due NMT td then [hb_frame NMT] else [])"
  unfolding NMT'_def CO_NMT_process_def
  by (simp_all add: nmt_heartbeat_eq Let_def case_prod_beta) (simp_all add: hb_stage_def)

lemma CO_NMT_process_reset:
  "fst (CO_NMT_process NMT em td tn) = snd (nmt_command (internalCommand NMT) (boot_state NMT))"
  "fst (snd (CO_NMT_process NMT em td tn)) = operatingState (nmt_after NMT em td tn)"
  by (simp_all add: CO_NMT_process_def nmt_heartbeat_eq Let_def case_prod_beta hb_stage_def)

lemma boot_state_late: "operatingState NMT \<noteq> CO_NMT_UNKNOWN \<Longrightarrow>
  boot_state NMT \<noteq> CO_NMT_INITIALIZING \<and> boot_state NMT \<noteq> CO_NMT_UNKNOWN"
  by (simp add: boot_state_def)

lemma hb_frame_data: "nmt_inv NMT \<Longrightarrow> snd (hb_frame NMT) = [nmt_state_value (operatingState NMT)]"
  by (cases "tx_data (HB_TXbuff NMT)") (auto simp: nmt_inv_def hb_frame_def)

lemma CO_NMT_process_inv:
  assumes i: "nmt_inv NMT"
  shows "nmt_inv (nmt_after NMT em td tn)"
proof -
  note f = CO_NMT_process_fields [of NMT em td tn]
  have st: "operatingState NMT \<noteq> CO_NMT_UNKNOWN" using i by (simp add: nmt_inv_def)
  have late: "operatingState (nmt_after NMT em td tn) \<noteq> CO_NMT_INITIALIZING"
      "operatingState (nmt_after NMT em td tn) \<noteq> CO_NMT_UNKNOWN"
    using nmt_late_state boot_state_late [OF st] unfolding f(1) by blast+
  have log: "hb_log_ok (operatingState NMT) (map snd (hb_sent NMT))" using i by (simp add: nmt_inv_def)
  have v: "hb_data_ok [nmt_state_value (operatingState NMT)]" if "operatingState NMT \<noteq> CO_NMT_INITIALIZING"
    using that st by (cases "operatingState NMT") (simp_all add: hb_data_ok_def)
  have "hb_log_ok (operatingState (nmt_after NMT em td tn)) (map snd (hb_sent (nmt_after NMT em td tn)))"
  proof (cases "operatingState NMT = CO_NMT_INITIALIZING")
    case True
    then show ?thesis using log late hb_frame_data [OF i] unfolding f(11) by (simp add: hb_log_ok_def hb_due_def)
  next
    case False
    then show ?thesis using log late hb_frame_data [OF i] v unfolding f(11) by (auto simp: hb_log_ok_def)
  qed
  then show ?thesis using late i f(8,9) by (simp add: nmt_inv_def)
qed

lemma nmt_inv_other:
  "nmt_inv NMT \<Longrightarrow> nmt_inv (CO_NMT_receive NMT n d)"
  "nmt_inv NMT \<Longrightarrow> nmt_inv (CO_NMT_sendInternalCommand NMT c)"
  "nmt_inv NMT \<Longrightarrow> nmt_inv (snd (CO_NMT_sendCommand ret NMT c node))"
  "nmt_inv NMT \<Longrightarrow> nmt_inv (snd (snd (snd (OD_write_1017 NMT st b))))"
  "nmt_inv NMT \<Longrightarrow> nmt_inv (CO_NMT_initCallbackChanged NMT f)"
  by (simp_all add: nmt_inv_def CO_NMT_receive_def CO_NMT_sendInternalCommand_def CO_NMT_sendCommand_def
      OD_write_1017_def CO_NMT_initCallbackChanged_def Let_def case_prod_beta)

interpretation nmtsys: safe_system nmt_inv nmt_step
proof unfold_locales
  show "nmt_inv NMT \<Longrightarrow> wp (nmt_step e NMT) nmt_inv" for NMT e
    by (cases e) (simp_all add: nmt_inv_other CO_NMT_process_inv)
qed

lemma CO_NMT_init_inv:
  assumes "CO_NMT_init CO_ERROR_NO nmtTxOk hbTxOk NMT0 e1017 emOk node control first idNMT idHB = (CO_ERROR_NO, info, NMT)"
    and "hb_sent NMT0 = []" "length (tx_data (HB_TXbuff NMT0)) = 8"
  shows "nmt_inv NMT"
  using assms unfolding CO_NMT_init_def
  by (auto simp: Let_def nmt_inv_def hb_log_ok_def CO_CANtxBufferInit_def split: if_splits prod.splits)

section \<open>Properties\<close>

text \<open>
  C27: The node announces itself exactly once. In every run after the initialisation, the messages
  of the heartbeat producer are none while the node is initialising, and from then on one boot-up
  message (state 0) followed only by heartbeats of the states pre-operational, operational and
  stopped; the node never returns to the initialising state.
\<close>

theorem nmt_bootup_once:
  assumes "CO_NMT_init CO_ERROR_NO nmtTxOk hbTxOk NMT0 e1017 emOk node control first idNMT idHB = (CO_ERROR_NO, info, NMT)"
    and "hb_sent NMT0 = []" "length (tx_data (HB_TXbuff NMT0)) = 8"
  shows "\<exists>NMT'. run nmt_step es NMT = Some NMT' \<and>
    (operatingState NMT' = CO_NMT_INITIALIZING \<and> hb_sent NMT' = [] \<or>
     operatingState NMT' \<in> {CO_NMT_PRE_OPERATIONAL, CO_NMT_OPERATIONAL, CO_NMT_STOPPED} \<and>
     (\<exists>hbs. map snd (hb_sent NMT') = [0] # hbs \<and> set hbs \<subseteq> {[127], [5], [4]}))"
proof -
  obtain NMT' where r: "run nmt_step es NMT = Some NMT'" "nmt_inv NMT'"
    using nmtsys.run_defined [OF CO_NMT_init_inv [OF assms]] by blast
  show ?thesis
  proof (cases "operatingState NMT' = CO_NMT_INITIALIZING")
    case True
    then show ?thesis using r by (simp add: nmt_inv_def hb_log_ok_def)
  next
    case False
    then obtain hbs where "map snd (hb_sent NMT') = [0] # hbs" "list_all hb_data_ok hbs"
      using r(2) by (cases "map snd (hb_sent NMT')") (auto simp: nmt_inv_def hb_log_ok_def)
    moreover have "set hbs \<subseteq> {[127], [5], [4]}" using calculation by (auto simp: list_all_iff hb_data_ok_def)
    ultimately show ?thesis using r False by (cases "operatingState NMT'") (auto simp: nmt_inv_def)
  qed
qed

text \<open>
  C28: A node with an error is not operational. Whatever command arrives, if the error behaviour
  configured in \<open>NMTcontrol\<close> applies (bus-off or a heartbeat error, or a bit of the error register
  that is selected), the node is not operational after the processing.
\<close>

theorem nmt_error_not_operational:
  assumes "NMTcontrol NMT AND CO_NMT_ERR_ON_BUSOFF_HB \<noteq> 0 \<and>
      (CO_isError em CO_EM_CAN_TX_BUS_OFF \<or> CO_isError em CO_EM_HEARTBEAT_CONSUMER \<or> CO_isError em CO_EM_HB_CONSUMER_REMOTE_RESET) \<or>
    NMTcontrol NMT AND CO_NMT_ERR_ON_ERR_REG \<noteq> 0 \<and> CO_getErrorRegister em AND ucast (NMTcontrol NMT) \<noteq> 0"
  shows "operatingState (snd (snd (snd (CO_NMT_process NMT em td tn)))) \<noteq> CO_NMT_OPERATIONAL"
  using assms unfolding CO_NMT_process_fields(1) by (auto simp: nmt_errors_def busOff_HB_def errRegMasked_def)

text \<open>
  The node obeys the NMT master. A command addressed to all nodes or to this one is carried
  out by the next processing, when no error behaviour applies: the states operational, stopped and
  pre-operational are entered, the resets are reported to the application, other commands change
  nothing, and the command is consumed.
\<close>

theorem nmt_master_command:
  assumes "node = 0 \<or> node = nmt_nodeId NMT" "operatingState NMT \<noteq> CO_NMT_INITIALIZING"
    and "\<not> busOff_HB (NMTcontrol NMT) em" "\<not> errRegMasked (NMTcontrol NMT) em"
    and "NMTcontrol NMT AND CO_NMT_ERR_FREE_TO_OPERATIONAL = 0"
    and "CO_NMT_process (CO_NMT_receive NMT 2 [c, node]) em td tn = (reset, st, tn', NMT')"
  shows "st = (if c = CO_NMT_ENTER_OPERATIONAL then CO_NMT_OPERATIONAL else if c = CO_NMT_ENTER_STOPPED then CO_NMT_STOPPED
      else if c = CO_NMT_ENTER_PRE_OPERATIONAL then CO_NMT_PRE_OPERATIONAL else operatingState NMT) \<and>
    operatingState NMT' = st \<and>
    reset = (if c = CO_NMT_RESET_NODE then CO_RESET_APP else if c = CO_NMT_RESET_COMMUNICATION then CO_RESET_COMM else CO_RESET_NOT) \<and>
    internalCommand NMT' = CO_NMT_NO_COMMAND"
proof -
  let ?NMT = "CO_NMT_receive NMT 2 [c, node]"
  have r: "?NMT = NMT\<lparr>internalCommand := c\<rparr>" using assms(1) by (auto simp: CO_NMT_receive_def)
  have b: "boot_state ?NMT = operatingState NMT" using assms(2) by (simp add: r boot_state_def)
  have e: "nmt_errors (NMTcontrol NMT) em x = x" for x using assms(3-5) by (simp add: nmt_errors_def)
  have n: "NMT' = nmt_after ?NMT em td tn" using assms(6) by simp
  have c: "NMTcontrol ?NMT = NMTcontrol NMT" "internalCommand ?NMT = c" by (simp_all add: r)
  note f = CO_NMT_process_fields(1,3) [of ?NMT em td tn, folded n, unfolded b c e]
  have "reset = snd (nmt_command c (operatingState NMT))" "st = operatingState NMT'"
    using assms(6) CO_NMT_process_reset [of ?NMT em td tn, unfolded b c] by simp_all
  then show ?thesis unfolding f by (simp add: nmt_command_def)
qed

section \<open>Heartbeats\<close>

fun nmt_time :: "nmt_event \<Rightarrow> nat" where
  "nmt_time (Nmt_process em td tn) = unat td"
| "nmt_time _ = 0"

fun is_process :: "nmt_event \<Rightarrow> bool" where
  "is_process (Nmt_process em td tn) = True"
| "is_process _ = False"

fun sets_hb_time :: "nmt_event \<Rightarrow> bool" where
  "sets_hb_time (Nmt_write_1017 st b) = True"
| "sets_hb_time _ = False"

lemma nmt_step_hb_mono: "nmt_step e NMT = Some NMT' \<Longrightarrow> prefix (hb_sent NMT) (hb_sent NMT')"
  by (cases e) (auto simp: CO_NMT_process_fields(11) CO_NMT_receive_def CO_NMT_sendInternalCommand_def
      CO_NMT_sendCommand_def OD_write_1017_def CO_NMT_initCallbackChanged_def Let_def case_prod_beta)

lemma nmt_run_hb_mono: "run nmt_step es NMT = Some NMT' \<Longrightarrow> prefix (hb_sent NMT) (hb_sent NMT')"
proof (induction es arbitrary: NMT)
  case (Cons e es)
  then show ?case by (auto split: bind_splits dest!: nmt_step_hb_mono intro: prefix_order.trans)
qed simp

lemma nmt_other_step:
  assumes "nmt_step e NMT = Some NMT'" "\<not> is_process e" "\<not> sets_hb_time e"
  shows "hb_sent NMT' = hb_sent NMT \<and> HBproducerTimer NMT' = HBproducerTimer NMT \<and>
    HBproducerTime_us NMT' = HBproducerTime_us NMT"
  using assms by (cases e) (auto simp: CO_NMT_receive_def CO_NMT_sendInternalCommand_def
      CO_NMT_sendCommand_def CO_NMT_initCallbackChanged_def Let_def case_prod_beta)

lemma hb_timer_late: "\<not> hb_due NMT td \<Longrightarrow> HBproducerTime_us NMT \<noteq> 0 \<Longrightarrow>
  unat (hb_timer NMT td) = unat (HBproducerTimer NMT) - unat td \<and> unat td < unat (HBproducerTimer NMT)"
  by (auto simp: hb_due_def hb_timer_def not_le word_less_nat_alt word_le_nat_alt unat_minus_ge)

text \<open>
  C29: The heartbeat is never late. If the heartbeat time is not zero, then in every run in which
  the processing has accounted for at least the time left on the producer's timer, a heartbeat was
  sent, whatever else happened in between.
\<close>

theorem nmt_heartbeat_in_time:
  assumes "HBproducerTime_us NMT \<noteq> 0" "list_all (\<lambda>e. \<not> sets_hb_time e) es" "list_ex is_process es"
    and "unat (HBproducerTimer NMT) \<le> sum_list (map nmt_time es)" "run nmt_step es NMT = Some NMT'"
  shows "length (hb_sent NMT) < length (hb_sent NMT')"
  using assms
proof (induction es arbitrary: NMT)
  case (Cons e es)
  then obtain NMT1 where e: "nmt_step e NMT = Some NMT1" "run nmt_step es NMT1 = Some NMT'" by (auto split: bind_splits)
  note mono = prefix_length_le [OF nmt_run_hb_mono [OF e(2)]]
  show ?case
  proof (cases "is_process e")
    case True
    then obtain em td tn where Nmt_process: "e = Nmt_process em td tn" by (cases e) auto
    then have n1: "NMT1 = nmt_after NMT em td tn" using e(1) by simp
    note f = CO_NMT_process_fields [of NMT em td tn, folded n1]
    show ?thesis
    proof (cases "hb_due NMT td")
      case True
      then show ?thesis using f(11) mono by simp
    next
      case False
      note t = hb_timer_late [OF this Cons.prems(1)]
      have p: "list_ex is_process es"
      proof (rule ccontr)
        assume "\<not> list_ex is_process es"
        then have "nmt_time x = 0" if "x \<in> set es" for x using that by (cases x) (auto simp: list_ex_iff)
        then have "sum_list (map nmt_time es) = 0" by (simp add: sum_list_eq_0_iff)
        then show False using Cons.prems(4) t Nmt_process by (simp del: sum_list_eq_0_iff)
      qed
      then have "length (hb_sent NMT1) < length (hb_sent NMT')"
        using Cons.prems f(4,7) t Nmt_process e(2) by (intro Cons.IH) auto
      then show ?thesis using f(11) by simp
    qed
  next
    case False
    then have "nmt_time e = 0" by (cases e) auto
    then show ?thesis using False Cons.prems e(2) nmt_other_step [OF e(1)] Cons.IH [of NMT1] by simp
  qed
qed simp

text \<open>
  A change of state is announced at once. When the processing changes the state of a node with
  heartbeats, it asks to be called again immediately, and that call sends a heartbeat with the new
  state, whatever the timer says.
\<close>

theorem nmt_change_announced:
  assumes i: "nmt_inv NMT" and "HBproducerTime_us NMT \<noteq> 0" "operatingState NMT \<noteq> CO_NMT_INITIALIZING"
    and p: "CO_NMT_process NMT em td (Some tn) = (reset, st, tn', NMT')" and ch: "st \<noteq> operatingState NMT"
    and q: "CO_NMT_process NMT' em' td' tn2 = (reset', st', tn2', NMT'')"
  shows "tn' = Some 0 \<and> hb_sent NMT'' = hb_sent NMT' @ [(tx_ident (HB_TXbuff NMT), [nmt_state_value st])]"
proof -
  have n: "NMT' = nmt_after NMT em td (Some tn)" "NMT'' = nmt_after NMT' em' td' tn2" using p q by simp_all
  note f = CO_NMT_process_fields [of NMT em td "Some tn", folded n]
  have st: "st = operatingState NMT'" using p CO_NMT_process_reset(2) [of NMT em td "Some tn"] by simp
  have b: "boot_state NMT = operatingState NMT" using assms(3) by (simp add: boot_state_def)
  have "hb_due NMT' td'" using assms(2) ch st f(2,4) b by (simp add: hb_due_def)
  moreover have "hb_frame NMT' = (tx_ident (HB_TXbuff NMT), [nmt_state_value st])"
    using hb_frame_data [of NMT'] CO_NMT_process_inv [OF i] n(1) f(10) st
    by (metis hb_frame_def fst_conv prod.collapse)
  moreover have "tn' = Some 0"
    using p ch assms(2) b st by (auto simp: CO_NMT_process_def nmt_heartbeat_eq Let_def case_prod_beta nmt_timerNext_def hb_stage_def)
  ultimately show ?thesis using CO_NMT_process_fields(11) [of NMT' em' td' tn2, folded n(2)] by simp
qed

section \<open>Examples\<close>

text \<open>
  Node 5, heartbeat time one second, started to operational, errors lead to pre-operational; and
  the same node after its boot-up message.
\<close>

definition example_nmt0 :: nmt where
  "example_nmt0 = \<lparr>operatingState = CO_NMT_UNKNOWN, operatingStatePrev = CO_NMT_UNKNOWN, internalCommand = 0,
     nmt_nodeId = 0, NMTcontrol = 0, HBproducerTime_us = 0, HBproducerTimer = 0, OD_1017_extended = False,
     NMT_TXbuff = example_tx, HB_TXbuff = example_tx, pFunctNMT = False,
     nmt_mem = mem_write (\<lambda>_. 0) 0 [0xE8, 0x03], nmt_sent = [], hb_sent = [], nmt_notified = []\<rparr>"

definition example_nmt_init :: "CO_ReturnError \<times> u32 option \<times> nmt" where
  "example_nmt_init = CO_NMT_init CO_ERROR_NO True True example_nmt0 (example_var 0x1017 0 2) True 5 0x1100 500 0 0x705"

definition example_nmt :: nmt where
  "example_nmt = snd (snd example_nmt_init)"

definition example_nmt1 :: nmt where
  "example_nmt1 = nmt_after example_nmt example_em 100 None"

lemma example_nmt_init_eq: "example_nmt_init = (CO_ERROR_NO, None, example_nmt)"
proof -
  have "fst example_nmt_init = CO_ERROR_NO" "fst (snd example_nmt_init) = None" by code_simp+
  then show ?thesis by (simp add: example_nmt_def prod_eq_iff)
qed

lemma example_nmt_inv: "nmt_inv example_nmt" "nmt_inv example_nmt1"
proof -
  show "nmt_inv example_nmt"
    using CO_NMT_init_inv [OF example_nmt_init_eq [unfolded example_nmt_init_def]]
    by (simp add: example_nmt0_def example_tx_def)
  then show "nmt_inv example_nmt1" unfolding example_nmt1_def by (rule CO_NMT_process_inv)
qed

lemma example_nmt1_facts:
  "operatingState example_nmt1 = CO_NMT_OPERATIONAL" "HBproducerTime_us example_nmt1 = 1000000"
  "HBproducerTimer example_nmt1 = 499900" "NMTcontrol example_nmt1 = 0x1100" "nmt_nodeId example_nmt1 = 5"
  "tx_ident (HB_TXbuff example_nmt1) = 0x705" "map snd (hb_sent example_nmt1) = [[0]]"
  by code_simp+

lemma example_em_busOff: "\<not> busOff_HB 0x1100 example_em" "\<not> errRegMasked 0x1100 example_em" "CO_isError example_em1 0x12"
  by code_simp+

theorem nmt_bootup_once_witness:
  "\<exists>NMT'. run nmt_step [Nmt_process example_em 100 None, Nmt_command 2, Nmt_process example_em 500000 None] example_nmt = Some NMT' \<and>
    (operatingState NMT' = CO_NMT_INITIALIZING \<and> hb_sent NMT' = [] \<or>
     operatingState NMT' \<in> {CO_NMT_PRE_OPERATIONAL, CO_NMT_OPERATIONAL, CO_NMT_STOPPED} \<and>
     (\<exists>hbs. map snd (hb_sent NMT') = [0] # hbs \<and> set hbs \<subseteq> {[127], [5], [4]}))"
  by (rule nmt_bootup_once [OF example_nmt_init_eq [unfolded example_nmt_init_def]])
    (simp_all add: example_nmt0_def example_tx_def)

theorem nmt_error_not_operational_witness:
  "operatingState example_nmt1 = CO_NMT_OPERATIONAL \<and>
   operatingState (snd (snd (snd (CO_NMT_process example_nmt1 example_em1 10 None)))) \<noteq> CO_NMT_OPERATIONAL"
  using nmt_error_not_operational [of example_nmt1 example_em1 10 None] example_nmt1_facts example_em_busOff by simp

theorem nmt_master_command_witness:
  "\<exists>NMT' tn'. CO_NMT_process (CO_NMT_receive example_nmt1 2 [2, 5]) example_em 10 None = (CO_RESET_NOT, CO_NMT_STOPPED, tn', NMT')"
proof -
  obtain reset st tn' NMT' where p: "CO_NMT_process (CO_NMT_receive example_nmt1 2 [2, 5]) example_em 10 None = (reset, st, tn', NMT')"
    by (cases "CO_NMT_process (CO_NMT_receive example_nmt1 2 [2, 5]) example_em 10 None")
  have "st = CO_NMT_STOPPED" "reset = CO_RESET_NOT"
    using nmt_master_command [OF _ _ _ _ _ p] example_nmt1_facts example_em_busOff by simp_all
  then show ?thesis using p by blast
qed

theorem nmt_heartbeat_in_time_witness:
  "\<exists>NMT'. run nmt_step [Nmt_process example_em 400000 None, Nmt_command 0, Nmt_process example_em 100000 None] example_nmt1 = Some NMT' \<and>
     1 < length (hb_sent NMT')"
proof -
  let ?es = "[Nmt_process example_em 400000 None, Nmt_command 0, Nmt_process example_em 100000 None]"
  obtain NMT' where r: "run nmt_step ?es example_nmt1 = Some NMT'" using nmtsys.run_defined [OF example_nmt_inv(2)] by blast
  have "length (hb_sent example_nmt1) = 1" using example_nmt1_facts(7) by (metis length_map list.size(3,4) One_nat_def add_0)
  moreover have "length (hb_sent example_nmt1) < length (hb_sent NMT')"
    by (rule nmt_heartbeat_in_time [OF _ _ _ _ r]) (simp_all add: example_nmt1_facts)
  ultimately show ?thesis using r by (simp del: run.simps)
qed

theorem nmt_change_announced_witness:
  "\<exists>reset NMT' reset' st' tn2 NMT''.
     CO_NMT_process example_nmt1 example_em1 10 (Some 99) = (reset, CO_NMT_PRE_OPERATIONAL, Some 0, NMT') \<and>
     CO_NMT_process NMT' example_em1 20 None = (reset', st', tn2, NMT'') \<and>
     hb_sent NMT'' = hb_sent NMT' @ [(0x705, [127])]"
proof -
  obtain reset st tn' NMT' where p: "CO_NMT_process example_nmt1 example_em1 10 (Some 99) = (reset, st, tn', NMT')"
    by (cases "CO_NMT_process example_nmt1 example_em1 10 (Some 99)")
  obtain reset' st' tn2' NMT'' where q: "CO_NMT_process NMT' example_em1 20 None = (reset', st', tn2', NMT'')"
    by (cases "CO_NMT_process NMT' example_em1 20 None")
  have "fst (snd (CO_NMT_process example_nmt1 example_em1 10 (Some 99))) = CO_NMT_PRE_OPERATIONAL" by code_simp
  then have st: "st = CO_NMT_PRE_OPERATIONAL" using p by simp
  then have "tn' = Some 0 \<and> hb_sent NMT'' = hb_sent NMT' @ [(0x705, [127])]"
    using nmt_change_announced [OF example_nmt_inv(2) _ _ p _ q] example_nmt1_facts(1,2,6) by simp
  then show ?thesis using p q st by blast
qed

end
