(* ===== verification/HBconsumer.thy ===== *)
theory HBconsumer
  imports NMT
begin

text \<open>
  Heartbeat consumer (\<open>301/CO_HBconsumer.c\<close>, \<open>301/CO_HBconsumer.h\<close>): the monitoring of other
  nodes by their heartbeats. Each monitored node has a state; a heartbeat that does not arrive in
  time, and a boot-up message of an active node, are reported to the emergency object, and the
  reports are withdrawn when all monitored nodes are active again.
\<close>

section \<open>The object\<close>

datatype CO_HBconsumer_state =
  CO_HBconsumer_UNCONFIGURED | CO_HBconsumer_UNKNOWN | CO_HBconsumer_ACTIVE | CO_HBconsumer_TIMEOUT

text \<open>
  \<open>CO_HBconsNode_t\<close>. The NMT state is the byte received, or -1 (\<open>CO_NMT_UNKNOWN\<close>); \<open>hb_rxIdent\<close> is the
  identifier configured in the node's receive buffer.
\<close>

record HBconsNode =
  hb_nodeId :: u8
  NMTstate :: int
  HBstate :: CO_HBconsumer_state
  timeoutTimer :: u32
  time_us :: u32
  CANrxNew :: bool
  NMTstatePrev :: int
  hb_rxIdent :: u16

record CO_HBconsumer =
  monitoredNodes :: "HBconsNode list"
  numberOfMonitoredNodes :: u8
  allMonitoredActive :: bool
  allMonitoredOperational :: bool
  NMTisPreOrOperationalPrev :: bool
  OD_1016_extended :: bool
  pFunctSignalNmtChanged :: bool

text \<open>
  Its world: the emergency object it reports to (which holds the memory of the object dictionary)
  and the calls of the callback (node, index, NMT state).
\<close>

record hbc = CO_HBconsumer +
  hb_em :: em
  hb_signalled :: "(u8 \<times> nat \<times> int) list"

abbreviation (input) "HB_NMT_UNKNOWN \<equiv> -1 :: int"
abbreviation (input) "HB_NMT_INITIALIZING \<equiv> 0 :: int"
abbreviation (input) "HB_NMT_OPERATIONAL \<equiv> 5 :: int"
abbreviation (input) "CO_EMC_HEARTBEAT \<equiv> 0x8130 :: u16"
abbreviation (input) "CO_CAN_ID_HEARTBEAT \<equiv> 0x700 :: u16"

section \<open>Reception and configuration\<close>

definition CO_HBcons_receive :: "HBconsNode \<Rightarrow> nat \<Rightarrow> u8 list \<Rightarrow> HBconsNode" where
  "CO_HBcons_receive node DLC data =
     (if DLC = 1 then node\<lparr>NMTstate := uint (data ! 0), CANrxNew := True\<rparr> else node)"

definition hb_duplicate :: "hbc \<Rightarrow> u8 \<Rightarrow> u8 \<Rightarrow> u16 \<Rightarrow> bool" where
  "hb_duplicate hb idx node ms \<longleftrightarrow> ms \<noteq> 0 \<and> node \<noteq> 0 \<and>
     list_ex (\<lambda>i. unat idx \<noteq> i \<and> time_us (monitoredNodes hb ! i) \<noteq> 0 \<and> hb_nodeId (monitoredNodes hb ! i) = node)
       [0..<unat (numberOfMonitoredNodes hb)]"

text \<open>\<open>rxRet\<close> is what the driver's \<open>CO_CANrxBufferInit\<close> returns.\<close>

definition hb_configure :: "HBconsNode \<Rightarrow> u8 \<Rightarrow> u16 \<Rightarrow> HBconsNode" where
  "hb_configure n node ms =
     (let n = n\<lparr>hb_nodeId := node, time_us := ucast ms * 1000, NMTstate := HB_NMT_UNKNOWN,
                NMTstatePrev := HB_NMT_UNKNOWN, CANrxNew := False\<rparr> in
      if hb_nodeId n \<noteq> 0 \<and> time_us n \<noteq> 0
      then n\<lparr>hb_rxIdent := ucast (hb_nodeId n) + CO_CAN_ID_HEARTBEAT, HBstate := CO_HBconsumer_UNKNOWN\<rparr>
      else n\<lparr>hb_rxIdent := 0, time_us := 0, HBstate := CO_HBconsumer_UNCONFIGURED\<rparr>)"

definition CO_HBconsumer_initEntry ::
    "CO_ReturnError \<Rightarrow> hbc \<Rightarrow> u8 \<Rightarrow> u8 \<Rightarrow> u16 \<Rightarrow> (CO_ReturnError \<times> hbc) option" where
  "CO_HBconsumer_initEntry rxRet hb idx node ms =
     (if idx \<ge> numberOfMonitoredNodes hb then Some (CO_ERROR_ILLEGAL_ARGUMENT, hb)
      else if unat (numberOfMonitoredNodes hb) > length (monitoredNodes hb) then None
      else if hb_duplicate hb idx node ms then Some (CO_ERROR_OD_PARAMETERS, hb)
      else do {
        n \<leftarrow> arr_get (monitoredNodes hb) (unat idx);
        ns \<leftarrow> arr_set (monitoredNodes hb) (unat idx) (hb_configure n node ms);
        Some (rxRet, hb\<lparr>monitoredNodes := ns\<rparr>)
      })"

definition OD_write_1016 ::
    "CO_ReturnError \<Rightarrow> hbc \<Rightarrow> OD_stream \<Rightarrow> u8 list \<Rightarrow> (ODR \<times> OD_stream \<times> u32 \<times> hbc) option" where
  "OD_write_1016 rxRet hb st b =
     (if stream_subIndex st < 1 \<or> stream_subIndex st > numberOfMonitoredNodes hb \<or> length b \<noteq> 4
      then Some (ODR_DEV_INCOMPAT, st, 0, hb)
      else do {
        let val = (le_word b :: u32);
        (ret, hb) \<leftarrow> CO_HBconsumer_initEntry rxRet hb (stream_subIndex st - 1) (ucast (drop_bit 16 val AND 0xFF))
          (ucast (val AND 0xFFFF));
        if ret \<noteq> CO_ERROR_NO then Some (ODR_PAR_INCOMPAT, st, 0, hb)
        else
          let (r, st', k, m) = OD_writeOriginal st b (em_mem (hb_em hb))
          in Some (r, st', k, hb\<lparr>hb_em := (hb_em hb)\<lparr>em_mem := m\<rparr>\<rparr>)
      })"

text \<open>
  \<open>CO_HBconsumer_init\<close>: the entries are configured from the object dictionary one after the other;
  a value that the check rejects leaves its entry as it is and is noted in \<open>errInfo\<close>.
\<close>

fun hb_init_entries ::
    "CO_ReturnError \<Rightarrow> OD_entry option \<Rightarrow> nat list \<Rightarrow> u32 option \<Rightarrow> hbc \<Rightarrow> (CO_ReturnError \<times> u32 option \<times> hbc) option" where
  "hb_init_entries rxRet e [] info hb = Some (CO_ERROR_NO, info, hb\<lparr>OD_1016_extended := True\<rparr>)"
| "hb_init_entries rxRet e (i # is) info hb =
     (let (odRet, val, m) = OD_get_u32 e (word_of_nat (i + 1)) True (em_mem (hb_em hb));
          hb = hb\<lparr>hb_em := (hb_em hb)\<lparr>em_mem := m\<rparr>\<rparr>;
          errInfo = Some (ucast (OD_getIndex e)) in
      if odRet \<noteq> ODR_OK then Some (CO_ERROR_OD_PARAMETERS, errInfo, hb)
      else do {
        (ret, hb) \<leftarrow> CO_HBconsumer_initEntry rxRet hb (word_of_nat i) (ucast (drop_bit 16 val AND 0xFF))
          (ucast (val AND 0xFFFF));
        if ret \<noteq> CO_ERROR_NO \<and> ret \<noteq> CO_ERROR_OD_PARAMETERS then Some (ret, errInfo, hb)
        else hb_init_entries rxRet e is (if ret \<noteq> CO_ERROR_NO then errInfo else info) hb
      })"

definition CO_HBconsumer_init ::
    "CO_ReturnError \<Rightarrow> em \<Rightarrow> HBconsNode list \<Rightarrow> u8 \<Rightarrow> OD_entry option \<Rightarrow> hbc \<Rightarrow>
     (CO_ReturnError \<times> u32 option \<times> hbc) option" where
  "CO_HBconsumer_init rxRet em nodes monitoredNodesCount e1016 hb =
     (case e1016 of
        None \<Rightarrow> Some (CO_ERROR_ILLEGAL_ARGUMENT, None, hb)
      | Some e \<Rightarrow>
          let sub = subEntriesCount e;
              n = (if sub \<noteq> 0 \<and> sub - 1 < monitoredNodesCount then sub - 1 else monitoredNodesCount)
          in hb_init_entries rxRet e1016 [0..<unat n] None
               \<lparr>monitoredNodes = nodes, numberOfMonitoredNodes = n, allMonitoredActive = False,
                allMonitoredOperational = False, NMTisPreOrOperationalPrev = False, OD_1016_extended = False,
                pFunctSignalNmtChanged = False, hb_em = em, hb_signalled = []\<rparr>)"

definition CO_HBconsumer_initCallbackNmtChanged :: "hbc \<Rightarrow> bool \<Rightarrow> hbc" where
  "CO_HBconsumer_initCallbackNmtChanged hb f = hb\<lparr>pFunctSignalNmtChanged := f\<rparr>"

section \<open>Processing\<close>

text \<open>
  A received message is evaluated: the node, the emergency object, and the time that counts for
  the timeout afterwards.
\<close>

definition hb_message :: "nat \<Rightarrow> u32 \<Rightarrow> HBconsNode \<Rightarrow> em \<Rightarrow> (HBconsNode \<times> em \<times> u32) option" where
  "hb_message i td n em =
     (if CANrxNew n then
        if NMTstate n = HB_NMT_INITIALIZING then do {
          em \<leftarrow> (if HBstate n = CO_HBconsumer_ACTIVE
                then CO_errorReport em CO_EM_HB_CONSUMER_REMOTE_RESET CO_EMC_HEARTBEAT (word_of_nat i) else Some em);
          Some (n\<lparr>HBstate := CO_HBconsumer_UNKNOWN, CANrxNew := False\<rparr>, em, td)
        }
        else Some (n\<lparr>HBstate := CO_HBconsumer_ACTIVE, timeoutTimer := 0, CANrxNew := False\<rparr>, em, 0)
      else Some (n, em, td))"

definition hb_check_timeout :: "nat \<Rightarrow> u32 \<Rightarrow> HBconsNode \<Rightarrow> em \<Rightarrow> u32 option \<Rightarrow> (HBconsNode \<times> em \<times> u32 option) option" where
  "hb_check_timeout i td n em tn =
     (if HBstate n = CO_HBconsumer_ACTIVE then
        let n = n\<lparr>timeoutTimer := timeoutTimer n + td\<rparr> in
        if timeoutTimer n \<ge> time_us n then do {
          em \<leftarrow> CO_errorReport em CO_EM_HEARTBEAT_CONSUMER CO_EMC_HEARTBEAT (word_of_nat i);
          Some (n\<lparr>NMTstate := HB_NMT_UNKNOWN, HBstate := CO_HBconsumer_TIMEOUT\<rparr>, em, tn)
        }
        else Some (n, em, map_option (min (time_us n - timeoutTimer n)) tn)
      else Some (n, em, tn))"

text \<open>One pass of the loop: the node is updated; changes of its NMT state are announced.\<close>

definition hb_node :: "bool \<Rightarrow> nat \<Rightarrow> u32 \<Rightarrow> HBconsNode \<Rightarrow> em \<Rightarrow> u32 option \<Rightarrow>
    (HBconsNode \<times> em \<times> u32 option \<times> (u8 \<times> nat \<times> int) list) option" where
  "hb_node signal i td n em tn =
     (if HBstate n = CO_HBconsumer_UNCONFIGURED then Some (n, em, tn, [])
      else do {
        (n, em, td) \<leftarrow> hb_message i td n em;
        (n, em, tn) \<leftarrow> hb_check_timeout i td n em tn;
        Some (if NMTstate n \<noteq> NMTstatePrev n
              then (n\<lparr>NMTstatePrev := NMTstate n\<rparr>, em, tn, if signal then [(hb_nodeId n, i, NMTstate n)] else [])
              else (n, em, tn, []))
      })"

fun hb_nodes :: "bool \<Rightarrow> nat \<Rightarrow> u32 \<Rightarrow> HBconsNode list \<Rightarrow> em \<Rightarrow> u32 option \<Rightarrow>
    (HBconsNode list \<times> em \<times> u32 option \<times> (u8 \<times> nat \<times> int) list) option" where
  "hb_nodes signal i td [] em tn = Some ([], em, tn, [])"
| "hb_nodes signal i td (n # ns) em tn = do {
     (n, em, tn, sg) \<leftarrow> hb_node signal i td n em tn;
     (ns, em, tn, sgs) \<leftarrow> hb_nodes signal (i + 1) td ns em tn;
     Some (n # ns, em, tn, sg @ sgs)
   }"

definition hb_clear :: "HBconsNode \<Rightarrow> HBconsNode" where
  "hb_clear n =
     (let n = n\<lparr>NMTstate := HB_NMT_UNKNOWN, NMTstatePrev := HB_NMT_UNKNOWN, CANrxNew := False\<rparr> in
      if HBstate n \<noteq> CO_HBconsumer_UNCONFIGURED then n\<lparr>HBstate := CO_HBconsumer_UNKNOWN\<rparr> else n)"

text \<open>The two flags that the loop computes: only configured nodes count.\<close>

definition hb_all_active :: "HBconsNode list \<Rightarrow> bool" where
  "hb_all_active ns = list_all (\<lambda>n. HBstate n \<noteq> CO_HBconsumer_UNCONFIGURED \<longrightarrow> HBstate n = CO_HBconsumer_ACTIVE) ns"

definition hb_all_operational :: "HBconsNode list \<Rightarrow> bool" where
  "hb_all_operational ns = list_all (\<lambda>n. HBstate n \<noteq> CO_HBconsumer_UNCONFIGURED \<longrightarrow> NMTstate n = HB_NMT_OPERATIONAL) ns"

definition hb_reset_errors :: "em \<Rightarrow> em option" where
  "hb_reset_errors em = do {
     em \<leftarrow> CO_errorReset em CO_EM_HEARTBEAT_CONSUMER 0;
     CO_errorReset em CO_EM_HB_CONSUMER_REMOTE_RESET 0
   }"

definition CO_HBconsumer_process :: "hbc \<Rightarrow> bool \<Rightarrow> u32 \<Rightarrow> u32 option \<Rightarrow> (hbc \<times> u32 option) option" where
  "CO_HBconsumer_process hb pre td tn =
     (let n = unat (numberOfMonitoredNodes hb); ns = take n (monitoredNodes hb); rest = drop n (monitoredNodes hb) in
      if length (monitoredNodes hb) < n then None
      else do {
        (ns, em, tn, sg, active, operational) \<leftarrow>
          (if pre \<and> NMTisPreOrOperationalPrev hb then do {
             (ns, em, tn, sg) \<leftarrow> hb_nodes (pFunctSignalNmtChanged hb) 0 td ns (hb_em hb) tn;
             Some (ns, em, tn, sg, hb_all_active ns, hb_all_operational ns)
           }
           else if pre \<or> NMTisPreOrOperationalPrev hb then Some (map hb_clear ns, hb_em hb, tn, [], False, False)
           else Some (ns, hb_em hb, tn, [], True, True));
        em \<leftarrow> (if \<not> allMonitoredActive hb \<and> active then hb_reset_errors em else Some em);
        Some (hb\<lparr>monitoredNodes := ns @ rest, hb_em := em, hb_signalled := hb_signalled hb @ sg,
                 allMonitoredActive := active, allMonitoredOperational := operational,
                 NMTisPreOrOperationalPrev := pre\<rparr>, tn)
      })"

section \<open>Queries\<close>

text \<open>
  The query functions of the option \<open>CO_CONFIG_HB_CONS_QUERY_FUNCT\<close>. The index is returned as a
  signed byte; \<open>None\<close> is an access outside of the table.
\<close>

definition CO_HBconsumer_getIdxByNodeId :: "hbc \<Rightarrow> u8 \<Rightarrow> int option" where
  "CO_HBconsumer_getIdxByNodeId hb node =
     (if unat (numberOfMonitoredNodes hb) > length (monitoredNodes hb) then None
      else Some (case find (\<lambda>i. hb_nodeId (monitoredNodes hb ! i) = node) [0..<unat (numberOfMonitoredNodes hb)] of
                   None \<Rightarrow> -1 | Some i \<Rightarrow> sint (word_of_nat i :: u8)))"

definition CO_HBconsumer_getState :: "hbc \<Rightarrow> u8 \<Rightarrow> CO_HBconsumer_state option" where
  "CO_HBconsumer_getState hb idx =
     (if idx \<ge> numberOfMonitoredNodes hb then Some CO_HBconsumer_UNCONFIGURED
      else map_option HBstate (arr_get (monitoredNodes hb) (unat idx)))"

definition CO_HBconsumer_getNmtState :: "hbc \<Rightarrow> u8 \<Rightarrow> (int \<times> int option) option" where
  "CO_HBconsumer_getNmtState hb idx =
     (if idx \<ge> numberOfMonitoredNodes hb then Some (-1, None)
      else map_option (\<lambda>n. if HBstate n = CO_HBconsumer_ACTIVE then (0, Some (NMTstate n)) else (-1, Some HB_NMT_INITIALIZING))
             (arr_get (monitoredNodes hb) (unat idx)))"

section \<open>One node\<close>

text \<open>
  What a call of the processing does to a node, and when it reports an error: a boot-up message of
  an active node, and a timeout.
\<close>

definition hb_after_message :: "u32 \<Rightarrow> HBconsNode \<Rightarrow> HBconsNode \<times> u32" where
  "hb_after_message td n =
     (if CANrxNew n then
        if NMTstate n = HB_NMT_INITIALIZING then (n\<lparr>HBstate := CO_HBconsumer_UNKNOWN, CANrxNew := False\<rparr>, td)
        else (n\<lparr>HBstate := CO_HBconsumer_ACTIVE, timeoutTimer := 0, CANrxNew := False\<rparr>, 0)
      else (n, td))"

definition hb_remote_reset :: "HBconsNode \<Rightarrow> bool" where
  "hb_remote_reset n \<longleftrightarrow> HBstate n = CO_HBconsumer_ACTIVE \<and> CANrxNew n \<and> NMTstate n = HB_NMT_INITIALIZING"

definition hb_expired :: "u32 \<Rightarrow> HBconsNode \<Rightarrow> bool" where
  "hb_expired td n \<longleftrightarrow> HBstate n \<noteq> CO_HBconsumer_UNCONFIGURED \<and>
     (let (n, td) = hb_after_message td n in HBstate n = CO_HBconsumer_ACTIVE \<and> timeoutTimer n + td \<ge> time_us n)"

definition hb_next :: "u32 \<Rightarrow> HBconsNode \<Rightarrow> HBconsNode" where
  "hb_next td n =
     (if HBstate n = CO_HBconsumer_UNCONFIGURED then n
      else
        let (n, td) = hb_after_message td n;
            n = (if HBstate n = CO_HBconsumer_ACTIVE
                 then let n = n\<lparr>timeoutTimer := timeoutTimer n + td\<rparr> in
                   if timeoutTimer n \<ge> time_us n
                   then n\<lparr>NMTstate := HB_NMT_UNKNOWN, HBstate := CO_HBconsumer_TIMEOUT\<rparr> else n
                 else n)
        in if NMTstate n \<noteq> NMTstatePrev n then n\<lparr>NMTstatePrev := NMTstate n\<rparr> else n)"

text \<open>The errors of the consumer in the emergency object after reports \<open>P\<close> and \<open>Q\<close>.\<close>

definition hb_reported :: "bool \<Rightarrow> bool \<Rightarrow> em \<Rightarrow> em \<Rightarrow> bool" where
  "hb_reported P Q em em' \<longleftrightarrow> em_inv em' \<and>
     (CO_isError em' CO_EM_HB_CONSUMER_REMOTE_RESET \<longleftrightarrow> CO_isError em CO_EM_HB_CONSUMER_REMOTE_RESET \<or> P) \<and>
     (CO_isError em' CO_EM_HEARTBEAT_CONSUMER \<longleftrightarrow> CO_isError em CO_EM_HEARTBEAT_CONSUMER \<or> Q)"

lemma hb_reported_refl: "em_inv em \<Longrightarrow> hb_reported False False em em"
  by (simp add: hb_reported_def)

lemma hb_reported_trans:
  "hb_reported P Q a b \<Longrightarrow> hb_reported P' Q' b c \<Longrightarrow> hb_reported (P \<or> P') (Q \<or> Q') a c"
  by (auto simp: hb_reported_def)

lemma hb_reported_report:
  assumes "em_inv em"
  shows "hb_reported True False em (error_result em True CO_EM_HB_CONSUMER_REMOTE_RESET c i)"
    "hb_reported False True em (error_result em True CO_EM_HEARTBEAT_CONSUMER c i)"
  using assms by (simp_all add: hb_reported_def error_result_isError error_result_inv err_bit_def)

lemma hb_message_eq:
  assumes "em_inv em"
  shows "\<exists>em'. hb_message i td n em = Some (fst (hb_after_message td n), em', snd (hb_after_message td n)) \<and>
    hb_reported (hb_remote_reset n) False em em'"
  using hb_reported_refl [OF assms] hb_reported_report(1) [OF assms]
  by (auto simp: hb_message_def hb_after_message_def hb_remote_reset_def CO_errorReport_eq [OF assms])

lemma hb_node_spec:
  assumes i: "em_inv em"
  shows "wp (hb_node signal k td n em tn)
    (\<lambda>(n', em', _). n' = hb_next td n \<and> hb_reported (hb_remote_reset n) (hb_expired td n) em em')"
proof (cases "HBstate n = CO_HBconsumer_UNCONFIGURED")
  case True
  then show ?thesis using hb_reported_refl [OF i] by (simp add: hb_node_def hb_next_def hb_expired_def hb_remote_reset_def)
next
  case False
  obtain n1 td1 where m: "hb_after_message td n = (n1, td1)" by (cases "hb_after_message td n")
  obtain em1 where e1: "hb_message k td n em = Some (n1, em1, td1)" "hb_reported (hb_remote_reset n) False em em1"
    using hb_message_eq [OF i, of k td n] m by auto
  have i1: "em_inv em1" using e1(2) by (simp add: hb_reported_def)
  show ?thesis
  proof (cases "hb_expired td n")
    case True
    then have "HBstate n1 = CO_HBconsumer_ACTIVE" "time_us n1 \<le> timeoutTimer n1 + td1"
      by (simp_all add: hb_expired_def m)
    then show ?thesis
      using False True e1(1) hb_reported_trans [OF e1(2) hb_reported_report(2) [OF i1]]
      by (simp add: hb_node_def hb_next_def m hb_check_timeout_def Let_def CO_errorReport_eq [OF i1])
  next
    case nt: False
    then have "HBstate n1 \<noteq> CO_HBconsumer_ACTIVE \<or> \<not> time_us n1 \<le> timeoutTimer n1 + td1"
      using False by (simp add: hb_expired_def m)
    then show ?thesis using False nt e1
      by (auto simp: hb_node_def hb_next_def m hb_check_timeout_def Let_def)
  qed
qed

lemma hb_nodes_spec:
  "em_inv em \<Longrightarrow> wp (hb_nodes signal k td ns em tn)
    (\<lambda>(ns', em', _). ns' = map (hb_next td) ns \<and>
       hb_reported (list_ex hb_remote_reset ns) (list_ex (hb_expired td) ns) em em')"
proof (induction ns arbitrary: k em tn)
  case Nil
  then show ?case by (simp add: hb_reported_refl)
next
  case (Cons n ns)
  obtain n' em1 tn1 sg where h: "hb_node signal k td n em tn = Some (n', em1, tn1, sg)"
      "n' = hb_next td n" "hb_reported (hb_remote_reset n) (hb_expired td n) em em1"
    using hb_node_spec [OF Cons.prems, of signal k td n tn] by (auto simp: wp_ex)
  have "em_inv em1" using h(3) by (simp add: hb_reported_def)
  from Cons.IH [OF this, of "k + 1" tn1] obtain em2 tn2 sgs where
    r: "hb_nodes signal (k + 1) td ns em1 tn1 = Some (map (hb_next td) ns, em2, tn2, sgs)"
      "hb_reported (list_ex hb_remote_reset ns) (list_ex (hb_expired td) ns) em1 em2"
    by (auto simp: wp_ex)
  show ?case using h(1,2) r(1) hb_reported_trans [OF h(3) r(2)] by simp
qed

section \<open>The whole consumer\<close>

abbreviation hb_count :: "hbc \<Rightarrow> nat" where
  "hb_count hb \<equiv> unat (numberOfMonitoredNodes hb)"

abbreviation hb_monitored :: "hbc \<Rightarrow> HBconsNode list" where
  "hb_monitored hb \<equiv> take (hb_count hb) (monitoredNodes hb)"

definition hb_inv :: "hbc \<Rightarrow> bool" where
  "hb_inv hb \<longleftrightarrow> em_inv (hb_em hb) \<and> hb_count hb \<le> length (monitoredNodes hb)"

abbreviation hb_no_error :: "em \<Rightarrow> bool" where
  "hb_no_error em \<equiv> \<not> CO_isError em CO_EM_HEARTBEAT_CONSUMER \<and> \<not> CO_isError em CO_EM_HB_CONSUMER_REMOTE_RESET"

lemma hb_reset_errors_eq:
  assumes "em_inv em"
  shows "\<exists>em'. hb_reset_errors em = Some em' \<and> em_inv em' \<and> hb_no_error em'"
  using assms by (simp add: hb_reset_errors_def CO_errorReset_eq error_result_inv error_result_isError err_bit_def)

text \<open>A call while the node is, and was, pre-operational or operational.\<close>

lemma CO_HBconsumer_process_monitor:
  fixes hb :: hbc and td :: u32
  assumes i: "hb_inv hb" and p: "NMTisPreOrOperationalPrev hb"
  defines "ns \<equiv> map (hb_next td) (hb_monitored hb)"
  shows "\<exists>hb' tn' em1. CO_HBconsumer_process hb True td tn = Some (hb', tn') \<and> hb_inv hb' \<and>
    numberOfMonitoredNodes hb' = numberOfMonitoredNodes hb \<and> hb_monitored hb' = ns \<and>
    length (monitoredNodes hb') = length (monitoredNodes hb) \<and>
    NMTisPreOrOperationalPrev hb' \<and> allMonitoredActive hb' = hb_all_active ns \<and>
    hb_reported (list_ex hb_remote_reset (hb_monitored hb)) (list_ex (hb_expired td) (hb_monitored hb)) (hb_em hb) em1 \<and>
    (if \<not> allMonitoredActive hb \<and> hb_all_active ns then hb_no_error (hb_em hb') else hb_em hb' = em1)"
proof -
  have len: "\<not> length (monitoredNodes hb) < hb_count hb" "em_inv (hb_em hb)" using i by (auto simp: hb_inv_def)
  obtain em1 tn1 sg where n: "hb_nodes (pFunctSignalNmtChanged hb) 0 td (hb_monitored hb) (hb_em hb) tn = Some (ns, em1, tn1, sg)"
      "hb_reported (list_ex hb_remote_reset (hb_monitored hb)) (list_ex (hb_expired td) (hb_monitored hb)) (hb_em hb) em1"
    using hb_nodes_spec [OF len(2), of "pFunctSignalNmtChanged hb" 0 td "hb_monitored hb" tn] by (auto simp: wp_ex ns_def)
  have i1: "em_inv em1" using n(2) by (simp add: hb_reported_def)
  obtain em2 where e2: "hb_reset_errors em1 = Some em2" "em_inv em2" "hb_no_error em2"
    using hb_reset_errors_eq [OF i1] by blast
  let ?em = "if \<not> allMonitoredActive hb \<and> hb_all_active ns then em2 else em1"
  let ?hb = "hb\<lparr>monitoredNodes := ns @ drop (hb_count hb) (monitoredNodes hb), hb_em := ?em,
    hb_signalled := hb_signalled hb @ sg, allMonitoredActive := hb_all_active ns,
    allMonitoredOperational := hb_all_operational ns, NMTisPreOrOperationalPrev := True\<rparr>"
  have l: "length ns = hb_count hb" using len(1) by (simp add: ns_def)
  have "CO_HBconsumer_process hb True td tn = Some (?hb, tn1)"
    using len p n(1) e2(1) by (simp add: CO_HBconsumer_process_def Let_def)
  moreover have "hb_inv ?hb" using i1 e2(2) l len(1) by (simp add: hb_inv_def)
  ultimately show ?thesis using n(2) e2(3) l len(1)
    by (intro exI [of _ ?hb] exI [of _ tn1] exI [of _ em1]) simp
qed

lemma CO_HBconsumer_process_other:
  assumes i: "hb_inv hb" and p: "\<not> (pre \<and> NMTisPreOrOperationalPrev hb)"
  shows "\<exists>hb' tn'. CO_HBconsumer_process hb pre td tn = Some (hb', tn') \<and> hb_inv hb' \<and>
    numberOfMonitoredNodes hb' = numberOfMonitoredNodes hb \<and> NMTisPreOrOperationalPrev hb' = pre \<and>
    hb_monitored hb' = (if pre \<or> NMTisPreOrOperationalPrev hb then map hb_clear (hb_monitored hb) else hb_monitored hb) \<and>
    allMonitoredActive hb' = (\<not> pre \<and> \<not> NMTisPreOrOperationalPrev hb) \<and>
    (if \<not> allMonitoredActive hb \<and> allMonitoredActive hb' then hb_no_error (hb_em hb') else hb_em hb' = hb_em hb)"
proof -
  have len: "\<not> length (monitoredNodes hb) < hb_count hb" "em_inv (hb_em hb)" using i by (auto simp: hb_inv_def)
  obtain em2 where e2: "hb_reset_errors (hb_em hb) = Some em2" "em_inv em2" "hb_no_error em2"
    using hb_reset_errors_eq [OF len(2)] by blast
  let ?c = "pre \<or> NMTisPreOrOperationalPrev hb"
  let ?ns = "if ?c then map hb_clear (hb_monitored hb) else hb_monitored hb"
  let ?em = "if \<not> allMonitoredActive hb \<and> \<not> ?c then em2 else hb_em hb"
  let ?hb = "hb\<lparr>monitoredNodes := ?ns @ drop (hb_count hb) (monitoredNodes hb), hb_em := ?em,
    hb_signalled := hb_signalled hb @ [], allMonitoredActive := \<not> ?c,
    allMonitoredOperational := \<not> ?c, NMTisPreOrOperationalPrev := pre\<rparr>"
  have l: "length ?ns = hb_count hb" using len(1) by simp
  have "CO_HBconsumer_process hb pre td tn = Some (?hb, tn)"
    using len(1) p e2(1) by (auto simp: CO_HBconsumer_process_def Let_def)
  moreover have "hb_inv ?hb" using len e2(2) l by (simp add: hb_inv_def)
  ultimately show ?thesis using e2(3) l len(1)
    by (intro exI [of _ ?hb] exI [of _ tn]) auto
qed

lemma CO_HBconsumer_process_inv: "hb_inv hb \<Longrightarrow> wp (CO_HBconsumer_process hb pre td tn) (\<lambda>(hb', _). hb_inv hb')"
  using CO_HBconsumer_process_monitor [of hb td tn] CO_HBconsumer_process_other [of hb pre td tn]
  by (cases "pre \<and> NMTisPreOrOperationalPrev hb") (auto simp: wp_ex)

lemma CO_HBconsumer_initEntry_eq:
  assumes "hb_inv hb"
  shows "CO_HBconsumer_initEntry rxRet hb idx node ms = Some (
    if idx \<ge> numberOfMonitoredNodes hb then (CO_ERROR_ILLEGAL_ARGUMENT, hb)
    else if hb_duplicate hb idx node ms then (CO_ERROR_OD_PARAMETERS, hb)
    else (rxRet, hb\<lparr>monitoredNodes := (monitoredNodes hb)[unat idx := hb_configure (monitoredNodes hb ! unat idx) node ms]\<rparr>))"
proof -
  have "hb_count hb \<le> length (monitoredNodes hb)" using assms by (simp add: hb_inv_def)
  then have "idx < numberOfMonitoredNodes hb \<Longrightarrow> unat idx < length (monitoredNodes hb)"
    by (simp add: word_less_nat_alt)
  then show ?thesis using assms
    by (auto simp: CO_HBconsumer_initEntry_def hb_inv_def not_le dest: leD)
qed

section \<open>The object as a system of events\<close>

text \<open>
  \<open>Hb_env\<close> is a change of the emergency object by the other parts of the stack: they keep its
  invariant and do not touch the two errors of the heartbeat consumer.
\<close>

datatype hb_event =
    Hb_receive nat nat "u8 list"
  | Hb_process bool u32 "u32 option"
  | Hb_write_1016 CO_ReturnError OD_stream "u8 list"
  | Hb_callback bool
  | Hb_env em

definition hb_env_ok :: "em \<Rightarrow> em \<Rightarrow> bool" where
  "hb_env_ok em em' \<longleftrightarrow> hb_reported False False em em'"

fun hb_step :: "hb_event \<Rightarrow> hbc \<Rightarrow> hbc option" where
  "hb_step (Hb_receive i DLC data) hb =
     (if i < hb_count hb then do {
        n \<leftarrow> arr_get (monitoredNodes hb) i;
        ns \<leftarrow> arr_set (monitoredNodes hb) i (CO_HBcons_receive n DLC data);
        Some (hb\<lparr>monitoredNodes := ns\<rparr>)
      } else Some hb)"
| "hb_step (Hb_process pre td tn) hb = map_option fst (CO_HBconsumer_process hb pre td tn)"
| "hb_step (Hb_write_1016 rxRet st b) hb = map_option (\<lambda>(_, _, _, hb). hb) (OD_write_1016 rxRet hb st b)"
| "hb_step (Hb_callback f) hb = Some (CO_HBconsumer_initCallbackNmtChanged hb f)"
| "hb_step (Hb_env em) hb = Some (if hb_env_ok (hb_em hb) em then hb\<lparr>hb_em := em\<rparr> else hb)"

text \<open>
  The invariant of the table: the state of an entry agrees with its configuration, an active node
  is not yet late, and no two entries monitor the same node; and when all nodes are active, the
  consumer has no error.
\<close>

definition hb_node_ok :: "HBconsNode \<Rightarrow> bool" where
  "hb_node_ok n \<longleftrightarrow> (HBstate n = CO_HBconsumer_UNCONFIGURED \<longleftrightarrow> time_us n = 0) \<and>
     (HBstate n = CO_HBconsumer_ACTIVE \<longrightarrow> timeoutTimer n < time_us n) \<and> time_us n \<le> 65535000 \<and>
     (time_us n \<noteq> 0 \<longrightarrow> hb_nodeId n \<noteq> 0 \<and> hb_rxIdent n = ucast (hb_nodeId n) + CO_CAN_ID_HEARTBEAT)"

definition hb_unique :: "HBconsNode list \<Rightarrow> bool" where
  "hb_unique ns \<longleftrightarrow> (\<forall>i<length ns. \<forall>j<length ns. i \<noteq> j \<longrightarrow> time_us (ns ! i) \<noteq> 0 \<longrightarrow> time_us (ns ! j) \<noteq> 0 \<longrightarrow>
     hb_nodeId (ns ! i) \<noteq> hb_nodeId (ns ! j))"

definition hb_good :: "hbc \<Rightarrow> bool" where
  "hb_good hb \<longleftrightarrow> hb_inv hb \<and> list_all hb_node_ok (hb_monitored hb) \<and> hb_unique (hb_monitored hb) \<and>
     (allMonitoredActive hb \<longrightarrow> hb_no_error (hb_em hb))"

lemma hb_same_ids:
  "hb_nodeId (hb_next td n) = hb_nodeId n" "time_us (hb_next td n) = time_us n" "hb_rxIdent (hb_next td n) = hb_rxIdent n"
  "hb_nodeId (hb_clear n) = hb_nodeId n" "time_us (hb_clear n) = time_us n" "hb_rxIdent (hb_clear n) = hb_rxIdent n"
  by (simp_all add: hb_next_def hb_after_message_def hb_clear_def Let_def)

lemma hb_next_ok: "hb_node_ok n \<Longrightarrow> hb_node_ok (hb_next td n)"
  by (auto simp: hb_node_ok_def hb_same_ids)
     (auto simp: hb_next_def hb_after_message_def Let_def not_le word_gt_0 split: if_splits)

lemma hb_clear_ok: "hb_node_ok n \<Longrightarrow> hb_node_ok (hb_clear n)"
  by (auto simp: hb_node_ok_def hb_same_ids) (auto simp: hb_clear_def Let_def split: if_splits)

lemma hb_unique_map:
  "(\<And>n. hb_nodeId (f n) = hb_nodeId n \<and> time_us (f n) = time_us n) \<Longrightarrow> hb_unique (map f ns) = hb_unique ns"
  by (auto simp: hb_unique_def)

lemma hb_configure_ok: "hb_node_ok (hb_configure n node ms)"
proof -
  have "unat ms \<le> 65535" using unat_u16_less [of ms] by simp
  then have "unat (ucast ms * 1000 :: u32) = unat ms * 1000" by (simp add: unat_mult_small unat_ucast_16_32)
  then have "(ucast ms * 1000 :: u32) \<le> 65535000" using \<open>unat ms \<le> 65535\<close> by (simp add: word_le_nat_alt)
  then show ?thesis by (auto simp: hb_configure_def hb_node_ok_def Let_def)
qed

lemma hb_configure_time: "time_us (hb_configure n node ms) \<noteq> 0 \<Longrightarrow> ms \<noteq> 0 \<and> node \<noteq> 0 \<and> hb_nodeId (hb_configure n node ms) = node"
  by (auto simp: hb_configure_def Let_def split: if_splits)

lemma hb_unique_configure:
  assumes "hb_unique (hb_monitored hb)" "\<not> hb_duplicate hb idx node ms" "hb_count hb \<le> length (monitoredNodes hb)"
  shows "hb_unique ((hb_monitored hb)[unat idx := hb_configure n node ms])"
proof -
  let ?c = "hb_configure n node ms"
  have l: "length (hb_monitored hb) = hb_count hb" using assms(3) by simp
  have new: "hb_nodeId (hb_monitored hb ! j) \<noteq> hb_nodeId ?c"
    if "j < hb_count hb" "unat idx \<noteq> j" "time_us (hb_monitored hb ! j) \<noteq> 0" "time_us ?c \<noteq> 0" for j
    using hb_configure_time [OF that(4)] assms(2) that by (auto simp: hb_duplicate_def list_ex_iff)
  show ?thesis
    unfolding hb_unique_def length_list_update l
  proof (intro allI impI)
    fix i j
    assume h: "i < hb_count hb" "j < hb_count hb" "i \<noteq> j" "time_us ((hb_monitored hb)[unat idx := ?c] ! i) \<noteq> 0"
      "time_us ((hb_monitored hb)[unat idx := ?c] ! j) \<noteq> 0"
    consider "i = unat idx" | "j = unat idx" | "i \<noteq> unat idx" "j \<noteq> unat idx" by blast
    then show "hb_nodeId ((hb_monitored hb)[unat idx := ?c] ! i) \<noteq> hb_nodeId ((hb_monitored hb)[unat idx := ?c] ! j)"
    proof cases
      case 3
      then show ?thesis using h assms(1) l by (simp add: hb_unique_def)
    qed (use h new [of i] new [of j] l in auto)
  qed
qed

lemma CO_HBconsumer_initEntry_good:
  assumes "hb_good hb" "CO_HBconsumer_initEntry rxRet hb idx node ms = Some (ret, hb')"
  shows "hb_good hb'"
proof -
  have i: "hb_inv hb" and l: "hb_count hb \<le> length (monitoredNodes hb)" using assms by (auto simp: hb_good_def hb_inv_def)
  let ?ns = "(monitoredNodes hb)[unat idx := hb_configure (monitoredNodes hb ! unat idx) node ms]"
  have cases: "hb' = hb \<or> \<not> hb_duplicate hb idx node ms \<and> hb' = hb\<lparr>monitoredNodes := ?ns\<rparr>"
    using assms(2) unfolding CO_HBconsumer_initEntry_eq [OF i] by (auto split: if_splits)
  show ?thesis
  proof (cases "hb' = hb")
    case False
    then have "\<not> hb_duplicate hb idx node ms" "hb' = hb\<lparr>monitoredNodes := ?ns\<rparr>" using cases by auto
    then show ?thesis using assms(1) l hb_unique_configure [of hb idx node ms]
      by (auto simp: hb_good_def hb_inv_def take_update_swap hb_configure_ok list_all_iff dest!: set_update_subset_insert [THEN subsetD])
  qed (use assms in simp)
qed

lemma hb_good_mem: "hb_good hb \<Longrightarrow> hb_good (hb\<lparr>hb_em := (hb_em hb)\<lparr>em_mem := m\<rparr>\<rparr>)"
  by (simp add: hb_good_def hb_inv_def CO_isError_def em_inv_def em_fifo_ok_def)

lemma OD_write_1016_good: "hb_good hb \<Longrightarrow> wp (OD_write_1016 rxRet hb st b) (\<lambda>(_, _, _, hb'). hb_good hb')"
proof -
  assume g: "hb_good hb"
  then have i: "hb_inv hb" by (simp add: hb_good_def)
  have "wp (CO_HBconsumer_initEntry rxRet hb idx node ms) (\<lambda>r. hb_good (snd r))" for idx node ms
    using CO_HBconsumer_initEntry_good [OF g, of rxRet idx node ms] CO_HBconsumer_initEntry_eq [OF i, of rxRet idx node ms]
    by (auto simp: wp_ex)
  from wp_mono [OF this] show ?thesis using g
    by (simp add: OD_write_1016_def Let_def wp_if case_prod_beta hb_good_mem)
qed

lemma hb_next_reports:
  assumes "HBstate (hb_next td n) \<noteq> CO_HBconsumer_UNCONFIGURED \<longrightarrow> HBstate (hb_next td n) = CO_HBconsumer_ACTIVE"
  shows "\<not> hb_remote_reset n" "\<not> hb_expired td n"
  using assms by (auto simp: hb_next_def hb_remote_reset_def hb_expired_def hb_after_message_def Let_def split: if_splits)

lemma hb_all_active_reports:
  assumes "hb_all_active (map (hb_next td) ns)"
  shows "\<not> list_ex hb_remote_reset ns" "\<not> list_ex (hb_expired td) ns"
  using assms hb_next_reports by (auto simp: hb_all_active_def list_all_iff list_ex_iff)

lemma CO_HBconsumer_process_good:
  assumes "hb_good hb"
  shows "wp (CO_HBconsumer_process hb pre td tn) (\<lambda>(hb', _). hb_good hb')"
proof (cases "pre \<and> NMTisPreOrOperationalPrev hb")
  case True
  let ?ns = "map (hb_next td) (hb_monitored hb)"
  have i: "hb_inv hb" using assms by (simp add: hb_good_def)
  obtain hb' tn' em1 where p: "CO_HBconsumer_process hb True td tn = Some (hb', tn')" "hb_inv hb'" "hb_monitored hb' = ?ns"
      "allMonitoredActive hb' = hb_all_active ?ns"
      "hb_reported (list_ex hb_remote_reset (hb_monitored hb)) (list_ex (hb_expired td) (hb_monitored hb)) (hb_em hb) em1"
      "if \<not> allMonitoredActive hb \<and> hb_all_active ?ns then hb_no_error (hb_em hb') else hb_em hb' = em1"
    using CO_HBconsumer_process_monitor [OF i, of td tn] True by blast
  have "hb_no_error (hb_em hb')" if a: "hb_all_active ?ns"
  proof (cases "allMonitoredActive hb")
    case True
    then have "hb_reported False False (hb_em hb) (hb_em hb')" "hb_no_error (hb_em hb)"
      using p(5,6) hb_all_active_reports [OF a] assms by (simp_all add: hb_good_def)
    then show ?thesis by (simp add: hb_reported_def)
  qed (use p(6) a in simp)
  then have "hb_good hb'" using assms p(2,3,4)
    by (auto simp: hb_good_def hb_unique_map hb_same_ids list_all_iff hb_next_ok)
  then show ?thesis using p(1) True by simp
next
  case False
  have i: "hb_inv hb" using assms by (simp add: hb_good_def)
  obtain hb' tn' where "CO_HBconsumer_process hb pre td tn = Some (hb', tn')" "hb_inv hb'"
    "hb_monitored hb' = (if pre \<or> NMTisPreOrOperationalPrev hb then map hb_clear (hb_monitored hb) else hb_monitored hb)"
    "if \<not> allMonitoredActive hb \<and> allMonitoredActive hb' then hb_no_error (hb_em hb') else hb_em hb' = hb_em hb"
    using CO_HBconsumer_process_other [OF i False] by blast
  then show ?thesis using assms
    by (auto simp: hb_good_def hb_unique_map hb_same_ids list_all_iff hb_clear_ok split: if_splits)
qed

lemma CO_HBcons_receive_same:
  "hb_nodeId (CO_HBcons_receive n DLC data) = hb_nodeId n" "time_us (CO_HBcons_receive n DLC data) = time_us n"
  "hb_node_ok (CO_HBcons_receive n DLC data) = hb_node_ok n"
  by (simp_all add: CO_HBcons_receive_def hb_node_ok_def)

lemma hb_receive_good:
  assumes "hb_good hb" "i < hb_count hb"
  shows "hb_good (hb\<lparr>monitoredNodes := (monitoredNodes hb)[i := CO_HBcons_receive (monitoredNodes hb ! i) DLC data]\<rparr>)"
proof -
  let ?ns = "(hb_monitored hb)[i := CO_HBcons_receive (monitoredNodes hb ! i) DLC data]"
  have l: "length (hb_monitored hb) = hb_count hb" using assms(1) by (simp add: hb_good_def hb_inv_def)
  have n: "hb_nodeId (?ns ! j) = hb_nodeId (hb_monitored hb ! j)" "time_us (?ns ! j) = time_us (hb_monitored hb ! j)"
    "hb_node_ok (?ns ! j) = hb_node_ok (hb_monitored hb ! j)"
    if "j < hb_count hb" for j using that assms l by (cases "i = j"; simp add: CO_HBcons_receive_same)+
  then have "hb_unique ?ns" "list_all hb_node_ok ?ns"
    using assms(1) l by (simp_all add: hb_good_def hb_unique_def list_all_length)
  then show ?thesis using assms(1) by (simp add: hb_good_def hb_inv_def take_update_swap)
qed

lemma hb_env_good: "hb_good hb \<Longrightarrow> hb_env_ok (hb_em hb) em \<Longrightarrow> hb_good (hb\<lparr>hb_em := em\<rparr>)"
  by (simp add: hb_good_def hb_inv_def hb_env_ok_def hb_reported_def)

interpretation hbsys: safe_system hb_good hb_step
proof unfold_locales
  fix hb e
  assume g: "hb_good hb"
  then have l: "hb_count hb \<le> length (monitoredNodes hb)" by (simp add: hb_good_def hb_inv_def)
  show "wp (hb_step e hb) hb_good"
  proof (cases e)
    case (Hb_process pre td tn)
    then show ?thesis using CO_HBconsumer_process_good [OF g, of pre td tn] by (simp add: case_prod_unfold)
  next
    case (Hb_write_1016 rxRet st b)
    then show ?thesis using OD_write_1016_good [OF g, of rxRet st b] by (simp add: case_prod_unfold)
  next
    case (Hb_callback f)
    then show ?thesis using g by (simp add: CO_HBconsumer_initCallbackNmtChanged_def hb_good_def hb_inv_def)
  qed (use g l hb_receive_good [OF g] hb_env_good [OF g] in auto)
qed

text \<open>The table is allocated with all bytes zero, so that no entry is configured before the initialisation.\<close>

definition hb_node_zero :: HBconsNode where
  "hb_node_zero = \<lparr>hb_nodeId = 0, NMTstate = 0, HBstate = CO_HBconsumer_UNCONFIGURED, timeoutTimer = 0, time_us = 0,
     CANrxNew = False, NMTstatePrev = 0, hb_rxIdent = 0\<rparr>"

lemma hb_init_entries_good:
  "hb_good hb \<Longrightarrow> wp (hb_init_entries rxRet e is info hb) (\<lambda>(_, _, hb'). hb_good hb')"
proof (induction "is" arbitrary: info hb)
  case Nil
  then show ?case by (simp add: hb_good_def hb_inv_def)
next
  case (Cons i "is")
  let ?g = "OD_get_u32 e (word_of_nat (i + 1)) True (em_mem (hb_em hb))"
  let ?hb = "hb\<lparr>hb_em := (hb_em hb)\<lparr>em_mem := snd (snd ?g)\<rparr>\<rparr>"
  have g: "hb_good ?hb" using Cons.prems by (rule hb_good_mem)
  then have i: "hb_inv ?hb" by (simp add: hb_good_def)
  have "wp (CO_HBconsumer_initEntry rxRet ?hb idx node ms) (\<lambda>r. hb_good (snd r))" for idx node ms
    using CO_HBconsumer_initEntry_good [OF g, of rxRet idx node ms] CO_HBconsumer_initEntry_eq [OF i, of rxRet idx node ms]
    by (auto simp: wp_ex)
  from wp_mono [OF this] show ?case using g Cons.IH
    by (simp add: Let_def case_prod_beta wp_if)
qed

lemma CO_HBconsumer_init_good:
  assumes "em_inv em" "unat count \<le> length nodes" "set nodes \<subseteq> {hb_node_zero}"
    and "CO_HBconsumer_init rxRet em nodes count (Some e) hb0 = Some (ret, info, hb)"
  shows "hb_good hb"
proof -
  have z: "nodes ! j = hb_node_zero" if "j < length nodes" for j using nth_mem [OF that] assms(3) by blast
  have "hb_good \<lparr>monitoredNodes = nodes, numberOfMonitoredNodes = n, allMonitoredActive = False,
      allMonitoredOperational = False, NMTisPreOrOperationalPrev = False, OD_1016_extended = False,
      pFunctSignalNmtChanged = False, hb_em = em, hb_signalled = []\<rparr>" if "n \<le> count" for n
  proof -
    have "unat n \<le> length nodes" using that assms(2) by (simp add: word_le_nat_alt)
    then show ?thesis using assms(1) z
      by (simp add: hb_good_def hb_inv_def hb_unique_def list_all_length hb_node_ok_def hb_node_zero_def)
  qed
  note w = hb_init_entries_good [OF this]
  define n where
    "n = (if subEntriesCount e \<noteq> 0 \<and> subEntriesCount e - 1 < count then subEntriesCount e - 1 else count)"
  have "n \<le> count" by (auto simp: n_def)
  note w = w [OF this, of rxRet "Some e" "[0..<unat n]" None]
  show ?thesis
    using wp_SomeD [OF w assms(4) [unfolded CO_HBconsumer_init_def option.case Let_def, folded n_def]] by simp
qed

section \<open>Properties\<close>

text \<open>
  C30: The heartbeat consumer is safe and its table stays consistent. In every run after the
  initialisation no array is accessed out of range; no two entries monitor the same node; an entry
  that monitors a node listens to that node's heartbeat identifier; and while all monitored nodes are
  active, the emergency object has no heartbeat error.
\<close>

theorem hb_table_consistent:
  assumes "em_inv em" "unat count \<le> length nodes" "set nodes \<subseteq> {hb_node_zero}"
    and "CO_HBconsumer_init rxRet em nodes count (Some e) hb0 = Some (ret, info, hb)"
  shows "\<exists>hb'. run hb_step es hb = Some hb' \<and>
    (\<forall>i<hb_count hb'. \<forall>j<hb_count hb'. i \<noteq> j \<longrightarrow>
      HBstate (hb_monitored hb' ! i) \<noteq> CO_HBconsumer_UNCONFIGURED \<longrightarrow> HBstate (hb_monitored hb' ! j) \<noteq> CO_HBconsumer_UNCONFIGURED \<longrightarrow>
      hb_nodeId (hb_monitored hb' ! i) \<noteq> hb_nodeId (hb_monitored hb' ! j)) \<and>
    (\<forall>i<hb_count hb'. HBstate (hb_monitored hb' ! i) \<noteq> CO_HBconsumer_UNCONFIGURED \<longrightarrow>
      hb_nodeId (hb_monitored hb' ! i) \<noteq> 0 \<and> hb_rxIdent (hb_monitored hb' ! i) = 0x700 + ucast (hb_nodeId (hb_monitored hb' ! i))) \<and>
    (allMonitoredActive hb' \<longrightarrow> \<not> CO_isError (hb_em hb') CO_EM_HEARTBEAT_CONSUMER \<and>
      \<not> CO_isError (hb_em hb') CO_EM_HB_CONSUMER_REMOTE_RESET)"
proof -
  obtain hb' where r: "run hb_step es hb = Some hb'" "hb_good hb'"
    using hbsys.run_defined [OF CO_HBconsumer_init_good [OF assms]] by blast
  then have l: "length (hb_monitored hb') = hb_count hb'" by (simp add: hb_good_def hb_inv_def)
  have ok: "hb_node_ok (hb_monitored hb' ! i)" if "i < hb_count hb'" for i
    using r(2) l that unfolding hb_good_def list_all_length by simp
  then have t: "HBstate (hb_monitored hb' ! i) \<noteq> CO_HBconsumer_UNCONFIGURED \<longleftrightarrow> time_us (hb_monitored hb' ! i) \<noteq> 0"
    if "i < hb_count hb'" for i using that by (simp add: hb_node_ok_def)
  have "hb_unique (hb_monitored hb')" "allMonitoredActive hb' \<longrightarrow> hb_no_error (hb_em hb')" using r(2) by (simp_all add: hb_good_def)
  then show ?thesis using r(1) t ok unfolding hb_unique_def l hb_node_ok_def by (metis add.commute)
qed

text \<open>
  The index that the query returns for a configured node leads to the node's entry, for tables of at
  most 128 entries; beyond, the signed result is negative.
\<close>

lemma find_upt_Some: "find P [0..<n] = Some i \<Longrightarrow> i < n \<and> P i"
  by (auto simp: find_Some_iff)

lemma CO_HBconsumer_getIdxByNodeId_correct:
  assumes "hb_good hb" "hb_count hb \<le> 128" "CO_HBconsumer_getIdxByNodeId hb node = Some k" "k \<noteq> -1"
  shows "0 \<le> k \<and> nat k < hb_count hb \<and> hb_nodeId (hb_monitored hb ! nat k) = node \<and>
    CO_HBconsumer_getState hb (word_of_int k) = Some (HBstate (hb_monitored hb ! nat k))"
proof -
  obtain i where i: "i < hb_count hb" "hb_nodeId (monitoredNodes hb ! i) = node" "k = sint (word_of_nat i :: u8)"
    using assms(3,4) by (auto simp: CO_HBconsumer_getIdxByNodeId_def dest: find_upt_Some split: if_splits option.splits)
  have u: "unat (word_of_nat i :: u8) = i" "i < 128" using i(1) assms(2) by (simp_all add: unat_of_nat)
  then have k: "k = int i" using i(3) by (simp add: signed_of_nat signed_take_bit_int_eq_self)
  then have "unat (word_of_int k :: u8) = i" using u(1) by simp
  then show ?thesis using i(1,2) k assms(1)
    by (auto simp: CO_HBconsumer_getState_def word_le_nat_alt hb_good_def hb_inv_def)
qed

text \<open>The silence of a node: no message for it, no change of the table, the consumer monitoring.\<close>

fun hb_silent :: "nat \<Rightarrow> hb_event \<Rightarrow> bool" where
  "hb_silent i (Hb_receive k DLC data) = (k \<noteq> i)"
| "hb_silent i (Hb_process pre td tn) = (pre \<and> td \<le> 0x7FFFFFFF)"
| "hb_silent i (Hb_write_1016 rxRet st b) = False"
| "hb_silent i _ = True"

fun hb_time :: "hb_event \<Rightarrow> nat" where
  "hb_time (Hb_process pre td tn) = unat td"
| "hb_time _ = 0"

text \<open>A silent node with at most \<open>T\<close> microseconds left, or already reported.\<close>

definition hb_waiting :: "nat \<Rightarrow> nat \<Rightarrow> hbc \<Rightarrow> bool" where
  "hb_waiting i T hb \<longleftrightarrow> i < hb_count hb \<and> NMTisPreOrOperationalPrev hb \<and> \<not> CANrxNew (hb_monitored hb ! i) \<and>
     (HBstate (hb_monitored hb ! i) = CO_HBconsumer_ACTIVE \<and>
        unat (time_us (hb_monitored hb ! i)) \<le> unat (timeoutTimer (hb_monitored hb ! i)) + T \<or>
      HBstate (hb_monitored hb ! i) = CO_HBconsumer_TIMEOUT \<and> \<not> allMonitoredActive hb \<and>
        CO_isError (hb_em hb) CO_EM_HEARTBEAT_CONSUMER)"

lemma hb_next_waiting:
  assumes "hb_node_ok n" "\<not> CANrxNew n" "td \<le> 0x7FFFFFFF"
  shows "\<not> CANrxNew (hb_next td n)"
    "HBstate n = CO_HBconsumer_TIMEOUT \<Longrightarrow> HBstate (hb_next td n) = CO_HBconsumer_TIMEOUT"
    "HBstate n = CO_HBconsumer_ACTIVE \<Longrightarrow> hb_expired td n \<Longrightarrow> HBstate (hb_next td n) = CO_HBconsumer_TIMEOUT"
    "HBstate n = CO_HBconsumer_ACTIVE \<Longrightarrow> \<not> hb_expired td n \<Longrightarrow> HBstate (hb_next td n) = CO_HBconsumer_ACTIVE \<and>
       unat (timeoutTimer (hb_next td n)) = unat (timeoutTimer n) + unat td"
proof -
  have "unat (timeoutTimer n + td) = unat (timeoutTimer n) + unat td" if "timeoutTimer n < time_us n"
    using assms that by (intro unat_plus_small) (simp add: hb_node_ok_def word_le_nat_alt word_less_nat_alt)
  then show "HBstate n = CO_HBconsumer_ACTIVE \<Longrightarrow> \<not> hb_expired td n \<Longrightarrow> HBstate (hb_next td n) = CO_HBconsumer_ACTIVE \<and>
       unat (timeoutTimer (hb_next td n)) = unat (timeoutTimer n) + unat td"
    using assms by (auto simp: hb_next_def hb_expired_def hb_after_message_def hb_node_ok_def Let_def)
qed (use assms in \<open>auto simp: hb_next_def hb_expired_def hb_after_message_def Let_def split: if_splits\<close>)

lemma hb_process_waiting:
  assumes g: "hb_good hb" and w: "hb_waiting i (unat td + T) hb" and td: "td \<le> 0x7FFFFFFF"
    and p: "CO_HBconsumer_process hb True td tn = Some (hb', tn')"
  shows "hb_waiting i T hb'"
proof -
  let ?n = "hb_monitored hb ! i" and ?ns = "map (hb_next td) (hb_monitored hb)"
  have inv: "hb_inv hb" and i: "i < hb_count hb" and l: "length (hb_monitored hb) = hb_count hb"
    and prev: "NMTisPreOrOperationalPrev hb"
    using g w by (auto simp: hb_good_def hb_inv_def hb_waiting_def)
  have ok: "hb_node_ok ?n" using g i l unfolding hb_good_def list_all_length by simp
  note q = CO_HBconsumer_process_monitor [OF inv prev, of td tn]
  obtain em1 where h: "numberOfMonitoredNodes hb' = numberOfMonitoredNodes hb" "hb_monitored hb' = ?ns"
      "NMTisPreOrOperationalPrev hb'" "allMonitoredActive hb' = hb_all_active ?ns"
      "hb_reported (list_ex hb_remote_reset (hb_monitored hb)) (list_ex (hb_expired td) (hb_monitored hb)) (hb_em hb) em1"
      "\<not> hb_all_active ?ns \<Longrightarrow> hb_em hb' = em1"
    using q p by (auto simp del: take_map)
  have n: "hb_monitored hb' ! i = hb_next td ?n" using h(2) i l by simp
  note nx = hb_next_waiting [OF ok _ td]
  have cn: "\<not> CANrxNew ?n" using w unfolding hb_waiting_def by blast
  have bad: "\<not> hb_all_active ?ns" if "HBstate (hb_next td ?n) = CO_HBconsumer_TIMEOUT"
    using that i l nth_mem [of i "hb_monitored hb"] by (force simp: hb_all_active_def list_all_iff)
  have err: "CO_isError em1 CO_EM_HEARTBEAT_CONSUMER" if "hb_expired td ?n \<or> CO_isError (hb_em hb) CO_EM_HEARTBEAT_CONSUMER"
    using h(5) that i l nth_mem [of i "hb_monitored hb"] by (auto simp: hb_reported_def list_ex_iff)
  show ?thesis
  proof (cases "HBstate ?n = CO_HBconsumer_ACTIVE \<and> \<not> hb_expired td ?n")
    case True
    then show ?thesis using w n h(1,3) nx(1,4) cn by (auto simp: hb_waiting_def hb_same_ids)
  next
    case False
    then have "HBstate (hb_next td ?n) = CO_HBconsumer_TIMEOUT" "hb_expired td ?n \<or> CO_isError (hb_em hb) CO_EM_HEARTBEAT_CONSUMER"
      using w nx(2,3) cn by (auto simp: hb_waiting_def)
    then show ?thesis using n h(1,3,4,6) bad err nx(1) cn i by (simp add: hb_waiting_def)
  qed
qed

lemma hb_step_waiting:
  assumes "hb_good hb" "hb_waiting i (hb_time e + T) hb" "hb_silent i e" "hb_step e hb = Some hb'"
  shows "hb_waiting i T hb'"
proof (cases e)
  case (Hb_process pre td tn)
  then show ?thesis using hb_process_waiting [OF assms(1)] assms by auto
next
  case (Hb_receive k DLC data)
  have "hb_count hb \<le> length (monitoredNodes hb)" using assms(1) by (simp add: hb_good_def hb_inv_def)
  then show ?thesis using Hb_receive assms(2-4) by (auto simp: hb_waiting_def split: if_splits)
next
  case (Hb_env em)
  then show ?thesis using assms(2,4) by (auto simp: hb_waiting_def hb_env_ok_def hb_reported_def split: if_splits)
qed (use assms in \<open>auto simp: hb_waiting_def CO_HBconsumer_initCallbackNmtChanged_def\<close>)

lemma hb_run_waiting:
  "hb_good hb \<Longrightarrow> hb_waiting i (sum_list (map hb_time es)) hb \<Longrightarrow> list_all (hb_silent i) es \<Longrightarrow>
   run hb_step es hb = Some hb' \<Longrightarrow> hb_good hb' \<and> hb_waiting i 0 hb'"
proof (induction es arbitrary: hb)
  case (Cons e es)
  then obtain hb1 where h: "hb_step e hb = Some hb1" "run hb_step es hb1 = Some hb'" by (auto split: bind_splits)
  have "hb_good hb1" using hbsys.step_ok [OF Cons.prems(1), of e] h(1) by simp
  moreover have "hb_waiting i (sum_list (map hb_time es)) hb1"
    using hb_step_waiting [OF Cons.prems(1) _ _ h(1)] Cons.prems(2,3) by simp
  ultimately show ?case using Cons.IH Cons.prems(3) h(2) by simp
qed simp

text \<open>A late node is reported; shared with the properties that follow it through the other objects.\<close>

lemma hb_silence_reported:
  assumes "hb_good hb" "i < hb_count hb" "NMTisPreOrOperationalPrev hb"
    and "HBstate (hb_monitored hb ! i) = CO_HBconsumer_ACTIVE" "\<not> CANrxNew (hb_monitored hb ! i)"
    and "list_all (hb_silent i) es" "unat (time_us (hb_monitored hb ! i)) \<le> sum_list (map hb_time es)"
  obtains hb' where "run hb_step es hb = Some hb'" "HBstate (hb_monitored hb' ! i) = CO_HBconsumer_TIMEOUT"
    "\<not> allMonitoredActive hb'" "CO_isError (hb_em hb') CO_EM_HEARTBEAT_CONSUMER"
proof -
  obtain hb' where r: "run hb_step es hb = Some hb'" using hbsys.run_defined [OF assms(1)] by blast
  have "hb_waiting i (sum_list (map hb_time es)) hb" using assms by (auto simp: hb_waiting_def)
  from hb_run_waiting [OF assms(1) this assms(6) r] have "hb_good hb'" "hb_waiting i 0 hb'" by auto
  moreover have "hb_node_ok (hb_monitored hb' ! i)"
    using calculation by (auto simp: hb_good_def hb_inv_def hb_waiting_def list_all_length)
  ultimately show ?thesis using that [OF r] by (auto simp: hb_waiting_def hb_node_ok_def word_less_nat_alt)
qed

text \<open>
  C31: A silent node is detected. If an active node sends no heartbeat while the processing accounts
  for its consumer time (in calls of less than 36 minutes each), then the node's state is timeout,
  the consumer does not consider all nodes active, and the heartbeat error is set in the emergency
  object; heartbeats of other nodes and the rest of the stack do not prevent it.
\<close>

theorem hb_timeout_detected:
  assumes "hb_good hb" "i < hb_count hb" "NMTisPreOrOperationalPrev hb"
    and "HBstate (hb_monitored hb ! i) = CO_HBconsumer_ACTIVE" "\<not> CANrxNew (hb_monitored hb ! i)"
    and "list_all (hb_silent i) es" "unat (time_us (hb_monitored hb ! i)) \<le> sum_list (map hb_time es)"
  shows "\<exists>hb'. run hb_step es hb = Some hb' \<and> HBstate (hb_monitored hb' ! i) = CO_HBconsumer_TIMEOUT \<and>
    \<not> allMonitoredActive hb' \<and> CO_isError (hb_em hb') CO_EM_HEARTBEAT_CONSUMER"
  using hb_silence_reported [OF assms] by metis

text \<open>
  While the node is not (pre-)operational, the consumer counts all its nodes as active and
  withdraws its errors in the second call, although none of them was heard of.
\<close>

lemma hb_stopped_clears_errors:
  assumes "hb_good hb" "\<not> NMTisPreOrOperationalPrev hb"
    and "CO_HBconsumer_process hb False td tn = Some (hb', tn')"
  shows "allMonitoredActive hb' \<and> hb_no_error (hb_em hb') \<and> hb_monitored hb' = hb_monitored hb"
  using CO_HBconsumer_process_other [of hb False td tn] assms by (auto simp: hb_good_def split: if_splits)

section \<open>Examples\<close>

text \<open>A consumer that monitors node 10 with a consumer time of 50 milliseconds, and has heard it.\<close>

definition example_1016 :: OD_entry where
  "example_1016 = \<lparr>entry_index = 0x1016, subEntriesCount = 3,
     odObject = Some (ODT_ARR \<lparr>arr_dataOrig0 = Some 99, arr_dataOrig = Some 100, arr_attribute0 = 1, arr_attribute = 3,
       arr_dataElementLength = 4, arr_dataElementSizeof = 4\<rparr>), extension = None\<rparr>"

definition example_hb_em :: em where
  "example_hb_em = example_em\<lparr>em_mem := mem_write (em_mem example_em) 100 [0x32, 0, 0x0A, 0, 0, 0, 0, 0]\<rparr>"

definition example_hbz :: hbc where
  "example_hbz = \<lparr>monitoredNodes = [], numberOfMonitoredNodes = 0, allMonitoredActive = False,
     allMonitoredOperational = False, NMTisPreOrOperationalPrev = False, OD_1016_extended = False,
     pFunctSignalNmtChanged = False, hb_em = example_hb_em, hb_signalled = []\<rparr>"

definition example_hb_init :: "(CO_ReturnError \<times> u32 option \<times> hbc) option" where
  "example_hb_init = CO_HBconsumer_init CO_ERROR_NO example_hb_em [hb_node_zero, hb_node_zero] 2 (Some example_1016) example_hbz"

definition example_hb0 :: hbc where
  "example_hb0 = snd (snd (the example_hb_init))"

definition example_hb :: hbc where
  "example_hb = the (run hb_step [Hb_process True 10 None, Hb_receive 0 1 [5], Hb_process True 10 None] example_hb0)"

lemma example_hb_em_inv: "em_inv example_hb_em"
  using example_em_inv by (simp add: example_hb_em_def)

lemma example_hb_init_eq:
  "CO_HBconsumer_init CO_ERROR_NO example_hb_em [hb_node_zero, hb_node_zero] 2 (Some example_1016) example_hbz =
     Some (CO_ERROR_NO, None, example_hb0)"
proof -
  have "map_option (\<lambda>(r, i, _). (r, i)) example_hb_init = Some (CO_ERROR_NO, None)" by code_simp
  then show ?thesis by (auto simp: example_hb_init_def example_hb0_def)
qed

lemma example_hb0_good: "hb_good example_hb0"
  by (rule CO_HBconsumer_init_good [OF example_hb_em_inv _ _ example_hb_init_eq]) simp_all

lemma example_hb_good: "hb_good example_hb"
  using hbsys.run_defined [OF example_hb0_good] unfolding example_hb_def by (metis option.sel)

lemma example_hb_facts:
  "hb_count example_hb = 2" "NMTisPreOrOperationalPrev example_hb" "HBstate (monitoredNodes example_hb ! 0) = CO_HBconsumer_ACTIVE"
  "\<not> CANrxNew (monitoredNodes example_hb ! 0)" "time_us (monitoredNodes example_hb ! 0) = 50000" "allMonitoredActive example_hb"
  by code_simp+

theorem hb_table_consistent_witness:
  "\<exists>hb'. run hb_step [Hb_process True 10 None, Hb_write_1016 CO_ERROR_NO ((stream OD_IO_null)\<lparr>stream_subIndex := 2\<rparr>) [0x32, 0, 0x0B, 0],
       Hb_receive 0 1 [5], Hb_process True 10 None] example_hb0 = Some hb' \<and>
     (\<forall>i<hb_count hb'. HBstate (hb_monitored hb' ! i) \<noteq> CO_HBconsumer_UNCONFIGURED \<longrightarrow>
       hb_rxIdent (hb_monitored hb' ! i) = 0x700 + ucast (hb_nodeId (hb_monitored hb' ! i)))"
  using hb_table_consistent [OF example_hb_em_inv _ _ example_hb_init_eq] by (simp del: run.simps) blast

theorem hb_timeout_detected_witness:
  "\<exists>hb'. run hb_step [Hb_process True 30000 None, Hb_receive 1 1 [5], Hb_process True 20000 None] example_hb = Some hb' \<and>
     HBstate (hb_monitored hb' ! 0) = CO_HBconsumer_TIMEOUT \<and> \<not> allMonitoredActive hb' \<and>
     CO_isError (hb_em hb') CO_EM_HEARTBEAT_CONSUMER"
  by (rule hb_timeout_detected [OF example_hb_good]) (simp_all add: example_hb_facts)

end
