(* ===== verification/LEDs.thy ===== *)
theory LEDs
  imports NMT
begin

text \<open>
  The CANopen indicators (\<open>303/CO_LEDs.c\<close>, \<open>303/CO_LEDs.h\<close>). The object derives flickering, blinking
  and flashing patterns from a tick of 50 milliseconds and selects the pattern of the red error
  indicator and of the green run indicator by the state of the node. The patterns are shown to
  follow the number of ticks as CiA 303-3 has them, when the object is processed at least once per
  tick; a lemma shows how they are lost when it is processed more slowly.
\<close>

section \<open>The object\<close>

record LEDs =
  LEDtmr50ms :: u32
  LEDtmr200ms :: u8
  LEDtmrflash_1 :: u8
  LEDtmrflash_2 :: u8
  LEDtmrflash_3 :: u8
  LEDtmrflash_4 :: u8
  LEDred :: u8
  LEDgreen :: u8

abbreviation (input) "CO_LED_flicker \<equiv> 0x01 :: u8"
abbreviation (input) "CO_LED_blink \<equiv> 0x02 :: u8"
abbreviation (input) "CO_LED_flash_1 \<equiv> 0x04 :: u8"
abbreviation (input) "CO_LED_flash_2 \<equiv> 0x08 :: u8"
abbreviation (input) "CO_LED_flash_3 \<equiv> 0x10 :: u8"
abbreviation (input) "CO_LED_flash_4 \<equiv> 0x20 :: u8"
abbreviation (input) "CO_LED_CANopen \<equiv> 0x80 :: u8"

definition CO_LED_RED :: "LEDs \<Rightarrow> u8 \<Rightarrow> bool" where
  "CO_LED_RED L msk \<longleftrightarrow> LEDred L AND msk \<noteq> 0"

definition CO_LED_GREEN :: "LEDs \<Rightarrow> u8 \<Rightarrow> bool" where
  "CO_LED_GREEN L msk \<longleftrightarrow> LEDgreen L AND msk \<noteq> 0"

definition CO_LEDs_init :: "CO_ReturnError \<times> LEDs" where
  "CO_LEDs_init = (CO_ERROR_NO,
     \<lparr>LEDtmr50ms = 0, LEDtmr200ms = 0, LEDtmrflash_1 = 0, LEDtmrflash_2 = 0, LEDtmrflash_3 = 0, LEDtmrflash_4 = 0,
      LEDred = 0, LEDgreen = 0\<rparr>)"

section \<open>Processing\<close>

text \<open>
  One of the four \<open>switch\<close> statements: the timer incremented, the red bit for the values \<open>rds\<close>, the
  green bit for \<open>grs\<close>, and zero after \<open>period\<close>.
\<close>

definition led_flash :: "u8 list \<Rightarrow> u8 list \<Rightarrow> u8 \<Rightarrow> u8 \<Rightarrow> u8 \<Rightarrow> u8 \<times> u8 \<times> u8" where
  "led_flash rds grs period msk tmr =
     (let t = tmr + 1 in
      (if t = period then 0 else t, if t \<in> set rds then msk else 0, if t \<in> set grs then msk else 0))"

definition led_200ms :: "LEDs \<Rightarrow> LEDs \<times> u8 \<times> u8" where
  "led_200ms L =
     (let (rd, gr) = (if LEDred L AND CO_LED_blink = 0 then (CO_LED_blink, 0) else (0, CO_LED_blink));
          (t1, r1, g1) = led_flash [1] [2] 6 CO_LED_flash_1 (LEDtmrflash_1 L);
          (t2, r2, g2) = led_flash [1, 3] [2, 4] 8 CO_LED_flash_2 (LEDtmrflash_2 L);
          (t3, r3, g3) = led_flash [1, 3, 5] [2, 4, 6] 10 CO_LED_flash_3 (LEDtmrflash_3 L);
          (t4, r4, g4) = led_flash [1, 3, 5, 7] [2, 4, 6, 8] 12 CO_LED_flash_4 (LEDtmrflash_4 L)
      in (L\<lparr>LEDtmr200ms := 0, LEDtmrflash_1 := t1, LEDtmrflash_2 := t2, LEDtmrflash_3 := t3, LEDtmrflash_4 := t4\<rparr>,
          rd OR r1 OR r2 OR r3 OR r4, gr OR g1 OR g2 OR g3 OR g4))"

definition led_tick :: "LEDs \<Rightarrow> LEDs \<times> u8 \<times> u8" where
  "led_tick L =
     (let rdFlickerNext = (LEDred L AND CO_LED_flicker = 0);
          L = L\<lparr>LEDtmr50ms := LEDtmr50ms L - 50000, LEDtmr200ms := LEDtmr200ms L + 1\<rparr>;
          (L, rd, gr) = (if LEDtmr200ms L > 3 then led_200ms L
                         else (L, LEDred L AND (0xFF XOR (CO_LED_flicker OR CO_LED_CANopen)),
                               LEDgreen L AND (0xFF XOR (CO_LED_flicker OR CO_LED_CANopen))))
      in if rdFlickerNext then (L, rd OR CO_LED_flicker, gr) else (L, rd, gr OR CO_LED_flicker))"

lemma led_tick_50ms: "LEDtmr50ms (fst (led_tick L)) = LEDtmr50ms L - 50000"
  by (simp add: led_tick_def led_200ms_def Let_def case_prod_beta)

lemma led_tick_less: "50000 \<le> LEDtmr50ms L \<Longrightarrow> unat (LEDtmr50ms (fst (led_tick L))) < unat (LEDtmr50ms L)"
  by (simp add: led_tick_50ms unat_minus_ge word_le_nat_alt)

text \<open>The loop ends because each pass takes a tick off the timer.\<close>

function led_loop :: "LEDs \<Rightarrow> u8 \<Rightarrow> u8 \<Rightarrow> bool \<Rightarrow> LEDs \<times> u8 \<times> u8 \<times> bool" where
  "led_loop L rd gr tick =
     (if LEDtmr50ms L \<ge> 50000 then let (L, rd, gr) = led_tick L in led_loop L rd gr True
      else (L, rd, gr, tick))"
  by pat_completeness auto
termination
  by (relation "measure (\<lambda>(L, _). unat (LEDtmr50ms L))") (auto dest: led_tick_less simp: prod_eq_iff)

definition led_red_co :: "u8 \<Rightarrow> CO_NMT_internalState \<Rightarrow> bool \<Rightarrow> bool \<Rightarrow> bool \<Rightarrow> bool \<Rightarrow> bool \<Rightarrow> bool \<Rightarrow> u8" where
  "led_red_co rd st busOff busWarn rpdo sync hbCons other =
     (if busOff then 1
      else if st = CO_NMT_INITIALIZING then rd AND CO_LED_flicker
      else if rpdo then rd AND CO_LED_flash_4
      else if sync then rd AND CO_LED_flash_3
      else if hbCons then rd AND CO_LED_flash_2
      else if busWarn then rd AND CO_LED_flash_1
      else if other then rd AND CO_LED_blink
      else 0)"

definition led_green_co :: "u8 \<Rightarrow> CO_NMT_internalState \<Rightarrow> bool \<Rightarrow> bool \<Rightarrow> u8" where
  "led_green_co gr st LSSconfig firmwareDownload =
     (if LSSconfig then gr AND CO_LED_flicker
      else if firmwareDownload then gr AND CO_LED_flash_3
      else if st = CO_NMT_STOPPED then gr AND CO_LED_flash_1
      else if st = CO_NMT_PRE_OPERATIONAL then gr AND CO_LED_blink
      else if st = CO_NMT_OPERATIONAL then 1
      else 0)"

record led_inputs =
  in_NMTstate :: CO_NMT_internalState
  in_LSSconfig :: bool
  in_ErrCANbusOff :: bool
  in_ErrCANbusWarn :: bool
  in_ErrRpdo :: bool
  in_ErrSync :: bool
  in_ErrHbCons :: bool
  in_ErrOther :: bool
  in_firmwareDownload :: bool

definition CO_LEDs_process :: "LEDs \<Rightarrow> u32 \<Rightarrow> led_inputs \<Rightarrow> u32 option \<Rightarrow> LEDs \<times> u32 option" where
  "CO_LEDs_process L td inp timerNext =
     (let (L, rd, gr, tick) = led_loop (L\<lparr>LEDtmr50ms := LEDtmr50ms L + td\<rparr>) 0 0 False;
          rd_co = led_red_co rd (in_NMTstate inp) (in_ErrCANbusOff inp) (in_ErrCANbusWarn inp) (in_ErrRpdo inp)
            (in_ErrSync inp) (in_ErrHbCons inp) (in_ErrOther inp);
          gr_co = led_green_co gr (in_NMTstate inp) (in_LSSconfig inp) (in_firmwareDownload inp);
          L = (if tick then L\<lparr>LEDred := (if rd_co \<noteq> 0 then rd OR CO_LED_CANopen else rd),
                               LEDgreen := (if gr_co \<noteq> 0 then gr OR CO_LED_CANopen else gr)\<rparr> else L)
      in (L, map_option (min (50000 - LEDtmr50ms L)) timerNext))"

section \<open>The patterns\<close>

text \<open>
  The abstract indicator is a number of ticks \<open>N\<close>. Flickering changes with every tick; the other
  patterns change with every fourth tick: blinking with a period of two, the flashes with a period
  of 6, 8, 10 and 12. Red and green have opposite phases.
\<close>

definition slow_red :: "nat \<Rightarrow> u8" where
  "slow_red M = (if odd M then CO_LED_blink else 0) OR (if M mod 6 = 1 then CO_LED_flash_1 else 0) OR
     (if M mod 8 \<in> {1, 3} then CO_LED_flash_2 else 0) OR (if M mod 10 \<in> {1, 3, 5} then CO_LED_flash_3 else 0) OR
     (if M mod 12 \<in> {1, 3, 5, 7} then CO_LED_flash_4 else 0)"

definition slow_green :: "nat \<Rightarrow> u8" where
  "slow_green M = (if 0 < M \<and> even M then CO_LED_blink else 0) OR (if M mod 6 = 2 then CO_LED_flash_1 else 0) OR
     (if M mod 8 \<in> {2, 4} then CO_LED_flash_2 else 0) OR (if M mod 10 \<in> {2, 4, 6} then CO_LED_flash_3 else 0) OR
     (if M mod 12 \<in> {2, 4, 6, 8} then CO_LED_flash_4 else 0)"

definition led_red :: "nat \<Rightarrow> u8" where
  "led_red N = slow_red (N div 4) OR (if odd N then CO_LED_flicker else 0)"

definition led_green :: "nat \<Rightarrow> u8" where
  "led_green N = slow_green (N div 4) OR (if 0 < N \<and> even N then CO_LED_flicker else 0)"

definition led_timers :: "nat \<Rightarrow> LEDs \<Rightarrow> bool" where
  "led_timers N L \<longleftrightarrow> LEDtmr200ms L = word_of_nat (N mod 4) \<and> LEDtmrflash_1 L = word_of_nat (N div 4 mod 6) \<and>
     LEDtmrflash_2 L = word_of_nat (N div 4 mod 8) \<and> LEDtmrflash_3 L = word_of_nat (N div 4 mod 10) \<and>
     LEDtmrflash_4 L = word_of_nat (N div 4 mod 12)"

definition led_rel :: "nat \<Rightarrow> LEDs \<Rightarrow> bool" where
  "led_rel N L \<longleftrightarrow> led_timers N L \<and> LEDred L AND 0x7F = led_red N \<and> LEDgreen L AND 0x7F = led_green N"

lemma led_flash_mod:
  "led_flash [1] [2] 6 msk (word_of_nat (M mod 6)) =
     (word_of_nat (Suc M mod 6), if Suc M mod 6 = 1 then msk else 0, if Suc M mod 6 = 2 then msk else 0)"
  "led_flash [1, 3] [2, 4] 8 msk (word_of_nat (M mod 8)) =
     (word_of_nat (Suc M mod 8), if Suc M mod 8 \<in> {1, 3} then msk else 0, if Suc M mod 8 \<in> {2, 4} then msk else 0)"
  "led_flash [1, 3, 5] [2, 4, 6] 10 msk (word_of_nat (M mod 10)) =
     (word_of_nat (Suc M mod 10), if Suc M mod 10 \<in> {1, 3, 5} then msk else 0, if Suc M mod 10 \<in> {2, 4, 6} then msk else 0)"
  "led_flash [1, 3, 5, 7] [2, 4, 6, 8] 12 msk (word_of_nat (M mod 12)) =
     (word_of_nat (Suc M mod 12), if Suc M mod 12 \<in> {1, 3, 5, 7} then msk else 0,
      if Suc M mod 12 \<in> {2, 4, 6, 8} then msk else 0)"
proof -
  have c: "m < 6 \<Longrightarrow> m \<in> {0, 1, 2, 3, 4, 5}" "m < 8 \<Longrightarrow> m \<in> {0, 1, 2, 3, 4, 5, 6, 7}"
    "m < 10 \<Longrightarrow> m \<in> {0, 1, 2, 3, 4, 5, 6, 7, 8, 9}" "m < 12 \<Longrightarrow> m \<in> {0, 1, 2, 3, 4, 5, 6, 7, 8, 9, 10, 11}" for m :: nat
    by (auto simp: eval_nat_numeral less_Suc_eq)
  show "led_flash [1] [2] 6 msk (word_of_nat (M mod 6)) =
     (word_of_nat (Suc M mod 6), if Suc M mod 6 = 1 then msk else 0, if Suc M mod 6 = 2 then msk else 0)"
    using c(1) [of "M mod 6"] by (auto simp: led_flash_def mod_Suc)
  show "led_flash [1, 3] [2, 4] 8 msk (word_of_nat (M mod 8)) =
     (word_of_nat (Suc M mod 8), if Suc M mod 8 \<in> {1, 3} then msk else 0, if Suc M mod 8 \<in> {2, 4} then msk else 0)"
    using c(2) [of "M mod 8"] by (auto simp: led_flash_def mod_Suc)
  show "led_flash [1, 3, 5] [2, 4, 6] 10 msk (word_of_nat (M mod 10)) =
     (word_of_nat (Suc M mod 10), if Suc M mod 10 \<in> {1, 3, 5} then msk else 0, if Suc M mod 10 \<in> {2, 4, 6} then msk else 0)"
    using c(3) [of "M mod 10"] by (auto simp: led_flash_def mod_Suc)
  show "led_flash [1, 3, 5, 7] [2, 4, 6, 8] 12 msk (word_of_nat (M mod 12)) =
     (word_of_nat (Suc M mod 12), if Suc M mod 12 \<in> {1, 3, 5, 7} then msk else 0,
      if Suc M mod 12 \<in> {2, 4, 6, 8} then msk else 0)"
    using c(4) [of "M mod 12"] by (auto simp: led_flash_def mod_Suc)
qed

lemma pattern_and:
  fixes a b c d e :: bool
  defines "w \<equiv> (if a then 2 else 0) OR (if b then 4 else 0) OR (if c then 8 else 0) OR (if d then 0x10 else 0) OR (if e then 0x20 else 0 :: u8)"
  shows "w AND 0x7E = w" "w AND 1 = 0" "w AND 0x7F = w" "w AND 2 = (if a then 2 else 0)"
  unfolding w_def by (cases a; cases b; cases c; cases d; cases e; simp)+

lemma slow_and:
  "slow_red M AND 0x7E = slow_red M" "slow_green M AND 0x7E = slow_green M" "slow_red M AND 1 = 0"
  "slow_red M AND 0x7F = slow_red M" "slow_green M AND 0x7F = slow_green M"
  "slow_red M AND 2 = (if odd M then 2 else 0)"
  unfolding slow_red_def slow_green_def by (rule pattern_and)+

lemma led_rel_red:
  assumes "led_rel N L"
  shows "LEDred L AND 1 = (if odd N then 1 else 0)" "LEDred L AND 2 = (if odd (N div 4) then 2 else 0)"
    "LEDred L AND 0x7E = slow_red (N div 4)" "LEDgreen L AND 0x7E = slow_green (N div 4)"
proof -
  have r: "LEDred L AND m = (led_red N) AND m" "LEDgreen L AND m = (led_green N) AND m" if "0x7F AND m = m" for m
    using assms that unfolding led_rel_def by (metis and.assoc)+
  show "LEDred L AND 1 = (if odd N then 1 else 0)" "LEDred L AND 2 = (if odd (N div 4) then 2 else 0)"
    "LEDred L AND 0x7E = slow_red (N div 4)" "LEDgreen L AND 0x7E = slow_green (N div 4)"
    using r by (simp_all add: led_red_def led_green_def bit.conj_disj_distrib2 slow_and)
qed

lemma led_200ms_eq:
  assumes "LEDred L AND 2 = (if odd M then 2 else 0)" "LEDtmrflash_1 L = word_of_nat (M mod 6)"
    "LEDtmrflash_2 L = word_of_nat (M mod 8)" "LEDtmrflash_3 L = word_of_nat (M mod 10)"
    "LEDtmrflash_4 L = word_of_nat (M mod 12)"
  shows "led_200ms L =
    (L\<lparr>LEDtmr200ms := 0, LEDtmrflash_1 := word_of_nat (Suc M mod 6), LEDtmrflash_2 := word_of_nat (Suc M mod 8),
       LEDtmrflash_3 := word_of_nat (Suc M mod 10), LEDtmrflash_4 := word_of_nat (Suc M mod 12)\<rparr>,
     slow_red (Suc M), slow_green (Suc M))"
  by (cases "odd M") (simp_all add: led_200ms_def Let_def assms led_flash_mod slow_red_def slow_green_def split del: if_split)

lemma led_tick_rel:
  assumes "led_rel N L" "led_tick L = (L', rd, gr)"
  shows "led_timers (Suc N) L' \<and> rd = led_red (Suc N) \<and> gr = led_green (Suc N)"
proof -
  let ?L = "L\<lparr>LEDtmr50ms := LEDtmr50ms L - 50000, LEDtmr200ms := LEDtmr200ms L + 1\<rparr>"
  note t = assms(1) [unfolded led_rel_def led_timers_def]
  note r = led_rel_red [OF assms(1)]
  show ?thesis
  proof (cases "Suc N mod 4 = 0")
    case True
    then have n: "N mod 4 = 3" "Suc N div 4 = Suc (N div 4)" by presburger+
    let ?L2 = "?L\<lparr>LEDtmr200ms := 0, LEDtmrflash_1 := word_of_nat (Suc (N div 4) mod 6),
       LEDtmrflash_2 := word_of_nat (Suc (N div 4) mod 8), LEDtmrflash_3 := word_of_nat (Suc (N div 4) mod 10),
       LEDtmrflash_4 := word_of_nat (Suc (N div 4) mod 12)\<rparr>"
    have "led_200ms ?L = (?L2, slow_red (Suc (N div 4)), slow_green (Suc (N div 4)))"
      by (rule led_200ms_eq) (use t r in simp_all)
    moreover have "LEDtmr200ms L + 1 > 3" using t n(1) by simp
    ultimately have "led_tick L = (?L2, led_red (Suc N), led_green (Suc N))"
      using r(1) n(2) by (cases "odd N") (simp_all add: led_tick_def Let_def led_red_def led_green_def)
    then have "L' = ?L2" "rd = led_red (Suc N)" "gr = led_green (Suc N)" using assms(2) by simp_all
    then show ?thesis using True n(2) by (simp add: led_timers_def)
  next
    case False
    then have n: "Suc N div 4 = N div 4" "Suc N mod 4 = Suc (N mod 4)" "N mod 4 = 0 \<or> N mod 4 = 1 \<or> N mod 4 = 2" by presburger+
    then have m: "LEDtmr200ms L + 1 = word_of_nat (Suc N mod 4)" "\<not> LEDtmr200ms L + 1 > 3" using t by auto
    then have "led_tick L = (?L, led_red (Suc N), led_green (Suc N))"
      using r(1,3,4) n(1) by (cases "odd N") (simp_all add: led_tick_def Let_def led_red_def led_green_def)
    then have "L' = ?L" "rd = led_red (Suc N)" "gr = led_green (Suc N)" using assms(2) by simp_all
    then show ?thesis using n(1) m(1) t by (simp add: led_timers_def)
  qed
qed

section \<open>Processing with at most one tick\<close>

lemma led_red_and: "led_red N AND 0x7F = led_red N" "led_green N AND 0x7F = led_green N"
  by (auto simp: led_red_def led_green_def bit.conj_disj_distrib2 slow_and)

lemma led_loop_one:
  assumes "LEDtmr50ms L < 100000"
  shows "led_loop L rd gr tick =
    (if LEDtmr50ms L \<ge> 50000 then (case led_tick L of (L', rd', gr') \<Rightarrow> (L', rd', gr', True)) else (L, rd, gr, tick))"
proof -
  obtain L' rd' gr' where t: "led_tick L = (L', rd', gr')" by (cases "led_tick L")
  have "LEDtmr50ms L \<ge> 50000 \<Longrightarrow> \<not> 50000 \<le> LEDtmr50ms L'"
    using led_tick_50ms [of L] t assms by (simp add: word_le_nat_alt word_less_nat_alt unat_minus_ge)
  then show ?thesis using t by simp
qed

text \<open>
  The object after time \<open>T\<close> in microseconds: the ticks are \<open>T div 50000\<close>, the rest is on the timer.
\<close>

definition led_at :: "nat \<Rightarrow> LEDs \<Rightarrow> bool" where
  "led_at T L \<longleftrightarrow> unat (LEDtmr50ms L) = T mod 50000 \<and> led_rel (T div 50000) L"

lemma led_init_at: "led_at 0 (snd CO_LEDs_init)"
  by (simp add: led_at_def led_rel_def led_timers_def CO_LEDs_init_def led_red_def led_green_def slow_red_def slow_green_def)

lemma tick_over:
  fixes K T d :: nat
  assumes "K \<le> T mod K + d" "T mod K + d < 2 * K"
  shows "(T + d) div K = Suc (T div K)" "(T + d) mod K = T mod K + d - K"
proof -
  let ?r = "T mod K + d - K"
  have "T + d = ?r + Suc (T div K) * K" using assms(1) div_mult_mod_eq [of T K] unfolding mult_Suc by linarith
  moreover have "?r < K" using assms by linarith
  ultimately show "(T + d) div K = Suc (T div K)" "(T + d) mod K = ?r" by (simp_all del: mult_Suc)
qed

lemma tick_same:
  fixes K T d :: nat
  assumes "T mod K + d < K"
  shows "(T + d) div K = T div K" "(T + d) mod K = T mod K + d"
proof -
  show d: "(T + d) div K = T div K"
  proof (rule div_nat_eqI)
    show "K * (T div K) \<le> T + d" "T + d < K * Suc (T div K)"
      using mult_div_mod_eq [of K T] assms unfolding mult_Suc_right by linarith+
  qed
  show "(T + d) mod K = T mod K + d"
    using mult_div_mod_eq [of K "T + d", unfolded d] mult_div_mod_eq [of K T] by linarith
qed

lemma led_process_at:
  assumes a: "led_at T L" and td: "td \<le> 50000"
  shows "led_at (T + unat td) (fst (CO_LEDs_process L td inp tn))"
proof -
  let ?L = "L\<lparr>LEDtmr50ms := LEDtmr50ms L + td\<rparr>"
  have u: "unat (LEDtmr50ms L) < 50000" "unat td \<le> 50000" using a td by (simp_all add: led_at_def word_le_nat_alt)
  then have s: "unat (LEDtmr50ms L + td) = T mod 50000 + unat td" using a by (simp add: led_at_def unat_plus_small)
  have r: "led_rel (T div 50000) ?L" using a by (simp add: led_at_def led_rel_def led_timers_def)
  obtain L' rd gr where t: "led_tick ?L = (L', rd, gr)" by (cases "led_tick ?L")
  have one: "LEDtmr50ms ?L < 100000" using u s a by (simp add: word_less_nat_alt led_at_def)
  show ?thesis
  proof (cases "LEDtmr50ms L + td \<ge> 50000")
    case True
    then have T: "T mod 50000 + unat td \<ge> 50000" using s by (simp add: word_le_nat_alt)
    then have d: "(T + unat td) div 50000 = Suc (T div 50000)" "(T + unat td) mod 50000 = T mod 50000 + unat td - 50000"
      using tick_over [of 50000 T "unat td"] u a by (simp_all add: led_at_def)
    have "unat (LEDtmr50ms L') = (T + unat td) mod 50000"
      using led_tick_50ms [of ?L] t True s d by (simp add: unat_minus_ge word_le_nat_alt)
    then show ?thesis using led_tick_rel [OF r t] d True t one
      by (auto simp: led_at_def led_rel_def led_timers_def CO_LEDs_process_def Let_def led_loop_one led_red_and bit.conj_disj_distrib2
          simp del: led_loop.simps)
  next
    case False
    then have T: "T mod 50000 + unat td < 50000" using s by (simp add: word_le_nat_alt not_le)
    then have d: "(T + unat td) div 50000 = T div 50000" "(T + unat td) mod 50000 = T mod 50000 + unat td"
      using tick_same [of T 50000 "unat td"] by simp_all
    then show ?thesis using r False one s
      by (simp add: led_at_def CO_LEDs_process_def Let_def led_loop_one del: led_loop.simps)
  qed
qed

section \<open>The object as a system of calls\<close>

type_synonym led_call = "u32 \<times> led_inputs \<times> u32 option"

fun led_step :: "led_call \<Rightarrow> LEDs \<Rightarrow> LEDs option" where
  "led_step (td, inp, tn) L = Some (fst (CO_LEDs_process L td inp tn))"

fun led_time :: "led_call \<Rightarrow> nat" where
  "led_time (td, inp, tn) = unat td"

fun led_fast :: "led_call \<Rightarrow> bool" where
  "led_fast (td, inp, tn) \<longleftrightarrow> td \<le> 50000"

interpretation ledsim: simulation led_at led_fast "\<lambda>c T. T + led_time c" led_step
proof unfold_locales
  show "led_at T L \<Longrightarrow> led_fast c \<Longrightarrow> wp (led_step c L) (led_at (T + led_time c))" for T L c
    by (cases c) (auto intro: led_process_at)
qed

lemma fold_plus: "fold (\<lambda>c T. T + f c) cs (a :: nat) = a + sum_list (map f cs)"
  by (induction cs arbitrary: a) simp_all

lemma and_pattern_red:
  assumes "led_rel N L"
  shows "0x7F AND msk = msk \<Longrightarrow> CO_LED_RED L msk \<longleftrightarrow> led_red N AND msk \<noteq> 0"
    "0x7F AND msk = msk \<Longrightarrow> CO_LED_GREEN L msk \<longleftrightarrow> led_green N AND msk \<noteq> 0"
  using assms unfolding led_rel_def CO_LED_RED_def CO_LED_GREEN_def by (metis and.assoc)+

lemma pattern_bits:
  fixes a b c d e f :: bool
  defines "w \<equiv> ((if a then 2 else 0) OR (if b then 4 else 0) OR (if c then 8 else 0) OR (if d then 0x10 else 0) OR
    (if e then 0x20 else 0 :: u8)) OR (if f then 1 else 0)"
  shows "w AND 1 \<noteq> 0 \<longleftrightarrow> f" "w AND 2 \<noteq> 0 \<longleftrightarrow> a" "w AND 4 \<noteq> 0 \<longleftrightarrow> b" "w AND 8 \<noteq> 0 \<longleftrightarrow> c" "w AND 0x10 \<noteq> 0 \<longleftrightarrow> d" "w AND 0x20 \<noteq> 0 \<longleftrightarrow> e"
  unfolding w_def by (cases a; cases b; cases c; cases d; cases e; cases f; simp)+

lemma led_red_bits:
  fixes M N :: nat
  defines "w \<equiv> slow_red M OR (if odd N then 1 else 0)"
  shows "w AND 1 \<noteq> 0 \<longleftrightarrow> odd N" "w AND 2 \<noteq> 0 \<longleftrightarrow> odd M"
     "w AND 4 \<noteq> 0 \<longleftrightarrow> M mod 6 = 1" "w AND 8 \<noteq> 0 \<longleftrightarrow> M mod 8 \<in> {1, 3}"
     "w AND 0x10 \<noteq> 0 \<longleftrightarrow> M mod 10 \<in> {1, 3, 5}" "w AND 0x20 \<noteq> 0 \<longleftrightarrow> M mod 12 \<in> {1, 3, 5, 7}"
  unfolding w_def slow_red_def by (rule pattern_bits)+

lemma led_green_bits:
  fixes M N :: nat
  defines "w \<equiv> slow_green M OR (if 0 < N \<and> even N then 1 else 0)"
  shows "w AND 1 \<noteq> 0 \<longleftrightarrow> 0 < N \<and> even N" "w AND 2 \<noteq> 0 \<longleftrightarrow> 0 < M \<and> even M"
     "w AND 4 \<noteq> 0 \<longleftrightarrow> M mod 6 = 2" "w AND 8 \<noteq> 0 \<longleftrightarrow> M mod 8 \<in> {2, 4}"
     "w AND 0x10 \<noteq> 0 \<longleftrightarrow> M mod 10 \<in> {2, 4, 6}" "w AND 0x20 \<noteq> 0 \<longleftrightarrow> M mod 12 \<in> {2, 4, 6, 8}"
  unfolding w_def slow_green_def by (rule pattern_bits)+

text \<open>
  C35: The indicator patterns are those of CiA 303-3. When the object is processed at least every 50
  milliseconds, the patterns are a function of the time that has passed since the initialisation:
  flickering changes every 50 milliseconds, blinking every 200, and the single, double, triple and
  quadruple flash is one to four pulses of 200 milliseconds in a period of 1200 to 2400; the green
  patterns have the opposite phase. The inputs do not influence them.
\<close>

theorem led_patterns:
  assumes "list_all led_fast calls"
  defines "N \<equiv> sum_list (map led_time calls) div 50000"
  defines "M \<equiv> N div 4"
  shows "\<exists>L. run led_step calls (snd CO_LEDs_init) = Some L \<and>
    CO_LED_RED L CO_LED_flicker = odd N \<and> CO_LED_RED L CO_LED_blink = odd M \<and> CO_LED_RED L CO_LED_flash_1 = (M mod 6 = 1) \<and>
    CO_LED_RED L CO_LED_flash_2 = (M mod 8 \<in> {1, 3}) \<and> CO_LED_RED L CO_LED_flash_3 = (M mod 10 \<in> {1, 3, 5}) \<and>
    CO_LED_RED L CO_LED_flash_4 = (M mod 12 \<in> {1, 3, 5, 7}) \<and>
    CO_LED_GREEN L CO_LED_flicker = (0 < N \<and> even N) \<and> CO_LED_GREEN L CO_LED_blink = (0 < M \<and> even M) \<and>
    CO_LED_GREEN L CO_LED_flash_1 = (M mod 6 = 2) \<and> CO_LED_GREEN L CO_LED_flash_2 = (M mod 8 \<in> {2, 4}) \<and>
    CO_LED_GREEN L CO_LED_flash_3 = (M mod 10 \<in> {2, 4, 6}) \<and> CO_LED_GREEN L CO_LED_flash_4 = (M mod 12 \<in> {2, 4, 6, 8})"
proof -
  obtain L where r: "run led_step calls (snd CO_LEDs_init) = Some L" "led_at (0 + sum_list (map led_time calls)) L"
    using ledsim.run_simulated [OF led_init_at assms(1)] unfolding fold_plus by blast
  then have "led_rel N L" by (simp add: led_at_def N_def)
  note b = and_pattern_red [OF this, unfolded led_red_def led_green_def, folded M_def]
  have m: "0x7F AND 1 = (1 :: u8)" "0x7F AND 2 = (2 :: u8)" "0x7F AND 4 = (4 :: u8)" "0x7F AND 8 = (8 :: u8)"
    "0x7F AND 0x10 = (0x10 :: u8)" "0x7F AND 0x20 = (0x20 :: u8)" by simp_all
  show ?thesis
    by (intro exI [of _ L] conjI)
      (simp_all only: r(1) b [OF m(1)] b [OF m(2)] b [OF m(3)] b [OF m(4)] b [OF m(5)] b [OF m(6)] led_red_bits led_green_bits)
qed

section \<open>The indicators\<close>

lemma led_tick_co: "fst (snd (led_tick L)) AND 0x80 = 0 \<and> snd (snd (led_tick L)) AND 0x80 = 0"
  by (simp add: led_tick_def led_200ms_def led_flash_def Let_def case_prod_beta bit.conj_disj_distrib2 and.assoc)

lemma led_loop_co:
  assumes "rd AND 0x80 = 0" "gr AND 0x80 = 0" "led_loop L rd gr tick = (L', rd', gr', tick')"
  shows "rd' AND 0x80 = 0 \<and> gr' AND 0x80 = 0 \<and> (tick' \<longleftrightarrow> tick \<or> 50000 \<le> LEDtmr50ms L)"
  using assms
proof (induction L rd gr tick rule: led_loop.induct)
  case (1 L rd gr tick)
  show ?case
  proof (cases "50000 \<le> LEDtmr50ms L")
    case True
    obtain L1 rd1 gr1 where t: "led_tick L = (L1, rd1, gr1)" by (cases "led_tick L")
    then have "led_loop L1 rd1 gr1 True = (L', rd', gr', tick')" using 1(4) True by simp
    then show ?thesis using 1(1) [OF True t [symmetric] refl] led_tick_co [of L] t True by simp
  qed (use 1 in auto)
qed

text \<open>
  The CANopen indicators show the state of the node. After a call that completes a tick, the red
  indicator is on while the bus is off, flickers while the node is initialising, and otherwise shows
  the pattern of the first error in the order of the priorities, or nothing; the green indicator is on
  in the operational state and shows the pattern of the state otherwise.
\<close>

theorem led_indication:
  assumes "50000 \<le> LEDtmr50ms L + td"
    and p: "CO_LEDs_process L td inp tn = (L', tn')"
  shows "(CO_LED_RED L' CO_LED_CANopen \<longleftrightarrow>
      (if in_ErrCANbusOff inp then True else if in_NMTstate inp = CO_NMT_INITIALIZING then CO_LED_RED L' CO_LED_flicker
       else if in_ErrRpdo inp then CO_LED_RED L' CO_LED_flash_4 else if in_ErrSync inp then CO_LED_RED L' CO_LED_flash_3
       else if in_ErrHbCons inp then CO_LED_RED L' CO_LED_flash_2 else if in_ErrCANbusWarn inp then CO_LED_RED L' CO_LED_flash_1
       else in_ErrOther inp \<and> CO_LED_RED L' CO_LED_blink)) \<and>
    (CO_LED_GREEN L' CO_LED_CANopen \<longleftrightarrow>
      (if in_LSSconfig inp then CO_LED_GREEN L' CO_LED_flicker else if in_firmwareDownload inp then CO_LED_GREEN L' CO_LED_flash_3
       else if in_NMTstate inp = CO_NMT_STOPPED then CO_LED_GREEN L' CO_LED_flash_1
       else if in_NMTstate inp = CO_NMT_PRE_OPERATIONAL then CO_LED_GREEN L' CO_LED_blink
       else in_NMTstate inp = CO_NMT_OPERATIONAL))"
proof -
  let ?L = "L\<lparr>LEDtmr50ms := LEDtmr50ms L + td\<rparr>"
  obtain L1 rd gr tick where l: "led_loop ?L 0 0 False = (L1, rd, gr, tick)" by (metis prod_cases4)
  then have c: "rd AND 0x80 = 0" "gr AND 0x80 = 0" "tick" using led_loop_co [of 0 0 ?L False] assms(1) by auto
  let ?r = "led_red_co rd (in_NMTstate inp) (in_ErrCANbusOff inp) (in_ErrCANbusWarn inp) (in_ErrRpdo inp)
            (in_ErrSync inp) (in_ErrHbCons inp) (in_ErrOther inp)"
  let ?g = "led_green_co gr (in_NMTstate inp) (in_LSSconfig inp) (in_firmwareDownload inp)"
  have L': "LEDred L' = (if ?r \<noteq> 0 then rd OR 0x80 else rd)" "LEDgreen L' = (if ?g \<noteq> 0 then gr OR 0x80 else gr)"
    using p c(3) unfolding CO_LEDs_process_def l by (auto simp: Let_def)
  have m: "LEDred L' AND k = rd AND k" "LEDgreen L' AND k = gr AND k" if "0x80 AND k = (0 :: u8)" for k
    using that unfolding L' by (auto simp: bit.conj_disj_distrib2)
  have co: "LEDred L' AND 0x80 \<noteq> 0 \<longleftrightarrow> ?r \<noteq> 0" "LEDgreen L' AND 0x80 \<noteq> 0 \<longleftrightarrow> ?g \<noteq> 0"
    using c unfolding L' by (auto simp: bit.conj_disj_distrib2)
  show ?thesis unfolding CO_LED_RED_def CO_LED_GREEN_def co by (simp add: m led_red_co_def led_green_co_def)
qed

text \<open>
  Processed every 100 milliseconds, the indicators can lose all patterns but the flickering: when the
  200 millisecond step is the first of the two ticks of a call, the second tick takes the old
  patterns again.
\<close>

definition led_stuck :: "LEDs \<Rightarrow> bool" where
  "led_stuck L \<longleftrightarrow> LEDtmr50ms L = 0 \<and> LEDtmr200ms L \<in> {1, 3} \<and> LEDred L AND 0x7E = 0 \<and> LEDgreen L AND 0x7E = 0"

lemma led_tick_fields:
  "LEDred (fst (led_tick L)) = LEDred L" "LEDgreen (fst (led_tick L)) = LEDgreen L"
  "LEDtmr200ms (fst (led_tick L)) = (if LEDtmr200ms L + 1 > 3 then 0 else LEDtmr200ms L + 1)"
  by (simp_all add: led_tick_def led_200ms_def Let_def case_prod_beta)

lemma led_tick_slow:
  "\<not> LEDtmr200ms L + 1 > 3 \<Longrightarrow>
     fst (snd (led_tick L)) AND 0x7E = LEDred L AND 0x7E \<and> snd (snd (led_tick L)) AND 0x7E = LEDgreen L AND 0x7E"
  by (simp add: led_tick_def Let_def bit.conj_disj_distrib2 and.assoc)

lemma led_loop_two:
  assumes "LEDtmr50ms L = 100000"
  shows "led_loop L rd gr tick = (case led_tick (fst (led_tick L)) of (L2, rd2, gr2) \<Rightarrow> (L2, rd2, gr2, True))"
proof -
  obtain L1 rd1 gr1 where t1: "led_tick L = (L1, rd1, gr1)" by (cases "led_tick L")
  have L1: "LEDtmr50ms L1 = 50000" using led_tick_50ms [of L] t1 assms by simp
  have "led_loop L rd gr tick = led_loop L1 rd1 gr1 True" using assms t1 by (simp add: led_loop.simps [of L])
  also have "\<dots> = (case led_tick L1 of (L2, rd2, gr2) \<Rightarrow> (L2, rd2, gr2, True))"
    using led_loop_one [of L1] L1 by simp
  finally show ?thesis using t1 by simp
qed

lemma led_process_stuck:
  assumes "led_stuck L"
  shows "led_stuck (fst (CO_LEDs_process L 100000 inp tn))"
proof -
  let ?L = "L\<lparr>LEDtmr50ms := 100000\<rparr>"
  define L1 where "L1 = fst (led_tick ?L)"
  obtain L2 rd gr where t: "led_tick L1 = (L2, rd, gr)" by (cases "led_tick L1")
  have s: "LEDtmr50ms L = 0" "LEDtmr200ms L = 1 \<or> LEDtmr200ms L = 3" "LEDred L AND 0x7E = 0" "LEDgreen L AND 0x7E = 0"
    using assms by (auto simp: led_stuck_def)
  then have l: "led_loop ?L 0 0 False = (L2, rd, gr, True)" using led_loop_two [of ?L 0 0 False] t by (simp add: L1_def)
  have L1: "LEDtmr200ms L1 = 2 \<or> LEDtmr200ms L1 = 0" "LEDtmr50ms L1 = 50000" "LEDred L1 = LEDred L" "LEDgreen L1 = LEDgreen L"
    using s(2) by (auto simp: L1_def led_tick_fields led_tick_50ms)
  then have L2: "LEDtmr200ms L2 = 3 \<or> LEDtmr200ms L2 = 1" "LEDtmr50ms L2 = 0" "rd AND 0x7E = 0" "gr AND 0x7E = 0"
    using led_tick_fields(3) [of L1] led_tick_50ms [of L1] led_tick_slow [of L1] t s(3,4) by auto
  let ?P = "fst (CO_LEDs_process L 100000 inp tn)"
  have "LEDtmr50ms ?P = LEDtmr50ms L2" "LEDtmr200ms ?P = LEDtmr200ms L2" "LEDred ?P = rd \<or> LEDred ?P = rd OR 0x80"
    "LEDgreen ?P = gr \<or> LEDgreen ?P = gr OR 0x80"
    using l s(1) by (simp_all add: CO_LEDs_process_def Let_def)
  then show ?thesis using L2 unfolding led_stuck_def by (auto simp: bit.conj_disj_distrib2)
qed

lemma led_patterns_lost:
  "\<exists>L. run led_step ((50000, inp, None) # replicate n (100000, inp, None)) (snd CO_LEDs_init) = Some L \<and>
     \<not> CO_LED_RED L CO_LED_blink \<and> \<not> CO_LED_GREEN L CO_LED_blink"
proof -
  let ?L = "fst (CO_LEDs_process (snd CO_LEDs_init) 50000 inp None)"
  have "led_at 50000 ?L" using led_process_at [OF led_init_at, of 50000 inp None] by simp
  then have "led_rel 1 ?L" "unat (LEDtmr50ms ?L) = 0" by (simp_all add: led_at_def)
  then have "led_stuck ?L" using led_rel_red(3,4) [of 1 ?L]
    by (simp add: led_stuck_def led_rel_def led_timers_def slow_red_def slow_green_def unat_eq_zero)
  moreover have "\<exists>L'. run led_step (replicate n (100000, inp, None)) L = Some L' \<and> led_stuck L'" if "led_stuck L" for L
    using that by (induction n arbitrary: L) (auto dest: led_process_stuck)
  ultimately obtain L where r: "run led_step (replicate n (100000, inp, None)) ?L = Some L" "led_stuck L" by blast
  have "(LEDred L AND 0x7E) AND 2 = LEDred L AND 2" "(LEDgreen L AND 0x7E) AND 2 = LEDgreen L AND 2" by (simp_all add: and.assoc)
  then have "\<not> CO_LED_RED L CO_LED_blink" "\<not> CO_LED_GREEN L CO_LED_blink"
    using r(2) by (simp_all add: led_stuck_def CO_LED_RED_def CO_LED_GREEN_def)
  then show ?thesis using r(1) by simp
qed

section \<open>Examples\<close>

definition example_inputs :: led_inputs where
  "example_inputs = \<lparr>in_NMTstate = CO_NMT_OPERATIONAL, in_LSSconfig = False, in_ErrCANbusOff = False, in_ErrCANbusWarn = True,
     in_ErrRpdo = False, in_ErrSync = False, in_ErrHbCons = False, in_ErrOther = True, in_firmwareDownload = False\<rparr>"

theorem led_patterns_witness:
  "\<exists>L. run led_step (replicate 7 (40000, example_inputs, None)) (snd CO_LEDs_init) = Some L \<and>
     CO_LED_RED L CO_LED_flicker \<and> CO_LED_RED L CO_LED_blink \<and> CO_LED_RED L CO_LED_flash_1 \<and> \<not> CO_LED_GREEN L CO_LED_blink"
proof -
  let ?c = "replicate 7 (40000, example_inputs, None)"
  have f: "list_all led_fast ?c" and t: "sum_list (map led_time ?c) = 280000"
    by (simp_all add: list_all_iff map_replicate sum_list_replicate)
  show ?thesis using led_patterns [OF f] unfolding t by (elim exE conjE, intro exI conjI) (assumption | simp del: run.simps)+
qed

theorem led_indication_witness:
  "\<exists>L tn. CO_LEDs_process (snd CO_LEDs_init) 200000 example_inputs None = (L, tn) \<and>
     CO_LED_RED L CO_LED_CANopen = CO_LED_RED L CO_LED_flash_1 \<and> CO_LED_GREEN L CO_LED_CANopen"
proof -
  obtain L tn where p: "CO_LEDs_process (snd CO_LEDs_init) 200000 example_inputs None = (L, tn)" by (metis surj_pair)
  then show ?thesis using led_indication [OF _ p] by (simp add: CO_LEDs_init_def example_inputs_def)
qed

end
