(* ===== verification/TIME.thy ===== *)
theory TIME
  imports CO_Driver OD_Access Systems
begin

text \<open>
  The time stamp object (\<open>301/CO_TIME.c\<close>, \<open>301/CO_TIME.h\<close>): a clock of days since 1984 and
  milliseconds after midnight, set by received time stamps or by the application and advanced by the
  processing, and the cyclic transmission of time stamps. The clock is shown to implement an abstract
  clock that counts microseconds.
\<close>

section \<open>The object\<close>

record CO_TIME =
  timeStamp :: "u8 list"
  time_ms :: u32
  time_days :: u16
  residual_us :: u16
  time_isConsumer :: bool
  time_isProducer :: bool
  time_CANrxNew :: bool
  producerInterval_ms :: u32
  producerTimer_ms :: u32
  time_CANtxBuff :: CANtx
  OD_1012_extended :: bool

text \<open>Its world: the memory of the object dictionary and the messages sent.\<close>

record timeobj = CO_TIME +
  time_mem :: mem
  time_sent :: "can_frame list"

abbreviation (input) "CO_TIME_MSG_LENGTH \<equiv> 6 :: nat"
abbreviation (input) "MS_PER_DAY \<equiv> 86400000 :: u32"

section \<open>Operations\<close>

definition CO_TIME_receive :: "timeobj \<Rightarrow> nat \<Rightarrow> u8 list \<Rightarrow> timeobj" where
  "CO_TIME_receive TIME DLC data =
     (if DLC = CO_TIME_MSG_LENGTH then TIME\<lparr>timeStamp := take 6 data, time_CANrxNew := True\<rparr> else TIME)"

definition OD_write_1012 :: "timeobj \<Rightarrow> OD_stream \<Rightarrow> u8 list \<Rightarrow> ODR \<times> OD_stream \<times> u32 \<times> timeobj" where
  "OD_write_1012 TIME st b =
     (if stream_subIndex st \<noteq> 0 \<or> length b \<noteq> 4 then (ODR_DEV_INCOMPAT, st, 0, TIME)
      else
        let cob = le_word b :: u32; CAN_ID = ucast (cob AND 0x7FF) :: u16 in
        if cob AND 0x3FFFF800 \<noteq> 0 \<or> CO_IS_RESTRICTED_CAN_ID CAN_ID then (ODR_INVALID_VALUE, st, 0, TIME)
        else
          let TIME = TIME\<lparr>time_isConsumer := (cob AND 0x80000000 \<noteq> 0), time_isProducer := (cob AND 0x40000000 \<noteq> 0)\<rparr>;
              (r, st', k, m) = OD_writeOriginal st b (time_mem TIME)
          in (r, st', k, TIME\<lparr>time_mem := m\<rparr>))"

text \<open>
  \<open>CO_TIME_init\<close>: \<open>rxRet\<close> is the result of the driver's \<open>CO_CANrxBufferInit\<close>, \<open>txOk\<close> whether
  \<open>CO_CANtxBufferInit\<close> returned the buffer, which is \<open>tx\<close>.
\<close>

definition time_zero :: "CANtx \<Rightarrow> mem \<Rightarrow> timeobj" where
  "time_zero tx m =
     \<lparr>timeStamp = replicate 6 0, time_ms = 0, time_days = 0, residual_us = 0, time_isConsumer = False,
      time_isProducer = False, time_CANrxNew = False, producerInterval_ms = 0, producerTimer_ms = 0,
      time_CANtxBuff = tx, OD_1012_extended = False, time_mem = m, time_sent = []\<rparr>"

definition CO_TIME_init ::
    "CO_ReturnError \<Rightarrow> bool \<Rightarrow> CANtx \<Rightarrow> mem \<Rightarrow> timeobj \<Rightarrow> OD_entry option \<Rightarrow> CO_ReturnError \<times> u32 option \<times> timeobj" where
  "CO_TIME_init rxRet txOk tx m TIME e1012 =
     (if e1012 = None then (CO_ERROR_ILLEGAL_ARGUMENT, None, TIME)
      else
        let (odRet, cob, m') = OD_get_u32 e1012 0 True m; TIME = time_zero tx m' in
        if odRet \<noteq> ODR_OK then (CO_ERROR_OD_PARAMETERS, Some (ucast (OD_getIndex e1012)), TIME)
        else
          let cobId = ucast (cob AND 0x7FF) :: u16;
              TIME = TIME\<lparr>OD_1012_extended := True, time_isConsumer := (cob AND 0x80000000 \<noteq> 0),
                          time_isProducer := (cob AND 0x40000000 \<noteq> 0), time_CANrxNew := False\<rparr>
          in if time_isConsumer TIME \<and> rxRet \<noteq> CO_ERROR_NO then (rxRet, None, TIME)
          else if \<not> txOk then (CO_ERROR_ILLEGAL_ARGUMENT, None, TIME)
          else (CO_ERROR_NO, None, TIME\<lparr>time_CANtxBuff := CO_CANtxBufferInit cobId 6 (time_CANtxBuff TIME)\<rparr>))"

definition CO_TIME_set :: "timeobj \<Rightarrow> u32 \<Rightarrow> u16 \<Rightarrow> u32 \<Rightarrow> timeobj" where
  "CO_TIME_set TIME ms days producerInterval =
     TIME\<lparr>residual_us := 0, time_ms := ms, time_days := days, producerInterval_ms := producerInterval,
          producerTimer_ms := producerInterval\<rparr>"

text \<open>The three stages of the processing: a received stamp, the passing of time, the producer.\<close>

definition time_stamp :: "timeobj \<Rightarrow> bool \<Rightarrow> timeobj \<times> bool" where
  "time_stamp TIME pre =
     (if pre \<and> time_isConsumer TIME then
        if time_CANrxNew TIME then
          (TIME\<lparr>time_ms := le_word (take 4 (timeStamp TIME)) AND 0x0FFFFFFF, time_days := le_word (take 2 (drop 4 (timeStamp TIME))),
                residual_us := 0, time_CANrxNew := False\<rparr>, True)
        else (TIME, False)
      else (TIME\<lparr>time_CANrxNew := False\<rparr>, False))"

definition time_update :: "timeobj \<Rightarrow> u32 \<Rightarrow> timeobj \<times> u32" where
  "time_update TIME td =
     (let us = td + ucast (residual_us TIME); ms = us div 1000;
          TIME = TIME\<lparr>residual_us := ucast (us mod 1000), time_ms := time_ms TIME + ms\<rparr>
      in (if time_ms TIME \<ge> MS_PER_DAY then TIME\<lparr>time_ms := time_ms TIME - MS_PER_DAY, time_days := time_days TIME + 1\<rparr>
          else TIME, ms))"

definition time_produce :: "timeobj \<Rightarrow> bool \<Rightarrow> u32 \<Rightarrow> timeobj" where
  "time_produce TIME pre ms =
     (if pre \<and> time_isProducer TIME \<and> producerInterval_ms TIME > 0 then
        if producerTimer_ms TIME \<ge> producerInterval_ms TIME then
          let tx = (time_CANtxBuff TIME)\<lparr>tx_data := le_bytes 4 (time_ms TIME) @ le_bytes 2 (time_days TIME) @
                      drop 6 (tx_data (time_CANtxBuff TIME))\<rparr>
          in TIME\<lparr>producerTimer_ms := producerTimer_ms TIME - producerInterval_ms TIME, time_CANtxBuff := tx,
                  time_sent := time_sent TIME @ [tx_frame tx]\<rparr>
        else TIME\<lparr>producerTimer_ms := producerTimer_ms TIME + ms\<rparr>
      else TIME\<lparr>producerTimer_ms := producerInterval_ms TIME\<rparr>)"

definition CO_TIME_process :: "timeobj \<Rightarrow> bool \<Rightarrow> u32 \<Rightarrow> bool \<times> timeobj" where
  "CO_TIME_process TIME pre td =
     (let (TIME, received) = time_stamp TIME pre;
          (TIME, ms) = (if \<not> received \<and> td > 0 then time_update TIME td else (TIME, 0))
      in (received, time_produce TIME pre ms))"

section \<open>The clock\<close>

text \<open>
  The abstract clock counts microseconds since 1984, modulo the 65536 days that the object can
  represent; a time stamp that has been received waits until the next call.
\<close>

abbreviation (input) "US_PER_DAY \<equiv> 86400000000 :: nat"
abbreviation (input) "CLOCK \<equiv> 5662310400000000 :: nat"

record clock =
  now :: nat
  waiting :: "nat option"
  consumer :: bool

datatype time_event =
    Time_receive nat "u8 list"
  | Time_process bool u32
  | Time_set u32 u16 u32

fun time_step :: "time_event \<Rightarrow> timeobj \<Rightarrow> timeobj option" where
  "time_step (Time_receive DLC data) TIME = Some (CO_TIME_receive TIME DLC data)"
| "time_step (Time_process pre td) TIME = Some (snd (CO_TIME_process TIME pre td))"
| "time_step (Time_set ms days interval) TIME = Some (CO_TIME_set TIME ms days interval)"

definition stamp_time :: "u32 \<Rightarrow> u16 \<Rightarrow> nat" where
  "stamp_time ms days = unat days * US_PER_DAY + unat ms * 1000"

definition data_time :: "u8 list \<Rightarrow> nat" where
  "data_time data = stamp_time (le_word (take 4 data) AND 0x0FFFFFFF) (le_word (take 2 (drop 4 data)))"

fun clock_step :: "time_event \<Rightarrow> clock \<Rightarrow> clock" where
  "clock_step (Time_receive DLC data) c = (if DLC = 6 then c\<lparr>waiting := Some (data_time data)\<rparr> else c)"
| "clock_step (Time_process pre td) c =
     (if pre \<and> consumer c then
        case waiting c of Some t \<Rightarrow> c\<lparr>now := t, waiting := None\<rparr> | None \<Rightarrow> c\<lparr>now := (now c + unat td) mod CLOCK\<rparr>
      else c\<lparr>now := (now c + unat td) mod CLOCK, waiting := None\<rparr>)"
| "clock_step (Time_set ms days interval) c = c\<lparr>now := stamp_time ms days\<rparr>"

text \<open>
  The events for which it is right: stamps and settings within a day, and calls whose time
  difference leaves room for the residual (less than 71 minutes).
\<close>

fun time_ok :: "time_event \<Rightarrow> bool" where
  "time_ok (Time_receive DLC data) \<longleftrightarrow> DLC = 6 \<longrightarrow> (le_word (take 4 data) :: u32) AND 0x0FFFFFFF < MS_PER_DAY"
| "time_ok (Time_process pre td) \<longleftrightarrow> td \<le> 0xFFFFFC18"
| "time_ok (Time_set ms days interval) \<longleftrightarrow> ms < MS_PER_DAY"

definition clock_rel :: "clock \<Rightarrow> timeobj \<Rightarrow> bool" where
  "clock_rel c TIME \<longleftrightarrow> time_ms TIME < MS_PER_DAY \<and> residual_us TIME < 1000 \<and> consumer c = time_isConsumer TIME \<and>
     now c = stamp_time (time_ms TIME) (time_days TIME) + unat (residual_us TIME) \<and>
     (if time_CANrxNew TIME
      then (le_word (take 4 (timeStamp TIME)) :: u32) AND 0x0FFFFFFF < MS_PER_DAY \<and> waiting c = Some (data_time (timeStamp TIME))
      else waiting c = None)"

definition time_now :: "timeobj \<Rightarrow> nat" where
  "time_now TIME = stamp_time (time_ms TIME) (time_days TIME) + unat (residual_us TIME)"

lemma time_now_less: "time_ms TIME < MS_PER_DAY \<Longrightarrow> residual_us TIME < 1000 \<Longrightarrow> time_now TIME < CLOCK"
  using unat_u16_less [of "time_days TIME"] by (simp add: time_now_def stamp_time_def word_less_nat_alt)

lemma clock_arith:
  fixes D M r u :: nat
  assumes "D < 65536" "M < 86400000" "u < 4294967296"
  shows "M + u div 1000 < 86400000 \<Longrightarrow>
      D * US_PER_DAY + (M + u div 1000) * 1000 + u mod 1000 = (D * US_PER_DAY + M * 1000 + u) mod CLOCK"
    "86400000 \<le> M + u div 1000 \<Longrightarrow>
      ((D + 1) mod 65536) * US_PER_DAY + (M + u div 1000 - 86400000) * 1000 + u mod 1000 = (D * US_PER_DAY + M * 1000 + u) mod CLOCK"
proof -
  have u: "u = (u div 1000) * 1000 + u mod 1000" "u mod 1000 < 1000" by (simp_all add: mult_div_mod_eq mult.commute)
  have q: "u div 1000 < 4294968" using assms(3) by simp
  define k where "k = u div 1000"
  define l where "l = u mod 1000"
  note u = u [folded k_def l_def] and q = q [folded k_def]
  show "D * US_PER_DAY + (M + u div 1000) * 1000 + u mod 1000 = (D * US_PER_DAY + M * 1000 + u) mod CLOCK"
    if "M + u div 1000 < 86400000"
  proof -
    have "D * US_PER_DAY + M * 1000 + u < CLOCK" using that u assms(1) unfolding k_def [symmetric] by linarith
    then show ?thesis using u unfolding k_def [symmetric] l_def [symmetric] by (simp add: algebra_simps)
  qed
  show "((D + 1) mod 65536) * US_PER_DAY + (M + u div 1000 - 86400000) * 1000 + u mod 1000 = (D * US_PER_DAY + M * 1000 + u) mod CLOCK"
    if "86400000 \<le> M + u div 1000"
  proof (cases "D + 1 < 65536")
    case True
    then have "D * US_PER_DAY + M * 1000 + u < CLOCK" using u q assms(2) by linarith
    then show ?thesis using True u that unfolding k_def [symmetric] l_def [symmetric] by simp
  next
    case False
    then have D: "D = 65535" using assms(1) by simp
    let ?x = "(M + k - 86400000) * 1000 + l"
    have "D * US_PER_DAY + M * 1000 + u = CLOCK + ?x" using D u that unfolding k_def [symmetric] by simp
    moreover have "?x < CLOCK" using u(2) q assms(2) by simp
    ultimately have "(D * US_PER_DAY + M * 1000 + u) mod CLOCK = ?x" by (simp only: mod_add_self1 mod_less)
    then show ?thesis using D unfolding k_def [symmetric] l_def [symmetric] by simp
  qed
qed

lemma time_update_now:
  assumes "time_ms TIME < MS_PER_DAY" "residual_us TIME < 1000" "td \<le> 0xFFFFFC18"
  shows "time_now (fst (time_update TIME td)) = (time_now TIME + unat td) mod CLOCK"
    "time_ms (fst (time_update TIME td)) < MS_PER_DAY" "residual_us (fst (time_update TIME td)) < 1000"
proof -
  let ?us = "td + ucast (residual_us TIME) :: u32"
  have r: "unat (ucast (residual_us TIME) :: u32) = unat (residual_us TIME)" by (rule unat_ucast_16_32)
  have us: "unat ?us = unat td + unat (residual_us TIME)"
    using assms(2,3) r by (subst unat_plus_small) (simp_all add: word_less_nat_alt word_le_nat_alt)
  have q: "unat (?us div 1000) = unat ?us div 1000" "unat (?us mod 1000) = unat ?us mod 1000" by (simp_all add: unat_div unat_mod)
  have q': "unat ?us div 1000 < 4294968" using unat_u32_less [of ?us] by simp
  have m: "unat (time_ms TIME + ?us div 1000) = unat (time_ms TIME) + unat ?us div 1000"
    using assms(1) q(1) q' by (subst unat_plus_small) (simp_all add: word_less_nat_alt)
  have l: "unat (ucast (?us mod 1000) :: u16) = unat ?us mod 1000"
    using q(2) by (subst unat_ucast_32_16) simp_all
  have d: "unat (time_days TIME + 1) = (unat (time_days TIME) + 1) mod 65536" by (simp add: unat_word_ariths)
  note f = time_update_def Let_def time_now_def stamp_time_def
  have ar: "unat (time_days TIME) < 65536" "unat (time_ms TIME) < 86400000" "unat ?us < 4294967296"
    using unat_u16_less [of "time_days TIME"] assms(1) unat_u32_less [of ?us] by (simp_all add: word_less_nat_alt)
  show "time_now (fst (time_update TIME td)) = (time_now TIME + unat td) mod CLOCK"
  proof (cases "MS_PER_DAY \<le> time_ms TIME + ?us div 1000")
    case True
    then have c: "86400000 \<le> unat (time_ms TIME) + unat ?us div 1000" using m by (simp add: word_le_nat_alt)
    have "unat (time_ms TIME + ?us div 1000 - MS_PER_DAY) = unat (time_ms TIME) + unat ?us div 1000 - 86400000"
      unfolding unat_minus_ge [OF True [unfolded word_le_nat_alt]] m by simp
    then show ?thesis using True clock_arith(2) [OF ar c] l d us by (simp add: f ac_simps)
  next
    case False
    then have c: "unat (time_ms TIME) + unat ?us div 1000 < 86400000" using m by (simp add: word_le_nat_alt)
    then show ?thesis using False clock_arith(1) [OF ar c] l m us by (simp add: f ac_simps)
  qed
  show "time_ms (fst (time_update TIME td)) < MS_PER_DAY"
    using m q' ar(2) by (auto simp: f word_less_nat_alt word_le_nat_alt unat_minus_ge)
  show "residual_us (fst (time_update TIME td)) < 1000" using l by (simp add: f word_less_nat_alt)
qed

lemma time_stamp_fields:
  "time_isProducer (fst (time_stamp TIME pre)) = time_isProducer TIME"
  "time_isConsumer (fst (time_stamp TIME pre)) = time_isConsumer TIME"
  "time_CANtxBuff (fst (time_stamp TIME pre)) = time_CANtxBuff TIME" "time_sent (fst (time_stamp TIME pre)) = time_sent TIME"
  by (simp_all add: time_stamp_def)

lemma time_update_fields:
  "time_isConsumer (fst (time_update TIME td)) = time_isConsumer TIME" "time_CANrxNew (fst (time_update TIME td)) = time_CANrxNew TIME"
  "timeStamp (fst (time_update TIME td)) = timeStamp TIME"
  by (simp_all add: time_update_def Let_def)

lemma time_produce_fields:
  "time_ms (time_produce TIME pre ms) = time_ms TIME" "time_days (time_produce TIME pre ms) = time_days TIME"
  "residual_us (time_produce TIME pre ms) = residual_us TIME" "time_isConsumer (time_produce TIME pre ms) = time_isConsumer TIME"
  "time_CANrxNew (time_produce TIME pre ms) = time_CANrxNew TIME" "timeStamp (time_produce TIME pre ms) = timeStamp TIME"
  by (simp_all add: time_produce_def Let_def)

lemma clock_rel_now:
  "clock_rel c TIME \<longleftrightarrow> time_ms TIME < MS_PER_DAY \<and> residual_us TIME < 1000 \<and> consumer c = time_isConsumer TIME \<and>
     now c = time_now TIME \<and>
     (if time_CANrxNew TIME
      then (le_word (take 4 (timeStamp TIME)) :: u32) AND 0x0FFFFFFF < MS_PER_DAY \<and> waiting c = Some (data_time (timeStamp TIME))
      else waiting c = None)"
  by (simp add: clock_rel_def time_now_def)

lemma time_process_sim:
  assumes r: "clock_rel c TIME" and td: "td \<le> 0xFFFFFC18"
  shows "clock_rel (clock_step (Time_process pre td) c) (snd (CO_TIME_process TIME pre td))"
proof -
  obtain T1 received where s: "time_stamp TIME pre = (T1, received)" by (cases "time_stamp TIME pre")
  define T2 where "T2 = (if \<not> received \<and> td > 0 then fst (time_update T1 td) else T1)"
  define ms where "ms = (if \<not> received \<and> td > 0 then snd (time_update T1 td) else 0)"
  have p: "snd (CO_TIME_process TIME pre td) = time_produce T2 pre ms"
    by (cases "\<not> received \<and> td > 0") (auto simp: CO_TIME_process_def s T2_def ms_def case_prod_beta)
  have keep: "clock_rel d (time_produce T pre ms) = clock_rel d T" for d T ms
    by (simp add: clock_rel_def time_produce_fields)
  show ?thesis
  proof (cases received)
    case True
    then have "pre" "time_isConsumer TIME" "time_CANrxNew TIME" "T2 = T1"
      and T1: "T1 = TIME\<lparr>time_ms := le_word (take 4 (timeStamp TIME)) AND 0x0FFFFFFF,
        time_days := le_word (take 2 (drop 4 (timeStamp TIME))), residual_us := 0, time_CANrxNew := False\<rparr>"
      using s by (auto simp: time_stamp_def T2_def split: if_splits)
    then show ?thesis using r unfolding p keep by (simp add: clock_rel_now time_now_def data_time_def)
  next
    case False
    then have T1: "time_ms T1 = time_ms TIME" "time_days T1 = time_days TIME" "residual_us T1 = residual_us TIME"
      "time_isConsumer T1 = time_isConsumer TIME" "timeStamp T1 = timeStamp TIME"
      and new: "\<not> time_CANrxNew T1" "pre \<and> time_isConsumer TIME \<longrightarrow> \<not> time_CANrxNew TIME"
      using s by (auto simp: time_stamp_def split: if_splits)
    have ok: "time_ms T1 < MS_PER_DAY" "residual_us T1 < 1000" and n1: "time_now T1 = time_now TIME"
      using r T1 by (simp_all add: clock_rel_def time_now_def)
    have T2: "time_ms T2 < MS_PER_DAY" "residual_us T2 < 1000" "\<not> time_CANrxNew T2" "time_isConsumer T2 = time_isConsumer TIME"
      "time_now T2 = (time_now TIME + unat td) mod CLOCK"
      using time_update_now [OF ok td] time_now_less [OF ok] ok new n1 T1(4) False
      by (auto simp: T2_def time_update_fields word_gt_0)
    have "consumer c = time_isConsumer TIME" "now c = time_now TIME" "\<not> time_CANrxNew TIME \<longrightarrow> waiting c = None"
      using r by (auto simp: clock_rel_now)
    then have "clock_rel (clock_step (Time_process pre td) c) T2" using T2 new(2)
      by (auto simp: clock_rel_now split: option.splits)
    then show ?thesis unfolding p keep .
  qed
qed

interpretation timesim: simulation clock_rel time_ok clock_step time_step
proof unfold_locales
  fix c TIME e
  assume r: "clock_rel c TIME" and ok: "time_ok e"
  show "wp (time_step e TIME) (clock_rel (clock_step e c))"
  proof (cases e)
    case (Time_process pre td)
    then show ?thesis using time_process_sim [OF r, of td pre] ok by simp
  next
    case (Time_receive DLC data)
    then show ?thesis using r ok by (auto simp: CO_TIME_receive_def clock_rel_def data_time_def drop_take)
  next
    case (Time_set ms days interval)
    then show ?thesis using r ok by (simp add: CO_TIME_set_def clock_rel_def)
  qed
qed

section \<open>Properties\<close>

text \<open>
  C34: The clock keeps time. In every run of receptions, settings and calls, the days, milliseconds and
  residual microseconds of the object are those of a clock that counts microseconds: a call advances
  it by exactly the time difference, over midnight and over the end of the day counter, and a time
  stamp received by a consumer sets it in the next call.
\<close>

theorem time_keeps_time:
  assumes "clock_rel c TIME" "list_all time_ok es"
  shows "\<exists>TIME'. run time_step es TIME = Some TIME' \<and> time_ms TIME' < MS_PER_DAY \<and> residual_us TIME' < 1000 \<and>
    unat (time_days TIME') * US_PER_DAY + unat (time_ms TIME') * 1000 + unat (residual_us TIME') = now (fold clock_step es c)"
  using timesim.run_simulated [OF assms] by (auto simp: clock_rel_def stamp_time_def)

text \<open>
  A time stamp arrives as it was sent. The message that the producer sends in a call, received by
  a consumer, sets the consumer's clock in its next call to the producer's day and millisecond.
\<close>

theorem time_stamp_roundtrip:
  assumes "CO_TIME_process TIME True td = (rec, TIME')" "time_sent TIME' = time_sent TIME @ [(ident, data)]"
    and "time_ms TIME' < MS_PER_DAY" "tx_DLC (time_CANtxBuff TIME) = 6" "time_isConsumer T2"
    and "CO_TIME_process (CO_TIME_receive T2 (length data) data) True td2 = (rec2, T2')"
  shows "rec2 \<and> time_ms T2' = time_ms TIME' \<and> time_days T2' = time_days TIME' \<and> residual_us T2' = 0"
proof -
  obtain T1 received where s: "time_stamp TIME True = (T1, received)" by (cases "time_stamp TIME True")
  obtain T3 ms where u: "(if \<not> received \<and> td > 0 then time_update T1 td else (T1, 0)) = (T3, ms)" by (metis surj_pair)
  have T': "TIME' = time_produce T3 True ms" using assms(1) s u by (simp add: CO_TIME_process_def)
  have tx: "time_CANtxBuff T3 = time_CANtxBuff TIME" "time_sent T3 = time_sent TIME"
    using u s time_stamp_fields [of TIME True] by (auto simp: time_update_def Let_def split: if_splits)
  have d: "data = le_bytes 4 (time_ms TIME') @ le_bytes 2 (time_days TIME')"
    using assms(2,4) tx unfolding T' by (auto simp: time_produce_def Let_def tx_frame_def split: if_splits)
  have m: "time_ms TIME' AND 0x0FFFFFFF = time_ms TIME'"
  proof -
    have "time_ms TIME' < 2 ^ 28" using assms(3) by (simp add: word_less_nat_alt)
    then have "unat (take_bit 28 (time_ms TIME')) = unat (time_ms TIME')"
      by (simp add: unsigned_take_bit_eq take_bit_nat_eq_self word_less_nat_alt)
    then have "take_bit 28 (time_ms TIME') = time_ms TIME'" by (simp add: word_unat_eq_iff)
    then show ?thesis by (simp add: take_bit_eq_mask mask_eq_exp_minus_1)
  qed
  have "length data = 6" using d by simp
  then show ?thesis using assms(5,6) m
    by (auto simp: CO_TIME_process_def CO_TIME_receive_def time_stamp_def d le_word_le_bytes32 le_word_le_bytes16 time_produce_fields)
qed

text \<open>
  The producer is late: the call that sends does not count its own milliseconds, and the timer is
  compared before it is advanced. Called every millisecond, it sends every \<open>interval + 1\<close>
  milliseconds.
\<close>

definition time_ticks :: "nat \<Rightarrow> timeobj \<Rightarrow> timeobj" where
  "time_ticks n TIME = ((\<lambda>TIME. snd (CO_TIME_process TIME True 1000)) ^^ n) TIME"

lemma time_producer_tick:
  assumes "time_isProducer TIME" "\<not> time_isConsumer TIME" "residual_us TIME = 0"
    and "producerTimer_ms TIME < producerInterval_ms TIME"
  shows "producerTimer_ms (snd (CO_TIME_process TIME True 1000)) = producerTimer_ms TIME + 1 \<and>
    time_sent (snd (CO_TIME_process TIME True 1000)) = time_sent TIME \<and>
    time_isProducer (snd (CO_TIME_process TIME True 1000)) \<and> \<not> time_isConsumer (snd (CO_TIME_process TIME True 1000)) \<and>
    residual_us (snd (CO_TIME_process TIME True 1000)) = 0 \<and>
    producerInterval_ms (snd (CO_TIME_process TIME True 1000)) = producerInterval_ms TIME"
  using assms order.strict_trans1 [OF word_zero_le assms(4)]
  by (auto simp: CO_TIME_process_def time_stamp_def time_update_def time_produce_def Let_def not_le)

lemma time_producer_late:
  assumes "time_isProducer TIME" "\<not> time_isConsumer TIME" "residual_us TIME = 0" "producerTimer_ms TIME = 0"
    and "n \<le> unat (producerInterval_ms TIME)"
  shows "time_sent (time_ticks n TIME) = time_sent TIME"
proof -
  have "unat (producerTimer_ms (time_ticks k TIME)) = k \<and> time_sent (time_ticks k TIME) = time_sent TIME \<and>
      time_isProducer (time_ticks k TIME) \<and> \<not> time_isConsumer (time_ticks k TIME) \<and> residual_us (time_ticks k TIME) = 0 \<and>
      producerInterval_ms (time_ticks k TIME) = producerInterval_ms TIME" if "k \<le> unat (producerInterval_ms TIME)" for k
    using that
  proof (induction k)
    case 0
    then show ?case using assms by (simp add: time_ticks_def)
  next
    case (Suc k)
    let ?T = "time_ticks k TIME"
    have t: "time_ticks (Suc k) TIME = snd (CO_TIME_process ?T True 1000)" by (simp add: time_ticks_def)
    have "unat (producerTimer_ms ?T + 1) = Suc k"
      using Suc unat_u32_less [of "producerInterval_ms TIME"] by (subst unat_plus_small) simp_all
    then show ?case unfolding t using Suc time_producer_tick [of ?T] by (simp add: word_less_nat_alt)
  qed
  then show ?thesis using assms(5) by blast
qed

section \<open>Examples\<close>

text \<open>One second before midnight of the last day; the time stamp of a producer.\<close>

definition example_time :: timeobj where
  "example_time = (time_zero \<lparr>tx_ident = 0x100, tx_DLC = 6, tx_data = replicate 8 0, tx_bufferFull = False\<rparr> (\<lambda>_. 0))
     \<lparr>time_ms := 86399000, time_days := 65535, time_isConsumer := True\<rparr>"

definition example_producer :: timeobj where
  "example_producer = CO_TIME_set (example_time\<lparr>time_isConsumer := False, time_isProducer := True\<rparr>) 5000 14000 1000"

theorem time_keeps_time_witness:
  "\<exists>TIME'. run time_step [Time_process True 600400, Time_process False 500000] example_time = Some TIME' \<and>
     unat (time_days TIME') * US_PER_DAY + unat (time_ms TIME') * 1000 + unat (residual_us TIME') = 100400"
proof -
  have "clock_rel \<lparr>now = 65535 * US_PER_DAY + 86399000000, waiting = None, consumer = True\<rparr> example_time"
    by (simp add: clock_rel_def example_time_def time_zero_def stamp_time_def)
  from time_keeps_time [OF this, of "[Time_process True 600400, Time_process False 500000]"]
  show ?thesis by auto
qed

theorem time_stamp_roundtrip_witness:
  "\<exists>rec TIME' data rec2 T2'. CO_TIME_process example_producer True 1000 = (rec, TIME') \<and> time_sent TIME' = [(0x100, data)] \<and>
     CO_TIME_process (CO_TIME_receive example_time (length data) data) True 7 = (rec2, T2') \<and>
     rec2 \<and> time_ms T2' = 5001 \<and> time_days T2' = 14000"
proof -
  obtain rec TIME' where p: "CO_TIME_process example_producer True 1000 = (rec, TIME')" by (metis surj_pair)
  have f: "time_sent (snd (CO_TIME_process example_producer True 1000)) = [(0x100, le_bytes 4 (5001 :: u32) @ le_bytes 2 (14000 :: u16))]"
    "time_ms (snd (CO_TIME_process example_producer True 1000)) = 5001" "time_days (snd (CO_TIME_process example_producer True 1000)) = 14000"
    "time_sent example_producer = []" "tx_DLC (time_CANtxBuff example_producer) = 6" "time_isConsumer example_time"
    by code_simp+
  let ?d = "le_bytes 4 (5001 :: u32) @ le_bytes 2 (14000 :: u16)"
  obtain rec2 T2' where q: "CO_TIME_process (CO_TIME_receive example_time (length ?d) ?d) True 7 = (rec2, T2')" by (metis surj_pair)
  have "rec2 \<and> time_ms T2' = time_ms TIME' \<and> time_days T2' = time_days TIME' \<and> residual_us T2' = 0"
    by (rule time_stamp_roundtrip [OF p _ _ _ _ q, of "0x100"]) (use f p in simp_all)
  then show ?thesis using f p q by auto
qed

end
