(* ===== verification/LSSslave.thy ===== *)
theory LSSslave
  imports CO_Driver Systems
begin

text \<open>
  The LSS slave (\<open>305/CO_LSSslave.c\<close>, \<open>305/CO_LSSslave.h\<close>, \<open>305/CO_LSS.h\<close>): the assignment of the
  node identifier and of the bit rate over the bus. A slave is addressed by its LSS address of four
  numbers, either by sending the whole address or by a search (fastscan); it is then in the
  configuration state and obeys the configuration services.
\<close>

section \<open>The object\<close>

text \<open>
  The callbacks of the application are functions, or \<open>None\<close> for a null pointer; \<open>lss_activated\<close> and
  \<open>lss_stored\<close> are the calls of the bit rate activation and of the storage. \<open>pendingBitRate\<close> and
  \<open>pendingNodeID\<close> are the application's variables that the object points to.
\<close>

record CO_LSSslave =
  lssAddress :: "u32 list"
  lssState :: u8
  lssSelect :: "u32 list"
  lssFastscan :: "u32 list"
  fastscanPos :: u8
  pendingBitRate :: u16
  pendingNodeID :: u8
  activeNodeID :: u8
  sendResponse :: bool
  lss_service :: u8
  lss_CANdata :: "u8 list"
  pFunctLSScheckBitRate :: "(u16 \<Rightarrow> bool) option"
  pFunctLSSactivateBitRate :: bool
  pFunctLSScfgStore :: "(u8 \<Rightarrow> u16 \<Rightarrow> bool) option"
  lss_TXbuff :: CANtx

record lss = CO_LSSslave +
  lss_sent :: "can_frame list"
  lss_activated :: "u16 list"
  lss_stored :: "(u8 \<times> u16) list"

abbreviation (input) "CO_LSS_STATE_WAITING \<equiv> 0 :: u8"
abbreviation (input) "CO_LSS_STATE_CONFIGURATION \<equiv> 1 :: u8"
abbreviation (input) "CO_LSS_NODE_ID_ASSIGNMENT \<equiv> 0xFF :: u8"
abbreviation (input) "CO_LSS_SWITCH_STATE_GLOBAL \<equiv> 0x04 :: u8"
abbreviation (input) "CO_LSS_SWITCH_STATE_SEL_VENDOR \<equiv> 0x40 :: u8"
abbreviation (input) "CO_LSS_SWITCH_STATE_SEL_PRODUCT \<equiv> 0x41 :: u8"
abbreviation (input) "CO_LSS_SWITCH_STATE_SEL_REV \<equiv> 0x42 :: u8"
abbreviation (input) "CO_LSS_SWITCH_STATE_SEL_SERIAL \<equiv> 0x43 :: u8"
abbreviation (input) "CO_LSS_SWITCH_STATE_SEL \<equiv> 0x44 :: u8"
abbreviation (input) "CO_LSS_CFG_NODE_ID \<equiv> 0x11 :: u8"
abbreviation (input) "CO_LSS_CFG_BIT_TIMING \<equiv> 0x13 :: u8"
abbreviation (input) "CO_LSS_CFG_ACTIVATE_BIT_TIMING \<equiv> 0x15 :: u8"
abbreviation (input) "CO_LSS_CFG_STORE \<equiv> 0x17 :: u8"
abbreviation (input) "CO_LSS_IDENT_SLAVE \<equiv> 0x4F :: u8"
abbreviation (input) "CO_LSS_IDENT_FASTSCAN \<equiv> 0x51 :: u8"
abbreviation (input) "CO_LSS_INQUIRE_VENDOR \<equiv> 0x5A :: u8"
abbreviation (input) "CO_LSS_INQUIRE_PRODUCT \<equiv> 0x5B :: u8"
abbreviation (input) "CO_LSS_INQUIRE_REV \<equiv> 0x5C :: u8"
abbreviation (input) "CO_LSS_INQUIRE_SERIAL \<equiv> 0x5D :: u8"
abbreviation (input) "CO_LSS_INQUIRE_NODE_ID \<equiv> 0x5E :: u8"
abbreviation (input) "CO_LSS_FASTSCAN_CONFIRM \<equiv> 0x80 :: u8"

definition CO_LSS_NODE_ID_VALID :: "u8 \<Rightarrow> bool" where
  "CO_LSS_NODE_ID_VALID nid \<longleftrightarrow> (nid \<ge> 1 \<and> nid \<le> 0x7F) \<or> nid = CO_LSS_NODE_ID_ASSIGNMENT"

definition CO_LSS_bitTimingTableLookup :: "u16 list" where
  "CO_LSS_bitTimingTableLookup = [1000, 800, 500, 250, 125, 0, 50, 20, 10, 0]"

definition CO_LSS_BIT_TIMING_VALID :: "u8 \<Rightarrow> bool" where
  "CO_LSS_BIT_TIMING_VALID i \<longleftrightarrow> i \<noteq> 5 \<and> i \<le> 9"

definition CO_LSS_ADDRESS_EQUAL :: "u32 list \<Rightarrow> u32 list \<Rightarrow> bool" where
  "CO_LSS_ADDRESS_EQUAL a b \<longleftrightarrow> a ! 0 = b ! 0 \<and> a ! 1 = b ! 1 \<and> a ! 2 = b ! 2 \<and> a ! 3 = b ! 3"

definition CO_LSS_FASTSCAN_BITCHECK_VALID :: "u8 \<Rightarrow> bool" where
  "CO_LSS_FASTSCAN_BITCHECK_VALID b \<longleftrightarrow> b \<le> 0x1F \<or> b = CO_LSS_FASTSCAN_CONFIRM"

section \<open>Reception\<close>

text \<open>
  Each service of the reception returns the object and whether the processing is requested
  (\<open>request_LSSslave_process\<close>). The messages have eight data bytes.
\<close>

definition lss_switch_global :: "lss \<Rightarrow> u8 \<Rightarrow> lss \<times> bool" where
  "lss_switch_global S mode =
     (if mode = CO_LSS_STATE_WAITING then
        let req = (lssState S = CO_LSS_STATE_CONFIGURATION \<and> activeNodeID S = CO_LSS_NODE_ID_ASSIGNMENT \<and>
                   pendingNodeID S \<noteq> CO_LSS_NODE_ID_ASSIGNMENT);
            S = (if req then S\<lparr>lss_service := CO_LSS_SWITCH_STATE_GLOBAL\<rparr> else S)
        in (S\<lparr>lssState := CO_LSS_STATE_WAITING, lssSelect := [0, 0, 0, 0]\<rparr>, req)
      else if mode = CO_LSS_STATE_CONFIGURATION then (S\<lparr>lssState := CO_LSS_STATE_CONFIGURATION\<rparr>, False)
      else (S, False))"

definition lss_select :: "lss \<Rightarrow> u8 \<Rightarrow> u32 \<Rightarrow> lss \<times> bool" where
  "lss_select S cs v =
     (if cs = CO_LSS_SWITCH_STATE_SEL_VENDOR then (S\<lparr>lssSelect := (lssSelect S)[0 := v]\<rparr>, False)
      else if cs = CO_LSS_SWITCH_STATE_SEL_PRODUCT then (S\<lparr>lssSelect := (lssSelect S)[1 := v]\<rparr>, False)
      else if cs = CO_LSS_SWITCH_STATE_SEL_REV then (S\<lparr>lssSelect := (lssSelect S)[2 := v]\<rparr>, False)
      else
        let S = S\<lparr>lssSelect := (lssSelect S)[3 := v]\<rparr> in
        if CO_LSS_ADDRESS_EQUAL (lssAddress S) (lssSelect S)
        then (S\<lparr>lssState := CO_LSS_STATE_CONFIGURATION, lss_service := cs\<rparr>, True) else (S, False))"

definition lss_ack :: "lss \<Rightarrow> lss" where
  "lss_ack S =
     (let tx = (lss_TXbuff S)\<lparr>tx_data := CO_LSS_IDENT_SLAVE # replicate 7 0\<rparr>
      in S\<lparr>lss_TXbuff := tx, lss_sent := lss_sent S @ [tx_frame tx]\<rparr>)"

definition lss_fastscan :: "lss \<Rightarrow> u32 \<Rightarrow> u8 \<Rightarrow> u8 \<Rightarrow> u8 \<Rightarrow> lss" where
  "lss_fastscan S idNumber bitCheck lssSub lssNext =
     (if pendingNodeID S = CO_LSS_NODE_ID_ASSIGNMENT \<and> activeNodeID S = CO_LSS_NODE_ID_ASSIGNMENT then
        if \<not> CO_LSS_FASTSCAN_BITCHECK_VALID bitCheck \<or> lssSub > 3 \<or> lssNext > 3 then S
        else if bitCheck = CO_LSS_FASTSCAN_CONFIRM then lss_ack (S\<lparr>fastscanPos := 0, lssFastscan := [0, 0, 0, 0]\<rparr>)
        else if fastscanPos S = lssSub then
          let msk = push_bit (unat bitCheck) 0xFFFFFFFF in
          if lssAddress S ! unat lssSub AND msk = idNumber AND msk then
            let S = S\<lparr>fastscanPos := lssNext\<rparr>;
                S = (if bitCheck = 0 \<and> lssNext < lssSub then S\<lparr>lssState := CO_LSS_STATE_CONFIGURATION\<rparr> else S)
            in lss_ack S
          else S
        else S
      else S)"

definition lss_receive_service :: "lss \<Rightarrow> u8 list \<Rightarrow> lss \<times> bool" where
  "lss_receive_service S data =
     (let cs = data ! 0; v = le_word (take 4 (drop 1 data)) in
      if cs = CO_LSS_SWITCH_STATE_GLOBAL then lss_switch_global S (data ! 1)
      else if lssState S = CO_LSS_STATE_WAITING then
        if cs = CO_LSS_SWITCH_STATE_SEL_VENDOR \<or> cs = CO_LSS_SWITCH_STATE_SEL_PRODUCT \<or> cs = CO_LSS_SWITCH_STATE_SEL_REV \<or>
           cs = CO_LSS_SWITCH_STATE_SEL_SERIAL
        then lss_select S cs v
        else if cs = CO_LSS_IDENT_FASTSCAN then (lss_fastscan S v (data ! 5) (data ! 6) (data ! 7), False)
        else (S, False)
      else (S\<lparr>lss_CANdata := take 8 data, lss_service := cs\<rparr>, True))"

definition CO_LSSslave_receive :: "lss \<Rightarrow> nat \<Rightarrow> u8 list \<Rightarrow> lss" where
  "CO_LSSslave_receive S DLC data =
     (if DLC = 8 \<and> \<not> sendResponse S then
        let (S, req) = lss_receive_service S data in if req then S\<lparr>sendResponse := True\<rparr> else S
      else S)"

section \<open>Initialisation\<close>

text \<open>\<open>rxRet\<close> is the result of \<open>CO_CANrxBufferInit\<close>, \<open>txOk\<close> whether \<open>CO_CANtxBufferInit\<close> returned the buffer \<open>tx\<close>.\<close>

definition CO_LSSslave_init ::
    "CO_ReturnError \<Rightarrow> bool \<Rightarrow> CANtx \<Rightarrow> lss \<Rightarrow> u32 list \<Rightarrow> u16 \<Rightarrow> u8 \<Rightarrow> u16 \<Rightarrow> CO_ReturnError \<times> lss" where
  "CO_LSSslave_init rxRet txOk tx S addr bitRate nodeId canId =
     (if \<not> CO_LSS_NODE_ID_VALID nodeId then (CO_ERROR_ILLEGAL_ARGUMENT, S)
      else
        (if txOk then rxRet else CO_ERROR_ILLEGAL_ARGUMENT,
         \<lparr>lssAddress = addr, lssState = CO_LSS_STATE_WAITING, lssSelect = [0, 0, 0, 0], lssFastscan = [0, 0, 0, 0],
          fastscanPos = 0, pendingBitRate = bitRate, pendingNodeID = nodeId, activeNodeID = nodeId, sendResponse = False,
          lss_service = 0, lss_CANdata = replicate 8 0, pFunctLSScheckBitRate = None, pFunctLSSactivateBitRate = False,
          pFunctLSScfgStore = None, lss_TXbuff = (if txOk then CO_CANtxBufferInit canId 8 tx else tx),
          lss_sent = [], lss_activated = [], lss_stored = []\<rparr>))"

definition CO_LSSslave_initCkBitRateCall :: "lss \<Rightarrow> (u16 \<Rightarrow> bool) option \<Rightarrow> lss" where
  "CO_LSSslave_initCkBitRateCall S f = S\<lparr>pFunctLSScheckBitRate := f\<rparr>"

definition CO_LSSslave_initActBitRateCall :: "lss \<Rightarrow> bool \<Rightarrow> lss" where
  "CO_LSSslave_initActBitRateCall S f = S\<lparr>pFunctLSSactivateBitRate := f\<rparr>"

definition CO_LSSslave_initCfgStoreCall :: "lss \<Rightarrow> (u8 \<Rightarrow> u16 \<Rightarrow> bool) option \<Rightarrow> lss" where
  "CO_LSSslave_initCfgStoreCall S f = S\<lparr>pFunctLSScfgStore := f\<rparr>"

definition CO_LSSslave_getState :: "lss \<Rightarrow> u8" where
  "CO_LSSslave_getState S = lssState S"

section \<open>Processing\<close>

text \<open>
  The services: each returns the object and the bytes of the response that it sets, or \<open>None\<close> when
  nothing is sent.
\<close>

definition lss_cfg_node_id :: "lss \<Rightarrow> lss \<times> u8 list option" where
  "lss_cfg_node_id S =
     (let nid = lss_CANdata S ! 1 in
      if CO_LSS_NODE_ID_VALID nid then (S\<lparr>pendingNodeID := nid\<rparr>, Some [lss_service S, 0])
      else (S, Some [lss_service S, 1]))"

definition lss_cfg_bit_timing :: "lss \<Rightarrow> (lss \<times> u8 list option) option" where
  "lss_cfg_bit_timing S =
     (case pFunctLSScheckBitRate S of
        None \<Rightarrow> Some (S, None)
      | Some check \<Rightarrow>
          let tableSelector = lss_CANdata S ! 1; tableIndex = lss_CANdata S ! 2 in
          if tableSelector = 0 \<and> CO_LSS_BIT_TIMING_VALID tableIndex then do {
            rate \<leftarrow> arr_get CO_LSS_bitTimingTableLookup (unat tableIndex);
            Some (if check rate then (S\<lparr>pendingBitRate := rate\<rparr>, Some [lss_service S, 0, 0])
                  else (S, Some [lss_service S, 0xFF, 1]))
          }
          else Some (S, Some [lss_service S, 1, 0]))"

definition lss_cfg_activate :: "lss \<Rightarrow> lss \<times> u8 list option" where
  "lss_cfg_activate S =
     (if pFunctLSScheckBitRate S = None then (S, None)
      else if pFunctLSSactivateBitRate S
      then (S\<lparr>lss_activated := lss_activated S @ [push_bit 8 (ucast (lss_CANdata S ! 2)) OR ucast (lss_CANdata S ! 1)]\<rparr>, None)
      else (S, None))"

definition lss_cfg_store :: "lss \<Rightarrow> lss \<times> u8 list option" where
  "lss_cfg_store S =
     (case pFunctLSScfgStore S of
        None \<Rightarrow> (S, Some [lss_service S, 1])
      | Some store \<Rightarrow>
          (S\<lparr>lss_stored := lss_stored S @ [(pendingNodeID S, pendingBitRate S)]\<rparr>,
           Some [lss_service S, if store (pendingNodeID S) (pendingBitRate S) then 0 else 2]))"

definition lss_serve :: "lss \<Rightarrow> (lss \<times> u8 list option \<times> bool) option" where
  "lss_serve S =
     (let cs = lss_service S; r = (\<lambda>x. map_option (\<lambda>(S, d). (S, d, False)) x) in
      if cs = CO_LSS_SWITCH_STATE_GLOBAL then Some (S, None, True)
      else if cs = CO_LSS_SWITCH_STATE_SEL_SERIAL then Some (S, Some [CO_LSS_SWITCH_STATE_SEL], False)
      else if cs = CO_LSS_CFG_NODE_ID then r (Some (lss_cfg_node_id S))
      else if cs = CO_LSS_CFG_BIT_TIMING then r (lss_cfg_bit_timing S)
      else if cs = CO_LSS_CFG_ACTIVATE_BIT_TIMING then r (Some (lss_cfg_activate S))
      else if cs = CO_LSS_CFG_STORE then r (Some (lss_cfg_store S))
      else if cs = CO_LSS_INQUIRE_VENDOR then Some (S, Some (cs # le_bytes 4 (lssAddress S ! 0)), False)
      else if cs = CO_LSS_INQUIRE_PRODUCT then Some (S, Some (cs # le_bytes 4 (lssAddress S ! 1)), False)
      else if cs = CO_LSS_INQUIRE_REV then Some (S, Some (cs # le_bytes 4 (lssAddress S ! 2)), False)
      else if cs = CO_LSS_INQUIRE_SERIAL then Some (S, Some (cs # le_bytes 4 (lssAddress S ! 3)), False)
      else if cs = CO_LSS_INQUIRE_NODE_ID then Some (S, Some [cs, activeNodeID S], False)
      else if cs = CO_LSS_IDENT_FASTSCAN then Some (S, Some [CO_LSS_IDENT_SLAVE], False)
      else Some (S, None, False))"

definition lss_respond :: "lss \<Rightarrow> u8 list option \<Rightarrow> lss" where
  "lss_respond S d =
     (case d of
        None \<Rightarrow> S\<lparr>lss_TXbuff := (lss_TXbuff S)\<lparr>tx_data := replicate 8 0\<rparr>\<rparr>
      | Some bs \<Rightarrow>
          let tx = (lss_TXbuff S)\<lparr>tx_data := bs @ replicate (8 - length bs) 0\<rparr>
          in S\<lparr>lss_TXbuff := tx, lss_sent := lss_sent S @ [tx_frame tx]\<rparr>)"

definition CO_LSSslave_process :: "lss \<Rightarrow> (bool \<times> lss) option" where
  "CO_LSSslave_process S =
     (if sendResponse S then do {
        (S, d, reset) \<leftarrow> lss_serve S;
        Some (reset, (lss_respond S d)\<lparr>sendResponse := False\<rparr>)
      }
      else Some (False, S))"

section \<open>The object as a system of events\<close>

datatype lss_event =
    Lss_receive nat "u8 list"
  | Lss_process
  | Lss_checkBitRate "(u16 \<Rightarrow> bool) option"
  | Lss_activateBitRate bool
  | Lss_cfgStore "(u8 \<Rightarrow> u16 \<Rightarrow> bool) option"

text \<open>The data of a received message are in a buffer of eight bytes, whatever its length.\<close>

fun lss_step :: "lss_event \<Rightarrow> lss \<Rightarrow> lss option" where
  "lss_step (Lss_receive DLC data) S = Some (CO_LSSslave_receive S DLC (take 8 (data @ replicate 8 0)))"
| "lss_step Lss_process S = map_option snd (CO_LSSslave_process S)"
| "lss_step (Lss_checkBitRate f) S = Some (CO_LSSslave_initCkBitRateCall S f)"
| "lss_step (Lss_activateBitRate f) S = Some (CO_LSSslave_initActBitRateCall S f)"
| "lss_step (Lss_cfgStore f) S = Some (CO_LSSslave_initCfgStoreCall S f)"

text \<open>
  The invariant: the state is one of the two, the search position is inside the address, the node
  identifiers are valid, so are those that were stored; and a response to the switch to the waiting
  state is pending only when an identifier was assigned to a slave that had none.
\<close>

definition lss_inv :: "u8 \<Rightarrow> lss \<Rightarrow> bool" where
  "lss_inv node S \<longleftrightarrow> lssState S \<in> {0, 1} \<and> length (lssAddress S) = 4 \<and> length (lssSelect S) = 4 \<and> fastscanPos S \<le> 3 \<and>
     activeNodeID S = node \<and> CO_LSS_NODE_ID_VALID (pendingNodeID S) \<and> length (lss_CANdata S) = 8 \<and>
     list_all (\<lambda>(n, _). CO_LSS_NODE_ID_VALID n) (lss_stored S) \<and>
     (sendResponse S \<and> lss_service S = CO_LSS_SWITCH_STATE_GLOBAL \<longrightarrow>
        node = CO_LSS_NODE_ID_ASSIGNMENT \<and> pendingNodeID S \<noteq> CO_LSS_NODE_ID_ASSIGNMENT)"

lemma lss_fastscan_fields:
  "lssAddress (lss_fastscan S v b sub nxt) = lssAddress S" "lssSelect (lss_fastscan S v b sub nxt) = lssSelect S"
  "activeNodeID (lss_fastscan S v b sub nxt) = activeNodeID S" "pendingNodeID (lss_fastscan S v b sub nxt) = pendingNodeID S"
  "lss_CANdata (lss_fastscan S v b sub nxt) = lss_CANdata S" "lss_stored (lss_fastscan S v b sub nxt) = lss_stored S"
  "sendResponse (lss_fastscan S v b sub nxt) = sendResponse S" "lss_service (lss_fastscan S v b sub nxt) = lss_service S"
  by (simp_all add: lss_fastscan_def lss_ack_def Let_def)

lemma lss_fastscan_state:
  "fastscanPos S \<le> 3 \<Longrightarrow> fastscanPos (lss_fastscan S v b sub nxt) \<le> 3"
  "lssState (lss_fastscan S v b sub nxt) = lssState S \<or> lssState (lss_fastscan S v b sub nxt) = 1"
  by (simp_all add: lss_fastscan_def lss_ack_def Let_def not_less)

lemma lss_fastscan_inv: "lss_inv node S \<Longrightarrow> lss_inv node (lss_fastscan S v b sub nxt)"
  using lss_fastscan_state(2) [of S v b sub nxt] unfolding lss_inv_def lss_fastscan_fields
  by (metis insert_iff lss_fastscan_state(1))

lemma lss_services_inv:
  assumes "lss_inv node S" "\<not> sendResponse S"
  shows "lss_inv node ((fst (lss_switch_global S mode))\<lparr>sendResponse := snd (lss_switch_global S mode)\<rparr>)"
    "cs \<noteq> 4 \<Longrightarrow> lss_inv node ((fst (lss_select S cs v))\<lparr>sendResponse := snd (lss_select S cs v)\<rparr>)"
  using assms by (auto simp: lss_inv_def lss_switch_global_def lss_select_def Let_def)

lemma lss_receive_service_inv:
  assumes "lss_inv node S" "\<not> sendResponse S" "length data = 8"
  shows "lss_inv node ((fst (lss_receive_service S data))\<lparr>sendResponse := snd (lss_receive_service S data)\<rparr>)"
proof -
  have k: "S\<lparr>sendResponse := False\<rparr> = S" using assms(2) by simp
  have f: "lss_inv node ((lss_fastscan S v b sub nxt)\<lparr>sendResponse := False\<rparr>)" for v b sub nxt
    using lss_fastscan_inv [OF assms(1)] by (simp add: lss_inv_def)
  have c: "cs \<noteq> 4 \<Longrightarrow> lss_inv node (S\<lparr>lss_CANdata := data, lss_service := cs, sendResponse := True\<rparr>)" for cs
    using assms by (auto simp: lss_inv_def)
  show ?thesis using assms f c lss_services_inv [OF assms(1,2)]
    by (simp add: lss_receive_service_def Let_def k)
qed

lemma CO_LSSslave_receive_inv:
  assumes "lss_inv node S" "length data = 8"
  shows "lss_inv node (CO_LSSslave_receive S DLC data)"
proof (cases "DLC = 8 \<and> \<not> sendResponse S")
  case True
  have k: "T\<lparr>sendResponse := False\<rparr> = T" if "\<not> sendResponse T" for T :: lss using that by simp
  have "\<not> sendResponse (fst (lss_receive_service S data))" using True
    by (simp add: lss_receive_service_def Let_def lss_switch_global_def lss_select_def lss_fastscan_fields)
  then show ?thesis using lss_receive_service_inv [OF assms(1) _ assms(2)] True
    by (cases "snd (lss_receive_service S data)") (simp_all add: CO_LSSslave_receive_def case_prod_beta k)
qed (use assms in \<open>auto simp: CO_LSSslave_receive_def\<close>)

lemma lss_cfg_bit_timing_inv:
  "lss_inv node S \<Longrightarrow> wp (lss_cfg_bit_timing S) (\<lambda>(S', d). lss_inv node (S'\<lparr>sendResponse := False\<rparr>))"
proof -
  assume i: "lss_inv node S"
  have "unat (i :: u8) < length CO_LSS_bitTimingTableLookup" if "CO_LSS_BIT_TIMING_VALID i" for i
    using that by (simp add: CO_LSS_bitTimingTableLookup_def CO_LSS_BIT_TIMING_VALID_def word_le_nat_alt)
  then show ?thesis using i by (auto simp: lss_cfg_bit_timing_def Let_def lss_inv_def split: option.splits)
qed

lemma lss_respond_fields:
  "lss_inv node ((lss_respond S d)\<lparr>sendResponse := False\<rparr>) = lss_inv node (S\<lparr>sendResponse := False\<rparr>)"
  by (simp add: lss_respond_def Let_def lss_inv_def split: option.splits)

lemma lss_serve_inv:
  "lss_inv node S \<Longrightarrow> sendResponse S \<Longrightarrow>
   wp (lss_serve S) (\<lambda>(S', d, reset). lss_inv node (S'\<lparr>sendResponse := False\<rparr>) \<and>
     (reset \<longrightarrow> activeNodeID S = CO_LSS_NODE_ID_ASSIGNMENT \<and> pendingNodeID S \<noteq> CO_LSS_NODE_ID_ASSIGNMENT))"
proof -
  assume i: "lss_inv node S" and s: "sendResponse S"
  have k: "lss_inv node (S\<lparr>sendResponse := False\<rparr>)" using i by (simp add: lss_inv_def)
  have n: "lss_inv node ((fst (lss_cfg_node_id S))\<lparr>sendResponse := False\<rparr>)"
    "lss_inv node ((fst (lss_cfg_activate S))\<lparr>sendResponse := False\<rparr>)" "lss_inv node ((fst (lss_cfg_store S))\<lparr>sendResponse := False\<rparr>)"
    using i by (auto simp: lss_inv_def lss_cfg_node_id_def lss_cfg_activate_def lss_cfg_store_def Let_def split: option.splits)
  have g: "lss_service S = CO_LSS_SWITCH_STATE_GLOBAL \<Longrightarrow>
      activeNodeID S = CO_LSS_NODE_ID_ASSIGNMENT \<and> pendingNodeID S \<noteq> CO_LSS_NODE_ID_ASSIGNMENT"
    using i s by (simp add: lss_inv_def)
  show ?thesis using k n g lss_cfg_bit_timing_inv [OF i]
    by (simp add: lss_serve_def Let_def wp_if case_prod_unfold)
qed

lemma CO_LSSslave_process_inv:
  "lss_inv node S \<Longrightarrow> wp (CO_LSSslave_process S) (\<lambda>(reset, S'). lss_inv node S' \<and>
     (reset \<longrightarrow> activeNodeID S = CO_LSS_NODE_ID_ASSIGNMENT \<and> pendingNodeID S \<noteq> CO_LSS_NODE_ID_ASSIGNMENT))"
  using lss_serve_inv [of node S] wp_mono
  by (auto simp: CO_LSSslave_process_def case_prod_unfold lss_respond_fields)

interpretation lsssys: safe_system "lss_inv node" lss_step
proof unfold_locales
  fix S e
  assume i: "lss_inv node S"
  show "wp (lss_step e S) (lss_inv node)"
  proof (cases e)
    case (Lss_receive DLC data)
    then show ?thesis using CO_LSSslave_receive_inv [OF i] by simp
  next
    case Lss_process
    then show ?thesis using wp_mono [OF CO_LSSslave_process_inv [OF i]] by (simp add: case_prod_unfold)
  qed (use i in \<open>simp_all add: lss_inv_def CO_LSSslave_initCkBitRateCall_def CO_LSSslave_initActBitRateCall_def
      CO_LSSslave_initCfgStoreCall_def\<close>)
qed

lemma CO_LSSslave_init_inv:
  "CO_LSSslave_init rxRet txOk tx S0 addr rate node canId = (CO_ERROR_NO, S) \<Longrightarrow> length addr = 4 \<Longrightarrow> lss_inv node S"
  by (auto simp: CO_LSSslave_init_def lss_inv_def split: if_splits)

section \<open>Properties\<close>

text \<open>
  C33: Assignment of the node identifier. In every run after the initialisation the slave stays within
  its tables, the identifier used at the bus is that of the initialisation, the identifier to be
  used next and every identifier handed to the application for storage is a valid one, and the slave
  asks for a reset of the communication only when it had no identifier and now has one.
\<close>

theorem lss_assignment:
  assumes "CO_LSSslave_init rxRet txOk tx S0 addr rate node canId = (CO_ERROR_NO, S)" "length addr = 4"
  shows "\<exists>S' reset S''. run lss_step es S = Some S' \<and> CO_LSSslave_process S' = Some (reset, S'') \<and>
    activeNodeID S' = node \<and> CO_LSS_NODE_ID_VALID (pendingNodeID S') \<and> (\<forall>(n, r) \<in> set (lss_stored S'). CO_LSS_NODE_ID_VALID n) \<and>
    (reset \<longrightarrow> node = CO_LSS_NODE_ID_ASSIGNMENT \<and> 1 \<le> pendingNodeID S' \<and> pendingNodeID S' \<le> 127)"
proof -
  obtain S' where r: "run lss_step es S = Some S'" "lss_inv node S'"
    using lsssys.run_defined [OF CO_LSSslave_init_inv [OF assms]] by blast
  obtain reset S'' where p: "CO_LSSslave_process S' = Some (reset, S'')"
      "reset \<longrightarrow> activeNodeID S' = CO_LSS_NODE_ID_ASSIGNMENT \<and> pendingNodeID S' \<noteq> CO_LSS_NODE_ID_ASSIGNMENT"
    using CO_LSSslave_process_inv [OF r(2)] by (auto simp: wp_ex)
  then show ?thesis using r by (auto simp: lss_inv_def list_all_iff CO_LSS_NODE_ID_VALID_def)
qed

section \<open>Selection by address\<close>

definition lss_sel :: "u8 \<Rightarrow> u32 \<Rightarrow> lss \<Rightarrow> lss" where
  "lss_sel cs v S = CO_LSSslave_receive S 8 (cs # le_bytes 4 v @ [0, 0, 0])"

lemma lss_sel_eq:
  "lssState S = 0 \<Longrightarrow> \<not> sendResponse S \<Longrightarrow> cs \<in> {0x40, 0x41, 0x42, 0x43} \<Longrightarrow>
   lss_sel cs v S = (let (S, req) = lss_select S cs v in if req then S\<lparr>sendResponse := True\<rparr> else S)"
  by (auto simp: lss_sel_def CO_LSSslave_receive_def lss_receive_service_def le_word_le_bytes32)

text \<open>
  Selection by address. The four messages of the selective switch take a waiting slave to the
  configuration state if and only if they carry its whole address; then the slave confirms with
  one response, and otherwise it says nothing.
\<close>

theorem lss_selected:
  assumes "lssState S = 0" "\<not> sendResponse S" "length (lssAddress S) = 4" "length (lssSelect S) = 4" "tx_DLC (lss_TXbuff S) = 8"
    and "S' = lss_sel 0x43 serial (lss_sel 0x42 revision (lss_sel 0x41 product (lss_sel 0x40 vendor S)))"
  shows "if lssAddress S = [vendor, product, revision, serial]
    then lssState S' = CO_LSS_STATE_CONFIGURATION \<and>
      (\<exists>S''. CO_LSSslave_process S' = Some (False, S'') \<and>
         lss_sent S'' = lss_sent S @ [(tx_ident (lss_TXbuff S), CO_LSS_SWITCH_STATE_SEL # replicate 7 0)])
    else lssState S' = CO_LSS_STATE_WAITING \<and> \<not> sendResponse S' \<and> lss_sent S' = lss_sent S"
proof -
  obtain s0 s1 s2 s3 where sel: "lssSelect S = [s0, s1, s2, s3]"
    using assms(4) by (auto simp: length_Suc_conv numeral_eq_Suc)
  obtain a0 a1 a2 a3 where adr: "lssAddress S = [a0, a1, a2, a3]"
    using assms(3) by (auto simp: length_Suc_conv numeral_eq_Suc)
  define S3 where "S3 = S\<lparr>lssSelect := [vendor, product, revision, s3]\<rparr>"
  have "lss_sel 0x42 revision (lss_sel 0x41 product (lss_sel 0x40 vendor S)) = S3"
    using assms(1,2) sel by (simp add: lss_sel_eq lss_select_def S3_def)
  then have S': "S' = lss_sel 0x43 serial S3" using assms(6) by simp
  show ?thesis
  proof (cases "lssAddress S = [vendor, product, revision, serial]")
    case True
    then have "S' = S\<lparr>lssSelect := [vendor, product, revision, serial], lssState := 1, lss_service := 0x43, sendResponse := True\<rparr>"
      unfolding S' S3_def using assms(1,2) by (simp add: lss_sel_eq lss_select_def CO_LSS_ADDRESS_EQUAL_def Let_def)
    then show ?thesis using True assms(5)
      by (simp add: CO_LSSslave_process_def lss_serve_def lss_respond_def tx_frame_def Let_def)
  next
    case False
    then have "S' = S\<lparr>lssSelect := [vendor, product, revision, serial]\<rparr>"
      unfolding S' S3_def using assms(1,2) adr by (auto simp: lss_sel_eq lss_select_def CO_LSS_ADDRESS_EQUAL_def Let_def)
    then show ?thesis using False assms(1,2) by simp
  qed
qed

section \<open>Search for the address\<close>

text \<open>
  The master's search of CiA 305: it asks for each bit of a number from the highest to the lowest
  whether the number so far, with this bit zero, is right, and sets the bit when no slave answers;
  then it confirms the number and goes on to the next.
\<close>

definition scan_ask :: "u32 \<Rightarrow> u8 \<Rightarrow> u8 \<Rightarrow> u8 \<Rightarrow> lss \<Rightarrow> bool \<times> lss" where
  "scan_ask v b sub nxt S =
     (let S' = CO_LSSslave_receive S 8 (CO_LSS_IDENT_FASTSCAN # le_bytes 4 v @ [b, sub, nxt])
      in (length (lss_sent S) < length (lss_sent S'), S'))"

fun scan_bits :: "nat \<Rightarrow> u8 \<Rightarrow> u32 \<Rightarrow> lss \<Rightarrow> u32 \<times> lss" where
  "scan_bits 0 sub v S = (v, S)"
| "scan_bits (Suc n) sub v S =
     (let (ack, S) = scan_ask v (word_of_nat n) sub sub S in scan_bits n sub (if ack then v else v OR push_bit n 1) S)"

definition scan_number :: "u8 \<Rightarrow> u8 \<Rightarrow> lss \<Rightarrow> u32 \<times> bool \<times> lss" where
  "scan_number sub nxt S = (let (v, S) = scan_bits 32 sub 0 S; (ack, S) = scan_ask v 0 sub nxt S in (v, ack, S))"

definition scan_address :: "lss \<Rightarrow> u32 list \<times> bool list \<times> lss" where
  "scan_address S =
     (let (a, S) = scan_ask 0 CO_LSS_FASTSCAN_CONFIRM 0 0 S;
          (v0, a0, S) = scan_number 0 1 S;
          (v1, a1, S) = scan_number 1 2 S;
          (v2, a2, S) = scan_number 2 3 S;
          (v3, a3, S) = scan_number 3 0 S
      in ([v0, v1, v2, v3], [a, a0, a1, a2, a3], S))"

text \<open>A slave that takes part in the search at position \<open>p\<close>.\<close>

definition scannable :: "u32 list \<Rightarrow> u8 \<Rightarrow> lss \<Rightarrow> bool" where
  "scannable addr p S \<longleftrightarrow> lssState S = 0 \<and> \<not> sendResponse S \<and> pendingNodeID S = 0xFF \<and> activeNodeID S = 0xFF \<and>
     lssAddress S = addr \<and> fastscanPos S = p"

definition high :: "nat \<Rightarrow> u32 \<Rightarrow> u32" where
  "high n a = a AND push_bit n 0xFFFFFFFF"

lemma bit_high: "bit (high n a) k \<longleftrightarrow> n \<le> k \<and> bit a k"
proof -
  have e: "(0xFFFFFFFF :: u32) = -1" by simp
  have "bit (push_bit n (-1 :: u32)) k \<longleftrightarrow> n \<le> k \<and> k < 32" unfolding bit_push_bit_iff by auto
  then show ?thesis unfolding high_def e bit_and_iff using bit_imp_le_length [of a k] by auto
qed

lemma high_step:
  "high n (high (Suc n) a) = high (Suc n) a" "high 32 a = 0" "high 0 a = a"
  "high n a = high (Suc n) a \<longleftrightarrow> \<not> bit a n"
  "n < 32 \<Longrightarrow> bit a n \<Longrightarrow> high (Suc n) a OR push_bit n 1 = high n a"
proof -
  show "high n (high (Suc n) a) = high (Suc n) a" by (rule bit_word_eqI) (auto simp: bit_high)
  show "high 32 a = 0" by (rule bit_word_eqI) (simp add: bit_high)
  show "high 0 a = a" by (rule bit_word_eqI) (simp add: bit_high)
  show "high n a = high (Suc n) a \<longleftrightarrow> \<not> bit a n"
  proof
    assume "high n a = high (Suc n) a"
    then have "bit (high n a) n = bit (high (Suc n) a) n" by simp
    then show "\<not> bit a n" by (simp add: bit_high)
  next
    assume "\<not> bit a n"
    then show "high n a = high (Suc n) a" by (intro bit_word_eqI) (auto simp: bit_high Suc_le_eq le_less)
  qed
  show "high (Suc n) a OR push_bit n 1 = high n a" if "n < 32" "bit a n"
    using that by (intro bit_word_eqI) (auto simp: bit_high bit_or_iff bit_exp_iff Suc_le_eq le_less)
qed

lemma scan_ask_eq:
  "lssState S = 0 \<Longrightarrow> \<not> sendResponse S \<Longrightarrow>
   scan_ask v b sub nxt S = (length (lss_sent S) < length (lss_sent (lss_fastscan S v b sub nxt)), lss_fastscan S v b sub nxt)"
  by (simp add: scan_ask_def CO_LSSslave_receive_def lss_receive_service_def le_word_le_bytes32 Let_def nth_append)

lemma scan_ask_bit:
  assumes s: "scannable addr sub S" and n: "n < 32" and p: "sub \<le> 3" "nxt \<le> 3"
  shows "\<exists>S'. scan_ask v (word_of_nat n) sub nxt S = (high n (addr ! unat sub) = high n v, S') \<and>
    (high n (addr ! unat sub) = high n v \<longrightarrow>
       (if n = 0 \<and> nxt < sub then lssState S' = 1 else scannable addr nxt S')) \<and>
    (high n (addr ! unat sub) \<noteq> high n v \<longrightarrow> S' = S)"
proof -
  have u: "unat (word_of_nat n :: u8) = n" "(word_of_nat n :: u8) = 0 \<longleftrightarrow> n = 0"
    using n by (auto simp: unat_of_nat word_unat_eq_iff)
  have v: "CO_LSS_FASTSCAN_BITCHECK_VALID (word_of_nat n)" "(word_of_nat n :: u8) \<noteq> 0x80"
    using n u(1) by (auto simp: CO_LSS_FASTSCAN_BITCHECK_VALID_def word_le_nat_alt word_unat_eq_iff)
  have d: "lssState S = 0" "\<not> sendResponse S" "pendingNodeID S = 0xFF" "activeNodeID S = 0xFF" "lssAddress S = addr" "fastscanPos S = sub"
    using s by (auto simp: scannable_def)
  let ?S = "lss_fastscan S v (word_of_nat n) sub nxt"
  have f: "?S = (if high n (addr ! unat sub) = high n v
      then lss_ack (if n = 0 \<and> nxt < sub then S\<lparr>fastscanPos := nxt, lssState := 1\<rparr> else S\<lparr>fastscanPos := nxt\<rparr>) else S)"
    using p d v u by (simp add: lss_fastscan_def high_def Let_def not_less)
  show ?thesis
    unfolding scan_ask_eq [OF d(1,2)] f using s by (simp add: lss_ack_def scannable_def Let_def)
qed

lemma scan_bits_correct:
  assumes "scannable addr sub S" "n \<le> 32" "sub \<le> 3" "v = high n (addr ! unat sub)"
  shows "\<exists>S'. scan_bits n sub v S = (addr ! unat sub, S') \<and> scannable addr sub S'"
  using assms
proof (induction n arbitrary: v S)
  case 0
  then show ?case by (simp add: high_step(3))
next
  case (Suc n)
  let ?a = "addr ! unat sub"
  obtain S1 where a: "scan_ask v (word_of_nat n) sub sub S = (high n ?a = high n v, S1)" "scannable addr sub S1"
    using scan_ask_bit [OF Suc.prems(1), of n sub v] Suc.prems by (metis less_irrefl Suc_le_eq)
  have "high n v = high (Suc n) ?a" using Suc.prems(4) by (simp add: high_step(1))
  then have "(if high n ?a = high n v then v else v OR push_bit n 1) = high n ?a"
    using Suc.prems(2,4) high_step(4,5) [of n ?a] by auto
  then show ?case using Suc.IH [OF a(2)] Suc.prems(2,3) a(1) by simp
qed

lemma scan_number_correct:
  assumes "scannable addr sub S" "sub \<le> 3" "nxt \<le> 3"
  shows "\<exists>S'. scan_number sub nxt S = (addr ! unat sub, True, S') \<and>
    (if nxt < sub then lssState S' = 1 else scannable addr nxt S')"
proof -
  obtain S1 where b: "scan_bits 32 sub 0 S = (addr ! unat sub, S1)" "scannable addr sub S1"
    using scan_bits_correct [OF assms(1) _ assms(2), of 32 0] by (auto simp: high_step(2))
  obtain S2 where "scan_ask (addr ! unat sub) 0 sub nxt S1 = (True, S2)" "if nxt < sub then lssState S2 = 1 else scannable addr nxt S2"
    using scan_ask_bit [OF b(2) _ assms(2,3), of 0 "addr ! unat sub"] by auto
  then show ?thesis using b(1) by (simp add: scan_number_def)
qed

text \<open>
  The search finds the slave. The master's search over the 128 bits of the LSS address, on a slave
  without node identifier, ends with the slave's address and with the slave in the configuration
  state; the slave answers the confirmation of each of the four numbers.
\<close>

theorem lss_fastscan_finds:
  assumes "lssState S = 0" "\<not> sendResponse S" "pendingNodeID S = 0xFF" "activeNodeID S = 0xFF" "length (lssAddress S) = 4"
  shows "\<exists>S'. scan_address S = (lssAddress S, replicate 5 True, S') \<and> lssState S' = CO_LSS_STATE_CONFIGURATION"
proof -
  let ?a = "lssAddress S"
  obtain S0 where s0: "scan_ask 0 0x80 0 0 S = (True, S0)" "scannable ?a 0 S0"
    using assms unfolding scan_ask_eq [OF assms(1,2)]
    by (simp add: lss_fastscan_def CO_LSS_FASTSCAN_BITCHECK_VALID_def lss_ack_def scannable_def Let_def)
  obtain S1 where s1: "scan_number 0 1 S0 = (?a ! 0, True, S1)" "scannable ?a 1 S1"
    using scan_number_correct [OF s0(2), of 1] by auto
  obtain S2 where s2: "scan_number 1 2 S1 = (?a ! 1, True, S2)" "scannable ?a 2 S2"
    using scan_number_correct [OF s1(2), of 2] by auto
  obtain S3 where s3: "scan_number 2 3 S2 = (?a ! 2, True, S3)" "scannable ?a 3 S3"
    using scan_number_correct [OF s2(2), of 3] by auto
  obtain S4 where s4: "scan_number 3 0 S3 = (?a ! 3, True, S4)" "lssState S4 = 1"
    using scan_number_correct [OF s3(2), of 0] by auto
  have "?a = [?a ! 0, ?a ! 1, ?a ! 2, ?a ! 3]" using assms(5) by (auto simp: length_Suc_conv numeral_eq_Suc)
  then show ?thesis using s0 s1 s2 s3 s4 by (simp add: scan_address_def numeral_eq_Suc)
qed

text \<open>
  A slave that is already in the configuration state confirms the selection of another slave, whatever
  the address, and answers the search as well: in that state the command is passed on to the
  processing without a check.
\<close>

lemma lss_configured_confirms:
  assumes "lssState S = CO_LSS_STATE_CONFIGURATION" "\<not> sendResponse S" "tx_DLC (lss_TXbuff S) = 8"
  shows "\<exists>S'. CO_LSSslave_process (lss_sel 0x43 serial S) = Some (False, S') \<and>
    lss_sent S' = lss_sent S @ [(tx_ident (lss_TXbuff S), CO_LSS_SWITCH_STATE_SEL # replicate 7 0)]"
  using assms by (simp add: lss_sel_def CO_LSSslave_receive_def lss_receive_service_def CO_LSSslave_process_def lss_serve_def
      lss_respond_def tx_frame_def Let_def)

section \<open>Examples\<close>

definition example_lss_tx :: CANtx where
  "example_lss_tx = \<lparr>tx_ident = 0, tx_DLC = 0, tx_data = replicate 8 0, tx_bufferFull = False\<rparr>"

definition example_lss :: lss where
  "example_lss = \<lparr>lssAddress = [0x11, 0x22, 0x80000033, 0xFFFFFFFF], lssState = 0, lssSelect = [0, 0, 0, 0], lssFastscan = [0, 0, 0, 0],
     fastscanPos = 0, pendingBitRate = 125, pendingNodeID = 0xFF, activeNodeID = 0xFF, sendResponse = False,
     lss_service = 0, lss_CANdata = replicate 8 0, pFunctLSScheckBitRate = None, pFunctLSSactivateBitRate = False,
     pFunctLSScfgStore = None, lss_TXbuff = CO_CANtxBufferInit 0x7E4 8 example_lss_tx,
     lss_sent = [], lss_activated = [], lss_stored = []\<rparr>"

lemma example_lss_init:
  "CO_LSSslave_init CO_ERROR_NO True example_lss_tx example_lss [0x11, 0x22, 0x80000033, 0xFFFFFFFF] 125 0xFF 0x7E4 =
     (CO_ERROR_NO, example_lss)"
  by (simp add: CO_LSSslave_init_def CO_LSS_NODE_ID_VALID_def example_lss_def)

lemma example_lss_facts:
  "lssAddress example_lss = [0x11, 0x22, 0x80000033, 0xFFFFFFFF]" "lssState example_lss = 0" "length (lssSelect example_lss) = 4"
  "\<not> sendResponse example_lss" "pendingNodeID example_lss = 0xFF" "activeNodeID example_lss = 0xFF"
  "tx_DLC (lss_TXbuff example_lss) = 8"
  by (simp_all add: example_lss_def CO_CANtxBufferInit_def)

text \<open>The identifier 5 is assigned, and the switch to the waiting state asks for the reset.\<close>

theorem lss_assignment_witness:
  "\<exists>S' S''. run lss_step [Lss_receive 8 [4, 1], Lss_receive 8 [0x11, 5], Lss_process, Lss_receive 8 [4, 0]] example_lss = Some S' \<and>
     CO_LSSslave_process S' = Some (True, S'') \<and> 1 \<le> pendingNodeID S' \<and> pendingNodeID S' \<le> 127"
proof -
  let ?es = "[Lss_receive 8 [4, 1], Lss_receive 8 [0x11, 5], Lss_process, Lss_receive 8 [4, 0]]"
  obtain S' reset S'' where r: "run lss_step ?es example_lss = Some S'" "CO_LSSslave_process S' = Some (reset, S'')"
      "reset \<longrightarrow> 1 \<le> pendingNodeID S' \<and> pendingNodeID S' \<le> 127"
    using lss_assignment [OF example_lss_init, of ?es] by auto
  have "Option.bind (run lss_step ?es example_lss) (\<lambda>S. map_option fst (CO_LSSslave_process S)) = Some True" by code_simp
  then have "reset" using r(1,2) by (simp del: run.simps)
  then show ?thesis using r by (auto simp del: run.simps)
qed

theorem lss_selected_witness:
  "lssState (lss_sel 0x43 0xFFFFFFFF (lss_sel 0x42 0x80000033 (lss_sel 0x41 0x22 (lss_sel 0x40 0x11 example_lss)))) = 1 \<and>
   lssState (lss_sel 0x43 0xFFFFFFFE (lss_sel 0x42 0x80000033 (lss_sel 0x41 0x22 (lss_sel 0x40 0x11 example_lss)))) = 0"
  using lss_selected [of example_lss, OF _ _ _ _ _ refl, of "0x11" "0x22" "0x80000033" "0xFFFFFFFF"]
    lss_selected [of example_lss, OF _ _ _ _ _ refl, of "0x11" "0x22" "0x80000033" "0xFFFFFFFE"]
  by (simp add: example_lss_facts)

theorem lss_fastscan_finds_witness:
  "\<exists>S'. scan_address example_lss = ([0x11, 0x22, 0x80000033, 0xFFFFFFFF], replicate 5 True, S') \<and> lssState S' = 1"
  using lss_fastscan_finds [of example_lss] by (simp add: example_lss_facts)

end
