(* ===== verification/LSSmaster.thy ===== *)
theory LSSmaster
  imports LSSslave
begin

text \<open>
  The LSS master (\<open>305/CO_LSSmaster.c\<close>, \<open>305/CO_LSSmaster.h\<close>): the functions with which an application
  selects a slave, by its address or by the search (fastscan), and configures it. Each function is
  called cyclically with the elapsed time until it returns something else than \<open>WAIT_SLAVE\<close>.
\<close>

section \<open>The object\<close>

datatype CO_LSSmaster_return =
    CO_LSSmaster_SCAN_FINISHED | CO_LSSmaster_WAIT_SLAVE | CO_LSSmaster_OK | CO_LSSmaster_TIMEOUT
  | CO_LSSmaster_ILLEGAL_ARGUMENT | CO_LSSmaster_INVALID_STATE | CO_LSSmaster_SCAN_NOACK
  | CO_LSSmaster_SCAN_FAILED | CO_LSSmaster_OK_ILLEGAL_ARGUMENT | CO_LSSmaster_OK_MANUFACTURER

primrec lssm_value :: "CO_LSSmaster_return \<Rightarrow> int" where
  "lssm_value CO_LSSmaster_SCAN_FINISHED = 2"
| "lssm_value CO_LSSmaster_WAIT_SLAVE = 1"
| "lssm_value CO_LSSmaster_OK = 0"
| "lssm_value CO_LSSmaster_TIMEOUT = -1"
| "lssm_value CO_LSSmaster_ILLEGAL_ARGUMENT = -2"
| "lssm_value CO_LSSmaster_INVALID_STATE = -3"
| "lssm_value CO_LSSmaster_SCAN_NOACK = -4"
| "lssm_value CO_LSSmaster_SCAN_FAILED = -5"
| "lssm_value CO_LSSmaster_OK_ILLEGAL_ARGUMENT = -101"
| "lssm_value CO_LSSmaster_OK_MANUFACTURER = -102"

datatype CO_LSSmaster_scantype = CO_LSSmaster_FS_SCAN | CO_LSSmaster_FS_SKIP | CO_LSSmaster_FS_MATCH

record CO_LSSmaster_fastscan =
  fs_scan :: "CO_LSSmaster_scantype list"
  fs_match :: "u32 list"
  fs_found :: "u32 list"

record CO_LSSmaster =
  M_timeout_us :: u32
  M_state :: u8
  M_command :: u8
  M_timeoutTimer :: u32
  M_fsState :: u8
  M_fsLssSub :: u8
  M_fsBitChecked :: u8
  M_fsIdNumber :: u32
  M_CANrxNew :: bool
  M_CANrxData :: "u8 list"
  M_TXbuff :: CANtx

text \<open>With the frames handed to the driver.\<close>

record lssm = CO_LSSmaster +
  M_sent :: "can_frame list"

abbreviation (input) "CO_LSSmaster_STATE_WAITING \<equiv> 0 :: u8"
abbreviation (input) "CO_LSSmaster_STATE_CFG_SLECTIVE \<equiv> 1 :: u8"
abbreviation (input) "CO_LSSmaster_STATE_CFG_GLOBAL \<equiv> 2 :: u8"
abbreviation (input) "CO_LSSmaster_COMMAND_WAITING \<equiv> 0 :: u8"
abbreviation (input) "CO_LSSmaster_COMMAND_SWITCH_STATE \<equiv> 1 :: u8"
abbreviation (input) "CO_LSSmaster_COMMAND_CFG_BIT_TIMING \<equiv> 2 :: u8"
abbreviation (input) "CO_LSSmaster_COMMAND_CFG_NODE_ID \<equiv> 3 :: u8"
abbreviation (input) "CO_LSSmaster_COMMAND_CFG_STORE \<equiv> 4 :: u8"
abbreviation (input) "CO_LSSmaster_COMMAND_INQUIRE_VENDOR \<equiv> 5 :: u8"
abbreviation (input) "CO_LSSmaster_COMMAND_INQUIRE_PRODUCT \<equiv> 6 :: u8"
abbreviation (input) "CO_LSSmaster_COMMAND_INQUIRE_REV \<equiv> 7 :: u8"
abbreviation (input) "CO_LSSmaster_COMMAND_INQUIRE_SERIAL \<equiv> 8 :: u8"
abbreviation (input) "CO_LSSmaster_COMMAND_INQUIRE \<equiv> 9 :: u8"
abbreviation (input) "CO_LSSmaster_COMMAND_IDENTIFY_FASTSCAN \<equiv> 10 :: u8"
abbreviation (input) "CO_LSSmaster_FS_STATE_CHECK \<equiv> 0 :: u8"
abbreviation (input) "CO_LSSmaster_FS_STATE_SCAN \<equiv> 1 :: u8"
abbreviation (input) "CO_LSSmaster_FS_STATE_VERIFY \<equiv> 2 :: u8"
abbreviation (input) "CO_LSS_FASTSCAN_BIT0 \<equiv> 0 :: u8"
abbreviation (input) "CO_LSS_FASTSCAN_BIT31 \<equiv> 0x1F :: u8"
abbreviation (input) "CO_LSS_FASTSCAN_VENDOR_ID \<equiv> 0 :: u8"

type_synonym lssm_result = "CO_LSSmaster_return \<times> lssm"

text \<open>Bytes of the transmit buffer, from a position on, and the transmission of the buffer.\<close>

definition M_put :: "nat \<Rightarrow> u8 list \<Rightarrow> lssm \<Rightarrow> lssm" where
  "M_put off bs M =
     (let d = tx_data (M_TXbuff M)
      in M\<lparr>M_TXbuff := (M_TXbuff M)\<lparr>tx_data := take off d @ bs @ drop (off + length bs) d\<rparr>\<rparr>)"

definition M_send :: "lssm \<Rightarrow> lssm" where
  "M_send M = M\<lparr>M_sent := M_sent M @ [tx_frame (M_TXbuff M)]\<rparr>"

definition CO_LSSmaster_receive :: "lssm \<Rightarrow> nat \<Rightarrow> u8 list \<Rightarrow> lssm" where
  "CO_LSSmaster_receive M DLC data =
     (if DLC = 8 \<and> \<not> M_CANrxNew M \<and> M_command M \<noteq> CO_LSSmaster_COMMAND_WAITING
      then M\<lparr>M_CANrxData := take 8 data, M_CANrxNew := True\<rparr> else M)"

definition CO_LSSmaster_check_timeout :: "lssm \<Rightarrow> u32 \<Rightarrow> lssm_result" where
  "CO_LSSmaster_check_timeout M dt =
     (let M = M\<lparr>M_timeoutTimer := M_timeoutTimer M + dt\<rparr> in
      if M_timeoutTimer M \<ge> M_timeout_us M then (CO_LSSmaster_TIMEOUT, M\<lparr>M_timeoutTimer := 0\<rparr>)
      else (CO_LSSmaster_WAIT_SLAVE, M))"

text \<open>\<open>rxRet\<close> is the result of \<open>CO_CANrxBufferInit\<close>, \<open>txOk\<close> whether \<open>CO_CANtxBufferInit\<close> returned the buffer \<open>tx\<close>.\<close>

definition CO_LSSmaster_init ::
    "CO_ReturnError \<Rightarrow> bool \<Rightarrow> CANtx \<Rightarrow> lssm \<Rightarrow> u16 \<Rightarrow> u16 \<Rightarrow> CO_ReturnError \<times> lssm" where
  "CO_LSSmaster_init rxRet txOk tx M timeout_ms canIdMaster =
     (if txOk then rxRet else CO_ERROR_ILLEGAL_ARGUMENT,
      M\<lparr>M_timeout_us := ucast timeout_ms * 1000, M_state := CO_LSSmaster_STATE_WAITING,
        M_command := CO_LSSmaster_COMMAND_WAITING, M_timeoutTimer := 0, M_CANrxNew := False,
        M_CANrxData := replicate 8 0,
        M_TXbuff := (if txOk then CO_CANtxBufferInit canIdMaster 8 tx else tx)\<rparr>)"

definition CO_LSSmaster_changeTimeout :: "lssm \<Rightarrow> u16 \<Rightarrow> lssm" where
  "CO_LSSmaster_changeTimeout M timeout_ms = M\<lparr>M_timeout_us := ucast timeout_ms * 1000\<rparr>"

section \<open>Selection\<close>

text \<open>\<open>None\<close> is a null pointer for the address: all slaves are selected. The sixth data byte of the selective switch is not written.\<close>

definition CO_LSSmaster_switchStateSelectInitiate :: "lssm \<Rightarrow> u32 list option \<Rightarrow> lssm_result" where
  "CO_LSSmaster_switchStateSelectInitiate M addr =
     (case addr of
        Some a \<Rightarrow>
          let M = M\<lparr>M_state := CO_LSSmaster_STATE_CFG_SLECTIVE, M_command := CO_LSSmaster_COMMAND_SWITCH_STATE,
                    M_timeoutTimer := 0, M_CANrxNew := False\<rparr>;
              M = M_put 6 [0, 0] M;
              M = M_send (M_put 0 (CO_LSS_SWITCH_STATE_SEL_VENDOR # le_bytes 4 (a ! 0)) M);
              M = M_send (M_put 0 (CO_LSS_SWITCH_STATE_SEL_PRODUCT # le_bytes 4 (a ! 1)) M);
              M = M_send (M_put 0 (CO_LSS_SWITCH_STATE_SEL_REV # le_bytes 4 (a ! 2)) M);
              M = M_send (M_put 0 (CO_LSS_SWITCH_STATE_SEL_SERIAL # le_bytes 4 (a ! 3)) M)
          in (CO_LSSmaster_WAIT_SLAVE, M)
      | None \<Rightarrow>
          let M = M\<lparr>M_state := CO_LSSmaster_STATE_CFG_GLOBAL, M_CANrxNew := False\<rparr>;
              M = M_send (M_put 0 (CO_LSS_SWITCH_STATE_GLOBAL # CO_LSS_STATE_CONFIGURATION # replicate 6 0) M)
          in (CO_LSSmaster_OK, M))"

definition CO_LSSmaster_switchStateSelectWait :: "lssm \<Rightarrow> u32 \<Rightarrow> lssm_result" where
  "CO_LSSmaster_switchStateSelectWait M dt =
     (if M_CANrxNew M then
        let cs = M_CANrxData M ! 0; M = M\<lparr>M_CANrxNew := False\<rparr> in
        if cs = CO_LSS_SWITCH_STATE_SEL then (CO_LSSmaster_OK, M) else CO_LSSmaster_check_timeout M dt
      else CO_LSSmaster_check_timeout M dt)"

text \<open>The end of most functions: the command is finished.\<close>

definition M_finished :: "lssm_result \<Rightarrow> lssm_result" where
  "M_finished r =
     (let (ret, M) = r in
      (ret, if ret \<noteq> CO_LSSmaster_INVALID_STATE \<and> ret \<noteq> CO_LSSmaster_WAIT_SLAVE
            then M\<lparr>M_command := CO_LSSmaster_COMMAND_WAITING\<rparr> else M))"

definition CO_LSSmaster_swStateSelect :: "lssm \<Rightarrow> u32 \<Rightarrow> u32 list option \<Rightarrow> lssm_result" where
  "CO_LSSmaster_swStateSelect M dt addr =
     (let (ret, M) = M_finished
        (if M_state M = CO_LSSmaster_STATE_WAITING \<and> M_command M = CO_LSSmaster_COMMAND_WAITING
         then CO_LSSmaster_switchStateSelectInitiate M addr
         else if M_command M = CO_LSSmaster_COMMAND_SWITCH_STATE then CO_LSSmaster_switchStateSelectWait M dt
         else (CO_LSSmaster_INVALID_STATE, M))
      in (ret, if lssm_value ret < lssm_value CO_LSSmaster_OK
               then M\<lparr>M_state := CO_LSSmaster_STATE_WAITING, M_command := CO_LSSmaster_COMMAND_WAITING\<rparr> else M))"

definition CO_LSSmaster_swStateDeselect :: "lssm \<Rightarrow> lssm_result" where
  "CO_LSSmaster_swStateDeselect M =
     (let M = M\<lparr>M_state := CO_LSSmaster_STATE_WAITING, M_command := CO_LSSmaster_COMMAND_WAITING,
                M_timeoutTimer := 0, M_CANrxNew := False\<rparr>
      in (CO_LSSmaster_OK, M_send (M_put 0 (CO_LSS_SWITCH_STATE_GLOBAL # CO_LSS_STATE_WAITING # replicate 6 0) M)))"

section \<open>Configuration\<close>

definition CO_LSSmaster_configureCheckWait :: "lssm \<Rightarrow> u32 \<Rightarrow> u8 \<Rightarrow> lssm_result" where
  "CO_LSSmaster_configureCheckWait M dt csWait =
     M_finished
       (if M_CANrxNew M then
          let cs = M_CANrxData M ! 0; errorCode = M_CANrxData M ! 1; M = M\<lparr>M_CANrxNew := False\<rparr> in
          if cs = csWait then
            (if errorCode = 0 then CO_LSSmaster_OK
             else if errorCode = 0xFF then CO_LSSmaster_OK_MANUFACTURER
             else CO_LSSmaster_OK_ILLEGAL_ARGUMENT, M)
          else CO_LSSmaster_check_timeout M dt
        else CO_LSSmaster_check_timeout M dt)"

text \<open>A confirmed request: the command is set and the message is sent.\<close>

definition M_request :: "u8 \<Rightarrow> u8 list \<Rightarrow> lssm \<Rightarrow> lssm_result" where
  "M_request command bs M =
     (CO_LSSmaster_WAIT_SLAVE,
      M_send (M_put 0 bs (M\<lparr>M_command := command, M_timeoutTimer := 0, M_CANrxNew := False\<rparr>)))"

definition bit_timing_index :: "u16 \<Rightarrow> u8 option" where
  "bit_timing_index rate =
     (if rate = 1000 then Some 0 else if rate = 800 then Some 1 else if rate = 500 then Some 2
      else if rate = 250 then Some 3 else if rate = 125 then Some 4 else if rate = 50 then Some 6
      else if rate = 20 then Some 7 else if rate = 10 then Some 8 else if rate = 0 then Some 9 else None)"

definition CO_LSSmaster_configureBitTiming :: "lssm \<Rightarrow> u32 \<Rightarrow> u16 \<Rightarrow> lssm_result" where
  "CO_LSSmaster_configureBitTiming M dt rate =
     (case bit_timing_index rate of
        None \<Rightarrow> (CO_LSSmaster_ILLEGAL_ARGUMENT, M)
      | Some bitTiming \<Rightarrow>
          M_finished
            (if M_state M = CO_LSSmaster_STATE_CFG_SLECTIVE \<and> M_command M = CO_LSSmaster_COMMAND_WAITING then
               M_request CO_LSSmaster_COMMAND_CFG_BIT_TIMING (CO_LSS_CFG_BIT_TIMING # 0 # bitTiming # replicate 5 0) M
             else if M_command M = CO_LSSmaster_COMMAND_CFG_BIT_TIMING then
               CO_LSSmaster_configureCheckWait M dt CO_LSS_CFG_BIT_TIMING
             else (CO_LSSmaster_INVALID_STATE, M)))"

definition CO_LSSmaster_configureNodeId :: "lssm \<Rightarrow> u32 \<Rightarrow> u8 \<Rightarrow> lssm_result" where
  "CO_LSSmaster_configureNodeId M dt nodeId =
     (if \<not> CO_LSS_NODE_ID_VALID nodeId then (CO_LSSmaster_ILLEGAL_ARGUMENT, M)
      else
        M_finished
          (if (M_state M = CO_LSSmaster_STATE_CFG_SLECTIVE \<or>
               M_state M = CO_LSSmaster_STATE_CFG_GLOBAL \<and> nodeId = CO_LSS_NODE_ID_ASSIGNMENT) \<and>
              M_command M = CO_LSSmaster_COMMAND_WAITING
           then M_request CO_LSSmaster_COMMAND_CFG_NODE_ID (CO_LSS_CFG_NODE_ID # nodeId # replicate 6 0) M
           else if M_command M = CO_LSSmaster_COMMAND_CFG_NODE_ID then
             CO_LSSmaster_configureCheckWait M dt CO_LSS_CFG_NODE_ID
           else (CO_LSSmaster_INVALID_STATE, M)))"

definition CO_LSSmaster_configureStore :: "lssm \<Rightarrow> u32 \<Rightarrow> lssm_result" where
  "CO_LSSmaster_configureStore M dt =
     M_finished
       (if M_state M = CO_LSSmaster_STATE_CFG_SLECTIVE \<and> M_command M = CO_LSSmaster_COMMAND_WAITING
        then M_request CO_LSSmaster_COMMAND_CFG_STORE (CO_LSS_CFG_STORE # replicate 7 0) M
        else if M_command M = CO_LSSmaster_COMMAND_CFG_STORE then
          CO_LSSmaster_configureCheckWait M dt CO_LSS_CFG_STORE
        else (CO_LSSmaster_INVALID_STATE, M))"

definition CO_LSSmaster_ActivateBit :: "lssm \<Rightarrow> u16 \<Rightarrow> lssm_result" where
  "CO_LSSmaster_ActivateBit M switchDelay_ms =
     (if M_state M = CO_LSSmaster_STATE_CFG_GLOBAL \<and> M_command M = CO_LSSmaster_COMMAND_WAITING then
        (CO_LSSmaster_OK,
         M_send (M_put 0 (CO_LSS_CFG_ACTIVATE_BIT_TIMING # le_bytes 2 switchDelay_ms @ replicate 5 0)
           (M\<lparr>M_CANrxNew := False\<rparr>)))
      else (CO_LSSmaster_INVALID_STATE, M))"

section \<open>Inquiry\<close>

definition CO_LSSmaster_inquireInitiate :: "lssm \<Rightarrow> u8 \<Rightarrow> lssm_result" where
  "CO_LSSmaster_inquireInitiate M cs =
     (CO_LSSmaster_WAIT_SLAVE, M_send (M_put 0 (cs # replicate 7 0) (M\<lparr>M_CANrxNew := False\<rparr>)))"

text \<open>The value is overwritten by every received message.\<close>

definition CO_LSSmaster_inquireCheckWait ::
    "lssm \<Rightarrow> u32 \<Rightarrow> u8 \<Rightarrow> u32 \<Rightarrow> CO_LSSmaster_return \<times> u32 \<times> lssm" where
  "CO_LSSmaster_inquireCheckWait M dt csWait value =
     (if M_CANrxNew M then
        let cs = M_CANrxData M ! 0; value = le_word (take 4 (drop 1 (M_CANrxData M))); M = M\<lparr>M_CANrxNew := False\<rparr> in
        if cs = csWait then (CO_LSSmaster_OK, value, M)
        else let (ret, M) = CO_LSSmaster_check_timeout M dt in (ret, value, M)
      else let (ret, M) = CO_LSSmaster_check_timeout M dt in (ret, value, M))"

text \<open>One of the four numbers is inquired; the next command follows a successful answer.\<close>

definition inquire_part ::
    "u8 \<Rightarrow> u8 \<Rightarrow> nat \<Rightarrow> u8 \<Rightarrow> lssm \<Rightarrow> u32 \<Rightarrow> u32 list \<Rightarrow> CO_LSSmaster_return \<times> u8 \<times> u32 list \<times> lssm" where
  "inquire_part csWait nextCommand i cur M dt addr =
     (let (ret, v, M) = CO_LSSmaster_inquireCheckWait M dt csWait (addr ! i); addr = addr[i := v] in
      if ret = CO_LSSmaster_OK \<and> cur \<noteq> CO_LSSmaster_COMMAND_INQUIRE_SERIAL
      then (CO_LSSmaster_WAIT_SLAVE, nextCommand, addr, M)
      else (ret, CO_LSSmaster_COMMAND_WAITING, addr, M))"

definition inquire_reply :: "lssm \<Rightarrow> u32 \<Rightarrow> u32 list \<Rightarrow> CO_LSSmaster_return \<times> u8 \<times> u32 list \<times> lssm" where
  "inquire_reply M dt addr =
     (let c = M_command M in
      if c = CO_LSSmaster_COMMAND_INQUIRE_VENDOR then
        inquire_part CO_LSS_INQUIRE_VENDOR CO_LSSmaster_COMMAND_INQUIRE_PRODUCT 0 c M dt addr
      else if c = CO_LSSmaster_COMMAND_INQUIRE_PRODUCT then
        inquire_part CO_LSS_INQUIRE_PRODUCT CO_LSSmaster_COMMAND_INQUIRE_REV 1 c M dt addr
      else if c = CO_LSSmaster_COMMAND_INQUIRE_REV then
        inquire_part CO_LSS_INQUIRE_REV CO_LSSmaster_COMMAND_INQUIRE_SERIAL 2 c M dt addr
      else if c = CO_LSSmaster_COMMAND_INQUIRE_SERIAL then
        inquire_part CO_LSS_INQUIRE_SERIAL CO_LSSmaster_COMMAND_WAITING 3 c M dt addr
      else (CO_LSSmaster_INVALID_STATE, CO_LSSmaster_COMMAND_WAITING, addr, M))"

definition inquire_next :: "u8 \<Rightarrow> CO_LSSmaster_return \<Rightarrow> lssm \<Rightarrow> lssm_result" where
  "inquire_next nxt ret M =
     (let start = (\<lambda>c cs. CO_LSSmaster_inquireInitiate (M\<lparr>M_command := c, M_timeoutTimer := 0\<rparr>) cs) in
      if M_state M = CO_LSSmaster_STATE_CFG_SLECTIVE \<or> M_state M = CO_LSSmaster_STATE_CFG_GLOBAL then
        if M_command M = CO_LSSmaster_COMMAND_WAITING then start CO_LSSmaster_COMMAND_INQUIRE_VENDOR CO_LSS_INQUIRE_VENDOR
        else if nxt = CO_LSSmaster_COMMAND_INQUIRE_PRODUCT then start CO_LSSmaster_COMMAND_INQUIRE_PRODUCT CO_LSS_INQUIRE_PRODUCT
        else if nxt = CO_LSSmaster_COMMAND_INQUIRE_REV then start CO_LSSmaster_COMMAND_INQUIRE_REV CO_LSS_INQUIRE_REV
        else if nxt = CO_LSSmaster_COMMAND_INQUIRE_SERIAL then start CO_LSSmaster_COMMAND_INQUIRE_SERIAL CO_LSS_INQUIRE_SERIAL
        else (ret, M)
      else (ret, M))"

definition CO_LSSmaster_InquireLssAddress ::
    "lssm \<Rightarrow> u32 \<Rightarrow> u32 list \<Rightarrow> CO_LSSmaster_return \<times> u32 list \<times> lssm" where
  "CO_LSSmaster_InquireLssAddress M dt addr =
     (let (ret, nxt, addr, M) = inquire_reply M dt addr; (ret, M) = M_finished (inquire_next nxt ret M)
      in (ret, addr, M))"

definition CO_LSSmaster_Inquire :: "lssm \<Rightarrow> u32 \<Rightarrow> u8 \<Rightarrow> u32 \<Rightarrow> CO_LSSmaster_return \<times> u32 \<times> lssm" where
  "CO_LSSmaster_Inquire M dt cs value =
     (let (ret, value, M) =
        (if (M_state M = CO_LSSmaster_STATE_CFG_SLECTIVE \<or> M_state M = CO_LSSmaster_STATE_CFG_GLOBAL) \<and>
            M_command M = CO_LSSmaster_COMMAND_WAITING then
           let (ret, M) = CO_LSSmaster_inquireInitiate
             (M\<lparr>M_command := CO_LSSmaster_COMMAND_INQUIRE, M_timeoutTimer := 0\<rparr>) cs
           in (ret, value, M)
         else if M_command M = CO_LSSmaster_COMMAND_INQUIRE then CO_LSSmaster_inquireCheckWait M dt cs value
         else (CO_LSSmaster_INVALID_STATE, value, M))
      in (ret, value, if ret \<noteq> CO_LSSmaster_WAIT_SLAVE then M\<lparr>M_command := CO_LSSmaster_COMMAND_WAITING\<rparr> else M))"

section \<open>Fastscan\<close>

definition CO_LSSmaster_FsSendMsg :: "lssm \<Rightarrow> u32 \<Rightarrow> u8 \<Rightarrow> u8 \<Rightarrow> u8 \<Rightarrow> lssm" where
  "CO_LSSmaster_FsSendMsg M idNumber bitCheck lssSub lssNext =
     M_send (M_put 0 (CO_LSS_IDENT_FASTSCAN # le_bytes 4 idNumber @ [bitCheck, lssSub, lssNext])
       (M\<lparr>M_timeoutTimer := 0, M_CANrxNew := False\<rparr>))"

definition CO_LSSmaster_FsCheckWait :: "lssm \<Rightarrow> u32 \<Rightarrow> lssm_result" where
  "CO_LSSmaster_FsCheckWait M dt =
     (let (ret, M) = CO_LSSmaster_check_timeout M dt in
      if ret = CO_LSSmaster_TIMEOUT then
        if M_CANrxNew M then
          (if M_CANrxData M ! 0 = CO_LSS_IDENT_SLAVE then CO_LSSmaster_SCAN_FINISHED else CO_LSSmaster_SCAN_NOACK,
           M\<lparr>M_CANrxNew := False\<rparr>)
        else (CO_LSSmaster_SCAN_NOACK, M)
      else (ret, M))"

definition CO_LSSmaster_FsScanInitiate :: "lssm \<Rightarrow> CO_LSSmaster_scantype \<Rightarrow> u8 \<Rightarrow> lssm_result" where
  "CO_LSSmaster_FsScanInitiate M scan lssSub =
     (let M = M\<lparr>M_fsLssSub := lssSub, M_fsIdNumber := 0\<rparr> in
      case scan of
        CO_LSSmaster_FS_SCAN \<Rightarrow>
          let M = M\<lparr>M_fsBitChecked := CO_LSS_FASTSCAN_BIT31\<rparr>
          in (CO_LSSmaster_WAIT_SLAVE,
              CO_LSSmaster_FsSendMsg M (M_fsIdNumber M) (M_fsBitChecked M) (M_fsLssSub M) (M_fsLssSub M))
      | CO_LSSmaster_FS_MATCH \<Rightarrow> (CO_LSSmaster_SCAN_FINISHED, M)
      | CO_LSSmaster_FS_SKIP \<Rightarrow> (CO_LSSmaster_SCAN_FAILED, M))"

text \<open>The bit just asked for is decided, and the next one is asked for.\<close>

definition fs_next_bit :: "lssm \<Rightarrow> lssm_result" where
  "fs_next_bit M =
     (if M_fsBitChecked M = CO_LSS_FASTSCAN_BIT0 then (CO_LSSmaster_SCAN_FINISHED, M)
      else
        let M = M\<lparr>M_fsBitChecked := M_fsBitChecked M - 1\<rparr>
        in (CO_LSSmaster_WAIT_SLAVE,
            CO_LSSmaster_FsSendMsg M (M_fsIdNumber M) (M_fsBitChecked M) (M_fsLssSub M) (M_fsLssSub M)))"

definition CO_LSSmaster_FsScanWait :: "lssm \<Rightarrow> u32 \<Rightarrow> CO_LSSmaster_scantype \<Rightarrow> lssm_result" where
  "CO_LSSmaster_FsScanWait M dt scan =
     (case scan of
        CO_LSSmaster_FS_SCAN \<Rightarrow>
          let (ret, M) = CO_LSSmaster_check_timeout M dt in
          if ret = CO_LSSmaster_TIMEOUT then
            if M_CANrxNew M then
              let M = M\<lparr>M_CANrxNew := False\<rparr> in
              if M_CANrxData M ! 0 \<noteq> CO_LSS_IDENT_SLAVE then (CO_LSSmaster_SCAN_FAILED, M) else fs_next_bit M
            else fs_next_bit (M\<lparr>M_fsIdNumber := M_fsIdNumber M OR push_bit (unat (M_fsBitChecked M)) 1\<rparr>)
          else (ret, M)
      | CO_LSSmaster_FS_MATCH \<Rightarrow> (CO_LSSmaster_SCAN_FINISHED, M)
      | CO_LSSmaster_FS_SKIP \<Rightarrow> (CO_LSSmaster_SCAN_FAILED, M))"

definition CO_LSSmaster_FsVerifyInitiate :: "lssm \<Rightarrow> CO_LSSmaster_scantype \<Rightarrow> u32 \<Rightarrow> u8 \<Rightarrow> lssm_result" where
  "CO_LSSmaster_FsVerifyInitiate M scan idNumberCheck lssNext =
     (if scan = CO_LSSmaster_FS_SKIP then (CO_LSSmaster_SCAN_FAILED, M)
      else
        let M = (if scan = CO_LSSmaster_FS_MATCH then M\<lparr>M_fsIdNumber := idNumberCheck\<rparr> else M);
            M = M\<lparr>M_fsBitChecked := CO_LSS_FASTSCAN_BIT0\<rparr>
        in (CO_LSSmaster_WAIT_SLAVE,
            CO_LSSmaster_FsSendMsg M (M_fsIdNumber M) (M_fsBitChecked M) (M_fsLssSub M) lssNext))"

definition CO_LSSmaster_FsVerifyWait ::
    "lssm \<Rightarrow> u32 \<Rightarrow> CO_LSSmaster_scantype \<Rightarrow> u32 \<Rightarrow> CO_LSSmaster_return \<times> u32 \<times> lssm" where
  "CO_LSSmaster_FsVerifyWait M dt scan idNumber =
     (if scan = CO_LSSmaster_FS_SKIP then (CO_LSSmaster_SCAN_FAILED, idNumber, M)
      else
        let (ret, M) = CO_LSSmaster_check_timeout M dt in
        if ret = CO_LSSmaster_TIMEOUT then
          if M_CANrxNew M then
            let M = M\<lparr>M_CANrxNew := False\<rparr> in
            if M_CANrxData M ! 0 = CO_LSS_IDENT_SLAVE then (CO_LSSmaster_SCAN_FINISHED, M_fsIdNumber M, M)
            else (CO_LSSmaster_SCAN_FAILED, 0, M)
          else (CO_LSSmaster_SCAN_NOACK, 0, M)
        else (ret, idNumber, M))"

definition CO_LSSmaster_FsSearchNext :: "lssm \<Rightarrow> CO_LSSmaster_scantype list \<Rightarrow> u8" where
  "CO_LSSmaster_FsSearchNext M scan =
     (case find (\<lambda>i. scan ! i \<noteq> CO_LSSmaster_FS_SKIP) [unat (M_fsLssSub M + 1)..<4] of
        Some i \<Rightarrow> word_of_nat i
      | None \<Rightarrow> CO_LSS_FASTSCAN_VENDOR_ID)"

text \<open>
  The three states of the search. \<open>None\<close> is an access outside of the four parts of the address.
\<close>

type_synonym fs_result = "(CO_LSSmaster_return \<times> CO_LSSmaster_fastscan \<times> lssm) option"

definition fs_check :: "lssm \<Rightarrow> u32 \<Rightarrow> CO_LSSmaster_fastscan \<Rightarrow> fs_result" where
  "fs_check M dt fs = do {
     let (ret, M) = CO_LSSmaster_FsCheckWait M dt;
     if ret = CO_LSSmaster_SCAN_FINISHED then do {
       scan \<leftarrow> arr_get (fs_scan fs) 0;
       let (_, M) = CO_LSSmaster_FsScanInitiate M scan CO_LSS_FASTSCAN_VENDOR_ID;
       Some (CO_LSSmaster_WAIT_SLAVE, fs\<lparr>fs_found := [0, 0, 0, 0]\<rparr>, M\<lparr>M_fsState := CO_LSSmaster_FS_STATE_SCAN\<rparr>)
     }
     else Some (ret, fs, M)
   }"

definition fs_scan_step :: "lssm \<Rightarrow> u32 \<Rightarrow> CO_LSSmaster_fastscan \<Rightarrow> fs_result" where
  "fs_scan_step M dt fs = do {
     scan \<leftarrow> arr_get (fs_scan fs) (unat (M_fsLssSub M));
     let (ret, M) = CO_LSSmaster_FsScanWait M dt scan;
     if ret = CO_LSSmaster_SCAN_FINISHED then do {
       let nxt = CO_LSSmaster_FsSearchNext M (fs_scan fs);
       idNumber \<leftarrow> arr_get (fs_match fs) (unat (M_fsLssSub M));
       let (ret, M) = CO_LSSmaster_FsVerifyInitiate M scan idNumber nxt;
       Some (ret, fs, M\<lparr>M_fsState := CO_LSSmaster_FS_STATE_VERIFY\<rparr>)
     }
     else Some (ret, fs, M)
   }"

definition fs_verify :: "lssm \<Rightarrow> u32 \<Rightarrow> CO_LSSmaster_fastscan \<Rightarrow> fs_result" where
  "fs_verify M dt fs = do {
     scan \<leftarrow> arr_get (fs_scan fs) (unat (M_fsLssSub M));
     found \<leftarrow> arr_get (fs_found fs) (unat (M_fsLssSub M));
     let (ret, found, M) = CO_LSSmaster_FsVerifyWait M dt scan found;
     let fs = fs\<lparr>fs_found := (fs_found fs)[unat (M_fsLssSub M) := found]\<rparr>;
     if ret = CO_LSSmaster_SCAN_FINISHED then do {
       let nxt = CO_LSSmaster_FsSearchNext M (fs_scan fs);
       if nxt = CO_LSS_FASTSCAN_VENDOR_ID then Some (ret, fs, M\<lparr>M_state := CO_LSSmaster_STATE_CFG_SLECTIVE\<rparr>)
       else do {
         scan \<leftarrow> arr_get (fs_scan fs) (unat nxt);
         let (ret, M) = CO_LSSmaster_FsScanInitiate M scan nxt;
         Some (if ret = CO_LSSmaster_SCAN_FINISHED then CO_LSSmaster_WAIT_SLAVE else ret, fs,
               M\<lparr>M_fsState := CO_LSSmaster_FS_STATE_SCAN\<rparr>)
       }
     }
     else Some (ret, fs, M)
   }"

definition fs_valid :: "CO_LSSmaster_scantype list \<Rightarrow> bool" where
  "fs_valid scan \<longleftrightarrow> scan ! 0 \<noteq> CO_LSSmaster_FS_SKIP \<and> count_list scan CO_LSSmaster_FS_SKIP \<le> 2"

definition CO_LSSmaster_IdentifyFastscan :: "lssm \<Rightarrow> u32 \<Rightarrow> CO_LSSmaster_fastscan \<Rightarrow> fs_result" where
  "CO_LSSmaster_IdentifyFastscan M dt fs =
     (if \<not> fs_valid (fs_scan fs) then Some (CO_LSSmaster_ILLEGAL_ARGUMENT, fs, M)
      else if M_state M \<noteq> CO_LSSmaster_STATE_WAITING \<or>
          (M_command M \<noteq> CO_LSSmaster_COMMAND_WAITING \<and> M_command M \<noteq> CO_LSSmaster_COMMAND_IDENTIFY_FASTSCAN)
      then Some (CO_LSSmaster_INVALID_STATE, fs, M)
      else if M_command M = CO_LSSmaster_COMMAND_WAITING then
        Some (CO_LSSmaster_WAIT_SLAVE, fs,
          CO_LSSmaster_FsSendMsg
            (M\<lparr>M_command := CO_LSSmaster_COMMAND_IDENTIFY_FASTSCAN, M_fsState := CO_LSSmaster_FS_STATE_CHECK\<rparr>)
            0 CO_LSS_FASTSCAN_CONFIRM 0 0)
      else do {
        (ret, fs, M) \<leftarrow>
          (if M_fsState M = CO_LSSmaster_FS_STATE_CHECK then fs_check M dt fs
           else if M_fsState M = CO_LSSmaster_FS_STATE_SCAN then fs_scan_step M dt fs
           else if M_fsState M = CO_LSSmaster_FS_STATE_VERIFY then fs_verify M dt fs
           else Some (CO_LSSmaster_INVALID_STATE, fs, M));
        Some (ret, fs, if ret \<noteq> CO_LSSmaster_WAIT_SLAVE then M\<lparr>M_command := CO_LSSmaster_COMMAND_WAITING\<rparr> else M)
      })"

section \<open>The object as a system of events\<close>

datatype lssm_event =
    LM_receive nat "u8 list"
  | LM_changeTimeout u16
  | LM_select u32 "u32 list option"
  | LM_deselect
  | LM_bitTiming u32 u16
  | LM_nodeId u32 u8
  | LM_store u32
  | LM_activate u16
  | LM_inquireAddress u32 "u32 list"
  | LM_inquire u32 u8 u32
  | LM_fastscan u32 CO_LSSmaster_fastscan

text \<open>The arrays of the address and of the scan types have four elements.\<close>

definition four :: "'a \<Rightarrow> 'a list \<Rightarrow> 'a list" where
  "four x xs = take 4 (xs @ replicate 4 x)"

lemma length_four [simp]: "length (four x xs) = 4"
  by (simp add: four_def)

text \<open>A call of the application: what it returns, and the object.\<close>

fun lssm_call :: "lssm_event \<Rightarrow> lssm \<Rightarrow> (CO_LSSmaster_return option \<times> lssm) option" where
  "lssm_call (LM_receive DLC data) M = Some (None, CO_LSSmaster_receive M DLC (take 8 (data @ replicate 8 0)))"
| "lssm_call (LM_changeTimeout ms) M = Some (None, CO_LSSmaster_changeTimeout M ms)"
| "lssm_call (LM_select dt addr) M = Some (map_prod Some id (CO_LSSmaster_swStateSelect M dt (map_option (four 0) addr)))"
| "lssm_call LM_deselect M = Some (map_prod Some id (CO_LSSmaster_swStateDeselect M))"
| "lssm_call (LM_bitTiming dt rate) M = Some (map_prod Some id (CO_LSSmaster_configureBitTiming M dt rate))"
| "lssm_call (LM_nodeId dt n) M = Some (map_prod Some id (CO_LSSmaster_configureNodeId M dt n))"
| "lssm_call (LM_store dt) M = Some (map_prod Some id (CO_LSSmaster_configureStore M dt))"
| "lssm_call (LM_activate ms) M = Some (map_prod Some id (CO_LSSmaster_ActivateBit M ms))"
| "lssm_call (LM_inquireAddress dt addr) M =
     (let (ret, _, M) = CO_LSSmaster_InquireLssAddress M dt (four 0 addr) in Some (Some ret, M))"
| "lssm_call (LM_inquire dt cs v) M = (let (ret, _, M) = CO_LSSmaster_Inquire M dt cs v in Some (Some ret, M))"
| "lssm_call (LM_fastscan dt fs) M =
     map_option (\<lambda>(ret, _, M). (Some ret, M))
       (CO_LSSmaster_IdentifyFastscan M dt
         (fs\<lparr>fs_scan := four CO_LSSmaster_FS_SCAN (fs_scan fs), fs_match := four 0 (fs_match fs),
             fs_found := four 0 (fs_found fs)\<rparr>))"

definition lssm_step :: "lssm_event \<Rightarrow> lssm \<Rightarrow> lssm option" where
  "lssm_step e M = map_option snd (lssm_call e M)"

text \<open>
  The invariant: state and command are values of the two state machines, a running search has a part
  of the address and no slave is selected meanwhile.
\<close>

definition lssm_inv :: "lssm \<Rightarrow> bool" where
  "lssm_inv M \<longleftrightarrow> length (tx_data (M_TXbuff M)) = 8 \<and> M_state M \<in> {0, 1, 2} \<and> M_command M \<le> 10 \<and>
     (M_command M = CO_LSSmaster_COMMAND_IDENTIFY_FASTSCAN \<longrightarrow>
        M_state M = 0 \<and> M_fsState M \<le> 2 \<and> (M_fsState M \<noteq> 0 \<longrightarrow> M_fsLssSub M \<le> 3))"

text \<open>A call that says that it waits leaves its command behind, a call that has a result does not.\<close>

definition lssm_post :: "lssm_result \<Rightarrow> bool" where
  "lssm_post r \<longleftrightarrow> lssm_inv (snd r) \<and>
     (fst r = CO_LSSmaster_WAIT_SLAVE \<longrightarrow> M_command (snd r) \<noteq> CO_LSSmaster_COMMAND_WAITING) \<and>
     (fst r \<notin> {CO_LSSmaster_WAIT_SLAVE, CO_LSSmaster_INVALID_STATE, CO_LSSmaster_ILLEGAL_ARGUMENT} \<longrightarrow>
        M_command (snd r) = CO_LSSmaster_COMMAND_WAITING)"

lemma lssm_inv_upd [simp]:
  "lssm_inv (M\<lparr>M_CANrxNew := b\<rparr>) = lssm_inv M" "lssm_inv (M\<lparr>M_CANrxData := d\<rparr>) = lssm_inv M"
  "lssm_inv (M\<lparr>M_timeoutTimer := t\<rparr>) = lssm_inv M" "lssm_inv (M\<lparr>M_timeout_us := t\<rparr>) = lssm_inv M"
  "lssm_inv (M\<lparr>M_fsBitChecked := x\<rparr>) = lssm_inv M" "lssm_inv (M\<lparr>M_fsIdNumber := n\<rparr>) = lssm_inv M"
  by (simp_all add: lssm_inv_def)

lemma M_send_fields [simp]:
  "M_state (M_send M) = M_state M" "M_command (M_send M) = M_command M" "M_fsState (M_send M) = M_fsState M"
  "M_fsLssSub (M_send M) = M_fsLssSub M" "M_TXbuff (M_send M) = M_TXbuff M" "lssm_inv (M_send M) = lssm_inv M"
  by (simp_all add: M_send_def lssm_inv_def)

lemma M_put_fields [simp]:
  "M_state (M_put off bs M) = M_state M" "M_command (M_put off bs M) = M_command M"
  "M_fsState (M_put off bs M) = M_fsState M" "M_fsLssSub (M_put off bs M) = M_fsLssSub M"
  by (simp_all add: M_put_def Let_def)

lemma M_put_inv: "off + length bs \<le> 8 \<Longrightarrow> lssm_inv M \<Longrightarrow> lssm_inv (M_put off bs M)"
  by (simp add: M_put_def lssm_inv_def Let_def)

lemma check_timeout_cases:
  obtains M' where "CO_LSSmaster_check_timeout M dt = (CO_LSSmaster_TIMEOUT, M')" "lssm_inv M' = lssm_inv M"
    "M_state M' = M_state M" "M_command M' = M_command M" "M_fsState M' = M_fsState M" "M_fsLssSub M' = M_fsLssSub M"
  | M' where "CO_LSSmaster_check_timeout M dt = (CO_LSSmaster_WAIT_SLAVE, M')" "lssm_inv M' = lssm_inv M"
    "M_state M' = M_state M" "M_command M' = M_command M" "M_fsState M' = M_fsState M" "M_fsLssSub M' = M_fsLssSub M"
proof -
  define N where "N = M\<lparr>M_timeoutTimer := M_timeoutTimer M + dt\<rparr>"
  have e: "CO_LSSmaster_check_timeout M dt = (if M_timeoutTimer N \<ge> M_timeout_us N
      then (CO_LSSmaster_TIMEOUT, N\<lparr>M_timeoutTimer := 0\<rparr>) else (CO_LSSmaster_WAIT_SLAVE, N))"
    by (simp add: CO_LSSmaster_check_timeout_def Let_def N_def)
  show thesis
  proof (cases "M_timeoutTimer N \<ge> M_timeout_us N")
    case True
    then show ?thesis using that(1) [of "N\<lparr>M_timeoutTimer := 0\<rparr>"] by (simp add: e) (simp add: N_def)
  next
    case False
    then show ?thesis using that(2) [of N] by (simp add: e) (simp add: N_def)
  qed
qed

lemma lssm_inv_command: "lssm_inv M \<Longrightarrow> c < 10 \<Longrightarrow> lssm_inv (M\<lparr>M_command := c\<rparr>)"
  by (auto simp: lssm_inv_def word_le_nat_alt word_less_nat_alt)

lemma lssm_inv_state: "lssm_inv M \<Longrightarrow> st \<in> {0, 1, 2} \<Longrightarrow> c < 10 \<Longrightarrow> lssm_inv (M\<lparr>M_state := st, M_command := c\<rparr>)"
  by (auto simp: lssm_inv_def word_le_nat_alt word_less_nat_alt)

lemma lssm_inv_request:
  "lssm_inv M \<Longrightarrow> c < 10 \<Longrightarrow> length bs \<le> 8 \<Longrightarrow>
   lssm_inv (snd (M_request c bs M)) \<and> M_command (snd (M_request c bs M)) = c \<and> fst (M_request c bs M) = CO_LSSmaster_WAIT_SLAVE"
  using M_put_inv [of 0 bs "M\<lparr>M_command := c, M_timeoutTimer := 0, M_CANrxNew := False\<rparr>"] lssm_inv_command [of M c]
  by (simp add: M_request_def)

text \<open>What waits for a response keeps the invariant and the command.\<close>

definition lssm_kept :: "u8 \<Rightarrow> lssm_result \<Rightarrow> bool" where
  "lssm_kept c r \<longleftrightarrow> lssm_inv (snd r) \<and> M_command (snd r) = c"

lemma check_timeout_kept: "lssm_inv M \<Longrightarrow> lssm_kept (M_command M) (CO_LSSmaster_check_timeout M dt)"
  by (rule check_timeout_cases [of M dt]) (simp_all add: lssm_kept_def)

lemma check_timeout_new:
  "lssm_inv M \<Longrightarrow> lssm_kept (M_command M) (CO_LSSmaster_check_timeout (M\<lparr>M_CANrxNew := b\<rparr>) dt)"
  using check_timeout_kept [of "M\<lparr>M_CANrxNew := b\<rparr>" dt] by simp

lemma M_finished_post:
  assumes "lssm_kept c r" "c \<noteq> 0"
  shows "lssm_post (M_finished r)"
  using assms lssm_inv_command [of "snd r" 0] by (cases r) (auto simp: M_finished_def lssm_post_def lssm_kept_def)

lemma M_finished_request:
  "lssm_inv M \<Longrightarrow> 0 < c \<Longrightarrow> c < 10 \<Longrightarrow> length bs \<le> 8 \<Longrightarrow> lssm_post (M_finished (M_request c bs M))"
  using lssm_inv_request [of M c bs] by (intro M_finished_post [of c]) (auto simp: lssm_kept_def)

lemma M_finished_invalid: "lssm_inv M \<Longrightarrow> lssm_post (M_finished (CO_LSSmaster_INVALID_STATE, M))"
  by (simp add: M_finished_def lssm_post_def)

lemma lssm_post_illegal: "lssm_inv M \<Longrightarrow> lssm_post (CO_LSSmaster_ILLEGAL_ARGUMENT, M)"
  by (simp add: lssm_post_def)

lemma M_finished_twice [simp]: "M_finished (M_finished r) = M_finished r"
  by (cases r) (auto simp: M_finished_def)

lemma configureCheckWait_post:
  assumes "lssm_inv M" "M_command M \<noteq> 0"
  shows "lssm_post (M_finished (CO_LSSmaster_configureCheckWait M dt cs))"
proof -
  have "lssm_kept (M_command M)
      (if M_CANrxNew M then
          let cs' = M_CANrxData M ! 0; errorCode = M_CANrxData M ! 1; M = M\<lparr>M_CANrxNew := False\<rparr> in
          if cs' = cs then
            (if errorCode = 0 then CO_LSSmaster_OK
             else if errorCode = 0xFF then CO_LSSmaster_OK_MANUFACTURER
             else CO_LSSmaster_OK_ILLEGAL_ARGUMENT, M)
          else CO_LSSmaster_check_timeout M dt
        else CO_LSSmaster_check_timeout M dt)"
    using assms check_timeout_kept check_timeout_new by (simp add: Let_def) (simp add: lssm_kept_def)
  from M_finished_post [OF this assms(2)] show ?thesis by (simp add: CO_LSSmaster_configureCheckWait_def)
qed

lemma configure_post:
  assumes "lssm_inv M"
  shows "lssm_post (CO_LSSmaster_configureBitTiming M dt rate)" "lssm_post (CO_LSSmaster_configureNodeId M dt n)"
    "lssm_post (CO_LSSmaster_configureStore M dt)"
  using assms M_finished_request [OF assms] configureCheckWait_post [OF assms] M_finished_invalid [OF assms]
    lssm_post_illegal [OF assms]
  by (auto simp: CO_LSSmaster_configureBitTiming_def CO_LSSmaster_configureNodeId_def CO_LSSmaster_configureStore_def
      split: option.split)

lemma activate_post:
  assumes "lssm_inv M"
  shows "lssm_post (CO_LSSmaster_ActivateBit M ms)"
  using assms M_put_inv [of 0 "CO_LSS_CFG_ACTIVATE_BIT_TIMING # le_bytes 2 ms @ replicate 5 0" "M\<lparr>M_CANrxNew := False\<rparr>"]
  by (simp add: CO_LSSmaster_ActivateBit_def lssm_post_def)

lemma deselect_post:
  assumes "lssm_inv M"
  shows "lssm_post (CO_LSSmaster_swStateDeselect M)"
proof -
  have "lssm_inv (M\<lparr>M_state := 0, M_command := 0, M_timeoutTimer := 0, M_CANrxNew := False\<rparr>)"
    using lssm_inv_state [OF assms, of 0 0] by simp
  from M_put_inv [OF _ this, of 0 "CO_LSS_SWITCH_STATE_GLOBAL # CO_LSS_STATE_WAITING # replicate 6 0"]
  show ?thesis by (simp add: CO_LSSmaster_swStateDeselect_def lssm_post_def Let_def)
qed

lemma select_initiate_kept:
  assumes "lssm_inv M" "M_command M = 0" "M_state M = 0"
  shows "case CO_LSSmaster_switchStateSelectInitiate M addr of (ret, M') \<Rightarrow> lssm_inv M' \<and>
    (ret = CO_LSSmaster_WAIT_SLAVE \<and> M_command M' = 1 \<or> ret = CO_LSSmaster_OK \<and> M_command M' = 0)"
proof (cases addr)
  case None
  have "lssm_inv (M\<lparr>M_state := 2, M_CANrxNew := False\<rparr>)"
    using assms by (auto simp: lssm_inv_def)
  from M_put_inv [OF _ this, of 0 "CO_LSS_SWITCH_STATE_GLOBAL # CO_LSS_STATE_CONFIGURATION # replicate 6 0"]
  show ?thesis using assms(2) by (simp add: CO_LSSmaster_switchStateSelectInitiate_def None Let_def)
next
  case (Some a)
  have "lssm_inv (M\<lparr>M_state := 1, M_command := 1, M_timeoutTimer := 0, M_CANrxNew := False\<rparr>)"
    using lssm_inv_state [OF assms(1), of 1 1] by simp
  then show ?thesis
    by (simp add: CO_LSSmaster_switchStateSelectInitiate_def Some Let_def M_put_inv)
qed

lemma select_wait_kept: "lssm_inv M \<Longrightarrow> lssm_kept (M_command M) (CO_LSSmaster_switchStateSelectWait M dt)"
  using check_timeout_kept [of M dt] check_timeout_new [of M False dt]
  by (simp add: CO_LSSmaster_switchStateSelectWait_def Let_def) (simp add: lssm_kept_def)

lemma select_post:
  assumes "lssm_inv M"
  shows "lssm_post (CO_LSSmaster_swStateSelect M dt addr)"
proof -
  define r where "r = (if M_state M = 0 \<and> M_command M = 0 then CO_LSSmaster_switchStateSelectInitiate M addr
     else if M_command M = 1 then CO_LSSmaster_switchStateSelectWait M dt else (CO_LSSmaster_INVALID_STATE, M))"
  have p: "lssm_post (M_finished r)"
  proof -
    have "lssm_post (M_finished r)" if "M_state M = 0 \<and> M_command M = 0"
      using that select_initiate_kept [OF assms, of addr] lssm_inv_command [of "snd r" 0]
      by (cases r) (auto simp: r_def M_finished_def lssm_post_def)
    moreover have "lssm_post (M_finished r)" if "M_command M = 1"
      using that M_finished_post [OF select_wait_kept [OF assms]] by (simp add: r_def)
    ultimately show ?thesis using M_finished_invalid [OF assms] by (auto simp: r_def)
  qed
  obtain ret M' where f: "M_finished r = (ret, M')" by fastforce
  have e: "CO_LSSmaster_swStateSelect M dt addr = (ret, if lssm_value ret < 0 then M'\<lparr>M_state := 0, M_command := 0\<rparr> else M')"
    using f by (simp add: CO_LSSmaster_swStateSelect_def r_def)
  show ?thesis
  proof (cases "lssm_value ret < 0")
    case True
    then have "ret \<noteq> CO_LSSmaster_WAIT_SLAVE" by auto
    then show ?thesis using p True f lssm_inv_state [of M' 0 0] unfolding e by (simp add: lssm_post_def)
  next
    case False
    then show ?thesis using p f unfolding e by simp
  qed
qed

lemma inquire_initiate_kept:
  assumes "lssm_inv M" "0 < c" "c < 10"
  shows "lssm_post (CO_LSSmaster_inquireInitiate (M\<lparr>M_command := c, M_timeoutTimer := 0\<rparr>) cs)"
    "fst (CO_LSSmaster_inquireInitiate (M\<lparr>M_command := c, M_timeoutTimer := 0\<rparr>) cs) = CO_LSSmaster_WAIT_SLAVE"
  using lssm_inv_command [OF assms(1,3)] assms(2)
    M_put_inv [of 0 "cs # replicate 7 0" "M\<lparr>M_command := c, M_timeoutTimer := 0, M_CANrxNew := False\<rparr>"]
  by (auto simp: CO_LSSmaster_inquireInitiate_def lssm_post_def)

lemma inquire_wait_kept:
  "lssm_inv M \<Longrightarrow> case CO_LSSmaster_inquireCheckWait M dt cs v of (ret, v', M') \<Rightarrow> lssm_kept (M_command M) (ret, M')"
  using check_timeout_kept [of M dt] check_timeout_new [of M False dt]
  by (auto simp: CO_LSSmaster_inquireCheckWait_def Let_def case_prod_unfold lssm_kept_def)

lemma inquire_post:
  assumes "lssm_inv M"
  shows "case CO_LSSmaster_Inquire M dt cs v of (ret, v', M') \<Rightarrow> lssm_post (ret, M')"
proof -
  define r where "r = (if (M_state M = 1 \<or> M_state M = 2) \<and> M_command M = 0 then
       let (ret, M) = CO_LSSmaster_inquireInitiate (M\<lparr>M_command := 9, M_timeoutTimer := 0\<rparr>) cs in (ret, v, M)
     else if M_command M = 9 then CO_LSSmaster_inquireCheckWait M dt cs v
     else (CO_LSSmaster_INVALID_STATE, v, M))"
  obtain ret v' M' where r': "r = (ret, v', M')" by (cases r)
  have "lssm_inv M' \<and> (ret = CO_LSSmaster_WAIT_SLAVE \<longrightarrow> M_command M' \<noteq> 0)"
  proof (cases "(M_state M = 1 \<or> M_state M = 2) \<and> M_command M = 0")
    case True
    then show ?thesis using inquire_initiate_kept [OF assms, of 9 cs] r'
      by (cases "CO_LSSmaster_inquireInitiate (M\<lparr>M_command := 9, M_timeoutTimer := 0\<rparr>) cs") (simp add: r_def lssm_post_def)
  next
    case False
    then show ?thesis using inquire_wait_kept [OF assms, of dt cs v] r' assms
      by (cases "M_command M = 9") (auto simp: r_def lssm_kept_def)
  qed
  then show ?thesis using lssm_inv_command [of M' 0]
    by (simp add: CO_LSSmaster_Inquire_def r_def [symmetric] r' lssm_post_def)
qed

lemma inquire_reply_kept:
  assumes "lssm_inv M"
  shows "case inquire_reply M dt addr of (ret, nxt, addr', M') \<Rightarrow> lssm_kept (M_command M) (ret, M') \<and>
    (ret = CO_LSSmaster_WAIT_SLAVE \<longrightarrow> M_command M \<noteq> 0)"
proof -
  have p: "case inquire_part cs c i cur M dt addr of (ret, nxt, addr', M') \<Rightarrow> lssm_kept (M_command M) (ret, M')" for cs c i cur
    using inquire_wait_kept [OF assms, of dt cs "addr ! i"]
    by (auto simp: inquire_part_def lssm_kept_def Let_def split: prod.splits if_splits)
  show ?thesis
  proof (cases "M_command M \<in> {5, 6, 7, 8}")
    case True
    then obtain cs c i cur where "inquire_reply M dt addr = inquire_part cs c i cur M dt addr" "M_command M \<noteq> 0"
      by (auto simp: inquire_reply_def Let_def)
    then show ?thesis using p [of cs c i cur] by (auto split: prod.splits)
  next
    case False
    then show ?thesis using assms by (simp add: inquire_reply_def Let_def lssm_kept_def)
  qed
qed

lemma inquire_next_kept:
  assumes "lssm_inv M" "ret = CO_LSSmaster_WAIT_SLAVE \<longrightarrow> M_command M \<noteq> 0"
  shows "lssm_post (M_finished (inquire_next nxt ret M))"
proof -
  have s: "lssm_post (M_finished (CO_LSSmaster_inquireInitiate (M\<lparr>M_command := c, M_timeoutTimer := 0\<rparr>) cs))" if "0 < c" "c < 10" for c cs
    using inquire_initiate_kept [OF assms(1) that, of cs]
    by (cases "CO_LSSmaster_inquireInitiate (M\<lparr>M_command := c, M_timeoutTimer := 0\<rparr>) cs") (simp add: M_finished_def)
  have r: "lssm_post (M_finished (ret, M))"
    using assms lssm_inv_command [of M 0] by (auto simp: M_finished_def lssm_post_def)
  show ?thesis using s [of 5] s [of 6] s [of 7] s [of 8] r by (simp add: inquire_next_def Let_def)
qed

lemma inquire_address_post:
  assumes "lssm_inv M"
  shows "case CO_LSSmaster_InquireLssAddress M dt addr of (ret, addr', M') \<Rightarrow> lssm_post (ret, M')"
proof -
  obtain ret nxt addr' M' where r: "inquire_reply M dt addr = (ret, nxt, addr', M')" by (cases "inquire_reply M dt addr")
  have "lssm_inv M' \<and> (ret = CO_LSSmaster_WAIT_SLAVE \<longrightarrow> M_command M' \<noteq> 0)"
    using inquire_reply_kept [OF assms, of dt addr] r by (simp add: lssm_kept_def)
  then have "lssm_post (M_finished (inquire_next nxt ret M'))" by (intro inquire_next_kept) auto
  then show ?thesis by (auto simp: CO_LSSmaster_InquireLssAddress_def r split: prod.splits)
qed

section \<open>The search in the invariant\<close>

lemma FsSendMsg_fields [simp]:
  "M_state (CO_LSSmaster_FsSendMsg M v b sub nxt) = M_state M"
  "M_command (CO_LSSmaster_FsSendMsg M v b sub nxt) = M_command M"
  "M_fsState (CO_LSSmaster_FsSendMsg M v b sub nxt) = M_fsState M"
  "M_fsLssSub (CO_LSSmaster_FsSendMsg M v b sub nxt) = M_fsLssSub M"
  by (simp_all add: CO_LSSmaster_FsSendMsg_def)

lemma FsSendMsg_inv [simp]: "lssm_inv M \<Longrightarrow> lssm_inv (CO_LSSmaster_FsSendMsg M v b sub nxt)"
  by (simp add: CO_LSSmaster_FsSendMsg_def M_put_inv)

text \<open>A running search; its part of the address is given.\<close>

definition fs_running :: "lssm \<Rightarrow> bool" where
  "fs_running M \<longleftrightarrow> length (tx_data (M_TXbuff M)) = 8 \<and> M_state M = 0 \<and> M_command M = 10"

lemma fs_running_upd [simp]:
  "fs_running (M\<lparr>M_CANrxNew := b\<rparr>) = fs_running M" "fs_running (M\<lparr>M_timeoutTimer := t\<rparr>) = fs_running M"
  "fs_running (M\<lparr>M_fsBitChecked := x\<rparr>) = fs_running M" "fs_running (M\<lparr>M_fsIdNumber := n\<rparr>) = fs_running M"
  "fs_running (M\<lparr>M_fsLssSub := x\<rparr>) = fs_running M" "fs_running (M\<lparr>M_fsState := x\<rparr>) = fs_running M"
  "fs_running M \<Longrightarrow> fs_running (CO_LSSmaster_FsSendMsg M v bc sub nxt)"
  by (simp_all add: fs_running_def CO_LSSmaster_FsSendMsg_def M_put_def Let_def)

lemma fs_running_inv: "fs_running M \<Longrightarrow> M_fsState M \<le> 2 \<Longrightarrow> M_fsState M \<noteq> 0 \<longrightarrow> M_fsLssSub M \<le> 3 \<Longrightarrow> lssm_inv M"
  by (simp add: fs_running_def lssm_inv_def)

text \<open>The waiting functions keep the position of the search.\<close>

definition fs_kept :: "lssm \<Rightarrow> lssm \<Rightarrow> bool" where
  "fs_kept M M' \<longleftrightarrow> fs_running M' \<and> M_fsState M' = M_fsState M \<and> M_fsLssSub M' = M_fsLssSub M"

lemma check_timeout_fs: "fs_running M \<Longrightarrow> fs_kept M (snd (CO_LSSmaster_check_timeout M dt))"
  by (auto simp: CO_LSSmaster_check_timeout_def fs_kept_def Let_def)

lemma FsCheckWait_fs: "fs_running M \<Longrightarrow> fs_kept M (snd (CO_LSSmaster_FsCheckWait M dt))"
  using check_timeout_fs [of M dt]
  by (auto simp: CO_LSSmaster_FsCheckWait_def fs_kept_def split: prod.splits)

lemma fs_next_bit_fs: "fs_running M \<Longrightarrow> fs_kept M (snd (fs_next_bit M))"
  by (simp add: fs_next_bit_def fs_kept_def Let_def)

lemma FsScanWait_fs:
  assumes "fs_running M"
  shows "fs_kept M (snd (CO_LSSmaster_FsScanWait M dt scan))"
proof -
  obtain ret N where t: "CO_LSSmaster_check_timeout M dt = (ret, N)" by fastforce
  have n: "fs_kept M N" using check_timeout_fs [OF assms, of dt] t by simp
  then have "fs_kept M (snd (fs_next_bit (N\<lparr>M_CANrxNew := False\<rparr>)))"
    "fs_kept M (snd (fs_next_bit (N\<lparr>M_fsIdNumber := M_fsIdNumber N OR push_bit (unat (M_fsBitChecked N)) 1\<rparr>)))"
    using fs_next_bit_fs [of "N\<lparr>M_CANrxNew := False\<rparr>"]
      fs_next_bit_fs [of "N\<lparr>M_fsIdNumber := M_fsIdNumber N OR push_bit (unat (M_fsBitChecked N)) 1\<rparr>"]
    by (simp_all add: fs_kept_def)
  then show ?thesis using n assms t
    by (cases scan) (simp_all add: CO_LSSmaster_FsScanWait_def fs_kept_def Let_def)
qed

lemma FsVerifyWait_fs:
  "fs_running M \<Longrightarrow> case CO_LSSmaster_FsVerifyWait M dt scan v of (ret, v', M') \<Rightarrow> fs_kept M M'"
  using check_timeout_fs [of M dt]
  by (auto simp: CO_LSSmaster_FsVerifyWait_def fs_kept_def Let_def split: prod.splits)

lemma FsVerifyInitiate_fs: "fs_running M \<Longrightarrow> fs_kept M (snd (CO_LSSmaster_FsVerifyInitiate M scan v nxt))"
  by (simp add: CO_LSSmaster_FsVerifyInitiate_def fs_kept_def Let_def)

lemma FsScanInitiate_fs:
  "fs_running M \<Longrightarrow> fs_running (snd (CO_LSSmaster_FsScanInitiate M scan sub)) \<and>
    M_fsLssSub (snd (CO_LSSmaster_FsScanInitiate M scan sub)) = sub"
  by (cases scan) (simp_all add: CO_LSSmaster_FsScanInitiate_def Let_def)

lemma FsSearchNext_le: "CO_LSSmaster_FsSearchNext M scan \<le> 3"
proof (cases "find (\<lambda>i. scan ! i \<noteq> CO_LSSmaster_FS_SKIP) [unat (M_fsLssSub M + 1)..<4]")
  case (Some i)
  then have "i < 4" by (auto simp: find_Some_iff)
  then show ?thesis by (simp add: CO_LSSmaster_FsSearchNext_def Some word_le_nat_alt unat_of_nat)
qed (simp add: CO_LSSmaster_FsSearchNext_def)

text \<open>The three states of the search; \<open>fs\<close> has four parts.\<close>

definition fs_sized :: "CO_LSSmaster_fastscan \<Rightarrow> bool" where
  "fs_sized fs \<longleftrightarrow> length (fs_scan fs) = 4 \<and> length (fs_match fs) = 4 \<and> length (fs_found fs) = 4"

definition fs_ok :: "CO_LSSmaster_return \<times> CO_LSSmaster_fastscan \<times> lssm \<Rightarrow> bool" where
  "fs_ok r \<longleftrightarrow> fs_sized (fst (snd r)) \<and> lssm_inv (snd (snd r)) \<and> M_command (snd (snd r)) = 10 \<or>
     fs_sized (fst (snd r)) \<and> fst r = CO_LSSmaster_SCAN_FINISHED \<and> lssm_inv ((snd (snd r))\<lparr>M_command := 0\<rparr>)"

lemma fs_ok_running:
  "fs_sized fs \<Longrightarrow> fs_running M \<Longrightarrow> M_fsState M \<le> 2 \<Longrightarrow> M_fsState M \<noteq> 0 \<longrightarrow> M_fsLssSub M \<le> 3 \<Longrightarrow> fs_ok (ret, fs, M)"
  using fs_running_inv [of M] by (simp add: fs_ok_def fs_running_def)

lemma fs_check_ok:
  assumes "fs_running M" "M_fsState M = 0" "fs_sized fs"
  shows "wp (fs_check M dt fs) fs_ok"
proof -
  obtain ret N where t: "CO_LSSmaster_FsCheckWait M dt = (ret, N)" by fastforce
  have n: "fs_kept M N" using FsCheckWait_fs [OF assms(1), of dt] t by simp
  obtain ret' N' where i: "CO_LSSmaster_FsScanInitiate N (fs_scan fs ! 0) 0 = (ret', N')" by fastforce
  have "fs_running N' \<and> M_fsLssSub N' = 0" using FsScanInitiate_fs [of N "fs_scan fs ! 0" 0] n i by (simp add: fs_kept_def)
  then have "fs_ok (CO_LSSmaster_WAIT_SLAVE, fs\<lparr>fs_found := [0, 0, 0, 0]\<rparr>, N'\<lparr>M_fsState := 1\<rparr>)"
    using assms(3) by (intro fs_ok_running) (simp_all add: fs_sized_def)
  moreover have "fs_ok (ret, fs, N)" using n assms by (intro fs_ok_running) (simp_all add: fs_kept_def)
  ultimately show ?thesis using assms(3) i by (simp add: fs_check_def t fs_sized_def)
qed

lemma unat_le_3: "sub \<le> 3 \<Longrightarrow> unat (sub :: u8) < 4"
  by (simp add: word_le_nat_alt)

lemma fs_scan_step_ok:
  assumes "fs_running M" "M_fsState M = 1" "M_fsLssSub M \<le> 3" "fs_sized fs"
  shows "wp (fs_scan_step M dt fs) fs_ok"
proof -
  let ?sub = "unat (M_fsLssSub M)"
  let ?scan = "fs_scan fs ! ?sub"
  obtain ret N where t: "CO_LSSmaster_FsScanWait M dt ?scan = (ret, N)" by fastforce
  have n: "fs_kept M N" using FsScanWait_fs [OF assms(1), of dt ?scan] t by simp
  obtain ret' N' where i: "CO_LSSmaster_FsVerifyInitiate N ?scan (fs_match fs ! ?sub) (CO_LSSmaster_FsSearchNext N (fs_scan fs)) = (ret', N')"
    by fastforce
  have "fs_kept N N'"
    using FsVerifyInitiate_fs [of N ?scan "fs_match fs ! ?sub" "CO_LSSmaster_FsSearchNext N (fs_scan fs)"] n unfolding i
    by (simp add: fs_kept_def)
  then have "fs_ok (ret', fs, N'\<lparr>M_fsState := 2\<rparr>)" using assms n by (intro fs_ok_running) (simp_all add: fs_kept_def)
  moreover have "fs_ok (ret, fs, N)" using n assms by (intro fs_ok_running) (simp_all add: fs_kept_def)
  moreover have "M_fsLssSub N = M_fsLssSub M" using n by (simp add: fs_kept_def)
  ultimately show ?thesis using assms(3,4) i unat_le_3 [OF assms(3)] by (simp add: fs_scan_step_def t fs_sized_def)
qed

lemma fs_verify_ok:
  assumes "fs_running M" "M_fsState M = 2" "M_fsLssSub M \<le> 3" "fs_sized fs"
  shows "wp (fs_verify M dt fs) fs_ok"
proof -
  let ?sub = "unat (M_fsLssSub M)"
  let ?scan = "fs_scan fs ! ?sub"
  obtain ret v N where t: "CO_LSSmaster_FsVerifyWait M dt ?scan (fs_found fs ! ?sub) = (ret, v, N)"
    by (cases "CO_LSSmaster_FsVerifyWait M dt ?scan (fs_found fs ! ?sub)")
  have n: "fs_kept M N" using FsVerifyWait_fs [OF assms(1), of dt ?scan "fs_found fs ! ?sub"] t by simp
  define fs' where "fs' = fs\<lparr>fs_found := (fs_found fs)[?sub := v]\<rparr>"
  have len: "length (fs_scan fs) = 4" "length (fs_found fs) = 4" using assms(4) by (simp_all add: fs_sized_def)
  have fs': "fs_sized fs'" "fs_scan fs' = fs_scan fs" using assms(4) by (simp_all add: fs'_def fs_sized_def)
  define nxt where "nxt = CO_LSSmaster_FsSearchNext N (fs_scan fs)"
  have nx: "nxt \<le> 3" by (simp add: nxt_def FsSearchNext_le)
  obtain ret' N' where i: "CO_LSSmaster_FsScanInitiate N (fs_scan fs ! unat nxt) nxt = (ret', N')" by fastforce
  have "fs_running N' \<and> M_fsLssSub N' = nxt" 
    using FsScanInitiate_fs [of N "fs_scan fs ! unat nxt" nxt] n unfolding i by (simp add: fs_kept_def)
  then have "fs_ok (r, fs', N'\<lparr>M_fsState := 1\<rparr>)" for r using fs' nx by (intro fs_ok_running) simp_all
  moreover have "fs_ok (ret, fs', N)" using n assms fs' by (intro fs_ok_running) (simp_all add: fs_kept_def)
  moreover have "fs_ok (CO_LSSmaster_SCAN_FINISHED, fs', N\<lparr>M_state := 1\<rparr>)"
    using n fs'(1) by (simp add: fs_ok_def fs_kept_def fs_running_def lssm_inv_def)
  moreover have "M_fsLssSub N = M_fsLssSub M" using n by (simp add: fs_kept_def)
  ultimately show ?thesis
    using len i unat_le_3 [OF assms(3)] unat_le_3 [OF nx] fs'(2)
    by (simp add: fs_verify_def t fs'_def [symmetric] nxt_def [symmetric])
qed

lemma fastscan_post:
  assumes "lssm_inv M" "fs_sized fs"
  shows "wp (CO_LSSmaster_IdentifyFastscan M dt fs) (\<lambda>(ret, fs', M'). fs_sized fs' \<and> lssm_post (ret, M'))"
proof -
  have k: "wp r (\<lambda>(ret, fs', M'). fs_sized fs' \<and> lssm_post (ret, if ret \<noteq> CO_LSSmaster_WAIT_SLAVE then M'\<lparr>M_command := 0\<rparr> else M'))"
    if "wp r fs_ok" for r
    using that
  proof (rule wp_mono)
    fix x :: "CO_LSSmaster_return \<times> CO_LSSmaster_fastscan \<times> lssm"
    assume "fs_ok x"
    then show "case x of (ret, fs', M') \<Rightarrow> fs_sized fs' \<and> lssm_post (ret, if ret \<noteq> CO_LSSmaster_WAIT_SLAVE then M'\<lparr>M_command := 0\<rparr> else M')"
      using lssm_inv_command [of "snd (snd x)" 0] by (cases x) (auto simp: fs_ok_def lssm_post_def)
  qed
  let ?r = "if M_fsState M = 0 then fs_check M dt fs else if M_fsState M = 1 then fs_scan_step M dt fs
     else if M_fsState M = 2 then fs_verify M dt fs else Some (CO_LSSmaster_INVALID_STATE, fs, M)"
  have run: "wp ?r fs_ok" if "M_state M = 0" "M_command M = 10"
  proof -
    have f: "fs_running M" "M_fsState M \<le> 2" "M_fsState M \<noteq> 0 \<longrightarrow> M_fsLssSub M \<le> 3"
      using assms(1) that by (auto simp: lssm_inv_def fs_running_def)
    have "M_fsState M = 0 \<or> M_fsState M = 1 \<or> M_fsState M = 2"
      using f(2) unat_le_3 [of "M_fsState M"] by (auto simp: word_le_nat_alt word_unat_eq_iff)
    then show ?thesis
      using fs_check_ok [OF f(1) _ assms(2), of dt] fs_scan_step_ok [OF f(1) _ _ assms(2), of dt]
        fs_verify_ok [OF f(1) _ _ assms(2), of dt] f(3) by auto
  qed
  have start: "lssm_post (CO_LSSmaster_WAIT_SLAVE, CO_LSSmaster_FsSendMsg (M\<lparr>M_command := 10, M_fsState := 0\<rparr>) 0 0x80 0 0)"
    if "M_state M = 0"
    using that assms(1) by (simp add: lssm_post_def lssm_inv_def CO_LSSmaster_FsSendMsg_def M_put_def Let_def)
  show ?thesis
    using assms k [OF run] start lssm_post_illegal [OF assms(1)]
    by (simp add: CO_LSSmaster_IdentifyFastscan_def case_prod_unfold) (simp add: lssm_post_def)
qed

lemma lssm_call_ok:
  assumes "lssm_inv M"
  shows "wp (lssm_call e M) (\<lambda>(ret, M'). case ret of None \<Rightarrow> lssm_inv M' | Some r \<Rightarrow> lssm_post (r, M'))"
proof (cases e)
  case (LM_fastscan dt fs)
  have "fs_sized (fs\<lparr>fs_scan := four CO_LSSmaster_FS_SCAN (fs_scan fs), fs_match := four 0 (fs_match fs),
             fs_found := four 0 (fs_found fs)\<rparr>)" by (simp add: fs_sized_def)
  from fastscan_post [OF assms this, of dt] show ?thesis
    by (simp add: LM_fastscan) (erule wp_mono, simp add: case_prod_unfold)
qed (use assms configure_post [OF assms] activate_post [OF assms] deselect_post [OF assms] select_post [OF assms]
      inquire_post [OF assms] inquire_address_post [OF assms]
  in \<open>auto simp: CO_LSSmaster_receive_def CO_LSSmaster_changeTimeout_def case_prod_unfold map_prod_def Let_def\<close>)

interpretation lssmsys: safe_system lssm_inv lssm_step
proof unfold_locales
  fix M e
  assume "lssm_inv M"
  from lssm_call_ok [OF this, of e] show "wp (lssm_step e M) lssm_inv"
    unfolding lssm_step_def wp_map_option by (rule wp_mono) (auto simp: lssm_post_def split: option.splits)
qed

text \<open>
  C13: The state machines of the master. After any sequence of calls and received messages since the
  initialisation the next call stays within the parts of the LSS address and the message; a call that
  returns \<open>WAIT_SLAVE\<close> leaves a command to be continued, a call that returns a result leaves the
  master free for the next command, and a search runs only while no slave is selected.
\<close>

theorem lssm_well_formed:
  assumes "CO_LSSmaster_init rxRet txOk tx M0 ms canId = (CO_ERROR_NO, M)" "length (tx_data tx) = 8"
  shows "\<exists>M' r M''. run lssm_step es M = Some M' \<and> lssm_call e M' = Some (r, M'') \<and>
    M_state M'' \<in> {CO_LSSmaster_STATE_WAITING, CO_LSSmaster_STATE_CFG_SLECTIVE, CO_LSSmaster_STATE_CFG_GLOBAL} \<and>
    length (tx_data (M_TXbuff M'')) = 8 \<and>
    (r = Some CO_LSSmaster_WAIT_SLAVE \<longrightarrow> M_command M'' \<noteq> CO_LSSmaster_COMMAND_WAITING) \<and>
    (r \<notin> {None, Some CO_LSSmaster_WAIT_SLAVE, Some CO_LSSmaster_INVALID_STATE, Some CO_LSSmaster_ILLEGAL_ARGUMENT} \<longrightarrow>
       M_command M'' = CO_LSSmaster_COMMAND_WAITING) \<and>
    (M_command M'' = CO_LSSmaster_COMMAND_IDENTIFY_FASTSCAN \<longrightarrow> M_state M'' = CO_LSSmaster_STATE_WAITING)"
proof -
  have "lssm_inv M"
    using assms by (auto simp: CO_LSSmaster_init_def lssm_inv_def CO_CANtxBufferInit_def split: if_splits)
  then obtain M' where M': "run lssm_step es M = Some M'" "lssm_inv M'" using lssmsys.run_defined by blast
  obtain r M'' where c: "lssm_call e M' = Some (r, M'')" "case r of None \<Rightarrow> lssm_inv M'' | Some ret \<Rightarrow> lssm_post (ret, M'')"
    using lssm_call_ok [OF M'(2), of e] by (auto simp: wp_ex)
  then have i: "lssm_inv M''" by (auto simp: lssm_post_def split: option.splits)
  have p: "lssm_post (ret, M'')" if "r = Some ret" for ret using c(2) that by simp
  have "(r = Some CO_LSSmaster_WAIT_SLAVE \<longrightarrow> M_command M'' \<noteq> 0) \<and>
    (r \<notin> {None, Some CO_LSSmaster_WAIT_SLAVE, Some CO_LSSmaster_INVALID_STATE, Some CO_LSSmaster_ILLEGAL_ARGUMENT} \<longrightarrow>
       M_command M'' = 0)"
    using p by (cases r) (auto simp: lssm_post_def)
  then show ?thesis using M'(1) c(1) i unfolding lssm_inv_def by auto
qed

text \<open>A master whose memory is zero before the initialisation.\<close>

definition example_lssm_memory :: lssm where
  "example_lssm_memory =
     \<lparr>M_timeout_us = 0, M_state = 0, M_command = 0, M_timeoutTimer = 0, M_fsState = 0, M_fsLssSub = 0, M_fsBitChecked = 0,
      M_fsIdNumber = 0, M_CANrxNew = False, M_CANrxData = replicate 8 0, M_TXbuff = example_lss_tx, M_sent = []\<rparr>"

definition example_lssm :: lssm where
  "example_lssm = snd (CO_LSSmaster_init CO_ERROR_NO True example_lss_tx example_lssm_memory 50 0x7E5)"

lemma example_lssm_init:
  "CO_LSSmaster_init CO_ERROR_NO True example_lss_tx example_lssm_memory 50 0x7E5 = (CO_ERROR_NO, example_lssm)"
  by (simp add: example_lssm_def CO_LSSmaster_init_def)

lemma example_lssm_fields:
  "M_timeout_us example_lssm = 50000" "M_state example_lssm = 0" "M_command example_lssm = 0" "M_sent example_lssm = []"
  "M_CANrxNew example_lssm = False" "tx_DLC (M_TXbuff example_lssm) = 8" "length (tx_data (M_TXbuff example_lssm)) = 8"
  by (simp_all add: example_lssm_def CO_LSSmaster_init_def CO_CANtxBufferInit_def example_lss_tx_def
      example_lssm_memory_def)

theorem lssm_well_formed_witness:
  "\<exists>M' M''. run lssm_step [LM_select 0 (Some [1, 2, 3, 4]), LM_receive 8 [0x44]] example_lssm = Some M' \<and>
     lssm_call (LM_select 1000 (Some [1, 2, 3, 4])) M' = Some (Some CO_LSSmaster_OK, M'') \<and> M_command M'' = 0"
proof -
  let ?es = "[LM_select 0 (Some [1, 2, 3, 4]), LM_receive 8 [0x44]]" and ?e = "LM_select 1000 (Some [1, 2, 3, 4])"
  have e: "Option.bind (run lssm_step ?es example_lssm) (\<lambda>M. map_option fst (lssm_call ?e M)) = Some (Some CO_LSSmaster_OK)"
    by code_simp
  have "length (tx_data example_lss_tx) = 8" by (simp add: example_lss_tx_def)
  from lssm_well_formed [OF example_lssm_init this, of ?es ?e]
  obtain M' r M'' where m: "run lssm_step ?es example_lssm = Some M'" "lssm_call ?e M' = Some (r, M'')"
    "r \<notin> {None, Some CO_LSSmaster_WAIT_SLAVE, Some CO_LSSmaster_INVALID_STATE, Some CO_LSSmaster_ILLEGAL_ARGUMENT} \<longrightarrow> M_command M'' = 0"
    by blast
  have "r = Some CO_LSSmaster_OK" using e m(1,2) by (simp del: run.simps lssm_call.simps)
  then show ?thesis using m by auto
qed

end

