(* ===== verification/LSS_Session.thy ===== *)
theory LSS_Session
  imports LSSmaster
begin

text \<open>
  The LSS master and an LSS slave together: an application calls a function of the master until it has
  a result, and after each call the messages of the master reach the slave, the slave's main loop runs
  and its responses reach the master.
\<close>

section \<open>The loop\<close>

definition lss_round :: "lssm \<Rightarrow> lssm \<Rightarrow> lss \<Rightarrow> (bool \<times> lssm \<times> lss) option" where
  "lss_round M M' S = do {
     let S1 = foldl (\<lambda>S (i, d). CO_LSSslave_receive S (length d) d) S (drop (length (M_sent M)) (M_sent M'));
     (reset, S2) \<leftarrow> CO_LSSslave_process S1;
     Some (reset, foldl (\<lambda>M (i, d). CO_LSSmaster_receive M (length d) d) M' (drop (length (lss_sent S)) (lss_sent S2)), S2)
   }"

text \<open>At most \<open>k\<close> calls; \<open>x\<close> is what the function updates besides the object.\<close>

fun lss_session ::
    "('x \<Rightarrow> lssm \<Rightarrow> (CO_LSSmaster_return \<times> 'x \<times> lssm) option) \<Rightarrow> nat \<Rightarrow> 'x \<Rightarrow> lssm \<Rightarrow> lss \<Rightarrow>
     (CO_LSSmaster_return \<times> 'x \<times> bool \<times> lssm \<times> lss) option" where
  "lss_session call 0 x M S = None"
| "lss_session call (Suc k) x M S = do {
     (ret, x', M') \<leftarrow> call x M;
     (reset, M2, S2) \<leftarrow> lss_round M M' S;
     if ret = CO_LSSmaster_WAIT_SLAVE then lss_session call k x' M2 S2 else Some (ret, x', reset, M2, S2)
   }"

abbreviation fastscan_call ::
    "u32 \<Rightarrow> CO_LSSmaster_fastscan \<Rightarrow> lssm \<Rightarrow> (CO_LSSmaster_return \<times> CO_LSSmaster_fastscan \<times> lssm) option" where
  "fastscan_call dt fs M \<equiv> CO_LSSmaster_IdentifyFastscan M dt fs"

lemma session_wait:
  assumes "call x M = Some (CO_LSSmaster_WAIT_SLAVE, x', M')" "lss_round M M' S = Some (reset, M2, S2)"
  shows "lss_session call (Suc k) x M S = lss_session call k x' M2 S2"
  using assms by simp

lemma session_result:
  assumes "call x M = Some (ret, x', M')" "ret \<noteq> CO_LSSmaster_WAIT_SLAVE" "lss_round M M' S = Some (reset, M2, S2)"
  shows "lss_session call (Suc k) x M S = Some (ret, x', reset, M2, S2)"
  using assms by simp

section \<open>One message of the search\<close>

text \<open>A master with a running search; its transmit buffer has eight bytes.\<close>

definition scanning :: "lssm \<Rightarrow> bool" where
  "scanning M \<longleftrightarrow> length (tx_data (M_TXbuff M)) = 8 \<and> tx_DLC (M_TXbuff M) = 8 \<and> M_state M = 0 \<and> M_command M = 10"

lemma scanning_upd [simp]:
  "scanning (M\<lparr>M_CANrxNew := b\<rparr>) = scanning M" "scanning (M\<lparr>M_CANrxData := d\<rparr>) = scanning M"
  "scanning (M\<lparr>M_timeoutTimer := t\<rparr>) = scanning M" "scanning (M\<lparr>M_fsBitChecked := x\<rparr>) = scanning M"
  "scanning (M\<lparr>M_fsIdNumber := n\<rparr>) = scanning M" "scanning (M\<lparr>M_fsLssSub := x\<rparr>) = scanning M"
  "scanning (M\<lparr>M_fsState := x\<rparr>) = scanning M"
  by (simp_all add: scanning_def)

lemma FsSendMsg_scan [simp]:
  "M_fsBitChecked (CO_LSSmaster_FsSendMsg M v b sub nxt) = M_fsBitChecked M"
  "M_fsIdNumber (CO_LSSmaster_FsSendMsg M v b sub nxt) = M_fsIdNumber M"
  "M_timeoutTimer (CO_LSSmaster_FsSendMsg M v b sub nxt) = 0" "M_CANrxNew (CO_LSSmaster_FsSendMsg M v b sub nxt) = False"
  "M_timeout_us (CO_LSSmaster_FsSendMsg M v b sub nxt) = M_timeout_us M"
  "scanning M \<Longrightarrow> scanning (CO_LSSmaster_FsSendMsg M v bc sub nxt)"
  by (simp_all add: CO_LSSmaster_FsSendMsg_def M_send_def M_put_def scanning_def Let_def)

lemma FsSendMsg_sent:
  assumes "scanning M"
  shows "M_sent (CO_LSSmaster_FsSendMsg M v b sub nxt) =
    M_sent M @ [(tx_ident (M_TXbuff M), CO_LSS_IDENT_FASTSCAN # le_bytes 4 v @ [b, sub, nxt])]"
  using assms by (simp add: CO_LSSmaster_FsSendMsg_def M_send_def M_put_def scanning_def tx_frame_def Let_def)

text \<open>What the slave sends in the search.\<close>

lemma scan_ask_sent:
  assumes "scannable addr p S" "tx_DLC (lss_TXbuff S) = 8"
  shows "case scan_ask v b sub nxt S of (ack, S') \<Rightarrow>
    lss_sent S' = lss_sent S @ (if ack then [(tx_ident (lss_TXbuff S), CO_LSS_IDENT_SLAVE # replicate 7 0)] else []) \<and>
    \<not> sendResponse S' \<and> tx_DLC (lss_TXbuff S') = 8"
  using assms unfolding scannable_def
  by (auto simp: scan_ask_eq lss_fastscan_def lss_ack_def tx_frame_def Let_def)

text \<open>The round of one message: the slave is asked, and its response, if any, is in the master's receive buffer.\<close>

definition fs_answered :: "bool \<Rightarrow> lssm \<Rightarrow> lssm" where
  "fs_answered ack M = (if ack then M\<lparr>M_CANrxData := CO_LSS_IDENT_SLAVE # replicate 7 0, M_CANrxNew := True\<rparr> else M)"

lemma scan_round:
  assumes M: "scanning N" "M_sent N = M_sent M" and S: "scannable addr p S" "tx_DLC (lss_TXbuff S) = 8"
    and ask: "scan_ask v b sub nxt S = (ack, S')"
  shows "lss_round M (CO_LSSmaster_FsSendMsg N v b sub nxt) S =
    Some (False, fs_answered ack (CO_LSSmaster_FsSendMsg N v b sub nxt), S')"
proof -
  let ?M = "CO_LSSmaster_FsSendMsg N v b sub nxt"
  have f: "drop (length (M_sent M)) (M_sent ?M) =
      [(tx_ident (M_TXbuff N), CO_LSS_IDENT_FASTSCAN # le_bytes 4 v @ [b, sub, nxt])]"
    using FsSendMsg_sent [OF M(1), of v b sub nxt] M(2) by simp
  have S': "S' = CO_LSSslave_receive S 8 (CO_LSS_IDENT_FASTSCAN # le_bytes 4 v @ [b, sub, nxt])"
    using ask by (simp add: scan_ask_def Let_def)
  have s: "lss_sent S' = lss_sent S @ (if ack then [(tx_ident (lss_TXbuff S), CO_LSS_IDENT_SLAVE # replicate 7 0)] else [])"
    "\<not> sendResponse S'"
    using scan_ask_sent [OF S, of v b sub nxt] ask by simp_all
  have c: "M_command ?M = 10" using M(1) by (simp add: scanning_def)
  show ?thesis
    using s c by (simp add: lss_round_def f S' [symmetric] CO_LSSslave_process_def fs_answered_def CO_LSSmaster_receive_def)
qed

lemma fs_answered_fields [simp]:
  "M_fsState (fs_answered a M) = M_fsState M" "M_fsLssSub (fs_answered a M) = M_fsLssSub M"
  "M_fsBitChecked (fs_answered a M) = M_fsBitChecked M" "M_fsIdNumber (fs_answered a M) = M_fsIdNumber M"
  "M_timeoutTimer (fs_answered a M) = M_timeoutTimer M" "M_timeout_us (fs_answered a M) = M_timeout_us M"
  "scanning (fs_answered a M) = scanning M" "M_sent (fs_answered a M) = M_sent M"
  "M_state (fs_answered a M) = M_state M"
  "M_CANrxNew (fs_answered a M) = (a \<or> M_CANrxNew M)" "a \<Longrightarrow> M_CANrxData (fs_answered a M) ! 0 = CO_LSS_IDENT_SLAVE"
  by (simp_all add: fs_answered_def)

section \<open>One number of the address\<close>

lemma timeout_now:
  assumes "M_timeoutTimer M = 0" "M_timeout_us M \<le> dt"
  shows "CO_LSSmaster_check_timeout M dt = (CO_LSSmaster_TIMEOUT, M)"
proof -
  have "M\<lparr>M_timeoutTimer := 0\<rparr> = M" using assms(1) by simp
  then show ?thesis using assms by (simp add: CO_LSSmaster_check_timeout_def Let_def)
qed

text \<open>
  The master at part \<open>sub\<close> of the address with its timer reset, in one of the states of the search; the
  slave has the address \<open>addr\<close>.
\<close>

definition fs_at :: "u8 \<Rightarrow> u8 \<Rightarrow> u32 \<Rightarrow> lssm \<Rightarrow> bool" where
  "fs_at st sub dt M \<longleftrightarrow> scanning M \<and> M_fsState M = st \<and> M_fsLssSub M = sub \<and> M_timeoutTimer M = 0 \<and> M_timeout_us M \<le> dt"

definition acked :: "lssm \<Rightarrow> bool \<Rightarrow> bool" where
  "acked M a \<longleftrightarrow> M_CANrxNew M = a \<and> (a \<longrightarrow> M_CANrxData M ! 0 = CO_LSS_IDENT_SLAVE)"

lemma fs_at_send [simp]:
  "fs_at st sub dt (CO_LSSmaster_FsSendMsg N v b sb nxt) \<longleftrightarrow>
     scanning (CO_LSSmaster_FsSendMsg N v b sb nxt) \<and> M_fsState N = st \<and> M_fsLssSub N = sub \<and> M_timeout_us N \<le> dt"
  by (auto simp: fs_at_def)

lemma fs_at_answered [simp]: "fs_at st sub dt (fs_answered a M) = fs_at st sub dt M"
  by (simp add: fs_at_def)

lemma acked_answered [simp]: "\<not> M_CANrxNew M \<Longrightarrow> acked (fs_answered a M) a"
  by (simp add: acked_def)

text \<open>Bit \<open>n\<close> has been asked for.\<close>

definition bit_asked :: "u32 list \<Rightarrow> u8 \<Rightarrow> nat \<Rightarrow> u32 \<Rightarrow> lssm \<Rightarrow> lss \<Rightarrow> bool" where
  "bit_asked addr sub n dt M S \<longleftrightarrow> fs_at 1 sub dt M \<and> M_fsBitChecked M = word_of_nat n \<and>
     M_fsIdNumber M = high (Suc n) (addr ! unat sub) \<and>
     acked M (high n (addr ! unat sub) = high (Suc n) (addr ! unat sub)) \<and>
     scannable addr sub S \<and> tx_DLC (lss_TXbuff S) = 8"

text \<open>The whole number has been asked for, with the part that comes next.\<close>

definition number_asked :: "u32 list \<Rightarrow> u8 \<Rightarrow> u8 \<Rightarrow> u32 \<Rightarrow> lssm \<Rightarrow> lss \<Rightarrow> bool" where
  "number_asked addr sub nxt dt M S \<longleftrightarrow> fs_at 2 sub dt M \<and> M_fsIdNumber M = addr ! unat sub \<and> acked M True \<and>
     (if nxt < sub then lssState S = 1 \<and> \<not> sendResponse S else scannable addr nxt S) \<and> tx_DLC (lss_TXbuff S) = 8"

lemma word_nat_u8: "n < 256 \<Longrightarrow> unat (word_of_nat n :: u8) = n"
  by (simp add: unat_of_nat)

text \<open>What a call finds out about the bit.\<close>

lemma fs_scan_bit:
  assumes b: "bit_asked addr sub n dt M S" "n < 32"
  obtains N where "CO_LSSmaster_FsScanWait M dt CO_LSSmaster_FS_SCAN = fs_next_bit N" "fs_at 1 sub dt N"
    "M_fsBitChecked N = word_of_nat n" "M_fsIdNumber N = high n (addr ! unat sub)" "M_sent N = M_sent M"
proof -
  let ?a = "addr ! unat sub"
  have m: "fs_at 1 sub dt M" "M_fsBitChecked M = word_of_nat n" "M_fsIdNumber M = high (Suc n) ?a"
    "acked M (high n ?a = high (Suc n) ?a)"
    using b(1) by (simp_all add: bit_asked_def)
  have t: "CO_LSSmaster_check_timeout M dt = (CO_LSSmaster_TIMEOUT, M)" using m(1) by (simp add: fs_at_def timeout_now)
  show thesis
  proof (cases "high n ?a = high (Suc n) ?a")
    case True
    show ?thesis
      by (rule that [of "M\<lparr>M_CANrxNew := False\<rparr>"])
        (use m True t in \<open>simp_all add: CO_LSSmaster_FsScanWait_def acked_def fs_at_def Let_def\<close>)
  next
    case False
    then have "bit ?a n" using high_step(4) by blast
    then have h: "high (Suc n) ?a OR push_bit n 1 = high n ?a" by (rule high_step(5) [OF b(2)])
    show ?thesis
      by (rule that [of "M\<lparr>M_fsIdNumber := high n ?a\<rparr>"])
        (use m False t h b(2) in \<open>simp_all add: CO_LSSmaster_FsScanWait_def acked_def fs_at_def Let_def word_nat_u8\<close>)
  qed
qed

lemma fastscan_call_at:
  assumes "fs_at st sub dt M" "fs_valid (fs_scan fs)" "sub \<le> 3" "fs_sized fs"
  shows "st = 1 \<Longrightarrow> fastscan_call dt fs M = do {
      (ret, fs, M) \<leftarrow> fs_scan_step M dt fs;
      Some (ret, fs, if ret \<noteq> CO_LSSmaster_WAIT_SLAVE then M\<lparr>M_command := CO_LSSmaster_COMMAND_WAITING\<rparr> else M) }"
    and "st = 2 \<Longrightarrow> fastscan_call dt fs M = do {
      (ret, fs, M) \<leftarrow> fs_verify M dt fs;
      Some (ret, fs, if ret \<noteq> CO_LSSmaster_WAIT_SLAVE then M\<lparr>M_command := CO_LSSmaster_COMMAND_WAITING\<rparr> else M) }"
  using assms by (simp_all add: CO_LSSmaster_IdentifyFastscan_def fs_at_def scanning_def)

lemma scan_bit_round:
  assumes b: "bit_asked addr sub (Suc n) dt M S" "Suc n < 32" "sub \<le> 3"
    and fs: "fs_valid (fs_scan fs)" "fs_sized fs" "fs_scan fs ! unat sub = CO_LSSmaster_FS_SCAN"
  obtains M2 S2 where "\<And>k. lss_session (fastscan_call dt) (Suc k) fs M S = lss_session (fastscan_call dt) k fs M2 S2"
    "bit_asked addr sub n dt M2 S2"
proof -
  let ?a = "addr ! unat sub"
  obtain N where N: "CO_LSSmaster_FsScanWait M dt CO_LSSmaster_FS_SCAN = fs_next_bit N" "fs_at 1 sub dt N"
    "M_fsBitChecked N = word_of_nat (Suc n)" "M_fsIdNumber N = high (Suc n) ?a" "M_sent N = M_sent M"
    by (rule fs_scan_bit [OF b(1,2)])
  have m: "fs_at 1 sub dt M" "scannable addr sub S" "tx_DLC (lss_TXbuff S) = 8" using b(1) by (simp_all add: bit_asked_def)
  have n0: "(word_of_nat (Suc n) :: u8) \<noteq> 0" "(word_of_nat (Suc n) :: u8) - 1 = word_of_nat n"
    using word_nat_u8 [of "Suc n"] b(2) by auto
  define N' where "N' = N\<lparr>M_fsBitChecked := word_of_nat n\<rparr>"
  define M' where "M' = CO_LSSmaster_FsSendMsg N' (high (Suc n) ?a) (word_of_nat n) sub sub"
  have nb: "fs_next_bit N = (CO_LSSmaster_WAIT_SLAVE, M')"
    using N(2-4) n0 by (simp add: fs_next_bit_def M'_def N'_def fs_at_def Let_def del: of_nat_Suc)
  have sc: "scanning N'" "M_sent N' = M_sent M" using N(2,5) by (simp_all add: N'_def fs_at_def)
  have M': "fs_at 1 sub dt M'" using N(2) sc(1) by (simp add: M'_def) (simp add: N'_def fs_at_def)
  have call: "fastscan_call dt fs M = Some (CO_LSSmaster_WAIT_SLAVE, fs, M')"
    using fs unat_le_3 [OF b(3)] m(1) N(1) nb
    by (simp add: fastscan_call_at(1) [OF m(1) fs(1) b(3) fs(2)] fs_scan_step_def fs_sized_def fs_at_def)
  have nl: "n < 32" using b(2) by simp
  obtain S2 where S2: "scan_ask (high (Suc n) ?a) (word_of_nat n) sub sub S = (high n ?a = high n (high (Suc n) ?a), S2)"
    "scannable addr sub S2"
    using scan_ask_bit [OF m(2) nl b(3) b(3), of "high (Suc n) ?a"] m(2) by (metis less_irrefl)
  have ask: "scan_ask (high (Suc n) ?a) (word_of_nat n) sub sub S = (high n ?a = high (Suc n) ?a, S2)"
    using S2(1) by (simp add: high_step(1))
  note round = scan_round [OF sc m(2,3) ask, folded M'_def]
  have "bit_asked addr sub n dt (fs_answered (high n ?a = high (Suc n) ?a) M') S2"
    using M' S2(2) scan_ask_sent [OF m(2,3), of "high (Suc n) ?a" "word_of_nat n" sub sub] ask N(4)
    unfolding bit_asked_def by (simp add: M'_def N'_def)
  from that [OF session_wait [where call = "fastscan_call dt", OF call round] this] show thesis .
qed

lemma scan_bits_rounds:
  "n < 32 \<Longrightarrow> bit_asked addr sub n dt M S \<Longrightarrow> sub \<le> 3 \<Longrightarrow> fs_valid (fs_scan fs) \<Longrightarrow> fs_sized fs \<Longrightarrow>
   fs_scan fs ! unat sub = CO_LSSmaster_FS_SCAN \<Longrightarrow>
   \<exists>M2 S2. (\<forall>k. lss_session (fastscan_call dt) (n + k) fs M S = lss_session (fastscan_call dt) k fs M2 S2) \<and>
     bit_asked addr sub 0 dt M2 S2"
proof (induction n arbitrary: M S)
  case (Suc n)
  obtain M2 S2 where r: "\<And>k. lss_session (fastscan_call dt) (Suc k) fs M S = lss_session (fastscan_call dt) k fs M2 S2"
    "bit_asked addr sub n dt M2 S2"
    by (rule scan_bit_round [OF Suc.prems(2,1,3-6)]) blast
  from Suc.IH [OF _ r(2) Suc.prems(3-6)] Suc.prems(1) obtain M3 S3 where
    "\<forall>k. lss_session (fastscan_call dt) (n + k) fs M2 S2 = lss_session (fastscan_call dt) k fs M3 S3"
    "bit_asked addr sub 0 dt M3 S3" by auto
  then show ?case unfolding add_Suc r(1) by blast
qed auto

section \<open>From one part to the next\<close>

definition next_part :: "CO_LSSmaster_scantype list \<Rightarrow> u8 \<Rightarrow> u8" where
  "next_part scan sub =
     (case find (\<lambda>i. scan ! i \<noteq> CO_LSSmaster_FS_SKIP) [unat (sub + 1)..<4] of Some i \<Rightarrow> word_of_nat i | None \<Rightarrow> 0)"

lemma FsSearchNext_part: "CO_LSSmaster_FsSearchNext M scan = next_part scan (M_fsLssSub M)"
  by (simp add: CO_LSSmaster_FsSearchNext_def next_part_def)

lemma next_part_cases:
  assumes "sub \<le> 3"
  obtains "next_part scan sub = 0" "\<And>l. unat sub < l \<Longrightarrow> l < 4 \<Longrightarrow> scan ! l = CO_LSSmaster_FS_SKIP"
  | j where "next_part scan sub = word_of_nat j" "unat sub < j" "j < 4" "scan ! j \<noteq> CO_LSSmaster_FS_SKIP"
      "\<And>l. unat sub < l \<Longrightarrow> l < j \<Longrightarrow> scan ! l = CO_LSSmaster_FS_SKIP"
proof -
  have "unat sub \<le> 3" using assms by (simp add: word_le_nat_alt)
  then have u: "unat (sub + 1) = Suc (unat sub)" by (simp add: unat_plus_small)
  show thesis
  proof (cases "find (\<lambda>i. scan ! i \<noteq> CO_LSSmaster_FS_SKIP) [Suc (unat sub)..<4]")
    case None
    then have z: "next_part scan sub = 0" by (simp add: next_part_def u)
    have "scan ! l = CO_LSSmaster_FS_SKIP" if "unat sub < l" "l < 4" for l
      using None that by (auto simp: find_None_iff)
    with z show ?thesis by (rule that(1))
  next
    case (Some j)
    then obtain k where k: "k < length [Suc (unat sub)..<4]" "j = [Suc (unat sub)..<4] ! k" "scan ! j \<noteq> CO_LSSmaster_FS_SKIP"
      "\<forall>m<k. \<not> scan ! ([Suc (unat sub)..<4] ! m) \<noteq> CO_LSSmaster_FS_SKIP"
      by (auto simp: find_Some_iff)
    have j: "j = Suc (unat sub) + k" "j < 4" using k(1,2) by auto
    have s: "scan ! l = CO_LSSmaster_FS_SKIP" if "unat sub < l" "l < j" for l
    proof -
      have "l - Suc (unat sub) < k" "Suc (unat sub) + (l - Suc (unat sub)) = l" using that j(1) by auto
      then show ?thesis using k(4) k(1) by (metis add_less_mono1 length_upt less_trans nth_upt add.commute less_diff_conv)
    qed
    show ?thesis
      by (rule that(2) [of j]) (use Some j k(3) s in \<open>auto simp: next_part_def u\<close>)
  qed
qed

text \<open>The number is known: it is sent to be verified, with the part that comes next.\<close>

lemma verify_round:
  assumes M: "fs_at 1 sub dt M" "CO_LSSmaster_FsScanWait M dt scan = (CO_LSSmaster_SCAN_FINISHED, N)"
      "fs_at 1 sub dt N" "M_sent N = M_sent M"
    and S: "scannable addr sub S" "tx_DLC (lss_TXbuff S) = 8" "sub \<le> 3"
    and fs: "fs_valid (fs_scan fs)" "fs_sized fs" "fs_scan fs ! unat sub = scan" "scan \<noteq> CO_LSSmaster_FS_SKIP"
    and a: "scan = CO_LSSmaster_FS_SCAN \<Longrightarrow> M_fsIdNumber N = addr ! unat sub"
      "scan = CO_LSSmaster_FS_MATCH \<Longrightarrow> fs_match fs ! unat sub = addr ! unat sub"
    and nxt: "next_part (fs_scan fs) sub = nxt" "nxt \<le> 3"
  obtains M2 S2 where "\<And>k. lss_session (fastscan_call dt) (Suc k) fs M S = lss_session (fastscan_call dt) k fs M2 S2"
    "number_asked addr sub nxt dt M2 S2"
proof -
  let ?a = "addr ! unat sub"
  define N' where "N' = N\<lparr>M_fsIdNumber := ?a, M_fsBitChecked := 0\<rparr>"
  define M' where "M' = (CO_LSSmaster_FsSendMsg N' ?a 0 sub nxt)\<lparr>M_fsState := 2\<rparr>"
  have "CO_LSSmaster_FsVerifyInitiate N scan (fs_match fs ! unat sub) nxt =
      (CO_LSSmaster_WAIT_SLAVE, CO_LSSmaster_FsSendMsg N' ?a 0 sub nxt)"
  proof (cases scan)
    case CO_LSSmaster_FS_SCAN
    have "N' = N\<lparr>M_fsBitChecked := 0\<rparr>" unfolding N'_def a(1) [OF CO_LSSmaster_FS_SCAN, symmetric] by simp
    then show ?thesis using CO_LSSmaster_FS_SCAN a(1) M(3)
      by (simp add: CO_LSSmaster_FsVerifyInitiate_def fs_at_def Let_def)
  next
    case CO_LSSmaster_FS_MATCH
    then show ?thesis using a(2) M(3) by (auto simp: CO_LSSmaster_FsVerifyInitiate_def N'_def fs_at_def Let_def)
  qed (use fs(4) in simp)
  then have call: "fastscan_call dt fs M = Some (CO_LSSmaster_WAIT_SLAVE, fs, M')"
    using fs(2,3) unat_le_3 [OF S(3)] M nxt(1)
    by (simp add: fastscan_call_at(1) [OF M(1) fs(1) S(3) fs(2)] fs_scan_step_def fs_sized_def fs_at_def FsSearchNext_part M'_def)
  have M'e: "M' = CO_LSSmaster_FsSendMsg (N'\<lparr>M_fsState := 2\<rparr>) ?a 0 sub nxt"
    by (simp add: M'_def CO_LSSmaster_FsSendMsg_def M_send_def M_put_def Let_def)
  have sc: "scanning (N'\<lparr>M_fsState := 2\<rparr>)" "M_sent (N'\<lparr>M_fsState := 2\<rparr>) = M_sent M"
    using M(3,4) by (simp_all add: N'_def fs_at_def)
  obtain S2 where S2: "scan_ask ?a 0 sub nxt S = (True, S2)"
    "if nxt < sub then lssState S2 = 1 else scannable addr nxt S2"
    using scan_ask_bit [OF S(1) _ S(3) nxt(2), of 0 ?a] by auto
  note sent = scan_ask_sent [OF S(1,2), of ?a 0 sub nxt, unfolded S2(1)]
  note round = scan_round [OF sc S(1,2) S2(1), folded M'e]
  have "fs_at 2 sub dt M'" using M(3) sc unfolding M'e by (simp add: fs_at_def N'_def)
  then have "number_asked addr sub nxt dt (fs_answered True M') S2"
    using S2(2) sent unfolding number_asked_def M'e by (simp add: N'_def)
  from that [OF session_wait [where call = "fastscan_call dt", OF call round] this] show thesis .
qed

text \<open>A part of the address is started.\<close>

definition part_started :: "u32 list \<Rightarrow> u8 \<Rightarrow> CO_LSSmaster_scantype \<Rightarrow> u32 \<Rightarrow> lssm \<Rightarrow> lss \<Rightarrow> bool" where
  "part_started addr sub scan dt M S \<longleftrightarrow>
     (case scan of
        CO_LSSmaster_FS_SCAN \<Rightarrow> bit_asked addr sub 31 dt M S
      | CO_LSSmaster_FS_MATCH \<Rightarrow> fs_at 1 sub dt M \<and> scannable addr sub S \<and> tx_DLC (lss_TXbuff S) = 8
      | CO_LSSmaster_FS_SKIP \<Rightarrow> False)"

lemma initiate_round:
  assumes N: "scanning N" "M_sent N = M_sent M" "M_timeoutTimer N = 0" "M_timeout_us N \<le> dt"
    and S: "scannable addr sub S" "tx_DLC (lss_TXbuff S) = 8" "sub \<le> 3" and scan: "scan \<noteq> CO_LSSmaster_FS_SKIP"
  obtains ret N' M2 S2 where "CO_LSSmaster_FsScanInitiate N scan sub = (ret, N')"
    "ret = CO_LSSmaster_WAIT_SLAVE \<or> ret = CO_LSSmaster_SCAN_FINISHED"
    "lss_round M (N'\<lparr>M_fsState := 1\<rparr>) S = Some (False, M2, S2)" "part_started addr sub scan dt M2 S2"
proof (cases scan)
  case CO_LSSmaster_FS_SCAN
  define N1 where "N1 = N\<lparr>M_fsLssSub := sub, M_fsIdNumber := 0, M_fsBitChecked := 0x1F\<rparr>"
  define M' where "M' = (CO_LSSmaster_FsSendMsg N1 0 0x1F sub sub)\<lparr>M_fsState := 1\<rparr>"
  have i: "CO_LSSmaster_FsScanInitiate N scan sub = (CO_LSSmaster_WAIT_SLAVE, CO_LSSmaster_FsSendMsg N1 0 0x1F sub sub)"
    by (simp add: CO_LSSmaster_FsScanInitiate_def CO_LSSmaster_FS_SCAN N1_def Let_def)
  have M'e: "M' = CO_LSSmaster_FsSendMsg (N1\<lparr>M_fsState := 1\<rparr>) 0 0x1F sub sub"
    by (simp add: M'_def CO_LSSmaster_FsSendMsg_def M_send_def M_put_def Let_def)
  have sc: "scanning (N1\<lparr>M_fsState := 1\<rparr>)" "M_sent (N1\<lparr>M_fsState := 1\<rparr>) = M_sent M" using N by (simp_all add: N1_def)
  let ?a = "addr ! unat sub"
  have w: "word_of_nat 31 = (0x1F :: u8)" by simp
  have h: "high (Suc 31) ?a = 0" "high 31 0 = 0" using high_step(2) [of ?a] by (simp_all add: high_def)
  obtain S2 where S2: "scan_ask 0 0x1F sub sub S = (high 31 ?a = 0, S2)" "scannable addr sub S2"
    using scan_ask_bit [OF S(1) _ S(3) S(3), of 31 0] S(1) unfolding w h by auto
  note sent = scan_ask_sent [OF S(1,2), of 0 "0x1F" sub sub, unfolded S2(1)]
  note round = scan_round [OF sc S(1,2) S2(1), folded M'e]
  have "fs_at 1 sub dt M'" using N sc unfolding M'e by (simp add: N1_def)
  then have "part_started addr sub scan dt (fs_answered (high 31 ?a = 0) M') S2"
    using S2(2) sent unfolding part_started_def CO_LSSmaster_FS_SCAN bit_asked_def h(1) M'e by (simp add: N1_def)
  from that [OF i _ round [unfolded M'_def] this [unfolded M'_def]] show thesis by simp
next
  case CO_LSSmaster_FS_MATCH
  define N1 where "N1 = N\<lparr>M_fsLssSub := sub, M_fsIdNumber := 0\<rparr>"
  have i: "CO_LSSmaster_FsScanInitiate N scan sub = (CO_LSSmaster_SCAN_FINISHED, N1)"
    by (simp add: CO_LSSmaster_FsScanInitiate_def CO_LSSmaster_FS_MATCH N1_def Let_def)
  have "\<not> sendResponse S" using S(1) by (simp add: scannable_def)
  then have round: "lss_round M (N1\<lparr>M_fsState := 1\<rparr>) S = Some (False, N1\<lparr>M_fsState := 1\<rparr>, S)"
    using N(2) by (simp add: lss_round_def N1_def CO_LSSslave_process_def)
  have "part_started addr sub scan dt (N1\<lparr>M_fsState := 1\<rparr>) S"
    using N S by (simp add: part_started_def CO_LSSmaster_FS_MATCH N1_def fs_at_def)
  from that [OF i _ round this] show thesis by simp
qed (use scan in simp)

section \<open>The whole search\<close>

text \<open>The number of calls for a part of the address.\<close>

definition scan_calls :: "CO_LSSmaster_scantype \<Rightarrow> nat" where
  "scan_calls scan =
     (case scan of CO_LSSmaster_FS_SCAN \<Rightarrow> 33 | CO_LSSmaster_FS_MATCH \<Rightarrow> 2 | CO_LSSmaster_FS_SKIP \<Rightarrow> 0)"

lemma part_rounds:
  assumes p: "part_started addr sub (fs_scan fs ! unat sub) dt M S" "sub \<le> 3"
    and fs: "fs_valid (fs_scan fs)" "fs_sized fs"
    and a: "fs_scan fs ! unat sub = CO_LSSmaster_FS_MATCH \<Longrightarrow> fs_match fs ! unat sub = addr ! unat sub"
    and nxt: "next_part (fs_scan fs) sub = nxt" "nxt \<le> 3"
  obtains M2 S2 where "\<And>k. lss_session (fastscan_call dt) (scan_calls (fs_scan fs ! unat sub) + k) fs M S =
      lss_session (fastscan_call dt) (Suc k) fs M2 S2"
    "number_asked addr sub nxt dt M2 S2"
proof (cases "fs_scan fs ! unat sub")
  case CO_LSSmaster_FS_SCAN
  obtain M1 S1 where r: "\<And>k. lss_session (fastscan_call dt) (31 + k) fs M S = lss_session (fastscan_call dt) k fs M1 S1"
    "bit_asked addr sub 0 dt M1 S1"
    using scan_bits_rounds [of 31 addr sub dt M S fs] p fs CO_LSSmaster_FS_SCAN by (auto simp: part_started_def)
  obtain N where N: "CO_LSSmaster_FsScanWait M1 dt CO_LSSmaster_FS_SCAN = fs_next_bit N" "fs_at 1 sub dt N"
    "M_fsBitChecked N = word_of_nat 0" "M_fsIdNumber N = high 0 (addr ! unat sub)" "M_sent N = M_sent M1"
    by (rule fs_scan_bit [OF r(2)]) simp
  have m: "fs_at 1 sub dt M1" "scannable addr sub S1" "tx_DLC (lss_TXbuff S1) = 8" using r(2) by (simp_all add: bit_asked_def)
  have f: "CO_LSSmaster_FsScanWait M1 dt CO_LSSmaster_FS_SCAN = (CO_LSSmaster_SCAN_FINISHED, N)"
    using N(1,3) by (simp add: fs_next_bit_def)
  obtain M2 S2 where v: "\<And>k. lss_session (fastscan_call dt) (Suc k) fs M1 S1 = lss_session (fastscan_call dt) k fs M2 S2"
    "number_asked addr sub nxt dt M2 S2"
    by (rule verify_round [OF m(1) f N(2,5) m(2,3) p(2) fs CO_LSSmaster_FS_SCAN _ _ _ nxt])
      (use N(4) in \<open>simp_all add: high_step(3)\<close>)
  have "lss_session (fastscan_call dt) (scan_calls (fs_scan fs ! unat sub) + k) fs M S =
      lss_session (fastscan_call dt) (Suc k) fs M2 S2" for k
    using r(1) [of "Suc (Suc k)"] v(1) [of "Suc k"] by (simp add: scan_calls_def CO_LSSmaster_FS_SCAN del: lss_session.simps)
  from that [OF this v(2)] show thesis .
next
  case CO_LSSmaster_FS_MATCH
  have m: "fs_at 1 sub dt M" "scannable addr sub S" "tx_DLC (lss_TXbuff S) = 8"
    using p(1) CO_LSSmaster_FS_MATCH by (simp_all add: part_started_def)
  have f: "CO_LSSmaster_FsScanWait M dt CO_LSSmaster_FS_MATCH = (CO_LSSmaster_SCAN_FINISHED, M)"
    by (simp add: CO_LSSmaster_FsScanWait_def)
  obtain M2 S2 where v: "\<And>k. lss_session (fastscan_call dt) (Suc k) fs M S = lss_session (fastscan_call dt) k fs M2 S2"
    "number_asked addr sub nxt dt M2 S2"
    by (rule verify_round [OF m(1) f m(1) refl m(2,3) p(2) fs CO_LSSmaster_FS_MATCH _ _ _ nxt])
      (use a CO_LSSmaster_FS_MATCH in simp_all)
  have "lss_session (fastscan_call dt) (scan_calls (fs_scan fs ! unat sub) + k) fs M S =
      lss_session (fastscan_call dt) (Suc k) fs M2 S2" for k
    using v(1) [of "Suc k"] by (simp add: scan_calls_def CO_LSSmaster_FS_MATCH del: lss_session.simps)
  from that [OF this v(2)] show thesis .
qed (use p(1) in \<open>simp add: part_started_def\<close>)

definition fs_store :: "nat \<Rightarrow> u32 \<Rightarrow> CO_LSSmaster_fastscan \<Rightarrow> CO_LSSmaster_fastscan" where
  "fs_store i v fs = fs\<lparr>fs_found := (fs_found fs)[i := v]\<rparr>"

lemma fs_store_simps [simp]:
  "fs_scan (fs_store i v fs) = fs_scan fs" "fs_match (fs_store i v fs) = fs_match fs"
  "fs_sized (fs_store i v fs) = fs_sized fs" "fs_found (fs_store i v fs) = (fs_found fs)[i := v]"
  by (simp_all add: fs_store_def fs_sized_def)

lemma verify_wait:
  assumes n: "number_asked addr sub nxt dt M S" "scan \<noteq> CO_LSSmaster_FS_SKIP"
  shows "CO_LSSmaster_FsVerifyWait M dt scan v = (CO_LSSmaster_SCAN_FINISHED, addr ! unat sub, M\<lparr>M_CANrxNew := False\<rparr>)"
  using n by (simp add: CO_LSSmaster_FsVerifyWait_def number_asked_def acked_def fs_at_def timeout_now)

lemma last_part:
  assumes n: "number_asked addr sub 0 dt M S" "sub \<le> 3" "sub \<noteq> 0" "next_part (fs_scan fs) sub = 0"
    and fs: "fs_valid (fs_scan fs)" "fs_sized fs" "fs_scan fs ! unat sub \<noteq> CO_LSSmaster_FS_SKIP"
  shows "\<exists>M2. lss_session (fastscan_call dt) (Suc k) fs M S =
      Some (CO_LSSmaster_SCAN_FINISHED, fs_store (unat sub) (addr ! unat sub) fs, False, M2, S) \<and>
    M_state M2 = CO_LSSmaster_STATE_CFG_SLECTIVE \<and> M_command M2 = CO_LSSmaster_COMMAND_WAITING \<and>
    lssState S = CO_LSS_STATE_CONFIGURATION"
proof -
  have m: "fs_at 2 sub dt M" "lssState S = 1" "\<not> sendResponse S"
    using n(1,3) by (auto simp: number_asked_def word_neq_0_conv)
  let ?M = "M\<lparr>M_CANrxNew := False, M_state := 1, M_command := 0\<rparr>"
  have call: "fastscan_call dt fs M = Some (CO_LSSmaster_SCAN_FINISHED, fs_store (unat sub) (addr ! unat sub) fs, ?M)"
    using fs(2) unat_le_3 [OF n(2)] m(1) n(4) verify_wait [OF n(1) fs(3)]
    by (simp add: fastscan_call_at(2) [OF m(1) fs(1) n(2) fs(2)] fs_verify_def fs_sized_def fs_at_def FsSearchNext_part fs_store_def)
  have round: "lss_round M ?M S = Some (False, ?M, S)"
    using m(3) by (simp add: lss_round_def CO_LSSslave_process_def)
  show ?thesis using session_result [where call = "fastscan_call dt", OF call _ round] m(2) by simp
qed

lemma next_part_started:
  assumes n: "number_asked addr sub nxt dt M S" "sub \<le> 3" "next_part (fs_scan fs) sub = nxt" "sub < nxt" "nxt \<le> 3"
    and fs: "fs_valid (fs_scan fs)" "fs_sized fs" "fs_scan fs ! unat sub \<noteq> CO_LSSmaster_FS_SKIP"
      "fs_scan fs ! unat nxt \<noteq> CO_LSSmaster_FS_SKIP"
  obtains M2 S2 where "\<And>k. lss_session (fastscan_call dt) (Suc k) fs M S =
      lss_session (fastscan_call dt) k (fs_store (unat sub) (addr ! unat sub) fs) M2 S2"
    "part_started addr nxt (fs_scan fs ! unat nxt) dt M2 S2"
proof -
  have m: "fs_at 2 sub dt M" "scannable addr nxt S" "tx_DLC (lss_TXbuff S) = 8"
    using n(1,4) by (auto simp: number_asked_def)
  let ?N = "M\<lparr>M_CANrxNew := False\<rparr>"
  obtain ret N' M2 S2 where i: "CO_LSSmaster_FsScanInitiate ?N (fs_scan fs ! unat nxt) nxt = (ret, N')"
    "ret = CO_LSSmaster_WAIT_SLAVE \<or> ret = CO_LSSmaster_SCAN_FINISHED"
    "lss_round M (N'\<lparr>M_fsState := 1\<rparr>) S = Some (False, M2, S2)" "part_started addr nxt (fs_scan fs ! unat nxt) dt M2 S2"
    by (rule initiate_round [of ?N M dt addr nxt S "fs_scan fs ! unat nxt"]) (use m n(5) fs(4) in \<open>simp_all add: fs_at_def\<close>)
  have nz: "nxt \<noteq> 0" using n(4) by auto
  have call: "fastscan_call dt fs M =
      Some (CO_LSSmaster_WAIT_SLAVE, fs_store (unat sub) (addr ! unat sub) fs, N'\<lparr>M_fsState := 1\<rparr>)"
    using fs(2) unat_le_3 [OF n(2)] unat_le_3 [OF n(5)] m(1) n(3) nz i(1,2) verify_wait [OF n(1) fs(3)]
    by (auto simp: fastscan_call_at(2) [OF m(1) fs(1) n(2) fs(2)] fs_verify_def fs_sized_def fs_at_def FsSearchNext_part fs_store_def)
  from that [OF session_wait [where call = "fastscan_call dt", OF call i(3)] i(4)] show thesis .
qed


lemma sum_scan_calls:
  assumes "i < j" "j \<le> 4" "\<And>l. i < l \<Longrightarrow> l < j \<Longrightarrow> scan ! l = CO_LSSmaster_FS_SKIP"
  shows "(\<Sum>l = i..<4. scan_calls (scan ! l)) = scan_calls (scan ! i) + (\<Sum>l = j..<4. scan_calls (scan ! l))"
proof -
  have "(\<Sum>l = Suc i..<j. scan_calls (scan ! l)) = 0" using assms(3) by (simp add: scan_calls_def)
  then have "(\<Sum>l = i..<j. scan_calls (scan ! l)) = scan_calls (scan ! i)"
    using assms(1) by (simp add: sum.atLeast_Suc_lessThan)
  then show ?thesis
    using sum.atLeastLessThan_concat [of i j 4 "\<lambda>l. scan_calls (scan ! l)"] assms(1,2) by simp
qed

text \<open>Two of the four parts at most are skipped: the search has a part after the first.\<close>

lemma fs_valid_second:
  assumes "fs_valid scan" "length scan = 4"
  shows "\<exists>l. 0 < l \<and> l < 4 \<and> scan ! l \<noteq> CO_LSSmaster_FS_SKIP"
proof -
  obtain a b c d where s: "scan = [a, b, c, d]" using assms(2) by (auto simp: length_Suc_conv numeral_eq_Suc)
  have "b \<noteq> CO_LSSmaster_FS_SKIP \<or> c \<noteq> CO_LSSmaster_FS_SKIP \<or> d \<noteq> CO_LSSmaster_FS_SKIP"
    using assms(1) by (auto simp: fs_valid_def s)
  then show ?thesis
    by (elim disjE) (rule exI [of _ 1] exI [of _ 2] exI [of _ 3], simp add: s numeral_eq_Suc)+
qed

text \<open>What the search writes to the result from part \<open>i\<close> on.\<close>

definition fs_result_from :: "u32 list \<Rightarrow> CO_LSSmaster_scantype list \<Rightarrow> nat \<Rightarrow> u32 list \<Rightarrow> u32 list" where
  "fs_result_from addr scan i found =
     map (\<lambda>l. if i \<le> l \<and> scan ! l \<noteq> CO_LSSmaster_FS_SKIP then addr ! l else found ! l) [0..<4]"

lemma fs_result_from_store:
  assumes "length found = 4" "i < j" "scan ! i \<noteq> CO_LSSmaster_FS_SKIP"
    "\<And>l. i < l \<Longrightarrow> l < j \<Longrightarrow> l < 4 \<Longrightarrow> scan ! l = CO_LSSmaster_FS_SKIP"
  shows "fs_result_from addr scan j (found[i := addr ! i]) = fs_result_from addr scan i found"
proof -
  have "(if j \<le> l \<and> scan ! l \<noteq> CO_LSSmaster_FS_SKIP then addr ! l else found[i := addr ! i] ! l) =
      (if i \<le> l \<and> scan ! l \<noteq> CO_LSSmaster_FS_SKIP then addr ! l else found ! l)" if "l < 4" for l
    using assms(1,2,3) assms(4) [of l] that by (cases "l = i") auto
  then show ?thesis by (auto simp: fs_result_from_def)
qed

lemma fs_result_from_end: "length found = 4 \<Longrightarrow> fs_result_from addr scan 4 found = found"
  by (auto simp: fs_result_from_def intro!: nth_equalityI)

definition fs_done :: "(CO_LSSmaster_return \<times> CO_LSSmaster_fastscan \<times> bool \<times> lssm \<times> lss) option \<Rightarrow> u32 list \<Rightarrow> bool" where
  "fs_done r found \<longleftrightarrow>
     (\<exists>fs M S. r = Some (CO_LSSmaster_SCAN_FINISHED, fs, False, M, S) \<and> fs_found fs = found \<and>
        M_state M = CO_LSSmaster_STATE_CFG_SLECTIVE \<and> M_command M = CO_LSSmaster_COMMAND_WAITING \<and>
        lssState S = CO_LSS_STATE_CONFIGURATION)"

lemma parts_rounds:
  assumes "part_started addr (word_of_nat i) (fs_scan fs ! i) dt M S" "i < 4"
    and "fs_valid (fs_scan fs)" "fs_sized fs"
    and "\<And>l. l < 4 \<Longrightarrow> fs_scan fs ! l = CO_LSSmaster_FS_MATCH \<Longrightarrow> fs_match fs ! l = addr ! l"
  shows "fs_done (lss_session (fastscan_call dt) (\<Sum>l = i..<4. scan_calls (fs_scan fs ! l)) fs M S)
    (fs_result_from addr (fs_scan fs) i (fs_found fs))"
  using assms
proof (induction "4 - i" arbitrary: i M S fs rule: less_induct)
  case less
  note p = less.prems
  let ?sub = "word_of_nat i :: u8"
  have u: "unat ?sub = i" "?sub \<le> 3" using p(2) by (simp_all add: word_nat_u8 word_le_nat_alt)
  have len: "length (fs_found fs) = 4" "length (fs_scan fs) = 4" using p(4) by (simp_all add: fs_sized_def)
  have ns: "fs_scan fs ! i \<noteq> CO_LSSmaster_FS_SKIP" using p(1) by (auto simp: part_started_def)
  have st: "part_started addr ?sub (fs_scan fs ! unat ?sub) dt M S" using p(1) u(1) by simp
  have m: "fs_scan fs ! unat ?sub = CO_LSSmaster_FS_MATCH \<Longrightarrow> fs_match fs ! unat ?sub = addr ! unat ?sub"
    using p(5) [OF p(2)] u(1) by simp
  show ?case
  proof (rule next_part_cases [OF u(2), of "fs_scan fs"])
    assume n: "next_part (fs_scan fs) ?sub = 0"
      and sk: "\<And>l. unat ?sub < l \<Longrightarrow> l < 4 \<Longrightarrow> fs_scan fs ! l = CO_LSSmaster_FS_SKIP"
    obtain M1 S1 where r: "\<And>k. lss_session (fastscan_call dt) (scan_calls (fs_scan fs ! unat ?sub) + k) fs M S =
        lss_session (fastscan_call dt) (Suc k) fs M1 S1" "number_asked addr ?sub 0 dt M1 S1"
      by (rule part_rounds [OF st u(2) p(3,4) m n]) simp_all
    have "i \<noteq> 0" using fs_valid_second [OF p(3) len(2)] sk unfolding u(1) by (cases "i = 0") auto
    then have nz: "?sub \<noteq> 0" using u(1) by auto
    have ns': "fs_scan fs ! unat ?sub \<noteq> CO_LSSmaster_FS_SKIP" using ns u(1) by simp
    from last_part [OF r(2) u(2) nz n p(3,4) ns', of 0]
    obtain M2 where l: "lss_session (fastscan_call dt) (Suc 0) fs M1 S1 =
        Some (CO_LSSmaster_SCAN_FINISHED, fs_store i (addr ! i) fs, False, M2, S1)"
      "M_state M2 = 1" "M_command M2 = 0" "lssState S1 = 1" unfolding u(1) by blast
    have s: "(\<Sum>l = i..<4. scan_calls (fs_scan fs ! l)) = scan_calls (fs_scan fs ! i)"
      using sum_scan_calls [of i 4 "fs_scan fs"] p(2) sk u(1) by simp
    have f: "fs_result_from addr (fs_scan fs) i (fs_found fs) = (fs_found fs)[i := addr ! i]"
      using fs_result_from_store [of "fs_found fs" i 4 "fs_scan fs" addr] len(1) p(2) ns sk u(1)
      by (simp add: fs_result_from_end)
    show ?case unfolding s f fs_done_def using r(1) [of 0] l u(1) by simp
  next
    fix j
    assume n: "next_part (fs_scan fs) ?sub = word_of_nat j" and j: "unat ?sub < j" "j < 4" "fs_scan fs ! j \<noteq> CO_LSSmaster_FS_SKIP"
      and sk: "\<And>l. unat ?sub < l \<Longrightarrow> l < j \<Longrightarrow> fs_scan fs ! l = CO_LSSmaster_FS_SKIP"
    have uj: "unat (word_of_nat j :: u8) = j" "(word_of_nat j :: u8) \<le> 3" "?sub < word_of_nat j"
      using j(1,2) u(1) by (simp_all add: word_nat_u8 word_le_nat_alt word_less_nat_alt)
    obtain M1 S1 where r: "\<And>k. lss_session (fastscan_call dt) (scan_calls (fs_scan fs ! unat ?sub) + k) fs M S =
        lss_session (fastscan_call dt) (Suc k) fs M1 S1" "number_asked addr ?sub (word_of_nat j) dt M1 S1"
      by (rule part_rounds [OF st u(2) p(3,4) m n uj(2)]) blast+
    have ns': "fs_scan fs ! unat ?sub \<noteq> CO_LSSmaster_FS_SKIP" "fs_scan fs ! unat (word_of_nat j :: u8) \<noteq> CO_LSSmaster_FS_SKIP"
      using ns u(1) j(3) uj(1) by simp_all
    let ?fs = "fs_store i (addr ! i) fs"
    obtain M2 S2 where q: "\<And>k. lss_session (fastscan_call dt) (Suc k) fs M1 S1 = lss_session (fastscan_call dt) k ?fs M2 S2"
      "part_started addr (word_of_nat j) (fs_scan fs ! j) dt M2 S2"
      by (rule next_part_started [OF r(2) u(2) n uj(3,2) p(3,4) ns']) (simp only: u(1) uj(1))
    have "fs_done (lss_session (fastscan_call dt) (\<Sum>l = j..<4. scan_calls (fs_scan ?fs ! l)) ?fs M2 S2)
        (fs_result_from addr (fs_scan ?fs) j (fs_found ?fs))"
      by (rule less.hyps) (use p(2-5) j(1,2) u(1) q(2) in simp_all)
    moreover have "(\<Sum>l = i..<4. scan_calls (fs_scan fs ! l)) = scan_calls (fs_scan fs ! i) + (\<Sum>l = j..<4. scan_calls (fs_scan fs ! l))"
      using sum_scan_calls [of i j "fs_scan fs"] j(1,2) sk u(1) by simp
    moreover have "fs_result_from addr (fs_scan fs) j ((fs_found fs)[i := addr ! i]) = fs_result_from addr (fs_scan fs) i (fs_found fs)"
      using fs_result_from_store [of "fs_found fs" i j "fs_scan fs" addr] len(1) j(1) ns sk u(1) by simp
    ultimately show ?case using r(1) q(1) u(1) by simp
  qed
qed


text \<open>The first call asks whether there is a slave, the second takes the answer and starts the search.\<close>

lemma search_asked:
  assumes M: "M_state M = 0" "M_command M = 0" "tx_DLC (M_TXbuff M) = 8" "length (tx_data (M_TXbuff M)) = 8" "M_timeout_us M \<le> dt"
    and S: "lssState S = 0" "\<not> sendResponse S" "pendingNodeID S = 0xFF" "activeNodeID S = 0xFF" "tx_DLC (lss_TXbuff S) = 8"
    and fs: "fs_valid (fs_scan fs)"
  obtains M2 S2 where "\<And>k. lss_session (fastscan_call dt) (Suc k) fs M S = lss_session (fastscan_call dt) k fs M2 S2"
    "fs_at 0 (M_fsLssSub M) dt M2" "acked M2 True" "scannable (lssAddress S) 0 S2" "tx_DLC (lss_TXbuff S2) = 8"
proof -
  let ?N = "M\<lparr>M_command := 10, M_fsState := 0\<rparr>"
  define M' where "M' = CO_LSSmaster_FsSendMsg ?N 0 0x80 0 0"
  have sc: "scanning ?N" "M_sent ?N = M_sent M" using M by (simp_all add: scanning_def)
  have p: "scannable (lssAddress S) (fastscanPos S) S" using S by (simp add: scannable_def)
  obtain S2 where S2: "scan_ask 0 0x80 0 0 S = (True, S2)" "scannable (lssAddress S) 0 S2"
    using S unfolding scan_ask_eq [OF S(1,2)]
    by (simp add: lss_fastscan_def CO_LSS_FASTSCAN_BITCHECK_VALID_def lss_ack_def scannable_def Let_def)
  have call: "fastscan_call dt fs M = Some (CO_LSSmaster_WAIT_SLAVE, fs, M')"
    using M fs by (simp add: CO_LSSmaster_IdentifyFastscan_def M'_def)
  note round = scan_round [OF sc p S(5) S2(1), folded M'_def]
  have a: "fs_at 0 (M_fsLssSub M) dt (fs_answered True M')" "acked (fs_answered True M') True"
    using M(5) sc(1) by (simp_all add: M'_def)
  have "tx_DLC (lss_TXbuff S2) = 8" using scan_ask_sent [OF p S(5), of 0 "0x80" 0 0] S2(1) by simp
  from that [OF session_wait [where call = "fastscan_call dt", OF call round] a S2(2) this] show thesis .
qed

lemma search_started:
  assumes M: "fs_at 0 sub dt M" "acked M True" and S: "scannable addr 0 S" "tx_DLC (lss_TXbuff S) = 8"
    and fs: "fs_valid (fs_scan fs)" "fs_sized fs"
  obtains M2 S2 where "\<And>k. lss_session (fastscan_call dt) (Suc k) fs M S =
      lss_session (fastscan_call dt) k (fs\<lparr>fs_found := [0, 0, 0, 0]\<rparr>) M2 S2"
    "part_started addr 0 (fs_scan fs ! 0) dt M2 S2"
proof -
  let ?N = "M\<lparr>M_CANrxNew := False\<rparr>"
  have ns: "fs_scan fs ! 0 \<noteq> CO_LSSmaster_FS_SKIP" using fs(1) by (simp add: fs_valid_def)
  obtain ret N' M2 S2 where i: "CO_LSSmaster_FsScanInitiate ?N (fs_scan fs ! 0) 0 = (ret, N')"
    "lss_round M (N'\<lparr>M_fsState := 1\<rparr>) S = Some (False, M2, S2)" "part_started addr 0 (fs_scan fs ! 0) dt M2 S2"
    by (rule initiate_round [of ?N M dt addr 0 S "fs_scan fs ! 0"]) (use M S ns in \<open>simp_all add: fs_at_def\<close>)
  have w: "CO_LSSmaster_FsCheckWait M dt = (CO_LSSmaster_SCAN_FINISHED, ?N)"
    using M by (simp add: CO_LSSmaster_FsCheckWait_def acked_def fs_at_def timeout_now)
  have call: "fastscan_call dt fs M =
      Some (CO_LSSmaster_WAIT_SLAVE, fs\<lparr>fs_found := [0, 0, 0, 0]\<rparr>, N'\<lparr>M_fsState := 1\<rparr>)"
    using M(1) fs w i(1)
    by (simp add: CO_LSSmaster_IdentifyFastscan_def fs_at_def scanning_def fs_check_def fs_sized_def)
  from that [OF session_wait [where call = "fastscan_call dt", OF call i(2)] i(3)] show thesis .
qed

text \<open>
  C8: The search of the master selects the slave. The calls of the master with a slave that has no node
  identifier on the bus: the search ends after exactly the calls that its scan types need, with the
  numbers of the slave's address in the result (0 for a skipped one), the master in the selective state
  and free for the next command, and the slave in the configuration state.
\<close>

theorem lss_fastscan_selects:
  assumes "M_state M = CO_LSSmaster_STATE_WAITING" "M_command M = CO_LSSmaster_COMMAND_WAITING"
    and "tx_DLC (M_TXbuff M) = 8" "length (tx_data (M_TXbuff M)) = 8" "M_timeout_us M \<le> dt"
    and "lssState S = CO_LSS_STATE_WAITING" "\<not> sendResponse S" "pendingNodeID S = 0xFF" "activeNodeID S = 0xFF"
    and "tx_DLC (lss_TXbuff S) = 8"
    and "fs_valid (fs_scan fs)" "fs_sized fs"
    and "\<And>l. l < 4 \<Longrightarrow> fs_scan fs ! l = CO_LSSmaster_FS_MATCH \<Longrightarrow> fs_match fs ! l = lssAddress S ! l"
  shows "\<exists>fs' M' S'. lss_session (\<lambda>fs M. CO_LSSmaster_IdentifyFastscan M dt fs)
      (2 + (\<Sum>l = 0..<4. scan_calls (fs_scan fs ! l))) fs M S = Some (CO_LSSmaster_SCAN_FINISHED, fs', False, M', S') \<and>
    fs_found fs' = map (\<lambda>l. if fs_scan fs ! l = CO_LSSmaster_FS_SKIP then 0 else lssAddress S ! l) [0..<4] \<and>
    M_state M' = CO_LSSmaster_STATE_CFG_SLECTIVE \<and> M_command M' = CO_LSSmaster_COMMAND_WAITING \<and>
    lssState S' = CO_LSS_STATE_CONFIGURATION"
proof -
  let ?fs = "fs\<lparr>fs_found := [0, 0, 0, 0]\<rparr>"
  obtain M1 S1 where a: "\<And>k. lss_session (fastscan_call dt) (Suc k) fs M S = lss_session (fastscan_call dt) k fs M1 S1"
    "fs_at 0 (M_fsLssSub M) dt M1" "acked M1 True" "scannable (lssAddress S) 0 S1" "tx_DLC (lss_TXbuff S1) = 8"
    by (rule search_asked [OF assms(1-11)]) blast
  obtain M2 S2 where b: "\<And>k. lss_session (fastscan_call dt) (Suc k) fs M1 S1 = lss_session (fastscan_call dt) k ?fs M2 S2"
    "part_started (lssAddress S) 0 (fs_scan fs ! 0) dt M2 S2"
    by (rule search_started [OF a(2-5) assms(11,12)]) blast
  have p: "fs_done (lss_session (fastscan_call dt) (\<Sum>l = 0..<4. scan_calls (fs_scan ?fs ! l)) ?fs M2 S2)
      (fs_result_from (lssAddress S) (fs_scan ?fs) 0 (fs_found ?fs))"
    by (rule parts_rounds) (use b(2) assms(11-13) in \<open>simp_all add: fs_sized_def\<close>)
  have "fs_result_from (lssAddress S) (fs_scan fs) 0 [0, 0, 0, 0] =
      map (\<lambda>l. if fs_scan fs ! l = CO_LSSmaster_FS_SKIP then 0 else lssAddress S ! l) [0..<4]"
    by (simp add: fs_result_from_def upt_conv_Cons)
  then show ?thesis using p a(1) b(1) unfolding fs_done_def by (auto simp: numeral_2_eq_2 simp del: lss_session.simps)
qed

definition example_fs :: CO_LSSmaster_fastscan where
  "example_fs = \<lparr>fs_scan = [CO_LSSmaster_FS_SCAN, CO_LSSmaster_FS_MATCH, CO_LSSmaster_FS_SKIP, CO_LSSmaster_FS_SCAN],
     fs_match = [0, 0x22, 0, 0], fs_found = [0, 0, 0, 0]\<rparr>"

theorem lss_fastscan_selects_witness:
  "\<exists>fs' M' S'. lss_session (\<lambda>fs M. CO_LSSmaster_IdentifyFastscan M 50000 fs) 70 example_fs example_lssm example_lss =
      Some (CO_LSSmaster_SCAN_FINISHED, fs', False, M', S') \<and> fs_found fs' = [0x11, 0x22, 0, 0xFFFFFFFF] \<and>
    lssState S' = CO_LSS_STATE_CONFIGURATION"
proof -
  have f: "fs_valid (fs_scan example_fs)" "fs_sized example_fs"
    by (simp_all add: example_fs_def fs_valid_def fs_sized_def)
  have m: "fs_match example_fs ! l = lssAddress example_lss ! l" if "l < 4" "fs_scan example_fs ! l = CO_LSSmaster_FS_MATCH" for l
    using that by (auto simp: example_fs_def example_lss_def less_Suc_eq numeral_eq_Suc)
  have "2 + (\<Sum>l = 0..<4. scan_calls (fs_scan example_fs ! l)) = 70"
    by (simp add: example_fs_def scan_calls_def numeral_eq_Suc)
  moreover have "map (\<lambda>l. if fs_scan example_fs ! l = CO_LSSmaster_FS_SKIP then 0 else lssAddress example_lss ! l) [0..<4] =
      [0x11, 0x22, 0, 0xFFFFFFFF]"
    by (simp add: example_fs_def example_lss_def upt_conv_Cons)
  ultimately show ?thesis
    using lss_fastscan_selects [of example_lssm 50000 example_lss example_fs] f m
    by (auto simp: example_lssm_fields example_lss_facts)
qed

end
