(* ===== verification/LSS_Commission.thy ===== *)
theory LSS_Commission
  imports LSS_Session
begin

text \<open>
  The commissioning of a slave: the master selects it by its LSS address, assigns a node identifier and
  leaves the configuration state, all through the calls of the application and the messages between the
  two objects.
\<close>

section \<open>Selection\<close>

definition lss_calls :: "(lssm \<Rightarrow> lssm_result) \<Rightarrow> unit \<Rightarrow> lssm \<Rightarrow> (CO_LSSmaster_return \<times> unit \<times> lssm) option" where
  "lss_calls f x M = (let (ret, M') = f M in Some (ret, (), M'))"

text \<open>A message of the selective switch; its sixth byte is left over from an earlier message.\<close>

definition sel_frame :: "u8 \<Rightarrow> u8 \<Rightarrow> u32 \<Rightarrow> u8 list" where
  "sel_frame x cs v = cs # le_bytes 4 v @ [x, 0, 0]"

lemma sel_frame_length [simp]: "length (sel_frame x cs v) = 8"
  by (simp add: sel_frame_def)

lemma receive_sel_frame:
  "lssState S = 0 \<Longrightarrow> \<not> sendResponse S \<Longrightarrow> cs \<in> {0x40, 0x41, 0x42, 0x43} \<Longrightarrow>
   CO_LSSslave_receive S 8 (sel_frame x cs v) = (let (S, req) = lss_select S cs v in if req then S\<lparr>sendResponse := True\<rparr> else S)"
  by (auto simp: sel_frame_def CO_LSSslave_receive_def lss_receive_service_def le_word_le_bytes32)

text \<open>The four messages of the master.\<close>

lemma select_sent:
  assumes "tx_DLC (M_TXbuff M) = 8" "length (tx_data (M_TXbuff M)) = 8" "M_state M = 0" "M_command M = 0"
  obtains M' x where "CO_LSSmaster_swStateSelect M dt (Some addr) = (CO_LSSmaster_WAIT_SLAVE, M')"
    "M_sent M' = M_sent M @ map (\<lambda>(cs, v). (tx_ident (M_TXbuff M), sel_frame x cs v))
       [(0x40, addr ! 0), (0x41, addr ! 1), (0x42, addr ! 2), (0x43, addr ! 3)]"
    "M_state M' = 1" "M_command M' = 1" "M_timeoutTimer M' = 0" "M_timeout_us M' = M_timeout_us M" "\<not> M_CANrxNew M'"
    "tx_DLC (M_TXbuff M') = 8" "length (tx_data (M_TXbuff M')) = 8"
proof -
  obtain d0 d1 d2 d3 d4 d5 d6 d7 where d: "tx_data (M_TXbuff M) = [d0, d1, d2, d3, d4, d5, d6, d7]"
    using assms(2) by (auto simp: length_Suc_conv numeral_eq_Suc)
  show thesis
    by (rule that [of "snd (CO_LSSmaster_swStateSelect M dt (Some addr))" d5])
      (use assms d in \<open>simp_all add: CO_LSSmaster_swStateSelect_def CO_LSSmaster_switchStateSelectInitiate_def M_finished_def
        M_put_def M_send_def tx_frame_def sel_frame_def Let_def\<close>)
qed


text \<open>The slave that gets them confirms exactly its own address.\<close>

lemma select_received:
  assumes "lssState S = 0" "\<not> sendResponse S" "length (lssAddress S) = 4" "length (lssSelect S) = 4" "length addr = 4"
    and "S' = foldl (\<lambda>S d. CO_LSSslave_receive S 8 d) S
      (map (\<lambda>(cs, v). sel_frame x cs v) [(0x40, addr ! 0), (0x41, addr ! 1), (0x42, addr ! 2), (0x43, addr ! 3)])"
  shows "S' = (if addr = lssAddress S
    then S\<lparr>lssSelect := addr, lssState := 1, lss_service := 0x43, sendResponse := True\<rparr> else S\<lparr>lssSelect := addr\<rparr>)"
proof -
  obtain s0 s1 s2 s3 where sel: "lssSelect S = [s0, s1, s2, s3]"
    using assms(4) by (auto simp: length_Suc_conv numeral_eq_Suc)
  obtain a0 a1 a2 a3 where adr: "lssAddress S = [a0, a1, a2, a3]"
    using assms(3) by (auto simp: length_Suc_conv numeral_eq_Suc)
  obtain b0 b1 b2 b3 where b: "addr = [b0, b1, b2, b3]"
    using assms(5) by (auto simp: length_Suc_conv numeral_eq_Suc)
  show ?thesis
    using assms(1,2) sel adr unfolding assms(6) b
    by (auto simp: receive_sel_frame lss_select_def CO_LSS_ADDRESS_EQUAL_def Let_def)
qed

text \<open>Two calls select: the slave with the address confirms, a slave with another one says nothing.\<close>

lemma lss_selection:
  assumes M: "tx_DLC (M_TXbuff M) = 8" "length (tx_data (M_TXbuff M)) = 8" "M_state M = 0" "M_command M = 0" "M_timeout_us M \<le> dt"
    and S: "lssState S = 0" "\<not> sendResponse S" "length (lssAddress S) = 4" "length (lssSelect S) = 4" "tx_DLC (lss_TXbuff S) = 8"
    and a: "length addr = 4"
  obtains M' S' where "lss_session (lss_calls (\<lambda>M. CO_LSSmaster_swStateSelect M dt (Some addr))) 2 () M S =
      Some (if addr = lssAddress S then CO_LSSmaster_OK else CO_LSSmaster_TIMEOUT, (), False, M', S')"
    "M_state M' = (if addr = lssAddress S then 1 else 0)" "M_command M' = 0"
    "tx_DLC (M_TXbuff M') = 8" "length (tx_data (M_TXbuff M')) = 8"
    "lssState S' = (if addr = lssAddress S then 1 else 0)" "\<not> sendResponse S'" "tx_DLC (lss_TXbuff S') = 8"
    "pendingNodeID S' = pendingNodeID S" "activeNodeID S' = activeNodeID S"
proof -
  let ?call = "lss_calls (\<lambda>M. CO_LSSmaster_swStateSelect M dt (Some addr))"
  let ?parts = "[(0x40, addr ! 0), (0x41, addr ! 1), (0x42, addr ! 2), (0x43, addr ! 3)] :: (u8 \<times> u32) list"
  obtain M1 x where M1: "CO_LSSmaster_swStateSelect M dt (Some addr) = (CO_LSSmaster_WAIT_SLAVE, M1)"
    "M_sent M1 = M_sent M @ map (\<lambda>(cs, v). (tx_ident (M_TXbuff M), sel_frame x cs v)) ?parts"
    "M_state M1 = 1" "M_command M1 = 1" "M_timeoutTimer M1 = 0" "M_timeout_us M1 = M_timeout_us M" "\<not> M_CANrxNew M1"
    "tx_DLC (M_TXbuff M1) = 8" "length (tx_data (M_TXbuff M1)) = 8"
    by (rule select_sent [OF M(1-4)])
  define S1 where "S1 = foldl (\<lambda>S d. CO_LSSslave_receive S 8 d) S (map (\<lambda>(cs, v). sel_frame x cs v) ?parts)"
  have f: "foldl (\<lambda>S (i, d). CO_LSSslave_receive S (length d) d) S (drop (length (M_sent M)) (M_sent M1)) = S1"
    by (simp add: M1(2) S1_def)
  note S1 = select_received [OF S(1-4) a S1_def]
  have c1: "?call () M = Some (CO_LSSmaster_WAIT_SLAVE, (), M1)" by (simp add: lss_calls_def M1(1))
  have w: "CO_LSSmaster_check_timeout M1 dt = (CO_LSSmaster_TIMEOUT, M1)" using M1(5,6) M(5) by (simp add: timeout_now)
  show thesis
  proof (cases "addr = lssAddress S")
    case True
    define S2 where "S2 = (lss_respond S1 (Some [CO_LSS_SWITCH_STATE_SEL]))\<lparr>sendResponse := False\<rparr>"
    define M2 where "M2 = M1\<lparr>M_CANrxData := CO_LSS_SWITCH_STATE_SEL # replicate 7 0, M_CANrxNew := True\<rparr>"
    have p: "CO_LSSslave_process S1 = Some (False, S2)"
      using S1 True by (simp add: CO_LSSslave_process_def lss_serve_def S2_def Let_def)
    have s: "lss_sent S2 = lss_sent S @ [(tx_ident (lss_TXbuff S), CO_LSS_SWITCH_STATE_SEL # replicate 7 0)]"
      using S1 True S(5) by (simp add: S2_def lss_respond_def tx_frame_def Let_def)
    have r1: "lss_round M M1 S = Some (False, M2, S2)"
      using M1(4,7) by (simp add: lss_round_def f p s CO_LSSmaster_receive_def M2_def)
    define M3 where "M3 = M2\<lparr>M_CANrxNew := False, M_command := 0\<rparr>"
    have c2: "?call () M2 = Some (CO_LSSmaster_OK, (), M3)"
      using M1(3,4) by (simp add: lss_calls_def CO_LSSmaster_swStateSelect_def CO_LSSmaster_switchStateSelectWait_def
          M_finished_def M2_def M3_def Let_def)
    have r2: "lss_round M2 M3 S2 = Some (False, M3, S2)"
      by (simp add: lss_round_def M3_def CO_LSSslave_process_def S2_def)
    have "lss_session ?call 2 () M S = Some (CO_LSSmaster_OK, (), False, M3, S2)"
      using session_wait [where call = ?call, OF c1 r1, of 1] session_result [where call = ?call, OF c2 _ r2, of 0]
      by (simp add: numeral_2_eq_2)
    then show ?thesis
      by (rule that [of M3 S2, unfolded if_P [OF True]])
        (use M1 S1 S True in \<open>simp_all add: M3_def M2_def S2_def lss_respond_def Let_def\<close>)
  next
    case False
    have p: "CO_LSSslave_process S1 = Some (False, S1)"
      using S1 False S(2) by (simp add: CO_LSSslave_process_def)
    have s: "lss_sent S1 = lss_sent S" using S1 False by simp
    have r1: "lss_round M M1 S = Some (False, M1, S1)"
      by (simp add: lss_round_def f p s)
    define M3 where "M3 = M1\<lparr>M_state := 0, M_command := 0\<rparr>"
    have c2: "?call () M1 = Some (CO_LSSmaster_TIMEOUT, (), M3)"
      using M1(3,4,7) w by (simp add: lss_calls_def CO_LSSmaster_swStateSelect_def CO_LSSmaster_switchStateSelectWait_def
          M_finished_def M3_def Let_def)
    have r2: "lss_round M1 M3 S1 = Some (False, M3, S1)"
      using p s by (simp add: lss_round_def M3_def)
    have "lss_session ?call 2 () M S = Some (CO_LSSmaster_TIMEOUT, (), False, M3, S1)"
      using session_wait [where call = ?call, OF c1 r1, of 1] session_result [where call = ?call, OF c2 _ r2, of 0]
      by (simp add: numeral_2_eq_2)
    then show ?thesis
      by (rule that [of M3 S1, unfolded if_not_P [OF False]])
        (use M1 S1 S False in \<open>simp_all add: M3_def\<close>)
  qed
qed

section \<open>Assignment\<close>

lemma lss_assigned:
  assumes M: "tx_DLC (M_TXbuff M) = 8" "length (tx_data (M_TXbuff M)) = 8" "M_state M = 1" "M_command M = 0"
    and S: "lssState S = 1" "\<not> sendResponse S" "tx_DLC (lss_TXbuff S) = 8" and n: "CO_LSS_NODE_ID_VALID n"
  obtains M' S' where "lss_session (lss_calls (\<lambda>M. CO_LSSmaster_configureNodeId M dt n)) 2 () M S =
      Some (CO_LSSmaster_OK, (), False, M', S')"
    "M_state M' = 1" "M_command M' = 0" "tx_DLC (M_TXbuff M') = 8" "length (tx_data (M_TXbuff M')) = 8"
    "lssState S' = 1" "\<not> sendResponse S'" "tx_DLC (lss_TXbuff S') = 8" "pendingNodeID S' = n" "activeNodeID S' = activeNodeID S"
proof -
  let ?call = "lss_calls (\<lambda>M. CO_LSSmaster_configureNodeId M dt n)"
  let ?d = "CO_LSS_CFG_NODE_ID # n # replicate 6 0"
  define M1 where "M1 = M_send (M_put 0 ?d (M\<lparr>M_command := 3, M_timeoutTimer := 0, M_CANrxNew := False\<rparr>))"
  have M1: "M_state M1 = 1" "M_command M1 = 3" "\<not> M_CANrxNew M1" "tx_DLC (M_TXbuff M1) = 8" "length (tx_data (M_TXbuff M1)) = 8"
    "M_sent M1 = M_sent M @ [(tx_ident (M_TXbuff M), ?d)]"
    using M by (simp_all add: M1_def M_send_def M_put_def tx_frame_def Let_def)
  have c1: "?call () M = Some (CO_LSSmaster_WAIT_SLAVE, (), M1)"
    using M n by (simp add: lss_calls_def CO_LSSmaster_configureNodeId_def M_finished_def M_request_def M1_def)
  define S1 where "S1 = S\<lparr>lss_CANdata := ?d, lss_service := CO_LSS_CFG_NODE_ID, sendResponse := True\<rparr>"
  have S1: "CO_LSSslave_receive S 8 ?d = S1"
    using S by (simp add: CO_LSSslave_receive_def lss_receive_service_def S1_def Let_def)
  define S2 where "S2 = (lss_respond (S1\<lparr>pendingNodeID := n\<rparr>) (Some [CO_LSS_CFG_NODE_ID, 0]))\<lparr>sendResponse := False\<rparr>"
  have p: "CO_LSSslave_process S1 = Some (False, S2)"
    using n by (simp add: CO_LSSslave_process_def lss_serve_def lss_cfg_node_id_def S2_def S1_def Let_def)
  have s: "lss_sent S2 = lss_sent S @ [(tx_ident (lss_TXbuff S), CO_LSS_CFG_NODE_ID # replicate 7 0)]"
    using S(3) by (simp add: S2_def S1_def lss_respond_def tx_frame_def Cons_replicate_eq Let_def)
  define M2 where "M2 = M1\<lparr>M_CANrxData := CO_LSS_CFG_NODE_ID # replicate 7 0, M_CANrxNew := True\<rparr>"
  have r1: "lss_round M M1 S = Some (False, M2, S2)"
    using M1(2,3) by (simp add: lss_round_def M1(6) S1 p s CO_LSSmaster_receive_def M2_def)
  define M3 where "M3 = M2\<lparr>M_CANrxNew := False, M_command := 0\<rparr>"
  have c2: "?call () M2 = Some (CO_LSSmaster_OK, (), M3)"
    using M1 n by (simp add: lss_calls_def CO_LSSmaster_configureNodeId_def CO_LSSmaster_configureCheckWait_def
        M_finished_def M2_def M3_def Let_def)
  have r2: "lss_round M2 M3 S2 = Some (False, M3, S2)"
    by (simp add: lss_round_def M3_def CO_LSSslave_process_def S2_def)
  have "lss_session ?call 2 () M S = Some (CO_LSSmaster_OK, (), False, M3, S2)"
    using session_wait [where call = ?call, OF c1 r1, of 1] session_result [where call = ?call, OF c2 _ r2, of 0]
    by (simp add: numeral_2_eq_2)
  then show thesis
    by (rule that) (use M1 S in \<open>simp_all add: M3_def M2_def S2_def S1_def lss_respond_def Let_def\<close>)
qed

text \<open>The switch to the waiting state: a slave that has got an identifier asks for the reset that makes it active.\<close>

lemma lss_deselected:
  assumes M: "tx_DLC (M_TXbuff M) = 8" "length (tx_data (M_TXbuff M)) = 8"
    and S: "lssState S = 1" "\<not> sendResponse S" "activeNodeID S = 0xFF" "pendingNodeID S \<noteq> 0xFF"
  obtains M' S' where "lss_session (lss_calls CO_LSSmaster_swStateDeselect) 1 () M S = Some (CO_LSSmaster_OK, (), True, M', S')"
    "M_state M' = 0" "M_command M' = 0" "lssState S' = 0" "pendingNodeID S' = pendingNodeID S"
proof -
  let ?call = "lss_calls CO_LSSmaster_swStateDeselect"
  let ?d = "CO_LSS_SWITCH_STATE_GLOBAL # CO_LSS_STATE_WAITING # replicate 6 0"
  define M1 where "M1 = snd (CO_LSSmaster_swStateDeselect M)"
  have M1: "M_state M1 = 0" "M_command M1 = 0" "M_sent M1 = M_sent M @ [(tx_ident (M_TXbuff M), ?d)]"
    using M by (simp_all add: M1_def CO_LSSmaster_swStateDeselect_def M_send_def M_put_def tx_frame_def Let_def)
  have c: "?call () M = Some (CO_LSSmaster_OK, (), M1)"
    by (simp add: lss_calls_def M1_def CO_LSSmaster_swStateDeselect_def Let_def)
  define S1 where "S1 = S\<lparr>lss_service := CO_LSS_SWITCH_STATE_GLOBAL, lssState := 0, lssSelect := [0, 0, 0, 0], sendResponse := True\<rparr>"
  have S1: "CO_LSSslave_receive S 8 ?d = S1"
    using S by (simp add: CO_LSSslave_receive_def lss_receive_service_def lss_switch_global_def S1_def Let_def)
  define S2 where "S2 = (lss_respond S1 None)\<lparr>sendResponse := False\<rparr>"
  have p: "CO_LSSslave_process S1 = Some (True, S2)"
    by (simp add: CO_LSSslave_process_def lss_serve_def S2_def S1_def Let_def)
  have r: "lss_round M M1 S = Some (True, M1, S2)"
    by (simp add: lss_round_def M1(3) S1 p) (simp add: S2_def S1_def lss_respond_def)
  have "lss_session ?call 1 () M S = Some (CO_LSSmaster_OK, (), True, M1, S2)"
    using session_result [where call = ?call and k = 0, OF c _ r] by simp
  then show thesis by (rule that) (use M1 in \<open>simp_all add: S2_def S1_def lss_respond_def\<close>)
qed

text \<open>
  C9: The commissioning of a slave. The master selects a slave without node identifier by its address,
  assigns an identifier and switches back: every service is confirmed in its second call, and at the
  end the slave has the identifier pending and asks for the communication reset, and both objects are
  in the waiting state. A selection with the address of another slave ends with the timeout instead,
  and neither object has left the waiting state.
\<close>

theorem lss_commissioning:
  assumes "tx_DLC (M_TXbuff M) = 8" "length (tx_data (M_TXbuff M)) = 8" "M_timeout_us M \<le> dt"
    and "M_state M = CO_LSSmaster_STATE_WAITING" "M_command M = CO_LSSmaster_COMMAND_WAITING"
    and "lssState S = CO_LSS_STATE_WAITING" "\<not> sendResponse S" "activeNodeID S = CO_LSS_NODE_ID_ASSIGNMENT"
    and "length (lssAddress S) = 4" "length (lssSelect S) = 4" "tx_DLC (lss_TXbuff S) = 8"
    and "1 \<le> n" "n \<le> 0x7F" "length addr = 4"
  shows "\<exists>ret M1 S1. lss_session (lss_calls (\<lambda>M. CO_LSSmaster_swStateSelect M dt (Some addr))) 2 () M S =
      Some (ret, (), False, M1, S1) \<and>
    (if addr = lssAddress S then ret = CO_LSSmaster_OK \<and>
       (\<exists>M2 S2 M3 S3.
          lss_session (lss_calls (\<lambda>M. CO_LSSmaster_configureNodeId M dt n)) 2 () M1 S1 =
            Some (CO_LSSmaster_OK, (), False, M2, S2) \<and>
          lss_session (lss_calls CO_LSSmaster_swStateDeselect) 1 () M2 S2 = Some (CO_LSSmaster_OK, (), True, M3, S3) \<and>
          pendingNodeID S3 = n \<and> lssState S3 = CO_LSS_STATE_WAITING \<and>
          M_state M3 = CO_LSSmaster_STATE_WAITING \<and> M_command M3 = CO_LSSmaster_COMMAND_WAITING)
     else ret = CO_LSSmaster_TIMEOUT \<and> M_state M1 = CO_LSSmaster_STATE_WAITING \<and>
       M_command M1 = CO_LSSmaster_COMMAND_WAITING \<and> lssState S1 = CO_LSS_STATE_WAITING \<and> pendingNodeID S1 = pendingNodeID S)"
proof -
  have n: "CO_LSS_NODE_ID_VALID n" "n \<noteq> 0xFF"
    using assms(12,13) by (auto simp: CO_LSS_NODE_ID_VALID_def)
  obtain M1 S1 where s: "lss_session (lss_calls (\<lambda>M. CO_LSSmaster_swStateSelect M dt (Some addr))) 2 () M S =
      Some (if addr = lssAddress S then CO_LSSmaster_OK else CO_LSSmaster_TIMEOUT, (), False, M1, S1)"
    "M_state M1 = (if addr = lssAddress S then 1 else 0)" "M_command M1 = 0"
    "tx_DLC (M_TXbuff M1) = 8" "length (tx_data (M_TXbuff M1)) = 8"
    "lssState S1 = (if addr = lssAddress S then 1 else 0)" "\<not> sendResponse S1" "tx_DLC (lss_TXbuff S1) = 8"
    "pendingNodeID S1 = pendingNodeID S" "activeNodeID S1 = activeNodeID S"
    by (rule lss_selection [OF assms(1,2,4,5,3,6,7,9-11,14)])
  show ?thesis
  proof (cases "addr = lssAddress S")
    case True
    have st: "M_state M1 = 1" "lssState S1 = 1" using s(2,6) True by simp_all
    obtain M2 S2 where c: "lss_session (lss_calls (\<lambda>M. CO_LSSmaster_configureNodeId M dt n)) 2 () M1 S1 =
        Some (CO_LSSmaster_OK, (), False, M2, S2)"
      "M_state M2 = 1" "M_command M2 = 0" "tx_DLC (M_TXbuff M2) = 8" "length (tx_data (M_TXbuff M2)) = 8"
      "lssState S2 = 1" "\<not> sendResponse S2" "tx_DLC (lss_TXbuff S2) = 8" "pendingNodeID S2 = n" "activeNodeID S2 = activeNodeID S1"
      by (rule lss_assigned [OF s(4,5) st(1) s(3) st(2) s(7,8) n(1)])
    have a: "activeNodeID S2 = 0xFF" "pendingNodeID S2 \<noteq> 0xFF" using c(9,10) s(10) assms(8) n(2) by simp_all
    obtain M3 S3 where d: "lss_session (lss_calls CO_LSSmaster_swStateDeselect) 1 () M2 S2 = Some (CO_LSSmaster_OK, (), True, M3, S3)"
      "M_state M3 = 0" "M_command M3 = 0" "lssState S3 = 0" "pendingNodeID S3 = pendingNodeID S2"
      by (rule lss_deselected [OF c(4,5,6,7) a])
    show ?thesis using s(1) c(1,9) d True by (simp del: lss_session.simps)
  qed (use s in \<open>simp del: lss_session.simps\<close>)
qed

theorem lss_commissioning_witness:
  "\<exists>M1 S1 M2 S2 M3 S3.
     lss_session (lss_calls (\<lambda>M. CO_LSSmaster_swStateSelect M 50000 (Some [0x11, 0x22, 0x80000033, 0xFFFFFFFF]))) 2 ()
       example_lssm example_lss = Some (CO_LSSmaster_OK, (), False, M1, S1) \<and>
     lss_session (lss_calls (\<lambda>M. CO_LSSmaster_configureNodeId M 50000 5)) 2 () M1 S1 = Some (CO_LSSmaster_OK, (), False, M2, S2) \<and>
     lss_session (lss_calls CO_LSSmaster_swStateDeselect) 1 () M2 S2 = Some (CO_LSSmaster_OK, (), True, M3, S3) \<and>
     pendingNodeID S3 = 5"
  using lss_commissioning [of example_lssm 50000 example_lss 5 "[0x11, 0x22, 0x80000033, 0xFFFFFFFF]"]
  by (auto simp: example_lssm_fields example_lss_facts simp del: lss_session.simps)

end
