(* ===== verification/SYNC.thy ===== *)
theory SYNC
  imports NMT
begin

text \<open>
  The synchronisation object (\<open>301/CO_SYNC.c\<close>, \<open>301/CO_SYNC.h\<close>): producer and consumer of the SYNC
  message, its counter, the timeout of the consumer and the window of the synchronous process data.
\<close>

section \<open>The object\<close>

datatype CO_SYNC_status = CO_SYNC_NONE | CO_SYNC_RX_TX | CO_SYNC_PASSED_WINDOW

text \<open>
  The pointers into the object dictionary are addresses; \<open>sync_rxIdent\<close> is the identifier configured
  in the receive buffer.
\<close>

record CO_SYNC =
  sync_CANrxNew :: bool
  receiveError :: u8
  CANrxToggle :: bool
  timeoutError :: u8
  counterOverflowValue :: u8
  sync_counter :: u8
  syncIsOutsideWindow :: bool
  sync_timer :: u32
  OD_1006_period :: "addr option"
  OD_1007_window :: "addr option"
  sync_isProducer :: bool
  sync_CANtxBuff :: CANtx
  sync_CAN_ID :: u16
  sync_rxIdent :: u16
  OD_1005_extended :: bool
  OD_1019_extended :: bool

text \<open>Its world: the emergency object, which holds the memory of the object dictionary, and the messages sent.\<close>

record sync = CO_SYNC +
  sync_em :: em
  sync_sent :: "can_frame list"

abbreviation (input) "CO_EM_SYNC_TIME_OUT \<equiv> 0x18 :: u8"
abbreviation (input) "CO_EM_SYNC_LENGTH \<equiv> 0x19 :: u8"
abbreviation (input) "CO_EMC_COMMUNICATION \<equiv> 0x8100 :: u16"
abbreviation (input) "CO_EMC_SYNC_DATA_LENGTH \<equiv> 0x8240 :: u16"

text \<open>The value that a pointer to a variable of the object dictionary points to, zero for a null pointer.\<close>

definition od_u32 :: "mem \<Rightarrow> addr option \<Rightarrow> u32" where
  "od_u32 m p = (case p of None \<Rightarrow> 0 | Some a \<Rightarrow> le_word (mem_read m a 4))"

definition sync_period :: "sync \<Rightarrow> u32" where
  "sync_period S = od_u32 (em_mem (sync_em S)) (OD_1006_period S)"

definition sync_window :: "sync \<Rightarrow> u32" where
  "sync_window S = od_u32 (em_mem (sync_em S)) (OD_1007_window S)"

section \<open>Reception and object dictionary\<close>

definition CO_SYNC_receive :: "sync \<Rightarrow> u8 \<Rightarrow> u8 list \<Rightarrow> sync" where
  "CO_SYNC_receive S DLC data =
     (let (S, syncReceived) =
        (if counterOverflowValue S = 0 then
           if DLC = 0 then (S, True) else (S\<lparr>receiveError := DLC OR 0x40\<rparr>, False)
         else
           if DLC = 1 then (S\<lparr>sync_counter := data ! 0\<rparr>, True) else (S\<lparr>receiveError := DLC OR 0x80\<rparr>, False))
      in if syncReceived then S\<lparr>CANrxToggle := \<not> CANrxToggle S, sync_CANrxNew := True\<rparr> else S)"

text \<open>
  \<open>rxRet\<close> is the result of \<open>CO_CANrxBufferInit\<close> and \<open>txOk\<close> whether \<open>CO_CANtxBufferInit\<close> returns the
  buffer.
\<close>

definition sync_txInit :: "sync \<Rightarrow> u16 \<Rightarrow> u8 \<Rightarrow> sync" where
  "sync_txInit S ident ovf = S\<lparr>sync_CANtxBuff := CO_CANtxBufferInit ident (if ovf \<noteq> 0 then 1 else 0) (sync_CANtxBuff S)\<rparr>"

definition sync_write_original :: "sync \<Rightarrow> OD_stream \<Rightarrow> u8 list \<Rightarrow> ODR \<times> OD_stream \<times> u32 \<times> sync" where
  "sync_write_original S st b =
     (let (r, st', k, m) = OD_writeOriginal st b (em_mem (sync_em S))
      in (r, st', k, S\<lparr>sync_em := (sync_em S)\<lparr>em_mem := m\<rparr>\<rparr>))"

definition OD_write_1005 ::
    "CO_ReturnError \<Rightarrow> bool \<Rightarrow> sync \<Rightarrow> OD_stream \<Rightarrow> u8 list \<Rightarrow> ODR \<times> OD_stream \<times> u32 \<times> sync" where
  "OD_write_1005 rxRet txOk S st b =
     (if stream_subIndex st \<noteq> 0 \<or> length b \<noteq> 4 then (ODR_DEV_INCOMPAT, st, 0, S)
      else
        let cob = le_word b :: u32; CAN_ID = ucast (cob AND 0x7FF) :: u16; isProducer = (cob AND 0x40000000 \<noteq> 0) in
        if cob AND 0xBFFFF800 \<noteq> 0 \<or> CO_IS_RESTRICTED_CAN_ID CAN_ID \<or>
           (sync_isProducer S \<and> isProducer \<and> CAN_ID \<noteq> sync_CAN_ID S)
        then (ODR_INVALID_VALUE, st, 0, S)
        else if CAN_ID \<noteq> sync_CAN_ID S \<and> rxRet \<noteq> CO_ERROR_NO then (ODR_DEV_INCOMPAT, st, 0, S)
        else if CAN_ID \<noteq> sync_CAN_ID S \<and> \<not> txOk
        then (ODR_DEV_INCOMPAT, st, 0, S\<lparr>sync_rxIdent := CAN_ID, sync_isProducer := False\<rparr>)
        else
          let S = (if CAN_ID \<noteq> sync_CAN_ID S
                   then (sync_txInit S CAN_ID (counterOverflowValue S))\<lparr>sync_rxIdent := CAN_ID, sync_CAN_ID := CAN_ID\<rparr> else S);
              S = S\<lparr>sync_isProducer := isProducer\<rparr>;
              S = (if isProducer then S\<lparr>sync_counter := 0, sync_timer := 0\<rparr> else S)
          in sync_write_original S st b)"

definition OD_write_1019 :: "bool \<Rightarrow> sync \<Rightarrow> OD_stream \<Rightarrow> u8 list \<Rightarrow> ODR \<times> OD_stream \<times> u32 \<times> sync" where
  "OD_write_1019 txOk S st b =
     (if stream_subIndex st \<noteq> 0 \<or> length b \<noteq> 1 then (ODR_DEV_INCOMPAT, st, 0, S)
      else
        let ovf = b ! 0 in
        if ovf = 1 \<or> ovf > 240 then (ODR_INVALID_VALUE, st, 0, S)
        else if sync_period S \<noteq> 0 then (ODR_DATA_DEV_STATE, st, 0, S)
        else if \<not> txOk then (ODR_DEV_INCOMPAT, st, 0, S\<lparr>sync_isProducer := False\<rparr>)
        else sync_write_original ((sync_txInit S (sync_CAN_ID S) ovf)\<lparr>counterOverflowValue := ovf\<rparr>) st b)"

section \<open>Initialisation\<close>

definition sync_zero :: "CANtx \<Rightarrow> em \<Rightarrow> sync" where
  "sync_zero tx em =
     \<lparr>sync_CANrxNew = False, receiveError = 0, CANrxToggle = False, timeoutError = 0, counterOverflowValue = 0, sync_counter = 0,
      syncIsOutsideWindow = False, sync_timer = 0, OD_1006_period = None, OD_1007_window = None, sync_isProducer = False,
      sync_CANtxBuff = tx, sync_CAN_ID = 0, sync_rxIdent = 0, OD_1005_extended = False, OD_1019_extended = False,
      sync_em = em, sync_sent = []\<rparr>"

definition sync_overflow_value :: "u8 \<Rightarrow> u8" where
  "sync_overflow_value v = (if v = 1 then 2 else if v > 240 then 240 else v)"

text \<open>The second half of \<open>CO_SYNC_init\<close>, from the counter overflow value on.\<close>

definition sync_init_counter ::
    "CO_ReturnError \<Rightarrow> bool \<Rightarrow> sync \<Rightarrow> u32 \<Rightarrow> OD_entry option \<Rightarrow> CO_ReturnError \<times> u32 option \<times> sync" where
  "sync_init_counter rxRet txOk S cob e1019 =
     (let (odRet, ovf, m) = (if e1019 = None then (ODR_OK, 0, em_mem (sync_em S)) else OD_get_u8 e1019 0 True (em_mem (sync_em S)));
          S = S\<lparr>sync_em := (sync_em S)\<lparr>em_mem := m\<rparr>\<rparr> in
      if odRet \<noteq> ODR_OK then (CO_ERROR_OD_PARAMETERS, Some (ucast (OD_getIndex e1019)), S)
      else
        let ovf = sync_overflow_value ovf; CAN_ID = ucast (cob AND 0x7FF) :: u16;
            S = S\<lparr>OD_1019_extended := (e1019 \<noteq> None), counterOverflowValue := ovf, sync_isProducer := (cob AND 0x40000000 \<noteq> 0),
                  sync_CAN_ID := CAN_ID\<rparr>
        in if rxRet \<noteq> CO_ERROR_NO then (rxRet, None, S)
        else
          let S = S\<lparr>sync_rxIdent := CAN_ID\<rparr> in
          if \<not> txOk then (CO_ERROR_ILLEGAL_ARGUMENT, None, S) else (CO_ERROR_NO, None, sync_txInit S CAN_ID ovf))"

definition CO_SYNC_init ::
    "CO_ReturnError \<Rightarrow> bool \<Rightarrow> CANtx \<Rightarrow> em \<Rightarrow> sync \<Rightarrow> OD_entry option \<Rightarrow> OD_entry option \<Rightarrow> OD_entry option \<Rightarrow> OD_entry option \<Rightarrow>
     CO_ReturnError \<times> u32 option \<times> sync" where
  "CO_SYNC_init rxRet txOk tx em S e1005 e1006 e1007 e1019 =
     (if e1005 = None \<or> e1006 = None then (CO_ERROR_ILLEGAL_ARGUMENT, None, S)
      else
        let (odRet, cob, m) = OD_get_u32 e1005 0 True (em_mem em); S = sync_zero tx (em\<lparr>em_mem := m\<rparr>) in
        if odRet \<noteq> ODR_OK then (CO_ERROR_OD_PARAMETERS, Some (ucast (OD_getIndex e1005)), S)
        else
          let S = S\<lparr>OD_1005_extended := True, OD_1006_period := snd (OD_getPtr e1006 0 4)\<rparr> in
          if OD_1006_period S = None then (CO_ERROR_OD_PARAMETERS, Some (ucast (OD_getIndex e1006)), S)
          else
            let S = S\<lparr>OD_1007_window := snd (OD_getPtr e1007 0 4)\<rparr> in
            if e1007 \<noteq> None \<and> OD_1007_window S = None then (CO_ERROR_OD_PARAMETERS, Some (ucast (OD_getIndex e1007)), S)
            else sync_init_counter rxRet txOk S cob e1019)"

section \<open>Processing\<close>

definition CO_SYNCsend :: "sync \<Rightarrow> sync" where
  "CO_SYNCsend S =
     (let c = sync_counter S + 1; c = (if c > counterOverflowValue S then 1 else c);
          tx = (sync_CANtxBuff S)\<lparr>tx_data := (tx_data (sync_CANtxBuff S))[0 := c]\<rparr>
      in S\<lparr>sync_counter := c, sync_timer := 0, CANrxToggle := \<not> CANrxToggle S, sync_CANtxBuff := tx,
           sync_sent := sync_sent S @ [tx_frame tx]\<rparr>)"

text \<open>The timer does not wrap around; a received message sets it to zero.\<close>

definition sync_advance :: "sync \<Rightarrow> u32 \<Rightarrow> sync \<times> CO_SYNC_status" where
  "sync_advance S td =
     (let timerNew = sync_timer S + td;
          S = (if timerNew > sync_timer S then S\<lparr>sync_timer := timerNew\<rparr> else S)
      in if sync_CANrxNew S then (S\<lparr>sync_timer := 0, sync_CANrxNew := False\<rparr>, CO_SYNC_RX_TX) else (S, CO_SYNC_NONE))"

definition sync_produce :: "sync \<Rightarrow> u32 \<Rightarrow> CO_SYNC_status \<Rightarrow> u32 option \<Rightarrow> sync \<times> CO_SYNC_status \<times> u32 option" where
  "sync_produce S period st tn =
     (let (S, st) = (if sync_timer S \<ge> period then (CO_SYNCsend S, CO_SYNC_RX_TX) else (S, st))
      in (S, st, map_option (min (period - sync_timer S)) tn))"

definition sync_periodTimeout :: "u32 \<Rightarrow> u32" where
  "sync_periodTimeout period =
     (let t = period + drop_bit 1 period in if t < period then 0xFFFFFFFF else t)"

definition sync_check_timeout :: "sync \<Rightarrow> u32 \<Rightarrow> u32 option \<Rightarrow> (sync \<times> u32 option) option" where
  "sync_check_timeout S period tn =
     (if timeoutError S = 1 then
        let periodTimeout = sync_periodTimeout period in
        if sync_timer S > periodTimeout then do {
          em \<leftarrow> CO_errorReport (sync_em S) CO_EM_SYNC_TIME_OUT CO_EMC_COMMUNICATION (sync_timer S);
          Some (S\<lparr>sync_em := em, timeoutError := 2\<rparr>, tn)
        }
        else Some (S, map_option (min (periodTimeout - sync_timer S)) tn)
      else Some (S, tn))"

definition sync_check_window :: "sync \<Rightarrow> CO_SYNC_status \<Rightarrow> sync \<times> CO_SYNC_status" where
  "sync_check_window S st =
     (if OD_1007_window S \<noteq> None \<and> sync_window S > 0 \<and> sync_timer S > sync_window S
      then (S\<lparr>syncIsOutsideWindow := True\<rparr>, if \<not> syncIsOutsideWindow S then CO_SYNC_PASSED_WINDOW else st)
      else (S\<lparr>syncIsOutsideWindow := False\<rparr>, st))"

definition sync_check_receive :: "sync \<Rightarrow> sync option" where
  "sync_check_receive S =
     (if receiveError S \<noteq> 0 then do {
        em \<leftarrow> CO_errorReport (sync_em S) CO_EM_SYNC_LENGTH CO_EMC_SYNC_DATA_LENGTH (ucast (receiveError S));
        Some (S\<lparr>sync_em := em, receiveError := 0\<rparr>)
      }
      else Some S)"

definition sync_reset_timeout :: "sync \<Rightarrow> CO_SYNC_status \<Rightarrow> sync option" where
  "sync_reset_timeout S st =
     (if st = CO_SYNC_RX_TX then do {
        em \<leftarrow> (if timeoutError S = 2 then CO_errorReset (sync_em S) CO_EM_SYNC_TIME_OUT 0 else Some (sync_em S));
        Some (S\<lparr>sync_em := em, timeoutError := 1\<rparr>)
      }
      else Some S)"

definition CO_SYNC_process :: "sync \<Rightarrow> bool \<Rightarrow> u32 \<Rightarrow> u32 option \<Rightarrow> (CO_SYNC_status \<times> sync \<times> u32 option) option" where
  "CO_SYNC_process S pre td tn = do {
     (S, st, tn) \<leftarrow>
       (if pre then do {
          let (S, st) = sync_advance S td;
          let period = sync_period S;
          (S, st, tn) \<leftarrow>
            (if period > 0 then
               if sync_isProducer S then Some (sync_produce S period st tn)
               else do { (S, tn) \<leftarrow> sync_check_timeout S period tn; Some (S, st, tn) }
             else Some (S, st, tn));
          let (S, st) = sync_check_window S st;
          S \<leftarrow> sync_check_receive S;
          Some (S, st, tn)
        }
        else Some (S\<lparr>sync_CANrxNew := False, receiveError := 0, sync_counter := 0, sync_timer := 0\<rparr>, CO_SYNC_NONE, tn));
     S \<leftarrow> sync_reset_timeout S st;
     Some (st, S, tn)
   }"

section \<open>One call\<close>

text \<open>
  What the stages after the producer and the timeout leave unchanged; the last one may also change
  the state of the timeout.
\<close>

definition sync_kept :: "sync \<Rightarrow> sync \<Rightarrow> bool" where
  "sync_kept S S' \<longleftrightarrow> em_inv (sync_em S') \<and> em_mem (sync_em S') = em_mem (sync_em S) \<and>
     sync_timer S' = sync_timer S \<and> sync_counter S' = sync_counter S \<and>
     sync_sent S' = sync_sent S \<and> sync_CANtxBuff S' = sync_CANtxBuff S \<and> sync_isProducer S' = sync_isProducer S \<and>
     counterOverflowValue S' = counterOverflowValue S \<and> OD_1006_period S' = OD_1006_period S \<and>
     OD_1007_window S' = OD_1007_window S \<and> sync_CANrxNew S' = sync_CANrxNew S \<and> sync_CAN_ID S' = sync_CAN_ID S"

definition sync_same :: "sync \<Rightarrow> sync \<Rightarrow> bool" where
  "sync_same S S' \<longleftrightarrow> sync_kept S S' \<and> timeoutError S' = timeoutError S \<and>
     CO_isError (sync_em S') CO_EM_SYNC_TIME_OUT = CO_isError (sync_em S) CO_EM_SYNC_TIME_OUT"

lemma error_result_mem [simp]: "em_mem (error_result em v b code info) = em_mem em"
  by (simp add: error_result_def)

lemma sync_same_report:
  assumes "em_inv (sync_em S)" "err_bit b \<noteq> CO_EM_SYNC_TIME_OUT"
  shows "sync_same S (S\<lparr>sync_em := error_result (sync_em S) v b code info, receiveError := x\<rparr>)"
  using assms by (simp add: sync_same_def sync_kept_def error_result_inv error_result_isError)

lemma sync_same_trans: "sync_same S S' \<Longrightarrow> sync_same S' S'' \<Longrightarrow> sync_same S S''"
  by (simp add: sync_same_def sync_kept_def)

lemma sync_check_window_same:
  "em_inv (sync_em S) \<Longrightarrow> sync_same S (fst (sync_check_window S st))"
  "sync_timer S = 0 \<Longrightarrow> snd (sync_check_window S st) = st"
  "snd (sync_check_window S st) \<in> {st, CO_SYNC_PASSED_WINDOW}"
  by (simp_all add: sync_check_window_def sync_same_def sync_kept_def)

lemma sync_check_receive_same:
  assumes "em_inv (sync_em S)"
  shows "wp (sync_check_receive S) (sync_same S)"
proof -
  have "sync_same S S" using assms by (simp add: sync_same_def sync_kept_def)
  then show ?thesis using assms sync_same_report [OF assms, of CO_EM_SYNC_LENGTH]
    by (simp add: sync_check_receive_def CO_errorReport_eq err_bit_def)
qed

definition sync_elapsed :: "sync \<Rightarrow> u32 \<Rightarrow> u32" where
  "sync_elapsed S td = (if sync_CANrxNew S then 0 else if sync_timer S + td > sync_timer S then sync_timer S + td else sync_timer S)"

lemma sync_advance_eq:
  "sync_advance S td = (S\<lparr>sync_timer := sync_elapsed S td, sync_CANrxNew := False\<rparr>, if sync_CANrxNew S then CO_SYNC_RX_TX else CO_SYNC_NONE)"
  by (simp add: sync_advance_def sync_elapsed_def Let_def)

text \<open>The producer and the consumer, up to the window.\<close>

definition sync_core :: "sync \<Rightarrow> u32 \<Rightarrow> u32 option \<Rightarrow> (sync \<times> CO_SYNC_status \<times> u32 option) option" where
  "sync_core S td tn = (let (S, st) = sync_advance S td; period = sync_period S in
     if period > 0 then
       if sync_isProducer S then Some (sync_produce S period st tn)
       else do { (S, tn) \<leftarrow> sync_check_timeout S period tn; Some (S, st, tn) }
     else Some (S, st, tn))"

lemma CO_SYNC_process_core:
  assumes c: "sync_core S td tn = Some (S1, st1, tn1)" and i: "em_inv (sync_em S1)"
    and z: "st1 = CO_SYNC_RX_TX \<longrightarrow> sync_timer S1 = 0"
  shows "\<exists>S2 st2. sync_same S1 S2 \<and> (st2 = CO_SYNC_RX_TX \<longleftrightarrow> st1 = CO_SYNC_RX_TX) \<and>
    CO_SYNC_process S True td tn = do { S \<leftarrow> sync_reset_timeout S2 st2; Some (st2, S, tn1) }"
proof -
  let ?w = "sync_check_window S1 st1"
  have w: "sync_same S1 (fst ?w)" by (rule sync_check_window_same(1) [OF i])
  then have "em_inv (sync_em (fst ?w))" by (simp add: sync_same_def sync_kept_def)
  from sync_check_receive_same [OF this] obtain S2 where r: "sync_check_receive (fst ?w) = Some S2" "sync_same (fst ?w) S2"
    by (auto simp: wp_ex)
  have st: "snd ?w = CO_SYNC_RX_TX \<longleftrightarrow> st1 = CO_SYNC_RX_TX"
    using sync_check_window_same(2,3) [of S1 st1] z by auto
  have "CO_SYNC_process S True td tn = do { S \<leftarrow> sync_reset_timeout S2 (snd ?w); Some (snd ?w, S, tn1) }"
    using c r(1) by (simp add: CO_SYNC_process_def sync_core_def Let_def case_prod_beta split: if_splits bind_splits)
  then show ?thesis using sync_same_trans [OF w r(2)] st by blast
qed

lemma sync_reset_timeout_RX:
  assumes "em_inv (sync_em S)"
  shows "\<exists>em. sync_reset_timeout S CO_SYNC_RX_TX = Some (S\<lparr>sync_em := em, timeoutError := 1\<rparr>) \<and>
    em_inv em \<and> em_mem em = em_mem (sync_em S) \<and>
    (CO_isError em CO_EM_SYNC_TIME_OUT \<longleftrightarrow> timeoutError S \<noteq> 2 \<and> CO_isError (sync_em S) CO_EM_SYNC_TIME_OUT)"
  using assms
  by (intro exI [of _ "if timeoutError S = 2 then error_result (sync_em S) False CO_EM_SYNC_TIME_OUT CO_EMC_NO_ERROR 0 else sync_em S"])
    (simp add: sync_reset_timeout_def CO_errorReset_eq error_result_inv error_result_isError err_bit_def)

lemma sync_reset_timeout_none: "st \<noteq> CO_SYNC_RX_TX \<Longrightarrow> sync_reset_timeout S st = Some S"
  by (simp add: sync_reset_timeout_def)

lemma sync_reset_timeout_kept:
  assumes "em_inv (sync_em S)"
  shows "wp (sync_reset_timeout S st) (sync_kept S)"
proof (cases "st = CO_SYNC_RX_TX")
  case True
  then show ?thesis using sync_reset_timeout_RX [OF assms] by (auto simp: sync_kept_def)
next
  case False
  then show ?thesis using assms by (simp add: sync_reset_timeout_none sync_kept_def)
qed

lemma sync_core_producer:
  assumes "sync_isProducer S" "0 < sync_period S"
  shows "sync_core S td tn =
    (let A = S\<lparr>sync_timer := sync_elapsed S td, sync_CANrxNew := False\<rparr> in
     Some (sync_produce A (sync_period S) (if sync_CANrxNew S then CO_SYNC_RX_TX else CO_SYNC_NONE) tn))"
  using assms by (simp add: sync_core_def sync_advance_eq Let_def sync_period_def)

text \<open>A call of a producer: when the period has passed it sends the next number, otherwise nothing.\<close>

definition sync_next_counter :: "sync \<Rightarrow> u8" where
  "sync_next_counter S = (if sync_counter S + 1 > counterOverflowValue S then 1 else sync_counter S + 1)"

lemma sync_producer_call:
  assumes i: "em_inv (sync_em S)" and p: "sync_isProducer S" "0 < sync_period S" and l: "length (tx_data (sync_CANtxBuff S)) = 8"
  shows "\<exists>st S' tn'. CO_SYNC_process S True td tn = Some (st, S', tn') \<and> em_inv (sync_em S') \<and> sync_isProducer S' \<and>
    sync_period S' = sync_period S \<and> counterOverflowValue S' = counterOverflowValue S \<and> \<not> sync_CANrxNew S' \<and>
    length (tx_data (sync_CANtxBuff S')) = 8 \<and> tx_ident (sync_CANtxBuff S') = tx_ident (sync_CANtxBuff S) \<and>
    tx_DLC (sync_CANtxBuff S') = tx_DLC (sync_CANtxBuff S) \<and>
    (if sync_period S \<le> sync_elapsed S td
     then st = CO_SYNC_RX_TX \<and> sync_timer S' = 0 \<and> sync_counter S' = sync_next_counter S \<and>
       sync_sent S' = sync_sent S @ [(tx_ident (sync_CANtxBuff S), take (unat (tx_DLC (sync_CANtxBuff S)))
         (sync_next_counter S # tl (tx_data (sync_CANtxBuff S))))]
     else sync_timer S' = sync_elapsed S td \<and> sync_counter S' = sync_counter S \<and> sync_sent S' = sync_sent S)"
proof -
  let ?A = "S\<lparr>sync_timer := sync_elapsed S td, sync_CANrxNew := False\<rparr>"
  let ?st = "if sync_CANrxNew S then CO_SYNC_RX_TX else CO_SYNC_NONE"
  obtain S1 st1 tn1 where c: "sync_core S td tn = Some (S1, st1, tn1)" "sync_produce ?A (sync_period S) ?st tn = (S1, st1, tn1)"
    using sync_core_producer [OF p, of td tn] by (metis prod_cases3)
  have S1: "S1 = (if sync_period S \<le> sync_elapsed S td then CO_SYNCsend ?A else ?A)"
    "st1 = (if sync_period S \<le> sync_elapsed S td then CO_SYNC_RX_TX else ?st)"
    using c(2) by (auto simp: sync_produce_def Let_def split: if_splits)
  have e: "sync_em S1 = sync_em S" unfolding S1(1) by (simp add: CO_SYNCsend_def Let_def)
  have "st1 = CO_SYNC_RX_TX \<longrightarrow> sync_timer S1 = 0"
    unfolding S1 by (simp add: CO_SYNCsend_def Let_def sync_elapsed_def)
  from CO_SYNC_process_core [OF c(1) _ this] i e obtain S2 st2 where h: "sync_same S1 S2" "st2 = CO_SYNC_RX_TX \<longleftrightarrow> st1 = CO_SYNC_RX_TX"
      "CO_SYNC_process S True td tn = do { S \<leftarrow> sync_reset_timeout S2 st2; Some (st2, S, tn1) }" by auto
  have i2: "em_inv (sync_em S2)" using h(1) by (simp add: sync_same_def sync_kept_def)
  obtain S3 where r: "sync_reset_timeout S2 st2 = Some S3" "sync_kept S2 S3"
    using sync_reset_timeout_kept [OF i2, of st2] by (auto simp: wp_ex)
  have f: "sync_kept S1 S3" using h(1) r(2) by (simp add: sync_same_def sync_kept_def)
  have "tx_data (sync_CANtxBuff S) = hd (tx_data (sync_CANtxBuff S)) # tl (tx_data (sync_CANtxBuff S))"
    using l by (metis list.collapse list.size(3) zero_neq_numeral)
  then have up: "(tx_data (sync_CANtxBuff S))[0 := x] = x # tl (tx_data (sync_CANtxBuff S))" for x
    by (metis list_update_code(2))
  have res: "CO_SYNC_process S True td tn = Some (st2, S3, tn1)" using h(3) r(1) by simp
  show ?thesis
  proof (cases "sync_period S \<le> sync_elapsed S td")
    case True
    then have "S1 = CO_SYNCsend ?A" "st2 = CO_SYNC_RX_TX" using S1 h(2) by simp_all
    then show ?thesis using res f p l up True
      by (simp add: sync_kept_def sync_period_def CO_SYNCsend_def Let_def tx_frame_def sync_next_counter_def)
  next
    case False
    then have "S1 = ?A" using S1 by simp
    then show ?thesis using res f p l False by (simp add: sync_kept_def sync_period_def)
  qed
qed

section \<open>The producer\<close>

definition sync_call :: "u32 \<times> u32 option \<Rightarrow> sync \<Rightarrow> sync option" where
  "sync_call c S = map_option (\<lambda>(_, S, _). S) (CO_SYNC_process S True (fst c) (snd c))"

text \<open>The numbers that follow the number \<open>c\<close>, modulo the overflow value.\<close>

definition sync_number :: "nat \<Rightarrow> nat \<Rightarrow> nat \<Rightarrow> u8" where
  "sync_number ovf c k = word_of_nat ((c + k) mod ovf + 1)"

lemma sync_next_counter_number:
  assumes "sync_counter S \<le> counterOverflowValue S" "counterOverflowValue S \<noteq> 0" "counterOverflowValue S \<le> 240"
  shows "unat (sync_next_counter S) = unat (sync_counter S) mod unat (counterOverflowValue S) + 1"
proof -
  have u: "unat (sync_counter S + 1) = unat (sync_counter S) + 1" using assms(1,3)
    by (subst unat_plus_small) (auto simp: word_le_nat_alt)
  have "0 < unat (counterOverflowValue S)" using assms(2) by (simp add: unat_gt_0)
  moreover have "unat (sync_counter S) \<le> unat (counterOverflowValue S)" using assms(1) by (simp add: word_le_nat_alt)
  moreover have "unat (sync_next_counter S) = (if unat (counterOverflowValue S) < unat (sync_counter S) + 1 then 1 else unat (sync_counter S) + 1)"
    by (simp add: sync_next_counter_def word_less_nat_alt u)
  ultimately show ?thesis by (cases "unat (sync_counter S) = unat (counterOverflowValue S)") auto
qed

definition producer_ok :: "u32 \<Rightarrow> u8 \<Rightarrow> u16 \<Rightarrow> sync \<Rightarrow> bool" where
  "producer_ok p ovf ident S \<longleftrightarrow> em_inv (sync_em S) \<and> sync_isProducer S \<and> sync_period S = p \<and> 0 < p \<and>
     counterOverflowValue S = ovf \<and> ovf \<noteq> 0 \<and> ovf \<le> 240 \<and> sync_counter S \<le> ovf \<and> sync_timer S < p \<and> \<not> sync_CANrxNew S \<and>
     length (tx_data (sync_CANtxBuff S)) = 8 \<and> tx_ident (sync_CANtxBuff S) = ident \<and> tx_DLC (sync_CANtxBuff S) = 1"

lemma sync_elapsed_nat:
  assumes "\<not> sync_CANrxNew S" "sync_timer S < p" "td \<le> 0xFFFFFFFF - p"
  shows "unat (sync_elapsed S td) = unat (sync_timer S) + unat td"
proof -
  have "unat (0xFFFFFFFF - p :: u32) = 0xFFFFFFFF - unat p" using unat_u32_less [of p] by (subst unat_minus_ge) simp_all
  then have "unat (sync_timer S) + unat td < 4294967296"
    using assms(2,3) unat_u32_less [of p] by (simp add: word_less_nat_alt word_le_nat_alt)
  then have "unat (sync_timer S + td) = unat (sync_timer S) + unat td" by (simp add: unat_plus_small)
  then show ?thesis using assms(1) by (auto simp: sync_elapsed_def word_less_nat_alt)
qed

lemma sync_call_producer:
  assumes ok: "producer_ok p ovf ident S" and td: "fst c \<le> 0xFFFFFFFF - p"
  shows "\<exists>S'. sync_call c S = Some S' \<and> producer_ok p ovf ident S' \<and>
    (if unat p \<le> unat (sync_timer S) + unat (fst c)
     then sync_timer S' = 0 \<and> unat (sync_counter S') = unat (sync_counter S) mod unat ovf + 1 \<and>
       sync_sent S' = sync_sent S @ [(ident, [sync_number (unat ovf) (unat (sync_counter S)) 0])]
     else unat (sync_timer S') = unat (sync_timer S) + unat (fst c) \<and> sync_counter S' = sync_counter S \<and> sync_sent S' = sync_sent S)"
proof -
  note o = ok [unfolded producer_ok_def]
  have e: "unat (sync_elapsed S (fst c)) = unat (sync_timer S) + unat (fst c)"
    using sync_elapsed_nat [of S p "fst c"] o td by auto
  have n: "unat (sync_next_counter S) = unat (sync_counter S) mod unat ovf + 1"
    using sync_next_counter_number [of S] o by auto
  have b: "unat (sync_counter S) mod unat ovf + 1 \<le> unat ovf" using o by (simp add: unat_gt_0 Suc_leI)
  have num: "sync_number (unat ovf) (unat (sync_counter S)) 0 = sync_next_counter S"
    unfolding sync_number_def add_0_right n [symmetric] by simp
  obtain st S' tn' where h: "CO_SYNC_process S True (fst c) (snd c) = Some (st, S', tn')" "em_inv (sync_em S')" "sync_isProducer S'"
      "sync_period S' = p" "counterOverflowValue S' = ovf" "\<not> sync_CANrxNew S'" "length (tx_data (sync_CANtxBuff S')) = 8"
      "tx_ident (sync_CANtxBuff S') = ident" "tx_DLC (sync_CANtxBuff S') = 1"
      "if p \<le> sync_elapsed S (fst c) then sync_timer S' = 0 \<and> sync_counter S' = sync_next_counter S \<and>
         sync_sent S' = sync_sent S @ [(ident, [sync_next_counter S])]
       else sync_timer S' = sync_elapsed S (fst c) \<and> sync_counter S' = sync_counter S \<and> sync_sent S' = sync_sent S"
    using sync_producer_call [of S "fst c" "snd c"] o by auto
  have "sync_call c S = Some S'" using h(1) by (simp add: sync_call_def)
  then show ?thesis using h o n b num e by (auto simp: producer_ok_def word_le_nat_alt word_less_nat_alt split: if_splits)
qed


section \<open>The consumer\<close>

lemma sync_core_consumer:
  assumes "\<not> sync_isProducer S" "0 < sync_period S"
  shows "sync_core S td tn = do {
     (S1, tn) \<leftarrow> sync_check_timeout (S\<lparr>sync_timer := sync_elapsed S td, sync_CANrxNew := False\<rparr>) (sync_period S) tn;
     Some (S1, if sync_CANrxNew S then CO_SYNC_RX_TX else CO_SYNC_NONE, tn) }"
  using assms by (simp add: sync_core_def sync_advance_eq Let_def sync_period_def)

definition consumer_ok :: "u32 \<Rightarrow> sync \<Rightarrow> bool" where
  "consumer_ok p S \<longleftrightarrow> em_inv (sync_em S) \<and> \<not> sync_isProducer S \<and> sync_period S = p \<and> 0 < p \<and> \<not> sync_CANrxNew S"

definition sync_late :: "u32 \<Rightarrow> u32 \<Rightarrow> sync \<Rightarrow> bool" where
  "sync_late p td S \<longleftrightarrow> timeoutError S = 1 \<and> sync_periodTimeout p < sync_elapsed S td"

lemma sync_check_timeout_eq:
  assumes "em_inv (sync_em S)"
  shows "\<exists>S1 tn1. sync_check_timeout S p tn = Some (S1, tn1) \<and> sync_kept S S1 \<and>
    (if timeoutError S = 1 \<and> sync_periodTimeout p < sync_timer S
     then timeoutError S1 = 2 \<and> CO_isError (sync_em S1) CO_EM_SYNC_TIME_OUT
     else timeoutError S1 = timeoutError S \<and> CO_isError (sync_em S1) CO_EM_SYNC_TIME_OUT = CO_isError (sync_em S) CO_EM_SYNC_TIME_OUT)"
  using assms by (simp add: sync_check_timeout_def Let_def CO_errorReport_eq sync_kept_def error_result_inv error_result_isError err_bit_def)

lemma sync_consumer_call:
  assumes ok: "consumer_ok p S"
  shows "\<exists>S'. sync_call c S = Some S' \<and> consumer_ok p S' \<and> sync_timer S' = sync_elapsed S (fst c) \<and>
    counterOverflowValue S' = counterOverflowValue S \<and>
    (if sync_late p (fst c) S then timeoutError S' = 2 \<and> CO_isError (sync_em S') CO_EM_SYNC_TIME_OUT
     else timeoutError S' = timeoutError S \<and>
       CO_isError (sync_em S') CO_EM_SYNC_TIME_OUT = CO_isError (sync_em S) CO_EM_SYNC_TIME_OUT)"
proof -
  let ?A = "S\<lparr>sync_timer := sync_elapsed S (fst c), sync_CANrxNew := False\<rparr>"
  note o = ok [unfolded consumer_ok_def]
  obtain S1 tn1 where t: "sync_check_timeout ?A p (snd c) = Some (S1, tn1)" "sync_kept ?A S1"
      "if sync_late p (fst c) S then timeoutError S1 = 2 \<and> CO_isError (sync_em S1) CO_EM_SYNC_TIME_OUT
       else timeoutError S1 = timeoutError S \<and> CO_isError (sync_em S1) CO_EM_SYNC_TIME_OUT = CO_isError (sync_em S) CO_EM_SYNC_TIME_OUT"
    using sync_check_timeout_eq [of ?A p "snd c"] o by (auto simp: sync_late_def)
  have "sync_core S (fst c) (snd c) = Some (S1, CO_SYNC_NONE, tn1)"
    using sync_core_consumer [of S] o t(1) by simp
  from CO_SYNC_process_core [OF this] t(2) obtain S2 st2 where h: "sync_same S1 S2" "st2 \<noteq> CO_SYNC_RX_TX"
      "CO_SYNC_process S True (fst c) (snd c) = do { S \<leftarrow> sync_reset_timeout S2 st2; Some (st2, S, tn1) }"
    by (auto simp: sync_kept_def)
  then have "sync_call c S = Some S2" by (simp add: sync_call_def sync_reset_timeout_none)
  then show ?thesis using h(1) t(2,3) o by (simp add: sync_same_def sync_kept_def consumer_ok_def sync_period_def)
qed

text \<open>Waiting for SYNC: at most \<open>T\<close> microseconds from being late, or reported.\<close>

definition sync_waiting :: "u32 \<Rightarrow> u8 \<Rightarrow> nat \<Rightarrow> sync \<Rightarrow> bool" where
  "sync_waiting p ovf T S \<longleftrightarrow> consumer_ok p S \<and> counterOverflowValue S = ovf \<and>
     (timeoutError S = 1 \<and> sync_timer S \<le> sync_periodTimeout p \<and> unat (sync_periodTimeout p) < unat (sync_timer S) + T \<or>
      timeoutError S = 2 \<and> CO_isError (sync_em S) CO_EM_SYNC_TIME_OUT)"

lemma sync_elapsed_late:
  assumes "\<not> sync_CANrxNew S" "sync_timer S \<le> q" "td \<le> 0xFFFFFFFF - q"
  shows "unat (sync_elapsed S td) = unat (sync_timer S) + unat td"
proof -
  have "unat (0xFFFFFFFF - q :: u32) = 0xFFFFFFFF - unat q" using unat_u32_less [of q] by (subst unat_minus_ge) simp_all
  then have "unat (sync_timer S + td) = unat (sync_timer S) + unat td"
    using assms(2,3) unat_u32_less [of q] by (intro unat_plus_small) (simp add: word_le_nat_alt)
  then show ?thesis using assms(1) by (auto simp: sync_elapsed_def word_less_nat_alt)
qed

lemma sync_call_waiting:
  assumes w: "sync_waiting p ovf (unat (fst c) + T) S" and td: "fst c \<le> 0xFFFFFFFF - sync_periodTimeout p"
  shows "\<exists>S'. sync_call c S = Some S' \<and> sync_waiting p ovf T S'"
proof -
  have ok: "consumer_ok p S" using w by (simp add: sync_waiting_def)
  obtain S' where h: "sync_call c S = Some S'" "consumer_ok p S'" "sync_timer S' = sync_elapsed S (fst c)"
      "counterOverflowValue S' = counterOverflowValue S"
      "if sync_late p (fst c) S then timeoutError S' = 2 \<and> CO_isError (sync_em S') CO_EM_SYNC_TIME_OUT
       else timeoutError S' = timeoutError S \<and>
         CO_isError (sync_em S') CO_EM_SYNC_TIME_OUT = CO_isError (sync_em S) CO_EM_SYNC_TIME_OUT"
    using sync_consumer_call [OF ok] by blast
  have "timeoutError S = 1 \<Longrightarrow> unat (sync_elapsed S (fst c)) = unat (sync_timer S) + unat (fst c)"
    using sync_elapsed_late [OF _ _ td] w ok by (auto simp: sync_waiting_def consumer_ok_def)
  then show ?thesis using h w by (auto simp: sync_waiting_def sync_late_def not_less split: if_splits)
qed

text \<open>
  A missing SYNC is detected and its return noticed. A consumer that has seen SYNC and gets none
  while more than one and a half periods pass has reported the timeout to the emergency object; the
  next SYNC with the right length withdraws the error.
\<close>

theorem sync_timeout_detected:
  assumes "consumer_ok p S" "timeoutError S = 1" "sync_timer S \<le> sync_periodTimeout p"
    and "list_all (\<lambda>c. fst c \<le> 0xFFFFFFFF - sync_periodTimeout p) calls"
    and "unat (sync_periodTimeout p) < unat (sync_timer S) + sum_list (map (\<lambda>c. unat (fst c)) calls)"
    and "DLC = (if counterOverflowValue S = 0 then 0 else 1)"
  shows "\<exists>S' S'' tn'. run sync_call calls S = Some S' \<and> CO_isError (sync_em S') CO_EM_SYNC_TIME_OUT \<and>
    CO_SYNC_process (CO_SYNC_receive S' DLC data) True td tn = Some (CO_SYNC_RX_TX, S'', tn') \<and>
    \<not> CO_isError (sync_em S'') CO_EM_SYNC_TIME_OUT"
proof -
  have "\<exists>S'. run sync_call cs S0 = Some S' \<and> sync_waiting p ovf 0 S'"
    if "sync_waiting p ovf (sum_list (map (\<lambda>c. unat (fst c)) cs)) S0" "list_all (\<lambda>c. fst c \<le> 0xFFFFFFFF - sync_periodTimeout p) cs"
    for ovf S0 cs
    using that
  proof (induction cs arbitrary: S0)
    case (Cons c cs)
    then obtain S1 where "sync_call c S0 = Some S1" "sync_waiting p ovf (sum_list (map (\<lambda>c. unat (fst c)) cs)) S1"
      using sync_call_waiting [of p ovf c _ S0] by auto
    then show ?case using Cons by simp
  qed simp
  moreover have "sync_waiting p (counterOverflowValue S) (sum_list (map (\<lambda>c. unat (fst c)) calls)) S"
    using assms by (simp add: sync_waiting_def)
  ultimately obtain S' where r: "run sync_call calls S = Some S'" "sync_waiting p (counterOverflowValue S) 0 S'"
    using assms(4) by blast
  have e: "timeoutError S' = 2" "CO_isError (sync_em S') CO_EM_SYNC_TIME_OUT" and o: "consumer_ok p S'"
    and ovf: "counterOverflowValue S' = counterOverflowValue S"
    using r(2) by (auto simp: sync_waiting_def word_le_nat_alt)
  let ?R = "CO_SYNC_receive S' DLC data"
  have R: "sync_CANrxNew ?R" "timeoutError ?R = 2" "em_inv (sync_em ?R)" "\<not> sync_isProducer ?R" "0 < sync_period ?R"
    using o e ovf assms(6) by (auto simp: CO_SYNC_receive_def Let_def consumer_ok_def sync_period_def)
  let ?A = "?R\<lparr>sync_timer := sync_elapsed ?R td, sync_CANrxNew := False\<rparr>"
  obtain S1 tn1 where t: "sync_check_timeout ?A (sync_period ?R) tn = Some (S1, tn1)" "sync_kept ?A S1" "timeoutError S1 = 2"
    using sync_check_timeout_eq [of ?A "sync_period ?R" tn] R(2,3) by auto
  have c: "sync_core ?R td tn = Some (S1, CO_SYNC_RX_TX, tn1)" using sync_core_consumer [OF R(4,5)] R(1) t(1) by simp
  have "sync_timer S1 = 0" "em_inv (sync_em S1)" using t(2) R(1) by (simp_all add: sync_kept_def sync_elapsed_def)
  with CO_SYNC_process_core [OF c] obtain S2 where h: "sync_same S1 S2"
      "CO_SYNC_process ?R True td tn = do { S \<leftarrow> sync_reset_timeout S2 CO_SYNC_RX_TX; Some (CO_SYNC_RX_TX, S, tn1) }" by auto
  then show ?thesis using sync_reset_timeout_RX [of S2] t(3) r(1) e(2) by (auto simp: sync_same_def sync_kept_def)
qed

text \<open>
  The counter is a byte that is incremented before it is compared: after a foreign SYNC with the number
  255, the producer sends the number 0, which is not in the range of the counter.
\<close>

lemma sync_counter_wraps:
  assumes "sync_counter S = 255"
  shows "sync_next_counter S = 0"
proof -
  have "sync_counter S + 1 = 0" using assms by simp
  then show ?thesis by (simp add: sync_next_counter_def)
qed

lemma CO_SYNC_init_inv:
  "em_inv em \<Longrightarrow> em_inv (sync_em S) \<Longrightarrow> em_inv (sync_em (snd (snd (CO_SYNC_init rxRet txOk tx em S e1005 e1006 e1007 e1019))))"
  by (simp add: CO_SYNC_init_def sync_init_counter_def sync_zero_def sync_txInit_def Let_def case_prod_beta)

section \<open>Examples\<close>

text \<open>A producer with a period of one millisecond that counts to four, and a consumer.\<close>

definition example_sync_em :: em where
  "example_sync_em = example_em\<lparr>em_mem := mem_write (em_mem example_em) 200 [0x80, 0, 0, 0x40, 0xE8, 0x03, 0, 0, 4]\<rparr>"

definition example_sync :: sync where
  "example_sync = snd (snd (CO_SYNC_init CO_ERROR_NO True example_tx example_sync_em (sync_zero example_tx example_sync_em)
     (example_var 0x1005 200 4) (example_var 0x1006 204 4) None (example_var 0x1019 208 1)))"

definition example_sync_consumer :: sync where
  "example_sync_consumer = example_sync\<lparr>sync_isProducer := False, timeoutError := 1\<rparr>"

lemma example_sync_facts:
  "sync_isProducer example_sync" "sync_period example_sync = 1000" "counterOverflowValue example_sync = 4"
  "sync_counter example_sync = 0" "sync_timer example_sync = 0" "\<not> sync_CANrxNew example_sync"
  "length (tx_data (sync_CANtxBuff example_sync)) = 8" "tx_ident (sync_CANtxBuff example_sync) = 0x80"
  "tx_DLC (sync_CANtxBuff example_sync) = 1" "sync_sent example_sync = []" "sync_periodTimeout 1000 = 1500"
  by code_simp+

lemma example_sync_inv: "em_inv (sync_em example_sync)"
  using example_em_inv unfolding example_sync_def by (intro CO_SYNC_init_inv) (simp_all add: example_sync_em_def sync_zero_def)


theorem sync_timeout_detected_witness:
  "\<exists>S' S'' tn'. run sync_call [(1000, None), (501, None)] example_sync_consumer = Some S' \<and> CO_isError (sync_em S') 0x18 \<and>
     CO_SYNC_process (CO_SYNC_receive S' 1 [3]) True 10 None = Some (CO_SYNC_RX_TX, S'', tn') \<and> \<not> CO_isError (sync_em S'') 0x18"
proof -
  have "consumer_ok 1000 example_sync_consumer" using example_sync_facts example_sync_inv
    by (simp add: consumer_ok_def example_sync_consumer_def sync_period_def)
  then show ?thesis using example_sync_facts
    by (intro sync_timeout_detected [of 1000]) (simp_all add: example_sync_consumer_def)
qed

end
