(* ===== verification/PDO.thy ===== *)
theory PDO
  imports SYNC
begin

text \<open>
  Process data objects (\<open>301/CO_PDO.c\<close>, \<open>301/CO_PDO.h\<close>) in the built configuration: mapping through
  the object dictionary's access functions, dynamic configuration, synchronous transmission and
  timers. A received PDO (RPDO) copies the bytes of a CAN message into the mapped variables of the
  object dictionary, a transmitted one (TPDO) collects them into a message.
\<close>

section \<open>The common part\<close>

abbreviation (input) "CO_PDO_MAX_SIZE \<equiv> 8 :: nat"
abbreviation (input) "CO_PDO_MAX_MAPPED_ENTRIES \<equiv> 8 :: nat"
abbreviation (input) "CO_PDO_TRANSM_TYPE_SYNC_ACYCLIC \<equiv> 0 :: u8"
abbreviation (input) "CO_PDO_TRANSM_TYPE_SYNC_240 \<equiv> 0xF0 :: u8"
abbreviation (input) "CO_PDO_TRANSM_TYPE_SYNC_EVENT_LO \<equiv> 0xFE :: u8"
abbreviation (input) "CO_EM_RPDO_WRONG_LENGTH \<equiv> 0x04 :: u8"
abbreviation (input) "CO_EM_PDO_WRONG_MAPPING \<equiv> 0x1A :: u8"
abbreviation (input) "CO_EM_RPDO_TIME_OUT \<equiv> 0x17 :: u8"
abbreviation (input) "CO_EM_GENERIC_SOFTWARE_ERROR \<equiv> 0x2C :: u8"
abbreviation (input) "CO_EMC_PDO_LENGTH \<equiv> 0x8210 :: u16"
abbreviation (input) "CO_EMC_PDO_LENGTH_EXC \<equiv> 0x8220 :: u16"
abbreviation (input) "CO_EMC_PROTOCOL_ERROR \<equiv> 0x8200 :: u16"
abbreviation (input) "CO_EMC_RPDO_TIMEOUT \<equiv> 0x8250 :: u16"
abbreviation (input) "ODA_TPDO \<equiv> 0x04 :: u8"
abbreviation (input) "ODA_RPDO \<equiv> 0x08 :: u8"

text \<open>
  One element of the array \<open>OD_IO\<close>: the stream of the mapped variable, whose \<open>dataOffset\<close> holds the
  mapped length between the accesses, and its access functions, which are null pointers
  (\<^const>\<open>None\<close>) in a cleared object.
\<close>

record PDO_io =
  pio_stream :: OD_stream
  pio_read :: "OD_read_fn option"
  pio_write :: "OD_write_fn option"

text \<open>
  \<open>CO_PDO_common_t\<close>. The emergency object, which holds the memory of the variables, and the object
  dictionary are pointers in the source; here they are the objects themselves. A pointer to a byte of
  the request flags of an extension is the index of the entry and the number of the byte.
\<close>

record CO_PDO_common =
  pdo_em :: em
  pdo_OD :: OD_t
  pdo_valid :: bool
  pdo_dataLength :: u8
  mappedObjectsCount :: u8
  pdo_OD_IO :: "PDO_io list"
  flagPDObyte :: "(u16 \<times> nat) option list"
  flagPDObitmask :: "u8 list"
  pdo_isRPDO :: bool
  preDefinedCanId :: u16
  configuredCanId :: u16
  OD_communicationParam_extended :: bool
  OD_mappingParam_extended :: bool

definition PDO_io_null :: PDO_io where
  "PDO_io_null = \<lparr>pio_stream = stream OD_IO_null, pio_read = None, pio_write = None\<rparr>"

definition pdo_common_zero :: "em \<Rightarrow> OD_t \<Rightarrow> CO_PDO_common" where
  "pdo_common_zero em od =
     \<lparr>pdo_em = em, pdo_OD = od, pdo_valid = False, pdo_dataLength = 0, mappedObjectsCount = 0,
      pdo_OD_IO = replicate 8 PDO_io_null, flagPDObyte = replicate 8 None, flagPDObitmask = replicate 8 0,
      pdo_isRPDO = False, preDefinedCanId = 0, configuredCanId = 0,
      OD_communicationParam_extended = False, OD_mappingParam_extended = False\<rparr>"

definition pdo_set_mem :: "mem \<Rightarrow> 'a CO_PDO_common_scheme \<Rightarrow> 'a CO_PDO_common_scheme" where
  "pdo_set_mem m P = P\<lparr>pdo_em := (pdo_em P)\<lparr>em_mem := m\<rparr>\<rparr>"

definition OD_write_dummy :: OD_write_fn where
  "OD_write_dummy s buf m = (ODR_OK, s, word_of_nat (length buf), m)"

definition OD_read_dummy :: OD_read_fn where
  "OD_read_dummy s count m = (ODR_OK, s, replicate (unat (min count (dataLength s))) 0, m)"

section \<open>Mapping\<close>

text \<open>The request flags of the mapped variable of a TPDO.\<close>

definition pdo_flag_config :: "OD_entry \<Rightarrow> u8 \<Rightarrow> nat \<Rightarrow> 'a CO_PDO_common_scheme \<Rightarrow> 'a CO_PDO_common_scheme" where
  "pdo_flag_config entry subIndex i P =
     (if unat subIndex < OD_FLAGS_PDO_SIZE * 8 \<and> extension entry \<noteq> None
      then P\<lparr>flagPDObyte := (flagPDObyte P)[i := Some (entry_index entry, unat (drop_bit 3 subIndex))],
             flagPDObitmask := (flagPDObitmask P)[i := push_bit (unat (subIndex AND 0x07)) 1]\<rparr>
      else P\<lparr>flagPDObyte := (flagPDObyte P)[i := None]\<rparr>)"

text \<open>The element for a dummy entry and the one for a variable.\<close>

definition dummy_io :: "u8 \<Rightarrow> PDO_io" where
  "dummy_io mappedLength =
     \<lparr>pio_stream = (stream OD_IO_null)\<lparr>dataLength := ucast mappedLength, dataOffset := ucast mappedLength\<rparr>,
      pio_read = Some OD_read_dummy, pio_write = Some OD_write_dummy\<rparr>"

definition mapped_io :: "OD_IO \<Rightarrow> u8 \<Rightarrow> PDO_io" where
  "mapped_io io mappedLength =
     \<lparr>pio_stream = (stream io)\<lparr>dataOffset := ucast mappedLength\<rparr>,
      pio_read = Some (io_read io), pio_write = Some (io_write io)\<rparr>"

definition pdo_set_io :: "nat \<Rightarrow> PDO_io \<Rightarrow> 'a CO_PDO_common_scheme \<Rightarrow> 'a CO_PDO_common_scheme" where
  "pdo_set_io i io P = P\<lparr>pdo_OD_IO := (pdo_OD_IO P)[i := io]\<rparr>"

definition PDOconfigMap :: "'a CO_PDO_common_scheme \<Rightarrow> u32 \<Rightarrow> nat \<Rightarrow> bool \<Rightarrow> ODR \<times> 'a CO_PDO_common_scheme" where
  "PDOconfigMap P mp i isRPDO =
     (let index = ucast (drop_bit 16 mp) :: u16; subIndex = ucast (drop_bit 8 mp) :: u8;
          mappedLengthBits = ucast mp :: u8; mappedLength = drop_bit 3 mappedLengthBits in
      if unat mappedLength > CO_PDO_MAX_SIZE then (ODR_MAP_LEN, P)
      else if index < 0x20 \<and> subIndex = 0 then (ODR_OK, pdo_set_io i (dummy_io mappedLength) P)
      else
        let entry = OD_find (pdo_OD P) index; (odRet, io) = OD_getSub entry subIndex OD_IO_null False in
        if odRet \<noteq> ODR_OK then (odRet, P)
        else if attribute (stream io) AND (if isRPDO then ODA_RPDO else ODA_TPDO) = 0 \<or>
                mappedLengthBits AND 0x07 \<noteq> 0 \<or> dataLength (stream io) < ucast mappedLength
        then (ODR_NO_MAP, P)
        else
          let P = pdo_set_io i (mapped_io io mappedLength) P
          in (ODR_OK, if isRPDO then P else pdo_flag_config (the entry) subIndex i P))"

text \<open>An erroneous mapping found in the initialisation is marked by a length that exceeds the variable.\<close>

definition wrong_io :: "PDO_io \<Rightarrow> PDO_io" where
  "wrong_io io = io\<lparr>pio_stream := (pio_stream io)\<lparr>dataLength := 0, dataOffset := 0xFF\<rparr>\<rparr>"

definition pdo_mappedLength :: "PDO_io \<Rightarrow> u8" where
  "pdo_mappedLength io = ucast (dataOffset (pio_stream io))"

text \<open>
  The loop of \<open>PDO_initMapping\<close> over the eight elements: the length of the enabled ones and the first
  erroneous mapping are collected; an error of the object dictionary ends it.
\<close>

fun init_mapping_loop :: "OD_entry option \<Rightarrow> bool \<Rightarrow> u8 \<Rightarrow> nat list \<Rightarrow> 'a CO_PDO_common_scheme \<Rightarrow> nat \<Rightarrow> u32 \<Rightarrow>
    CO_ReturnError \<times> u32 option \<times> nat \<times> u32 \<times> 'a CO_PDO_common_scheme" where
  "init_mapping_loop e isRPDO cnt [] P len err = (CO_ERROR_NO, None, len, err, P)"
| "init_mapping_loop e isRPDO cnt (i # is) P len err =
     (let (odRet, mp, m) = OD_get_u32 e (word_of_nat i + 1) True (em_mem (pdo_em P)); P = pdo_set_mem m P in
      if odRet = ODR_SUB_NOT_EXIST then init_mapping_loop e isRPDO cnt is P len err
      else if odRet \<noteq> ODR_OK
      then (CO_ERROR_OD_PARAMETERS, Some (push_bit 8 (ucast (OD_getIndex e)) OR word_of_nat i), len, err, P)
      else
        let (odRet, P) = PDOconfigMap P mp i isRPDO;
            (P, err) =
              (if odRet \<noteq> ODR_OK then (pdo_set_io i (wrong_io (pdo_OD_IO P ! i)) P, if err = 0 then mp else err)
               else (P, err));
            len = (if i < unat cnt then len + unat (dataOffset (pio_stream (pdo_OD_IO P ! i))) else len)
        in init_mapping_loop e isRPDO cnt is P len err)"

definition PDO_initMapping :: "'a CO_PDO_common_scheme \<Rightarrow> OD_entry option \<Rightarrow> bool \<Rightarrow>
    CO_ReturnError \<times> u32 option \<times> u32 \<times> 'a CO_PDO_common_scheme" where
  "PDO_initMapping P e isRPDO =
     (let (odRet, cnt, m) = OD_get_u8 e 0 True (em_mem (pdo_em P)); P = pdo_set_mem m P in
      if odRet \<noteq> ODR_OK then (CO_ERROR_OD_PARAMETERS, Some (push_bit 8 (ucast (OD_getIndex e))), 0, P)
      else
        let (ret, info, len, err, P) = init_mapping_loop e isRPDO cnt [0..<CO_PDO_MAX_MAPPED_ENTRIES] P 0 0 in
        if ret \<noteq> CO_ERROR_NO then (ret, info, err, P)
        else
          let err = (if (len > CO_PDO_MAX_SIZE \<or> (len = 0 \<and> cnt > 0)) \<and> err = 0 then 1 else err);
              P = (if err = 0 then P\<lparr>pdo_dataLength := word_of_nat len, mappedObjectsCount := cnt\<rparr> else P)
          in (CO_ERROR_NO, None, err, P))"

text \<open>Integers in the caller's buffer; a buffer that is too short is read out of range.\<close>

definition get_u16 :: "u8 list \<Rightarrow> u16 option" where
  "get_u16 b = map_option le_word (buf_read b 0 2)"

definition get_u32 :: "u8 list \<Rightarrow> u32 option" where
  "get_u32 b = map_option le_word (buf_read b 0 4)"

definition pdo_write_original :: "'a CO_PDO_common_scheme \<Rightarrow> OD_stream \<Rightarrow> u8 list \<Rightarrow>
    ODR \<times> OD_stream \<times> u32 \<times> 'a CO_PDO_common_scheme" where
  "pdo_write_original P st b =
     (let (r, st', k, m) = OD_writeOriginal st b (em_mem (pdo_em P)) in (r, st', k, pdo_set_mem m P))"

text \<open>
  The sum of the mapped lengths of the first elements, or the error of an element whose mapping has
  been wrong since the initialisation.
\<close>

fun mapped_sum :: "PDO_io list \<Rightarrow> nat option" where
  "mapped_sum [] = Some 0"
| "mapped_sum (io # ios) =
     (if dataOffset (pio_stream io) > dataLength (pio_stream io) then None
      else map_option ((+) (unat (dataOffset (pio_stream io)))) (mapped_sum ios))"

definition OD_write_PDO_mapping :: "'a CO_PDO_common_scheme \<Rightarrow> OD_stream \<Rightarrow> u8 list \<Rightarrow>
    (ODR \<times> OD_stream \<times> u32 \<times> 'a CO_PDO_common_scheme) option" where
  "OD_write_PDO_mapping P st b =
     (if unat (stream_subIndex st) > CO_PDO_MAX_MAPPED_ENTRIES then Some (ODR_DEV_INCOMPAT, st, 0, P)
      else if pdo_valid P \<or> (mappedObjectsCount P \<noteq> 0 \<and> stream_subIndex st > 0)
      then Some (ODR_UNSUPP_ACCESS, st, 0, P)
      else if stream_subIndex st = 0 then do {
        cnt \<leftarrow> arr_get b 0;
        if unat cnt > CO_PDO_MAX_MAPPED_ENTRIES then Some (ODR_MAP_LEN, st, 0, P)
        else
          case mapped_sum (take (unat cnt) (pdo_OD_IO P)) of
            None \<Rightarrow> Some (ODR_NO_MAP, st, 0, P)
          | Some len \<Rightarrow>
              if len > CO_PDO_MAX_SIZE then Some (ODR_MAP_LEN, st, 0, P)
              else if len = 0 \<and> cnt > 0 then Some (ODR_INVALID_VALUE, st, 0, P)
              else Some (pdo_write_original (P\<lparr>pdo_dataLength := word_of_nat len, mappedObjectsCount := cnt\<rparr>) st b)
      }
      else do {
        val \<leftarrow> get_u32 b;
        let (odRet, P) = PDOconfigMap P val (unat (stream_subIndex st - 1)) (pdo_isRPDO P);
        if odRet \<noteq> ODR_OK then Some (odRet, st, 0, P) else Some (pdo_write_original P st b)
      })"

section \<open>Communication parameters\<close>

definition OD_read_PDO_commParam :: "'a CO_PDO_common_scheme \<Rightarrow> OD_stream \<Rightarrow> u32 \<Rightarrow>
    ODR \<times> OD_stream \<times> u8 list \<times> 'a CO_PDO_common_scheme" where
  "OD_read_PDO_commParam P st count =
     (let (r, st', bs, m) = OD_readOriginal st count (em_mem (pdo_em P)); P = pdo_set_mem m P in
      if r = ODR_OK \<and> stream_subIndex st = 1 \<and> length bs = 4 then
        let COB_ID = le_word bs :: u32; CAN_ID = ucast (COB_ID AND 0x7FF) :: u16;
            COB_ID = (if CAN_ID \<noteq> 0 \<and> CAN_ID = preDefinedCanId P AND 0xFF80
                      then (COB_ID AND 0xFFFF0000) OR ucast (preDefinedCanId P) else COB_ID);
            COB_ID = (if \<not> pdo_valid P then COB_ID OR 0x80000000 else COB_ID)
        in (r, st', le_bytes 4 COB_ID, P)
      else (r, st', bs, P))"

text \<open>The test of a new COB-ID that RPDO and TPDO share, and what is stored for it.\<close>

definition pdo_cob_invalid :: "'a CO_PDO_common_scheme \<Rightarrow> u32 \<Rightarrow> bool" where
  "pdo_cob_invalid P COB_ID =
     (let CAN_ID = ucast (COB_ID AND 0x7FF) :: u16; valid = (COB_ID AND 0x80000000 = 0) in
      COB_ID AND 0x3FFFF800 \<noteq> 0 \<or> (valid \<and> pdo_valid P \<and> CAN_ID \<noteq> configuredCanId P) \<or>
      (valid \<and> CO_IS_RESTRICTED_CAN_ID CAN_ID) \<or> (valid \<and> mappedObjectsCount P = 0))"

definition pdo_cob_stored :: "'a CO_PDO_common_scheme \<Rightarrow> u32 \<Rightarrow> u8 list \<Rightarrow> u8 list" where
  "pdo_cob_stored P COB_ID bufCopy =
     (if ucast (COB_ID AND 0x7FF) = preDefinedCanId P then le_bytes 4 (COB_ID AND 0xFFFFFF80) else bufCopy)"

section \<open>Received PDOs\<close>

record CO_RPDO = CO_PDO_common +
  rpdo_CANrxNew :: "bool list"
  rpdo_CANrxData :: "u8 list list"
  rpdo_receiveError :: u8
  synchronous :: bool
  rpdo_timeoutTime_us :: u32
  rpdo_timeoutTimer :: u32
  rpdo_rxIdent :: u16

abbreviation (input) "CO_RPDO_RX_ACK_NO_ERROR \<equiv> 0 :: u8"
abbreviation (input) "CO_RPDO_RX_ACK_ERROR \<equiv> 1 :: u8"
abbreviation (input) "CO_RPDO_RX_ACK \<equiv> 10 :: u8"
abbreviation (input) "CO_RPDO_RX_OK \<equiv> 11 :: u8"
abbreviation (input) "CO_RPDO_RX_SHORT \<equiv> 12 :: u8"
abbreviation (input) "CO_RPDO_RX_LONG \<equiv> 13 :: u8"

text \<open>
  The parameter \<open>sy\<close> is the object behind the pointer \<open>SYNC\<close> of the PDO, \<^const>\<open>None\<close> for a null
  pointer. Of the two receive buffers of a synchronous RPDO one is filled while the other, filled
  before the last SYNC, is processed.
\<close>

definition sync_toggle :: "sync option \<Rightarrow> bool" where
  "sync_toggle sy = (case sy of None \<Rightarrow> False | Some S \<Rightarrow> CANrxToggle S)"

definition rpdo_rx_buf :: "CO_RPDO \<Rightarrow> sync option \<Rightarrow> nat" where
  "rpdo_rx_buf R sy = (if synchronous R \<and> sy \<noteq> None \<and> sync_toggle sy then 1 else 0)"

definition rpdo_process_buf :: "CO_RPDO \<Rightarrow> sync option \<Rightarrow> nat" where
  "rpdo_process_buf R sy = (if synchronous R \<and> sy \<noteq> None \<and> \<not> sync_toggle sy then 1 else 0)"

definition CO_PDO_receive :: "CO_RPDO \<Rightarrow> sync option \<Rightarrow> u8 \<Rightarrow> u8 list \<Rightarrow> CO_RPDO option" where
  "CO_PDO_receive R sy DLC data =
     (let err = rpdo_receiveError R in
      if pdo_valid R then
        if DLC \<ge> pdo_dataLength R then do {
          let err =
            (if DLC = pdo_dataLength R then if err = CO_RPDO_RX_ACK_ERROR then CO_RPDO_RX_OK else err
             else if err = CO_RPDO_RX_ACK_NO_ERROR then CO_RPDO_RX_LONG else err);
          let bufNo = rpdo_rx_buf R sy;
          d \<leftarrow> buf_read data 0 CO_PDO_MAX_SIZE;
          Some (R\<lparr>rpdo_CANrxData := (rpdo_CANrxData R)[bufNo := d],
                  rpdo_CANrxNew := (rpdo_CANrxNew R)[bufNo := True], rpdo_receiveError := err\<rparr>)
        }
        else if err = CO_RPDO_RX_ACK_NO_ERROR then Some (R\<lparr>rpdo_receiveError := CO_RPDO_RX_SHORT\<rparr>)
        else Some R
      else Some R)"

text \<open>
  Sub-index 1 of \<open>OD_write_14xx\<close>: the COB-ID. The result is the error that ends the write, or the bytes
  to store; \<open>rxRet\<close> is the result of \<open>CO_CANrxBufferInit\<close>.
\<close>

definition rpdo_write_cob :: "CO_ReturnError \<Rightarrow> CO_RPDO \<Rightarrow> u32 \<Rightarrow> u8 list \<Rightarrow> (ODR + u8 list) \<times> CO_RPDO" where
  "rpdo_write_cob rxRet R COB_ID bufCopy =
     (let CAN_ID = ucast (COB_ID AND 0x7FF) :: u16; valid = (COB_ID AND 0x80000000 = 0) in
      if pdo_cob_invalid R COB_ID then (Inl ODR_INVALID_VALUE, R)
      else if valid \<noteq> pdo_valid R \<or> CAN_ID \<noteq> configuredCanId R then
        let bufCopy = pdo_cob_stored R COB_ID bufCopy; CAN_ID = (if \<not> valid then 0 else CAN_ID);
            R = (if rxRet = CO_ERROR_NO then R\<lparr>rpdo_rxIdent := CAN_ID\<rparr> else R) in
        if valid \<and> rxRet = CO_ERROR_NO then (Inr bufCopy, R\<lparr>pdo_valid := True, configuredCanId := CAN_ID\<rparr>)
        else
          (if rxRet \<noteq> CO_ERROR_NO then Inl ODR_DEV_INCOMPAT else Inr bufCopy,
           R\<lparr>pdo_valid := False, rpdo_CANrxNew := [False, False]\<rparr>)
      else (Inr bufCopy, R))"

definition rpdo_write_type :: "CO_RPDO \<Rightarrow> u8 \<Rightarrow> u8 list \<Rightarrow> (ODR + u8 list) \<times> CO_RPDO" where
  "rpdo_write_type R transmissionType bufCopy =
     (if transmissionType > CO_PDO_TRANSM_TYPE_SYNC_240 \<and> transmissionType < CO_PDO_TRANSM_TYPE_SYNC_EVENT_LO
      then (Inl ODR_INVALID_VALUE, R)
      else
        let syn = (transmissionType \<le> CO_PDO_TRANSM_TYPE_SYNC_240);
            R = (if synchronous R \<noteq> syn then R\<lparr>rpdo_CANrxNew := (rpdo_CANrxNew R)[1 := False]\<rparr> else R)
        in (Inr bufCopy, R\<lparr>synchronous := syn\<rparr>))"

definition OD_write_14xx :: "CO_ReturnError \<Rightarrow> CO_RPDO \<Rightarrow> OD_stream \<Rightarrow> u8 list \<Rightarrow>
    (ODR \<times> OD_stream \<times> u32 \<times> CO_RPDO) option" where
  "OD_write_14xx rxRet R st b =
     (if length b > 4 then Some (ODR_DEV_INCOMPAT, st, 0, R)
      else do {
        (r, R) \<leftarrow>
          (if stream_subIndex st = 1 then do { v \<leftarrow> get_u32 b; Some (rpdo_write_cob rxRet R v b) }
           else if stream_subIndex st = 2 then do { v \<leftarrow> arr_get b 0; Some (rpdo_write_type R v b) }
           else if stream_subIndex st = 5 then do {
             v \<leftarrow> get_u16 b;
             Some (Inr b, R\<lparr>rpdo_timeoutTime_us := ucast v * 1000, rpdo_timeoutTimer := 0\<rparr>)
           }
           else Some (Inr b, R));
        case r of
          Inl e \<Rightarrow> Some (e, st, 0, R)
        | Inr b \<Rightarrow> Some (pdo_write_original R st b)
      })"

text \<open>The CAN identifier and validity that an initialisation takes from the COB-ID.\<close>

definition pdo_init_cob :: "'a CO_PDO_common_scheme \<Rightarrow> u32 \<Rightarrow> u32 \<Rightarrow> u16 \<Rightarrow> bool \<times> u16 \<times> u32" where
  "pdo_init_cob P err COB_ID preDefined =
     (let valid = (COB_ID AND 0x80000000 = 0); CAN_ID = ucast (COB_ID AND 0x7FF) :: u16;
          wrong = (valid \<and> (mappedObjectsCount P = 0 \<or> CAN_ID = 0));
          valid = (valid \<and> \<not> wrong); err = (if wrong \<and> err = 0 then 1 else err);
          CAN_ID = (if \<not> valid then 0 else CAN_ID);
          CAN_ID = (if CAN_ID \<noteq> 0 \<and> CAN_ID = preDefined AND 0xFF80 then preDefined else CAN_ID)
      in (valid, CAN_ID, err))"

definition pdo_report_mapping :: "'a CO_PDO_common_scheme \<Rightarrow> u32 \<Rightarrow> u32 \<Rightarrow> 'a CO_PDO_common_scheme option" where
  "pdo_report_mapping P err COB_ID =
     (if err \<noteq> 0 then do {
        em \<leftarrow> CO_errorReport (pdo_em P) CO_EM_PDO_WRONG_MAPPING CO_EMC_PROTOCOL_ERROR (if err \<noteq> 1 then err else COB_ID);
        Some (P\<lparr>pdo_em := em\<rparr>)
      }
      else Some P)"

definition rpdo_zero :: "em \<Rightarrow> OD_t \<Rightarrow> CO_RPDO" where
  "rpdo_zero em od = CO_PDO_common.extend (pdo_common_zero em od)
     (CO_RPDO.fields [False, False] [replicate 8 0, replicate 8 0] 0 False 0 0 0)"

text \<open>
  The end of \<open>CO_RPDO_init\<close>, after the CAN buffer: transmission type, event timer and extensions.
\<close>

definition rpdo_init_type :: "CO_RPDO \<Rightarrow> OD_entry option \<Rightarrow> u16 \<Rightarrow> u16 \<Rightarrow> CO_ReturnError \<times> u32 option \<times> CO_RPDO" where
  "rpdo_init_type R e14 preDefined CAN_ID =
     (let (odRet, transmissionType, m) = OD_get_u8 e14 2 True (em_mem (pdo_em R)); R = pdo_set_mem m R in
      if odRet \<noteq> ODR_OK then (CO_ERROR_OD_PARAMETERS, Some (push_bit 8 (ucast (OD_getIndex e14)) OR 2), R)
      else
        let (odRet, eventTime, m) = OD_get_u16 e14 5 True (em_mem (pdo_em R)); R = pdo_set_mem m R;
            eventTime = (if odRet = ODR_OK then eventTime else 0)
        in (CO_ERROR_NO, None,
            R\<lparr>synchronous := (transmissionType \<le> CO_PDO_TRANSM_TYPE_SYNC_240), rpdo_timeoutTime_us := ucast eventTime * 1000,
              pdo_isRPDO := True, preDefinedCanId := preDefined, configuredCanId := CAN_ID,
              OD_communicationParam_extended := True, OD_mappingParam_extended := True\<rparr>))"

definition CO_RPDO_init :: "CO_ReturnError \<Rightarrow> em \<Rightarrow> OD_t \<Rightarrow> CO_RPDO \<Rightarrow> u16 \<Rightarrow> OD_entry option \<Rightarrow> OD_entry option \<Rightarrow>
    (CO_ReturnError \<times> u32 option \<times> CO_RPDO) option" where
  "CO_RPDO_init rxRet em od R preDefined e14 e16 =
     (if e14 = None \<or> e16 = None then Some (CO_ERROR_ILLEGAL_ARGUMENT, None, R)
      else
        let (ret, info, err, R) = PDO_initMapping (rpdo_zero em od) e16 True in
        if ret \<noteq> CO_ERROR_NO then Some (ret, info, R)
        else
          let (odRet, COB_ID, m) = OD_get_u32 e14 1 True (em_mem (pdo_em R)); R = pdo_set_mem m R in
          if odRet \<noteq> ODR_OK
          then Some (CO_ERROR_OD_PARAMETERS, Some (push_bit 8 (ucast (OD_getIndex e14)) OR 1), R)
          else do {
            let (valid, CAN_ID, err) = pdo_init_cob R err COB_ID preDefined;
            R \<leftarrow> pdo_report_mapping R err COB_ID;
            if rxRet \<noteq> CO_ERROR_NO then Some (rxRet, None, R)
            else Some (rpdo_init_type (R\<lparr>rpdo_rxIdent := CAN_ID, pdo_valid := valid\<rparr>) e14 preDefined CAN_ID)
          })"

text \<open>
  One mapped variable gets its bytes of the message at \<open>pos\<close>; what lies beyond the mapped length, up
  to eight bytes, is filled with zeros.
\<close>

definition rpdo_bytes :: "u8 list \<Rightarrow> nat \<Rightarrow> u8 \<Rightarrow> u32 \<Rightarrow> u8 list option" where
  "rpdo_bytes d pos mappedLength len =
     (if len > ucast mappedLength then do {
        x \<leftarrow> buf_read d pos (unat mappedLength);
        buf \<leftarrow> buf_write (replicate CO_PDO_MAX_SIZE 0) 0 x;
        buf_read buf 0 (unat len)
      }
      else buf_read d pos (unat len))"

definition pdo_ODdataLength :: "PDO_io \<Rightarrow> u32" where
  "pdo_ODdataLength io = (if dataLength (pio_stream io) > 8 then 8 else dataLength (pio_stream io))"

text \<open>The loop over the mapped variables; it returns the verified length as well.\<close>

function rpdo_copy :: "nat \<Rightarrow> nat \<Rightarrow> u32 \<Rightarrow> u8 list \<Rightarrow> CO_RPDO \<Rightarrow> (u32 \<times> CO_RPDO) option" where
  "rpdo_copy i pos verifyLength d R =
     (if i < unat (mappedObjectsCount R) then do {
        io \<leftarrow> arr_get (pdo_OD_IO R) i;
        let mappedLength = pdo_mappedLength io;
        let verifyLength = verifyLength + ucast mappedLength;
        if verifyLength > 8 then Some (verifyLength, R)
        else do {
          x \<leftarrow> rpdo_bytes d pos mappedLength (pdo_ODdataLength io);
          wr \<leftarrow> pio_write io;
          let (r, s, k, m) = wr ((pio_stream io)\<lparr>dataOffset := 0\<rparr>) x (em_mem (pdo_em R));
          let io = io\<lparr>pio_stream := s\<lparr>dataOffset := ucast mappedLength\<rparr>\<rparr>;
          rpdo_copy (Suc i) (pos + unat mappedLength) verifyLength d (pdo_set_io i io (pdo_set_mem m R))
        }
      }
      else Some (verifyLength, R))"
  by pat_completeness auto
termination
  by (relation "measure (\<lambda>(i, pos, v, d, R). unat (mappedObjectsCount R) - i)") (auto simp: pdo_set_mem_def pdo_set_io_def)

declare rpdo_copy.simps [simp del]

definition rpdo_length_error :: "CO_RPDO \<Rightarrow> CO_RPDO option" where
  "rpdo_length_error R =
     (if rpdo_receiveError R > CO_RPDO_RX_ACK then do {
        let setError = (rpdo_receiveError R \<noteq> CO_RPDO_RX_OK);
        let code = (if rpdo_receiveError R = CO_RPDO_RX_SHORT then CO_EMC_PDO_LENGTH else CO_EMC_PDO_LENGTH_EXC);
        em \<leftarrow> CO_error (pdo_em R) setError CO_EM_RPDO_WRONG_LENGTH code (ucast (pdo_dataLength R));
        Some (R\<lparr>pdo_em := em, rpdo_receiveError := (if setError then CO_RPDO_RX_ACK_ERROR else CO_RPDO_RX_ACK_NO_ERROR)\<rparr>)
      }
      else Some R)"

text \<open>The software error that RPDO and TPDO report when the lengths do not add up.\<close>

definition pdo_length_bug :: "'a CO_PDO_common_scheme \<Rightarrow> u32 \<Rightarrow> bool" where
  "pdo_length_bug P verifyLength \<longleftrightarrow> verifyLength > 8 \<or> verifyLength \<noteq> ucast (pdo_dataLength P)"

definition rpdo_take :: "CO_RPDO \<Rightarrow> nat \<Rightarrow> CO_RPDO option" where
  "rpdo_take R bufNo = do {
     d \<leftarrow> arr_get (rpdo_CANrxData R) bufNo;
     (verifyLength, R) \<leftarrow> rpdo_copy 0 0 0 d (R\<lparr>rpdo_CANrxNew := (rpdo_CANrxNew R)[bufNo := False]\<rparr>);
     if pdo_length_bug R verifyLength then do {
       em \<leftarrow> CO_errorReport (pdo_em R) CO_EM_GENERIC_SOFTWARE_ERROR CO_EMC_SOFTWARE_INTERNAL (0x100000 OR verifyLength);
       Some (R\<lparr>pdo_em := em\<rparr>)
     }
     else Some R
   }"

definition rpdo_timeout :: "CO_RPDO \<Rightarrow> bool \<Rightarrow> u32 \<Rightarrow> u32 option \<Rightarrow> (CO_RPDO \<times> u32 option) option" where
  "rpdo_timeout R received td tn =
     (if rpdo_timeoutTime_us R > 0 then do {
        R \<leftarrow>
          (if received then do {
             em \<leftarrow> (if rpdo_timeoutTimer R > rpdo_timeoutTime_us R
                    then CO_errorReset (pdo_em R) CO_EM_RPDO_TIME_OUT (rpdo_timeoutTimer R) else Some (pdo_em R));
             Some (R\<lparr>pdo_em := em, rpdo_timeoutTimer := 1\<rparr>)
           }
           else if rpdo_timeoutTimer R > 0 \<and> rpdo_timeoutTimer R < rpdo_timeoutTime_us R then do {
             let R = R\<lparr>rpdo_timeoutTimer := rpdo_timeoutTimer R + td\<rparr>;
             em \<leftarrow> (if rpdo_timeoutTimer R > rpdo_timeoutTime_us R
                    then CO_errorReport (pdo_em R) CO_EM_RPDO_TIME_OUT CO_EMC_RPDO_TIMEOUT (rpdo_timeoutTimer R) else Some (pdo_em R));
             Some (R\<lparr>pdo_em := em\<rparr>)
           }
           else Some R);
        Some (R, if rpdo_timeoutTimer R < rpdo_timeoutTime_us R then map_option (min (rpdo_timeoutTime_us R - rpdo_timeoutTimer R)) tn else tn)
      }
      else Some (R, tn))"

text \<open>
  The loop of the source runs again only when the receive function interrupts it; in the
  single-threaded build the flag, once cleared, stays so, and the body runs at most once.
\<close>

definition CO_RPDO_process :: "CO_RPDO \<Rightarrow> sync option \<Rightarrow> u32 \<Rightarrow> u32 option \<Rightarrow> bool \<Rightarrow> bool \<Rightarrow> (CO_RPDO \<times> u32 option) option" where
  "CO_RPDO_process R sy td tn NMTisOperational syncWas =
     (if pdo_valid R \<and> NMTisOperational \<and> (syncWas \<or> \<not> synchronous R) then do {
        R \<leftarrow> rpdo_length_error R;
        let bufNo = rpdo_process_buf R sy;
        received \<leftarrow> arr_get (rpdo_CANrxNew R) bufNo;
        R \<leftarrow> (if received then rpdo_take R bufNo else Some R);
        rpdo_timeout R received td tn
      }
      else if \<not> pdo_valid R \<or> \<not> NMTisOperational
      then Some (R\<lparr>rpdo_CANrxNew := [False, False], rpdo_timeoutTimer := 0\<rparr>, tn)
      else Some (R, tn))"

section \<open>Transmitted PDOs\<close>

text \<open>The field \<open>tpdo_syncFlag\<close> is the one of the transmit buffer; \<open>tpdo_sent\<close> holds the messages sent.\<close>

record CO_TPDO = CO_PDO_common +
  tpdo_CANtxBuff :: CANtx
  tpdo_syncFlag :: bool
  transmissionType :: u8
  sendRequest :: bool
  syncStartValue :: u8
  syncCounter :: u8
  inhibitTime_us :: u32
  eventTime_us :: u32
  inhibitTimer :: u32
  eventTimer :: u32
  tpdo_sent :: "can_frame list"

definition tpdo_txInit :: "CO_TPDO \<Rightarrow> u16 \<Rightarrow> CO_TPDO" where
  "tpdo_txInit T CAN_ID =
     T\<lparr>tpdo_CANtxBuff := CO_CANtxBufferInit CAN_ID (pdo_dataLength T) (tpdo_CANtxBuff T),
       tpdo_syncFlag := (transmissionType T \<le> CO_PDO_TRANSM_TYPE_SYNC_240)\<rparr>"

text \<open>The sub-indices of \<open>OD_write_18xx\<close>; \<open>txOk\<close> says whether \<open>CO_CANtxBufferInit\<close> returns the buffer.\<close>

definition tpdo_write_cob :: "bool \<Rightarrow> CO_TPDO \<Rightarrow> u32 \<Rightarrow> u8 list \<Rightarrow> (ODR + u8 list) \<times> CO_TPDO" where
  "tpdo_write_cob txOk T COB_ID bufCopy =
     (let CAN_ID = ucast (COB_ID AND 0x7FF) :: u16; valid = (COB_ID AND 0x80000000 = 0) in
      if pdo_cob_invalid T COB_ID then (Inl ODR_INVALID_VALUE, T)
      else if valid \<noteq> pdo_valid T \<or> CAN_ID \<noteq> configuredCanId T then
        let bufCopy = pdo_cob_stored T COB_ID bufCopy; CAN_ID = (if \<not> valid then 0 else CAN_ID) in
        if \<not> txOk then (Inl ODR_DEV_INCOMPAT, T)
        else (Inr bufCopy, (tpdo_txInit T CAN_ID)\<lparr>pdo_valid := valid, configuredCanId := CAN_ID\<rparr>)
      else (Inr bufCopy, T))"

definition tpdo_write_type :: "CO_TPDO \<Rightarrow> u8 \<Rightarrow> u8 list \<Rightarrow> (ODR + u8 list) \<times> CO_TPDO" where
  "tpdo_write_type T ty bufCopy =
     (if ty > CO_PDO_TRANSM_TYPE_SYNC_240 \<and> ty < CO_PDO_TRANSM_TYPE_SYNC_EVENT_LO then (Inl ODR_INVALID_VALUE, T)
      else (Inr bufCopy, T\<lparr>tpdo_syncFlag := (ty \<le> CO_PDO_TRANSM_TYPE_SYNC_240), syncCounter := 255,
              transmissionType := ty, sendRequest := True, inhibitTimer := 0, eventTimer := 0\<rparr>))"

definition tpdo_write_sub :: "bool \<Rightarrow> CO_TPDO \<Rightarrow> u8 \<Rightarrow> u8 list \<Rightarrow> ((ODR + u8 list) \<times> CO_TPDO) option" where
  "tpdo_write_sub txOk T sub b =
     (if sub = 1 then do { v \<leftarrow> get_u32 b; Some (tpdo_write_cob txOk T v b) }
      else if sub = 2 then do { v \<leftarrow> arr_get b 0; Some (tpdo_write_type T v b) }
      else if sub = 3 then
        if pdo_valid T then Some (Inl ODR_INVALID_VALUE, T)
        else do { v \<leftarrow> get_u16 b; Some (Inr b, T\<lparr>inhibitTime_us := ucast v * 100, inhibitTimer := 0\<rparr>) }
      else if sub = 5 then do { v \<leftarrow> get_u16 b; Some (Inr b, T\<lparr>eventTime_us := ucast v * 1000, eventTimer := 0\<rparr>) }
      else if sub = 6 then do {
        v \<leftarrow> arr_get b 0;
        Some (if pdo_valid T \<or> v > 240 then (Inl ODR_INVALID_VALUE, T) else (Inr b, T\<lparr>syncStartValue := v\<rparr>))
      }
      else Some (Inr b, T))"

definition OD_write_18xx :: "bool \<Rightarrow> CO_TPDO \<Rightarrow> OD_stream \<Rightarrow> u8 list \<Rightarrow> (ODR \<times> OD_stream \<times> u32 \<times> CO_TPDO) option" where
  "OD_write_18xx txOk T st b =
     (if length b > 4 then Some (ODR_DEV_INCOMPAT, st, 0, T)
      else do {
        (r, T) \<leftarrow> tpdo_write_sub txOk T (stream_subIndex st) b;
        case r of
          Inl e \<Rightarrow> Some (e, st, 0, T)
        | Inr b \<Rightarrow> Some (pdo_write_original T st b)
      })"

definition tpdo_zero :: "CANtx \<Rightarrow> em \<Rightarrow> OD_t \<Rightarrow> CO_TPDO" where
  "tpdo_zero tx em od = CO_PDO_common.extend (pdo_common_zero em od)
     (CO_TPDO.fields tx False 0 False 0 0 0 0 0 0 [])"

text \<open>The end of \<open>CO_TPDO_init\<close>: times, SYNC start value and extensions.\<close>

definition tpdo_init_times :: "CO_TPDO \<Rightarrow> OD_entry option \<Rightarrow> u16 \<Rightarrow> u16 \<Rightarrow> CO_TPDO" where
  "tpdo_init_times T e18 preDefined CAN_ID =
     (let (r3, inhibit, m) = OD_get_u16 e18 3 True (em_mem (pdo_em T)); T = pdo_set_mem m T;
          (r5, event, m) = OD_get_u16 e18 5 True (em_mem (pdo_em T)); T = pdo_set_mem m T;
          (r6, start, m) = OD_get_u8 e18 6 True (em_mem (pdo_em T)); T = pdo_set_mem m T
      in T\<lparr>inhibitTime_us := ucast (if r3 = ODR_OK then inhibit else 0) * 100,
           eventTime_us := ucast (if r5 = ODR_OK then event else 0) * 1000,
           syncStartValue := (if r6 = ODR_OK then start else 0), syncCounter := 255,
           pdo_isRPDO := False, preDefinedCanId := preDefined, configuredCanId := CAN_ID,
           OD_communicationParam_extended := True, OD_mappingParam_extended := True\<rparr>)"

definition CO_TPDO_init :: "bool \<Rightarrow> CANtx \<Rightarrow> em \<Rightarrow> OD_t \<Rightarrow> CO_TPDO \<Rightarrow> u16 \<Rightarrow> OD_entry option \<Rightarrow> OD_entry option \<Rightarrow>
    (CO_ReturnError \<times> u32 option \<times> CO_TPDO) option" where
  "CO_TPDO_init txOk tx em od T preDefined e18 e1A =
     (if e18 = None \<or> e1A = None then Some (CO_ERROR_ILLEGAL_ARGUMENT, None, T)
      else
        let (ret, info, err, T) = PDO_initMapping (tpdo_zero tx em od) e1A False in
        if ret \<noteq> CO_ERROR_NO then Some (ret, info, T)
        else
          let (odRet, ty, m) = OD_get_u8 e18 2 True (em_mem (pdo_em T)); T = pdo_set_mem m T in
          if odRet \<noteq> ODR_OK then Some (CO_ERROR_OD_PARAMETERS, Some (push_bit 8 (ucast (OD_getIndex e18)) OR 2), T)
          else
            let ty = (if ty < CO_PDO_TRANSM_TYPE_SYNC_EVENT_LO \<and> ty > CO_PDO_TRANSM_TYPE_SYNC_240
                      then CO_PDO_TRANSM_TYPE_SYNC_EVENT_LO else ty);
                T = T\<lparr>transmissionType := ty, sendRequest := True\<rparr>;
                (odRet, COB_ID, m) = OD_get_u32 e18 1 True (em_mem (pdo_em T)); T = pdo_set_mem m T in
            if odRet \<noteq> ODR_OK then Some (CO_ERROR_OD_PARAMETERS, Some (push_bit 8 (ucast (OD_getIndex e18)) OR 1), T)
            else do {
              let (valid, CAN_ID, err) = pdo_init_cob T err COB_ID preDefined;
              T \<leftarrow> pdo_report_mapping T err COB_ID;
              if \<not> txOk then Some (CO_ERROR_ILLEGAL_ARGUMENT, None, T)
              else Some (CO_ERROR_NO, None, tpdo_init_times ((tpdo_txInit T CAN_ID)\<lparr>pdo_valid := valid\<rparr>) e18 preDefined CAN_ID)
            })"

definition CO_TPDOsendRequest :: "CO_TPDO \<Rightarrow> CO_TPDO" where
  "CO_TPDOsendRequest T = T\<lparr>sendRequest := True\<rparr>"

text \<open>The request flags of the extensions, reached through the entry with the index.\<close>

definition flag_get :: "OD_t \<Rightarrow> u16 \<times> nat \<Rightarrow> u8" where
  "flag_get od p =
     (case find (\<lambda>e. entry_index e = fst p) od of
        Some e \<Rightarrow> (case extension e of Some x \<Rightarrow> flagsPDO x ! snd p | None \<Rightarrow> 0)
      | None \<Rightarrow> 0)"

definition flag_or :: "u16 \<times> nat \<Rightarrow> u8 \<Rightarrow> OD_t \<Rightarrow> OD_t" where
  "flag_or p mask' od = map (\<lambda>e.
     if entry_index e = fst p
     then e\<lparr>extension := map_option (\<lambda>x. x\<lparr>flagsPDO := (flagsPDO x)[snd p := flagsPDO x ! snd p OR mask']\<rparr>) (extension e)\<rparr>
     else e) od"

text \<open>In an event-driven TPDO the flag of a variable says that it has been sent.\<close>

definition tpdo_flag_sent :: "bool \<Rightarrow> nat \<Rightarrow> CO_TPDO \<Rightarrow> CO_TPDO" where
  "tpdo_flag_sent eventDriven i T =
     (case flagPDObyte T ! i of
        Some p \<Rightarrow> if eventDriven then T\<lparr>pdo_OD := flag_or p (flagPDObitmask T ! i) (pdo_OD T)\<rparr> else T
      | None \<Rightarrow> T)"

definition tpdo_eventDriven :: "CO_TPDO \<Rightarrow> bool" where
  "tpdo_eventDriven T \<longleftrightarrow>
     transmissionType T = CO_PDO_TRANSM_TYPE_SYNC_ACYCLIC \<or> transmissionType T \<ge> CO_PDO_TRANSM_TYPE_SYNC_EVENT_LO"

text \<open>
  One mapped variable is read into the message at \<open>pos\<close>, through an auxiliary buffer when it is longer
  than mapped.
\<close>

definition tpdo_bytes :: "u8 list \<Rightarrow> nat \<Rightarrow> u8 \<Rightarrow> u32 \<Rightarrow> u8 list \<Rightarrow> u8 list option" where
  "tpdo_bytes d pos mappedLength len bs =
     (if len > ucast mappedLength then do {
        buf \<leftarrow> buf_write (replicate CO_PDO_MAX_SIZE 0) 0 bs;
        x \<leftarrow> buf_read buf 0 (unat mappedLength);
        buf_write d pos x
      }
      else buf_write d pos bs)"

function tpdo_collect :: "nat \<Rightarrow> nat \<Rightarrow> u32 \<Rightarrow> CO_TPDO \<Rightarrow> (u32 \<times> CO_TPDO) option" where
  "tpdo_collect i pos verifyLength T =
     (if i < unat (mappedObjectsCount T) then do {
        io \<leftarrow> arr_get (pdo_OD_IO T) i;
        let mappedLength = pdo_mappedLength io;
        let verifyLength = verifyLength + ucast mappedLength;
        if verifyLength > 8 then Some (verifyLength, T)
        else do {
          rd \<leftarrow> pio_read io;
          let (r, s, bs, m) = rd ((pio_stream io)\<lparr>dataOffset := 0\<rparr>) (pdo_ODdataLength io) (em_mem (pdo_em T));
          d \<leftarrow> tpdo_bytes (tx_data (tpdo_CANtxBuff T)) pos mappedLength (pdo_ODdataLength io) bs;
          let io = io\<lparr>pio_stream := s\<lparr>dataOffset := ucast mappedLength\<rparr>\<rparr>;
          let T = (pdo_set_io i io (pdo_set_mem m T))\<lparr>tpdo_CANtxBuff := (tpdo_CANtxBuff T)\<lparr>tx_data := d\<rparr>\<rparr>;
          tpdo_collect (Suc i) (pos + unat mappedLength) verifyLength (tpdo_flag_sent (tpdo_eventDriven T) i T)
        }
      }
      else Some (verifyLength, T))"
  by pat_completeness auto
termination
  by (relation "measure (\<lambda>(i, pos, v, T). unat (mappedObjectsCount T) - i)")
     (auto simp: pdo_set_mem_def pdo_set_io_def tpdo_flag_sent_def split: option.splits)

declare tpdo_collect.simps [simp del]

definition CO_TPDOsend :: "CO_TPDO \<Rightarrow> CO_TPDO option" where
  "CO_TPDOsend T = do {
     (verifyLength, T) \<leftarrow> tpdo_collect 0 0 0 T;
     if pdo_length_bug T verifyLength then do {
       em \<leftarrow> CO_errorReport (pdo_em T) CO_EM_GENERIC_SOFTWARE_ERROR CO_EMC_SOFTWARE_INTERNAL (0x200000 OR verifyLength);
       Some (T\<lparr>pdo_em := em\<rparr>)
     }
     else Some (T\<lparr>sendRequest := False, eventTimer := eventTime_us T, inhibitTimer := inhibitTime_us T,
                  tpdo_sent := tpdo_sent T @ [tx_frame (tpdo_CANtxBuff T)]\<rparr>)
   }"

text \<open>The stages of \<open>CO_TPDO_process\<close>: event timer, requests, event-driven and synchronous transmission.\<close>

definition timer_left :: "u32 \<Rightarrow> u32 \<Rightarrow> u32" where
  "timer_left t td = (if t > td then t - td else 0)"

fun tpdo_requested :: "CO_TPDO \<Rightarrow> nat list \<Rightarrow> bool option" where
  "tpdo_requested T [] = Some False"
| "tpdo_requested T (i # is) = do {
     f \<leftarrow> arr_get (flagPDObyte T) i;
     case f of
       Some p \<Rightarrow> if flag_get (pdo_OD T) p AND flagPDObitmask T ! i = 0 then Some True else tpdo_requested T is
     | None \<Rightarrow> tpdo_requested T is
   }"

definition tpdo_event_timer :: "CO_TPDO \<Rightarrow> u32 \<Rightarrow> u32 option \<Rightarrow> CO_TPDO \<times> u32 option" where
  "tpdo_event_timer T td tn =
     (if eventTime_us T \<noteq> 0 then
        let T = T\<lparr>eventTimer := timer_left (eventTimer T) td\<rparr>;
            T = (if eventTimer T = 0 then T\<lparr>sendRequest := True\<rparr> else T)
        in (T, map_option (min (eventTimer T)) tn)
      else (T, tn))"

definition tpdo_triggers :: "CO_TPDO \<Rightarrow> u32 \<Rightarrow> u32 option \<Rightarrow> (CO_TPDO \<times> u32 option) option" where
  "tpdo_triggers T td tn =
     (if tpdo_eventDriven T then do {
        let (T, tn) = tpdo_event_timer T td tn;
        req \<leftarrow> (if \<not> sendRequest T then tpdo_requested T [0..<unat (mappedObjectsCount T)] else Some False);
        Some (if req then T\<lparr>sendRequest := True\<rparr> else T, tn)
      }
      else Some (T, tn))"

definition tpdo_event_send :: "CO_TPDO \<Rightarrow> u32 \<Rightarrow> u32 option \<Rightarrow> (CO_TPDO \<times> u32 option) option" where
  "tpdo_event_send T td tn = do {
     let T = T\<lparr>inhibitTimer := timer_left (inhibitTimer T) td\<rparr>;
     T \<leftarrow> (if sendRequest T \<and> inhibitTimer T = 0 then CO_TPDOsend T else Some T);
     Some (T, if sendRequest T then map_option (min (inhibitTimer T)) tn else tn)
   }"

definition tpdo_sync_send :: "CO_TPDO \<Rightarrow> sync \<Rightarrow> CO_TPDO option" where
  "tpdo_sync_send T S =
     (if transmissionType T = CO_PDO_TRANSM_TYPE_SYNC_ACYCLIC then
        if sendRequest T then CO_TPDOsend T else Some T
      else
        let T = (if syncCounter T = 255 then
                   T\<lparr>syncCounter := (if counterOverflowValue S \<noteq> 0 \<and> syncStartValue T \<noteq> 0 then 254
                                     else transmissionType T div 2 + 1)\<rparr>
                 else T) in
        if syncCounter T = 254 then
          if sync_counter S = syncStartValue T then CO_TPDOsend (T\<lparr>syncCounter := transmissionType T\<rparr>) else Some T
        else
          let T = T\<lparr>syncCounter := syncCounter T - 1\<rparr> in
          if syncCounter T = 0 then CO_TPDOsend (T\<lparr>syncCounter := transmissionType T\<rparr>) else Some T)"

definition CO_TPDO_process :: "CO_TPDO \<Rightarrow> sync option \<Rightarrow> u32 \<Rightarrow> u32 option \<Rightarrow> bool \<Rightarrow> bool \<Rightarrow> (CO_TPDO \<times> u32 option) option" where
  "CO_TPDO_process T sy td tn NMTisOperational syncWas =
     (if pdo_valid T \<and> NMTisOperational then do {
        (T, tn) \<leftarrow> tpdo_triggers T td tn;
        if transmissionType T \<ge> CO_PDO_TRANSM_TYPE_SYNC_EVENT_LO then tpdo_event_send T td tn
        else
          case sy of
            Some S \<Rightarrow> if syncWas then map_option (\<lambda>T. (T, tn)) (tpdo_sync_send T S) else Some (T, tn)
          | None \<Rightarrow> Some (T, tn)
      }
      else Some (T\<lparr>sendRequest := True, inhibitTimer := 0, eventTimer := 0, syncCounter := 255\<rparr>, tn))"

end
