(* ===== verification/PDO_Safety.thy ===== *)
theory PDO_Safety
  imports PDO SDO_Safety
begin

text \<open>
  What holds of the process data objects: the mapping is consistent in every state, so that messages are
  taken apart and put together within the buffers.
\<close>

section \<open>A consistent mapping\<close>

text \<open>
  An element of the mapping is live when its access functions are set, its mapped length fits the message
  and its read function respects the size of the buffer; it may be enabled only when the mapped length
  does not exceed the length of the variable.
\<close>

definition io_live :: "PDO_io \<Rightarrow> bool" where
  "io_live io \<longleftrightarrow> dataOffset (pio_stream io) \<le> 8 \<and> (\<exists>rd. pio_read io = Some rd \<and> read_bounded rd) \<and> pio_write io \<noteq> None"

definition io_ok :: "PDO_io \<Rightarrow> bool" where
  "io_ok io \<longleftrightarrow> (dataOffset (pio_stream io) \<le> dataLength (pio_stream io) \<longrightarrow> io_live io)"

definition mapped_length :: "PDO_io list \<Rightarrow> nat" where
  "mapped_length ios = sum_list (map (\<lambda>io. unat (dataOffset (pio_stream io))) ios)"

definition pdo_frame :: "'a CO_PDO_common_scheme \<Rightarrow> bool" where
  "pdo_frame P \<longleftrightarrow> em_inv (pdo_em P) \<and> od_bounded (pdo_OD P) \<and> length (pdo_OD_IO P) = 8 \<and>
     length (flagPDObyte P) = 8 \<and> length (flagPDObitmask P) = 8"

definition pdo_enabled :: "'a CO_PDO_common_scheme \<Rightarrow> bool" where
  "pdo_enabled P \<longleftrightarrow> mappedObjectsCount P \<le> 8 \<and> list_all io_live (take (unat (mappedObjectsCount P)) (pdo_OD_IO P)) \<and>
     mapped_length (take (unat (mappedObjectsCount P)) (pdo_OD_IO P)) = unat (pdo_dataLength P) \<and> pdo_dataLength P \<le> 8"

definition pdo_inv :: "'a CO_PDO_common_scheme \<Rightarrow> bool" where
  "pdo_inv P \<longleftrightarrow> pdo_frame P \<and> list_all io_ok (pdo_OD_IO P) \<and> pdo_enabled P \<and> (pdo_valid P \<longrightarrow> mappedObjectsCount P \<noteq> 0)"

lemma mapped_length_simps [simp]:
  "mapped_length [] = 0"
  "mapped_length (io # ios) = unat (dataOffset (pio_stream io)) + mapped_length ios"
  "mapped_length (ios @ ios') = mapped_length ios + mapped_length ios'"
  by (simp_all add: mapped_length_def)

lemma read_bounded_dummy: "read_bounded OD_read_dummy"
  by (auto simp: read_bounded_def OD_read_dummy_def min_def word_le_nat_alt)

lemma mapped_le_8: "\<not> 8 < unat (w :: u8) \<Longrightarrow> (ucast w :: u32) \<le> 8"
  by (simp add: word_le_nat_alt unat_ucast_8_32)

lemma PDOconfigMap_error: "PDOconfigMap P mp i isR = (r, P') \<Longrightarrow> r \<noteq> ODR_OK \<Longrightarrow> P' = P"
  by (auto simp: PDOconfigMap_def Let_def split: if_splits prod.splits)

lemma io_live_dummy: "\<not> 8 < unat l \<Longrightarrow> io_live (dummy_io l) \<and> dataOffset (pio_stream (dummy_io l)) \<le> dataLength (pio_stream (dummy_io l))"
  by (simp add: dummy_io_def io_live_def read_bounded_dummy mapped_le_8)

lemma io_live_mapped:
  "\<not> 8 < unat l \<Longrightarrow> read_bounded (io_read io) \<Longrightarrow> io_live (mapped_io io l)"
  "ucast l \<le> dataLength (stream io) \<Longrightarrow> dataOffset (pio_stream (mapped_io io l)) \<le> dataLength (pio_stream (mapped_io io l))"
  by (simp_all add: mapped_io_def io_live_def mapped_le_8)

text \<open>What a successful configuration of element \<open>i\<close> changes.\<close>

definition pdo_configured :: "nat \<Rightarrow> 'a CO_PDO_common_scheme \<Rightarrow> 'a CO_PDO_common_scheme \<Rightarrow> bool" where
  "pdo_configured i P P' \<longleftrightarrow>
     (\<exists>io. pdo_OD_IO P' = (pdo_OD_IO P)[i := io] \<and> io_live io \<and> dataOffset (pio_stream io) \<le> dataLength (pio_stream io)) \<and>
     length (flagPDObyte P') = length (flagPDObyte P) \<and> length (flagPDObitmask P') = length (flagPDObitmask P) \<and>
     pdo_em P' = pdo_em P \<and> pdo_OD P' = pdo_OD P \<and> pdo_valid P' = pdo_valid P \<and>
     pdo_dataLength P' = pdo_dataLength P \<and> mappedObjectsCount P' = mappedObjectsCount P \<and>
     CO_PDO_common.more P' = CO_PDO_common.more P"

lemma pdo_configuredI:
  assumes "io_live io" "dataOffset (pio_stream io) \<le> dataLength (pio_stream io)"
  shows "pdo_configured i P (pdo_set_io i io P)" "pdo_configured i P (pdo_flag_config e sub i (pdo_set_io i io P))"
  using assms unfolding pdo_configured_def pdo_flag_config_def pdo_set_io_def by auto

lemma PDOconfigMap_ok:
  assumes "PDOconfigMap P mp i isR = (ODR_OK, P')" "od_bounded (pdo_OD P)"
  shows "pdo_configured i P P'"
proof -
  define l where "l = drop_bit 3 (ucast mp :: u8)"
  obtain r io where io: "OD_getSub (OD_find (pdo_OD P) (ucast (drop_bit 16 mp))) (ucast (drop_bit 8 mp)) OD_IO_null False = (r, io)"
    by fastforce
  have "read_bounded (io_read OD_IO_null)" by (simp add: OD_IO_null_def read_bounded_disabled)
  then have "read_bounded (io_read io)" using OD_getSub_bounded [OF assms(2) _ io] by blast
  moreover have "\<not> 8 < unat l" using assms(1) by (auto simp: PDOconfigMap_def l_def Let_def split: if_splits)
  ultimately show ?thesis
    using assms(1) io
    by (auto simp: PDOconfigMap_def Let_def l_def intro!: pdo_configuredI io_live_dummy [THEN conjunct1] io_live_dummy [THEN conjunct2] io_live_mapped split: if_splits)
qed

section \<open>Initialisation\<close>

lemma OD_readOriginal_mem: "OD_readOriginal s n m = (r, s', bs, m') \<Longrightarrow> m' = m"
  by (auto simp: OD_readOriginal_def Let_def split: option.splits if_splits)

lemma OD_getSub_orig: "OD_getSub e sub io True = (ODR_OK, io') \<Longrightarrow> io_read io' = OD_readOriginal"
  by (auto simp: OD_getSub_def Let_def split: option.splits prod.splits if_splits)

lemma OD_get_value_mem: "OD_get_value e sub n True m = (r, bs, m') \<Longrightarrow> m' = m"
  by (auto simp: OD_get_value_def Let_def OD_getSub_orig split: prod.splits if_splits dest: OD_readOriginal_mem)

lemma OD_get_mem:
  "OD_get_u8 e sub True m = (r, v, m') \<Longrightarrow> m' = m"
  "OD_get_u16 e sub True m = (r, w, m') \<Longrightarrow> m' = m"
  "OD_get_u32 e sub True m = (r, x, m') \<Longrightarrow> m' = m"
  by (auto simp: OD_get_u8_def OD_get_u16_def OD_get_u32_def Let_def split: prod.splits dest: OD_get_value_mem)

lemma OD_get_mem':
  "snd (snd (OD_get_u8 e sub True m)) = m" "snd (snd (OD_get_u16 e sub True m)) = m" "snd (snd (OD_get_u32 e sub True m)) = m"
  by (metis OD_get_mem prod.collapse)+

lemma pdo_set_mem_same [simp]: "pdo_set_mem (em_mem (pdo_em P)) P = P"
  by (simp add: pdo_set_mem_def)

text \<open>The mapping parameter of a dictionary: all eight elements exist, at most eight are enabled.\<close>

definition map_complete :: "OD_entry option \<Rightarrow> mem \<Rightarrow> bool" where
  "map_complete e m \<longleftrightarrow> fst (snd (OD_get_u8 e 0 True m)) \<le> 8 \<and>
     list_all (\<lambda>i. fst (OD_get_u32 e (word_of_nat i + 1) True m) \<noteq> ODR_SUB_NOT_EXIST) [0..<8]"

text \<open>The state of the loop before element \<open>k\<close>.\<close>

definition init_upto :: "nat \<Rightarrow> u8 \<Rightarrow> 'a CO_PDO_common_scheme \<Rightarrow> nat \<Rightarrow> u32 \<Rightarrow> bool" where
  "init_upto k cnt P len err \<longleftrightarrow> pdo_frame P \<and> (\<forall>i<k. io_ok (pdo_OD_IO P ! i)) \<and>
     (err = 0 \<longrightarrow> (\<forall>i<k. io_live (pdo_OD_IO P ! i)) \<and> len = mapped_length (take (min k (unat cnt)) (pdo_OD_IO P)))"

definition pdo_unmapped :: "'a CO_PDO_common_scheme \<Rightarrow> 'a CO_PDO_common_scheme \<Rightarrow> bool" where
  "pdo_unmapped P P' \<longleftrightarrow> pdo_em P' = pdo_em P \<and> pdo_valid P' = pdo_valid P \<and> pdo_dataLength P' = pdo_dataLength P \<and>
     mappedObjectsCount P' = mappedObjectsCount P \<and> CO_PDO_common.more P' = CO_PDO_common.more P"

lemma mapped_length_take_Suc:
  "k < length ios \<Longrightarrow> mapped_length (take (Suc k) ios) = mapped_length (take k ios) + unat (dataOffset (pio_stream (ios ! k)))"
  by (simp add: take_Suc_conv_app_nth)

lemma init_upto_ok:
  assumes "init_upto k cnt P len err" "k < 8" "pdo_configured k P P'"
  shows "init_upto (Suc k) cnt P' (if k < unat cnt then len + unat (dataOffset (pio_stream (pdo_OD_IO P' ! k))) else len) err"
proof -
  obtain io where io: "pdo_OD_IO P' = (pdo_OD_IO P)[k := io]" "io_live io" "pdo_frame P'" and l: "length (pdo_OD_IO P) = 8"
    using assms(1,3) by (auto simp: pdo_configured_def init_upto_def pdo_frame_def)
  have "mapped_length (take (min k (unat cnt)) (pdo_OD_IO P')) = mapped_length (take (min k (unat cnt)) (pdo_OD_IO P))"
    by (simp add: io(1))
  moreover have "min (Suc k) (unat cnt) = (if k < unat cnt then Suc k else min k (unat cnt))" by simp
  ultimately have "mapped_length (take (min (Suc k) (unat cnt)) (pdo_OD_IO P')) =
      (if k < unat cnt then mapped_length (take (min k (unat cnt)) (pdo_OD_IO P)) + unat (dataOffset (pio_stream (pdo_OD_IO P' ! k)))
       else mapped_length (take (min k (unat cnt)) (pdo_OD_IO P)))"
    using mapped_length_take_Suc [of k "pdo_OD_IO P'"] l assms(2) by (simp add: io(1) min_def)
  then show ?thesis
    using assms(1,2) l io by (auto simp: init_upto_def nth_list_update less_Suc_eq io_ok_def)
qed

lemma init_upto_wrong:
  assumes "init_upto k cnt P len err" "k < 8" "err' \<noteq> 0"
  shows "init_upto (Suc k) cnt (pdo_set_io k (wrong_io io) P) len' err'"
  using assms by (auto simp: init_upto_def nth_list_update less_Suc_eq io_ok_def pdo_set_io_def pdo_frame_def wrong_io_def)

lemma PDOconfigMap_0: "PDOconfigMap P 0 i isR = (r, P') \<Longrightarrow> r = ODR_OK"
  by (auto simp: PDOconfigMap_def)

lemma init_mapping_loop_inv:
  assumes "init_upto k cnt P len err" "k + n = 8"
    and "\<forall>i < 8. fst (OD_get_u32 e (word_of_nat i + 1) True (em_mem (pdo_em P))) \<noteq> ODR_SUB_NOT_EXIST"
    and "init_mapping_loop e isR cnt [k..<8] P len err = (CO_ERROR_NO, info, len', err', P')"
  shows "init_upto 8 cnt P' len' err' \<and> pdo_unmapped P P'"
  using assms
proof (induction n arbitrary: k P len err)
  case 0
  then show ?case by (simp add: pdo_unmapped_def)
next
  case (Suc n)
  have k: "k < 8" "[k..<8] = k # [Suc k..<8]" using Suc.prems(2) by (simp_all add: upt_conv_Cons)
  obtain r mp m where g: "OD_get_u32 e (word_of_nat k + 1) True (em_mem (pdo_em P)) = (r, mp, m)"
    by (metis prod_cases3)
  have m: "m = em_mem (pdo_em P)" using OD_get_mem(3) [OF g] .
  have r: "r \<noteq> ODR_SUB_NOT_EXIST" using Suc.prems(3) k(1) g by (metis fst_conv)
  obtain r1 P1 where c: "PDOconfigMap P mp k isR = (r1, P1)" by fastforce
  define l1 where "l1 = (\<lambda>Q :: 'a CO_PDO_common_scheme. if k < unat cnt then len + unat (dataOffset (pio_stream (pdo_OD_IO Q ! k))) else len)"
  have rOK: "r = ODR_OK" using Suc.prems(4) g r k(2) by (auto simp: m split: if_splits)
  show ?case
  proof (cases "r1 = ODR_OK")
    case True
    have cf: "pdo_configured k P P1"
      using PDOconfigMap_ok [of P mp k isR P1] c True Suc.prems(1) by (simp add: init_upto_def pdo_frame_def)
    have "init_mapping_loop e isR cnt [Suc k..<8] P1 (l1 P1) err = (CO_ERROR_NO, info, len', err', P')"
      using Suc.prems(4) by (simp add: k(2) g m rOK c True l1_def)
    moreover have "init_upto (Suc k) cnt P1 (l1 P1) err" unfolding l1_def by (rule init_upto_ok [OF Suc.prems(1) k(1) cf])
    moreover have "pdo_em P1 = pdo_em P" using cf by (simp add: pdo_configured_def)
    ultimately show ?thesis
      using Suc.IH [of "Suc k" P1 "l1 P1" err] Suc.prems(2,3) cf by (simp add: pdo_unmapped_def pdo_configured_def)
  next
    case False
    define P2 where "P2 = pdo_set_io k (wrong_io (pdo_OD_IO P ! k)) P"
    have P1: "P1 = P" using PDOconfigMap_error [OF c False] .
    have mp: "mp \<noteq> 0" using PDOconfigMap_0 [of P k isR r1 P1] c False by auto
    define e2 where "e2 = (if err = 0 then mp else err)"
    have "init_mapping_loop e isR cnt [Suc k..<8] P2 (l1 P2) e2 = (CO_ERROR_NO, info, len', err', P')"
      using Suc.prems(4) False by (simp add: k(2) g m rOK c P1 l1_def P2_def e2_def)
    moreover have "init_upto (Suc k) cnt P2 (l1 P2) e2"
      unfolding P2_def by (rule init_upto_wrong [OF Suc.prems(1) k(1)]) (simp add: e2_def mp)
    moreover have "pdo_unmapped P P2" by (simp add: P2_def pdo_set_io_def pdo_unmapped_def)
    ultimately show ?thesis
      using Suc.IH [of "Suc k" P2 "l1 P2" e2] Suc.prems(2,3) by (simp add: pdo_unmapped_def)
  qed
qed

text \<open>After the mapping the object is consistent, whether the mapping was accepted or not.\<close>

lemma PDO_initMapping_inv:
  assumes "PDO_initMapping P e isR = (CO_ERROR_NO, info, err, P')" "map_complete e (em_mem (pdo_em P))"
    and "pdo_frame P" "\<not> pdo_valid P" "mappedObjectsCount P = 0" "pdo_dataLength P = 0"
  shows "pdo_inv P' \<and> \<not> pdo_valid P' \<and> pdo_em P' = pdo_em P \<and> CO_PDO_common.more P' = CO_PDO_common.more P"
proof -
  obtain r cnt m where c: "OD_get_u8 e 0 True (em_mem (pdo_em P)) = (r, cnt, m)" by (metis prod_cases3)
  have m: "m = em_mem (pdo_em P)" using OD_get_mem(1) [OF c] .
  obtain ret info1 len err1 P1 where l: "init_mapping_loop e isR cnt [0..<8] P 0 0 = (ret, info1, len, err1, P1)"
    by (metis prod_cases5)
  have ok: "r = ODR_OK" "ret = CO_ERROR_NO" using assms(1) c l m by (auto simp: PDO_initMapping_def Let_def split: if_splits)
  have "init_upto 0 cnt P 0 0" using assms(3) by (simp add: init_upto_def)
  then have up: "init_upto 8 cnt P1 len err1" "pdo_unmapped P P1"
    using init_mapping_loop_inv [of 0 cnt P 0 0 8 e isR info1 len err1 P1] assms(2) l ok by (simp_all add: map_complete_def list_all_iff)
  have cnt: "unat cnt \<le> 8" using assms(2) c by (simp add: map_complete_def word_le_nat_alt)
  have F: "length (pdo_OD_IO P1) = 8" "pdo_frame P1" using up(1) by (simp_all add: init_upto_def pdo_frame_def)
  have all: "list_all io_ok (pdo_OD_IO P1)" using up(1) F by (simp add: init_upto_def list_all_length)
  define ew where "ew = (if (len > 8 \<or> (len = 0 \<and> cnt > 0)) \<and> err1 = 0 then 1 else err1)"
  have P': "P' = (if ew = 0 then P1\<lparr>pdo_dataLength := word_of_nat len, mappedObjectsCount := cnt\<rparr> else P1)"
    using assms(1) by (auto simp: PDO_initMapping_def c m ok l ew_def Let_def)
  have "list_all io_live (take (unat cnt) (pdo_OD_IO P1)) \<and> len = mapped_length (take (unat cnt) (pdo_OD_IO P1)) \<and> len \<le> 8"
    if "ew = 0" using that up(1) F cnt by (auto simp: ew_def init_upto_def list_all_length split: if_splits)
  moreover have "pdo_enabled P1" using up(2) assms(5,6) by (simp add: pdo_enabled_def pdo_unmapped_def)
  ultimately show ?thesis
    using up(2) F all cnt assms(4) unfolding P'
    by (auto simp: pdo_inv_def pdo_enabled_def pdo_frame_def pdo_unmapped_def word_le_nat_alt unat_of_nat)
qed

section \<open>The loops over the mapped variables\<close>

text \<open>What the access to the variables leaves unchanged.\<close>

definition pdo_kept :: "'a CO_PDO_common_scheme \<Rightarrow> 'a CO_PDO_common_scheme \<Rightarrow> bool" where
  "pdo_kept P P' \<longleftrightarrow> pdo_em P' = (pdo_em P)\<lparr>em_mem := em_mem (pdo_em P')\<rparr> \<and> pdo_valid P' = pdo_valid P \<and>
     pdo_dataLength P' = pdo_dataLength P \<and> mappedObjectsCount P' = mappedObjectsCount P \<and>
     configuredCanId P' = configuredCanId P \<and> preDefinedCanId P' = preDefinedCanId P"

lemma pdo_kept_refl [simp]: "pdo_kept P P"
  by (simp add: pdo_kept_def)

lemma pdo_kept_trans: "pdo_kept P Q \<Longrightarrow> pdo_kept Q R \<Longrightarrow> pdo_kept P R"
  unfolding pdo_kept_def by (metis em.surjective em.update_convs(1))

lemma pdo_element:
  assumes "pdo_inv P" "i < unat (mappedObjectsCount P)"
  shows "i < length (pdo_OD_IO P)" "io_live (pdo_OD_IO P ! i)"
    "unat (pdo_mappedLength (pdo_OD_IO P ! i)) = unat (dataOffset (pio_stream (pdo_OD_IO P ! i)))"
    "(ucast (pdo_mappedLength (pdo_OD_IO P ! i)) :: u32) = dataOffset (pio_stream (pdo_OD_IO P ! i))"
    "mapped_length (take i (pdo_OD_IO P)) + unat (dataOffset (pio_stream (pdo_OD_IO P ! i))) \<le> unat (pdo_dataLength P)"
proof -
  show i: "i < length (pdo_OD_IO P)" using assms by (simp add: pdo_inv_def pdo_frame_def pdo_enabled_def word_le_nat_alt)
  have c: "unat (mappedObjectsCount P) \<le> length (pdo_OD_IO P)"
    using assms by (simp add: pdo_inv_def pdo_frame_def pdo_enabled_def word_le_nat_alt)
  show live: "io_live (pdo_OD_IO P ! i)"
    using assms c by (auto simp: pdo_inv_def pdo_enabled_def list_all_length)
  then show u: "unat (pdo_mappedLength (pdo_OD_IO P ! i)) = unat (dataOffset (pio_stream (pdo_OD_IO P ! i)))"
    by (simp add: pdo_mappedLength_def io_live_def word_le_nat_alt unat_ucast_32_8)
  then show "(ucast (pdo_mappedLength (pdo_OD_IO P ! i)) :: u32) = dataOffset (pio_stream (pdo_OD_IO P ! i))"
    by (intro word_unat_eq_iff [THEN iffD2]) (simp add: unat_ucast_8_32)
  have "take (unat (mappedObjectsCount P)) (pdo_OD_IO P) =
      take (Suc i) (pdo_OD_IO P) @ take (unat (mappedObjectsCount P) - Suc i) (drop (Suc i) (pdo_OD_IO P))"
    using assms(2) by (metis Suc_leI le_add_diff_inverse take_add)
  then have "mapped_length (take (Suc i) (pdo_OD_IO P)) \<le> unat (pdo_dataLength P)"
    using assms(1) unfolding pdo_inv_def pdo_enabled_def by (metis le_add1 mapped_length_simps(3))
  then show "mapped_length (take i (pdo_OD_IO P)) + unat (dataOffset (pio_stream (pdo_OD_IO P ! i))) \<le> unat (pdo_dataLength P)"
    using mapped_length_take_Suc [OF i] by simp
qed

lemma mapped_length_update:
  "i < length ios \<Longrightarrow> dataOffset (pio_stream io) = dataOffset (pio_stream (ios ! i)) \<Longrightarrow>
   mapped_length (take n (ios[i := io])) = mapped_length (take n ios)"
  by (simp add: mapped_length_def map_update list_update_same_conv [THEN iffD2] flip: take_map)

lemma pdo_inv_touch:
  assumes inv: "pdo_inv P" "i < unat (mappedObjectsCount P)"
    and io: "dataOffset (pio_stream io) = dataOffset (pio_stream (pdo_OD_IO P ! i))"
      "pio_read io = pio_read (pdo_OD_IO P ! i)" "pio_write io = pio_write (pdo_OD_IO P ! i)"
  shows "pdo_inv (pdo_set_io i io (pdo_set_mem m P)) \<and> pdo_kept P (pdo_set_io i io (pdo_set_mem m P))"
proof -
  note el = pdo_element [OF inv]
  have live: "io_live io" using el(2) by (simp add: io_live_def io)
  have "list_all io_ok ((pdo_OD_IO P)[i := io])"
    using inv(1) live el(1) by (auto simp: pdo_inv_def list_all_length nth_list_update io_ok_def)
  moreover have "list_all io_live (take (unat (mappedObjectsCount P)) ((pdo_OD_IO P)[i := io]))"
    using inv(1) live el(1) by (auto simp: pdo_inv_def pdo_enabled_def list_all_length nth_list_update)
  ultimately show ?thesis
    using inv(1) mapped_length_update [OF el(1) io(1)]
    by (simp add: pdo_inv_def pdo_enabled_def pdo_frame_def pdo_set_io_def pdo_set_mem_def pdo_kept_def)
qed

lemma buf_read_ok: "off + n \<le> length b \<Longrightarrow> \<exists>x. buf_read b off n = Some x \<and> length x = n"
  by (simp add: buf_read_def)

lemma pdo_ODdataLength_le: "unat (pdo_ODdataLength io) \<le> 8"
  by (simp add: pdo_ODdataLength_def word_less_nat_alt)

lemma rpdo_bytes_ok:
  assumes "length d = 8" "pos + unat l \<le> 8" "unat len \<le> 8"
  shows "\<exists>x. rpdo_bytes d pos l len = Some x \<and> length x = unat len"
  using assms by (auto simp: rpdo_bytes_def buf_read_def buf_write_def word_less_nat_alt unat_ucast_8_32)

lemma word_of_unat: "(word_of_nat (unat (w :: u8)) :: u32) = ucast w"
  by (intro word_unat_eq_iff [THEN iffD2]) (use unat_u8_less [of w] in \<open>simp add: unat_ucast_8_32 unat_of_nat\<close>)

lemma word_of_nat_le_8: "n \<le> 8 \<Longrightarrow> \<not> (word_of_nat n :: u32) > 8"
  by (simp add: word_less_nat_alt unat_of_nat)

lemma rpdo_copy_inv:
  assumes "pdo_inv R" "i \<le> unat (mappedObjectsCount R)" "pos = mapped_length (take i (pdo_OD_IO R))" "length d = 8"
  shows "wp (rpdo_copy i pos (word_of_nat pos) d R)
    (\<lambda>(v, R'). v = ucast (pdo_dataLength R) \<and> pdo_inv R' \<and> pdo_kept R R' \<and> CO_PDO_common.more R' = CO_PDO_common.more R)"
  using assms
proof (induction "unat (mappedObjectsCount R) - i" arbitrary: i pos R)
  case 0
  then have "i = unat (mappedObjectsCount R)" by simp
  then have "pos = unat (pdo_dataLength R)" using 0 by (simp add: pdo_inv_def pdo_enabled_def)
  then show ?case using 0 \<open>i = _\<close> by (subst rpdo_copy.simps) (simp add: word_of_unat)
next
  case (Suc n)
  have i: "i < unat (mappedObjectsCount R)" using Suc.hyps(2) by simp
  note el = pdo_element [OF Suc.prems(1) i]
  define io where "io = pdo_OD_IO R ! i"
  have le: "pos + unat (pdo_mappedLength io) \<le> unat (pdo_dataLength R)" using el(3,5) Suc.prems(3) by (simp add: io_def)
  have dl: "unat (pdo_dataLength R) \<le> 8" using Suc.prems(1) by (simp add: pdo_inv_def pdo_enabled_def word_le_nat_alt)
  obtain x where x: "rpdo_bytes d pos (pdo_mappedLength io) (pdo_ODdataLength io) = Some x"
    using rpdo_bytes_ok [OF Suc.prems(4) _ pdo_ODdataLength_le] le dl by (meson order_trans)
  obtain wr where wr: "pio_write io = Some wr" using el(2) by (auto simp: io_live_def io_def)
  obtain r s k m where w: "wr ((pio_stream io)\<lparr>dataOffset := 0\<rparr>) x (em_mem (pdo_em R)) = (r, s, k, m)" by (metis prod_cases4)
  define R1 where "R1 = pdo_set_io i (io\<lparr>pio_stream := s\<lparr>dataOffset := ucast (pdo_mappedLength io)\<rparr>\<rparr>) (pdo_set_mem m R)"
  have v: "\<not> (word_of_nat (pos + unat (pdo_mappedLength io)) :: u32) > 8"
    using le dl by (intro word_of_nat_le_8) simp
  have step: "rpdo_copy i pos (word_of_nat pos) d R =
      rpdo_copy (Suc i) (pos + unat (pdo_mappedLength io)) (word_of_nat (pos + unat (pdo_mappedLength io))) d R1"
    using el(1) i v x wr w
    by (subst rpdo_copy.simps) (simp add: Let_def R1_def flip: io_def)
  have R1: "pdo_inv R1 \<and> pdo_kept R R1"
    unfolding R1_def by (rule pdo_inv_touch [OF Suc.prems(1) i]) (simp_all add: io_def el(4))
  have c: "mappedObjectsCount R1 = mappedObjectsCount R" "pdo_dataLength R1 = pdo_dataLength R"
    "CO_PDO_common.more R1 = CO_PDO_common.more R"
    by (simp_all add: R1_def pdo_set_io_def pdo_set_mem_def)
  have "pos + unat (pdo_mappedLength io) = mapped_length (take (Suc i) (pdo_OD_IO R1))"
    using mapped_length_take_Suc [of i "pdo_OD_IO R1"] Suc.prems(3) el
    by (simp add: R1_def pdo_set_io_def pdo_set_mem_def io_def)
  then show ?case
    unfolding step
    by (intro wp_mono [OF Suc.hyps(1) [of R1 "Suc i" "pos + unat (pdo_mappedLength io)"]])
       (use Suc.hyps(2) Suc.prems(4) R1 c i in \<open>auto intro: pdo_kept_trans\<close>)
qed

lemma od_bounded_flag_or: "od_bounded od \<Longrightarrow> od_bounded (flag_or p k od)"
  unfolding od_bounded_def flag_or_def by (force split: if_splits)

lemma tpdo_flag_sent_inv:
  "pdo_inv T \<Longrightarrow> pdo_inv (tpdo_flag_sent ev i T) \<and> pdo_kept T (tpdo_flag_sent ev i T)"
  by (auto simp: tpdo_flag_sent_def pdo_inv_def pdo_frame_def pdo_enabled_def pdo_kept_def od_bounded_flag_or split: option.split)

lemma tpdo_flag_sent_fields [simp]:
  "mappedObjectsCount (tpdo_flag_sent ev i T) = mappedObjectsCount T" "pdo_dataLength (tpdo_flag_sent ev i T) = pdo_dataLength T"
  "pdo_OD_IO (tpdo_flag_sent ev i T) = pdo_OD_IO T" "CO_PDO_common.more (tpdo_flag_sent ev i T) = CO_PDO_common.more T"
  "tpdo_CANtxBuff (tpdo_flag_sent ev i T) = tpdo_CANtxBuff T" "pdo_em (tpdo_flag_sent ev i T) = pdo_em T"
  by (auto simp: tpdo_flag_sent_def split: option.split)

lemma tpdo_bytes_ok:
  assumes "length d = 8" "pos + unat l \<le> 8" "unat len \<le> 8" "length bs \<le> unat len"
  shows "\<exists>d'. tpdo_bytes d pos l len bs = Some d' \<and> length d' = 8"
  using assms by (auto simp: tpdo_bytes_def buf_read_def buf_write_def word_less_nat_alt unat_ucast_8_32)

lemma pdo_inv_tpdo [simp]:
  "pdo_inv (T\<lparr>tpdo_CANtxBuff := b\<rparr>) = pdo_inv T" "pdo_inv (T\<lparr>sendRequest := q\<rparr>) = pdo_inv T"
  "pdo_inv (T\<lparr>eventTimer := t\<rparr>) = pdo_inv T" "pdo_inv (T\<lparr>inhibitTimer := t\<rparr>) = pdo_inv T"
  "pdo_inv (T\<lparr>inhibitTime_us := t\<rparr>) = pdo_inv T" "pdo_inv (T\<lparr>eventTime_us := t\<rparr>) = pdo_inv T"
  "pdo_inv (T\<lparr>syncCounter := y\<rparr>) = pdo_inv T" "pdo_inv (T\<lparr>syncStartValue := y\<rparr>) = pdo_inv T"
  "pdo_inv (T\<lparr>transmissionType := y\<rparr>) = pdo_inv T" "pdo_inv (T\<lparr>tpdo_sent := fs\<rparr>) = pdo_inv T"
  "pdo_inv (T\<lparr>tpdo_syncFlag := q\<rparr>) = pdo_inv T"
  by (simp_all add: pdo_inv_def pdo_frame_def pdo_enabled_def)

lemma pdo_inv_rpdo [simp]:
  "pdo_inv (R\<lparr>rpdo_CANrxNew := q\<rparr>) = pdo_inv R" "pdo_inv (R\<lparr>rpdo_CANrxData := ds\<rparr>) = pdo_inv R"
  "pdo_inv (R\<lparr>rpdo_receiveError := y\<rparr>) = pdo_inv R" "pdo_inv (R\<lparr>synchronous := b\<rparr>) = pdo_inv R"
  "pdo_inv (R\<lparr>rpdo_timeoutTime_us := t\<rparr>) = pdo_inv R" "pdo_inv (R\<lparr>rpdo_timeoutTimer := t\<rparr>) = pdo_inv R"
  "pdo_inv (R\<lparr>rpdo_rxIdent := i\<rparr>) = pdo_inv R"
  by (simp_all add: pdo_inv_def pdo_frame_def pdo_enabled_def)

lemma pdo_inv_common [simp]:
  "pdo_inv (P\<lparr>configuredCanId := i\<rparr>) = pdo_inv P" "pdo_inv (P\<lparr>preDefinedCanId := i\<rparr>) = pdo_inv P"
  "pdo_inv (P\<lparr>pdo_isRPDO := b\<rparr>) = pdo_inv P" "pdo_inv (P\<lparr>OD_communicationParam_extended := b\<rparr>) = pdo_inv P"
  "pdo_inv (P\<lparr>OD_mappingParam_extended := b\<rparr>) = pdo_inv P" "pdo_inv (pdo_set_mem m P) = pdo_inv P"
  "pdo_inv P \<Longrightarrow> em_inv em \<Longrightarrow> pdo_inv (P\<lparr>pdo_em := em\<rparr>)"
  "pdo_inv P \<Longrightarrow> (v \<longrightarrow> mappedObjectsCount P \<noteq> 0) \<Longrightarrow> pdo_inv (P\<lparr>pdo_valid := v\<rparr>)"
  by (auto simp: pdo_inv_def pdo_frame_def pdo_enabled_def pdo_set_mem_def)

lemma pdo_inv_em: "pdo_inv P \<Longrightarrow> em_inv (pdo_em P)"
  by (simp add: pdo_inv_def pdo_frame_def)

text \<open>What sending leaves unchanged beyond the common part: all but the bytes of the buffer.\<close>

definition tpdo_same :: "CO_TPDO \<Rightarrow> CO_TPDO \<Rightarrow> bool" where
  "tpdo_same T T' \<longleftrightarrow> pdo_kept T T' \<and> length (tx_data (tpdo_CANtxBuff T')) = 8 \<and>
     tx_ident (tpdo_CANtxBuff T') = tx_ident (tpdo_CANtxBuff T) \<and> tx_DLC (tpdo_CANtxBuff T') = tx_DLC (tpdo_CANtxBuff T) \<and>
     transmissionType T' = transmissionType T \<and> sendRequest T' = sendRequest T \<and> syncStartValue T' = syncStartValue T \<and>
     syncCounter T' = syncCounter T \<and> inhibitTime_us T' = inhibitTime_us T \<and> eventTime_us T' = eventTime_us T \<and>
     inhibitTimer T' = inhibitTimer T \<and> eventTimer T' = eventTimer T \<and> tpdo_sent T' = tpdo_sent T"

lemma tpdo_same_trans: "tpdo_same T U \<Longrightarrow> tpdo_same U V \<Longrightarrow> tpdo_same T V"
  by (simp add: tpdo_same_def) (blast intro: pdo_kept_trans)

lemma tpdo_flag_sent_same: "pdo_inv T \<Longrightarrow> length (tx_data (tpdo_CANtxBuff T)) = 8 \<Longrightarrow> tpdo_same T (tpdo_flag_sent ev i T)"
  using tpdo_flag_sent_inv [of T ev i] by (simp add: tpdo_same_def) (simp add: tpdo_flag_sent_def split: option.split)

lemma tpdo_collect_inv:
  assumes "pdo_inv T" "i \<le> unat (mappedObjectsCount T)" "pos = mapped_length (take i (pdo_OD_IO T))"
    "length (tx_data (tpdo_CANtxBuff T)) = 8"
  shows "wp (tpdo_collect i pos (word_of_nat pos) T)
    (\<lambda>(v, T'). v = ucast (pdo_dataLength T) \<and> pdo_inv T' \<and> tpdo_same T T')"
  using assms
proof (induction "unat (mappedObjectsCount T) - i" arbitrary: i pos T)
  case 0
  then have "i = unat (mappedObjectsCount T)" by simp
  then have "pos = unat (pdo_dataLength T)" using 0 by (simp add: pdo_inv_def pdo_enabled_def)
  then show ?case using 0 \<open>i = _\<close> by (subst tpdo_collect.simps) (simp add: word_of_unat tpdo_same_def)
next
  case (Suc n)
  have i: "i < unat (mappedObjectsCount T)" using Suc.hyps(2) by simp
  note el = pdo_element [OF Suc.prems(1) i]
  define io l where "io = pdo_OD_IO T ! i" and "l = pdo_mappedLength io"
  have le: "pos + unat l \<le> unat (pdo_dataLength T)" using el(3,5) Suc.prems(3) by (simp add: io_def l_def)
  have dl: "unat (pdo_dataLength T) \<le> 8" using Suc.prems(1) by (simp add: pdo_inv_def pdo_enabled_def word_le_nat_alt)
  obtain rd where rd: "pio_read io = Some rd" "read_bounded rd" using el(2) by (auto simp: io_live_def io_def)
  obtain r s bs m where w: "rd ((pio_stream io)\<lparr>dataOffset := 0\<rparr>) (pdo_ODdataLength io) (em_mem (pdo_em T)) = (r, s, bs, m)"
    by (metis prod_cases4)
  obtain d where d: "tpdo_bytes (tx_data (tpdo_CANtxBuff T)) pos l (pdo_ODdataLength io) bs = Some d" "length d = 8"
    using tpdo_bytes_ok [OF Suc.prems(4) _ pdo_ODdataLength_le read_boundedD [OF rd(2) w]] le dl by (meson order_trans)
  define T1 where "T1 = pdo_set_io i (io\<lparr>pio_stream := s\<lparr>dataOffset := ucast l\<rparr>\<rparr>) (pdo_set_mem m T)"
  define T2 where "T2 = T1\<lparr>tpdo_CANtxBuff := (tpdo_CANtxBuff T)\<lparr>tx_data := d\<rparr>\<rparr>"
  define T3 where "T3 = tpdo_flag_sent (tpdo_eventDriven T2) i T2"
  have v: "\<not> (word_of_nat (pos + unat l) :: u32) > 8"
    using le dl by (intro word_of_nat_le_8) simp
  have step: "tpdo_collect i pos (word_of_nat pos) T = tpdo_collect (Suc i) (pos + unat l) (word_of_nat (pos + unat l)) T3"
    using el(1) i v rd(1) w d
    by (subst tpdo_collect.simps) (simp add: Let_def T1_def T2_def T3_def flip: io_def l_def)
  have T1: "pdo_inv T1 \<and> pdo_kept T T1"
    unfolding T1_def by (rule pdo_inv_touch [OF Suc.prems(1) i]) (simp_all add: io_def l_def el(4))
  then have T2: "pdo_inv T2 \<and> pdo_kept T T2" by (simp add: T2_def pdo_kept_def)
  have s2: "tpdo_same T T2" using T2 d(2) by (simp add: tpdo_same_def T2_def T1_def pdo_set_io_def pdo_set_mem_def)
  have c: "mappedObjectsCount T3 = mappedObjectsCount T" "pdo_dataLength T3 = pdo_dataLength T"
    "length (tx_data (tpdo_CANtxBuff T3)) = 8"
    by (simp_all add: T3_def T2_def T1_def pdo_set_io_def pdo_set_mem_def d(2))
  have s3: "tpdo_same T2 T3" "pdo_inv T3"
    using tpdo_flag_sent_same [of T2] tpdo_flag_sent_inv [of T2] T2 d(2) by (simp_all add: T3_def T2_def [symmetric]) (simp_all add: T2_def)
  have "pos + unat l = mapped_length (take (Suc i) (pdo_OD_IO T3))"
    using mapped_length_take_Suc [of i "pdo_OD_IO T1"] Suc.prems(3) el
    by (simp add: T3_def T2_def T1_def pdo_set_io_def pdo_set_mem_def io_def l_def)
  then show ?case
    unfolding step
    by (intro wp_mono [OF Suc.hyps(1) [of T3 "Suc i" "pos + unat l"]])
       (use Suc.hyps(2) s3 c i tpdo_same_trans [OF tpdo_same_trans [OF s2 s3(1)]] in auto)
qed

section \<open>The operations keep it\<close>

definition rpdo_inv :: "CO_RPDO \<Rightarrow> bool" where
  "rpdo_inv R \<longleftrightarrow> pdo_inv R \<and> length (rpdo_CANrxNew R) = 2 \<and> map length (rpdo_CANrxData R) = [8, 8]"

definition tpdo_inv :: "CO_TPDO \<Rightarrow> bool" where
  "tpdo_inv T \<longleftrightarrow> pdo_inv T \<and> length (tx_data (tpdo_CANtxBuff T)) = 8 \<and>
     (pdo_valid T \<longrightarrow> tx_DLC (tpdo_CANtxBuff T) = pdo_dataLength T)"

text \<open>
  A write has as many bytes as the variable; the initialisation has verified the lengths of the variables,
  and the SDO server those of the transfers.
\<close>

definition comm_size :: "u8 \<Rightarrow> u8 list \<Rightarrow> bool" where
  "comm_size sub b \<longleftrightarrow> (sub = 1 \<longrightarrow> length b = 4) \<and> (sub \<in> {2, 6} \<longrightarrow> length b = 1) \<and> (sub \<in> {3, 5} \<longrightarrow> length b = 2)"

definition map_size :: "u8 \<Rightarrow> u8 list \<Rightarrow> bool" where
  "map_size sub b \<longleftrightarrow> length b = (if sub = 0 then 1 else 4)"

lemma mapped_sum_Some:
  "mapped_sum ios = Some len \<Longrightarrow> list_all io_ok ios \<Longrightarrow> list_all io_live ios \<and> mapped_length ios = len"
  by (induction ios arbitrary: len) (auto simp: io_ok_def split: if_splits)

lemma list_all_take: "list_all Q xs \<Longrightarrow> list_all Q (take n xs)"
  by (meson list.pred_set in_set_takeD list_all_iff)

lemma pdo_inv_count:
  assumes "pdo_inv P" "\<not> pdo_valid P" "unat cnt \<le> 8" "mapped_sum (take (unat cnt) (pdo_OD_IO P)) = Some len" "len \<le> 8"
  shows "pdo_inv (P\<lparr>pdo_dataLength := word_of_nat len, mappedObjectsCount := cnt\<rparr>)"
proof -
  have "list_all io_ok (take (unat cnt) (pdo_OD_IO P))" using assms(1) by (simp add: pdo_inv_def list_all_take)
  then have "list_all io_live (take (unat cnt) (pdo_OD_IO P)) \<and> mapped_length (take (unat cnt) (pdo_OD_IO P)) = len"
    using mapped_sum_Some [OF assms(4)] by blast
  then show ?thesis
    using assms by (simp add: pdo_inv_def pdo_frame_def pdo_enabled_def word_le_nat_alt unat_of_nat)
qed

lemma pdo_inv_configured:
  assumes "pdo_inv P" "mappedObjectsCount P = 0" "pdo_configured i P P'"
  shows "pdo_inv P'"
proof -
  obtain io where io: "pdo_OD_IO P' = (pdo_OD_IO P)[i := io]" "io_live io" using assms(3) by (auto simp: pdo_configured_def)
  have "list_all io_ok ((pdo_OD_IO P)[i := io])"
    using assms(1) io(2) by (cases "i < length (pdo_OD_IO P)") (auto simp: pdo_inv_def list_all_length nth_list_update io_ok_def)
  then show ?thesis
    using assms by (auto simp: pdo_inv_def pdo_frame_def pdo_enabled_def pdo_configured_def io(1))
qed

lemma pdo_write_original_inv:
  "pdo_inv P \<Longrightarrow> pdo_inv (snd (snd (snd (pdo_write_original P st b)))) \<and>
     CO_PDO_common.more (snd (snd (snd (pdo_write_original P st b)))) = CO_PDO_common.more P"
  by (simp add: pdo_write_original_def case_prod_unfold Let_def) (simp add: pdo_set_mem_def)

lemma OD_write_PDO_mapping_inv:
  assumes inv: "pdo_inv P" and b: "map_size (stream_subIndex st) b"
  shows "wp (OD_write_PDO_mapping P st b) (\<lambda>x. pdo_inv (snd (snd (snd x))) \<and> CO_PDO_common.more (snd (snd (snd x))) = CO_PDO_common.more P)"
proof (cases "unat (stream_subIndex st) > 8 \<or> pdo_valid P \<or> (mappedObjectsCount P \<noteq> 0 \<and> stream_subIndex st > 0)")
  case True
  then show ?thesis using inv by (auto simp: OD_write_PDO_mapping_def)
next
  case False
  show ?thesis
  proof (cases "stream_subIndex st = 0")
    case True
    then obtain cnt where cnt: "b = [cnt]" using b by (auto simp: map_size_def length_Suc_conv)
    define P1 where "P1 = (\<lambda>len. P\<lparr>pdo_dataLength := word_of_nat len, mappedObjectsCount := cnt\<rparr>)"
    have eq: "OD_write_PDO_mapping P st b =
      (if unat cnt > 8 then Some (ODR_MAP_LEN, st, 0, P)
       else case mapped_sum (take (unat cnt) (pdo_OD_IO P)) of
          None \<Rightarrow> Some (ODR_NO_MAP, st, 0, P)
        | Some len \<Rightarrow> if len > 8 then Some (ODR_MAP_LEN, st, 0, P)
            else if len = 0 \<and> cnt > 0 then Some (ODR_INVALID_VALUE, st, 0, P)
            else Some (pdo_write_original (P1 len) st b))"
      using True False by (simp add: OD_write_PDO_mapping_def cnt P1_def split: option.split)
    have "pdo_inv (P1 len)" if "unat cnt \<le> 8" "mapped_sum (take (unat cnt) (pdo_OD_IO P)) = Some len" "len \<le> 8" for len
      unfolding P1_def by (rule pdo_inv_count [OF inv]) (use that False in auto)
    moreover have "CO_PDO_common.more (P1 len) = CO_PDO_common.more P" for len by (simp add: P1_def)
    ultimately show ?thesis
      unfolding eq using inv pdo_write_original_inv [of "P1 _" st b] by (simp split: option.split)
  next
    case nz: False
    define val :: u32 where "val = le_word (take 4 b)"
    obtain r P1 where c: "PDOconfigMap P val (unat (stream_subIndex st - 1)) (pdo_isRPDO P) = (r, P1)" by fastforce
    have v: "get_u32 b = Some val" using b nz by (simp add: get_u32_def buf_read_def map_size_def val_def)
    have P1: "pdo_inv P1 \<and> CO_PDO_common.more P1 = CO_PDO_common.more P"
    proof (cases "r = ODR_OK")
      case True
      then have "pdo_configured (unat (stream_subIndex st - 1)) P P1"
        using PDOconfigMap_ok c inv by (auto simp: pdo_inv_def pdo_frame_def)
      then show ?thesis using pdo_inv_configured [OF inv] False nz by (auto simp: pdo_configured_def word_gt_0)
    next
      case False
      then show ?thesis using PDOconfigMap_error [OF c] inv by simp
    qed
    then show ?thesis
      using nz False pdo_write_original_inv [of P1 st b] by (auto simp: OD_write_PDO_mapping_def v c word_gt_0)
  qed
qed

lemma rpdo_write_cob_inv:
  "rpdo_inv R \<Longrightarrow> rpdo_inv (snd (rpdo_write_cob rxRet R v b))"
  by (auto simp: rpdo_inv_def rpdo_write_cob_def pdo_cob_invalid_def Let_def)

lemma rpdo_write_type_inv: "rpdo_inv R \<Longrightarrow> rpdo_inv (snd (rpdo_write_type R v b))"
  by (auto simp: rpdo_inv_def rpdo_write_type_def Let_def)

lemma rpdo_more_inv:
  "rpdo_inv R \<Longrightarrow> pdo_inv R' \<Longrightarrow> CO_PDO_common.more R' = CO_PDO_common.more R \<Longrightarrow> rpdo_inv R'"
  by (cases R; cases R') (simp add: rpdo_inv_def)

lemma rpdo_write_original_inv: "rpdo_inv R \<Longrightarrow> rpdo_inv (snd (snd (snd (pdo_write_original R st b))))"
  using pdo_write_original_inv [of R st b] rpdo_more_inv [of R] rpdo_inv_def by blast

lemma OD_write_14xx_inv:
  assumes "rpdo_inv R" "comm_size (stream_subIndex st) b"
  shows "wp (OD_write_14xx rxRet R st b) (\<lambda>x. rpdo_inv (snd (snd (snd x))))"
proof -
  have "rpdo_inv (R\<lparr>rpdo_timeoutTime_us := t, rpdo_timeoutTimer := t'\<rparr>)" for t t'
    using assms(1) by (simp add: rpdo_inv_def)
  then show ?thesis
    using assms rpdo_write_cob_inv [OF assms(1), of rxRet] rpdo_write_type_inv [OF assms(1)]
    by (auto simp: OD_write_14xx_def comm_size_def get_u32_def get_u16_def buf_read_def arr_get_def case_prod_unfold
        intro!: rpdo_write_original_inv split: sum.split)
qed

text \<open>The software error that would be reported for inconsistent lengths does not appear.\<close>

definition no_new_bug :: "'a CO_PDO_common_scheme \<Rightarrow> 'a CO_PDO_common_scheme \<Rightarrow> bool" where
  "no_new_bug P P' \<longleftrightarrow> (CO_isError (pdo_em P') CO_EM_GENERIC_SOFTWARE_ERROR \<longrightarrow> CO_isError (pdo_em P) CO_EM_GENERIC_SOFTWARE_ERROR)"

lemma no_new_bug_refl: "no_new_bug P P"
  by (simp add: no_new_bug_def)

lemma no_new_bug_trans: "no_new_bug P Q \<Longrightarrow> no_new_bug Q R \<Longrightarrow> no_new_bug P R"
  by (simp add: no_new_bug_def)

lemma no_new_bug_kept: "pdo_kept P P' \<Longrightarrow> no_new_bug P P'"
proof -
  assume "pdo_kept P P'"
  then obtain m where "pdo_em P' = (pdo_em P)\<lparr>em_mem := m\<rparr>" by (auto simp: pdo_kept_def)
  then show ?thesis by (simp add: no_new_bug_def CO_isError_def)
qed

lemma CO_PDO_receive_inv:
  assumes "rpdo_inv R" "length data = 8"
  shows "wp (CO_PDO_receive R sy DLC data) (\<lambda>R'. rpdo_inv R' \<and> no_new_bug R R')"
  using assms
  by (auto simp: CO_PDO_receive_def rpdo_inv_def Let_def buf_read_def map_update rpdo_rx_buf_def no_new_bug_def)

lemma rpdo_inv_upd [simp]:
  "rpdo_inv (R\<lparr>rpdo_receiveError := y\<rparr>) = rpdo_inv R" "rpdo_inv (R\<lparr>rpdo_timeoutTimer := t\<rparr>) = rpdo_inv R"
  "rpdo_inv R \<Longrightarrow> em_inv em \<Longrightarrow> rpdo_inv (R\<lparr>pdo_em := em\<rparr>)"
  "rpdo_inv R \<Longrightarrow> rpdo_inv (R\<lparr>rpdo_CANrxNew := (rpdo_CANrxNew R)[k := q]\<rparr>)"
  "rpdo_inv R \<Longrightarrow> rpdo_inv (R\<lparr>rpdo_CANrxNew := [False, False]\<rparr>)"
  by (simp_all add: rpdo_inv_def)

lemma rpdo_inv_em: "rpdo_inv R \<Longrightarrow> em_inv (pdo_em R)"
  by (simp add: rpdo_inv_def pdo_inv_em)

lemma rpdo_length_error_inv:
  "rpdo_inv R \<Longrightarrow> wp (rpdo_length_error R) (\<lambda>R'. rpdo_inv R' \<and> no_new_bug R R')"
  by (auto simp: rpdo_length_error_def Let_def CO_error_eq rpdo_inv_em error_result_inv no_new_bug_def err_bit_def
      error_result_isError)

lemma rpdo_take_inv:
  assumes "rpdo_inv R" "bufNo < 2"
  shows "wp (rpdo_take R bufNo) (\<lambda>R'. rpdo_inv R' \<and> no_new_bug R R')"
proof -
  define d where "d = rpdo_CANrxData R ! bufNo"
  have data: "length (rpdo_CANrxData R) = 2" "length d = 8"
    using assms by (auto simp: rpdo_inv_def d_def map_eq_Cons_conv less_2_cases_iff)
  define R0 where "R0 = R\<lparr>rpdo_CANrxNew := (rpdo_CANrxNew R)[bufNo := False]\<rparr>"
  have R0: "rpdo_inv R0" "pdo_inv R0" "pdo_em R0 = pdo_em R" using assms(1) by (simp_all add: R0_def) (simp add: rpdo_inv_def)
  obtain v R1 where c: "rpdo_copy 0 0 0 d R0 = Some (v, R1)" "v = ucast (pdo_dataLength R0)" "pdo_inv R1" "pdo_kept R0 R1"
      "CO_PDO_common.more R1 = CO_PDO_common.more R0"
    using rpdo_copy_inv [of R0 0 0 d] R0(2) data(2) by (auto simp: wp_ex)
  have "pdo_dataLength R0 \<le> 8" using R0(2) by (simp add: pdo_inv_def pdo_enabled_def)
  then have "\<not> pdo_length_bug R1 v"
    using c(2,4) by (simp add: pdo_length_bug_def pdo_kept_def word_less_nat_alt word_le_nat_alt unat_ucast_8_32)
  then have "rpdo_take R bufNo = Some R1" using data(1) assms(2) c(1) by (simp add: rpdo_take_def R0_def d_def)
  moreover have "rpdo_inv R1" using rpdo_more_inv [OF R0(1) c(3,5)] .
  moreover have "no_new_bug R R1" using no_new_bug_kept [OF c(4)] R0(3) by (simp add: no_new_bug_def)
  ultimately show ?thesis by simp
qed

lemma rpdo_timeout_inv:
  "rpdo_inv R \<Longrightarrow> wp (rpdo_timeout R q td tn) (\<lambda>x. rpdo_inv (fst x) \<and> no_new_bug R (fst x))"
  by (auto simp: rpdo_timeout_def Let_def CO_errorReport_eq CO_errorReset_eq rpdo_inv_em error_result_inv no_new_bug_def err_bit_def
      error_result_isError)

lemma CO_RPDO_process_inv:
  assumes "rpdo_inv R"
  shows "wp (CO_RPDO_process R sy td tn oper sw) (\<lambda>x. rpdo_inv (fst x) \<and> no_new_bug R (fst x))"
proof (cases "pdo_valid R \<and> oper \<and> (sw \<or> \<not> synchronous R)")
  case True
  obtain R1 where R1: "rpdo_length_error R = Some R1" "rpdo_inv R1" "no_new_bug R R1"
    using rpdo_length_error_inv [OF assms] by (auto simp: wp_ex)
  define k where "k = rpdo_process_buf R1 sy"
  have k: "k < 2" "k < length (rpdo_CANrxNew R1)" using R1(2) by (simp_all add: k_def rpdo_process_buf_def rpdo_inv_def)
  obtain R2 where R2: "(if rpdo_CANrxNew R1 ! k then rpdo_take R1 k else Some R1) = Some R2" "rpdo_inv R2" "no_new_bug R1 R2"
    using rpdo_take_inv [OF R1(2) k(1)] R1(2) no_new_bug_refl [of R1] by (cases "rpdo_CANrxNew R1 ! k") (auto simp: wp_ex)
  have "CO_RPDO_process R sy td tn oper sw =
      (if rpdo_CANrxNew R1 ! k then rpdo_take R1 k else Some R1) \<bind> (\<lambda>R. rpdo_timeout R (rpdo_CANrxNew R1 ! k) td tn)"
    using True R1(1) k(2) by (simp add: CO_RPDO_process_def Let_def flip: k_def)
  then have "CO_RPDO_process R sy td tn oper sw = rpdo_timeout R2 (rpdo_CANrxNew R1 ! k) td tn"
    by (simp only: R2(1) Option.bind.simps)
  then show ?thesis
    using wp_mono [OF rpdo_timeout_inv [OF R2(2)]] no_new_bug_trans [OF R1(3)] no_new_bug_trans [OF R2(3)] by auto
next
  case False
  then show ?thesis using assms by (auto simp: CO_RPDO_process_def no_new_bug_def)
qed

lemma tpdo_more_inv:
  "tpdo_inv T \<Longrightarrow> pdo_inv T' \<Longrightarrow> CO_PDO_common.more T' = CO_PDO_common.more T \<Longrightarrow>
   (pdo_valid T' \<longrightarrow> pdo_valid T \<and> pdo_dataLength T' = pdo_dataLength T) \<Longrightarrow> tpdo_inv T'"
  by (cases T; cases T') (auto simp: tpdo_inv_def)

lemma pdo_write_original_valid:
  "pdo_valid (snd (snd (snd (pdo_write_original P st b)))) = pdo_valid P"
  "pdo_dataLength (snd (snd (snd (pdo_write_original P st b)))) = pdo_dataLength P"
  by (simp_all add: pdo_write_original_def case_prod_unfold Let_def pdo_set_mem_def)

lemma tpdo_write_original_inv: "tpdo_inv T \<Longrightarrow> tpdo_inv (snd (snd (snd (pdo_write_original T st b))))"
  using pdo_write_original_inv [of T st b] pdo_write_original_valid [of T st b] tpdo_more_inv [of T] tpdo_inv_def by metis

lemma tpdo_txInit_inv: "tpdo_inv T \<Longrightarrow> tpdo_inv (tpdo_txInit T i)"
  by (simp add: tpdo_inv_def tpdo_txInit_def CO_CANtxBufferInit_def)

lemma tpdo_txInit_fields [simp]:
  "pdo_valid (tpdo_txInit T i) = pdo_valid T" "pdo_dataLength (tpdo_txInit T i) = pdo_dataLength T"
  "mappedObjectsCount (tpdo_txInit T i) = mappedObjectsCount T" "tx_DLC (tpdo_CANtxBuff (tpdo_txInit T i)) = pdo_dataLength T"
  by (simp_all add: tpdo_txInit_def CO_CANtxBufferInit_def)

lemma tpdo_write_cob_inv: "tpdo_inv T \<Longrightarrow> tpdo_inv (snd (tpdo_write_cob txOk T v b))"
  using tpdo_txInit_inv [of T]
  by (auto simp: tpdo_write_cob_def pdo_cob_invalid_def Let_def tpdo_inv_def)

lemma tpdo_write_sub_inv:
  "tpdo_inv T \<Longrightarrow> comm_size sub b \<Longrightarrow> wp (tpdo_write_sub txOk T sub b) (\<lambda>x. tpdo_inv (snd x))"
  using tpdo_write_cob_inv [of T txOk]
  by (auto simp: tpdo_write_sub_def tpdo_write_type_def comm_size_def get_u32_def get_u16_def buf_read_def arr_get_def tpdo_inv_def)

lemma OD_write_18xx_inv:
  assumes "tpdo_inv T" "comm_size (stream_subIndex st) b"
  shows "wp (OD_write_18xx txOk T st b) (\<lambda>x. tpdo_inv (snd (snd (snd x))))"
proof -
  obtain r T1 where "tpdo_write_sub txOk T (stream_subIndex st) b = Some (r, T1)" "tpdo_inv T1"
    using tpdo_write_sub_inv [OF assms, of txOk] by (auto simp: wp_ex)
  then show ?thesis
    using assms(1) tpdo_write_original_inv [of T1 st] by (simp add: OD_write_18xx_def split: sum.split)
qed

text \<open>One message: it is the collected bytes, and sending resets the triggers.\<close>

definition tpdo_after_send :: "CO_TPDO \<Rightarrow> CO_TPDO \<Rightarrow> bool" where
  "tpdo_after_send T T' \<longleftrightarrow> tpdo_inv T' \<and> no_new_bug T T' \<and> \<not> sendRequest T' \<and>
     eventTimer T' = eventTime_us T \<and> inhibitTimer T' = inhibitTime_us T \<and>
     tpdo_sent T' = tpdo_sent T @ [tx_frame (tpdo_CANtxBuff T')] \<and>
     tx_ident (tpdo_CANtxBuff T') = tx_ident (tpdo_CANtxBuff T) \<and> tx_DLC (tpdo_CANtxBuff T') = tx_DLC (tpdo_CANtxBuff T) \<and>
     transmissionType T' = transmissionType T \<and> syncStartValue T' = syncStartValue T \<and> syncCounter T' = syncCounter T \<and>
     inhibitTime_us T' = inhibitTime_us T \<and> eventTime_us T' = eventTime_us T \<and> pdo_valid T' = pdo_valid T"

lemma CO_TPDOsend_ok:
  assumes "tpdo_inv T"
  shows "wp (CO_TPDOsend T) (tpdo_after_send T)"
proof -
  obtain v T1 where c: "tpdo_collect 0 0 0 T = Some (v, T1)" "v = ucast (pdo_dataLength T)" "pdo_inv T1" "tpdo_same T T1"
    using tpdo_collect_inv [of T 0 0] assms by (auto simp: wp_ex tpdo_inv_def)
  have "pdo_dataLength T \<le> 8" using assms by (simp add: tpdo_inv_def pdo_inv_def pdo_enabled_def)
  then have "\<not> pdo_length_bug T1 v"
    using c(2,4) by (simp add: pdo_length_bug_def tpdo_same_def pdo_kept_def word_less_nat_alt word_le_nat_alt unat_ucast_8_32)
  moreover have "no_new_bug T T1" using c(4) by (intro no_new_bug_kept) (simp add: tpdo_same_def)
  ultimately show ?thesis
    using c assms by (simp add: CO_TPDOsend_def tpdo_after_send_def tpdo_inv_def tpdo_same_def no_new_bug_def tx_frame_def pdo_kept_def)
qed

lemma tpdo_inv_upd [simp]:
  "tpdo_inv (T\<lparr>sendRequest := q\<rparr>) = tpdo_inv T" "tpdo_inv (T\<lparr>eventTimer := t\<rparr>) = tpdo_inv T"
  "tpdo_inv (T\<lparr>inhibitTimer := t\<rparr>) = tpdo_inv T" "tpdo_inv (T\<lparr>syncCounter := y\<rparr>) = tpdo_inv T"
  by (simp_all add: tpdo_inv_def)

lemma tpdo_requested_ok: "length (flagPDObyte T) = 8 \<Longrightarrow> \<forall>i \<in> set is. i < 8 \<Longrightarrow> \<exists>q. tpdo_requested T is = Some q"
  by (induction "is") (auto split: option.split)

text \<open>The triggers change the event timer and the request only.\<close>

definition event_time :: "CO_TPDO \<Rightarrow> u32 \<Rightarrow> u32" where
  "event_time T td = (if tpdo_eventDriven T \<and> eventTime_us T \<noteq> 0 then timer_left (eventTimer T) td else eventTimer T)"

lemma tpdo_event_timer_eq:
  "tpdo_eventDriven T \<Longrightarrow> fst (tpdo_event_timer T td tn) =
     T\<lparr>eventTimer := event_time T td, sendRequest := sendRequest T \<or> (eventTime_us T \<noteq> 0 \<and> event_time T td = 0)\<rparr>"
  by (cases T) (simp add: tpdo_event_timer_def event_time_def Let_def)

lemma tpdo_triggers_ok:
  assumes "tpdo_inv T"
  shows "\<exists>q tn'. tpdo_triggers T td tn = Some (T\<lparr>eventTimer := event_time T td, sendRequest := q\<rparr>, tn') \<and>
    (sendRequest T \<longrightarrow> q) \<and> (tpdo_eventDriven T \<and> eventTime_us T \<noteq> 0 \<and> event_time T td = 0 \<longrightarrow> q) \<and>
    (\<not> tpdo_eventDriven T \<longrightarrow> q = sendRequest T)"
proof (cases "tpdo_eventDriven T")
  case False
  then show ?thesis by (intro exI [of _ "sendRequest T"] exI [of _ tn]) (simp add: tpdo_triggers_def event_time_def)
next
  case True
  define q0 where "q0 \<longleftrightarrow> sendRequest T \<or> (eventTime_us T \<noteq> 0 \<and> event_time T td = 0)"
  define U where "U = T\<lparr>eventTimer := event_time T td, sendRequest := q0\<rparr>"
  have "fst (tpdo_event_timer T td tn) = U" unfolding U_def q0_def by (rule tpdo_event_timer_eq [OF True])
  then obtain tn' where et: "tpdo_event_timer T td tn = (U, tn')" by (cases "tpdo_event_timer T td tn") simp
  have l: "length (flagPDObyte U) = 8" "mappedObjectsCount U \<le> 8"
    using assms by (auto simp: U_def tpdo_inv_def pdo_inv_def pdo_frame_def pdo_enabled_def)
  obtain q where q: "tpdo_requested U [0..<unat (mappedObjectsCount U)] = Some q"
    using tpdo_requested_ok [OF l(1), of "[0..<unat (mappedObjectsCount U)]"] l(2) by (auto simp: word_le_nat_alt)
  have "tpdo_triggers T td tn = Some (if \<not> q0 \<and> q then U\<lparr>sendRequest := True\<rparr> else U, tn')"
    using True q et by (cases q0) (simp_all add: tpdo_triggers_def U_def)
  then have "tpdo_triggers T td tn = Some (U\<lparr>sendRequest := q0 \<or> q\<rparr>, tn')"
    by (cases q0; cases q) (simp_all add: U_def)
  then show ?thesis
    using True by (intro exI [of _ "q0 \<or> q"] exI [of _ tn']) (auto simp: U_def q0_def)
qed

text \<open>A call in the event-driven types: a message is sent when one is due and the inhibit time is over.\<close>

lemma tpdo_process_event:
  assumes T: "tpdo_inv T" "pdo_valid T" "transmissionType T \<ge> 0xFE"
  shows "\<exists>q T0 T' tn'. T0 = T\<lparr>eventTimer := event_time T td, sendRequest := q, inhibitTimer := timer_left (inhibitTimer T) td\<rparr> \<and>
    CO_TPDO_process T sy td tn True sw = Some (T', tn') \<and> (sendRequest T \<longrightarrow> q) \<and> (eventTime_us T \<noteq> 0 \<and> event_time T td = 0 \<longrightarrow> q) \<and>
    (if q \<and> timer_left (inhibitTimer T) td = 0 then tpdo_after_send T0 T' else T' = T0)"
proof -
  have ev: "tpdo_eventDriven T" using T(3) by (simp add: tpdo_eventDriven_def)
  obtain q tn1 where q: "tpdo_triggers T td tn = Some (T\<lparr>eventTimer := event_time T td, sendRequest := q\<rparr>, tn1)"
    "sendRequest T \<longrightarrow> q" "eventTime_us T \<noteq> 0 \<and> event_time T td = 0 \<longrightarrow> q"
    using tpdo_triggers_ok [OF T(1), of td tn] ev by auto
  define t where "t = timer_left (inhibitTimer T) td"
  define T0 where "T0 = T\<lparr>eventTimer := event_time T td, sendRequest := q, inhibitTimer := t\<rparr>"
  have T0: "tpdo_inv T0" "sendRequest T0 = q" "inhibitTimer T0 = t" using T(1) by (simp_all add: T0_def)
  have eq: "CO_TPDO_process T sy td tn True sw =
      (if q \<and> t = 0 then CO_TPDOsend T0 else Some T0) \<bind> (\<lambda>T. Some (T, if sendRequest T then map_option (min (inhibitTimer T)) tn1 else tn1))"
    using T(2,3) by (simp add: CO_TPDO_process_def q(1) tpdo_event_send_def Let_def T0_def t_def)
  obtain T' tn' where T': "CO_TPDO_process T sy td tn True sw = Some (T', tn')" "if q \<and> t = 0 then tpdo_after_send T0 T' else T' = T0"
  proof (cases "q \<and> t = 0")
    case True
    then show ?thesis using CO_TPDOsend_ok [OF T0(1)] eq that by (auto simp: wp_ex)
  next
    case False
    have "CO_TPDO_process T sy td tn True sw = Some (T0, if sendRequest T0 then map_option (min (inhibitTimer T0)) tn1 else tn1)"
      unfolding eq using False by auto
    then show ?thesis using that [of T0] False by auto
  qed
  show ?thesis
    by (rule exI [of _ q], rule exI [of _ T0], rule exI [of _ T'], rule exI [of _ tn'])
       (use T' q(2,3) in \<open>simp add: T0_def t_def\<close>)
qed

lemma tpdo_sync_send_ok:
  assumes "tpdo_inv T"
  shows "wp (tpdo_sync_send T S) (\<lambda>T'. tpdo_inv T' \<and> no_new_bug T T')"
proof -
  have "wp (CO_TPDOsend U) (\<lambda>T'. tpdo_inv T' \<and> no_new_bug T T')" if "tpdo_inv U" "pdo_em U = pdo_em T" for U
    using that by (intro wp_mono [OF CO_TPDOsend_ok [OF that(1)]]) (simp add: tpdo_after_send_def no_new_bug_def)
  then show ?thesis
    using assms by (simp add: tpdo_sync_send_def Let_def no_new_bug_def)
qed

lemma CO_TPDO_process_inv:
  assumes "tpdo_inv T"
  shows "wp (CO_TPDO_process T sy td tn oper sw) (\<lambda>x. tpdo_inv (fst x) \<and> no_new_bug T (fst x))"
proof (cases "pdo_valid T \<and> oper")
  case True
  show ?thesis
  proof (cases "transmissionType T \<ge> 0xFE")
    case ev: True
    obtain q T0 T' tn' where "T0 = T\<lparr>eventTimer := event_time T td, sendRequest := q, inhibitTimer := timer_left (inhibitTimer T) td\<rparr>"
      "CO_TPDO_process T sy td tn True sw = Some (T', tn')"
      "if q \<and> timer_left (inhibitTimer T) td = 0 then tpdo_after_send T0 T' else T' = T0"
      using tpdo_process_event [OF assms _ ev, of td sy tn sw] True by metis
    then show ?thesis using True assms by (auto simp: tpdo_after_send_def no_new_bug_def split: if_splits)
  next
    case False
    obtain q tn1 where q: "tpdo_triggers T td tn = Some (T\<lparr>eventTimer := event_time T td, sendRequest := q\<rparr>, tn1)"
      using tpdo_triggers_ok [OF assms, of td tn] by auto
    define T0 where "T0 = T\<lparr>eventTimer := event_time T td, sendRequest := q\<rparr>"
    have T0: "tpdo_inv T0" "no_new_bug T T0" using assms by (simp_all add: T0_def no_new_bug_def)
    have "CO_TPDO_process T sy td tn oper sw =
        (case sy of Some S \<Rightarrow> if sw then map_option (\<lambda>T. (T, tn1)) (tpdo_sync_send T0 S) else Some (T0, tn1) | None \<Rightarrow> Some (T0, tn1))"
      using True False by (cases sy) (simp_all add: CO_TPDO_process_def q T0_def)
    moreover have "wp (tpdo_sync_send T0 S) (\<lambda>T'. tpdo_inv T' \<and> no_new_bug T T')" for S
      by (rule wp_mono [OF tpdo_sync_send_ok [OF T0(1)]]) (auto intro: no_new_bug_trans [OF T0(2)])
    ultimately show ?thesis using T0 by (simp split: option.split)
  qed
next
  case False
  then show ?thesis using assms by (auto simp: CO_TPDO_process_def no_new_bug_def)
qed

section \<open>Initialisation of the objects\<close>

lemma rpdo_more_fields:
  "CO_PDO_common.more R' = CO_PDO_common.more R \<Longrightarrow> rpdo_CANrxNew R' = rpdo_CANrxNew R \<and> rpdo_CANrxData R' = rpdo_CANrxData R"
  by (cases R; cases R') simp

lemma pdo_frame_zero:
  assumes "em_inv em" "od_bounded od"
  shows "pdo_frame (rpdo_zero em od)" "pdo_frame (tpdo_zero tx em od)"
  using assms
  by (simp_all add: pdo_frame_def rpdo_zero_def tpdo_zero_def pdo_common_zero_def CO_PDO_common.extend_def CO_RPDO.fields_def CO_TPDO.fields_def)

lemma pdo_init_cob_valid: "pdo_init_cob P err COB_ID pre = (va, CAN_ID, err') \<Longrightarrow> va \<longrightarrow> mappedObjectsCount P \<noteq> 0"
  by (auto simp: pdo_init_cob_def Let_def)

text \<open>What the initialisation may do to the emergency object: report a wrong mapping.\<close>

definition mapping_report :: "em \<Rightarrow> em \<Rightarrow> bool" where
  "mapping_report em em' \<longleftrightarrow> em' = em \<or> (\<exists>info. em' = error_result em True CO_EM_PDO_WRONG_MAPPING CO_EMC_PROTOCOL_ERROR info)"

lemma pdo_report_mapping_ok:
  assumes "pdo_inv P"
  shows "\<exists>em. em_inv em \<and> mapping_report (pdo_em P) em \<and> pdo_report_mapping P err COB_ID = Some (P\<lparr>pdo_em := em\<rparr>)"
proof (cases "err = 0")
  case True
  then show ?thesis using pdo_inv_em [OF assms] by (intro exI [of _ "pdo_em P"]) (simp add: pdo_report_mapping_def mapping_report_def)
next
  case False
  then show ?thesis
    using pdo_inv_em [OF assms] by (simp add: pdo_report_mapping_def CO_errorReport_eq mapping_report_def) (blast intro: error_result_inv)
qed

lemma rpdo_init_type_inv: "rpdo_inv R \<Longrightarrow> rpdo_inv (snd (snd (rpdo_init_type R e14 pre CAN_ID)))"
  by (auto simp: rpdo_init_type_def rpdo_inv_def case_prod_unfold Let_def) (auto simp: pdo_set_mem_def)

lemma CO_RPDO_init_inv:
  assumes "em_inv em" "od_bounded od" "map_complete e16 (em_mem em)"
    and "CO_RPDO_init rxRet em od R0 preDefined e14 e16 = Some (CO_ERROR_NO, info, R)"
  shows "rpdo_inv R \<and> mapping_report em (pdo_em R)"
proof -
  let ?Z = "rpdo_zero em od"
  have z: "\<not> pdo_valid ?Z" "mappedObjectsCount ?Z = 0" "pdo_dataLength ?Z = 0" "pdo_em ?Z = em"
    by (simp_all add: rpdo_zero_def pdo_common_zero_def CO_PDO_common.extend_def)
  obtain ret info1 err R1 where m: "PDO_initMapping ?Z e16 True = (ret, info1, err, R1)" by (metis prod_cases4)
  have "ret = CO_ERROR_NO" using assms(4) m by (auto simp: CO_RPDO_init_def split: if_splits)
  then have R1: "pdo_inv R1 \<and> \<not> pdo_valid R1 \<and> CO_PDO_common.more R1 = CO_PDO_common.more ?Z \<and> pdo_em R1 = em"
    using PDO_initMapping_inv [of ?Z e16 True info1 err R1] m assms(3) z pdo_frame_zero(1) [OF assms(1,2)] by simp
  then have inv1: "rpdo_inv R1"
    using rpdo_more_fields [of R1 ?Z]
    by (simp add: rpdo_inv_def) (simp add: rpdo_zero_def pdo_common_zero_def CO_PDO_common.extend_def CO_RPDO.fields_def)
  obtain odRet COB_ID m where cob: "OD_get_u32 e14 1 True (em_mem (pdo_em R1)) = (odRet, COB_ID, m)" by (metis prod_cases3)
  have mem: "m = em_mem (pdo_em R1)" using OD_get_mem(3) [OF cob] .
  obtain va CAN_ID err2 where ic: "pdo_init_cob R1 err COB_ID preDefined = (va, CAN_ID, err2)" by (metis prod_cases3)
  obtain em2 where rep: "em_inv em2" "pdo_report_mapping R1 err2 COB_ID = Some (R1\<lparr>pdo_em := em2\<rparr>)" "mapping_report em em2"
    using pdo_report_mapping_ok R1 by metis
  define R2 where "R2 = R1\<lparr>pdo_em := em2, rpdo_rxIdent := CAN_ID, pdo_valid := va\<rparr>"
  have "rpdo_inv R2"
    using inv1 rep(1) pdo_init_cob_valid [OF ic] by (simp add: R2_def rpdo_inv_def)
  moreover have "(CO_ERROR_NO, info, R) = rpdo_init_type R2 e14 preDefined CAN_ID"
    using assms(4) m \<open>ret = _\<close> by (auto simp: CO_RPDO_init_def cob mem ic rep(2) R2_def Let_def split: if_splits)
  moreover have "pdo_em (snd (snd (rpdo_init_type R2 e14 preDefined CAN_ID))) = em2"
    by (simp add: rpdo_init_type_def R2_def case_prod_unfold Let_def pdo_set_mem_def OD_get_mem')
  ultimately show ?thesis using rpdo_init_type_inv [of R2 e14 preDefined CAN_ID] rep(3) by (metis snd_conv)
qed

lemma tpdo_more_fields: "CO_PDO_common.more T' = CO_PDO_common.more T \<Longrightarrow> tpdo_CANtxBuff T' = tpdo_CANtxBuff T"
  by (cases T; cases T') simp

lemma tpdo_init_times_inv: "tpdo_inv T \<Longrightarrow> tpdo_inv (tpdo_init_times T e18 pre CAN_ID)"
  by (simp add: tpdo_init_times_def tpdo_inv_def case_prod_unfold Let_def) (simp add: pdo_set_mem_def)

lemma CO_TPDO_init_inv:
  assumes "em_inv em" "od_bounded od" "map_complete e1A (em_mem em)" "length (tx_data tx) = 8"
    and "CO_TPDO_init txOk tx em od T0 preDefined e18 e1A = Some (CO_ERROR_NO, info, T)"
  shows "tpdo_inv T \<and> mapping_report em (pdo_em T)"
proof -
  let ?Z = "tpdo_zero tx em od"
  have z: "\<not> pdo_valid ?Z" "mappedObjectsCount ?Z = 0" "pdo_dataLength ?Z = 0" "pdo_em ?Z = em"
    by (simp_all add: tpdo_zero_def pdo_common_zero_def CO_PDO_common.extend_def)
  obtain ret info1 err T1 where m: "PDO_initMapping ?Z e1A False = (ret, info1, err, T1)" by (metis prod_cases4)
  have "ret = CO_ERROR_NO" using assms(5) m by (auto simp: CO_TPDO_init_def split: if_splits)
  then have T1: "pdo_inv T1 \<and> \<not> pdo_valid T1 \<and> CO_PDO_common.more T1 = CO_PDO_common.more ?Z \<and> pdo_em T1 = em"
    using PDO_initMapping_inv [of ?Z e1A False info1 err T1] m assms(3) z pdo_frame_zero(2) [OF assms(1,2)] by simp
  then have inv1: "tpdo_inv T1"
    using tpdo_more_fields [of T1 ?Z] assms(4) T1
    by (simp add: tpdo_inv_def) (simp add: tpdo_zero_def pdo_common_zero_def CO_PDO_common.extend_def CO_TPDO.fields_def)
  obtain r2 ty m2 where ty: "OD_get_u8 e18 2 True (em_mem (pdo_em T1)) = (r2, ty, m2)" by (metis prod_cases3)
  obtain odRet COB_ID m where cob: "OD_get_u32 e18 1 True (em_mem (pdo_em T1)) = (odRet, COB_ID, m)" by (metis prod_cases3)
  have mem: "m2 = em_mem (pdo_em T1)" "m = em_mem (pdo_em T1)" using OD_get_mem(1) [OF ty] OD_get_mem(3) [OF cob] .
  define ty' where "ty' = (if ty < 0xFE \<and> ty > 0xF0 then 0xFE else ty)"
  define T2 where "T2 = T1\<lparr>transmissionType := ty', sendRequest := True\<rparr>"
  have T2: "tpdo_inv T2" "pdo_inv T2" "pdo_em T2 = pdo_em T1" using inv1 by (simp_all add: T2_def tpdo_inv_def)
  have set2: "pdo_set_mem (em_mem (pdo_em T1)) T2 = T2" by (metis T2(3) pdo_set_mem_same)
  obtain va CAN_ID err2 where ic: "pdo_init_cob T2 err COB_ID preDefined = (va, CAN_ID, err2)" by (metis prod_cases3)
  obtain em2 where rep: "em_inv em2" "pdo_report_mapping T2 err2 COB_ID = Some (T2\<lparr>pdo_em := em2\<rparr>)" "mapping_report em em2"
    using pdo_report_mapping_ok [OF T2(2)] T2(3) T1 by metis
  define T3 where "T3 = (tpdo_txInit (T2\<lparr>pdo_em := em2\<rparr>) CAN_ID)\<lparr>pdo_valid := va\<rparr>"
  have "tpdo_inv T3"
    using T2(1) rep(1) pdo_init_cob_valid [OF ic] by (simp add: T3_def tpdo_inv_def tpdo_txInit_def CO_CANtxBufferInit_def)
  moreover have "T = tpdo_init_times T3 e18 preDefined CAN_ID"
  proof -
    have ne: "\<not> (e18 = None \<or> e1A = None)" 
    proof
      assume "e18 = None \<or> e1A = None"
      then show False using assms(5) by (simp add: CO_TPDO_init_def)
    qed
    have r2: "r2 = ODR_OK"
      by (rule ccontr) (use assms(5) m \<open>ret = _\<close> ne in \<open>simp add: CO_TPDO_init_def ty Let_def\<close>)
    note call = assms(5) m \<open>ret = _\<close> ne r2
    note eqs = CO_TPDO_init_def ty cob mem T2(3) set2 Let_def ty'_def [symmetric] T2_def [symmetric]
    have r3: "odRet = ODR_OK" by (rule ccontr) (use call in \<open>simp add: eqs\<close>)
    have "txOk" by (rule ccontr) (use call r3 in \<open>simp add: eqs ic rep(2)\<close>)
    then show ?thesis using call r3 by (simp add: eqs ic rep(2) T3_def)
  qed
  moreover have "pdo_em (tpdo_init_times T3 e18 preDefined CAN_ID) = em2"
    by (simp add: tpdo_init_times_def T3_def case_prod_unfold Let_def pdo_set_mem_def OD_get_mem' tpdo_txInit_def)
  ultimately show ?thesis using tpdo_init_times_inv rep(3) by auto
qed

section \<open>All runs\<close>

text \<open>
  The events of an RPDO: a received message of the CAN identifier, a call by the application, writes of
  its communication and mapping parameters, and what the rest of the node does to the emergency object, to the
  variables and to the dictionary. The last must keep the emergency object and the read functions well-formed
  and must not report the software error itself.
\<close>

datatype rpdo_event =
    R_receive "sync option" u8 "u8 list"
  | R_process "sync option" u32 "u32 option" bool bool
  | R_comm CO_ReturnError OD_stream "u8 list"
  | R_map OD_stream "u8 list"
  | R_env em OD_t

definition pdo_env :: "em \<Rightarrow> OD_t \<Rightarrow> 'a CO_PDO_common_scheme \<Rightarrow> 'a CO_PDO_common_scheme" where
  "pdo_env em od P =
     (if em_inv em \<and> od_bounded od \<and>
         (CO_isError em CO_EM_GENERIC_SOFTWARE_ERROR \<longrightarrow> CO_isError (pdo_em P) CO_EM_GENERIC_SOFTWARE_ERROR)
      then P\<lparr>pdo_em := em, pdo_OD := od\<rparr> else P)"

definition written :: "'r \<times> 's \<times> 'k \<times> 'p \<Rightarrow> 'p" where
  "written x = snd (snd (snd x))"

fun rpdo_step :: "rpdo_event \<Rightarrow> CO_RPDO \<Rightarrow> CO_RPDO option" where
  "rpdo_step (R_receive sy DLC d) R = (if length d = 8 then CO_PDO_receive R sy DLC d else Some R)"
| "rpdo_step (R_process sy td tn oper sw) R = map_option fst (CO_RPDO_process R sy td tn oper sw)"
| "rpdo_step (R_comm rxRet st b) R =
     (if comm_size (stream_subIndex st) b then map_option written (OD_write_14xx rxRet R st b) else Some R)"
| "rpdo_step (R_map st b) R =
     (if map_size (stream_subIndex st) b then map_option written (OD_write_PDO_mapping R st b) else Some R)"
| "rpdo_step (R_env em od) R = Some (pdo_env em od R)"

datatype tpdo_event =
    T_request
  | T_process "sync option" u32 "u32 option" bool bool
  | T_comm bool OD_stream "u8 list"
  | T_map OD_stream "u8 list"
  | T_env em OD_t

fun tpdo_step :: "tpdo_event \<Rightarrow> CO_TPDO \<Rightarrow> CO_TPDO option" where
  "tpdo_step T_request T = Some (CO_TPDOsendRequest T)"
| "tpdo_step (T_process sy td tn oper sw) T = map_option fst (CO_TPDO_process T sy td tn oper sw)"
| "tpdo_step (T_comm txOk st b) T =
     (if comm_size (stream_subIndex st) b then map_option written (OD_write_18xx txOk T st b) else Some T)"
| "tpdo_step (T_map st b) T =
     (if map_size (stream_subIndex st) b then map_option written (OD_write_PDO_mapping T st b) else Some T)"
| "tpdo_step (T_env em od) T = Some (pdo_env em od T)"

lemma pdo_env_inv: "pdo_inv P \<Longrightarrow> pdo_inv (pdo_env em od P) \<and> no_new_bug P (pdo_env em od P)"
  by (auto simp: pdo_env_def pdo_inv_def pdo_frame_def pdo_enabled_def no_new_bug_def)

lemma pdo_env_more: "CO_PDO_common.more (pdo_env em od P) = CO_PDO_common.more P"
  by (simp add: pdo_env_def)

lemma no_new_bug_bits: "errorStatusBits (pdo_em P') = errorStatusBits (pdo_em P) \<Longrightarrow> no_new_bug P P'"
  by (simp add: no_new_bug_def CO_isError_def)

lemma write_original_bits: "errorStatusBits (pdo_em (written (pdo_write_original P st b))) = errorStatusBits (pdo_em P)"
  by (simp add: written_def pdo_write_original_def case_prod_unfold Let_def pdo_set_mem_def)

lemma PDOconfigMap_em: "PDOconfigMap P mp i isR = (r, P') \<Longrightarrow> pdo_em P' = pdo_em P"
  by (auto simp: PDOconfigMap_def Let_def pdo_set_io_def pdo_flag_config_def split: if_splits prod.splits)

lemma OD_write_mapping_bits: "OD_write_PDO_mapping P st b = Some x \<Longrightarrow> no_new_bug P (written x)"
  by (rule no_new_bug_bits)
     (auto simp: OD_write_PDO_mapping_def written_def write_original_bits [unfolded written_def] arr_get_def get_u32_def
        split: if_splits option.splits prod.splits bind_splits dest: PDOconfigMap_em)

lemma OD_write_14xx_bits: "OD_write_14xx rxRet R st b = Some x \<Longrightarrow> no_new_bug R (written x)"
  by (rule no_new_bug_bits)
     (auto simp: OD_write_14xx_def written_def write_original_bits [unfolded written_def] rpdo_write_cob_def rpdo_write_type_def Let_def
        split: if_splits sum.splits bind_splits)

lemma OD_write_18xx_bits: "OD_write_18xx txOk T st b = Some x \<Longrightarrow> no_new_bug T (written x)"
  by (rule no_new_bug_bits)
     (auto simp: OD_write_18xx_def written_def write_original_bits [unfolded written_def] tpdo_write_sub_def tpdo_write_cob_def
        tpdo_write_type_def tpdo_txInit_def Let_def
        split: if_splits sum.splits bind_splits)

lemma OD_write_mapping_valid:
  "OD_write_PDO_mapping P st b = Some x \<Longrightarrow> pdo_valid (written x) \<Longrightarrow> pdo_valid P \<and> written x = P"
proof (cases "pdo_valid P")
  case True
  then show "OD_write_PDO_mapping P st b = Some x \<Longrightarrow> pdo_valid (written x) \<Longrightarrow> ?thesis"
    by (auto simp: OD_write_PDO_mapping_def written_def split: if_splits)
next
  case False
  have "\<not> pdo_valid P'" if "PDOconfigMap P v i q = (r, P')" for v i q r P'
    using that False by (auto simp: PDOconfigMap_def Let_def pdo_set_io_def pdo_flag_config_def split: if_splits prod.splits)
  then show "OD_write_PDO_mapping P st b = Some x \<Longrightarrow> pdo_valid (written x) \<Longrightarrow> ?thesis"
    using False
    by (auto simp: OD_write_PDO_mapping_def written_def pdo_write_original_valid split: if_splits option.splits prod.splits bind_splits)
qed

lemma rpdo_step_ok:
  assumes "rpdo_inv R"
  shows "wp (rpdo_step e R) (\<lambda>R'. rpdo_inv R' \<and> no_new_bug R R')"
proof (cases e)
  case (R_receive sy DLC d)
  then show ?thesis using CO_PDO_receive_inv [OF assms] assms by (simp add: no_new_bug_refl)
next
  case (R_process sy td tn oper sw)
  then show ?thesis using CO_RPDO_process_inv [OF assms] by simp
next
  case (R_comm rxRet st b)
  then show ?thesis
    using OD_write_14xx_inv [OF assms, of st b rxRet] OD_write_14xx_bits [of rxRet R st b] assms
    by (auto simp: wp_ex written_def no_new_bug_refl)
next
  case (R_map st b)
  have "pdo_inv R" using assms by (simp add: rpdo_inv_def)
  then show ?thesis
    using R_map OD_write_PDO_mapping_inv [of R st b] OD_write_mapping_bits [of R st b] assms rpdo_more_inv [OF assms]
    by (auto simp: wp_ex written_def no_new_bug_refl)
next
  case (R_env em od)
  then show ?thesis
    using pdo_env_inv [of R em od] pdo_env_more [of em od R] rpdo_more_inv [OF assms] assms by (simp add: rpdo_inv_def)
qed

lemma tpdo_step_ok:
  assumes "tpdo_inv T"
  shows "wp (tpdo_step e T) (\<lambda>T'. tpdo_inv T' \<and> no_new_bug T T')"
proof (cases e)
  case T_request
  then show ?thesis using assms by (simp add: CO_TPDOsendRequest_def no_new_bug_def)
next
  case (T_process sy td tn oper sw)
  then show ?thesis using CO_TPDO_process_inv [OF assms] by simp
next
  case (T_comm txOk st b)
  then show ?thesis
    using OD_write_18xx_inv [OF assms, of st b txOk] OD_write_18xx_bits [of txOk T st b] assms
    by (auto simp: wp_ex written_def no_new_bug_refl)
next
  case (T_map st b)
  have "pdo_inv T" using assms by (simp add: tpdo_inv_def)
  then show ?thesis
    using T_map OD_write_PDO_mapping_inv [of T st b] OD_write_mapping_bits [of T st b] OD_write_mapping_valid [of T st b]
      assms tpdo_more_inv [OF assms]
    by (fastforce simp: wp_ex written_def no_new_bug_refl)
next
  case (T_env em od)
  then show ?thesis
    using pdo_env_inv [of T em od] pdo_env_more [of em od T] tpdo_more_inv [OF assms] assms
    by (simp add: tpdo_inv_def) (simp add: pdo_env_def)
qed

interpretation rpdosys: observed_system rpdo_inv rpdo_step no_new_bug
proof
  show "wp (rpdo_step e s) rpdo_inv" if "rpdo_inv s" for s e
    using wp_mono [OF rpdo_step_ok [OF that]] by blast
  show "no_new_bug s s'" if "rpdo_inv s" "rpdo_step e s = Some s'" for s s' e
    using rpdo_step_ok [OF that(1), of e] that(2) by simp
qed (auto intro: no_new_bug_refl no_new_bug_trans)

interpretation tpdosys: observed_system tpdo_inv tpdo_step no_new_bug
proof
  show "wp (tpdo_step e s) tpdo_inv" if "tpdo_inv s" for s e
    using wp_mono [OF tpdo_step_ok [OF that]] by blast
  show "no_new_bug s s'" if "tpdo_inv s" "tpdo_step e s = Some s'" for s s' e
    using tpdo_step_ok [OF that(1), of e] that(2) by simp
qed (auto intro: no_new_bug_refl no_new_bug_trans)

text \<open>
  C37: Received process data objects stay within their buffers. After a successful initialisation from a
  complete mapping parameter, every sequence of received messages, calls, writes of the communication and
  mapping parameters and changes by the rest of the node is carried out without an access out of range
  or through a null pointer; the mapped lengths always add up to the length of the message, at most eight,
  and the software error for inconsistent lengths is never reported.
\<close>

theorem rpdo_memory_safe:
  assumes "em_inv em" "od_bounded od" "map_complete e16 (em_mem em)"
    and "CO_RPDO_init rxRet em od R0 preDefined e14 e16 = Some (CO_ERROR_NO, info, R)"
  shows "\<exists>R'. run rpdo_step es R = Some R' \<and> pdo_dataLength R' \<le> 8 \<and>
    mapped_length (take (unat (mappedObjectsCount R')) (pdo_OD_IO R')) = unat (pdo_dataLength R') \<and>
    (CO_isError (pdo_em R') CO_EM_GENERIC_SOFTWARE_ERROR \<longrightarrow> CO_isError (pdo_em R) CO_EM_GENERIC_SOFTWARE_ERROR)"
proof -
  have R: "rpdo_inv R" by (rule CO_RPDO_init_inv [OF assms, THEN conjunct1])
  obtain R' where R': "run rpdo_step es R = Some R'" "rpdo_inv R'" using rpdosys.run_defined [OF R] by blast
  have "no_new_bug R R'" using rpdosys.run_R [OF R R'(1)] .
  then show ?thesis using R' by (auto simp: rpdo_inv_def pdo_inv_def pdo_enabled_def no_new_bug_def)
qed

text \<open>
  C38: Transmitted process data objects stay within their buffers. After a successful initialisation from a
  complete mapping parameter, every sequence of requests, calls, writes of the communication and mapping
  parameters and changes by the rest of the node is carried out without an access out of range or
  through a null pointer; the mapped lengths always add up to the length of the message, at most eight, and
  the software error for inconsistent lengths is never reported.
\<close>

theorem tpdo_memory_safe:
  assumes "em_inv em" "od_bounded od" "map_complete e1A (em_mem em)" "length (tx_data tx) = 8"
    and "CO_TPDO_init txOk tx em od T0 preDefined e18 e1A = Some (CO_ERROR_NO, info, T)"
  shows "\<exists>T'. run tpdo_step es T = Some T' \<and> pdo_dataLength T' \<le> 8 \<and>
    mapped_length (take (unat (mappedObjectsCount T')) (pdo_OD_IO T')) = unat (pdo_dataLength T') \<and>
    (CO_isError (pdo_em T') CO_EM_GENERIC_SOFTWARE_ERROR \<longrightarrow> CO_isError (pdo_em T) CO_EM_GENERIC_SOFTWARE_ERROR)"
proof -
  have T: "tpdo_inv T" by (rule CO_TPDO_init_inv [OF assms, THEN conjunct1])
  obtain T' where T': "run tpdo_step es T = Some T'" "tpdo_inv T'" using tpdosys.run_defined [OF T] by blast
  have "no_new_bug T T'" using tpdosys.run_R [OF T T'(1)] .
  then show ?thesis using T' by (auto simp: tpdo_inv_def pdo_inv_def pdo_enabled_def no_new_bug_def)
qed

section \<open>An example\<close>

text \<open>
  Two variables, of two bytes and one byte, mapped in this order; the parameters of an RPDO and of a TPDO lie in
  memory from address 0 on, the number of enabled elements is \<open>n\<close>.
\<close>

definition example_rec :: "addr \<Rightarrow> nat \<Rightarrow> nat \<Rightarrow> OD_obj_record" where
  "example_rec a k len = \<lparr>rec_dataOrig = Some a, rec_subIndex = word_of_nat k, rec_attribute = 0x03, rec_dataLength = word_of_nat len\<rparr>"

definition example_entry :: "u16 \<Rightarrow> OD_obj_record list \<Rightarrow> OD_entry option" where
  "example_entry i rs = Some \<lparr>entry_index = i, subEntriesCount = word_of_nat (length rs), odObject = Some (ODT_REC rs), extension = None\<rparr>"

definition example_map :: "u16 \<Rightarrow> OD_entry option" where
  "example_map i = example_entry i (example_rec 0 0 1 # map (\<lambda>k. example_rec (4 * k) k 4) [1..<9])"

definition example_comm :: "u16 \<Rightarrow> OD_entry option" where
  "example_comm i = example_entry i [example_rec 40 0 1, example_rec 41 1 4, example_rec 45 2 1, example_rec 46 3 2, example_rec 48 5 2]"

definition example_pdo_var :: "u16 \<Rightarrow> addr \<Rightarrow> u32 \<Rightarrow> OD_entry" where
  "example_pdo_var i a len = \<lparr>entry_index = i, subEntriesCount = 1,
     odObject = Some (ODT_VAR \<lparr>var_dataOrig = Some a, var_attribute = 0x0F, var_dataLength = len\<rparr>), extension = None\<rparr>"

definition example_pdo_od :: OD_t where
  "example_pdo_od = [example_pdo_var 0x2000 50 2, example_pdo_var 0x2001 52 1]"

definition example_pdo_mem :: "u8 \<Rightarrow> u8 \<Rightarrow> mem" where
  "example_pdo_mem n ty = mem_write (mem_write (\<lambda>_. 0) 0 [n, 0, 0, 0, 0x10, 0, 0, 0x20, 0x08, 0, 1, 0x20])
     40 [5, 0x05, 0x02, 0, 0, ty, 10, 0, 100, 0, 0xA1, 0xA2, 0xA3]"

definition example_pdo_em :: "u8 \<Rightarrow> u8 \<Rightarrow> em" where
  "example_pdo_em n ty =
     \<lparr>errorStatusBits = replicate 10 0, errorRegister = Some 60, CANerrorStatusOld = 0, CANerrorStatus = 0, em_fifo = [], fifoSize = 0,
      fifoWrPtr = 0, fifoPpPtr = 0, fifoOverflow = 0, fifoCount = 0, producerEnabled = False, em_nodeId = 5,
      em_CANtxBuff = example_tx\<lparr>tx_DLC := 8\<rparr>, producerCanId = 0, inhibitEmTime_us = 0, inhibitEmTimer = 0, OD_1014_extended = False,
      OD_1015_extended = False, OD_1003_extended = False, OD_statusBits_extended = False, pFunctSignalRx = False,
      em_mem = example_pdo_mem n ty, em_sent = [], em_signalled = []\<rparr>"

definition example_rpdo_init :: "u8 \<Rightarrow> u8 \<Rightarrow> (CO_ReturnError \<times> u32 option \<times> CO_RPDO) option" where
  "example_rpdo_init n ty = CO_RPDO_init CO_ERROR_NO (example_pdo_em n ty) example_pdo_od
     (rpdo_zero (example_pdo_em n ty) example_pdo_od) 0x205 (example_comm 0x1400) (example_map 0x1600)"

definition example_tpdo_init :: "u8 \<Rightarrow> u8 \<Rightarrow> (CO_ReturnError \<times> u32 option \<times> CO_TPDO) option" where
  "example_tpdo_init n ty = CO_TPDO_init True example_tx (example_pdo_em n ty) example_pdo_od
     (tpdo_zero example_tx (example_pdo_em n ty) example_pdo_od) 0x185 (example_comm 0x1800) (example_map 0x1A00)"

definition example_rpdo :: "u8 \<Rightarrow> u8 \<Rightarrow> CO_RPDO" where
  "example_rpdo n ty = snd (snd (the (example_rpdo_init n ty)))"

definition example_tpdo :: "u8 \<Rightarrow> u8 \<Rightarrow> CO_TPDO" where
  "example_tpdo n ty = snd (snd (the (example_tpdo_init n ty)))"

lemma example_pdo_world: "em_inv (example_pdo_em n ty)" "od_bounded example_pdo_od" "length (tx_data example_tx) = 8"
  by (simp_all add: example_pdo_em_def em_inv_def STATUS_BYTES_def example_pdo_od_def example_pdo_var_def od_bounded_def example_tx_def)

lemma example_map_complete:
  "map_complete (example_map 0x1600) (em_mem (example_pdo_em 2 0xFE))" "map_complete (example_map 0x1A00) (em_mem (example_pdo_em 2 0xFE))"
  "map_complete (example_map 0x1A00) (em_mem (example_pdo_em 2 3))"
  by code_simp+

lemma init_result: "map_option (\<lambda>(r, i, _). (r, i)) x = Some (r, i) \<Longrightarrow> x = Some (r, i, snd (snd (the x)))"
  by (cases x) auto

lemma example_pdo_inits:
  "example_rpdo_init 2 0xFE = Some (CO_ERROR_NO, None, example_rpdo 2 0xFE)"
  "example_tpdo_init 2 0xFE = Some (CO_ERROR_NO, None, example_tpdo 2 0xFE)"
  "example_tpdo_init 2 3 = Some (CO_ERROR_NO, None, example_tpdo 2 3)"
  unfolding example_rpdo_def example_tpdo_def by (rule init_result, code_simp)+

theorem rpdo_memory_safe_witness:
  "\<exists>R'. run rpdo_step [R_receive None 3 [1, 2, 3, 0, 0, 0, 0, 0], R_process None 1000 (Some 50) True False,
       R_receive None 2 [9, 9, 0, 0, 0, 0, 0, 0], R_process None 1000 None True False] (example_rpdo 2 0xFE) = Some R' \<and>
     pdo_dataLength R' \<le> 8"
  using rpdo_memory_safe [OF example_pdo_world(1,2) example_map_complete(1) example_pdo_inits(1) [unfolded example_rpdo_init_def]]
  by blast

theorem tpdo_memory_safe_witness:
  "\<exists>T'. run tpdo_step [T_process None 1000 (Some 50) True False, T_request, T_process None 1000 None True False] (example_tpdo 2 0xFE) = Some T' \<and>
     pdo_dataLength T' \<le> 8"
  using tpdo_memory_safe [OF example_pdo_world(1,2) example_map_complete(2) example_pdo_world(3)
      example_pdo_inits(2) [unfolded example_tpdo_init_def]]
  by blast

text \<open>
  The hypothesis on the mapping parameter is needed: the initialisation does not compare the number of
  enabled elements with the size of the table. With nine of them it succeeds, and the first message that is
  processed makes the loop read beyond the table.
\<close>

lemma rpdo_count_unchecked:
  "\<exists>R. example_rpdo_init 9 0xFE = Some (CO_ERROR_NO, None, R) \<and>
     do { R \<leftarrow> CO_PDO_receive R None 3 (replicate 8 0); CO_RPDO_process R None 1000 None True False } = None"
proof -
  have 1: "example_rpdo_init 9 0xFE = Some (CO_ERROR_NO, None, example_rpdo 9 0xFE)"
    unfolding example_rpdo_def by (rule init_result, code_simp)
  have "Option.is_none (do {
      R \<leftarrow> CO_PDO_receive (example_rpdo 9 0xFE) None 3 (replicate 8 0); CO_RPDO_process R None 1000 None True False })"
    by code_simp
  then show ?thesis using 1 by (auto simp: Option.is_none_def)
qed

end
