(* ===== verification/PDO_Transfer.thy ===== *)
theory PDO_Transfer
  imports PDO_Safety
begin

text \<open>
  When transmitted PDOs are sent, and that what one node sends arrives in the variables of another.
\<close>

section \<open>Event-driven transmission\<close>

definition tpdo_ev :: "CO_TPDO \<Rightarrow> bool" where
  "tpdo_ev T \<longleftrightarrow> tpdo_inv T \<and> pdo_valid T \<and> transmissionType T \<ge> 0xFE"

text \<open>A call of the application in the operational state, with the elapsed time.\<close>

definition tpdo_call :: "u32 \<times> u32 option \<Rightarrow> CO_TPDO \<Rightarrow> CO_TPDO option" where
  "tpdo_call c T = map_option fst (CO_TPDO_process T None (fst c) (snd c) True False)"

lemma unat_timer_left: "unat (timer_left t td) = unat t - unat td"
  by (auto simp: timer_left_def word_less_nat_alt unat_sub_if')

lemma tpdo_call_ev:
  assumes "tpdo_ev T"
  shows "\<exists>q T'. tpdo_call c T = Some T' \<and> tpdo_ev T' \<and> eventTime_us T' = eventTime_us T \<and> inhibitTime_us T' = inhibitTime_us T \<and>
    (sendRequest T \<longrightarrow> q) \<and> (eventTime_us T \<noteq> 0 \<and> unat (eventTimer T) \<le> unat (fst c) \<longrightarrow> q) \<and>
    (if q \<and> unat (inhibitTimer T) \<le> unat (fst c)
     then inhibitTimer T' = inhibitTime_us T \<and> length (tpdo_sent T') = Suc (length (tpdo_sent T))
     else tpdo_sent T' = tpdo_sent T \<and> unat (inhibitTimer T') = unat (inhibitTimer T) - unat (fst c) \<and>
          (eventTime_us T \<noteq> 0 \<longrightarrow> unat (eventTimer T') = unat (eventTimer T) - unat (fst c)) \<and> sendRequest T' = q)"
proof -
  have T: "tpdo_inv T" "pdo_valid T" "transmissionType T \<ge> 0xFE" using assms by (simp_all add: tpdo_ev_def)
  have et: "eventTime_us T \<noteq> 0 \<Longrightarrow> unat (event_time T (fst c)) = unat (eventTimer T) - unat (fst c)"
    using T(3) by (simp add: event_time_def tpdo_eventDriven_def unat_timer_left)
  have z: "timer_left t td = 0 \<longleftrightarrow> unat t \<le> unat td" for t td
    by (metis unat_timer_left diff_is_0_eq unat_eq_zero)
  obtain q T0 T' tn' where P: "T0 = T\<lparr>eventTimer := event_time T (fst c), sendRequest := q, inhibitTimer := timer_left (inhibitTimer T) (fst c)\<rparr>"
      "CO_TPDO_process T None (fst c) (snd c) True False = Some (T', tn')"
      "sendRequest T \<longrightarrow> q" "eventTime_us T \<noteq> 0 \<and> event_time T (fst c) = 0 \<longrightarrow> q"
      "if q \<and> timer_left (inhibitTimer T) (fst c) = 0 then tpdo_after_send T0 T' else T' = T0"
    using tpdo_process_event [OF T, of "fst c" None "snd c" False] by metis
  have 1: "tpdo_call c T = Some T'" by (simp add: tpdo_call_def P(2))
  have 2: "eventTime_us T \<noteq> 0 \<and> unat (eventTimer T) \<le> unat (fst c) \<longrightarrow> q"
    using P(4) et by (metis diff_is_0_eq unat_eq_zero)
  show ?thesis
  proof (cases "q \<and> unat (inhibitTimer T) \<le> unat (fst c)")
    case True
    then have "tpdo_after_send T0 T'" using P(5) z by simp
    then show ?thesis
      using True P(1,3) T 1 2 by (intro exI [of _ q] exI [of _ T']) (simp add: tpdo_after_send_def tpdo_ev_def)
  next
    case False
    then have "T' = T0" using P(5) z by (metis (full_types))
    then show ?thesis
      using False P(1,3) T 1 2 et by (intro exI [of _ q] exI [of _ T']) (auto simp: tpdo_ev_def unat_timer_left)
  qed
qed

definition call_time :: "(u32 \<times> u32 option) list \<Rightarrow> nat" where
  "call_time cs = sum_list (map (\<lambda>c. unat (fst c)) cs)"

lemma call_time_simps [simp]: "call_time [] = 0" "call_time (c # cs) = unat (fst c) + call_time cs"
  by (simp_all add: call_time_def)

lemma tpdo_quiet:
  "tpdo_ev T \<Longrightarrow> call_time cs < unat (inhibitTimer T) \<Longrightarrow>
   \<exists>T'. run tpdo_call cs T = Some T' \<and> tpdo_sent T' = tpdo_sent T"
proof (induction cs arbitrary: T)
  case (Cons c cs)
  obtain T1 where T1: "tpdo_call c T = Some T1" "tpdo_ev T1" "tpdo_sent T1 = tpdo_sent T"
      "unat (inhibitTimer T1) = unat (inhibitTimer T) - unat (fst c)"
    using tpdo_call_ev [OF Cons.prems(1), of c] Cons.prems(2) by auto
  then have "call_time cs < unat (inhibitTimer T1)" using Cons.prems(2) by simp
  then show ?case using Cons.IH [OF T1(2)] T1(1,3) by auto
qed simp

lemma tpdo_sent_grows: "tpdo_ev T \<Longrightarrow> \<exists>T'. run tpdo_call cs T = Some T' \<and> length (tpdo_sent T) \<le> length (tpdo_sent T')"
proof (induction cs arbitrary: T)
  case (Cons c cs)
  obtain T1 where T1: "tpdo_call c T = Some T1" "tpdo_ev T1" "length (tpdo_sent T) \<le> length (tpdo_sent T1)"
    using tpdo_call_ev [OF Cons.prems, of c] by (auto split: if_splits)
  then show ?case using Cons.IH [OF T1(2)] by (auto intro: le_trans)
qed simp

lemma tpdo_due:
  "tpdo_ev T \<Longrightarrow> eventTime_us T \<noteq> 0 \<or> sendRequest T \<Longrightarrow> cs \<noteq> [] \<Longrightarrow>
   (\<not> sendRequest T \<longrightarrow> unat (eventTimer T) \<le> call_time cs) \<Longrightarrow> unat (inhibitTimer T) \<le> call_time cs \<Longrightarrow>
   \<exists>T'. run tpdo_call cs T = Some T' \<and> length (tpdo_sent T) < length (tpdo_sent T')"
proof (induction cs arbitrary: T)
  case (Cons c cs)
  obtain q T1 where T1: "tpdo_call c T = Some T1" "tpdo_ev T1" "eventTime_us T1 = eventTime_us T"
      "sendRequest T \<longrightarrow> q" "eventTime_us T \<noteq> 0 \<and> unat (eventTimer T) \<le> unat (fst c) \<longrightarrow> q"
      "if q \<and> unat (inhibitTimer T) \<le> unat (fst c) then length (tpdo_sent T1) = Suc (length (tpdo_sent T))
       else tpdo_sent T1 = tpdo_sent T \<and> unat (inhibitTimer T1) = unat (inhibitTimer T) - unat (fst c) \<and>
         (eventTime_us T \<noteq> 0 \<longrightarrow> unat (eventTimer T1) = unat (eventTimer T) - unat (fst c)) \<and> sendRequest T1 = q"
    using tpdo_call_ev [OF Cons.prems(1), of c] by (smt (verit))
  show ?case
  proof (cases "q \<and> unat (inhibitTimer T) \<le> unat (fst c)")
    case True
    then show ?thesis using T1(1,6) tpdo_sent_grows [OF T1(2), of cs] by (auto simp: less_eq_Suc_le)
  next
    case False
    then have "cs \<noteq> []" using T1(4,5) Cons.prems(2,4,5) by auto
    have e: "tpdo_sent T1 = tpdo_sent T" "unat (inhibitTimer T1) = unat (inhibitTimer T) - unat (fst c)"
        "eventTime_us T \<noteq> 0 \<longrightarrow> unat (eventTimer T1) = unat (eventTimer T) - unat (fst c)" "sendRequest T1 = q"
      using T1(6) False by presburger+
    have "eventTime_us T1 \<noteq> 0 \<or> sendRequest T1" using Cons.prems(2) T1(3,4) e(4) by auto
    moreover have "\<not> sendRequest T1 \<longrightarrow> unat (eventTimer T1) \<le> call_time cs"
      using Cons.prems(2,4) T1(4) e(3,4) by auto
    moreover have "unat (inhibitTimer T1) \<le> call_time cs" using Cons.prems(5) e(2) by simp
    ultimately show ?thesis
      using Cons.IH [OF T1(2) _ \<open>cs \<noteq> []\<close>] T1(1) e(1) by auto
  qed
qed simp


text \<open>
  C40: The event timer causes messages. An event-driven TPDO with an event time that is operational for the
  time left on its event timer and its inhibit timer has sent a message.
\<close>

theorem tpdo_event_time:
  assumes "tpdo_ev T" "eventTime_us T \<noteq> 0" "cs \<noteq> []"
    and "unat (eventTimer T) \<le> call_time cs" "unat (inhibitTimer T) \<le> call_time cs"
  shows "\<exists>T'. run tpdo_call cs T = Some T' \<and> length (tpdo_sent T) < length (tpdo_sent T')"
  using assms by (intro tpdo_due) auto

section \<open>Synchronous transmission\<close>

text \<open>
  A cyclic TPDO of type \<open>n\<close> without a start value. Its phase counts the SYNC messages since the last transmission;
  it starts in the middle of a cycle.
\<close>

definition tpdo_cyclic :: "nat \<Rightarrow> CO_TPDO \<Rightarrow> bool" where
  "tpdo_cyclic n T \<longleftrightarrow> tpdo_inv T \<and> pdo_valid T \<and> unat (transmissionType T) = n \<and> 1 \<le> n \<and> n \<le> 240 \<and> syncStartValue T = 0"

definition sync_phase :: "nat \<Rightarrow> nat \<Rightarrow> CO_TPDO \<Rightarrow> bool" where
  "sync_phase n p T \<longleftrightarrow> (if syncCounter T = 255 then p = n - (n div 2 + 1) else p < n \<and> unat (syncCounter T) = n - p)"

type_synonym sync_tick = "sync \<times> u32 \<times> u32 option \<times> bool"

fun tpdo_tick :: "sync_tick \<Rightarrow> CO_TPDO \<Rightarrow> CO_TPDO option" where
  "tpdo_tick (S, td, tn, syncWas) T = map_option fst (CO_TPDO_process T (Some S) td tn True syncWas)"

text \<open>What the first SYNC makes of the initial value of the counter.\<close>

definition sync_started :: "CO_TPDO \<Rightarrow> CO_TPDO" where
  "sync_started T = (if syncCounter T = 255 then T\<lparr>syncCounter := transmissionType T div 2 + 1\<rparr> else T)"

lemma sync_started_phase:
  assumes "tpdo_cyclic n T" "sync_phase n p T"
  shows "p < n \<and> unat (syncCounter (sync_started T)) = n - p"
proof (cases "syncCounter T = 255")
  case True
  have d: "unat (transmissionType T div 2) = n div 2" using assms(1) by (simp add: tpdo_cyclic_def unat_div)
  then have "unat (transmissionType T div 2 + 1) = n div 2 + 1"
    using assms(1) div_le_dividend [of n 2] by (subst unat_plus_small) (auto simp: tpdo_cyclic_def d)
  then show ?thesis using True assms by (auto simp: sync_started_def sync_phase_def tpdo_cyclic_def)
next
  case False
  then show ?thesis using assms by (simp add: sync_started_def sync_phase_def)
qed

lemma tpdo_sync_send_cyclic:
  assumes "tpdo_cyclic n T" "sync_phase n p T"
  shows "\<exists>T'. tpdo_sync_send T S = Some T' \<and> tpdo_cyclic n T' \<and> sync_phase n (if Suc p = n then 0 else Suc p) T' \<and>
    length (tpdo_sent T') = length (tpdo_sent T) + (if Suc p = n then 1 else 0)"
proof -
  define U where "U = sync_started T"
  have T: "tpdo_inv T" "unat (transmissionType T) = n" "1 \<le> n" "n \<le> 240" "syncStartValue T = 0" "pdo_valid T"
    using assms(1) by (simp_all add: tpdo_cyclic_def)
  have c: "p < n" "unat (syncCounter U) = n - p" using sync_started_phase [OF assms] by (simp_all add: U_def)
  have c': "unat (syncCounter U - 1) = n - p - 1" using c by (subst unat_minus_ge) (simp_all add: word_le_nat_alt)
  have nz: "transmissionType T \<noteq> 0" using T(2,3) by auto
  have U: "tpdo_inv U" "pdo_valid U" "transmissionType U = transmissionType T" "syncStartValue U = 0" "tpdo_sent U = tpdo_sent T"
    using T by (simp_all add: U_def sync_started_def)
  have ne: "syncCounter U \<noteq> 254" "syncCounter U - 1 \<noteq> 255" using c c' T(4) by auto
  have zero: "syncCounter U - 1 = 0 \<longleftrightarrow> Suc p = n" using c c' by (auto simp: word_unat_eq_iff)
  have eq: "tpdo_sync_send T S =
      (if Suc p = n then CO_TPDOsend (U\<lparr>syncCounter := transmissionType T\<rparr>) else Some (U\<lparr>syncCounter := syncCounter U - 1\<rparr>))"
    using nz ne zero T(5) U(3) by (auto simp: tpdo_sync_send_def Let_def U_def sync_started_def)
  have t: "transmissionType T \<noteq> 255" using T(2,4) by auto
  show ?thesis
  proof (cases "Suc p = n")
    case True
    then obtain T' where "tpdo_sync_send T S = Some T'" "tpdo_after_send (U\<lparr>syncCounter := transmissionType T\<rparr>) T'"
      using eq CO_TPDOsend_ok [of "U\<lparr>syncCounter := transmissionType T\<rparr>"] U(1) by (auto simp: wp_ex)
    then show ?thesis
      using True U T t by (intro exI [of _ T']) (simp add: tpdo_cyclic_def tpdo_after_send_def sync_phase_def)
  next
    case False
    then show ?thesis using eq U T c c' ne by (auto simp: tpdo_cyclic_def sync_phase_def)
  qed
qed

lemma tpdo_tick_cyclic:
  assumes "tpdo_cyclic n T" "sync_phase n p T"
  shows "\<exists>T'. tpdo_tick (S, td, tn, sw) T = Some T' \<and> tpdo_cyclic n T' \<and>
    sync_phase n (if sw then if Suc p = n then 0 else Suc p else p) T' \<and>
    length (tpdo_sent T') = length (tpdo_sent T) + (if sw \<and> Suc p = n then 1 else 0)"
proof -
  have T: "tpdo_inv T" "pdo_valid T" "\<not> transmissionType T \<ge> 0xFE" "\<not> tpdo_eventDriven T"
    using assms(1) by (auto simp: tpdo_cyclic_def word_le_nat_alt tpdo_eventDriven_def)
  have "tpdo_tick (S, td, tn, sw) T = (if sw then tpdo_sync_send T S else Some T)"
    using T by (simp add: CO_TPDO_process_def tpdo_triggers_def option.map_comp comp_def option.map_ident)
  then show ?thesis using tpdo_sync_send_cyclic [OF assms, of S] assms by simp
qed

definition syncs :: "sync_tick list \<Rightarrow> nat" where
  "syncs cs = length (filter (\<lambda>(S, td, tn, sw). sw) cs)"

lemma tpdo_ticks:
  "tpdo_cyclic n T \<Longrightarrow> sync_phase n p T \<Longrightarrow>
   \<exists>T'. run tpdo_tick cs T = Some T' \<and> length (tpdo_sent T') = length (tpdo_sent T) + (p + syncs cs) div n"
proof (induction cs arbitrary: T p)
  case Nil
  then have "p < n" using sync_started_phase by blast
  then show ?case by (simp add: syncs_def)
next
  case (Cons c cs)
  obtain S td tn sw where c: "c = (S, td, tn, sw)" by (metis prod_cases4)
  have p: "p < n" using sync_started_phase Cons.prems by blast
  obtain T1 where T1: "tpdo_tick c T = Some T1" "tpdo_cyclic n T1" "sync_phase n (if sw then if Suc p = n then 0 else Suc p else p) T1"
      "length (tpdo_sent T1) = length (tpdo_sent T) + (if sw \<and> Suc p = n then 1 else 0)"
    using tpdo_tick_cyclic [OF Cons.prems, of S td tn sw] by (auto simp: c)
  obtain T' where T': "run tpdo_tick cs T1 = Some T'"
      "length (tpdo_sent T') = length (tpdo_sent T1) + ((if sw then if Suc p = n then 0 else Suc p else p) + syncs cs) div n"
    using Cons.IH [OF T1(2,3)] by blast
  have "(p + syncs (c # cs)) div n = (if sw \<and> Suc p = n then 1 else 0) + ((if sw then if Suc p = n then 0 else Suc p else p) + syncs cs) div n"
  proof (cases "sw \<and> Suc p = n")
    case True
    then have "p + syncs (c # cs) = n + syncs cs" by (simp add: syncs_def c)
    then show ?thesis using True p div_add_self1 [of n "syncs cs"] by simp
  next
    case False
    then show ?thesis by (auto simp: syncs_def c)
  qed
  then show ?case using T1(1,4) T' by simp
qed

text \<open>
  A cyclic synchronous TPDO is sent after every \<open>n\<close>-th SYNC, the first time in the middle of the first cycle:
  after any sequence of calls, of which some follow a SYNC, it has been sent as often as cycles are complete.
\<close>

theorem tpdo_nth_sync:
  assumes "tpdo_cyclic n T" "syncCounter T = 255"
  shows "\<exists>T'. run tpdo_tick cs T = Some T' \<and>
    length (tpdo_sent T') = length (tpdo_sent T) + (n - (n div 2 + 1) + syncs cs) div n"
  using assms by (intro tpdo_ticks) (simp_all add: sync_phase_def)

section \<open>From one node to another\<close>

text \<open>
  Variables that are mapped as a whole and have the default access functions, and where they lie in memory.
\<close>

definition plain_io :: "PDO_io \<Rightarrow> bool" where
  "plain_io io \<longleftrightarrow> pio_read io = Some OD_readOriginal \<and> pio_write io = Some OD_writeOriginal \<and>
     dataOrig (pio_stream io) \<noteq> None \<and> dataLength (pio_stream io) = dataOffset (pio_stream io)"

definition io_place :: "PDO_io \<Rightarrow> addr \<times> nat" where
  "io_place io = (the (dataOrig (pio_stream io)), unat (dataOffset (pio_stream io)))"

definition pdo_plain :: "'a CO_PDO_common_scheme \<Rightarrow> bool" where
  "pdo_plain P \<longleftrightarrow> list_all plain_io (take (unat (mappedObjectsCount P)) (pdo_OD_IO P))"

definition layout :: "'a CO_PDO_common_scheme \<Rightarrow> (addr \<times> nat) list" where
  "layout P = map io_place (take (unat (mappedObjectsCount P)) (pdo_OD_IO P))"

definition var_values :: "mem \<Rightarrow> (addr \<times> nat) list \<Rightarrow> u8 list list" where
  "var_values m vs = map (\<lambda>(a, l). mem_read m a l) vs"

fun write_all :: "(addr \<times> nat) list \<Rightarrow> u8 list list \<Rightarrow> mem \<Rightarrow> mem" where
  "write_all ((a, l) # vs) (x # xs) m = write_all vs xs (mem_write m a x)"
| "write_all vs xs m = m"

fun disjoint_vars :: "(addr \<times> nat) list \<Rightarrow> bool" where
  "disjoint_vars [] = True"
| "disjoint_vars ((a, l) # vs) = (list_all (\<lambda>(b, k). a + l \<le> b \<or> b + k \<le> a) vs \<and> disjoint_vars vs)"

lemma write_all_other:
  "map length xs = map snd vs \<Longrightarrow> list_all (\<lambda>(b, k). a + l \<le> b \<or> b + k \<le> a) vs \<Longrightarrow>
   mem_read (write_all vs xs m) a l = mem_read m a l"
  by (induction vs xs m rule: write_all.induct) (auto simp: mem_read_write_disjoint)

lemma var_values_write_all:
  "map length xs = map snd vs \<Longrightarrow> disjoint_vars vs \<Longrightarrow> var_values (write_all vs xs m) vs = xs"
  by (induction vs xs m rule: write_all.induct) (auto simp: var_values_def write_all_other mem_read_write_same)

lemma plain_element:
  assumes "pdo_inv P" "pdo_plain P" "i < unat (mappedObjectsCount P)"
  shows "plain_io (pdo_OD_IO P ! i)" "drop i (layout P) = io_place (pdo_OD_IO P ! i) # drop (Suc i) (layout P)"
    "pdo_ODdataLength (pdo_OD_IO P ! i) = dataOffset (pio_stream (pdo_OD_IO P ! i))"
proof -
  note el = pdo_element [OF assms(1,3)]
  have c: "unat (mappedObjectsCount P) \<le> length (pdo_OD_IO P)"
    using assms(1) by (simp add: pdo_inv_def pdo_frame_def pdo_enabled_def word_le_nat_alt)
  show pl: "plain_io (pdo_OD_IO P ! i)" using assms(2,3) c by (auto simp: pdo_plain_def list_all_length)
  show "drop i (layout P) = io_place (pdo_OD_IO P ! i) # drop (Suc i) (layout P)"
    using assms(3) c by (simp add: layout_def Cons_nth_drop_Suc [symmetric])
  show "pdo_ODdataLength (pdo_OD_IO P ! i) = dataOffset (pio_stream (pdo_OD_IO P ! i))"
    using pl el(2) by (simp add: pdo_ODdataLength_def plain_io_def io_live_def word_le_nat_alt word_less_nat_alt)
qed

lemma read_plain_io:
  assumes "plain_io io"
  shows "OD_readOriginal ((pio_stream io)\<lparr>dataOffset := 0\<rparr>) (dataOffset (pio_stream io)) m =
    (ODR_OK, (pio_stream io)\<lparr>dataOffset := 0\<rparr>, mem_read m (fst (io_place io)) (snd (io_place io)), m)"
  using assms by (auto simp: plain_io_def OD_readOriginal_def io_place_def)

lemma write_plain_io:
  assumes "plain_io io" "length x = snd (io_place io)"
  shows "OD_writeOriginal ((pio_stream io)\<lparr>dataOffset := 0\<rparr>) x m =
    (ODR_OK, (pio_stream io)\<lparr>dataOffset := 0\<rparr>, dataOffset (pio_stream io), mem_write m (fst (io_place io)) x)"
  using assms by (auto simp: plain_io_def OD_writeOriginal_def io_place_def Let_def)

lemma io_restored: "(io :: PDO_io)\<lparr>pio_stream := (pio_stream io)\<lparr>dataOffset := dataOffset (pio_stream io)\<rparr>\<rparr> = io"
  by simp

text \<open>The bytes collected for a message are the values of the variables in the order of the mapping.\<close>

lemma pdo_set_io_same [simp]: "pdo_set_io i (pdo_OD_IO P ! i) P = P"
  by (simp add: pdo_set_io_def)

lemma layout_fields:
  "mappedObjectsCount P' = mappedObjectsCount P \<Longrightarrow> pdo_OD_IO P' = pdo_OD_IO P \<Longrightarrow> layout P' = layout P \<and> pdo_plain P' = pdo_plain P"
  by (simp add: layout_def pdo_plain_def)

lemma tpdo_collect_plain:
  assumes "pdo_inv T" "pdo_plain T" "i \<le> unat (mappedObjectsCount T)" "pos = mapped_length (take i (pdo_OD_IO T))"
    "length (tx_data (tpdo_CANtxBuff T)) = 8"
  shows "wp (tpdo_collect i pos (word_of_nat pos) T) (\<lambda>(v, T').
    take (unat (pdo_dataLength T)) (tx_data (tpdo_CANtxBuff T')) =
      take pos (tx_data (tpdo_CANtxBuff T)) @ concat (var_values (em_mem (pdo_em T)) (drop i (layout T))))"
  using assms
proof (induction "unat (mappedObjectsCount T) - i" arbitrary: i pos T)
  case 0
  then have i: "i = unat (mappedObjectsCount T)" by simp
  then have "pos = unat (pdo_dataLength T)" using 0 by (simp add: pdo_inv_def pdo_enabled_def)
  moreover have "drop i (layout T) = []" by (simp add: layout_def i)
  ultimately show ?case using i by (subst tpdo_collect.simps) (simp add: var_values_def)
next
  case (Suc n)
  have i: "i < unat (mappedObjectsCount T)" using Suc.hyps(2) by simp
  note el = pdo_element [OF Suc.prems(1) i] and pl = plain_element [OF Suc.prems(1,2) i]
  define io a l m where "io = pdo_OD_IO T ! i" and "a = fst (io_place io)" and "l = snd (io_place io)" and "m = em_mem (pdo_em T)"
  have l: "unat (pdo_mappedLength io) = l" "unat (dataOffset (pio_stream io)) = l" using el(3) by (simp_all add: io_def l_def io_place_def)
  have le: "pos + l \<le> 8"
    using el(5) Suc.prems(1,4) l by (simp add: io_def pdo_inv_def pdo_enabled_def word_le_nat_alt)
  have w: "dataOffset (pio_stream io) = word_of_nat l" "(ucast (pdo_mappedLength io) :: u32) = word_of_nat l"
    using el(4) by (simp_all flip: l(2)) (simp add: io_def)
  have io: "io\<lparr>pio_stream := (pio_stream io)\<lparr>dataOffset := word_of_nat l\<rparr>\<rparr> = io" by (simp flip: w(1))
  have rd: "pio_read io = Some OD_readOriginal" "pdo_ODdataLength io = word_of_nat l" "arr_get (pdo_OD_IO T) i = Some io"
    using pl(1,3) el(1) w(1) by (simp_all add: io_def plain_io_def)
  have re: "OD_readOriginal ((pio_stream io)\<lparr>dataOffset := 0\<rparr>) (word_of_nat l) m =
      (ODR_OK, (pio_stream io)\<lparr>dataOffset := 0\<rparr>, mem_read m a l, m)"
    using read_plain_io [OF pl(1) [folded io_def], of m] by (simp add: w(1) flip: a_def l_def)
  define d where "d = take pos (tx_data (tpdo_CANtxBuff T)) @ mem_read m a l @ drop (pos + l) (tx_data (tpdo_CANtxBuff T))"
  have tb: "tpdo_bytes (tx_data (tpdo_CANtxBuff T)) pos (pdo_mappedLength io) (word_of_nat l) (mem_read m a l) = Some d"
    using Suc.prems(5) le by (simp add: tpdo_bytes_def w(2) buf_write_def d_def)
  define T2 where "T2 = T\<lparr>tpdo_CANtxBuff := (tpdo_CANtxBuff T)\<lparr>tx_data := d\<rparr>\<rparr>"
  define T3 where "T3 = tpdo_flag_sent (tpdo_eventDriven T2) i T2"
  have v: "\<not> (word_of_nat (pos + l) :: u32) > 8" using le by (rule word_of_nat_le_8)
  have same: "pdo_set_io i io (pdo_set_mem m T) = T" by (simp add: m_def io_def)
  have step: "tpdo_collect i pos (word_of_nat pos) T = tpdo_collect (Suc i) (pos + l) (word_of_nat (pos + l)) T3"
    using i v by (subst tpdo_collect.simps) (simp add: rd re tb w l(1) io same T2_def T3_def Let_def flip: m_def)
  have T3: "pdo_inv T3" "mappedObjectsCount T3 = mappedObjectsCount T" "pdo_OD_IO T3 = pdo_OD_IO T" "pdo_dataLength T3 = pdo_dataLength T"
      "tx_data (tpdo_CANtxBuff T3) = d" "em_mem (pdo_em T3) = m" "length d = 8"
    using tpdo_flag_sent_inv [of T2 "tpdo_eventDriven T2" i] Suc.prems(1,5) le by (simp_all add: T3_def T2_def m_def d_def)
  have lay: "layout T3 = layout T" "pdo_plain T3" using layout_fields [of T3 T] T3 Suc.prems(2) by simp_all
  have pos: "pos + l = mapped_length (take (Suc i) (pdo_OD_IO T3))"
    using mapped_length_take_Suc [OF el(1)] Suc.prems(4) l(2) by (simp add: T3(3) io_def)
  have "take (pos + l) d = take pos (tx_data (tpdo_CANtxBuff T)) @ mem_read m a l"
    using Suc.prems(5) le by (simp add: d_def)
  moreover have "var_values m (drop i (layout T)) = mem_read m a l # var_values m (drop (Suc i) (layout T))"
    using pl(2) by (simp add: var_values_def a_def l_def io_def case_prod_unfold)
  ultimately show ?case
    unfolding step
    by (intro wp_mono [OF Suc.hyps(1) [of T3 "Suc i" "pos + l"]])
       (use Suc.hyps(2) i T3 lay pos in \<open>auto simp flip: m_def\<close>)
qed

text \<open>The values of a message are written into the variables in the order of the mapping.\<close>

lemma rpdo_copy_plain:
  assumes "pdo_inv R" "pdo_plain R" "i \<le> unat (mappedObjectsCount R)" "pos = mapped_length (take i (pdo_OD_IO R))"
    "length d = 8" "drop pos d = concat xs @ pad" "map length xs = map snd (drop i (layout R))"
  shows "wp (rpdo_copy i pos (word_of_nat pos) d R) (\<lambda>(v, R').
    em_mem (pdo_em R') = write_all (drop i (layout R)) xs (em_mem (pdo_em R)))"
  using assms
proof (induction "unat (mappedObjectsCount R) - i" arbitrary: i pos R xs)
  case 0
  then have i: "i = unat (mappedObjectsCount R)" by simp
  moreover have "drop i (layout R) = []" by (simp add: layout_def i)
  ultimately show ?case by (subst rpdo_copy.simps) simp
next
  case (Suc n)
  have i: "i < unat (mappedObjectsCount R)" using Suc.hyps(2) by simp
  note el = pdo_element [OF Suc.prems(1) i] and pl = plain_element [OF Suc.prems(1,2) i]
  define io a l m where "io = pdo_OD_IO R ! i" and "a = fst (io_place io)" and "l = snd (io_place io)" and "m = em_mem (pdo_em R)"
  have l: "unat (pdo_mappedLength io) = l" "unat (dataOffset (pio_stream io)) = l" using el(3) by (simp_all add: io_def l_def io_place_def)
  have le: "pos + l \<le> 8"
    using el(5) Suc.prems(1,4) l by (simp add: io_def pdo_inv_def pdo_enabled_def word_le_nat_alt)
  have w: "dataOffset (pio_stream io) = word_of_nat l" "(ucast (pdo_mappedLength io) :: u32) = word_of_nat l"
    using el(4) by (simp_all flip: l(2)) (simp add: io_def)
  have io: "io\<lparr>pio_stream := (pio_stream io)\<lparr>dataOffset := word_of_nat l\<rparr>\<rparr> = io" by (simp flip: w(1))
  have lu: "unat (word_of_nat l :: u32) = l" using w(1) l(2) by simp
  obtain x xs' where xs: "xs = x # xs'" "length x = l" "map length xs' = map snd (drop (Suc i) (layout R))"
    using Suc.prems(7) pl(2) by (auto simp: l_def io_def Cons_eq_map_conv map_eq_Cons_conv)
  have wr: "pio_write io = Some OD_writeOriginal" "pdo_ODdataLength io = word_of_nat l" "arr_get (pdo_OD_IO R) i = Some io"
    using pl(1,3) el(1) w(1) by (simp_all add: io_def plain_io_def)
  have x: "rpdo_bytes d pos (pdo_mappedLength io) (word_of_nat l) = Some x"
    using Suc.prems(5,6) le xs by (simp add: rpdo_bytes_def w(2) buf_read_def lu)
  have re: "OD_writeOriginal ((pio_stream io)\<lparr>dataOffset := 0\<rparr>) x m =
      (ODR_OK, (pio_stream io)\<lparr>dataOffset := 0\<rparr>, word_of_nat l, mem_write m a x)"
    using write_plain_io [OF pl(1) [folded io_def], of x m] xs(2) by (simp add: w(1) flip: a_def l_def)
  define R1 where "R1 = pdo_set_mem (mem_write m a x) R"
  have same: "pdo_set_io i io R1 = R1" by (simp add: R1_def pdo_set_io_def pdo_set_mem_def io_def)
  have v: "\<not> (word_of_nat (pos + l) :: u32) > 8" using le by (rule word_of_nat_le_8)
  have step: "rpdo_copy i pos (word_of_nat pos) d R = rpdo_copy (Suc i) (pos + l) (word_of_nat (pos + l)) d R1"
    using i v by (subst rpdo_copy.simps) (simp add: wr re x w l(1) io same Let_def flip: m_def R1_def)
  have R1: "pdo_inv R1" "mappedObjectsCount R1 = mappedObjectsCount R" "pdo_OD_IO R1 = pdo_OD_IO R" "em_mem (pdo_em R1) = mem_write m a x"
    using Suc.prems(1) by (simp add: R1_def) (simp_all add: R1_def pdo_set_mem_def)
  have lay: "layout R1 = layout R" "pdo_plain R1" using layout_fields [of R1 R] R1 Suc.prems(2) by simp_all
  have pos: "pos + l = mapped_length (take (Suc i) (pdo_OD_IO R1))"
    using mapped_length_take_Suc [OF el(1)] Suc.prems(4) l(2) by (simp add: R1(3) io_def)
  have dr: "drop (pos + l) d = concat xs' @ pad" 
    using arg_cong [OF Suc.prems(6), of "drop l"] xs(1,2) by (simp add: add.commute)
  have "write_all (drop i (layout R)) xs m = write_all (drop (Suc i) (layout R)) xs' (mem_write m a x)"
    using pl(2) xs(1) by (cases "io_place (pdo_OD_IO R ! i)") (simp add: a_def io_def)
  then show ?case
    unfolding step
    by (intro wp_mono [OF Suc.hyps(1) [of R1 "Suc i" "pos + l" xs']])
       (use Suc.hyps(2) Suc.prems(5) i R1 lay pos dr xs(3) in \<open>auto simp flip: m_def\<close>)
qed

lemma length_layout_values: "map length (var_values m vs) = map snd vs"
  by (simp add: var_values_def comp_def case_prod_unfold)

lemma mapped_length_layout: "mapped_length (take (unat (mappedObjectsCount P)) (pdo_OD_IO P)) = sum_list (map snd (layout P))"
  by (simp add: mapped_length_def layout_def io_place_def comp_def)

text \<open>The message of a TPDO with plain variables.\<close>

lemma tpdo_message:
  assumes "tpdo_inv T" "pdo_valid T" "pdo_plain T" "CO_TPDOsend T = Some T'"
  shows "tpdo_sent T' = tpdo_sent T @ [(tx_ident (tpdo_CANtxBuff T), concat (var_values (em_mem (pdo_em T)) (layout T)))]"
proof -
  have T: "pdo_inv T" "length (tx_data (tpdo_CANtxBuff T)) = 8" "tx_DLC (tpdo_CANtxBuff T) = pdo_dataLength T"
    using assms(1,2) by (simp_all add: tpdo_inv_def)
  obtain v T1 where c: "tpdo_collect 0 0 0 T = Some (v, T1)"
      "take (unat (pdo_dataLength T)) (tx_data (tpdo_CANtxBuff T1)) = concat (var_values (em_mem (pdo_em T)) (layout T))"
    using tpdo_collect_plain [of T 0 0] T assms(3) by (auto simp: wp_ex)
  have s: "v = ucast (pdo_dataLength T)" "tpdo_same T T1"
    using tpdo_collect_inv [of T 0 0] T c(1) by auto
  have "pdo_dataLength T \<le> 8" using T(1) by (simp add: pdo_inv_def pdo_enabled_def)
  then have "\<not> pdo_length_bug T1 v"
    using s by (simp add: pdo_length_bug_def tpdo_same_def pdo_kept_def word_less_nat_alt word_le_nat_alt unat_ucast_8_32)
  then have "T' = T1\<lparr>sendRequest := False, eventTimer := eventTime_us T1, inhibitTimer := inhibitTime_us T1,
                  tpdo_sent := tpdo_sent T1 @ [tx_frame (tpdo_CANtxBuff T1)]\<rparr>"
    using assms(4) c(1) by (simp add: CO_TPDOsend_def)
  then show ?thesis using s(2) c(2) T(3) by (simp add: tx_frame_def tpdo_same_def)
qed

lemma rpdo_length_error_same:
  "rpdo_inv R \<Longrightarrow> \<exists>R'. rpdo_length_error R = Some R' \<and> rpdo_inv R' \<and> em_mem (pdo_em R') = em_mem (pdo_em R) \<and>
     layout R' = layout R \<and> pdo_plain R' = pdo_plain R \<and> rpdo_CANrxNew R' = rpdo_CANrxNew R \<and> rpdo_CANrxData R' = rpdo_CANrxData R \<and>
     synchronous R' = synchronous R"
  using rpdo_length_error_inv [of R]
  by (auto simp: rpdo_length_error_def Let_def CO_error_eq rpdo_inv_em layout_def pdo_plain_def)

lemma rpdo_timeout_mem: "rpdo_inv R \<Longrightarrow> \<exists>R' tn'. rpdo_timeout R q td tn = Some (R', tn') \<and> em_mem (pdo_em R') = em_mem (pdo_em R)"
  by (auto simp: rpdo_timeout_def Let_def CO_errorReport_eq CO_errorReset_eq rpdo_inv_em)

lemma rpdo_take_values:
  assumes "rpdo_inv R" "pdo_plain R" "k < 2" "rpdo_CANrxData R ! k = concat xs @ pad" "map length xs = map snd (layout R)"
  shows "\<exists>R'. rpdo_take R k = Some R' \<and> rpdo_inv R' \<and> em_mem (pdo_em R') = write_all (layout R) xs (em_mem (pdo_em R))"
proof -
  define R0 where "R0 = R\<lparr>rpdo_CANrxNew := (rpdo_CANrxNew R)[k := False]\<rparr>"
  have R0: "pdo_inv R0" "pdo_em R0 = pdo_em R" "layout R0 = layout R" "pdo_plain R0"
    using assms(1,2) by (simp_all add: R0_def rpdo_inv_def layout_def pdo_plain_def)
  have data: "length (rpdo_CANrxData R) = 2" "length (rpdo_CANrxData R ! k) = 8"
    using assms(1,3) by (auto simp: rpdo_inv_def map_eq_Cons_conv less_2_cases_iff)
  obtain v R1 where c: "rpdo_copy 0 0 0 (rpdo_CANrxData R ! k) R0 = Some (v, R1)"
      "em_mem (pdo_em R1) = write_all (layout R) xs (em_mem (pdo_em R))"
    using rpdo_copy_plain [of R0 0 0 "rpdo_CANrxData R ! k" xs pad] R0 data assms(4,5) by (auto simp: wp_ex)
  obtain R' where R': "rpdo_take R k = Some R'" "rpdo_inv R'" using rpdo_take_inv [OF assms(1,3)] by (auto simp: wp_ex)
  have "em_inv (pdo_em R1)" using rpdo_copy_inv [of R0 0 0 "rpdo_CANrxData R ! k"] R0(1) data(2) c(1) by (auto simp: pdo_inv_em)
  then have "em_mem (pdo_em R') = em_mem (pdo_em R1)"
    using R'(1) c(1) data(1) assms(3) by (auto simp: rpdo_take_def R0_def [symmetric] CO_errorReport_eq split: if_splits)
  then show ?thesis using R' c(2) by auto
qed

text \<open>
  C36: Process data arrive. A message that a TPDO sends, received by an RPDO that maps variables of the same lengths,
  puts the values of the sender's variables into the receiver's: at once when the RPDO is not synchronous, and after
  the next SYNC, which exchanges the two receive buffers, when it is. Whatever the eight bytes of the frame
  contain beyond the message does not matter.
\<close>

theorem pdo_transfer:
  assumes T: "tpdo_inv T" "pdo_valid T" "pdo_plain T" "CO_TPDOsend T = Some T'" "last (tpdo_sent T') = (ident, msg)"
    and R: "rpdo_inv R" "pdo_valid R" "pdo_plain R" "disjoint_vars (layout R)"
    and same: "map snd (layout R) = map snd (layout T)"
    and pad: "length (msg @ pad) = 8"
    and sync: "\<not> synchronous R \<or> (syncWas \<and> (\<exists>S S'. sy = Some S \<and> sy' = Some S' \<and> CANrxToggle S' \<noteq> CANrxToggle S))"
  shows "\<exists>R1 R2 tn'. CO_PDO_receive R sy (word_of_nat (length msg)) (msg @ pad) = Some R1 \<and>
    CO_RPDO_process R1 sy' td tn True syncWas = Some (R2, tn') \<and>
    var_values (em_mem (pdo_em R2)) (layout R) = var_values (em_mem (pdo_em T)) (layout T)"
proof -
  define xs where "xs = var_values (em_mem (pdo_em T)) (layout T)"
  have msg: "msg = concat xs" using tpdo_message [OF T(1-4)] T(5) by (simp add: xs_def)
  have len: "map length xs = map snd (layout R)" by (simp add: xs_def length_layout_values same)
  have "length msg = sum_list (map snd (layout R))" using len by (simp add: msg length_concat)
  then have "length msg = unat (pdo_dataLength R)"
    using R(1) mapped_length_layout [of R] by (simp add: rpdo_inv_def pdo_inv_def pdo_enabled_def)
  then have dlc: "(word_of_nat (length msg) :: u8) = pdo_dataLength R" by simp
  define k where "k = rpdo_rx_buf R sy"
  have k: "k < 2" "k = rpdo_process_buf R sy'"
    using sync by (auto simp: k_def rpdo_rx_buf_def rpdo_process_buf_def sync_toggle_def)
  obtain R1 where R1: "CO_PDO_receive R sy (word_of_nat (length msg)) (msg @ pad) = Some R1" "rpdo_inv R1"
    using CO_PDO_receive_inv [OF R(1) pad] by (auto simp: wp_ex)
  have l2: "length (rpdo_CANrxData R) = 2" "length (rpdo_CANrxNew R) = 2"
    using R(1) by (auto simp: rpdo_inv_def map_eq_Cons_conv)
  define er where "er = (if rpdo_receiveError R = 1 then 11 else rpdo_receiveError R)"
  have eq: "R1 = R\<lparr>rpdo_CANrxData := (rpdo_CANrxData R)[k := msg @ pad], rpdo_CANrxNew := (rpdo_CANrxNew R)[k := True], rpdo_receiveError := er\<rparr>"
    using R1(1) R(2) pad by (simp add: CO_PDO_receive_def dlc buf_read_def k_def er_def Let_def)
  have f: "rpdo_CANrxData R1 ! k = msg @ pad" "rpdo_CANrxNew R1 ! k" "layout R1 = layout R" "pdo_plain R1" "pdo_valid R1"
      "em_mem (pdo_em R1) = em_mem (pdo_em R)" "synchronous R1 = synchronous R"
    using R(3) k(1) l2 by (simp_all add: eq layout_def pdo_plain_def R(2))
  obtain R2 where R2: "rpdo_length_error R1 = Some R2" "rpdo_inv R2" "em_mem (pdo_em R2) = em_mem (pdo_em R)" "layout R2 = layout R"
      "pdo_plain R2" "rpdo_CANrxNew R2 = rpdo_CANrxNew R1" "rpdo_CANrxData R2 = rpdo_CANrxData R1" "synchronous R2 = synchronous R"
    using rpdo_length_error_same [OF R1(2)] f by auto
  obtain R3 where R3: "rpdo_take R2 k = Some R3" "rpdo_inv R3" "em_mem (pdo_em R3) = write_all (layout R) xs (em_mem (pdo_em R))"
    using rpdo_take_values [OF R2(2,5) k(1), of xs pad] R2 f(1) msg len by auto
  obtain R4 tn' where R4: "rpdo_timeout R3 True td tn = Some (R4, tn')" "em_mem (pdo_em R4) = em_mem (pdo_em R3)"
    using rpdo_timeout_mem [OF R3(2)] by blast
  have "rpdo_process_buf R2 sy' = k" using k(2) R2(8) by (simp add: rpdo_process_buf_def)
  then have "CO_RPDO_process R1 sy' td tn True syncWas = Some (R4, tn')"
    using f R2(1,6) R3(1) R4(1) k(1) sync R2(2) by (auto simp: CO_RPDO_process_def arr_get_def rpdo_inv_def)
  then show ?thesis
    using R1(1) R4(2) R3(3) var_values_write_all [OF len R(4)] by (auto simp: xs_def)
qed

section \<open>Examples\<close>

lemma example_tpdo_inv: "tpdo_inv (example_tpdo 2 0xFE)" "tpdo_inv (example_tpdo 2 3)"
  by (rule CO_TPDO_init_inv [OF example_pdo_world(1,2) example_map_complete(2) example_pdo_world(3) example_pdo_inits(2) [unfolded example_tpdo_init_def], THEN conjunct1],
      rule CO_TPDO_init_inv [OF example_pdo_world(1,2) example_map_complete(3) example_pdo_world(3) example_pdo_inits(3) [unfolded example_tpdo_init_def], THEN conjunct1])

definition example_view :: "CO_TPDO \<Rightarrow> bool \<times> u8 \<times> u32 \<times> u32 \<times> u32 \<times> u32 \<times> u8 \<times> u8 \<times> can_frame list \<times> can_frame list option" where
  "example_view T = (pdo_valid T, transmissionType T, inhibitTime_us T, eventTime_us T, eventTimer T, inhibitTimer T, syncStartValue T,
     syncCounter T, tpdo_sent T, map_option tpdo_sent (tpdo_call (10, None) T))"

lemma example_tpdo_eval:
  "example_view (example_tpdo 2 0xFE) = (True, 0xFE, 1000, 100000, 0, 0, 0, 255, [], Some [(0x205, [0xA1, 0xA2, 0xA3])])"
  "example_view (example_tpdo 2 3) = (True, 3, 1000, 100000, 0, 0, 0, 255, [], Some [])"
  by code_simp+

lemmas example_tpdo_facts = example_tpdo_eval(1) [unfolded example_view_def, simplified]
lemmas example_tpdo_sync_facts = example_tpdo_eval(2) [unfolded example_view_def, simplified]


theorem tpdo_event_time_witness:
  "\<exists>T'. run tpdo_call [(10, None), (5000, Some 7)] (example_tpdo 2 0xFE) = Some T' \<and> 0 < length (tpdo_sent T')"
  using tpdo_event_time [of "example_tpdo 2 0xFE" "[(10, None), (5000, Some 7)]"]
  by (simp add: tpdo_ev_def example_tpdo_inv example_tpdo_facts del: run.simps)

theorem tpdo_nth_sync_witness:
  "\<exists>T'. run tpdo_tick (replicate 5 (example_sync, 1000, None, True) @ replicate 4 (example_sync, 10, Some 9, False)) (example_tpdo 2 3) = Some T' \<and>
     length (tpdo_sent T') = 2"
proof -
  have "tpdo_cyclic 3 (example_tpdo 2 3)" by (simp add: tpdo_cyclic_def example_tpdo_inv example_tpdo_sync_facts)
  from tpdo_nth_sync [OF this, of "replicate 5 (example_sync, 1000, None, True) @ replicate 4 (example_sync, 10, Some 9, False)"]
  show ?thesis by (simp add: syncs_def example_tpdo_sync_facts del: run.simps) (simp add: numeral_2_eq_2 del: run.simps)
qed

text \<open>A sender and a receiver with two variables each, of two bytes and one byte.\<close>

definition example_io :: "addr \<Rightarrow> u32 \<Rightarrow> PDO_io" where
  "example_io a l = \<lparr>pio_stream = (stream OD_IO_null)\<lparr>dataOrig := Some a, dataLength := l, dataOffset := l\<rparr>,
     pio_read = Some OD_readOriginal, pio_write = Some OD_writeOriginal\<rparr>"

definition example_mapping :: "addr \<Rightarrow> 'a CO_PDO_common_scheme \<Rightarrow> 'a CO_PDO_common_scheme" where
  "example_mapping a P = P\<lparr>pdo_valid := True, pdo_dataLength := 3, mappedObjectsCount := 2,
     pdo_OD_IO := [example_io a 2, example_io (a + 2) 1] @ replicate 6 (dummy_io 0)\<rparr>"

definition example_sender :: CO_TPDO where
  "example_sender = example_mapping 50 (tpdo_zero (example_tx\<lparr>tx_ident := 0x185, tx_DLC := 3\<rparr>) (example_pdo_em 2 0xFE) example_pdo_od)"

definition example_receiver :: CO_RPDO where
  "example_receiver = example_mapping 60 (rpdo_zero (example_pdo_em 2 0xFE) example_pdo_od)"

lemma example_mapping_inv: "pdo_frame P \<Longrightarrow> pdo_inv (example_mapping a P)"
  by (simp add: pdo_inv_def pdo_frame_def pdo_enabled_def example_mapping_def io_ok_def io_live_def example_io_def dummy_io_def
      read_bounded_original read_bounded_dummy list_all_iff)

lemma example_mapping_layout:
  "layout (example_mapping a P) = [(a, 2), (a + 2, 1)]" "pdo_plain (example_mapping a P)" "pdo_valid (example_mapping a P)"
  by (simp_all add: layout_def pdo_plain_def example_mapping_def io_place_def plain_io_def example_io_def)

theorem pdo_transfer_witness:
  "\<exists>T' ident msg R1 R2 tn'. CO_TPDOsend example_sender = Some T' \<and> last (tpdo_sent T') = (ident, msg) \<and>
     CO_PDO_receive example_receiver None (word_of_nat (length msg)) (msg @ [9, 9, 9, 9, 9]) = Some R1 \<and>
     CO_RPDO_process R1 None 1000 None True False = Some (R2, tn') \<and>
     var_values (em_mem (pdo_em R2)) [(60, 2), (62, 1)] = [[0xA1, 0xA2], [0xA3]]"
proof -
  note zero = pdo_frame_zero [OF example_pdo_world(1,2)]
  have T: "tpdo_inv example_sender" "pdo_valid example_sender" "pdo_plain example_sender" "layout example_sender = [(50, 2), (52, 1)]"
    using example_mapping_inv [OF zero(2)] example_pdo_world(3)
    by (simp_all add: tpdo_inv_def example_sender_def example_mapping_layout)
       (simp add: example_mapping_def tpdo_zero_def pdo_common_zero_def CO_PDO_common.extend_def CO_TPDO.fields_def)
  have R: "rpdo_inv example_receiver" "pdo_valid example_receiver" "pdo_plain example_receiver" "layout example_receiver = [(60, 2), (62, 1)]"
      "\<not> synchronous example_receiver"
    using example_mapping_inv [OF zero(1)]
    by (simp_all add: rpdo_inv_def example_receiver_def example_mapping_layout)
       (simp_all add: example_mapping_def rpdo_zero_def pdo_common_zero_def CO_PDO_common.extend_def CO_RPDO.fields_def)
  obtain T' where T': "CO_TPDOsend example_sender = Some T'" using CO_TPDOsend_ok [OF T(1)] by (auto simp: wp_ex)
  obtain ident msg where m: "last (tpdo_sent T') = (ident, msg)" by fastforce
  have v: "var_values (em_mem (pdo_em example_sender)) [(50, 2), (52, 1)] = [[0xA1, 0xA2], [0xA3]]" by code_simp
  have "length msg = 3" using tpdo_message [OF T(1-3) T'] m T(4) v by auto
  then show ?thesis
    using pdo_transfer [OF T(1-3) T' m R(1-3), of "[9, 9, 9, 9, 9]" False None None 1000 None] T' m R T(4) v by auto
qed

end
