(* ===== verification/Node.thy ===== *)
theory Node
  imports PDO_Safety HBconsumer LEDs LSSslave TIME
begin

text \<open>
  The node: \<open>CANopen.c\<close>, which owns the objects of the stack and calls them in turn, and the calls of
  the event loop in \<open>CO_epoll_interface.c\<close>. The objects share the emergency object, the object
  dictionary and the memory of its variables by pointers; here the node holds them, and a call of an
  object takes them from the node and gives them back. The gateway and the objects of the safety
  profile are not part of the node.
\<close>

section \<open>State\<close>

text \<open>
  \<open>CO_t\<close>. An object of which there is at most one is present if its count (\<open>CO_GET_CNT\<close>) is one; of the
  others there are as many as the length of the list. The memory of the object dictionary is part of the
  emergency object, like the error status of the CAN module.
\<close>

record CO_t =
  nodeIdUnconfigured :: bool
  co_em :: em
  co_OD :: OD_t
  co_NMT :: nmt
  co_LSSslave :: "lss option"
  co_LEDs :: "LEDs option"
  co_SDOserver :: "sdo list"
  co_HBcons :: "hbc option"
  co_TIME :: "timeobj option"
  co_SYNC :: "sync option"
  co_RPDO :: "CO_RPDO list"
  co_TPDO :: "CO_TPDO list"

abbreviation (input) "CO_CAN_ERRTX_BUS_OFF \<equiv> 0x0004 :: u16"
abbreviation (input) "CO_CAN_ERR_WARN_PASSIVE \<equiv> 0x0303 :: u16"

section \<open>Calls of the objects\<close>

text \<open>
  A loop over the objects of one kind. \<open>load\<close> gives an object the shared state, \<open>store\<close> takes it
  back.
\<close>

fun each_object ::
    "(em \<Rightarrow> OD_t \<Rightarrow> 's \<Rightarrow> 's) \<Rightarrow> (em \<Rightarrow> 's \<Rightarrow> em \<times> OD_t) \<Rightarrow> ('s \<Rightarrow> u32 option \<Rightarrow> ('s \<times> u32 option) option) \<Rightarrow>
     em \<Rightarrow> OD_t \<Rightarrow> u32 option \<Rightarrow> 's list \<Rightarrow> (em \<times> OD_t \<times> u32 option \<times> 's list) option" where
  "each_object load store proc em od tn [] = Some (em, od, tn, [])"
| "each_object load store proc em od tn (x # xs) = do {
     (x, tn) \<leftarrow> proc (load em od x) tn;
     let (em, od) = store em x;
     (em, od, tn, xs) \<leftarrow> each_object load store proc em od tn xs;
     Some (em, od, tn, x # xs)
   }"

definition sdo_load :: "em \<Rightarrow> OD_t \<Rightarrow> sdo \<Rightarrow> sdo" where
  "sdo_load em od s = s\<lparr>od_mem := em_mem em, SDO_OD := od\<rparr>"

definition sdo_store :: "em \<Rightarrow> sdo \<Rightarrow> em \<times> OD_t" where
  "sdo_store em s = (em\<lparr>em_mem := od_mem s\<rparr>, SDO_OD s)"

definition pdo_load :: "em \<Rightarrow> OD_t \<Rightarrow> 'a CO_PDO_common_scheme \<Rightarrow> 'a CO_PDO_common_scheme" where
  "pdo_load em od P = P\<lparr>pdo_em := em, pdo_OD := od\<rparr>"

definition pdo_store :: "em \<Rightarrow> 'a CO_PDO_common_scheme \<Rightarrow> em \<times> OD_t" where
  "pdo_store em P = (pdo_em P, pdo_OD P)"

definition is_PreOrOperational :: "CO_NMT_internalState \<Rightarrow> bool" where
  "is_PreOrOperational st \<longleftrightarrow> st = CO_NMT_PRE_OPERATIONAL \<or> st = CO_NMT_OPERATIONAL"

definition process_LSSslave :: "CO_t \<Rightarrow> (bool \<times> CO_t) option" where
  "process_LSSslave co =
     (case co_LSSslave co of
        None \<Rightarrow> Some (False, co)
      | Some L \<Rightarrow> map_option (\<lambda>(r, L). (r, co\<lparr>co_LSSslave := Some L\<rparr>)) (CO_LSSslave_process L))"

text \<open>The inputs of the indicators; \<open>ErrRpdo\<close> and \<open>firmwareDownload\<close> are constant.\<close>

definition led_inputs_of :: "CO_t \<Rightarrow> CO_NMT_internalState \<Rightarrow> led_inputs" where
  "led_inputs_of co st =
     (let unc = nodeIdUnconfigured co; em = co_em co in
      \<lparr>in_NMTstate = (if unc then CO_NMT_INITIALIZING else st),
       in_LSSconfig = (case co_LSSslave co of None \<Rightarrow> False | Some L \<Rightarrow> CO_LSSslave_getState L = CO_LSS_STATE_CONFIGURATION),
       in_ErrCANbusOff = (CANerrorStatus em AND CO_CAN_ERRTX_BUS_OFF \<noteq> 0),
       in_ErrCANbusWarn = (CANerrorStatus em AND CO_CAN_ERR_WARN_PASSIVE \<noteq> 0),
       in_ErrRpdo = False,
       in_ErrSync = (\<not> unc \<and> CO_isError em CO_EM_SYNC_TIME_OUT),
       in_ErrHbCons = (\<not> unc \<and> (CO_isError em CO_EM_HEARTBEAT_CONSUMER \<or> CO_isError em CO_EM_HB_CONSUMER_REMOTE_RESET)),
       in_ErrOther = (CO_getErrorRegister em \<noteq> 0),
       in_firmwareDownload = False\<rparr>)"

definition process_LEDs :: "CO_t \<Rightarrow> CO_NMT_internalState \<Rightarrow> u32 \<Rightarrow> u32 option \<Rightarrow> u32 option \<times> CO_t" where
  "process_LEDs co st td tn =
     (case co_LEDs co of
        None \<Rightarrow> (tn, co)
      | Some L \<Rightarrow> let (L, tn) = CO_LEDs_process L td (led_inputs_of co st) tn in (tn, co\<lparr>co_LEDs := Some L\<rparr>))"

definition process_EM :: "CO_t \<Rightarrow> bool \<Rightarrow> u32 \<Rightarrow> u32 option \<Rightarrow> (u32 option \<times> CO_t) option" where
  "process_EM co pre td tn = do {
     (em, tn) \<leftarrow> CO_EM_process (co_em co) pre td tn;
     Some (tn, co\<lparr>co_em := em\<rparr>)
   }"

definition process_NMT ::
    "CO_t \<Rightarrow> u32 \<Rightarrow> u32 option \<Rightarrow> CO_NMT_reset_cmd \<times> CO_NMT_internalState \<times> u32 option \<times> CO_t" where
  "process_NMT co td tn =
     (let (reset, st, tn, NMT) = CO_NMT_process ((co_NMT co)\<lparr>nmt_mem := em_mem (co_em co)\<rparr>) (co_em co) td tn
      in (reset, st, tn, co\<lparr>co_NMT := NMT\<rparr>))"

definition process_SDOserver :: "CO_t \<Rightarrow> bool \<Rightarrow> u32 \<Rightarrow> u32 option \<Rightarrow> (u32 option \<times> CO_t) option" where
  "process_SDOserver co pre td tn = do {
     (em, od, tn, ss) \<leftarrow>
       each_object sdo_load sdo_store (\<lambda>s tn. map_option (\<lambda>(_, tn, s). (s, tn)) (CO_SDOserver_process s pre td tn))
         (co_em co) (co_OD co) tn (co_SDOserver co);
     Some (tn, co\<lparr>co_em := em, co_OD := od, co_SDOserver := ss\<rparr>)
   }"

definition process_HBcons :: "CO_t \<Rightarrow> bool \<Rightarrow> u32 \<Rightarrow> u32 option \<Rightarrow> (u32 option \<times> CO_t) option" where
  "process_HBcons co pre td tn =
     (case co_HBcons co of
        None \<Rightarrow> Some (tn, co)
      | Some hb \<Rightarrow> do {
          (hb, tn) \<leftarrow> CO_HBconsumer_process (hb\<lparr>hb_em := co_em co\<rparr>) pre td tn;
          Some (tn, co\<lparr>co_HBcons := Some hb, co_em := hb_em hb\<rparr>)
        })"

definition process_TIME :: "CO_t \<Rightarrow> bool \<Rightarrow> u32 \<Rightarrow> CO_t" where
  "process_TIME co pre td =
     (case co_TIME co of
        None \<Rightarrow> co
      | Some T \<Rightarrow> co\<lparr>co_TIME := Some (snd (CO_TIME_process (T\<lparr>time_mem := em_mem (co_em co)\<rparr>) pre td))\<rparr>)"

section \<open>Processing\<close>

text \<open>
  \<open>CO_process\<close>. \<open>status\<close> is the error status that the driver has evaluated, which \<open>CO_CANmodule_process\<close>
  copies into the CAN module. \<open>process_configured\<close> is what follows the return for a node without an
  identifier.
\<close>

definition process_configured ::
    "CO_t \<Rightarrow> bool \<Rightarrow> u32 \<Rightarrow> u32 option \<Rightarrow> (CO_NMT_reset_cmd \<times> u32 option \<times> CO_t) option" where
  "process_configured co pre td tn = do {
     (tn, co) \<leftarrow> process_EM co pre td tn;
     let (reset, st, tn, co) = process_NMT co td tn;
     let pre = is_PreOrOperational st;
     (tn, co) \<leftarrow> process_SDOserver co pre td tn;
     (tn, co) \<leftarrow> process_HBcons co pre td tn;
     Some (reset, tn, process_TIME co pre td)
   }"

definition CO_process :: "u16 \<Rightarrow> CO_t \<Rightarrow> u32 \<Rightarrow> u32 option \<Rightarrow> (CO_NMT_reset_cmd \<times> u32 option \<times> CO_t) option" where
  "CO_process status co td tn = do {
     let st = CO_NMT_getInternalState (co_NMT co);
     let co = co\<lparr>co_em := (co_em co)\<lparr>CANerrorStatus := status\<rparr>\<rparr>;
     (lssReset, co) \<leftarrow> process_LSSslave co;
     let (tn, co) = process_LEDs co st td tn;
     if nodeIdUnconfigured co then Some (if lssReset then CO_RESET_COMM else CO_RESET_NOT, tn, co)
     else process_configured co (is_PreOrOperational st) td tn
   }"

text \<open>\<open>CO_CANclearPendingSyncPDOs\<close>, called after the window has passed, does nothing in this driver.\<close>

definition CO_process_SYNC :: "CO_t \<Rightarrow> u32 \<Rightarrow> u32 option \<Rightarrow> (bool \<times> u32 option \<times> CO_t) option" where
  "CO_process_SYNC co td tn =
     (case co_SYNC co of
        Some S \<Rightarrow>
          if nodeIdUnconfigured co then Some (False, tn, co)
          else do {
            (st, S, tn) \<leftarrow> CO_SYNC_process (S\<lparr>sync_em := co_em co\<rparr>)
              (is_PreOrOperational (CO_NMT_getInternalState (co_NMT co))) td tn;
            Some (st = CO_SYNC_RX_TX, tn, co\<lparr>co_SYNC := Some S, co_em := sync_em S\<rparr>)
          }
      | None \<Rightarrow> Some (False, tn, co))"

definition is_Operational :: "CO_t \<Rightarrow> bool" where
  "is_Operational co \<longleftrightarrow> CO_NMT_getInternalState (co_NMT co) = CO_NMT_OPERATIONAL"

definition CO_process_RPDO :: "CO_t \<Rightarrow> bool \<Rightarrow> u32 \<Rightarrow> u32 option \<Rightarrow> (u32 option \<times> CO_t) option" where
  "CO_process_RPDO co syncWas td tn =
     (if nodeIdUnconfigured co then Some (tn, co)
      else do {
        (em, od, tn, rs) \<leftarrow>
          each_object pdo_load pdo_store (\<lambda>R tn. CO_RPDO_process R (co_SYNC co) td tn (is_Operational co) syncWas)
            (co_em co) (co_OD co) tn (co_RPDO co);
        Some (tn, co\<lparr>co_em := em, co_OD := od, co_RPDO := rs\<rparr>)
      })"

definition CO_process_TPDO :: "CO_t \<Rightarrow> bool \<Rightarrow> u32 \<Rightarrow> u32 option \<Rightarrow> (u32 option \<times> CO_t) option" where
  "CO_process_TPDO co syncWas td tn =
     (if nodeIdUnconfigured co then Some (tn, co)
      else do {
        (em, od, tn, ts) \<leftarrow>
          each_object pdo_load pdo_store (\<lambda>T tn. CO_TPDO_process T (co_SYNC co) td tn (is_Operational co) syncWas)
            (co_em co) (co_OD co) tn (co_TPDO co);
        Some (tn, co\<lparr>co_em := em, co_OD := od, co_TPDO := ts\<rparr>)
      })"

text \<open>The objects of the process image, as the event loop calls them while the CAN module is in normal mode.\<close>

definition CO_epoll_processRT :: "bool \<Rightarrow> CO_t \<Rightarrow> u32 \<Rightarrow> u32 option \<Rightarrow> (u32 option \<times> CO_t) option" where
  "CO_epoll_processRT CANnormal co td tn =
     (if \<not> nodeIdUnconfigured co \<and> CANnormal then do {
        (syncWas, tn, co) \<leftarrow> CO_process_SYNC co td tn;
        (tn, co) \<leftarrow> CO_process_RPDO co syncWas td tn;
        CO_process_TPDO co syncWas td tn
      }
      else Some (tn, co))"

section \<open>Initialisation\<close>

text \<open>
  What the initialisation takes from outside: the results of configuring the CAN buffers and the transmit
  buffers, by the object that asks for them, and the lengths of the arrays 0x1003 and 0x1016 of the object
  dictionary (\<open>CO_GET_CNT\<close>). A heartbeat producer has a transmit buffer of its own.
\<close>

datatype co_object =
    Obj_EM | Obj_NMT | Obj_HBproducer | Obj_HBcons | Obj_SDO nat | Obj_TIME | Obj_SYNC | Obj_LSS | Obj_RPDO nat | Obj_TPDO nat

record co_config =
  rx_config :: "co_object \<Rightarrow> CO_ReturnError"
  tx_config :: "co_object \<Rightarrow> bool"
  tx_buffer :: "co_object \<Rightarrow> CANtx"
  CNT_ARR_1003 :: u8
  CNT_ARR_1016 :: u8

type_synonym init_result = "(CO_ReturnError \<times> u32 option \<times> CO_t) option"

text \<open>The initialisation stops at the first object that fails.\<close>

definition init_then :: "init_result \<Rightarrow> (CO_t \<Rightarrow> init_result) \<Rightarrow> init_result" where
  "init_then r f = do { (err, info, co) \<leftarrow> r; if err \<noteq> CO_ERROR_NO then Some (err, info, co) else f co }"

text \<open>
  \<open>OD_GET\<close> with a pointer to the entries that follow: the \<open>i\<close>-th entry after the one with the index; the
  outer \<^const>\<open>None\<close> is an access behind the list.
\<close>

definition OD_GET :: "OD_t \<Rightarrow> u16 \<Rightarrow> nat \<Rightarrow> OD_entry option option" where
  "OD_GET od idx i =
     (case find (\<lambda>k. entry_index (od ! k) = idx) [0..<length od] of
        None \<Rightarrow> Some None
      | Some k \<Rightarrow> if k + i < length od then Some (Some (od ! (k + i))) else None)"

definition init_EM :: "co_config \<Rightarrow> OD_entry option \<Rightarrow> u8 \<Rightarrow> CO_t \<Rightarrow> init_result" where
  "init_EM cf eStatus node co =
     (let em = co_em co; od = co_OD co;
          (err, info, em) = CO_EM_init (rx_config cf Obj_EM) (tx_config cf Obj_EM) (tx_buffer cf Obj_EM) (CANerrorStatus em) (em_mem em) em
            (OD_find od 0x1001) (Some (em_fifo em)) (CNT_ARR_1003 cf + 1) (OD_find od 0x1014) (OD_find od 0x1015) (OD_find od 0x1003)
            eStatus node
      in Some (err, info, co\<lparr>co_em := em\<rparr>))"

definition init_NMT :: "co_config \<Rightarrow> u16 \<Rightarrow> u16 \<Rightarrow> u8 \<Rightarrow> CO_t \<Rightarrow> init_result" where
  "init_NMT cf control firstHBTime_ms node co =
     (let (err, info, NMT) = CO_NMT_init (rx_config cf Obj_NMT) (tx_config cf Obj_NMT) (tx_config cf Obj_HBproducer)
            ((co_NMT co)\<lparr>nmt_mem := em_mem (co_em co)\<rparr>) (OD_find (co_OD co) 0x1017) True node control firstHBTime_ms
            0 (0x700 + ucast node)
      in Some (err, info, co\<lparr>co_NMT := NMT, co_em := (co_em co)\<lparr>em_mem := nmt_mem NMT\<rparr>\<rparr>))"

definition init_HBcons :: "co_config \<Rightarrow> CO_t \<Rightarrow> init_result" where
  "init_HBcons cf co =
     (case co_HBcons co of
        None \<Rightarrow> Some (CO_ERROR_NO, None, co)
      | Some hb \<Rightarrow> do {
          (err, info, hb) \<leftarrow> CO_HBconsumer_init (rx_config cf Obj_HBcons) (co_em co) (monitoredNodes hb) (CNT_ARR_1016 cf)
            (OD_find (co_OD co) 0x1016) hb;
          Some (err, info, if OD_find (co_OD co) 0x1016 = None then co else co\<lparr>co_HBcons := Some hb, co_em := hb_em hb\<rparr>)
        })"

definition init_SDO :: "co_config \<Rightarrow> u16 \<Rightarrow> u8 \<Rightarrow> nat \<Rightarrow> CO_t \<Rightarrow> init_result" where
  "init_SDO cf timeout_ms node i co = do {
     s \<leftarrow> arr_get (co_SDOserver co) i;
     par \<leftarrow> OD_GET (co_OD co) 0x1200 i;
     let (err, info, s) = CO_SDOserver_init (rx_config cf (Obj_SDO i)) (tx_config cf (Obj_SDO i)) (sdo_load (co_em co) (co_OD co) s)
       (co_OD co) par node timeout_ms;
     Some (err, info, co\<lparr>co_SDOserver := (co_SDOserver co)[i := s], co_em := fst (sdo_store (co_em co) s)\<rparr>)
   }"

fun init_list :: "(nat \<Rightarrow> CO_t \<Rightarrow> init_result) \<Rightarrow> nat list \<Rightarrow> CO_t \<Rightarrow> init_result" where
  "init_list f [] co = Some (CO_ERROR_NO, None, co)"
| "init_list f (i # is) co = init_then (f i co) (init_list f is)"

definition init_TIME :: "co_config \<Rightarrow> CO_t \<Rightarrow> init_result" where
  "init_TIME cf co =
     (case co_TIME co of
        None \<Rightarrow> Some (CO_ERROR_NO, None, co)
      | Some T \<Rightarrow>
          let (err, info, T) = CO_TIME_init (rx_config cf Obj_TIME) (tx_config cf Obj_TIME) (tx_buffer cf Obj_TIME) (em_mem (co_em co)) T
            (OD_find (co_OD co) 0x1012)
          in Some (err, info, co\<lparr>co_TIME := Some T\<rparr>))"

definition init_SYNC :: "co_config \<Rightarrow> CO_t \<Rightarrow> init_result" where
  "init_SYNC cf co =
     (case co_SYNC co of
        None \<Rightarrow> Some (CO_ERROR_NO, None, co)
      | Some S \<Rightarrow>
          let od = co_OD co;
              (err, info, S) = CO_SYNC_init (rx_config cf Obj_SYNC) (tx_config cf Obj_SYNC) (tx_buffer cf Obj_SYNC) (co_em co)
                (S\<lparr>sync_em := co_em co\<rparr>) (OD_find od 0x1005) (OD_find od 0x1006) (OD_find od 0x1007) (OD_find od 0x1019)
          in Some (err, info, co\<lparr>co_SYNC := Some S, co_em := sync_em S\<rparr>))"

definition CO_CANopenInit :: "co_config \<Rightarrow> OD_entry option \<Rightarrow> u16 \<Rightarrow> u16 \<Rightarrow> u16 \<Rightarrow> u8 \<Rightarrow> CO_t \<Rightarrow> init_result" where
  "CO_CANopenInit cf eStatus control firstHBTime_ms timeout_ms node co =
     (let unc = (co_LSSslave co \<noteq> None \<and> node = CO_LSS_NODE_ID_ASSIGNMENT);
          co = co\<lparr>nodeIdUnconfigured := unc\<rparr> in
      if \<not> unc \<and> (node < 1 \<or> node > 127) then Some (CO_ERROR_ILLEGAL_ARGUMENT, None, co)
      else
        let co = (if co_LEDs co = None then co else co\<lparr>co_LEDs := Some (snd CO_LEDs_init)\<rparr>) in
        if unc then Some (CO_ERROR_NODE_ID_UNCONFIGURED_LSS, None, co)
        else
          init_then (init_EM cf eStatus node co) (\<lambda>co.
          init_then (init_NMT cf control firstHBTime_ms node co) (\<lambda>co.
          init_then (init_HBcons cf co) (\<lambda>co.
          init_then (init_list (init_SDO cf timeout_ms node) [0..<length (co_SDOserver co)] co) (\<lambda>co.
          init_then (init_TIME cf co) (init_SYNC cf))))))"

text \<open>The predefined identifiers of the first four PDOs.\<close>

definition init_RPDO :: "co_config \<Rightarrow> u8 \<Rightarrow> nat \<Rightarrow> CO_t \<Rightarrow> init_result" where
  "init_RPDO cf node i co = do {
     R \<leftarrow> arr_get (co_RPDO co) i;
     comm \<leftarrow> OD_GET (co_OD co) 0x1400 i;
     mapp \<leftarrow> OD_GET (co_OD co) 0x1600 i;
     let preDefined = (if i < 4 then 0x200 + word_of_nat i * 0x100 + ucast node else 0);
     (err, info, R) \<leftarrow> CO_RPDO_init (rx_config cf (Obj_RPDO i)) (co_em co) (co_OD co) (pdo_load (co_em co) (co_OD co) R) preDefined comm mapp;
     Some (err, info, co\<lparr>co_RPDO := (co_RPDO co)[i := R], co_em := pdo_em R\<rparr>)
   }"

definition init_TPDO :: "co_config \<Rightarrow> u8 \<Rightarrow> nat \<Rightarrow> CO_t \<Rightarrow> init_result" where
  "init_TPDO cf node i co = do {
     T \<leftarrow> arr_get (co_TPDO co) i;
     comm \<leftarrow> OD_GET (co_OD co) 0x1800 i;
     mapp \<leftarrow> OD_GET (co_OD co) 0x1A00 i;
     let preDefined = (if i < 4 then 0x180 + word_of_nat i * 0x100 + ucast node else 0);
     (err, info, T) \<leftarrow> CO_TPDO_init (tx_config cf (Obj_TPDO i)) (tx_buffer cf (Obj_TPDO i)) (co_em co) (co_OD co)
       (pdo_load (co_em co) (co_OD co) T) preDefined comm mapp;
     Some (err, info, co\<lparr>co_TPDO := (co_TPDO co)[i := T], co_em := pdo_em T\<rparr>)
   }"

definition CO_CANopenInitPDO :: "co_config \<Rightarrow> u8 \<Rightarrow> CO_t \<Rightarrow> init_result" where
  "CO_CANopenInitPDO cf node co =
     (if node < 1 \<or> node > 127 \<or> nodeIdUnconfigured co
      then Some (if nodeIdUnconfigured co then CO_ERROR_NODE_ID_UNCONFIGURED_LSS else CO_ERROR_ILLEGAL_ARGUMENT, None, co)
      else
        init_then (init_list (init_RPDO cf node) [0..<length (co_RPDO co)] co) (\<lambda>co.
        init_list (init_TPDO cf node) [0..<length (co_TPDO co)] co))"

text \<open>\<open>CO_LSSinit\<close>; the slave takes the identifier to be used, which the application passes to \<open>CO_CANopenInit\<close>.\<close>

definition CO_LSSinit :: "co_config \<Rightarrow> u32 list \<Rightarrow> u8 \<Rightarrow> u16 \<Rightarrow> CO_t \<Rightarrow> CO_ReturnError \<times> CO_t" where
  "CO_LSSinit cf addr pendingNode pendingRate co =
     (case co_LSSslave co of
        None \<Rightarrow> (CO_ERROR_ILLEGAL_ARGUMENT, co)
      | Some L \<Rightarrow>
          let (err, L) = CO_LSSslave_init (rx_config cf Obj_LSS) (tx_config cf Obj_LSS) (tx_buffer cf Obj_LSS) L addr pendingRate pendingNode 0x7E4
          in (err, co\<lparr>co_LSSslave := Some L\<rparr>))"

end
