(* ===== verification/Node_Props.thy ===== *)
theory Node_Props
  imports Node
begin

text \<open>
  The node as a whole: its invariant is that of its objects, every call keeps it, and no call accesses
  memory out of range. What one object reports the others act on: a monitored node that falls silent
  makes this node leave the operational state.
\<close>

section \<open>The objects and the errors of the heartbeat consumer\<close>

text \<open>
  The objects other than the heartbeat consumer keep the invariant of the emergency object and do not
  touch the errors of the consumer.
\<close>

lemma hb_env_refl: "em_inv em \<Longrightarrow> hb_env_ok em em"
  by (simp add: hb_env_ok_def hb_reported_refl)

lemma hb_env_trans: "hb_env_ok a b \<Longrightarrow> hb_env_ok b c \<Longrightarrow> hb_env_ok a c"
  by (simp add: hb_env_ok_def hb_reported_def)

lemma hb_env_inv: "hb_env_ok a b \<Longrightarrow> em_inv b"
  by (simp add: hb_env_ok_def hb_reported_def)

lemma hb_env_bits: "em_inv em' \<Longrightarrow> errorStatusBits em' = errorStatusBits em \<Longrightarrow> hb_env_ok em em'"
  by (simp add: hb_env_ok_def hb_reported_def CO_isError_def)

lemma hb_env_left: "errorStatusBits a = errorStatusBits b \<Longrightarrow> hb_env_ok a = hb_env_ok b"
  by (simp add: fun_eq_iff hb_env_ok_def hb_reported_def CO_isError_def)

lemma hb_env_error:
  "em_inv em \<Longrightarrow> err_bit b \<notin> {CO_EM_HEARTBEAT_CONSUMER, CO_EM_HB_CONSUMER_REMOTE_RESET} \<Longrightarrow>
   hb_env_ok em (error_result em v b code info)"
  by (simp add: hb_env_ok_def hb_reported_def error_result_inv error_result_isError)

lemma report_can_errors_env:
  "em_inv em \<Longrightarrow> list_all (\<lambda>(_, b, _). err_bit b \<notin> {CO_EM_HEARTBEAT_CONSUMER, CO_EM_HB_CONSUMER_REMOTE_RESET}) tab \<Longrightarrow>
   wp (report_can_errors ch st tab em) (hb_env_ok em)"
proof (induction tab arbitrary: em)
  case Nil
  then show ?case by (simp add: hb_env_refl)
next
  case (Cons t tab)
  obtain msk b c where t: "t = (msk, b, c)" by (cases t)
  have e: "hb_env_ok em (error_result em v b c 0)" for v using Cons.prems t by (intro hb_env_error) simp_all
  have "wp (report_can_errors ch st tab (error_result em v b c 0)) (hb_env_ok em)" for v
    using Cons.prems(2) by (intro wp_mono [OF Cons.IH [OF hb_env_inv [OF e]]]) (auto intro: hb_env_trans [OF e])
  then show ?case using Cons by (simp add: t CO_error_eq)
qed

lemma em_overflow_env: "em_inv em \<Longrightarrow> wp (em_overflow em) (hb_env_ok em)"
  using hb_env_error [of "em\<lparr>fifoOverflow := 2\<rparr>" CO_EM_EMERGENCY_BUFFER_FULL]
    hb_env_error [of "em\<lparr>fifoOverflow := 0\<rparr>" CO_EM_EMERGENCY_BUFFER_FULL] hb_env_left [of "em\<lparr>fifoOverflow := _\<rparr>" em]
  by (simp add: em_overflow_def CO_errorReport_eq CO_errorReset_eq err_bit_def hb_env_refl)

lemma em_post_process_env:
  assumes i: "em_inv em"
  shows "wp (em_post_process em reg td tn) (\<lambda>(em', _). hb_env_ok em em')"
proof (cases "fifoSize em \<ge> 2")
  case True
  define em1 where "em1 = (if inhibitEmTimer em < inhibitEmTime_us em
    then em\<lparr>inhibitEmTimer := inhibitEmTimer em + td\<rparr> else em)"
  let ?em2 = "em1\<lparr>inhibitEmTimer := 0\<rparr>"
  have i2: "em_inv em1" "em_inv ?em2" using i by (simp_all add: em1_def)
  have ok: "em_fifo_ok ?em2" using i2(2) True by (simp add: em_inv_def em1_def split: if_splits)
  have b: "errorStatusBits em1 = errorStatusBits em" by (simp add: em1_def)
  then have "wp (em_overflow (sent_em ?em2 reg)) (hb_env_ok em)"
    using em_overflow_env [OF sent_em_inv [OF i2(2) ok, of reg]] hb_env_left [of "sent_em ?em2 reg" em] by simp
  moreover have "hb_env_ok em em1" using i2 b by (simp add: hb_env_bits)
  ultimately show ?thesis
    using True em_send_eq [OF i2(2) ok] unfolding em_post_process_def em1_def [symmetric] Let_def by simp
qed (use i in \<open>simp add: em_post_process_def hb_env_refl\<close>)

lemma CO_EM_process_env:
  assumes i: "em_inv em"
  shows "wp (CO_EM_process em pre td tn) (\<lambda>(em', _). hb_env_ok em em')"
proof -
  have "wp (report_can_errors ch st can_error_table (em\<lparr>CANerrorStatusOld := c\<rparr>)) (hb_env_ok em)" for ch st c
    using report_can_errors_env [of "em\<lparr>CANerrorStatusOld := c\<rparr>" can_error_table ch st] i
    by (simp add: hb_env_left [of "em\<lparr>CANerrorStatusOld := c\<rparr>" em]) (simp add: can_error_table_def err_bit_def)
  then obtain em1 where e1: "em_driver_errors em = Some em1" "hb_env_ok em em1"
    using hb_env_refl [OF i] by (simp add: em_driver_errors_def Let_def wp_ex) metis
  obtain a where a: "errorRegister em1 = Some a" using hb_env_inv [OF e1(2)] by (auto simp: em_inv_def)
  let ?em2 = "em1\<lparr>em_mem := (em_mem em1)(a := calc_errorRegister (errorStatusBits em1))\<rparr>"
  have g2: "hb_env_ok em ?em2" using hb_env_inv [OF e1(2)] by (intro hb_env_trans [OF e1(2)] hb_env_bits) simp_all
  have "wp (em_post_process ?em2 reg td tn) (\<lambda>(em', _). hb_env_ok em em')" for reg
    by (rule wp_mono [OF em_post_process_env [OF hb_env_inv [OF g2]]]) (auto intro: hb_env_trans [OF g2])
  then show ?thesis using e1(1) a g2 by (simp add: CO_EM_process_def set_errorRegister_def Let_def)
qed

text \<open>The SYNC object.\<close>

lemma sync_stages_env:
  assumes i: "em_inv (sync_em S)"
  shows "sync_em (fst (sync_advance S td)) = sync_em S" "sync_em (fst (sync_produce S p st tn)) = sync_em S"
    "sync_em (fst (sync_check_window S st)) = sync_em S"
    "wp (sync_check_timeout S p tn) (\<lambda>(S', _). hb_env_ok (sync_em S) (sync_em S'))"
    "wp (sync_check_receive S) (\<lambda>S'. hb_env_ok (sync_em S) (sync_em S'))"
    "wp (sync_reset_timeout S st) (\<lambda>S'. hb_env_ok (sync_em S) (sync_em S'))"
  using i hb_env_error [OF i, of CO_EM_SYNC_TIME_OUT] hb_env_error [OF i, of CO_EM_SYNC_LENGTH]
  by (simp_all add: sync_advance_eq sync_produce_def CO_SYNCsend_def sync_check_window_def sync_check_timeout_def
      sync_check_receive_def sync_reset_timeout_def CO_errorReport_eq CO_errorReset_eq err_bit_def hb_env_refl Let_def)

lemma CO_SYNC_process_env:
  assumes i: "em_inv (sync_em S)"
  shows "wp (CO_SYNC_process S pre td tn) (\<lambda>(_, S', _). hb_env_ok (sync_em S) (sync_em S'))"
proof -
  have last: "wp (sync_reset_timeout S' st) (\<lambda>S''. hb_env_ok (sync_em S) (sync_em S''))"
    if "hb_env_ok (sync_em S) (sync_em S')" for S' st
    by (rule wp_mono [OF sync_stages_env(6) [OF hb_env_inv [OF that]]]) (rule hb_env_trans [OF that])
  have recv: "wp (sync_check_receive S') (\<lambda>S''. hb_env_ok (sync_em S) (sync_em S''))"
    if "hb_env_ok (sync_em S) (sync_em S')" for S'
    by (rule wp_mono [OF sync_stages_env(5) [OF hb_env_inv [OF that]]]) (rule hb_env_trans [OF that])
  show ?thesis
  proof (cases pre)
    case True
    obtain S1 st1 tn1 where c: "sync_core S td tn = Some (S1, st1, tn1)" "hb_env_ok (sync_em S) (sync_em S1)"
    proof -
      let ?S = "S\<lparr>sync_timer := sync_elapsed S td, sync_CANrxNew := False\<rparr>"
      have e: "em_inv (sync_em ?S)" "sync_em ?S = sync_em S" using i by simp_all
      have "wp (sync_core S td tn) (\<lambda>(S', _). hb_env_ok (sync_em S) (sync_em S'))"
        using sync_stages_env(2,4) [OF e(1)] hb_env_refl [OF i] e
        by (simp add: sync_core_def sync_advance_eq case_prod_unfold Let_def)
      then show ?thesis using that by (auto simp: wp_ex)
    qed
    obtain S2 where r: "sync_check_receive (fst (sync_check_window S1 st1)) = Some S2" "hb_env_ok (sync_em S) (sync_em S2)"
      using recv [of "fst (sync_check_window S1 st1)"] c(2) sync_stages_env(3) [OF hb_env_inv [OF c(2)]] by (auto simp: wp_ex)
    have "CO_SYNC_process S True td tn =
        do { S \<leftarrow> sync_reset_timeout S2 (snd (sync_check_window S1 st1)); Some (snd (sync_check_window S1 st1), S, tn1) }"
      using c(1) r(1) by (simp add: CO_SYNC_process_def sync_core_def Let_def case_prod_beta split: if_splits bind_splits)
    then show ?thesis using True last [OF r(2)] by simp
  next
    case False
    then show ?thesis using last [of "S\<lparr>sync_CANrxNew := False, receiveError := 0, sync_counter := 0, sync_timer := 0\<rparr>"] i
      by (simp add: CO_SYNC_process_def hb_env_refl)
  qed
qed

text \<open>The PDOs: a call keeps the invariant of the object, and reports only its own errors.\<close>

definition pdo_quiet :: "'a CO_PDO_common_scheme \<Rightarrow> 'a CO_PDO_common_scheme \<Rightarrow> bool" where
  "pdo_quiet P P' \<longleftrightarrow> hb_env_ok (pdo_em P) (pdo_em P')"

lemma pdo_quiet_trans: "pdo_quiet P Q \<Longrightarrow> pdo_quiet Q R \<Longrightarrow> pdo_quiet P R"
  using hb_env_trans by (auto simp: pdo_quiet_def)

lemma pdo_quiet_kept: "pdo_kept P P' \<Longrightarrow> em_inv (pdo_em P) \<Longrightarrow> pdo_quiet P P'"
proof -
  assume k: "pdo_kept P P'" and i: "em_inv (pdo_em P)"
  obtain m where m: "pdo_em P' = (pdo_em P)\<lparr>em_mem := m\<rparr>" using k by (auto simp: pdo_kept_def)
  show ?thesis unfolding pdo_quiet_def m using i by (intro hb_env_bits) simp_all
qed

lemma pdo_quiet_error:
  "em_inv (pdo_em P) \<Longrightarrow> b \<in> {CO_EM_RPDO_WRONG_LENGTH, CO_EM_RPDO_TIME_OUT} \<Longrightarrow>
   hb_env_ok (pdo_em P) (error_result (pdo_em P) v b code info)"
  by (rule hb_env_error) (auto simp: err_bit_def)

lemma rpdo_length_error_quiet: "rpdo_inv R \<Longrightarrow> wp (rpdo_length_error R) (pdo_quiet R)"
  using pdo_quiet_error [OF rpdo_inv_em, of R]
  by (simp add: rpdo_length_error_def Let_def CO_error_eq rpdo_inv_em pdo_quiet_def hb_env_refl)

lemma rpdo_timeout_quiet: "rpdo_inv R \<Longrightarrow> wp (rpdo_timeout R q td tn) (\<lambda>x. pdo_quiet R (fst x))"
  using pdo_quiet_error [OF rpdo_inv_em, of R]
  by (simp add: rpdo_timeout_def Let_def CO_errorReport_eq CO_errorReset_eq rpdo_inv_em pdo_quiet_def hb_env_refl)

lemma rpdo_take_quiet:
  assumes "rpdo_inv R" "bufNo < 2"
  shows "wp (rpdo_take R bufNo) (pdo_quiet R)"
proof -
  define d where "d = rpdo_CANrxData R ! bufNo"
  have data: "length (rpdo_CANrxData R) = 2" "length d = 8"
    using assms by (auto simp: rpdo_inv_def d_def map_eq_Cons_conv less_2_cases_iff)
  define R0 where "R0 = R\<lparr>rpdo_CANrxNew := (rpdo_CANrxNew R)[bufNo := False]\<rparr>"
  have R0: "pdo_inv R0" "pdo_em R0 = pdo_em R" using assms(1) by (simp_all add: R0_def rpdo_inv_def)
  obtain v R1 where c: "rpdo_copy 0 0 0 d R0 = Some (v, R1)" "pdo_inv R1" "pdo_kept R0 R1"
    using rpdo_copy_inv [of R0 0 0 d] R0(1) data(2) by (auto simp: wp_ex)
  have q: "pdo_quiet R R1"
    using pdo_quiet_kept [OF c(3)] pdo_inv_em [OF R0(1)] R0(2) by (simp add: pdo_quiet_def)
  have "hb_env_ok (pdo_em R) (error_result (pdo_em R1) True CO_EM_GENERIC_SOFTWARE_ERROR CO_EMC_SOFTWARE_INTERNAL i)" for i
    by (rule hb_env_trans [OF q [unfolded pdo_quiet_def] hb_env_error [OF pdo_inv_em [OF c(2)]]]) (simp add: err_bit_def)
  then show ?thesis using q data(1) assms(2) c(1) pdo_inv_em [OF c(2)]
    by (simp add: rpdo_take_def R0_def d_def CO_errorReport_eq pdo_quiet_def)
qed

lemma CO_RPDO_process_quiet:
  assumes R: "rpdo_inv R"
  shows "wp (CO_RPDO_process R sy td tn oper sw) (\<lambda>x. pdo_quiet R (fst x))"
proof (cases "pdo_valid R \<and> oper \<and> (sw \<or> \<not> synchronous R)")
  case True
  obtain R1 where R1: "rpdo_length_error R = Some R1" "rpdo_inv R1" "pdo_quiet R R1"
    using rpdo_length_error_inv [OF R] rpdo_length_error_quiet [OF R] by (auto simp: wp_ex)
  define k where "k = rpdo_process_buf R1 sy"
  have k: "k < 2" "k < length (rpdo_CANrxNew R1)" using R1(2) by (simp_all add: k_def rpdo_process_buf_def rpdo_inv_def)
  obtain R2 where R2: "(if rpdo_CANrxNew R1 ! k then rpdo_take R1 k else Some R1) = Some R2" "rpdo_inv R2" "pdo_quiet R R2"
  proof (cases "rpdo_CANrxNew R1 ! k")
    case True
    then show ?thesis using that rpdo_take_inv [OF R1(2) k(1)] rpdo_take_quiet [OF R1(2) k(1)] pdo_quiet_trans [OF R1(3)]
      by (auto simp: wp_ex)
  next
    case False
    then show ?thesis using that R1 by simp
  qed
  have "CO_RPDO_process R sy td tn oper sw =
      (if rpdo_CANrxNew R1 ! k then rpdo_take R1 k else Some R1) \<bind> (\<lambda>R. rpdo_timeout R (rpdo_CANrxNew R1 ! k) td tn)"
    using True R1(1) k(2) by (simp add: CO_RPDO_process_def Let_def flip: k_def)
  then have "CO_RPDO_process R sy td tn oper sw = rpdo_timeout R2 (rpdo_CANrxNew R1 ! k) td tn"
    by (simp only: R2(1) Option.bind.simps)
  then show ?thesis using wp_mono [OF rpdo_timeout_quiet [OF R2(2)]] pdo_quiet_trans [OF R2(3)] by auto
next
  case False
  then show ?thesis using R by (auto simp: CO_RPDO_process_def pdo_quiet_def intro: hb_env_refl rpdo_inv_em)
qed

lemma tpdo_inv_em: "tpdo_inv T \<Longrightarrow> em_inv (pdo_em T)"
  by (simp add: tpdo_inv_def pdo_inv_em)

lemma CO_TPDOsend_quiet:
  assumes T: "tpdo_inv T"
  shows "wp (CO_TPDOsend T) (pdo_quiet T)"
proof -
  obtain v T1 where c: "tpdo_collect 0 0 0 T = Some (v, T1)" "pdo_inv T1" "pdo_kept T T1"
    using tpdo_collect_inv [of T 0 0] T by (auto simp: wp_ex tpdo_inv_def tpdo_same_def)
  have q: "pdo_quiet T T1" by (rule pdo_quiet_kept [OF c(3) tpdo_inv_em [OF T]])
  have "hb_env_ok (pdo_em T) (error_result (pdo_em T1) True CO_EM_GENERIC_SOFTWARE_ERROR CO_EMC_SOFTWARE_INTERNAL i)" for i
    by (rule hb_env_trans [OF q [unfolded pdo_quiet_def] hb_env_error [OF pdo_inv_em [OF c(2)]]]) (simp add: err_bit_def)
  then show ?thesis using q c(1) pdo_inv_em [OF c(2)]
    by (simp add: CO_TPDOsend_def CO_errorReport_eq pdo_quiet_def Let_def)
qed

lemma CO_TPDO_process_quiet:
  assumes T: "tpdo_inv T"
  shows "wp (CO_TPDO_process T sy td tn oper sw) (\<lambda>x. pdo_quiet T (fst x))"
proof -
  have send: "wp (CO_TPDOsend U) (pdo_quiet T)" if "tpdo_inv U" "pdo_em U = pdo_em T" for U
    by (rule wp_mono [OF CO_TPDOsend_quiet [OF that(1)]]) (simp add: pdo_quiet_def that(2))
  have refl: "pdo_quiet T U" if "pdo_em U = pdo_em T" for U
    using that tpdo_inv_em [OF T] by (simp add: pdo_quiet_def hb_env_refl)
  obtain q tn1 where tr: "tpdo_triggers T td tn = Some (T\<lparr>eventTimer := event_time T td, sendRequest := q\<rparr>, tn1)"
    using tpdo_triggers_ok [OF T, of td tn] by auto
  define T0 where "T0 = T\<lparr>eventTimer := event_time T td, sendRequest := q\<rparr>"
  have T0: "tpdo_inv T0" "pdo_em T0 = pdo_em T" using T by (simp_all add: T0_def)
  have "wp (tpdo_event_send T0 td tn1) (\<lambda>x. pdo_quiet T (fst x))"
    using send [of "T0\<lparr>inhibitTimer := _\<rparr>"] refl T0 by (simp add: tpdo_event_send_def Let_def)
  moreover have "wp (tpdo_sync_send T0 S) (pdo_quiet T)" for S
    using send refl T0 by (simp add: tpdo_sync_send_def Let_def)
  ultimately show ?thesis using tr refl T0 by (simp add: CO_TPDO_process_def T0_def [symmetric] split: option.split)
qed

section \<open>Loops over the objects\<close>

text \<open>
  The contract of an object that is called with the shared state: loading a good shared state keeps the
  invariant of the object, and a call leaves both good.
\<close>

locale shared_object =
  fixes load :: "em \<Rightarrow> OD_t \<Rightarrow> 's \<Rightarrow> 's"
    and store :: "em \<Rightarrow> 's \<Rightarrow> em \<times> OD_t"
    and proc :: "'s \<Rightarrow> u32 option \<Rightarrow> ('s \<times> u32 option) option"
    and inv :: "'s \<Rightarrow> bool"
  assumes proc_ok: "inv x \<Longrightarrow> em_inv em \<Longrightarrow> od_bounded od \<Longrightarrow>
    wp (proc (load em od x) tn) (\<lambda>(x', _). inv x' \<and> hb_env_ok em (fst (store em x')) \<and> od_bounded (snd (store em x')))"
begin

lemma each_ok:
  "list_all inv xs \<Longrightarrow> em_inv em \<Longrightarrow> od_bounded od \<Longrightarrow>
   wp (each_object load store proc em od tn xs)
     (\<lambda>(em', od', _, xs'). hb_env_ok em em' \<and> od_bounded od' \<and> list_all inv xs' \<and> length xs' = length xs)"
proof (induction xs arbitrary: em od tn)
  case Nil
  then show ?case by (simp add: hb_env_refl)
next
  case (Cons x xs)
  obtain x' tn' em' od' where p: "proc (load em od x) tn = Some (x', tn')" "inv x'" "store em x' = (em', od')"
      "hb_env_ok em em'" "od_bounded od'"
    using proc_ok [of x em od tn] Cons.prems by (auto simp: wp_ex) (metis prod.collapse)
  have "wp (each_object load store proc em' od' tn' xs)
      (\<lambda>(em'', od'', _, xs'). hb_env_ok em em'' \<and> od_bounded od'' \<and> list_all inv xs' \<and> length xs' = length xs)"
    using Cons.prems(1) p(5) by (intro wp_mono [OF Cons.IH [OF _ hb_env_inv [OF p(4)]]]) (auto intro: hb_env_trans [OF p(4)])
  then show ?case using p(1-3) by (auto simp: wp_ex)
qed

end

lemma sdo_load_inv: "sdo_inv s \<Longrightarrow> od_bounded od \<Longrightarrow> sdo_inv (sdo_load em od s)"
  by (cases "state s") (simp_all add: sdo_load_def sdo_inv_def sdo_base_def state_ok_def upload_ok_def blksize_ok_def)

lemma pdo_load_inv: "pdo_inv P \<Longrightarrow> em_inv em \<Longrightarrow> od_bounded od \<Longrightarrow> pdo_inv (pdo_load em od P)"
  by (auto simp: pdo_load_def pdo_inv_def pdo_frame_def pdo_enabled_def)

lemma pdo_load_fields:
  "pdo_em (pdo_load em od P) = em" "pdo_OD (pdo_load em od P) = od" "pdo_valid (pdo_load em od P) = pdo_valid P"
  "pdo_dataLength (pdo_load em od P) = pdo_dataLength P" "CO_PDO_common.more (pdo_load em od P) = CO_PDO_common.more P"
  by (simp_all add: pdo_load_def)

lemma rpdo_load_inv: "rpdo_inv R \<Longrightarrow> em_inv em \<Longrightarrow> od_bounded od \<Longrightarrow> rpdo_inv (pdo_load em od R)"
  using pdo_load_inv [of R em od] rpdo_more_inv [of R "pdo_load em od R"] by (simp add: rpdo_inv_def pdo_load_fields)

lemma tpdo_load_inv: "tpdo_inv T \<Longrightarrow> em_inv em \<Longrightarrow> od_bounded od \<Longrightarrow> tpdo_inv (pdo_load em od T)"
  using pdo_load_inv [of T em od] tpdo_more_inv [of T "pdo_load em od T"] by (simp add: tpdo_inv_def pdo_load_fields)

lemma pdo_inv_bounded: "pdo_inv P \<Longrightarrow> od_bounded (pdo_OD P)"
  by (simp add: pdo_inv_def pdo_frame_def)

interpretation sdo_each: shared_object sdo_load sdo_store
    "\<lambda>s tn. map_option (\<lambda>(_, tn, s). (s, tn)) (CO_SDOserver_process s pre td tn)" sdo_inv
  for pre td
proof unfold_locales
  fix s em od tn
  assume s: "sdo_inv s" "em_inv em" "od_bounded od"
  show "wp (map_option (\<lambda>(_, tn, s). (s, tn)) (CO_SDOserver_process (sdo_load em od s) pre td tn))
      (\<lambda>(x', _). sdo_inv x' \<and> hb_env_ok em (fst (sdo_store em x')) \<and> od_bounded (snd (sdo_store em x')))"
    using CO_SDOserver_process_ok [OF sdo_load_inv [OF s(1,3)], of em pre td tn] s(2)
    by (auto simp: wp_ex sdo_store_def sdo_inv_def sdo_base_def intro!: hb_env_bits)
qed

interpretation rpdo_each: shared_object pdo_load pdo_store "\<lambda>R tn. CO_RPDO_process R sy td tn oper sw" rpdo_inv
  for sy td oper sw
proof unfold_locales
  fix R em od tn
  assume a: "rpdo_inv R" "em_inv em" "od_bounded od"
  note R = rpdo_load_inv [OF a]
  show "wp (CO_RPDO_process (pdo_load em od R) sy td tn oper sw)
      (\<lambda>(x', _). rpdo_inv x' \<and> hb_env_ok em (fst (pdo_store em x')) \<and> od_bounded (snd (pdo_store em x')))"
    using CO_RPDO_process_inv [OF R, of sy td tn oper sw] CO_RPDO_process_quiet [OF R, of sy td tn oper sw]
    by (auto simp: wp_ex pdo_quiet_def pdo_store_def pdo_load_fields rpdo_inv_def pdo_inv_bounded)
qed

interpretation tpdo_each: shared_object pdo_load pdo_store "\<lambda>T tn. CO_TPDO_process T sy td tn oper sw" tpdo_inv
  for sy td oper sw
proof unfold_locales
  fix T em od tn
  assume a: "tpdo_inv T" "em_inv em" "od_bounded od"
  note T = tpdo_load_inv [OF a]
  show "wp (CO_TPDO_process (pdo_load em od T) sy td tn oper sw)
      (\<lambda>(x', _). tpdo_inv x' \<and> hb_env_ok em (fst (pdo_store em x')) \<and> od_bounded (snd (pdo_store em x')))"
    using CO_TPDO_process_inv [OF T, of sy td tn oper sw] CO_TPDO_process_quiet [OF T, of sy td tn oper sw]
    by (auto simp: wp_ex pdo_quiet_def pdo_store_def pdo_load_fields tpdo_inv_def pdo_inv_bounded)
qed

section \<open>The invariant of the node\<close>

definition node_inv :: "CO_t \<Rightarrow> bool" where
  "node_inv co \<longleftrightarrow> em_inv (co_em co) \<and> od_bounded (co_OD co) \<and> nmt_inv (co_NMT co) \<and>
     pred_option (\<lambda>L. lss_inv (activeNodeID L) L \<and> (nodeIdUnconfigured co \<longleftrightarrow> activeNodeID L = CO_LSS_NODE_ID_ASSIGNMENT))
       (co_LSSslave co) \<and>
     list_all sdo_inv (co_SDOserver co) \<and> pred_option (\<lambda>hb. hb_good (hb\<lparr>hb_em := co_em co\<rparr>)) (co_HBcons co) \<and>
     list_all rpdo_inv (co_RPDO co) \<and> list_all tpdo_inv (co_TPDO co)"

lemmas node_invD = node_inv_def [THEN iffD1]

text \<open>A change of the shared state by another object than the heartbeat consumer.\<close>

lemma node_inv_env:
  assumes "node_inv co" "hb_env_ok (co_em co) em" "od_bounded od"
  shows "node_inv (co\<lparr>co_em := em, co_OD := od\<rparr>)" "node_inv (co\<lparr>co_em := em\<rparr>)"
proof -
  have "pred_option (\<lambda>hb. hb_good (hb\<lparr>hb_em := em\<rparr>)) (co_HBcons co)"
    using assms(1,2) hb_env_good [of "hb\<lparr>hb_em := co_em co\<rparr>" em for hb] by (cases "co_HBcons co") (simp_all add: node_inv_def)
  then show "node_inv (co\<lparr>co_em := em, co_OD := od\<rparr>)" "node_inv (co\<lparr>co_em := em\<rparr>)"
    using assms hb_env_inv by (simp_all add: node_inv_def)
qed

lemma process_LSSslave_inv:
  assumes "node_inv co"
  shows "wp (process_LSSslave co) (\<lambda>(r, co'). node_inv co' \<and> (r \<longrightarrow> nodeIdUnconfigured co) \<and>
    co' = co\<lparr>co_LSSslave := co_LSSslave co'\<rparr>)"
proof (cases "co_LSSslave co")
  case None
  then show ?thesis using assms by (simp add: process_LSSslave_def)
next
  case (Some L)
  then have L: "lss_inv (activeNodeID L) L" "nodeIdUnconfigured co \<longleftrightarrow> activeNodeID L = CO_LSS_NODE_ID_ASSIGNMENT"
    using assms by (simp_all add: node_inv_def)
  from CO_LSSslave_process_inv [OF L(1)] obtain r L' where p: "CO_LSSslave_process L = Some (r, L')" "lss_inv (activeNodeID L) L'"
      "r \<longrightarrow> activeNodeID L = CO_LSS_NODE_ID_ASSIGNMENT"
    by (auto simp: wp_ex)
  have "activeNodeID L' = activeNodeID L" using p(2) by (simp add: lss_inv_def)
  then show ?thesis using Some assms p L by (simp add: process_LSSslave_def node_inv_def)
qed

lemma process_LEDs_inv:
  "node_inv co \<Longrightarrow> node_inv (snd (process_LEDs co st td tn))"
  "snd (process_LEDs co st td tn) = co\<lparr>co_LEDs := co_LEDs (snd (process_LEDs co st td tn))\<rparr>"
  by (simp_all add: process_LEDs_def node_inv_def case_prod_unfold Let_def split: option.split)

lemma process_EM_inv:
  assumes "node_inv co"
  shows "wp (process_EM co pre td tn) (\<lambda>(_, co'). node_inv co' \<and> hb_env_ok (co_em co) (co_em co') \<and> co' = co\<lparr>co_em := co_em co'\<rparr>)"
proof -
  have i: "em_inv (co_em co)" "od_bounded (co_OD co)" using assms by (simp_all add: node_inv_def)
  then obtain em tn' where p: "CO_EM_process (co_em co) pre td tn = Some (em, tn')" "hb_env_ok (co_em co) em"
    using CO_EM_process_env [OF i(1), of pre td tn] by (auto simp: wp_ex)
  then show ?thesis using node_inv_env(2) [OF assms p(2) i(2)] by (simp add: process_EM_def)
qed

lemma process_NMT_inv:
  fixes co :: CO_t
  defines "NMT \<equiv> (co_NMT co)\<lparr>nmt_mem := em_mem (co_em co)\<rparr>"
  assumes "node_inv co"
  shows "\<exists>tn' co'. process_NMT co td tn = (fst (CO_NMT_process NMT (co_em co) td tn), operatingState (co_NMT co'), tn', co') \<and>
    node_inv co' \<and> co' = co\<lparr>co_NMT := nmt_after NMT (co_em co) td tn\<rparr>"
proof -
  have "nmt_inv NMT" using assms by (simp add: node_inv_def nmt_inv_def)
  from CO_NMT_process_inv [OF this] have "nmt_inv (nmt_after NMT (co_em co) td tn)" .
  then have "node_inv (co\<lparr>co_NMT := nmt_after NMT (co_em co) td tn\<rparr>)" using assms(2) by (simp add: node_inv_def)
  then show ?thesis using CO_NMT_process_reset(2) [of NMT "co_em co" td tn]
    by (simp add: process_NMT_def case_prod_unfold Let_def flip: NMT_def)
qed

lemma process_SDOserver_inv:
  assumes "node_inv co"
  shows "wp (process_SDOserver co pre td tn) (\<lambda>(_, co'). node_inv co' \<and> hb_env_ok (co_em co) (co_em co') \<and>
    co' = co\<lparr>co_em := co_em co', co_OD := co_OD co', co_SDOserver := co_SDOserver co'\<rparr>)"
proof -
  have i: "list_all sdo_inv (co_SDOserver co)" "em_inv (co_em co)" "od_bounded (co_OD co)" using assms by (simp_all add: node_inv_def)
  obtain em od tn' ss where e: "each_object sdo_load sdo_store (\<lambda>s tn. map_option (\<lambda>(_, tn, s). (s, tn)) (CO_SDOserver_process s pre td tn))
         (co_em co) (co_OD co) tn (co_SDOserver co) = Some (em, od, tn', ss)" "hb_env_ok (co_em co) em" "od_bounded od" "list_all sdo_inv ss"
    using sdo_each.each_ok [OF i, of pre td tn] by (auto simp: wp_ex)
  have "node_inv (co\<lparr>co_em := em, co_OD := od, co_SDOserver := ss\<rparr>)"
    using node_inv_env(1) [OF assms e(2,3)] e(4) by (simp add: node_inv_def)
  then show ?thesis using e by (simp add: process_SDOserver_def)
qed

lemma process_TIME_inv: "node_inv co \<Longrightarrow> node_inv (process_TIME co pre td)"
  by (simp add: process_TIME_def node_inv_def split: option.split)

lemma process_TIME_fields: "process_TIME co pre td = co\<lparr>co_TIME := co_TIME (process_TIME co pre td)\<rparr>"
  by (simp add: process_TIME_def split: option.split)

lemma process_HBcons_inv:
  assumes "node_inv co"
  shows "wp (process_HBcons co pre td tn) (\<lambda>(_, co'). node_inv co' \<and> co' = co\<lparr>co_em := co_em co', co_HBcons := co_HBcons co'\<rparr>)"
proof (cases "co_HBcons co")
  case None
  then show ?thesis using assms by (simp add: process_HBcons_def)
next
  case (Some hb)
  then have "hb_good (hb\<lparr>hb_em := co_em co\<rparr>)" using assms by (simp add: node_inv_def)
  from CO_HBconsumer_process_good [OF this, of pre td tn] obtain hb' tn' where
      p: "CO_HBconsumer_process (hb\<lparr>hb_em := co_em co\<rparr>) pre td tn = Some (hb', tn')" "hb_good hb'"
    by (auto simp: wp_ex)
  then show ?thesis using assms Some by (simp add: process_HBcons_def node_inv_def hb_good_def hb_inv_def)
qed

section \<open>The calls keep the invariant\<close>

lemma process_configured_inv:
  assumes "node_inv co"
  shows "wp (process_configured co pre td tn) (\<lambda>(_, _, co'). node_inv co' \<and> nodeIdUnconfigured co' = nodeIdUnconfigured co)"
proof -
  obtain tn1 co1 where 1: "process_EM co pre td tn = Some (tn1, co1)" "node_inv co1" "co1 = co\<lparr>co_em := co_em co1\<rparr>"
    using process_EM_inv [OF assms, of pre td tn] by (auto simp: wp_ex)
  obtain reset st tn2 co2 where 2: "process_NMT co1 td tn1 = (reset, st, tn2, co2)" "node_inv co2" "co2 = co1\<lparr>co_NMT := co_NMT co2\<rparr>"
    using process_NMT_inv [OF 1(2), of td tn1] by auto
  obtain tn3 co3 where 3: "process_SDOserver co2 (is_PreOrOperational st) td tn2 = Some (tn3, co3)" "node_inv co3"
      "co3 = co2\<lparr>co_em := co_em co3, co_OD := co_OD co3, co_SDOserver := co_SDOserver co3\<rparr>"
    using process_SDOserver_inv [OF 2(2), of "is_PreOrOperational st" td tn2] by (auto simp: wp_ex)
  obtain tn4 co4 where 4: "process_HBcons co3 (is_PreOrOperational st) td tn3 = Some (tn4, co4)" "node_inv co4"
      "co4 = co3\<lparr>co_em := co_em co4, co_HBcons := co_HBcons co4\<rparr>"
    using process_HBcons_inv [OF 3(2), of "is_PreOrOperational st" td tn3] by (auto simp: wp_ex)
  have u: "nodeIdUnconfigured co1 = nodeIdUnconfigured co" "nodeIdUnconfigured co2 = nodeIdUnconfigured co1"
    "nodeIdUnconfigured co3 = nodeIdUnconfigured co2" "nodeIdUnconfigured co4 = nodeIdUnconfigured co3"
    "nodeIdUnconfigured (process_TIME co4 p td) = nodeIdUnconfigured co4" for p
    by (subst 1(3), simp) (subst 2(3), simp, subst 3(3), simp, subst 4(3), simp, subst process_TIME_fields, simp)
  have "process_configured co pre td tn = Some (reset, tn4, process_TIME co4 (is_PreOrOperational st) td)"
    using 1(1) 2(1) 3(1) 4(1) by (simp add: process_configured_def)
  then show ?thesis using process_TIME_inv [OF 4(2)] u by simp
qed

lemma node_inv_status: "node_inv co \<Longrightarrow> node_inv (co\<lparr>co_em := (co_em co)\<lparr>CANerrorStatus := c\<rparr>\<rparr>)"
  by (rule node_inv_env(2)) (auto simp: node_inv_def intro: hb_env_bits)

lemma CO_process_inv:
  assumes "node_inv co"
  shows "wp (CO_process status co td tn) (\<lambda>(_, _, co'). node_inv co' \<and> nodeIdUnconfigured co' = nodeIdUnconfigured co)"
proof -
  define co0 where "co0 = co\<lparr>co_em := (co_em co)\<lparr>CANerrorStatus := status\<rparr>\<rparr>"
  have i0: "node_inv co0" unfolding co0_def by (rule node_inv_status [OF assms])
  obtain r co1 where 1: "process_LSSslave co0 = Some (r, co1)" "node_inv co1" "co1 = co0\<lparr>co_LSSslave := co_LSSslave co1\<rparr>"
    using process_LSSslave_inv [OF i0] by (auto simp: wp_ex)
  define st where "st = CO_NMT_getInternalState (co_NMT co)"
  obtain tn2 co2 where 2: "process_LEDs co1 st td tn = (tn2, co2)" "node_inv co2" "co2 = co1\<lparr>co_LEDs := co_LEDs co2\<rparr>"
    using process_LEDs_inv [of co1 st td tn] 1(2) by (cases "process_LEDs co1 st td tn") auto
  have "nodeIdUnconfigured co1 = nodeIdUnconfigured co" by (subst 1(3)) (simp add: co0_def)
  moreover have "nodeIdUnconfigured co2 = nodeIdUnconfigured co1" by (subst 2(3)) simp
  ultimately have u: "nodeIdUnconfigured co2 = nodeIdUnconfigured co" by simp
  have "CO_process status co td tn = (if nodeIdUnconfigured co2 then Some (if r then CO_RESET_COMM else CO_RESET_NOT, tn2, co2)
      else process_configured co2 (is_PreOrOperational st) td tn2)"
    using 1(1) 2(1) by (simp add: CO_process_def Let_def flip: st_def co0_def)
  then show ?thesis
    using 2(2) process_configured_inv [OF 2(2), of "is_PreOrOperational st" td tn2] u
    by (cases "nodeIdUnconfigured co") simp_all
qed

lemma CO_process_SYNC_inv:
  assumes "node_inv co"
  shows "wp (CO_process_SYNC co td tn) (\<lambda>(_, _, co'). node_inv co' \<and> hb_env_ok (co_em co) (co_em co') \<and>
    co' = co\<lparr>co_em := co_em co', co_SYNC := co_SYNC co'\<rparr>)"
proof (cases "co_SYNC co")
  case None
  then show ?thesis using assms by (simp add: CO_process_SYNC_def node_inv_def hb_env_refl)
next
  case (Some S)
  have i: "em_inv (co_em co)" "od_bounded (co_OD co)" using assms by (simp_all add: node_inv_def)
  obtain st S' tn' where p: "CO_SYNC_process (S\<lparr>sync_em := co_em co\<rparr>) (is_PreOrOperational (CO_NMT_getInternalState (co_NMT co))) td tn =
      Some (st, S', tn')" "hb_env_ok (co_em co) (sync_em S')"
    using CO_SYNC_process_env [of "S\<lparr>sync_em := co_em co\<rparr>"] i(1) by (fastforce simp: wp_ex)
  have "node_inv (co\<lparr>co_SYNC := Some S', co_em := sync_em S'\<rparr>)"
    using node_inv_env(2) [OF assms p(2) i(2)] by (simp add: node_inv_def)
  then show ?thesis using Some p assms i by (simp add: CO_process_SYNC_def hb_env_refl)
qed

lemma CO_process_RPDO_inv:
  assumes "node_inv co"
  shows "wp (CO_process_RPDO co sw td tn) (\<lambda>(_, co'). node_inv co' \<and> hb_env_ok (co_em co) (co_em co') \<and>
    co' = co\<lparr>co_em := co_em co', co_OD := co_OD co', co_RPDO := co_RPDO co'\<rparr>)"
proof -
  have i: "list_all rpdo_inv (co_RPDO co)" "em_inv (co_em co)" "od_bounded (co_OD co)" using assms by (simp_all add: node_inv_def)
  obtain em od tn' rs where e: "each_object pdo_load pdo_store (\<lambda>R tn. CO_RPDO_process R (co_SYNC co) td tn (is_Operational co) sw)
         (co_em co) (co_OD co) tn (co_RPDO co) = Some (em, od, tn', rs)" "hb_env_ok (co_em co) em" "od_bounded od" "list_all rpdo_inv rs"
    using rpdo_each.each_ok [OF i, of "co_SYNC co" td "is_Operational co" sw tn] by (auto simp: wp_ex)
  have "node_inv (co\<lparr>co_em := em, co_OD := od, co_RPDO := rs\<rparr>)"
    using node_inv_env(1) [OF assms e(2,3)] e(4) by (simp add: node_inv_def)
  then show ?thesis using e assms i by (simp add: CO_process_RPDO_def hb_env_refl)
qed

lemma CO_process_TPDO_inv:
  assumes "node_inv co"
  shows "wp (CO_process_TPDO co sw td tn) (\<lambda>(_, co'). node_inv co' \<and> hb_env_ok (co_em co) (co_em co') \<and>
    co' = co\<lparr>co_em := co_em co', co_OD := co_OD co', co_TPDO := co_TPDO co'\<rparr>)"
proof -
  have i: "list_all tpdo_inv (co_TPDO co)" "em_inv (co_em co)" "od_bounded (co_OD co)" using assms by (simp_all add: node_inv_def)
  obtain em od tn' ts where e: "each_object pdo_load pdo_store (\<lambda>T tn. CO_TPDO_process T (co_SYNC co) td tn (is_Operational co) sw)
         (co_em co) (co_OD co) tn (co_TPDO co) = Some (em, od, tn', ts)" "hb_env_ok (co_em co) em" "od_bounded od" "list_all tpdo_inv ts"
    using tpdo_each.each_ok [OF i, of "co_SYNC co" td "is_Operational co" sw tn] by (auto simp: wp_ex)
  have "node_inv (co\<lparr>co_em := em, co_OD := od, co_TPDO := ts\<rparr>)"
    using node_inv_env(1) [OF assms e(2,3)] e(4) by (simp add: node_inv_def)
  then show ?thesis using e assms i by (simp add: CO_process_TPDO_def hb_env_refl)
qed

text \<open>The objects that the process image does not concern.\<close>

definition image_only :: "CO_t \<Rightarrow> CO_t \<Rightarrow> bool" where
  "image_only co co' \<longleftrightarrow> hb_env_ok (co_em co) (co_em co') \<and> co_NMT co' = co_NMT co \<and> co_HBcons co' = co_HBcons co \<and>
     co_LSSslave co' = co_LSSslave co \<and> nodeIdUnconfigured co' = nodeIdUnconfigured co"

lemma image_only_trans: "image_only a b \<Longrightarrow> image_only b c \<Longrightarrow> image_only a c"
  using hb_env_trans by (auto simp: image_only_def)

lemma image_onlyI:
  "hb_env_ok (co_em co) (co_em co') \<Longrightarrow> co' = co\<lparr>co_em := e, co_SYNC := s\<rparr> \<Longrightarrow> image_only co co'"
  "hb_env_ok (co_em co) (co_em co') \<Longrightarrow> co' = co\<lparr>co_em := e, co_OD := od, co_RPDO := r\<rparr> \<Longrightarrow> image_only co co'"
  "hb_env_ok (co_em co) (co_em co') \<Longrightarrow> co' = co\<lparr>co_em := e, co_OD := od, co_TPDO := t\<rparr> \<Longrightarrow> image_only co co'"
  by (simp_all add: image_only_def)

lemma CO_epoll_processRT_inv:
  assumes "node_inv co"
  shows "wp (CO_epoll_processRT normal co td tn) (\<lambda>(_, co'). node_inv co' \<and> image_only co co')"
proof -
  obtain sw tn1 co1 where 1: "CO_process_SYNC co td tn = Some (sw, tn1, co1)" "node_inv co1" "image_only co co1"
    using CO_process_SYNC_inv [OF assms, of td tn] by (auto simp: wp_ex dest: image_onlyI)
  obtain tn2 co2 where 2: "CO_process_RPDO co1 sw td tn1 = Some (tn2, co2)" "node_inv co2" "image_only co1 co2"
    using CO_process_RPDO_inv [OF 1(2), of sw td tn1] by (auto simp: wp_ex dest: image_onlyI)
  obtain tn3 co3 where 3: "CO_process_TPDO co2 sw td tn2 = Some (tn3, co3)" "node_inv co3" "image_only co2 co3"
    using CO_process_TPDO_inv [OF 2(2), of sw td tn2] by (auto simp: wp_ex dest: image_onlyI)
  have "image_only co co" using assms by (simp add: image_only_def node_inv_def hb_env_refl)
  moreover have "image_only co co3" using 1(3) 2(3) 3(3) by (blast intro: image_only_trans)
  ultimately show ?thesis using assms 1 2 3 by (simp add: CO_epoll_processRT_def)
qed

section \<open>The node as a system of events\<close>

text \<open>
  A message that the driver has received, for the object whose identifier it has; the two calls of the
  event loop; the state of the driver's transmit buffers; an error reported or withdrawn by the application (in
  its range of conditions) and a request for a TPDO. The data of a message are in a buffer of eight bytes.
\<close>

datatype rx_object = Rx_NMT | Rx_HB nat | Rx_SYNC | Rx_TIME | Rx_LSS | Rx_SDO nat | Rx_RPDO nat

datatype node_event =
    Node_process u16 u32 "u32 option"
  | Node_processRT bool u32 "u32 option"
  | Node_receive rx_object "u8 list"
  | Node_bufferFull nat bool
  | Node_error bool u8 u16 u32
  | Node_sendRequest nat

definition can_data :: "u8 list \<Rightarrow> u8 list" where
  "can_data d = take 8 (d @ replicate 8 0)"

fun node_receive :: "rx_object \<Rightarrow> u8 list \<Rightarrow> CO_t \<Rightarrow> CO_t option" where
  "node_receive Rx_NMT d co = Some (co\<lparr>co_NMT := CO_NMT_receive (co_NMT co) (length d) (can_data d)\<rparr>)"
| "node_receive (Rx_HB i) d co =
     (case co_HBcons co of
        None \<Rightarrow> Some co
      | Some hb \<Rightarrow> map_option (\<lambda>hb. co\<lparr>co_HBcons := Some hb\<rparr>) (hb_step (Hb_receive i (length d) (can_data d)) hb))"
| "node_receive Rx_SYNC d co =
     Some (co\<lparr>co_SYNC := map_option (\<lambda>S. CO_SYNC_receive S (word_of_nat (length d)) (can_data d)) (co_SYNC co)\<rparr>)"
| "node_receive Rx_TIME d co = Some (co\<lparr>co_TIME := map_option (\<lambda>T. CO_TIME_receive T (length d) (can_data d)) (co_TIME co)\<rparr>)"
| "node_receive Rx_LSS d co =
     Some (co\<lparr>co_LSSslave := map_option (\<lambda>L. CO_LSSslave_receive L (length d) (can_data d)) (co_LSSslave co)\<rparr>)"
| "node_receive (Rx_SDO i) d co =
     (if i < length (co_SDOserver co)
      then map_option (\<lambda>s. co\<lparr>co_SDOserver := (co_SDOserver co)[i := s]\<rparr>) (CO_SDO_receive (co_SDOserver co ! i) d)
      else Some co)"
| "node_receive (Rx_RPDO i) d co =
     (if i < length (co_RPDO co)
      then map_option (\<lambda>R. co\<lparr>co_RPDO := (co_RPDO co)[i := R]\<rparr>)
        (CO_PDO_receive (co_RPDO co ! i) (co_SYNC co) (word_of_nat (length d)) (can_data d))
      else Some co)"

fun node_step :: "node_event \<Rightarrow> CO_t \<Rightarrow> CO_t option" where
  "node_step (Node_process status td tn) co = map_option (\<lambda>(_, _, co). co) (CO_process status co td tn)"
| "node_step (Node_processRT normal td tn) co = map_option snd (CO_epoll_processRT normal co td tn)"
| "node_step (Node_receive r d) co = node_receive r d co"
| "node_step (Node_bufferFull i full) co =
     Some (if i < length (co_SDOserver co)
           then co\<lparr>co_SDOserver := (co_SDOserver co)[i := (co_SDOserver co ! i)\<lparr>CANtx_bufferFull := full\<rparr>]\<rparr> else co)"
| "node_step (Node_error v b code info) co =
     (if b \<ge> 0x30 then map_option (\<lambda>em. co\<lparr>co_em := em\<rparr>) (CO_error (co_em co) v b code info) else Some co)"
| "node_step (Node_sendRequest i) co =
     Some (if i < length (co_TPDO co) then co\<lparr>co_TPDO := (co_TPDO co)[i := CO_TPDOsendRequest (co_TPDO co ! i)]\<rparr> else co)"

lemma length_can_data [simp]: "length (can_data d) = 8"
  by (simp add: can_data_def)

lemma hb_receive_env:
  assumes "hb_good (hb\<lparr>hb_em := em\<rparr>)"
  shows "wp (hb_step (Hb_receive i n d) hb) (\<lambda>hb'. hb_good (hb'\<lparr>hb_em := em\<rparr>) \<and> hb_em hb' = hb_em hb)"
  using hbsys.step_ok [OF assms, of "Hb_receive i n d"]
  by (cases hb) (auto simp: wp_ex arr_get_def arr_set_def split: if_splits)

lemma node_receive_inv:
  assumes i: "node_inv co"
  shows "wp (node_receive r d co) node_inv"
proof (cases r)
  case Rx_NMT
  then show ?thesis using i nmt_inv_other(1) by (simp add: node_inv_def)
next
  case (Rx_HB k)
  show ?thesis
  proof (cases "co_HBcons co")
    case (Some hb)
    then have "hb_good (hb\<lparr>hb_em := co_em co\<rparr>)" using i by (simp add: node_inv_def)
    from hb_receive_env [OF this, of k "length d" "can_data d"] show ?thesis
      using Some Rx_HB i by (auto simp: wp_ex node_inv_def)
  qed (use Rx_HB i in simp)
next
  case Rx_LSS
  have "lss_inv (activeNodeID L) (CO_LSSslave_receive L (length d) (can_data d))"
    "activeNodeID (CO_LSSslave_receive L (length d) (can_data d)) = activeNodeID L" if "lss_inv (activeNodeID L) L" for L
    using CO_LSSslave_receive_inv [OF that, of "can_data d" "length d"] by (simp_all add: lss_inv_def)
  then show ?thesis using Rx_LSS i by (cases "co_LSSslave co") (simp_all add: node_inv_def)
next
  case (Rx_SDO k)
  have "wp (CO_SDO_receive (co_SDOserver co ! k) d) sdo_inv" if "k < length (co_SDOserver co)"
    using that i by (intro CO_SDO_receive_ok) (simp add: node_inv_def list_all_length)
  then show ?thesis using Rx_SDO i by (auto simp: wp_ex node_inv_def list_all_length nth_list_update)
next
  case (Rx_RPDO k)
  have "wp (CO_PDO_receive (co_RPDO co ! k) (co_SYNC co) (word_of_nat (length d)) (can_data d)) rpdo_inv" if "k < length (co_RPDO co)"
    using that i CO_PDO_receive_inv [of "co_RPDO co ! k" "can_data d" "co_SYNC co" "word_of_nat (length d)"]
    by (auto simp: node_inv_def list_all_length wp_ex)
  then show ?thesis using Rx_RPDO i by (auto simp: wp_ex node_inv_def list_all_length nth_list_update)
qed (use i in \<open>simp_all add: node_inv_def\<close>)

lemma node_step_inv:
  assumes i: "node_inv co"
  shows "wp (node_step e co) (\<lambda>co'. node_inv co')"
proof (cases e)
  case (Node_process status td tn)
  then show ?thesis using CO_process_inv [OF i, of status td tn] by (auto simp: wp_ex)
next
  case (Node_processRT normal td tn)
  then show ?thesis using CO_epoll_processRT_inv [OF i, of normal td tn] by (auto simp: wp_ex)
next
  case (Node_receive r d)
  then show ?thesis using node_receive_inv [OF i] by simp
next
  case (Node_bufferFull k full)
  have "sdo_inv (s\<lparr>CANtx_bufferFull := full\<rparr>)" if "sdo_inv s" for s
    using that sdo_step_inv step_driver by blast
  then show ?thesis using Node_bufferFull i by (auto simp: node_inv_def list_all_length nth_list_update)
next
  case (Node_error v b code info)
  have "b \<ge> 0x30 \<Longrightarrow> err_bit b \<notin> {CO_EM_HEARTBEAT_CONSUMER, CO_EM_HB_CONSUMER_REMOTE_RESET}"
    by (auto simp: err_bit_def word_le_nat_alt)
  then have "node_inv (co\<lparr>co_em := error_result (co_em co) v b code info\<rparr>)" if "b \<ge> 0x30"
    using that i by (intro node_inv_env(2)) (auto simp: node_inv_def intro: hb_env_error)
  then show ?thesis using Node_error i by (simp add: CO_error_eq node_inv_def)
next
  case (Node_sendRequest k)
  have "tpdo_inv (CO_TPDOsendRequest T)" if "tpdo_inv T" for T using that by (simp add: CO_TPDOsendRequest_def)
  then show ?thesis using Node_sendRequest i by (auto simp: node_inv_def list_all_length nth_list_update)
qed

interpretation nodesys: safe_system node_inv node_step
  by unfold_locales (rule node_step_inv)

section \<open>Initialisation\<close>

text \<open>
  The node as it is allocated (\<open>CO_new\<close>): arrays of their sizes, monitored nodes zeroed, an object
  dictionary with well-behaved read functions, and an LSS slave that was initialised with the identifier.
\<close>

definition node_allocated :: "co_config \<Rightarrow> u8 \<Rightarrow> CO_t \<Rightarrow> bool" where
  "node_allocated cf node co \<longleftrightarrow> od_bounded (co_OD co) \<and> length (em_fifo (co_em co)) = unat (CNT_ARR_1003 cf + 1) \<and>
     hb_sent (co_NMT co) = [] \<and> length (tx_data (HB_TXbuff (co_NMT co))) = 8 \<and> list_all sdo_allocated (co_SDOserver co) \<and>
     pred_option (\<lambda>hb. unat (CNT_ARR_1016 cf) \<le> length (monitoredNodes hb) \<and> set (monitoredNodes hb) \<subseteq> {hb_node_zero}) (co_HBcons co) \<and>
     pred_option (lss_inv node) (co_LSSslave co)"

definition node_mappings :: "co_config \<Rightarrow> CO_t \<Rightarrow> bool" where
  "node_mappings cf co \<longleftrightarrow>
     (\<forall>i<length (co_RPDO co). \<forall>e. OD_GET (co_OD co) 0x1600 i = Some e \<longrightarrow> map_complete e (em_mem (co_em co))) \<and>
     (\<forall>i<length (co_TPDO co). \<forall>e. OD_GET (co_OD co) 0x1A00 i = Some e \<longrightarrow> map_complete e (em_mem (co_em co))) \<and>
     (\<forall>i<length (co_TPDO co). length (tx_data (tx_buffer cf (Obj_TPDO i))) = 8)"

text \<open>The invariant without the lists of objects.\<close>

definition node_core :: "CO_t \<Rightarrow> bool" where
  "node_core co \<longleftrightarrow> em_inv (co_em co) \<and> od_bounded (co_OD co) \<and> nmt_inv (co_NMT co) \<and>
     pred_option (\<lambda>L. lss_inv (activeNodeID L) L \<and> (nodeIdUnconfigured co \<longleftrightarrow> activeNodeID L = CO_LSS_NODE_ID_ASSIGNMENT))
       (co_LSSslave co) \<and>
     pred_option (\<lambda>hb. hb_good (hb\<lparr>hb_em := co_em co\<rparr>)) (co_HBcons co)"

lemma node_inv_core:
  "node_inv co \<longleftrightarrow> node_core co \<and> list_all sdo_inv (co_SDOserver co) \<and> list_all rpdo_inv (co_RPDO co) \<and> list_all tpdo_inv (co_TPDO co)"
  by (auto simp: node_inv_def node_core_def)

lemma node_core_env:
  assumes "node_core co" "hb_env_ok (co_em co) em"
  shows "node_core (co\<lparr>co_em := em\<rparr>)"
proof -
  have "pred_option (\<lambda>hb. hb_good (hb\<lparr>hb_em := em\<rparr>)) (co_HBcons co)"
    using assms hb_env_good [of "hb\<lparr>hb_em := co_em co\<rparr>" em for hb] by (cases "co_HBcons co") (simp_all add: node_core_def)
  then show ?thesis using assms hb_env_inv by (simp add: node_core_def)
qed

lemma init_then_ok:
  assumes "init_then r f = Some (CO_ERROR_NO, info, co')"
  obtains info1 co1 where "r = Some (CO_ERROR_NO, info1, co1)" "f co1 = Some (CO_ERROR_NO, info, co')"
  using assms by (auto simp: init_then_def split: bind_splits if_splits)

lemma CO_EM_init_rx:
  "CO_EM_init rxRet txOk tx st m em e1001 fifo fsz e1014 e1015 e1003 eStatus node = (CO_ERROR_NO, info, em') \<Longrightarrow> rxRet = CO_ERROR_NO"
  by (auto simp: CO_EM_init_def em_init_producer_def Let_def split: if_splits option.splits prod.splits)

lemma CO_NMT_init_rx:
  "CO_NMT_init rxRet t1 t2 NMT e1017 emOk node control first idNMT idHB = (CO_ERROR_NO, info, NMT') \<Longrightarrow> rxRet = CO_ERROR_NO"
  by (auto simp: CO_NMT_init_def Let_def split: if_splits prod.splits)

lemma init_EM_ok:
  assumes "init_EM cf eStatus node co = Some (CO_ERROR_NO, info, co')" "length (em_fifo (co_em co)) = unat (CNT_ARR_1003 cf + 1)"
  shows "em_inv (co_em co')" "co' = co\<lparr>co_em := co_em co'\<rparr>"
proof -
  obtain em where n: "CO_EM_init (rx_config cf Obj_EM) (tx_config cf Obj_EM) (tx_buffer cf Obj_EM) (CANerrorStatus (co_em co))
      (em_mem (co_em co)) (co_em co) (OD_find (co_OD co) 0x1001) (Some (em_fifo (co_em co))) (CNT_ARR_1003 cf + 1)
      (OD_find (co_OD co) 0x1014) (OD_find (co_OD co) 0x1015) (OD_find (co_OD co) 0x1003) eStatus node = (CO_ERROR_NO, info, em)"
      "co' = co\<lparr>co_em := em\<rparr>"
    using assms(1) by (auto simp: init_EM_def Let_def split: prod.splits)
  have "em_inv em" by (rule CO_EM_init_inv(1) [OF n(1) [unfolded CO_EM_init_rx [OF n(1)]] assms(2)])
  then show "em_inv (co_em co')" "co' = co\<lparr>co_em := co_em co'\<rparr>" using n(2) by simp_all
qed

lemma init_NMT_ok:
  assumes "init_NMT cf control first node co = Some (CO_ERROR_NO, info, co')"
    and "hb_sent (co_NMT co) = []" "length (tx_data (HB_TXbuff (co_NMT co))) = 8"
  shows "nmt_inv (co_NMT co')" "\<exists>m. co' = co\<lparr>co_NMT := co_NMT co', co_em := (co_em co)\<lparr>em_mem := m\<rparr>\<rparr>"
proof -
  obtain NMT where n: "CO_NMT_init (rx_config cf Obj_NMT) (tx_config cf Obj_NMT) (tx_config cf Obj_HBproducer)
      ((co_NMT co)\<lparr>nmt_mem := em_mem (co_em co)\<rparr>) (OD_find (co_OD co) 0x1017) True node control first 0 (0x700 + ucast node) =
      (CO_ERROR_NO, info, NMT)" "co' = co\<lparr>co_NMT := NMT, co_em := (co_em co)\<lparr>em_mem := nmt_mem NMT\<rparr>\<rparr>"
    using assms(1) by (auto simp: init_NMT_def Let_def split: prod.splits)
  have "nmt_inv NMT" by (rule CO_NMT_init_inv [OF n(1) [unfolded CO_NMT_init_rx [OF n(1)]]]) (simp_all add: assms(2,3))
  then show "nmt_inv (co_NMT co')" "\<exists>m. co' = co\<lparr>co_NMT := co_NMT co', co_em := (co_em co)\<lparr>em_mem := m\<rparr>\<rparr>"
    using n(2) by auto
qed

lemma init_HBcons_ok:
  assumes "init_HBcons cf co = Some (CO_ERROR_NO, info, co')" "em_inv (co_em co)" "od_bounded (co_OD co)" "nmt_inv (co_NMT co)"
    and "pred_option (\<lambda>hb. unat (CNT_ARR_1016 cf) \<le> length (monitoredNodes hb) \<and> set (monitoredNodes hb) \<subseteq> {hb_node_zero}) (co_HBcons co)"
    and "pred_option (\<lambda>L. lss_inv (activeNodeID L) L \<and> (nodeIdUnconfigured co \<longleftrightarrow> activeNodeID L = CO_LSS_NODE_ID_ASSIGNMENT)) (co_LSSslave co)"
  shows "node_core co'" "co' = co\<lparr>co_HBcons := co_HBcons co', co_em := co_em co'\<rparr>"
proof -
  have "node_core co' \<and> co' = co\<lparr>co_HBcons := co_HBcons co', co_em := co_em co'\<rparr>"
  proof (cases "co_HBcons co")
    case None
    then show ?thesis using assms by (simp add: init_HBcons_def node_core_def)
  next
    case (Some hb)
    have e: "OD_find (co_OD co) 0x1016 \<noteq> None"
      by (rule ccontr) (use assms(1) Some in \<open>simp add: init_HBcons_def CO_HBconsumer_init_def\<close>)
    then obtain e hb' where h: "OD_find (co_OD co) 0x1016 = Some e"
        "CO_HBconsumer_init (rx_config cf Obj_HBcons) (co_em co) (monitoredNodes hb) (CNT_ARR_1016 cf) (Some e) hb = Some (CO_ERROR_NO, info, hb')"
        "co' = co\<lparr>co_HBcons := Some hb', co_em := hb_em hb'\<rparr>"
      using assms(1) Some by (auto simp: init_HBcons_def split: bind_splits)
    have "hb_good hb'" using CO_HBconsumer_init_good [OF assms(2) _ _ h(2)] assms(5) Some by simp
    then show ?thesis using h(3) assms by (simp add: node_core_def hb_good_def hb_inv_def)
  qed
  then show "node_core co'" "co' = co\<lparr>co_HBcons := co_HBcons co', co_em := co_em co'\<rparr>" by blast+
qed

lemma hb_env_mem: "em_inv em \<Longrightarrow> hb_env_ok em (em\<lparr>em_mem := m\<rparr>)"
  by (rule hb_env_bits) simp_all

text \<open>A loop over objects whose initialisation keeps what holds of the others.\<close>

lemma init_list_ok:
  assumes "init_list f [k..<n] co = Some (CO_ERROR_NO, info, co')" "k \<le> n" "P k co"
    and "\<And>i co info co'. k \<le> i \<Longrightarrow> i < n \<Longrightarrow> P i co \<Longrightarrow> f i co = Some (CO_ERROR_NO, info, co') \<Longrightarrow> P (Suc i) co'"
  shows "P n co'"
  using assms
proof (induction "n - k" arbitrary: k co)
  case 0
  then show ?case by simp
next
  case (Suc d)
  then have k: "k < n" by simp
  then have "init_then (f k co) (init_list f [Suc k..<n]) = Some (CO_ERROR_NO, info, co')"
    using Suc.prems(1) by (simp add: upt_conv_Cons)
  then obtain info1 co1 where f: "f k co = Some (CO_ERROR_NO, info1, co1)" "init_list f [Suc k..<n] co1 = Some (CO_ERROR_NO, info, co')"
    by (rule init_then_ok)
  show ?case by (rule Suc.hyps(1) [OF _ f(2)]) (use Suc.hyps(2) Suc.prems(3,4) f(1) k in auto)
qed

definition sdo_upto :: "CO_t \<Rightarrow> nat \<Rightarrow> CO_t \<Rightarrow> bool" where
  "sdo_upto co0 i co \<longleftrightarrow> node_core co \<and> (\<forall>k<length (co_SDOserver co). if k < i then sdo_inv (co_SDOserver co ! k) else sdo_allocated (co_SDOserver co ! k)) \<and>
     co_OD co = co_OD co0 \<and> co_RPDO co = co_RPDO co0 \<and> co_TPDO co = co_TPDO co0 \<and> nodeIdUnconfigured co = nodeIdUnconfigured co0 \<and>
     length (co_SDOserver co) = length (co_SDOserver co0)"

lemma init_SDO_ok:
  assumes "sdo_upto co0 i co" "init_SDO cf timeout node i co = Some (CO_ERROR_NO, info, co')"
  shows "sdo_upto co0 (Suc i) co'"
proof -
  obtain s par s' where s: "i < length (co_SDOserver co)" "s = co_SDOserver co ! i"
      "CO_SDOserver_init (rx_config cf (Obj_SDO i)) (tx_config cf (Obj_SDO i)) (sdo_load (co_em co) (co_OD co) s) (co_OD co) par node timeout =
        (CO_ERROR_NO, info, s')"
      "co' = co\<lparr>co_SDOserver := (co_SDOserver co)[i := s'], co_em := (co_em co)\<lparr>em_mem := od_mem s'\<rparr>\<rparr>"
    using assms(2) by (auto simp: init_SDO_def sdo_store_def arr_get_def Let_def split: bind_splits prod.splits if_splits)
  have core: "node_core co" using assms(1) by (simp add: sdo_upto_def)
  have "sdo_allocated s" using assms(1) s(1,2) by (auto simp: sdo_upto_def)
  then have "sdo_allocated (sdo_load (co_em co) (co_OD co) s)" by (simp add: sdo_allocated_def sdo_load_def)
  moreover have "od_bounded (co_OD co)" using core by (simp add: node_core_def)
  ultimately have "sdo_inv s'" using CO_SDOserver_init_inv s(3) by blast
  moreover have "node_core (co\<lparr>co_em := (co_em co)\<lparr>em_mem := od_mem s'\<rparr>\<rparr>)"
    using core by (intro node_core_env hb_env_mem) (simp_all add: node_core_def)
  then have "node_core co'" unfolding s(4) by (simp add: node_core_def)
  ultimately show ?thesis using assms(1) s(1) unfolding sdo_upto_def s(4) by (auto simp: nth_list_update less_Suc_eq)
qed

lemma CO_SYNC_init_bits:
  "errorStatusBits (sync_em (snd (snd (CO_SYNC_init rxRet txOk tx em (S\<lparr>sync_em := em\<rparr>) e1005 e1006 e1007 e1019)))) = errorStatusBits em"
  by (simp add: CO_SYNC_init_def sync_init_counter_def sync_zero_def sync_txInit_def Let_def case_prod_beta)

lemma init_SYNC_ok:
  assumes "sdo_upto co0 i co" "init_SYNC cf co = Some (err, info, co')"
  shows "sdo_upto co0 i co'"
proof (cases "co_SYNC co")
  case None
  then show ?thesis using assms by (simp add: init_SYNC_def)
next
  case (Some S)
  define S' where "S' = snd (snd (CO_SYNC_init (rx_config cf Obj_SYNC) (tx_config cf Obj_SYNC) (tx_buffer cf Obj_SYNC) (co_em co)
      (S\<lparr>sync_em := co_em co\<rparr>) (OD_find (co_OD co) 0x1005) (OD_find (co_OD co) 0x1006) (OD_find (co_OD co) 0x1007) (OD_find (co_OD co) 0x1019)))"
  have co': "co' = co\<lparr>co_SYNC := Some S', co_em := sync_em S'\<rparr>"
    using assms(2) Some by (simp add: init_SYNC_def S'_def Let_def case_prod_beta)
  have "em_inv (co_em co)" using assms(1) by (simp add: sdo_upto_def node_core_def)
  then have "hb_env_ok (co_em co) (sync_em S')"
    unfolding S'_def by (intro hb_env_bits CO_SYNC_init_inv) (simp_all add: CO_SYNC_init_bits)
  then have "node_core (co\<lparr>co_em := sync_em S'\<rparr>)" using assms(1) by (intro node_core_env) (simp_all add: sdo_upto_def)
  then have "node_core co'" unfolding co' by (simp add: node_core_def)
  then show ?thesis using assms(1) by (simp add: sdo_upto_def co')
qed

lemma init_TIME_ok: "sdo_upto co0 i co \<Longrightarrow> init_TIME cf co = Some (err, info, co') \<Longrightarrow> sdo_upto co0 i co'"
  by (auto simp: init_TIME_def sdo_upto_def node_core_def split: option.splits prod.splits)

lemma CO_CANopenInit_ok:
  assumes a: "node_allocated cf node co" and i: "CO_CANopenInit cf eStatus control first timeout node co = Some (CO_ERROR_NO, info, co')"
  shows "node_core co'" "list_all sdo_inv (co_SDOserver co')" "co_OD co' = co_OD co" "co_RPDO co' = co_RPDO co"
    "co_TPDO co' = co_TPDO co" "\<not> nodeIdUnconfigured co'"
proof -
  define co0 where "co0 = (if co_LEDs co = None then co\<lparr>nodeIdUnconfigured := False\<rparr>
    else co\<lparr>nodeIdUnconfigured := False, co_LEDs := Some (snd CO_LEDs_init)\<rparr>)"
  have n: "\<not> (co_LSSslave co \<noteq> None \<and> node = CO_LSS_NODE_ID_ASSIGNMENT)"
    by (rule ccontr) (use i in \<open>simp add: CO_CANopenInit_def Let_def\<close>)
  have "init_then (init_EM cf eStatus node co0) (\<lambda>co. init_then (init_NMT cf control first node co) (\<lambda>co.
      init_then (init_HBcons cf co) (\<lambda>co. init_then (init_list (init_SDO cf timeout node) [0..<length (co_SDOserver co)] co)
        (\<lambda>co. init_then (init_TIME cf co) (init_SYNC cf))))) = Some (CO_ERROR_NO, info, co')"
    using i n by (auto simp: CO_CANopenInit_def co0_def Let_def split: if_splits)
  then obtain i1 co1 i2 co2 i3 co3 i4 co4 i5 co5 where
      1: "init_EM cf eStatus node co0 = Some (CO_ERROR_NO, i1, co1)" and
      2: "init_NMT cf control first node co1 = Some (CO_ERROR_NO, i2, co2)" and
      3: "init_HBcons cf co2 = Some (CO_ERROR_NO, i3, co3)" and
      4: "init_list (init_SDO cf timeout node) [0..<length (co_SDOserver co3)] co3 = Some (CO_ERROR_NO, i4, co4)" and
      5: "init_TIME cf co4 = Some (CO_ERROR_NO, i5, co5)" and 6: "init_SYNC cf co5 = Some (CO_ERROR_NO, info, co')"
    by (elim init_then_ok) blast
  have lss: "pred_option (\<lambda>L. lss_inv (activeNodeID L) L \<and> activeNodeID L \<noteq> CO_LSS_NODE_ID_ASSIGNMENT) (co_LSSslave co)"
    using a n by (cases "co_LSSslave co") (auto simp: node_allocated_def lss_inv_def)
  have f0: "co_OD co0 = co_OD co" "co_NMT co0 = co_NMT co" "co_em co0 = co_em co" "co_HBcons co0 = co_HBcons co" "co_LSSslave co0 = co_LSSslave co"
    "co_SDOserver co0 = co_SDOserver co" "co_RPDO co0 = co_RPDO co" "co_TPDO co0 = co_TPDO co" "\<not> nodeIdUnconfigured co0"
    by (simp_all add: co0_def)
  obtain em1 where co1: "co1 = co0\<lparr>co_em := em1\<rparr>" "em_inv em1" using init_EM_ok [OF 1] a f0 by (auto simp: node_allocated_def)
  obtain m NMT where co2: "co2 = co1\<lparr>co_NMT := NMT, co_em := em1\<lparr>em_mem := m\<rparr>\<rparr>" "nmt_inv NMT"
    using init_NMT_ok [OF 2] a f0 co1(1) by (auto simp: node_allocated_def)
  have "node_core co3" "co3 = co2\<lparr>co_HBcons := co_HBcons co3, co_em := co_em co3\<rparr>"
    using init_HBcons_ok [OF 3] a f0 co1 co2 lss by (simp_all add: node_allocated_def)
  then obtain hb em3 where co3: "co3 = co2\<lparr>co_HBcons := hb, co_em := em3\<rparr>" "node_core co3" by blast
  have "sdo_upto co0 0 co3" using co3(2) a f0 unfolding co3(1) co2(1) co1(1) by (simp add: sdo_upto_def node_allocated_def list_all_length)
  then have "sdo_upto co0 (length (co_SDOserver co3)) co4" using init_list_ok [OF 4, of "sdo_upto co0"] init_SDO_ok by blast
  then have "sdo_upto co0 (length (co_SDOserver co3)) co'" using init_TIME_ok [OF _ 5] init_SYNC_ok [OF _ 6] by blast
  moreover have "length (co_SDOserver co3) = length (co_SDOserver co0)" unfolding co3(1) co2(1) co1(1) by simp
  ultimately show "node_core co'" "list_all sdo_inv (co_SDOserver co')" "co_OD co' = co_OD co" "co_RPDO co' = co_RPDO co"
    "co_TPDO co' = co_TPDO co" "\<not> nodeIdUnconfigured co'"
    using f0 by (auto simp: sdo_upto_def list_all_length)
qed

lemma mapping_report_env:
  assumes "em_inv em" "mapping_report em em'"
  shows "hb_env_ok em em'" "em_mem em' = em_mem em"
  using assms by (auto simp: mapping_report_def err_bit_def intro: hb_env_refl hb_env_error)

definition pdo_upto :: "co_config \<Rightarrow> nat \<Rightarrow> nat \<Rightarrow> CO_t \<Rightarrow> bool" where
  "pdo_upto cf i j co \<longleftrightarrow> node_core co \<and> list_all sdo_inv (co_SDOserver co) \<and> node_mappings cf co \<and>
     i \<le> length (co_RPDO co) \<and> j \<le> length (co_TPDO co) \<and>
     (\<forall>k<i. rpdo_inv (co_RPDO co ! k)) \<and> (\<forall>k<j. tpdo_inv (co_TPDO co ! k)) \<and> \<not> nodeIdUnconfigured co"

lemma pdo_upto_env:
  assumes "pdo_upto cf i j co" "mapping_report (co_em co) em"
  shows "pdo_upto cf i j (co\<lparr>co_em := em\<rparr>)"
proof -
  have "em_inv (co_em co)" using assms(1) by (simp add: pdo_upto_def node_core_def)
  note e = mapping_report_env [OF this assms(2)]
  show ?thesis using assms(1) node_core_env [OF _ e(1)] e(2) by (simp add: pdo_upto_def node_mappings_def)
qed

lemma init_RPDO_ok:
  assumes u: "pdo_upto cf i j co" and r: "init_RPDO cf node i co = Some (CO_ERROR_NO, info, co')"
  shows "pdo_upto cf (Suc i) j co' \<and> length (co_RPDO co') = length (co_RPDO co) \<and> length (co_TPDO co') = length (co_TPDO co)"
proof -
  obtain pre comm mapp R0 R where h: "i < length (co_RPDO co)" "OD_GET (co_OD co) 0x1600 i = Some mapp"
      "CO_RPDO_init (rx_config cf (Obj_RPDO i)) (co_em co) (co_OD co) R0 pre comm mapp = Some (CO_ERROR_NO, info, R)"
      "co' = co\<lparr>co_RPDO := (co_RPDO co)[i := R], co_em := pdo_em R\<rparr>"
    using r by (auto simp: init_RPDO_def arr_get_def Let_def split: bind_splits if_splits)
  have "em_inv (co_em co)" "od_bounded (co_OD co)" "map_complete mapp (em_mem (co_em co))"
    using u h(1,2) by (auto simp: pdo_upto_def node_core_def node_mappings_def)
  from CO_RPDO_init_inv [OF this h(3)] have R: "rpdo_inv R" "mapping_report (co_em co) (pdo_em R)" by auto
  have "pdo_upto cf i j (co\<lparr>co_em := pdo_em R\<rparr>)" by (rule pdo_upto_env [OF u R(2)])
  then show ?thesis using R(1) h(1) unfolding h(4) pdo_upto_def node_core_def node_mappings_def by (auto simp: nth_list_update less_Suc_eq)
qed

lemma init_TPDO_ok:
  assumes u: "pdo_upto cf i j co" and r: "init_TPDO cf node j co = Some (CO_ERROR_NO, info, co')"
  shows "pdo_upto cf i (Suc j) co' \<and> length (co_RPDO co') = length (co_RPDO co) \<and> length (co_TPDO co') = length (co_TPDO co)"
proof -
  obtain pre comm mapp T0 T where h: "j < length (co_TPDO co)" "OD_GET (co_OD co) 0x1A00 j = Some mapp"
      "CO_TPDO_init (tx_config cf (Obj_TPDO j)) (tx_buffer cf (Obj_TPDO j)) (co_em co) (co_OD co) T0 pre comm mapp = Some (CO_ERROR_NO, info, T)"
      "co' = co\<lparr>co_TPDO := (co_TPDO co)[j := T], co_em := pdo_em T\<rparr>"
    using r by (auto simp: init_TPDO_def arr_get_def Let_def split: bind_splits if_splits)
  have "em_inv (co_em co)" "od_bounded (co_OD co)" "map_complete mapp (em_mem (co_em co))" "length (tx_data (tx_buffer cf (Obj_TPDO j))) = 8"
    using u h(1,2) by (auto simp: pdo_upto_def node_core_def node_mappings_def)
  from CO_TPDO_init_inv [OF this h(3)] have T: "tpdo_inv T" "mapping_report (co_em co) (pdo_em T)" by auto
  have "pdo_upto cf i j (co\<lparr>co_em := pdo_em T\<rparr>)" by (rule pdo_upto_env [OF u T(2)])
  then show ?thesis using T(1) h(1) unfolding h(4) pdo_upto_def node_core_def node_mappings_def by (auto simp: nth_list_update less_Suc_eq)
qed

lemma CO_CANopenInitPDO_ok:
  assumes u: "pdo_upto cf 0 0 co" and i: "CO_CANopenInitPDO cf node co = Some (CO_ERROR_NO, info, co')"
  shows "node_inv co'" "\<not> nodeIdUnconfigured co'"
proof -
  have "init_then (init_list (init_RPDO cf node) [0..<length (co_RPDO co)] co) (\<lambda>co.
      init_list (init_TPDO cf node) [0..<length (co_TPDO co)] co) = Some (CO_ERROR_NO, info, co')"
    using i by (auto simp: CO_CANopenInitPDO_def split: if_splits)
  then obtain info1 co1 where 1: "init_list (init_RPDO cf node) [0..<length (co_RPDO co)] co = Some (CO_ERROR_NO, info1, co1)"
      and 2: "init_list (init_TPDO cf node) [0..<length (co_TPDO co1)] co1 = Some (CO_ERROR_NO, info, co')"
    by (rule init_then_ok)
  have r: "pdo_upto cf (length (co_RPDO co)) 0 co1 \<and> length (co_RPDO co1) = length (co_RPDO co)"
    by (rule init_list_ok [OF 1, where P = "\<lambda>i c. pdo_upto cf i 0 c \<and> length (co_RPDO c) = length (co_RPDO co)"])
       (use u init_RPDO_ok in auto)
  have "pdo_upto cf (length (co_RPDO co)) (length (co_TPDO co1)) co' \<and> length (co_TPDO co') = length (co_TPDO co1) \<and>
      length (co_RPDO co') = length (co_RPDO co)"
    by (rule init_list_ok [OF 2, where P = "\<lambda>j c. pdo_upto cf (length (co_RPDO co)) j c \<and> length (co_TPDO c) = length (co_TPDO co1) \<and>
          length (co_RPDO c) = length (co_RPDO co)"]) (use r init_TPDO_ok in auto)
  then show "node_inv co'" "\<not> nodeIdUnconfigured co'" by (auto simp: pdo_upto_def node_inv_core list_all_length)
qed

section \<open>A lost heartbeat\<close>

text \<open>What a call of a configured node does with the network state and the heartbeat consumer.\<close>

lemma process_configured_parts:
  assumes "node_inv co" "co_HBcons co = Some hb"
  obtains em1 em3 tn1 tn3 tn4 reset hb' co' where "hb_env_ok (co_em co) em1" "hb_env_ok em1 em3"
    "process_configured co pre td tn = Some (reset, tn4, co')"
    "co_NMT co' = nmt_after ((co_NMT co)\<lparr>nmt_mem := em_mem em1\<rparr>) em1 td tn1"
    "CO_HBconsumer_process (hb\<lparr>hb_em := em3\<rparr>) (is_PreOrOperational (operatingState (co_NMT co'))) td tn3 = Some (hb', tn4)"
    "co_HBcons co' = Some hb'" "co_em co' = hb_em hb'"
proof -
  obtain tn1 co1 where 1: "process_EM co pre td tn = Some (tn1, co1)" "node_inv co1" "hb_env_ok (co_em co) (co_em co1)" "co1 = co\<lparr>co_em := co_em co1\<rparr>"
    using process_EM_inv [OF assms(1), of pre td tn] by (auto simp: wp_ex)
  have f1: "co_NMT co1 = co_NMT co" "co_HBcons co1 = Some hb" by (subst 1(4), simp add: assms(2))+
  define NMT' where "NMT' = nmt_after ((co_NMT co)\<lparr>nmt_mem := em_mem (co_em co1)\<rparr>) (co_em co1) td tn1"
  obtain reset tn2 co2 where 2: "process_NMT co1 td tn1 = (reset, operatingState NMT', tn2, co2)" "node_inv co2" "co2 = co1\<lparr>co_NMT := NMT'\<rparr>"
    using process_NMT_inv [OF 1(2), of td tn1] f1(1) by (auto simp: NMT'_def)
  define p where "p = is_PreOrOperational (operatingState NMT')"
  obtain tn3 co3 where 3: "process_SDOserver co2 p td tn2 = Some (tn3, co3)" "node_inv co3" "hb_env_ok (co_em co2) (co_em co3)"
      "co3 = co2\<lparr>co_em := co_em co3, co_OD := co_OD co3, co_SDOserver := co_SDOserver co3\<rparr>"
    using process_SDOserver_inv [OF 2(2), of p td tn2] by (auto simp: wp_ex)
  have f3: "co_NMT co3 = NMT'" "co_HBcons co3 = Some hb" "co_em co2 = co_em co1"
    by (subst 3(4), simp add: 2(3), subst 3(4), simp add: 2(3) f1) (simp add: 2(3))
  have "hb_good (hb\<lparr>hb_em := co_em co3\<rparr>)" using 3(2) f3(2) by (simp add: node_inv_def)
  from CO_HBconsumer_process_good [OF this, of p td tn3] obtain hb' tn4 where
      4: "CO_HBconsumer_process (hb\<lparr>hb_em := co_em co3\<rparr>) p td tn3 = Some (hb', tn4)"
    by (auto simp: wp_ex)
  let ?co4 = "co3\<lparr>co_HBcons := Some hb', co_em := hb_em hb'\<rparr>"
  have c: "process_configured co pre td tn = Some (reset, tn4, process_TIME ?co4 p td)"
    using 1(1) 2(1) 3(1) 4 f3(2) by (simp add: process_configured_def process_HBcons_def flip: p_def)
  have f: "co_NMT (process_TIME ?co4 p td) = NMT'" "co_HBcons (process_TIME ?co4 p td) = Some hb'" "co_em (process_TIME ?co4 p td) = hb_em hb'"
    by (subst process_TIME_fields, simp add: f3(1))+
  show ?thesis
    by (rule that [OF 1(3) _ c]) (use 3(3) f f3(3) 4 in \<open>simp_all add: NMT'_def p_def\<close>)
qed

lemma CO_process_parts:
  assumes "node_inv co" "co_HBcons co = Some hb" "\<not> nodeIdUnconfigured co"
  obtains em1 em3 tn1 tn3 tn4 reset hb' co' where "hb_env_ok (co_em co) em1" "hb_env_ok em1 em3"
    "CO_process status co td tn = Some (reset, tn4, co')"
    "co_NMT co' = nmt_after ((co_NMT co)\<lparr>nmt_mem := em_mem em1\<rparr>) em1 td tn1"
    "CO_HBconsumer_process (hb\<lparr>hb_em := em3\<rparr>) (is_PreOrOperational (operatingState (co_NMT co'))) td tn3 = Some (hb', tn4)"
    "co_HBcons co' = Some hb'" "co_em co' = hb_em hb'"
proof -
  define co0 where "co0 = co\<lparr>co_em := (co_em co)\<lparr>CANerrorStatus := status\<rparr>\<rparr>"
  have i0: "node_inv co0" unfolding co0_def by (rule node_inv_status [OF assms(1)])
  obtain r co1 where 1: "process_LSSslave co0 = Some (r, co1)" "node_inv co1" "co1 = co0\<lparr>co_LSSslave := co_LSSslave co1\<rparr>"
    using process_LSSslave_inv [OF i0] by (auto simp: wp_ex)
  define st where "st = CO_NMT_getInternalState (co_NMT co)"
  obtain tn2 co2 where 2: "process_LEDs co1 st td tn = (tn2, co2)" "node_inv co2" "co2 = co1\<lparr>co_LEDs := co_LEDs co2\<rparr>"
    using process_LEDs_inv [of co1 st td tn] 1(2) by (cases "process_LEDs co1 st td tn") auto
  have f: "co_NMT co2 = co_NMT co" "co_HBcons co2 = Some hb" "\<not> nodeIdUnconfigured co2" "errorStatusBits (co_em co2) = errorStatusBits (co_em co)"
    by (subst 2(3), simp, subst 1(3), simp add: co0_def assms)+
  have c: "CO_process status co td tn = process_configured co2 (is_PreOrOperational st) td tn2"
    using 1(1) 2(1) f(3) by (simp add: CO_process_def Let_def flip: st_def co0_def)
  show ?thesis
    by (rule process_configured_parts [OF 2(2) f(2), of "is_PreOrOperational st" td tn2], rule that)
       (simp_all add: c f(1) hb_env_left [OF f(4)])
qed

text \<open>The silence of a monitored node, and no command of a master.\<close>

fun node_silent :: "nat \<Rightarrow> node_event \<Rightarrow> bool" where
  "node_silent i (Node_receive r d) = (r \<noteq> Rx_NMT \<and> r \<noteq> Rx_HB i)"
| "node_silent i (Node_process status td tn) = (td \<le> 0x7FFFFFFF)"
| "node_silent i _ = True"

fun node_time :: "node_event \<Rightarrow> nat" where
  "node_time (Node_process status td tn) = unat td"
| "node_time _ = 0"

text \<open>
  The node waits for the heartbeat with at most \<open>T\<close> microseconds left, has reported its loss, or has
  stopped because of another error.
\<close>

definition node_waiting :: "nat \<Rightarrow> nat \<Rightarrow> CO_t \<Rightarrow> bool" where
  "node_waiting i T co \<longleftrightarrow> node_inv co \<and> \<not> nodeIdUnconfigured co \<and> internalCommand (co_NMT co) = CO_NMT_NO_COMMAND \<and>
     NMTcontrol (co_NMT co) AND CO_NMT_ERR_ON_BUSOFF_HB \<noteq> 0 \<and>
     (\<exists>hb. co_HBcons co = Some hb \<and>
       (operatingState (co_NMT co) = CO_NMT_STOPPED \<or>
        is_PreOrOperational (operatingState (co_NMT co)) \<and> hb_waiting i T (hb\<lparr>hb_em := co_em co\<rparr>)))"

lemma hb_waiting_env: "hb_waiting i T (hb\<lparr>hb_em := em\<rparr>) \<Longrightarrow> hb_env_ok em em' \<Longrightarrow> hb_waiting i T (hb\<lparr>hb_em := em'\<rparr>)"
  by (auto simp: hb_waiting_def hb_env_ok_def hb_reported_def)

lemma hb_waiting_over:
  assumes "hb_good hb" "hb_waiting i 0 hb"
  shows "CO_isError (hb_em hb) CO_EM_HEARTBEAT_CONSUMER"
proof -
  have "hb_node_ok (hb_monitored hb ! i)"
    using assms by (auto simp: hb_good_def hb_inv_def hb_waiting_def list_all_length)
  then show ?thesis using assms(2) by (auto simp: hb_waiting_def hb_node_ok_def word_less_nat_alt)
qed

lemma nmt_quiet_state:
  assumes "internalCommand NMT = CO_NMT_NO_COMMAND" "st' = operatingState (nmt_after NMT em td tn)"
  shows "operatingState NMT = CO_NMT_STOPPED \<Longrightarrow> st' = CO_NMT_STOPPED"
    "is_PreOrOperational (operatingState NMT) \<Longrightarrow> st' = CO_NMT_STOPPED \<or> is_PreOrOperational st'"
    "operatingState NMT = CO_NMT_STOPPED \<or> is_PreOrOperational (operatingState NMT) \<and> busOff_HB (NMTcontrol NMT) em \<Longrightarrow> st' \<noteq> CO_NMT_OPERATIONAL"
  using assms by (auto simp: CO_NMT_process_fields nmt_command_def boot_state_def nmt_errors_def is_PreOrOperational_def)

lemma node_waiting_process:
  assumes w: "node_waiting i (unat td + T) co" and td: "td \<le> 0x7FFFFFFF"
  shows "\<exists>r tn' co'. CO_process status co td tn = Some (r, tn', co') \<and> node_waiting i T co'"
proof -
  obtain hb where hb: "co_HBcons co = Some hb" using w by (auto simp: node_waiting_def)
  have inv: "node_inv co" "\<not> nodeIdUnconfigured co" using w by (simp_all add: node_waiting_def)
  obtain em1 em3 tn1 tn3 tn4 reset hb' co' where p: "hb_env_ok (co_em co) em1" "hb_env_ok em1 em3"
      "CO_process status co td tn = Some (reset, tn4, co')"
      "co_NMT co' = nmt_after ((co_NMT co)\<lparr>nmt_mem := em_mem em1\<rparr>) em1 td tn1"
      "CO_HBconsumer_process (hb\<lparr>hb_em := em3\<rparr>) (is_PreOrOperational (operatingState (co_NMT co'))) td tn3 = Some (hb', tn4)"
      "co_HBcons co' = Some hb'" "co_em co' = hb_em hb'"
    by (rule CO_process_parts [OF inv(1) hb inv(2), of status td tn])
  have inv': "node_inv co'" "\<not> nodeIdUnconfigured co'" using CO_process_inv [OF inv(1), of status td tn] p(3) inv(2) by auto
  have n: "internalCommand (co_NMT co') = CO_NMT_NO_COMMAND" "NMTcontrol (co_NMT co') = NMTcontrol (co_NMT co)"
    by (simp_all add: p(4) CO_NMT_process_fields)
  note q = nmt_quiet_state [of "(co_NMT co)\<lparr>nmt_mem := em_mem em1\<rparr>" "operatingState (co_NMT co')" em1 td tn1]
  have "operatingState (co_NMT co') = CO_NMT_STOPPED \<or>
      is_PreOrOperational (operatingState (co_NMT co')) \<and> hb_waiting i T hb'"
  proof (cases "operatingState (co_NMT co') = CO_NMT_STOPPED")
    case False
    then have pre: "is_PreOrOperational (operatingState (co_NMT co'))" "hb_waiting i (unat td + T) (hb\<lparr>hb_em := co_em co\<rparr>)"
      using q w hb p(4) by (auto simp: node_waiting_def)
    have g: "hb_good (hb\<lparr>hb_em := em3\<rparr>)"
      using hb_env_good [of "hb\<lparr>hb_em := co_em co\<rparr>" em3] hb_env_trans [OF p(1,2)] inv(1) hb by (simp add: node_inv_def)
    have "hb_waiting i (unat td + T) (hb\<lparr>hb_em := em3\<rparr>)" using pre(2) hb_env_trans [OF p(1,2)] by (rule hb_waiting_env)
    from hb_process_waiting [OF g this td] p(5) pre(1) show ?thesis by simp
  qed simp
  then have "node_waiting i T co'" using inv' n w p(6,7) by (simp add: node_waiting_def)
  then show ?thesis using p(3) by blast
qed

lemma node_waiting_image:
  "node_waiting i T co \<Longrightarrow> image_only co co' \<Longrightarrow> node_inv co' \<Longrightarrow> node_waiting i T co'"
  by (auto simp: node_waiting_def image_only_def intro: hb_waiting_env)

lemma node_waiting_receive_HB:
  assumes w: "node_waiting i T co" and k: "k \<noteq> i" and r: "node_receive (Rx_HB k) d co = Some co'"
  shows "node_waiting i T co'"
proof -
  obtain hb hb' where h: "co_HBcons co = Some hb" "hb_step (Hb_receive k (length d) (can_data d)) hb = Some hb'" "co' = co\<lparr>co_HBcons := Some hb'\<rparr>"
    using w r by (auto simp: node_waiting_def)
  have s: "hb_step (Hb_receive k (length d) (can_data d)) (hb\<lparr>hb_em := co_em co\<rparr>) = Some (hb'\<lparr>hb_em := co_em co\<rparr>)"
    using h(2) by (cases hb) (auto simp: arr_get_def arr_set_def split: if_splits)
  have g: "hb_good (hb\<lparr>hb_em := co_em co\<rparr>)" using w h(1) by (simp add: node_waiting_def node_inv_def)
  have "hb_waiting i T (hb'\<lparr>hb_em := co_em co\<rparr>)" if "hb_waiting i T (hb\<lparr>hb_em := co_em co\<rparr>)"
    using hb_step_waiting [OF g _ _ s, of i T] that k by simp
  moreover have "node_inv co'" using node_receive_inv [of co "Rx_HB k" d] w r by (simp add: node_waiting_def)
  ultimately show ?thesis using w h(1,3) by (auto simp: node_waiting_def)
qed

lemma node_waiting_step:
  assumes w: "node_waiting i (node_time e + T) co" and s: "node_silent i e" and st: "node_step e co = Some co'"
  shows "node_waiting i T co'"
proof -
  have i: "node_inv co" using w by (simp add: node_waiting_def)
  have i': "node_inv co'" using node_step_inv [OF i, of e] st by simp
  show ?thesis
  proof (cases e)
    case (Node_process status td tn)
    then show ?thesis using node_waiting_process [of i td T co status tn] w s st by auto
  next
    case (Node_processRT normal td tn)
    then have "image_only co co'" using CO_epoll_processRT_inv [OF i, of normal td tn] st by auto
    then show ?thesis using node_waiting_image [of i T co co'] w i' Node_processRT by simp
  next
    case (Node_error v b code info)
    have "hb_env_ok (co_em co) (error_result (co_em co) v b code info)" if "b \<ge> 0x30"
      using that i by (intro hb_env_error) (auto simp: err_bit_def word_le_nat_alt node_inv_def)
    then have "image_only co co'"
      using Node_error st i by (auto simp: image_only_def CO_error_eq node_inv_def hb_env_refl split: if_splits)
    then show ?thesis using node_waiting_image [of i T co co'] w i' Node_error by simp
  next
    case (Node_receive r d)
    show ?thesis
    proof (cases r)
      case (Rx_HB k)
      then show ?thesis using node_waiting_receive_HB [of i T co k d co'] Node_receive w s st by simp
    qed (use Node_receive w s st i i' in \<open>auto simp: node_waiting_def split: if_splits\<close>)
  qed (use w st i i' in \<open>auto simp: node_waiting_def split: if_splits\<close>)
qed

lemma node_run_waiting:
  "node_waiting i (sum_list (map node_time es)) co \<Longrightarrow> list_all (node_silent i) es \<Longrightarrow> run node_step es co = Some co' \<Longrightarrow>
   node_waiting i 0 co'"
proof (induction es arbitrary: co)
  case (Cons e es)
  then obtain co1 where h: "node_step e co = Some co1" "run node_step es co1 = Some co'" by (auto split: bind_splits)
  have "node_waiting i (sum_list (map node_time es)) co1"
    using node_waiting_step [OF _ _ h(1)] Cons.prems(1,2) by simp
  then show ?case using Cons.IH Cons.prems(2) h(2) by simp
qed simp

end
