(* ===== verification/Node_Examples.thy ===== *)
theory Node_Examples
  imports Node_Props
begin

text \<open>
  Node 5 with one SDO server, a heartbeat consumer that monitors node 10 (50 ms), an RPDO and a TPDO, started to
  operational; an error of the heartbeat leads to pre-operational.
\<close>

definition example_node_od :: OD_t where
  "example_node_od = map the [example_var 0x1001 64 1, example_var 0x1003 65 1, example_var 0x1014 66 4, example_var 0x1015 70 2] @
     [example_1016\<lparr>subEntriesCount := 2, odObject := Some (ODT_ARR \<lparr>arr_dataOrig0 = Some 74, arr_dataOrig = Some 75, arr_attribute0 = 1,
        arr_attribute = 3, arr_dataElementLength = 4, arr_dataElementSizeof = 4\<rparr>)\<rparr>] @
     map the [example_var 0x1017 72 2, example_comm 0x1400, example_map 0x1600, example_comm 0x1800, example_map 0x1A00] @ example_pdo_od"

definition example_node_mem :: mem where
  "example_node_mem = mem_write (example_pdo_mem 2 0xFE) 64 [0, 0, 0x80, 0, 0, 0, 0, 0, 0xE8, 0x03, 2, 0x32, 0, 0x0A, 0]"

definition example_config :: co_config where
  "example_config = \<lparr>rx_config = \<lambda>_. CO_ERROR_NO, tx_config = \<lambda>_. True, tx_buffer = \<lambda>_. example_tx, CNT_ARR_1003 = 3, CNT_ARR_1016 = 1\<rparr>"

definition example_node_em :: em where
  "example_node_em = (em_zero example_tx 0 example_node_mem)\<lparr>em_fifo := replicate 4 \<lparr>em_msg = 0, em_info = 0\<rparr>\<rparr>"

definition example_node_zero :: CO_t where
  "example_node_zero = \<lparr>nodeIdUnconfigured = False, co_em = example_node_em, co_OD = example_node_od, co_NMT = example_nmt0, co_LSSslave = None,
     co_LEDs = None, co_SDOserver = [example_object], co_HBcons = Some (example_hbz\<lparr>monitoredNodes := [hb_node_zero]\<rparr>), co_TIME = None, co_SYNC = None,
     co_RPDO = [rpdo_zero example_node_em example_node_od], co_TPDO = [tpdo_zero example_tx example_node_em example_node_od]\<rparr>"

definition example_node_init :: init_result where
  "example_node_init = CO_CANopenInit example_config None 0x1100 500 1000 5 example_node_zero"

definition example_node1 :: CO_t where
  "example_node1 = snd (snd (the example_node_init))"

definition example_node_initPDO :: init_result where
  "example_node_initPDO = CO_CANopenInitPDO example_config 5 example_node1"

definition example_node2 :: CO_t where
  "example_node2 = snd (snd (the example_node_initPDO))"

lemma example_node_init_eq: "example_node_init = Some (CO_ERROR_NO, None, example_node1)"
  unfolding example_node1_def by (rule init_result, code_simp)

text \<open>The lists of PDOs have one element each; their mapping parameters are at the same address.\<close>

lemma example_node_mappings: "node_mappings example_config example_node1"
proof -
  have l: "length (co_RPDO example_node1) = 1" "length (co_TPDO example_node1) = 1" by code_simp+
  have "map (map_option (\<lambda>e. map_complete e (em_mem (co_em example_node1))))
      [OD_GET (co_OD example_node1) 0x1600 0, OD_GET (co_OD example_node1) 0x1A00 0] = [Some True, Some True]" by code_simp
  then show ?thesis unfolding node_mappings_def l by (auto simp: example_config_def example_tx_def)
qed

lemma example_node_initPDO_eq: "example_node_initPDO = Some (CO_ERROR_NO, None, example_node2)"
  unfolding example_node2_def by (rule init_result, code_simp)

lemma example_node_allocated: "node_allocated example_config 5 example_node_zero"
proof -
  have "od_bounded example_node_od"
    by (simp add: od_bounded_def example_node_od_def example_var_def example_1016_def example_comm_def example_map_def
        example_entry_def example_pdo_od_def example_pdo_var_def)
  then show ?thesis
    by (simp add: node_allocated_def example_node_zero_def example_config_def example_node_em_def example_nmt0_def example_tx_def
        sdo_allocated_def example_object_def example_hbz_def)
qed

definition example_node3 :: CO_t where
  "example_node3 = the (run node_step [Node_process 0 10 None, Node_process 0 10 None, Node_receive (Rx_HB 0) [5], Node_process 0 10 None] example_node2)"

definition node_view :: "CO_t \<Rightarrow> (nat \<times> bool \<times> CO_HBconsumer_state \<times> bool \<times> u32) \<times> bool \<times> CO_NMT_internalState \<times> u8 \<times> u16" where
  "node_view co = (let hb = the (co_HBcons co); n = monitoredNodes hb ! 0 in
     ((hb_count hb, NMTisPreOrOperationalPrev hb, HBstate n, CANrxNew n, time_us n),
      nodeIdUnconfigured co \<or> Option.is_none (co_HBcons co), operatingState (co_NMT co), internalCommand (co_NMT co), NMTcontrol (co_NMT co)))"

lemma example_node3_view:
  "node_view example_node3 = ((1, True, CO_HBconsumer_ACTIVE, False, 50000), False, CO_NMT_OPERATIONAL, 0, 0x1100)"
  by code_simp

lemma example_node_inv: "node_inv example_node2" "node_inv example_node3"
proof -
  show i: "node_inv example_node2"
    using CO_CANopenInitPDO_ok(1) [OF _ example_node_initPDO_eq [unfolded example_node_initPDO_def]] example_node_mappings
      CO_CANopenInit_ok [OF example_node_allocated example_node_init_eq [unfolded example_node_init_def]]
    by (simp add: pdo_upto_def)
  show "node_inv example_node3" using nodesys.run_defined [OF i] unfolding example_node3_def by (metis option.sel)
qed

end
