(* ===== verification/Spec2Isabelle.thy ===== *)
theory Spec2Isabelle
  imports OD_Access SDO_Transfer SDO_Errors SDO_Client_Errors Fifo HBconsumer LEDs TIME LSS_Commission PDO_Transfer Node_Examples
begin

text \<open>
  \<^bold>\<open>CANopenNode: a verified model of the protocol stack\<close>

  The repository holds a CANopen SDO library and, for its tests, the C stack CANopenNode with its Linux port
  (\<open>src/CANopenNode-test/upstream/CANopenLinux\<close>). This development models the C stack, in the configuration that the
  repository builds (\<open>CO_driver_target.h\<close>: single thread, segmented and block SDO transfers, dynamic
  object dictionary, timers, SYNC and TIME producers, LSS slave, LEDs), and proves what makes it correct.

  \<^bold>\<open>The program.\<close> A node owns one object per protocol. A CAN receive function of an object stores what it needs of a message;
  the process functions, called in turn by the main loop with the elapsed time, do the work and send messages. The objects
  share the emergency object, to which they report errors, the object dictionary and the memory of its variables. The network state
  decides which objects work.

  \<^bold>\<open>Theories and sources\<close> (paths below \<open>CANopenNode/\<close>):
    \<^item> \<open>CO_Prelude\<close>: byte orders, arrays with explicit range, the weakest precondition \<open>wp\<close> of a fallible computation, word lemmas.
    \<^item> \<open>Systems\<close>: the locales \<open>safe_system\<close>, \<open>observed_system\<close> and \<open>simulation\<close> for objects driven by events; every protocol
      object interprets one of them. \<open>Ring\<close>: indices of circular buffers.
    \<^item> \<open>Crc16\<close>: \<open>301/crc16-ccitt.c\<close>; the table is the bit-serial division.
    \<^item> \<open>OD_Interface\<close>, \<open>OD_Access\<close>: \<open>301/CO_ODinterface.c/.h\<close>; entries, binary search, sub-objects, access by streams. The locales
      \<open>OD_readable\<close> and \<open>OD_writable\<close> are the contract of access functions, interpreted on the default ones.
    \<^item> \<open>Fifo\<close>: \<open>301/CO_fifo.c\<close>, the circular buffer, its checksums and the search for command lines, as a queue.
    \<^item> \<open>SDO_Server\<close>, \<open>SDO_Process\<close> (model), \<open>SDO_Safety\<close>, \<open>SDO_Transfer\<close>, \<open>SDO_Errors\<close> (properties): \<open>301/CO_SDOserver.c\<close>, one definition per
      state of the server's state machine.
    \<^item> \<open>SDO_Client\<close>, \<open>SDO_Client_Process\<close> (model), \<open>SDO_Client_Safety\<close>, \<open>SDO_Client_System\<close> (invariant, all runs): \<open>301/CO_SDOclient.c\<close>, one
      definition per state of the two functions that an application calls cyclically, and the transfer within the own node.
    \<^item> \<open>SDO_Session\<close>, \<open>SDO_Upload\<close>, \<open>SDO_Client_Errors\<close>: client and server together, in the application's loop of calls with the messages of
      each side delivered to the other: downloads, uploads, rejected requests, a silent server.
    \<^item> \<open>CO_Driver\<close>: what the objects use of \<open>301/CO_driver.h\<close>. \<open>Emergency\<close>, \<open>Emergency_Props\<close>: \<open>301/CO_Emergency.c\<close>. \<open>NMT\<close>:
      \<open>301/CO_NMT_Heartbeat.c\<close>. \<open>HBconsumer\<close>: \<open>301/CO_HBconsumer.c\<close>. \<open>SYNC\<close>: \<open>301/CO_SYNC.c\<close>. \<open>TIME\<close>: \<open>301/CO_TIME.c\<close>. \<open>LEDs\<close>:
      \<open>303/CO_LEDs.c\<close>. \<open>LSSslave\<close>: \<open>305/CO_LSSslave.c\<close>. \<open>LSSmaster\<close>:
      \<open>305/CO_LSSmaster.c\<close>; \<open>LSS_Session\<close>, \<open>LSS_Commission\<close>: master and slave together. \<open>PDO\<close>, \<open>PDO_Safety\<close>, \<open>PDO_Transfer\<close>: \<open>301/CO_PDO.c\<close>.
    \<^item> \<open>Node\<close>, \<open>Node_Props\<close>, \<open>Node_Examples\<close>: \<open>CANopen.c\<close>, the initialisation and the processing of the whole node, and the
      order of the calls in \<open>CO_epoll_interface.c\<close>.

  \<^bold>\<open>Conventions.\<close> An object is a record with the fields of its C structure, extended by its world: the memory, the messages it has
  handed to the driver and the callbacks it has made. Machine integers are words of their width. A pointer to a variable is an address
  into a byte memory, \<^const>\<open>None\<close> a null pointer. A computation that may access an array out of range or call a null function pointer
  returns an option, and \<^const>\<open>None\<close> is that access; the memory safety theorems say that it does not occur. Errors are the values of the
  source's own enumerations, and a transfer error is a value of the handler. What the driver decides (the results of
  configuring CAN buffers, a full transmit buffer, the error state of the controller) are arguments or events. The application's access functions
  and callbacks are arguments too; the only duty assumed of a read function is the documented one, not to return more bytes
  than asked for. The loops over arrays are structural recursions; the others have a termination proof by a measure (binary
  search, SDO refill, LED ticks, loops over mapped variables), and no fuel is used.

  \<^bold>\<open>What is proved.\<close> Memory safety in all runs of the SDO server, the SDO client, the emergency object, the PDOs and the whole node. The functional behaviour of
  SDO transfers: expedited and segmented uploads and downloads deliver exactly the data, damaged block transfers, wrong toggles, timeouts and
  illegal requests end in the abort that the protocol asks for. From the application of the client to the variable of the server and
  back, regular transfers of up to 1000 bytes (downloads) and 994 bytes (uploads, because a request needs seven free bytes in the client's buffer of 1000)
  end after a known number of calls with the data in place; a rejection reaches the application with its code, a silent server ends in the timeout. The dictionary's search and access, the checksum, the queue. Emergency messages
  in order, error register, inhibit time. Boot-up, heartbeats in time, master commands, the reaction to errors; a silent monitored node is detected and takes
  the node out of the operational state. SYNC numbering and timeout; the time object as a clock; LED patterns; LSS: the assignment
  in the slave, the master's state machines, the fast scan and the commissioning of a slave by the calls of a master; PDO transfer of the mapped values, inhibit and event times, the n-th SYNC. Where the code differs from its
  documentation or intention, a lemma states what it does (for example a lost abort code, or a mapping count that is not checked).

  \<^bold>\<open>Not modelled.\<close> Node guarding, the safety profile (SRDO, GFC), the ASCII gateway with the tokenizer of the
  FIFO, storage and trace; of \<open>CANopen.c\<close> the allocation and the calls of these objects, of the SDO client and of the LSS master; the Linux driver, the event loop's system calls and the main program, which are
  I/O; the generated object dictionaries and examples, which are data; the Rust crate, which is another program. Writes of
  communication parameters through the SDO server reach the objects as events of their own and not through the extensions of the node's dictionary. The composition
  of client and server covers regular transfers; of block transfers both sides are modelled and their buffers are safe, but no theorem follows one from end to end.
\<close>

section \<open>The node\<close>





end
